(* ===== verification/Prelude.thy ===== *)
theory Prelude
  imports Main "HOL-Library.Word"
begin

text \<open>
  The vocabulary every component theory shares: Rust's integer types, the checked
  arithmetic of its standard library, and the result type of fallible code.

  \<^item> \<open>u8\<close> \dots \<open>u64\<close> are words of that width, so that \<open>+\<close> wraps and the
    checked operations say where it would.  \<open>usize\<close> counts elements of collections in
    memory; it is \<open>nat\<close>, and the checked operations on it write the 64-bit bound out.
  \<^item> \<open>('e, 'a) result\<close> is the value of a fallible Rust function.  \<open>Ok\<close> and \<open>Err\<close> are the
    constructors of Rust's \<open>Result\<close>.  \<open>Diverges\<close> is not a value of the code: it is what the
    model of a loop without a structural bound returns when its fuel is spent.  Every
    component that uses fuel proves that the fuel it passes is enough.
  \<^item> \<open>andthen\<close> is the \<open>?\<close> operator: it passes an \<open>Ok\<close> value on and returns
    everything else to the caller.
\<close>

section \<open>Results\<close>

datatype ('e, 'a) result = Ok 'a | Err 'e | Diverges

primrec andthen :: "('e, 'a) result \<Rightarrow> ('a \<Rightarrow> ('e, 'b) result) \<Rightarrow> ('e, 'b) result" where
  "andthen (Ok x) f = f x"
| "andthen (Err e) f = Err e"
| "andthen Diverges f = Diverges"

definition ensure :: "bool \<Rightarrow> 'e \<Rightarrow> ('e, unit) result" where
  "ensure b e = (if b then Ok () else Err e)"

primrec ok_or :: "'a option \<Rightarrow> 'e \<Rightarrow> ('e, 'a) result" where
  "ok_or None e = Err e"
| "ok_or (Some x) e = Ok x"

primrec map_err :: "('e \<Rightarrow> 'f) \<Rightarrow> ('e, 'a) result \<Rightarrow> ('f, 'a) result" where
  "map_err g (Ok x) = Ok x"
| "map_err g (Err e) = Err (g e)"
| "map_err g Diverges = Diverges"

primrec map_ok :: "('a \<Rightarrow> 'b) \<Rightarrow> ('e, 'a) result \<Rightarrow> ('e, 'b) result" where
  "map_ok g (Ok x) = Ok (g x)"
| "map_ok g (Err e) = Err e"
| "map_ok g Diverges = Diverges"

primrec is_ok :: "('e, 'a) result \<Rightarrow> bool" where
  "is_ok (Ok x) = True"
| "is_ok (Err e) = False"
| "is_ok Diverges = False"

text \<open>\<open>result_ok\<close> collects the equations that invert a successful computation.\<close>

named_theorems result_ok

lemma andthen_eq_Ok [result_ok]: "andthen m f = Ok y \<longleftrightarrow> (\<exists>x. m = Ok x \<and> f x = Ok y)"
  by (cases m) auto

lemma andthen_eq_Diverges: "andthen m f = Diverges \<longleftrightarrow> m = Diverges \<or> (\<exists>x. m = Ok x \<and> f x = Diverges)"
  by (cases m) auto

lemma andthen_fundef_cong [fundef_cong]:
  "m = m' \<Longrightarrow> (\<And>x. m' = Ok x \<Longrightarrow> f x = g x) \<Longrightarrow> andthen m f = andthen m' g"
  by (cases m') auto

lemma ensure_eq_Ok [result_ok]: "ensure b e = Ok u \<longleftrightarrow> b"
  by (simp add: ensure_def)

lemma ensure_simps [simp]: "ensure True e = Ok ()" "ensure False e = Err e" "ensure b e \<noteq> Diverges"
  by (simp_all add: ensure_def)

lemma ok_or_eq_Ok [result_ok]: "ok_or x e = Ok y \<longleftrightarrow> x = Some y"
  by (cases x) auto

lemma ok_or_not_Diverges [simp]: "ok_or x e \<noteq> Diverges"
  by (cases x) auto

lemma map_err_eq_Ok [result_ok]: "map_err g m = Ok y \<longleftrightarrow> m = Ok y"
  by (cases m) auto

lemma map_err_eq_Diverges [simp]: "map_err g m = Diverges \<longleftrightarrow> m = Diverges"
  by (cases m) auto

lemma map_ok_eq_Ok [result_ok]: "map_ok g m = Ok y \<longleftrightarrow> (\<exists>x. m = Ok x \<and> y = g x)"
  by (cases m) auto

lemma map_ok_eq_Diverges [simp]: "map_ok g m = Diverges \<longleftrightarrow> m = Diverges"
  by (cases m) auto

lemma is_ok_iff: "is_ok m \<longleftrightarrow> (\<exists>x. m = Ok x)"
  by (cases m) auto

lemma if_Err_eq_Ok [result_ok]: "(if b then Err e else m) = Ok y \<longleftrightarrow> \<not> b \<and> m = Ok y"
  by simp

lemma if_Err_eq_Diverges: "(if b then Err e else m) = Diverges \<longleftrightarrow> \<not> b \<and> m = Diverges"
  by simp

text \<open>\<open>try_each f xs\<close> is a \<open>for\<close> loop whose body may return early with an error.\<close>

fun try_each :: "('a \<Rightarrow> ('e, unit) result) \<Rightarrow> 'a list \<Rightarrow> ('e, unit) result" where
  "try_each f [] = Ok ()"
| "try_each f (x # xs) = andthen (f x) (\<lambda>_. try_each f xs)"

lemma try_each_eq_Ok [result_ok]: "try_each f xs = Ok u \<longleftrightarrow> (\<forall>x \<in> set xs. f x = Ok ())"
  by (induction xs) (auto simp: andthen_eq_Ok)

lemma try_each_not_Diverges: "(\<And>x. x \<in> set xs \<Longrightarrow> f x \<noteq> Diverges) \<Longrightarrow> try_each f xs \<noteq> Diverges"
  by (induction xs) (auto simp: andthen_eq_Diverges)

text \<open>\<open>try_fold\<close> threads a state through the loop.\<close>

fun try_fold :: "('s \<Rightarrow> 'a \<Rightarrow> ('e, 's) result) \<Rightarrow> 's \<Rightarrow> 'a list \<Rightarrow> ('e, 's) result" where
  "try_fold f s [] = Ok s"
| "try_fold f s (x # xs) = andthen (f s x) (\<lambda>s'. try_fold f s' xs)"

text \<open>\<open>try_map\<close> is \<open>iter().map(f).collect::<Result<Vec<_>, _>>()\<close>.\<close>

primrec try_map :: "('a \<Rightarrow> ('e, 'b) result) \<Rightarrow> 'a list \<Rightarrow> ('e, 'b list) result" where
  "try_map f [] = Ok []"
| "try_map f (x # xs) = andthen (f x) (\<lambda>y. map_ok (Cons y) (try_map f xs))"

lemma try_map_append [simp]:
  "try_map f (xs @ ys) = andthen (try_map f xs) (\<lambda>us. map_ok ((@) us) (try_map f ys))"
proof (induction xs)
  case Nil
  then show ?case by (cases "try_map f ys") simp_all
next
  case (Cons x xs)
  then show ?case by (cases "f x"; cases "try_map f xs"; cases "try_map f ys") simp_all
qed

lemma try_map_eq_Ok [result_ok]: "try_map f xs = Ok ys \<longleftrightarrow> list_all2 (\<lambda>x y. f x = Ok y) xs ys"
  by (induction xs arbitrary: ys) (auto simp: result_ok list_all2_Cons1)

lemma try_map_total:
  assumes "\<forall>x \<in> set xs. \<exists>y. f x = Ok y"
  obtains ys where "try_map f xs = Ok ys" "length ys = length xs" "\<forall>i < length xs. f (xs ! i) = Ok (ys ! i)"
proof -
  from assms have "\<exists>ys. try_map f xs = Ok ys" by (induction xs) auto
  then obtain ys where ys: "try_map f xs = Ok ys" ..
  then have "list_all2 (\<lambda>x y. f x = Ok y) xs ys" by (simp add: result_ok)
  then show thesis by (intro that [OF ys]) (auto simp: list_all2_conv_all_nth)
qed

lemma try_fold_append: "try_fold f s (xs @ ys) = andthen (try_fold f s xs) (\<lambda>s'. try_fold f s' ys)"
proof (induction xs arbitrary: s)
  case (Cons x xs)
  then show ?case by (cases "f s x") auto
qed simp

lemma try_fold_invariant:
  assumes "try_fold f s xs = Ok s'" and "P s"
    and "\<And>s x s'. x \<in> set xs \<Longrightarrow> P s \<Longrightarrow> f s x = Ok s' \<Longrightarrow> P s'"
  shows "P s'"
  using assms
proof (induction xs arbitrary: s)
  case (Cons x xs)
  from Cons.prems(1) obtain s1 where s1: "f s x = Ok s1" "try_fold f s1 xs = Ok s'"
    by (auto simp: andthen_eq_Ok)
  have "P s1"
    using Cons.prems(3) [of x s s1] Cons.prems(2) s1(1) by simp
  then show ?case
    using Cons.IH [OF s1(2)] Cons.prems(3) by (meson list.set_intros(2))
qed simp

section \<open>Integers\<close>

type_synonym u8 = "8 word"
type_synonym u16 = "16 word"
type_synonym u32 = "32 word"
type_synonym u64 = "64 word"
type_synonym usize = nat

definition checked_add :: "'a::len word \<Rightarrow> 'a word \<Rightarrow> 'a word option" where
  "checked_add a b = (if unat a + unat b < 2 ^ LENGTH('a) then Some (a + b) else None)"

definition checked_sub :: "'a::len word \<Rightarrow> 'a word \<Rightarrow> 'a word option" where
  "checked_sub a b = (if b \<le> a then Some (a - b) else None)"

definition checked_mul :: "'a::len word \<Rightarrow> 'a word \<Rightarrow> 'a word option" where
  "checked_mul a b = (if unat a * unat b < 2 ^ LENGTH('a) then Some (a * b) else None)"

definition usize_add :: "usize \<Rightarrow> usize \<Rightarrow> usize option" where
  "usize_add a b = (if a + b < 2 ^ 64 then Some (a + b) else None)"

text \<open>\<open>u32::try_from\<close> and \<open>u64::try_from\<close> of a collection's size.\<close>

definition u32_try_from :: "usize \<Rightarrow> u32 option" where
  "u32_try_from n = (if n < 2 ^ 32 then Some (of_nat n) else None)"

definition u64_try_from :: "usize \<Rightarrow> u64 option" where
  "u64_try_from n = (if n < 2 ^ 64 then Some (of_nat n) else None)"

text \<open>\<open>u64::MAX\<close>.\<close>

definition u64_max :: u64 where
  "u64_max = - 1"

text \<open>Equations that evaluate on binary numbers.\<close>

lemma checked_add_code [code]: "checked_add a b = (if a + b < a then None else Some (a + b))"
  for a b :: "'a::len word"
proof -
  have "unat a + unat b < 2 ^ LENGTH('a) \<longleftrightarrow> uint a + uint b < 2 ^ LENGTH('a)"
    unfolding uint_nat by (metis of_nat_add of_nat_less_iff of_nat_numeral of_nat_power)
  also have "\<dots> \<longleftrightarrow> \<not> a + b < a" by (simp add: no_olen_add not_less)
  finally show ?thesis by (simp add: checked_add_def)
qed

lemma checked_mul_code [code]:
  "checked_mul a b = (if uint a * uint b \<le> uint (- 1 :: 'a word) then Some (a * b) else None)"
  for a b :: "'a::len word"
proof -
  have "unat a * unat b < 2 ^ LENGTH('a) \<longleftrightarrow> uint a * uint b < 2 ^ LENGTH('a)"
    unfolding uint_nat by (metis of_nat_mult of_nat_less_iff of_nat_numeral of_nat_power)
  also have "\<dots> \<longleftrightarrow> uint a * uint b \<le> uint (- 1 :: 'a word)"
    by (simp add: unsigned_minus_1_eq_mask mask_eq_exp_minus_1)
  finally show ?thesis by (simp add: checked_mul_def)
qed

lemma usize_add_code [code]: "usize_add a b = (if int (a + b) < 18446744073709551616 then Some (a + b) else None)"
  by (simp add: usize_add_def)

lemma u32_try_from_code [code]:
  "u32_try_from n = (if int n < 4294967296 then Some (word_of_int (int n)) else None)"
  by (simp add: u32_try_from_def)

lemma u64_try_from_code [code]:
  "u64_try_from n = (if int n < 18446744073709551616 then Some (word_of_int (int n)) else None)"
  by (simp add: u64_try_from_def)

lemma u32_try_from_Some [result_ok]: "u32_try_from n = Some w \<longleftrightarrow> n < 2 ^ 32 \<and> w = of_nat n"
  by (auto simp: u32_try_from_def)

lemma u64_try_from_Some [result_ok]: "u64_try_from n = Some w \<longleftrightarrow> n < 2 ^ 64 \<and> w = of_nat n"
  by (auto simp: u64_try_from_def)

lemma checked_add_SomeD: "checked_add a b = Some c \<Longrightarrow> unat c = unat a + unat b"
  by (auto simp: checked_add_def unat_word_ariths split: if_splits)

lemma checked_add_Some_iff:
  "checked_add (a :: 'a::len word) b = Some c \<longleftrightarrow> unat a + unat b < 2 ^ LENGTH('a) \<and> c = a + b"
  by (auto simp: checked_add_def)

lemma checked_sub_SomeD:
  assumes "checked_sub a b = Some c"
  shows "b \<le> a" and "unat c = unat a - unat b"
  using assms by (auto simp: checked_sub_def unat_sub split: if_splits)

lemma checked_mul_SomeD: "checked_mul a b = Some c \<Longrightarrow> unat c = unat a * unat b"
  by (auto simp: checked_mul_def unat_word_ariths split: if_splits)

lemma checked_add_commute: "checked_add a b = checked_add b a"
  by (simp add: checked_add_def add.commute)

lemma checked_add_one_gt: "checked_add (a :: u64) 1 = Some b \<Longrightarrow> a < b"
  by (drule checked_add_SomeD) (simp add: word_less_nat_alt)

lemma checked_add_one_nonzero: "checked_add (a :: u64) 1 = Some b \<Longrightarrow> b \<noteq> 0"
  using checked_add_one_gt [of a b] by auto

lemma usize_add_SomeD: "usize_add a b = Some c \<Longrightarrow> c = a + b"
  by (simp add: usize_add_def split: if_splits)

section \<open>Lists\<close>

lemma map_of_Some_in_set: "map_of xs k = Some v \<Longrightarrow> v \<in> snd ` set xs"
  by (force dest: map_of_SomeD)

lemma list_find_SomeD: "List.find P xs = Some x \<Longrightarrow> x \<in> set xs \<and> P x"
  by (auto simp: find_Some_iff)

lemma length_filter_bij:
  assumes "\<And>x. x \<in> set xs \<Longrightarrow> P x \<longleftrightarrow> Q x"
  shows "length (filter P xs) = length (filter Q xs)"
  using assms by (metis filter_cong)

end
