(* ===== verification/Rust_Text.thy ===== *)
theory Rust_Text
  imports Prelude "HOL-Library.Char_ord" "HOL-Library.List_Lexorder"
begin

text \<open>
  Rust's \<open>String\<close> and \<open>str\<close>.  A value is the list of the bytes of its UTF-8 encoding, one
  \<open>char\<close> of Isabelle per byte, so that \<open>length\<close> is \<open>str::len\<close>, list equality is string
  equality and the lexicographic order on bytes is \<open>str\<close>'s \<open>Ord\<close>.

  Whitespace and control characters are those of Unicode, recognised by their encodings:
  \<open>White_Space\<close> is U+0009--U+000D, U+0020, U+0085, U+00A0, U+1680, U+2000--U+200A, U+2028,
  U+2029, U+202F, U+205F and U+3000; \<open>char::is_control\<close> is the category Cc, U+0000--U+001F and
  U+007F--U+009F.  UTF-8 is self-synchronising, so on valid strings the patterns below match at
  character boundaries only.
\<close>

section \<open>Whitespace\<close>

definition ws1 :: "char \<Rightarrow> bool" where
  "ws1 a \<longleftrightarrow> a = CHR 0x20 \<or> (CHR 0x09 \<le> a \<and> a \<le> CHR 0x0D)"

definition ws2 :: "char \<Rightarrow> char \<Rightarrow> bool" where
  "ws2 a b \<longleftrightarrow> a = CHR 0xC2 \<and> (b = CHR 0x85 \<or> b = CHR 0xA0)"

definition ws3 :: "char \<Rightarrow> char \<Rightarrow> char \<Rightarrow> bool" where
  "ws3 a b c \<longleftrightarrow>
     (a = CHR 0xE1 \<and> b = CHR 0x9A \<and> c = CHR 0x80)
   \<or> (a = CHR 0xE2 \<and> b = CHR 0x80 \<and>
        ((CHR 0x80 \<le> c \<and> c \<le> CHR 0x8A) \<or> c = CHR 0xA8 \<or> c = CHR 0xA9 \<or> c = CHR 0xAF))
   \<or> (a = CHR 0xE2 \<and> b = CHR 0x81 \<and> c = CHR 0x9F)
   \<or> (a = CHR 0xE3 \<and> b = CHR 0x80 \<and> c = CHR 0x80)"

text \<open>The number of bytes of the whitespace character a string starts with, 0 for none.\<close>

fun leading_ws :: "string \<Rightarrow> nat" where
  "leading_ws (a # b # c # s) = (if ws1 a then 1 else if ws2 a b then 2 else if ws3 a b c then 3 else 0)"
| "leading_ws [a, b] = (if ws1 a then 1 else if ws2 a b then 2 else 0)"
| "leading_ws [a] = (if ws1 a then 1 else 0)"
| "leading_ws [] = 0"

text \<open>The same for the character a string ends with; the argument is the reversed string.\<close>

fun trailing_ws :: "string \<Rightarrow> nat" where
  "trailing_ws (c # b # a # s) = (if ws1 c then 1 else if ws2 b c then 2 else if ws3 a b c then 3 else 0)"
| "trailing_ws [c, b] = (if ws1 c then 1 else if ws2 b c then 2 else 0)"
| "trailing_ws [c] = (if ws1 c then 1 else 0)"
| "trailing_ws [] = 0"

function trim_front :: "(string \<Rightarrow> nat) \<Rightarrow> string \<Rightarrow> string" where
  "trim_front w s = (if w s = 0 \<or> s = [] then s else trim_front w (drop (w s) s))"
  by pat_completeness auto
termination
  by (relation "measure (\<lambda>(w, s). length s)") auto

declare trim_front.simps [simp del]

text \<open>\<open>str::trim\<close>.\<close>

definition trim :: "string \<Rightarrow> string" where
  "trim s = rev (trim_front trailing_ws (rev (trim_front leading_ws s)))"

text \<open>\<open>s.chars().any(char::is_control)\<close>.\<close>

fun has_control :: "string \<Rightarrow> bool" where
  "has_control (a # s) =
     (a \<le> CHR 0x1F \<or> a = CHR 0x7F
      \<or> (a = CHR 0xC2 \<and> (case s of [] \<Rightarrow> False | b # _ \<Rightarrow> CHR 0x80 \<le> b \<and> b \<le> CHR 0x9F))
      \<or> has_control s)"
| "has_control [] = False"

definition is_ascii_lowercase :: "char \<Rightarrow> bool" where
  "is_ascii_lowercase c \<longleftrightarrow> CHR ''a'' \<le> c \<and> c \<le> CHR ''z''"

definition is_ascii_uppercase :: "char \<Rightarrow> bool" where
  "is_ascii_uppercase c \<longleftrightarrow> CHR ''A'' \<le> c \<and> c \<le> CHR ''Z''"

definition is_ascii_digit :: "char \<Rightarrow> bool" where
  "is_ascii_digit c \<longleftrightarrow> CHR ''0'' \<le> c \<and> c \<le> CHR ''9''"

definition is_ascii_alphanumeric :: "char \<Rightarrow> bool" where
  "is_ascii_alphanumeric c \<longleftrightarrow> is_ascii_lowercase c \<or> is_ascii_uppercase c \<or> is_ascii_digit c"

subsection \<open>Trimming is idempotent\<close>

lemma trim_front_suffix: "\<exists>p. s = p @ trim_front w s"
proof (induction w s rule: trim_front.induct)
  case (1 w s)
  show ?case
  proof (cases "w s = 0 \<or> s = []")
    case True
    then show ?thesis by (simp add: trim_front.simps [of w s])
  next
    case False
    with 1 obtain p where p: "drop (w s) s = p @ trim_front w (drop (w s) s)" by blast
    have "s = take (w s) s @ drop (w s) s" by simp
    also have "\<dots> = (take (w s) s @ p) @ trim_front w s"
      using False by (simp add: trim_front.simps [of w s] flip: p)
    finally show ?thesis by blast
  qed
qed

lemma trim_front_stops: "trim_front w s = [] \<or> w (trim_front w s) = 0"
proof (induction w s rule: trim_front.induct)
  case (1 w s)
  then show ?case by (cases "w s = 0 \<or> s = []") (auto simp: trim_front.simps [of w s])
qed

lemma trim_front_id: "w s = 0 \<Longrightarrow> trim_front w s = s"
  by (simp add: trim_front.simps)

lemma leading_ws_take:
  assumes "leading_ws (p @ q) = 0"
  shows "leading_ws p = 0"
proof (cases p rule: leading_ws.cases)
  case (1 a b c s)
  with assms show ?thesis by simp
next
  case (2 a b)
  with assms show ?thesis by (cases q) (auto split: if_splits)
next
  case (3 a)
  with assms show ?thesis by (cases q rule: leading_ws.cases) (auto split: if_splits)
next
  case 4
  then show ?thesis by simp
qed

lemma leading_ws_trim_front: "leading_ws (trim_front leading_ws s) = 0"
  using trim_front_stops [of leading_ws s] by auto

lemma trailing_ws_trim_front: "trailing_ws (trim_front trailing_ws s) = 0"
  using trim_front_stops [of trailing_ws s] by auto

lemma leading_ws_trim: "leading_ws (trim s) = 0"
proof -
  let ?t = "trim_front leading_ws s"
  obtain p where "rev ?t = p @ trim_front trailing_ws (rev ?t)"
    using trim_front_suffix by blast
  then have "?t = rev (trim_front trailing_ws (rev ?t)) @ rev p"
    by (metis rev_append rev_rev_ident)
  then have "?t = trim s @ rev p" by (simp add: trim_def)
  then show ?thesis using leading_ws_trim_front [of s] leading_ws_take by metis
qed

lemma trim_trim [simp]: "trim (trim s) = trim s"
proof -
  have "trailing_ws (rev (trim s)) = 0"
    by (simp add: trim_def trailing_ws_trim_front)
  then show ?thesis
    by (subst trim_def) (simp add: trim_front_id leading_ws_trim)
qed

lemma length_trim_front: "length (trim_front w s) \<le> length s"
  by (metis trim_front_suffix length_append le_add2)

lemma length_trim: "length (trim s) \<le> length s"
  unfolding trim_def
  by (metis length_rev length_trim_front le_trans)

lemma trim_Nil [simp]: "trim [] = []"
  by (simp add: trim_def trim_front.simps)

section \<open>UTF-8\<close>

text \<open>\<open>std::str::from_utf8\<close> accepts the well-formed byte sequences of the Unicode standard: no
  overlong form, no surrogate, nothing above U+10FFFF.\<close>

definition is_ascii :: "char \<Rightarrow> bool" where
  "is_ascii a \<longleftrightarrow> a \<le> CHR 0x7F"

definition continuation :: "char \<Rightarrow> bool" where
  "continuation b \<longleftrightarrow> CHR 0x80 \<le> b \<and> b \<le> CHR 0xBF"

definition utf8_2 :: "char \<Rightarrow> char \<Rightarrow> bool" where
  "utf8_2 a b \<longleftrightarrow> CHR 0xC2 \<le> a \<and> a \<le> CHR 0xDF \<and> continuation b"

definition utf8_3 :: "char \<Rightarrow> char \<Rightarrow> char \<Rightarrow> bool" where
  "utf8_3 a b c \<longleftrightarrow> CHR 0xE0 \<le> a \<and> a \<le> CHR 0xEF \<and> continuation b \<and> continuation c
     \<and> (a = CHR 0xE0 \<longrightarrow> CHR 0xA0 \<le> b) \<and> (a = CHR 0xED \<longrightarrow> b \<le> CHR 0x9F)"

definition utf8_4 :: "char \<Rightarrow> char \<Rightarrow> char \<Rightarrow> char \<Rightarrow> bool" where
  "utf8_4 a b c d \<longleftrightarrow> CHR 0xF0 \<le> a \<and> a \<le> CHR 0xF4 \<and> continuation b \<and> continuation c \<and> continuation d
     \<and> (a = CHR 0xF0 \<longrightarrow> CHR 0x90 \<le> b) \<and> (a = CHR 0xF4 \<longrightarrow> b \<le> CHR 0x8F)"

fun utf8_valid :: "string \<Rightarrow> bool" where
  "utf8_valid [] = True"
| "utf8_valid (a # s) =
     ((is_ascii a \<and> utf8_valid s)
      \<or> (case s of [] \<Rightarrow> False | b # s2 \<Rightarrow>
          (utf8_2 a b \<and> utf8_valid s2)
          \<or> (case s2 of [] \<Rightarrow> False | c # s3 \<Rightarrow>
              (utf8_3 a b c \<and> utf8_valid s3)
              \<or> (case s3 of [] \<Rightarrow> False | d # s4 \<Rightarrow> utf8_4 a b c d \<and> utf8_valid s4))))"

lemma continuation_not_ascii: "continuation b \<Longrightarrow> \<not> is_ascii b"
  by (auto simp: continuation_def is_ascii_def less_eq_char_def)

lemma utf8_not_ascii:
  "utf8_2 a b \<Longrightarrow> \<not> is_ascii a \<and> \<not> is_ascii b"
  "utf8_3 a b c \<Longrightarrow> \<not> is_ascii a \<and> \<not> is_ascii b \<and> \<not> is_ascii c"
  "utf8_4 a b c d \<Longrightarrow> \<not> is_ascii a \<and> \<not> is_ascii b \<and> \<not> is_ascii c \<and> \<not> is_ascii d"
  by (auto simp: utf8_2_def utf8_3_def utf8_4_def is_ascii_def less_eq_char_def dest: continuation_not_ascii)

lemma utf8_valid_intros:
  "is_ascii a \<Longrightarrow> utf8_valid s \<Longrightarrow> utf8_valid (a # s)"
  "utf8_2 a b \<Longrightarrow> utf8_valid s \<Longrightarrow> utf8_valid (a # b # s)"
  "utf8_3 a b c \<Longrightarrow> utf8_valid s \<Longrightarrow> utf8_valid (a # b # c # s)"
  "utf8_4 a b c d \<Longrightarrow> utf8_valid s \<Longrightarrow> utf8_valid (a # b # c # d # s)"
  by simp_all

declare utf8_valid.simps(2) [simp del]

lemma utf8_valid_induct [consumes 1, case_names Nil one two three four]:
  assumes "utf8_valid s" and "P []"
    and "\<And>a s. is_ascii a \<Longrightarrow> utf8_valid s \<Longrightarrow> P s \<Longrightarrow> P (a # s)"
    and "\<And>a b s. utf8_2 a b \<Longrightarrow> utf8_valid s \<Longrightarrow> P s \<Longrightarrow> P (a # b # s)"
    and "\<And>a b c s. utf8_3 a b c \<Longrightarrow> utf8_valid s \<Longrightarrow> P s \<Longrightarrow> P (a # b # c # s)"
    and "\<And>a b c d s. utf8_4 a b c d \<Longrightarrow> utf8_valid s \<Longrightarrow> P s \<Longrightarrow> P (a # b # c # d # s)"
  shows "P s"
  using assms(1)
proof (induction s rule: length_induct)
  case (1 s)
  show ?case
  proof (cases s)
    case (Cons a s1)
    have "utf8_valid (a # s1)" using 1(2) Cons by simp
    then consider "is_ascii a" "utf8_valid s1"
      | b s2 where "s1 = b # s2" "utf8_2 a b" "utf8_valid s2"
      | b c s3 where "s1 = b # c # s3" "utf8_3 a b c" "utf8_valid s3"
      | b c d s4 where "s1 = b # c # d # s4" "utf8_4 a b c d" "utf8_valid s4"
      unfolding utf8_valid.simps(2) by (auto split: list.splits)
    then show ?thesis
      using 1(1) Cons by cases (auto intro: assms(3-))
  qed (simp add: assms(2))
qed

lemma utf8_valid_append: "utf8_valid p \<Longrightarrow> utf8_valid s \<Longrightarrow> utf8_valid (p @ s)"
  by (induction p rule: utf8_valid_induct) (simp_all add: utf8_valid_intros)

text \<open>An ASCII byte is always a character of its own, so a valid string may be cut at one.\<close>

lemma utf8_valid_cut:
  assumes "utf8_valid (p @ x # s)" and "is_ascii x"
  shows "utf8_valid p \<and> utf8_valid s"
proof -
  have "utf8_valid p \<and> utf8_valid s" if "utf8_valid t" "t = p @ x # s" for t
    using that
  proof (induction t arbitrary: p rule: utf8_valid_induct)
    case (one a t)
    then show ?case by (cases p) (auto intro: utf8_valid_intros)
  next
    case (two a b t)
    then show ?case using utf8_not_ascii(1) [of a b] assms(2) 
      by (auto simp: Cons_eq_append_conv intro: utf8_valid_intros)
  next
    case (three a b c t)
    then show ?case using utf8_not_ascii(2) [of a b c] assms(2)
      by (auto simp: Cons_eq_append_conv intro: utf8_valid_intros)
  next
    case (four a b c d t)
    then show ?case using utf8_not_ascii(3) [of a b c d] assms(2)
      by (auto simp: Cons_eq_append_conv intro: utf8_valid_intros)
  qed simp
  then show ?thesis using assms(1) by blast
qed

end
