(* ===== verification/Ordered_Map.thy ===== *)
theory Ordered_Map
  imports Prelude
begin

text \<open>
  Rust's \<open>BTreeMap\<close>, the container of the Team and Tool states.  The components rely on three
  things only: lookups see the last insertion, iteration visits each key once, and it does so in
  increasing key order.  The locale \<open>ordered_map\<close> states them; the association lists below, kept
  sorted by key, provide them.
\<close>

section \<open>The interface\<close>

locale ordered_map =
  fixes empty :: "'m"
    and get :: "'m \<Rightarrow> 'k::linorder \<Rightarrow> 'v option"
    and insert :: "'k \<Rightarrow> 'v \<Rightarrow> 'm \<Rightarrow> 'm"
    and entries :: "'m \<Rightarrow> ('k \<times> 'v) list"
    and inv :: "'m \<Rightarrow> bool"
  assumes inv_empty: "inv empty"
    and inv_insert: "inv m \<Longrightarrow> inv (insert k v m)"
    and get_empty: "get empty k = None"
    and get_insert: "inv m \<Longrightarrow> get (insert k v m) k' = (if k' = k then Some v else get m k')"
    and entries_sorted: "inv m \<Longrightarrow> sorted_wrt (<) (map fst (entries m))"
    and entries_iff: "inv m \<Longrightarrow> (k, v) \<in> set (entries m) \<longleftrightarrow> get m k = Some v"
begin

lemma keys_iff: "inv m \<Longrightarrow> k \<in> fst ` set (entries m) \<longleftrightarrow> get m k \<noteq> None"
  using entries_iff by (force simp: image_iff)

lemma values_iff: "inv m \<Longrightarrow> v \<in> snd ` set (entries m) \<longleftrightarrow> (\<exists>k. get m k = Some v)"
  using entries_iff by (force simp: image_iff)

lemma keys_distinct: "inv m \<Longrightarrow> distinct (map fst (entries m))"
  using entries_sorted strict_sorted_iff by blast

text \<open>Two maps with the same lookups iterate alike: nothing depends on the insertion order.\<close>

lemma entries_extensional:
  assumes "inv m" and "inv m'" and "\<And>k. get m k = get m' k"
  shows "entries m = entries m'"
proof -
  have "set (entries m) = set (entries m')"
  proof (intro set_eqI)
    fix x :: "'k \<times> 'v"
    obtain k v where x: "x = (k, v)" by (cases x)
    show "x \<in> set (entries m) \<longleftrightarrow> x \<in> set (entries m')"
      unfolding x using assms by (simp add: entries_iff)
  qed
  moreover have "sorted (map fst (entries m))" "sorted (map fst (entries m'))"
    and "distinct (map fst (entries m))" "distinct (map fst (entries m'))"
    using entries_sorted assms(1,2) by (auto simp: strict_sorted_iff)
  ultimately show ?thesis
    by (metis (no_types, lifting) map_sorted_distinct_set_unique distinct_map inj_on_Un
        sup.idem)
qed

lemma insert_commute_entries:
  assumes "inv m" and "k \<noteq> k'"
  shows "entries (insert k v (insert k' v' m)) = entries (insert k' v' (insert k v m))"
  using assms by (intro entries_extensional) (simp_all add: inv_insert get_insert)

lemma insert_absorbs_entries:
  assumes "inv m"
  shows "entries (insert k v (insert k v' m)) = entries (insert k v m)"
  using assms by (intro entries_extensional) (simp_all add: inv_insert get_insert)

lemma insert_keys:
  assumes "inv m"
  shows "fst ` set (entries (insert k v m)) = {k} \<union> fst ` set (entries m)"
  using assms by (intro set_eqI) (auto simp: keys_iff get_insert inv_insert)

end

section \<open>Sorted association lists\<close>

type_synonym ('k, 'v) btree_map = "('k \<times> 'v) list"

definition bt_ok :: "('k::linorder, 'v) btree_map \<Rightarrow> bool" where
  "bt_ok m \<longleftrightarrow> sorted_wrt (<) (map fst m)"

definition bt_get :: "('k, 'v) btree_map \<Rightarrow> 'k \<Rightarrow> 'v option" where
  "bt_get m k = map_of m k"

definition bt_contains_key :: "('k, 'v) btree_map \<Rightarrow> 'k \<Rightarrow> bool" where
  "bt_contains_key m k \<longleftrightarrow> bt_get m k \<noteq> None"

definition bt_keys :: "('k, 'v) btree_map \<Rightarrow> 'k list" where
  "bt_keys m = map fst m"

definition bt_values :: "('k, 'v) btree_map \<Rightarrow> 'v list" where
  "bt_values m = map snd m"

text \<open>\<open>BTreeMap::insert\<close>; also what a write through \<open>get_mut\<close> to the entry of \<open>k\<close> does.\<close>

fun bt_insert :: "'k::linorder \<Rightarrow> 'v \<Rightarrow> ('k, 'v) btree_map \<Rightarrow> ('k, 'v) btree_map" where
  "bt_insert k v [] = [(k, v)]"
| "bt_insert k v ((k', v') # m) =
     (if k < k' then (k, v) # (k', v') # m
      else if k = k' then (k, v) # m
      else (k', v') # bt_insert k v m)"

lemma set_keys_bt_insert: "fst ` set (bt_insert k v m) = {k} \<union> fst ` set m"
  by (induction k v m rule: bt_insert.induct) auto

lemma bt_ok_insert: "bt_ok m \<Longrightarrow> bt_ok (bt_insert k v m)"
proof (induction k v m rule: bt_insert.induct)
  case (2 k v k' v' m)
  from "2.prems" have m: "bt_ok m" and above: "\<forall>x \<in> fst ` set m. k' < x"
    by (auto simp: bt_ok_def)
  show ?case
  proof (cases "k' < k")
    case True
    then have "\<forall>x \<in> fst ` set (bt_insert k v m). k' < x"
      using above by (simp add: set_keys_bt_insert)
    with True m "2.IH" show ?thesis by (auto simp: bt_ok_def)
  next
    case False
    with above m show ?thesis by (force simp: bt_ok_def)
  qed
qed (simp add: bt_ok_def)

lemma bt_get_insert: "bt_get (bt_insert k v m) k' = (if k' = k then Some v else bt_get m k')"
  by (induction k v m rule: bt_insert.induct) (auto simp: bt_get_def)

lemma bt_ok_distinct: "bt_ok m \<Longrightarrow> distinct (map fst m)"
  using strict_sorted_iff unfolding bt_ok_def by blast

interpretation bt: ordered_map "[]" bt_get bt_insert "\<lambda>m. m" bt_ok
proof unfold_locales
  fix m :: "('k::linorder \<times> 'v) list" and k v
  assume "bt_ok m"
  then show "(k, v) \<in> set m \<longleftrightarrow> bt_get m k = Some v"
    by (simp add: bt_get_def bt_ok_distinct)
qed (auto simp: bt_ok_insert bt_get_insert, simp_all add: bt_ok_def bt_get_def)

text \<open>Insertion at a key that is there changes exactly that entry; at a key above every other
  it appends.\<close>

lemma bt_insert_present:
  assumes "bt_ok m" and "bt_get m k = Some v"
  obtains xs ys where "m = xs @ (k, v) # ys"
    and "\<And>v'. bt_insert k v' m = xs @ (k, v') # ys"
proof -
  from assms have "\<exists>xs ys. m = xs @ (k, v) # ys \<and> (\<forall>v'. bt_insert k v' m = xs @ (k, v') # ys)"
  proof (induction m)
    case Nil
    then show ?case by (simp add: bt_get_def)
  next
    case (Cons e m)
    obtain k1 v1 where e: "e = (k1, v1)" by (cases e)
    show ?case
    proof (cases "k1 = k")
      case True
      with Cons.prems(2) e have "e # m = [] @ (k, v) # m" by (simp add: bt_get_def)
      moreover have "bt_insert k v' (e # m) = [] @ (k, v') # m" for v' using True e by simp
      ultimately show ?thesis by blast
    next
      case False
      have ok: "bt_ok m" using Cons.prems(1) by (simp add: bt_ok_def)
      have g: "bt_get m k = Some v" using Cons.prems(2) e False by (simp add: bt_get_def)
      have lt: "k1 < k"
        using Cons.prems(1) e map_of_SomeD [OF g [unfolded bt_get_def]] by (auto simp: bt_ok_def)
      from Cons.IH [OF ok g] obtain xs ys where xy: "m = xs @ (k, v) # ys"
        and ins: "\<And>v'. bt_insert k v' m = xs @ (k, v') # ys" by blast
      have "e # m = (e # xs) @ (k, v) # ys" using xy by simp
      moreover have "bt_insert k v' (e # m) = (e # xs) @ (k, v') # ys" for v'
        using lt e ins by auto
      ultimately show ?thesis by blast
    qed
  qed
  then show ?thesis using that by blast
qed

lemma bt_insert_above:
  assumes "\<And>k'. k' \<in> set (bt_keys m) \<Longrightarrow> k' < k"
  shows "bt_insert k v m = m @ [(k, v)]"
  using assms
proof (induction m)
  case (Cons e m)
  then have "fst e < k" "bt_insert k v m = m @ [(k, v)]" by (auto simp: bt_keys_def)
  then show ?case by (cases e) auto
qed simp

lemma bt_contains_key_iff: "bt_contains_key m k \<longleftrightarrow> k \<in> set (bt_keys m)"
  by (auto simp: bt_contains_key_def bt_get_def bt_keys_def map_of_eq_None_iff)

lemma bt_keys_insert_present:
  assumes "bt_ok m" and "bt_get m k = Some v0"
  shows "bt_keys (bt_insert k v m) = bt_keys m"
proof -
  obtain xs ys where "m = xs @ (k, v0) # ys" "bt_insert k v m = xs @ (k, v) # ys"
    using bt_insert_present [OF assms] by blast
  then show ?thesis by (simp add: bt_keys_def)
qed

lemma bt_values_iff: "bt_ok m \<Longrightarrow> v \<in> set (bt_values m) \<longleftrightarrow> (\<exists>k. bt_get m k = Some v)"
  using bt.values_iff [of m v] by (simp add: bt_values_def)

lemma bt_get_in_values: "bt_get m k = Some v \<Longrightarrow> v \<in> set (bt_values m)"
  by (simp add: bt_get_def bt_values_def map_of_Some_in_set)

lemma bt_ok_Nil [simp]: "bt_ok []"
  by (simp add: bt_ok_def)

lemma bt_get_Nil [simp]: "bt_get [] k = None"
  by (simp add: bt_get_def)

end
