(* ===== verification/Team_Types.thy ===== *)
theory Team_Types
  imports Rust_Text Ordered_Map "HOL-Library.FSet"
begin

text \<open>
  The data of the Agent Team policy (\<open>greentyper-core/src/agent_team.rs\<close>): identifiers,
  capabilities, budgets, Task and Agent records, commands, events and errors, with the
  operations of the value types and the bounds every stored text obeys.
\<close>

section \<open>Identifiers\<close>

text \<open>
  The macro \<open>identifier!\<close> declares six ordered newtypes over \<open>u64\<close>.  They are one type with a
  phantom parameter here, so that one order instance serves the keys of every map.
\<close>

datatype 'k ident = Ident (id_get: u64)

instantiation ident :: (type) linorder
begin

definition less_eq_ident :: "'a ident \<Rightarrow> 'a ident \<Rightarrow> bool" where
  "less_eq_ident a b \<longleftrightarrow> id_get a \<le> id_get b"

definition less_ident :: "'a ident \<Rightarrow> 'a ident \<Rightarrow> bool" where
  "less_ident a b \<longleftrightarrow> id_get a < id_get b"

instance
  by standard (auto simp: less_eq_ident_def less_ident_def ident.expand)

end

datatype task_tag = TaskTag
datatype agent_tag = AgentTag
datatype message_tag = MessageTag
datatype seq_tag = SeqTag
datatype transaction_tag = TransactionTag
datatype operation_tag = OperationTag

type_synonym task_id = "task_tag ident"
type_synonym agent_id = "agent_tag ident"
type_synonym message_id = "message_tag ident"
type_synonym event_seq = "seq_tag ident"
type_synonym transaction_id = "transaction_tag ident"
type_synonym operation_id = "operation_tag ident"

lemma ident_less_iff [simp]: "Ident a < Ident b \<longleftrightarrow> a < b"
  by (simp add: less_ident_def)

lemma ident_le_iff [simp]: "Ident a \<le> Ident b \<longleftrightarrow> a \<le> b"
  by (simp add: less_eq_ident_def)

section \<open>Bounds\<close>

definition MAX_MESSAGE_BYTES :: usize where "MAX_MESSAGE_BYTES = 64 * 1024"
definition MAX_REASON_BYTES :: usize where "MAX_REASON_BYTES = 8 * 1024"
definition MAX_CAPSULE_BYTES :: usize where "MAX_CAPSULE_BYTES = 256 * 1024"
definition MAX_TASK_TITLE_BYTES :: usize where "MAX_TASK_TITLE_BYTES = 1024"
definition MAX_SCOPE_LABEL_BYTES :: usize where "MAX_SCOPE_LABEL_BYTES = 256"
definition MAX_SCOPE_LABELS :: usize where "MAX_SCOPE_LABELS = 64"
definition MAX_TOOL_NAME_BYTES :: usize where "MAX_TOOL_NAME_BYTES = 256"
definition MAX_MODEL_PRESET_ID_BYTES :: usize where "MAX_MODEL_PRESET_ID_BYTES = 64"
definition MAX_CAPABILITIES :: usize where "MAX_CAPABILITIES = 64"
definition MAX_TASK_DEPENDENCIES :: usize where "MAX_TASK_DEPENDENCIES = 256"
definition MAX_CAPSULE_ENTRIES :: usize where "MAX_CAPSULE_ENTRIES = 1024"

lemmas team_bounds =
  MAX_MESSAGE_BYTES_def MAX_REASON_BYTES_def MAX_CAPSULE_BYTES_def MAX_TASK_TITLE_BYTES_def
  MAX_SCOPE_LABEL_BYTES_def MAX_SCOPE_LABELS_def MAX_TOOL_NAME_BYTES_def
  MAX_MODEL_PRESET_ID_BYTES_def MAX_CAPABILITIES_def MAX_TASK_DEPENDENCIES_def
  MAX_CAPSULE_ENTRIES_def

section \<open>Authority: capabilities, scopes, budgets\<close>

datatype inherited_model_preset = InheritedModelPreset (preset_id: string)

text \<open>Process-local authority to act as one Agent.\<close>

record agent_session =
  as_agent :: agent_id
  as_authority :: u64

datatype capability = WorkspaceRead | WorkspaceWrite | Process | Network | Tool string

type_synonym capability_snapshot = "capability fset"

definition cap_contains :: "capability_snapshot \<Rightarrow> capability \<Rightarrow> bool" where
  "cap_contains caps c \<longleftrightarrow> c |\<in>| caps"

definition cap_subset :: "capability_snapshot \<Rightarrow> capability_snapshot \<Rightarrow> bool" where
  "cap_subset caps parent \<longleftrightarrow> caps |\<subseteq>| parent"

type_synonym task_scope = "string fset"

definition scope_subset :: "task_scope \<Rightarrow> task_scope \<Rightarrow> bool" where
  "scope_subset labels parent \<longleftrightarrow> labels |\<subseteq>| parent"

record resource_budget =
  token_units :: u64
  tool_calls :: u32

definition budget_default :: resource_budget where
  "budget_default = \<lparr>token_units = 0, tool_calls = 0\<rparr>"

definition budget_contains :: "resource_budget \<Rightarrow> resource_budget \<Rightarrow> bool" where
  "budget_contains b child \<longleftrightarrow> token_units child \<le> token_units b \<and> tool_calls child \<le> tool_calls b"

definition budget_checked_add :: "resource_budget \<Rightarrow> resource_budget \<Rightarrow> resource_budget option" where
  "budget_checked_add a b =
     (case checked_add (token_units a) (token_units b) of None \<Rightarrow> None | Some t \<Rightarrow>
      (case checked_add (tool_calls a) (tool_calls b) of None \<Rightarrow> None | Some c \<Rightarrow>
        Some \<lparr>token_units = t, tool_calls = c\<rparr>))"

definition budget_remaining_after :: "resource_budget \<Rightarrow> resource_budget \<Rightarrow> resource_budget option" where
  "budget_remaining_after a reserved =
     (case checked_sub (token_units a) (token_units reserved) of None \<Rightarrow> None | Some t \<Rightarrow>
      (case checked_sub (tool_calls a) (tool_calls reserved) of None \<Rightarrow> None | Some c \<Rightarrow>
        Some \<lparr>token_units = t, tool_calls = c\<rparr>))"

section \<open>Tasks and completion capsules\<close>

record task_spec =
  ts_title :: string
  ts_scope :: task_scope
  ts_dependencies :: "task_id list"

record completion_capsule =
  cc_outcome :: string
  cc_evidence :: "string list"
  cc_changes :: "string list"
  cc_tests :: "string list"
  cc_decisions :: "string list"
  cc_blockers :: "string list"
  cc_artifacts :: "string list"
  cc_residual_risks :: "string list"

definition capsule_lists :: "completion_capsule \<Rightarrow> string list list" where
  "capsule_lists c =
     [cc_evidence c, cc_changes c, cc_tests c, cc_decisions c, cc_blockers c, cc_artifacts c,
      cc_residual_risks c]"

fun usize_sum_from :: "usize \<Rightarrow> usize list \<Rightarrow> usize option" where
  "usize_sum_from acc [] = Some acc"
| "usize_sum_from acc (n # ns) =
     (case usize_add acc n of None \<Rightarrow> None | Some acc' \<Rightarrow> usize_sum_from acc' ns)"

definition capsule_approximate_bytes :: "completion_capsule \<Rightarrow> usize option" where
  "capsule_approximate_bytes c =
     usize_sum_from (length (cc_outcome c)) (map length (concat (capsule_lists c)))"

definition capsule_entry_count :: "completion_capsule \<Rightarrow> usize option" where
  "capsule_entry_count c = usize_sum_from 0 (map length (capsule_lists c))"

section \<open>Commands\<close>

datatype message_recipient = ToAgent agent_id | ToTeam

datatype team_command =
    AdmitRoot task_spec resource_budget capability_snapshot
  | Delegate agent_session task_spec resource_budget capability_snapshot
  | DelegateWithModelPreset agent_session task_spec resource_budget capability_snapshot
      "inherited_model_preset option"
  | SendMessage agent_session message_recipient string
  | Complete agent_session completion_capsule
  | Fail agent_session string
  | Cancel agent_session string
  | Retry agent_session agent_id

section \<open>Records and their life cycle\<close>

datatype agent_status = Dormant | Active | Blocked | Succeeded | Failed | Cancelled

fun agent_terminal :: "agent_status \<Rightarrow> bool" where
  "agent_terminal Succeeded = True"
| "agent_terminal Failed = True"
| "agent_terminal Cancelled = True"
| "agent_terminal _ = False"

datatype task_status =
    TPending
  | TReady
  | TRunning
  | TBlocked task_id
  | TSucceeded
  | TFailed string
  | TCancelled string

fun task_terminal :: "task_status \<Rightarrow> bool" where
  "task_terminal TSucceeded = True"
| "task_terminal (TFailed _) = True"
| "task_terminal (TCancelled _) = True"
| "task_terminal _ = False"

fun blocks_dependents :: "task_status \<Rightarrow> bool" where
  "blocks_dependents (TBlocked _) = True"
| "blocks_dependents (TFailed _) = True"
| "blocks_dependents (TCancelled _) = True"
| "blocks_dependents _ = False"

record message_view =
  mv_id :: message_id
  mv_from :: agent_id
  mv_recipient :: message_recipient
  mv_body :: string

record task_record =
  tr_id :: task_id
  tr_spec :: task_spec
  tr_owner :: "agent_id option"
  tr_status :: task_status
  tr_completion :: "completion_capsule option"

record agent_record =
  ar_id :: agent_id
  ar_parent :: "agent_id option"
  ar_task :: task_id
  ar_status :: agent_status
  ar_budget :: resource_budget
  ar_reserved_budget :: resource_budget
  ar_capabilities :: capability_snapshot
  ar_preset :: "inherited_model_preset option"

record operation_record =
  or_transaction :: transaction_id
  or_acknowledgement :: "transaction_id option"

text \<open>The projection the event fold maintains.\<close>

record team_state =
  root :: "agent_id option"
  tasks :: "(task_id, task_record) btree_map"
  agents :: "(agent_id, agent_record) btree_map"
  messages :: "message_view list"
  operations :: "(operation_id, operation_record) btree_map"

definition team_state_default :: team_state where
  "team_state_default = \<lparr>root = None, tasks = [], agents = [], messages = [], operations = []\<rparr>"

section \<open>Events\<close>

datatype team_event_kind =
    TaskCreated task_id task_spec
  | AgentCreated agent_id task_id "agent_id option" resource_budget capability_snapshot
      "inherited_model_preset option"
  | TaskOwnerAssigned task_id agent_id
  | DelegationGranted agent_id agent_id \<comment> \<open>parent, child\<close>
  | TaskReady task_id
  | AgentActivated agent_id
  | TaskStarted task_id
  | MessageSent message_id agent_id message_recipient string
  | CompletionCapsuleSubmitted task_id agent_id completion_capsule
  | TaskSucceeded task_id
  | AgentSucceeded agent_id
  | TaskFailed task_id string
  | AgentFailed agent_id
  | TaskCancelled task_id string
  | AgentCancelled agent_id
  | TaskBlocked task_id task_id \<comment> \<open>task, blocked by\<close>
  | AgentBlocked agent_id task_id
  | TaskRetryRequested task_id
  | AgentRetryRequested agent_id agent_id \<comment> \<open>requester, agent\<close>
  | OperationCommitted operation_id transaction_id
  | OperationAcknowledged operation_id transaction_id transaction_id
      \<comment> \<open>operation, committed transaction, acknowledgement transaction\<close>

record team_event =
  te_sequence :: event_seq
  te_transaction :: transaction_id
  te_index :: u32
  te_count :: u32
  te_kind :: team_event_kind

section \<open>Errors\<close>

text \<open>
  The detail of an \<open>InvariantViolation\<close> is the template of the code's message; the identifiers
  the code formats into it are left out.
\<close>

datatype team_error =
    InvalidActiveAgentLimit
  | RootAlreadyAdmitted
  | RootDependenciesNotAllowed
  | InvalidTaskTitle
  | TaskTitleTooLarge
  | InvalidScope
  | ScopeLabelTooLarge
  | TooManyScopeLabels
  | InvalidCapability
  | InvalidModelPreset
  | ToolNameTooLarge
  | TooManyCapabilities
  | InvalidBudget
  | TooManyDependencies
  | DuplicateDependency task_id
  | DependencyCycle task_id
  | UnknownTask task_id
  | UnknownAgent agent_id
  | InvalidAgentSession agent_id
  | AgentNotActive agent_id
  | ScopeExpansion agent_id
  | CapabilityExpansion agent_id
  | BudgetExpansion agent_id
  | InvalidMessage
  | MessageTooLarge
  | InvalidCompletionCapsule
  | CompletionCapsuleTooLarge
  | TooManyCompletionCapsuleEntries
  | InvalidReason
  | ReasonTooLarge
  | OutstandingChildren agent_id
  | InvalidTransition agent_id agent_status string
  | UnknownOperation operation_id
  | IdentifierExhausted
  | InvariantViolation string

type_synonym 'a team_result = "(team_error, 'a) result"

abbreviation invariant :: "string \<Rightarrow> 'a team_result" where
  "invariant detail \<equiv> Err (InvariantViolation detail)"

section \<open>Validation of values\<close>

definition validate_budget :: "resource_budget \<Rightarrow> unit team_result" where
  "validate_budget b = (if token_units b = 0 then Err InvalidBudget else Ok ())"

definition validate_scope :: "task_scope \<Rightarrow> unit team_result" where
  "validate_scope labels =
     (if fcard labels > MAX_SCOPE_LABELS then Err TooManyScopeLabels
      else if fBex labels (\<lambda>l. trim l = [] \<or> trim l \<noteq> l) then Err InvalidScope
      else if fBex labels (\<lambda>l. length l > MAX_SCOPE_LABEL_BYTES) then Err ScopeLabelTooLarge
      else Ok ())"

definition validate_capabilities :: "capability_snapshot \<Rightarrow> unit team_result" where
  "validate_capabilities caps =
     (if fcard caps > MAX_CAPABILITIES then Err TooManyCapabilities
      else if fBex caps (\<lambda>c. case c of Tool name \<Rightarrow> trim name = [] \<or> trim name \<noteq> name | _ \<Rightarrow> False)
      then Err InvalidCapability
      else if fBex caps (\<lambda>c. case c of Tool name \<Rightarrow> length name > MAX_TOOL_NAME_BYTES | _ \<Rightarrow> False)
      then Err ToolNameTooLarge
      else Ok ())"

definition validate_capsule :: "completion_capsule \<Rightarrow> unit team_result" where
  "validate_capsule c =
     (if trim (cc_outcome c) = [] then Err InvalidCompletionCapsule
      else if (case capsule_approximate_bytes c of None \<Rightarrow> True | Some b \<Rightarrow> b > MAX_CAPSULE_BYTES)
      then Err CompletionCapsuleTooLarge
      else if (case capsule_entry_count c of None \<Rightarrow> True | Some n \<Rightarrow> n > MAX_CAPSULE_ENTRIES)
      then Err TooManyCompletionCapsuleEntries
      else Ok ())"

definition validate_reason :: "string \<Rightarrow> unit team_result" where
  "validate_reason reason =
     (if trim reason = [] then Err InvalidReason
      else if length reason > MAX_REASON_BYTES then Err ReasonTooLarge
      else Ok ())"

text \<open>The same checks on binary numbers, for evaluation.\<close>

lemma validate_capsule_code [code]:
  "validate_capsule c =
     (if trim (cc_outcome c) = [] then Err InvalidCompletionCapsule
      else if (case capsule_approximate_bytes c of None \<Rightarrow> True | Some b \<Rightarrow> int b > 262144)
      then Err CompletionCapsuleTooLarge
      else if (case capsule_entry_count c of None \<Rightarrow> True | Some n \<Rightarrow> int n > 1024)
      then Err TooManyCompletionCapsuleEntries
      else Ok ())"
  by (simp add: validate_capsule_def team_bounds split: option.splits)

lemma validate_reason_code [code]:
  "validate_reason reason =
     (if trim reason = [] then Err InvalidReason
      else if int (length reason) > 8192 then Err ReasonTooLarge
      else Ok ())"
  by (simp add: validate_reason_def team_bounds)

definition validate_model_preset_id :: "string \<Rightarrow> unit team_result" where
  "validate_model_preset_id name =
     (if name = [] \<or> length name > MAX_MODEL_PRESET_ID_BYTES
         \<or> \<not> list_all (\<lambda>b. is_ascii_lowercase b \<or> is_ascii_digit b \<or> b = CHR ''-'') name
         \<or> \<not> (case name of [] \<Rightarrow> False | b # _ \<Rightarrow> is_ascii_alphanumeric b)
      then Err InvalidModelPreset
      else Ok ())"

definition inherited_model_preset_new :: "string \<Rightarrow> inherited_model_preset team_result" where
  "inherited_model_preset_new name =
     andthen (validate_model_preset_id name) (\<lambda>_. Ok (InheritedModelPreset name))"

definition validate_preset_option :: "inherited_model_preset option \<Rightarrow> unit team_result" where
  "validate_preset_option p =
     (case p of None \<Rightarrow> Ok () | Some preset \<Rightarrow> validate_model_preset_id (preset_id preset))"

text \<open>The dependencies of a stored Task are strictly increasing.\<close>

fun dependencies_canonical :: "task_id list \<Rightarrow> unit team_result" where
  "dependencies_canonical (a # b # ds) =
     (if b \<le> a
      then (if a = b then Err (DuplicateDependency a)
            else invariant ''Task dependencies are not canonically ordered'')
      else dependencies_canonical (b # ds))"
| "dependencies_canonical _ = Ok ()"

definition validate_stored_task_spec :: "task_spec \<Rightarrow> unit team_result" where
  "validate_stored_task_spec spec =
     (if trim (ts_title spec) = [] \<or> trim (ts_title spec) \<noteq> ts_title spec then Err InvalidTaskTitle
      else if length (ts_title spec) > MAX_TASK_TITLE_BYTES then Err TaskTitleTooLarge
      else andthen (validate_scope (ts_scope spec)) (\<lambda>_.
        if length (ts_dependencies spec) > MAX_TASK_DEPENDENCIES then Err TooManyDependencies
        else dependencies_canonical (ts_dependencies spec)))"

definition validate_stored_identifier :: "u64 \<Rightarrow> unit team_result" where
  "validate_stored_identifier value =
     (if value = 0 \<or> value = u64_max then invariant ''identifier is invalid'' else Ok ())"

definition fresh_identifier :: "u64 \<Rightarrow> u64 team_result" where
  "fresh_identifier value = andthen (validate_stored_identifier value) (\<lambda>_. Ok value)"

text \<open>\<open>values.max().unwrap_or(0).checked_add(1)\<close>.\<close>

definition next_identifier :: "u64 list \<Rightarrow> u64 team_result" where
  "next_identifier values =
     ok_or (checked_add (case values of [] \<Rightarrow> 0 | v # vs \<Rightarrow> fold max vs v) 1) IdentifierExhausted"

section \<open>Facts about the value types\<close>

lemma fold_max_ge: "(v :: u64) \<le> fold max vs v"
proof (induction vs arbitrary: v)
  case (Cons w vs)
  from Cons.IH [of "max w v"] show ?case by (simp add: max.coboundedI2 order.trans [rotated])
qed simp

lemma fold_max_ge_set: "w \<in> set vs \<Longrightarrow> (w :: u64) \<le> fold max vs v"
proof (induction vs arbitrary: v)
  case (Cons x vs)
  show ?case
  proof (cases "w = x")
    case True
    then show ?thesis using fold_max_ge [of "max x v" vs] by (simp add: order.trans [rotated])
  next
    case False
    with Cons show ?thesis by simp
  qed
qed simp

lemma next_identifier_above:
  assumes "next_identifier vs = Ok e" and "v \<in> set vs"
  shows "v < e"
proof -
  obtain w ws where vs: "vs = w # ws" using assms(2) by (cases vs) auto
  have "v \<le> fold max ws w"
    using assms(2) vs fold_max_ge [of w ws] fold_max_ge_set [of v ws w] by auto
  moreover have "fold max ws w < e"
    using assms(1) vs by (auto simp: next_identifier_def result_ok intro: checked_add_one_gt)
  ultimately show ?thesis by simp
qed

lemma next_identifier_Nil: "next_identifier [] = Ok 1"
  by (simp add: next_identifier_def checked_add_def)

lemma budget_containsD:
  "budget_contains b c \<Longrightarrow> unat (token_units c) \<le> unat (token_units b) \<and> unat (tool_calls c) \<le> unat (tool_calls b)"
  by (simp add: budget_contains_def word_le_nat_alt)

lemma budget_checked_add_SomeD:
  assumes "budget_checked_add a b = Some c"
  shows "unat (token_units c) = unat (token_units a) + unat (token_units b)"
    and "unat (tool_calls c) = unat (tool_calls a) + unat (tool_calls b)"
  using assms by (auto simp: budget_checked_add_def dest!: checked_add_SomeD split: option.splits)

lemma budget_contains_trans: "budget_contains a b \<Longrightarrow> budget_contains b c \<Longrightarrow> budget_contains a c"
  by (auto simp: budget_contains_def)

lemma usize_sum_from_Some: "usize_sum_from t ns = Some s \<Longrightarrow> s = t + sum_list ns"
  by (induction t ns rule: usize_sum_from.induct)
     (auto dest: usize_add_SomeD split: option.splits)

lemma dependencies_canonical_Ok: "dependencies_canonical ds = Ok u \<Longrightarrow> sorted_wrt (<) ds"
proof (induction ds rule: dependencies_canonical.induct)
  case (1 a b ds)
  then have "a < b" "sorted_wrt (<) (b # ds)" by (auto split: if_splits)
  then show ?case by auto
qed simp_all

lemma validators_return [simp]:
  "validate_budget b \<noteq> Diverges" "validate_scope s \<noteq> Diverges" "validate_capabilities c \<noteq> Diverges"
  "validate_capsule k \<noteq> Diverges" "validate_reason r \<noteq> Diverges"
  "validate_model_preset_id p \<noteq> Diverges" "validate_preset_option q \<noteq> Diverges"
  "validate_stored_identifier i \<noteq> Diverges" "next_identifier vs \<noteq> Diverges"
  by (auto simp: validate_budget_def validate_scope_def validate_capabilities_def
      validate_capsule_def validate_reason_def validate_model_preset_id_def
      validate_preset_option_def validate_stored_identifier_def next_identifier_def
      split: option.splits)

lemma dependencies_canonical_returns [simp]: "dependencies_canonical ds \<noteq> Diverges"
  by (induction ds rule: dependencies_canonical.induct) auto

lemma validate_stored_task_spec_returns [simp]: "validate_stored_task_spec s \<noteq> Diverges"
  by (auto simp: validate_stored_task_spec_def andthen_eq_Diverges)

lemma fresh_identifier_returns [simp]: "fresh_identifier v \<noteq> Diverges"
  by (auto simp: fresh_identifier_def andthen_eq_Diverges)

end
