(* ===== verification/Team_State.thy ===== *)
theory Team_State
  imports Team_Types
begin

text \<open>
  The event fold of the Agent Team (\<open>TeamState\<close> of \<open>greentyper-core/src/agent_team.rs\<close>):
  \<open>apply\<close> with one definition per event, the queries on dependencies, the whole-state checks
  \<open>validate\<close> and \<open>validate_quiescent\<close>, and the scheduler \<open>reconcile\<close>.

  \<open>TeamState::apply\<close> mutates the state in place.  Every caller runs it on a clone that is dropped
  when it returns an error, so the model returns the new state on success only.

  Two loops of the code follow links that only the invariants bound: the walk to the root in
  \<open>ancestor_dependency\<close> and the activation loop of \<open>reconcile\<close>.  They take fuel, the number of
  Agents and of Tasks plus one; \<open>Team_Fold\<close> and \<open>Team_Schedule\<close> prove that it is never spent.
\<close>

section \<open>Reading and writing records\<close>

definition get_task :: "team_state \<Rightarrow> task_id \<Rightarrow> task_record team_result" where
  "get_task st t = ok_or (bt_get (tasks st) t) (UnknownTask t)"

definition get_agent :: "team_state \<Rightarrow> agent_id \<Rightarrow> agent_record team_result" where
  "get_agent st a = ok_or (bt_get (agents st) a) (UnknownAgent a)"

definition put_task :: "team_state \<Rightarrow> task_id \<Rightarrow> task_record \<Rightarrow> team_state" where
  "put_task st t r = st\<lparr>tasks := bt_insert t r (tasks st)\<rparr>"

definition put_agent :: "team_state \<Rightarrow> agent_id \<Rightarrow> agent_record \<Rightarrow> team_state" where
  "put_agent st a r = st\<lparr>agents := bt_insert a r (agents st)\<rparr>"

definition active_agent_count :: "team_state \<Rightarrow> usize" where
  "active_agent_count st = length (filter (\<lambda>a. ar_status a = Active) (bt_values (agents st)))"

definition dependencies_succeeded :: "team_state \<Rightarrow> task_id \<Rightarrow> bool team_result" where
  "dependencies_succeeded st t =
     andthen (get_task st t) (\<lambda>r.
       try_fold (\<lambda>all d. map_ok (\<lambda>d'. all \<and> tr_status d' = TSucceeded) (get_task st d))
         True (ts_dependencies (tr_spec r)))"

fun first_failed_in :: "team_state \<Rightarrow> task_id list \<Rightarrow> task_id option team_result" where
  "first_failed_in st [] = Ok None"
| "first_failed_in st (d # ds) =
     andthen (get_task st d) (\<lambda>r.
       if blocks_dependents (tr_status r) then Ok (Some d) else first_failed_in st ds)"

definition first_failed_dependency :: "team_state \<Rightarrow> task_id \<Rightarrow> task_id option team_result" where
  "first_failed_dependency st t =
     andthen (get_task st t) (\<lambda>r. first_failed_in st (ts_dependencies (tr_spec r)))"

fun ancestor_loop :: "nat \<Rightarrow> team_state \<Rightarrow> agent_id option \<Rightarrow> task_id list \<Rightarrow> task_id option team_result" where
  "ancestor_loop 0 st current deps = Diverges"
| "ancestor_loop (Suc n) st None deps = Ok None"
| "ancestor_loop (Suc n) st (Some a) deps =
     andthen (get_agent st a) (\<lambda>r.
       if ar_task r \<in> set deps then Ok (Some (ar_task r))
       else ancestor_loop n st (ar_parent r) deps)"

definition ancestor_dependency :: "team_state \<Rightarrow> agent_id \<Rightarrow> task_id list \<Rightarrow> task_id option team_result" where
  "ancestor_dependency st parent deps =
     ancestor_loop (Suc (length (agents st))) st (Some parent) deps"

section \<open>Applying one event\<close>

definition apply_task_created :: "team_state \<Rightarrow> task_id \<Rightarrow> task_spec \<Rightarrow> team_state team_result" where
  "apply_task_created st t spec =
     andthen (validate_stored_identifier (id_get t)) (\<lambda>_.
     andthen (next_identifier (map id_get (bt_keys (tasks st)))) (\<lambda>expected.
     if id_get t \<noteq> expected then invariant ''expected Task identifier {}, found {}''
     else if bt_contains_key (tasks st) t then invariant ''Task {} was created twice''
     else
     andthen (validate_stored_task_spec spec) (\<lambda>_.
     andthen (try_each (\<lambda>d. ensure (bt_contains_key (tasks st) d)
                 (InvariantViolation ''Task {} references unknown dependency {}''))
               (ts_dependencies spec)) (\<lambda>_.
     Ok (put_task st t
       \<lparr>tr_id = t, tr_spec = spec, tr_owner = None, tr_status = TPending, tr_completion = None\<rparr>)))))"

text \<open>The authority checks of \<open>AgentCreated\<close>; the result is the state with the root recorded.\<close>

definition check_agent_parent ::
  "team_state \<Rightarrow> agent_id \<Rightarrow> task_record \<Rightarrow> agent_id option \<Rightarrow> capability_snapshot \<Rightarrow> team_state team_result" where
  "check_agent_parent st a task_rec parent caps =
     (case parent of
        Some p \<Rightarrow>
          andthen (get_agent st p) (\<lambda>parent_agent.
          if ar_status parent_agent \<noteq> Active
          then invariant ''parent Agent {} was not Active at Delegation''
          else
          andthen (get_task st (ar_task parent_agent)) (\<lambda>parent_task.
          if \<not> scope_subset (ts_scope (tr_spec task_rec)) (ts_scope (tr_spec parent_task))
          then Err (ScopeExpansion p)
          else if \<not> cap_subset caps (ar_capabilities parent_agent)
          then Err (CapabilityExpansion p)
          else
          andthen (ancestor_dependency st p (ts_dependencies (tr_spec task_rec))) (\<lambda>dep.
          case dep of Some d \<Rightarrow> Err (DependencyCycle d) | None \<Rightarrow> Ok st)))
      | None \<Rightarrow>
          if root st \<noteq> None then Err RootAlreadyAdmitted
          else if ts_dependencies (tr_spec task_rec) \<noteq> [] then Err RootDependenciesNotAllowed
          else Ok (st\<lparr>root := Some a\<rparr>))"

definition apply_agent_created ::
  "team_state \<Rightarrow> agent_id \<Rightarrow> task_id \<Rightarrow> agent_id option \<Rightarrow> resource_budget \<Rightarrow> capability_snapshot
     \<Rightarrow> inherited_model_preset option \<Rightarrow> team_state team_result" where
  "apply_agent_created st a t parent budget caps preset =
     andthen (validate_stored_identifier (id_get a)) (\<lambda>_.
     andthen (next_identifier (map id_get (bt_keys (agents st)))) (\<lambda>expected.
     if id_get a \<noteq> expected then invariant ''expected Agent identifier {}, found {}''
     else if bt_contains_key (agents st) a then invariant ''Agent {} was created twice''
     else
     andthen (get_task st t) (\<lambda>task_rec.
     if tr_owner task_rec \<noteq> None then invariant ''Task {} already has an Owner''
     else
     andthen (validate_budget budget) (\<lambda>_.
     andthen (validate_capabilities caps) (\<lambda>_.
     andthen (validate_preset_option preset) (\<lambda>_.
     andthen (check_agent_parent st a task_rec parent caps) (\<lambda>st'.
     Ok (put_agent st' a
       \<lparr>ar_id = a, ar_parent = parent, ar_task = t, ar_status = Dormant, ar_budget = budget,
        ar_reserved_budget = budget_default, ar_capabilities = caps, ar_preset = preset\<rparr>))))))))"

definition apply_task_owner_assigned :: "team_state \<Rightarrow> task_id \<Rightarrow> agent_id \<Rightarrow> team_state team_result" where
  "apply_task_owner_assigned st t a =
     andthen (get_agent st a) (\<lambda>agent_rec.
     if ar_task agent_rec \<noteq> t then invariant ''Agent {} was assigned to the wrong Task''
     else
     andthen (get_task st t) (\<lambda>task_rec.
     if tr_owner task_rec \<noteq> None then invariant ''Task {} received more than one Owner''
     else Ok (put_task st t (task_rec\<lparr>tr_owner := Some a\<rparr>))))"

definition apply_delegation_granted :: "team_state \<Rightarrow> agent_id \<Rightarrow> agent_id \<Rightarrow> team_state team_result" where
  "apply_delegation_granted st p c =
     andthen (get_agent st c) (\<lambda>child.
     if ar_parent child \<noteq> Some p then invariant ''Agent {} has a different parent''
     else
     andthen (get_agent st p) (\<lambda>parent_rec.
     if ar_status parent_rec \<noteq> Active then Err (AgentNotActive p)
     else
     andthen (ok_or (budget_checked_add (ar_reserved_budget parent_rec) (ar_budget child))
               (BudgetExpansion p)) (\<lambda>reserved.
     if \<not> budget_contains (ar_budget parent_rec) reserved then Err (BudgetExpansion p)
     else Ok (put_agent st p (parent_rec\<lparr>ar_reserved_budget := reserved\<rparr>)))))"

definition apply_task_ready :: "team_state \<Rightarrow> task_id \<Rightarrow> team_state team_result" where
  "apply_task_ready st t =
     andthen (dependencies_succeeded st t) (\<lambda>ready.
     andthen (get_task st t) (\<lambda>r.
     if tr_status r \<noteq> TPending \<or> \<not> ready then invariant ''Task {} cannot become Ready''
     else Ok (put_task st t (r\<lparr>tr_status := TReady\<rparr>))))"

definition apply_agent_activated :: "team_state \<Rightarrow> agent_id \<Rightarrow> usize \<Rightarrow> team_state team_result" where
  "apply_agent_activated st a max_active =
     (if active_agent_count st \<ge> max_active then invariant ''Active Agent limit exceeded''
      else
      andthen (get_agent st a) (\<lambda>r.
      if ar_status r \<noteq> Dormant then invariant ''Agent {} cannot become Active from {}''
      else
      andthen (get_task st (ar_task r)) (\<lambda>t.
      if tr_status t \<noteq> TReady \<or> tr_owner t \<noteq> Some a
      then invariant ''Agent {} does not own a Ready Task''
      else Ok (put_agent st a (r\<lparr>ar_status := Active\<rparr>)))))"

definition apply_task_started :: "team_state \<Rightarrow> task_id \<Rightarrow> team_state team_result" where
  "apply_task_started st t =
     andthen (get_task st t) (\<lambda>r.
     if tr_status r \<noteq> TReady then invariant ''Task {} cannot start from {}''
     else
     andthen (ok_or (tr_owner r) (InvariantViolation ''Task {} has no Owner'')) (\<lambda>owner.
     andthen (get_agent st owner) (\<lambda>a.
     if ar_status a \<noteq> Active then invariant ''Task {} Owner is not Active''
     else Ok (put_task st t (r\<lparr>tr_status := TRunning\<rparr>)))))"

definition apply_message_sent ::
  "team_state \<Rightarrow> message_id \<Rightarrow> agent_id \<Rightarrow> message_recipient \<Rightarrow> string \<Rightarrow> team_state team_result" where
  "apply_message_sent st m sender recipient body =
     andthen (validate_stored_identifier (id_get m)) (\<lambda>_.
     andthen (next_identifier (map (id_get \<circ> mv_id) (messages st))) (\<lambda>expected.
     if id_get m \<noteq> expected then invariant ''expected Message identifier {}, found {}''
     else
     andthen (get_agent st sender) (\<lambda>sender_rec.
     if ar_status sender_rec \<noteq> Active then Err (AgentNotActive sender)
     else if trim body = [] \<or> length body > MAX_MESSAGE_BYTES then Err InvalidMessage
     else if list_ex (\<lambda>e. mv_id e = m) (messages st) then invariant ''Message {} was recorded twice''
     else
     andthen (case recipient of
         ToAgent target \<Rightarrow>
           andthen (get_agent st target) (\<lambda>target_rec.
           if agent_terminal (ar_status target_rec)
           then invariant ''terminal Agent received a message'' else Ok ())
       | ToTeam \<Rightarrow> Ok ()) (\<lambda>_.
     Ok (st\<lparr>messages := messages st @
         [\<lparr>mv_id = m, mv_from = sender, mv_recipient = recipient, mv_body = body\<rparr>]\<rparr>)))))"

definition apply_completion_capsule ::
  "team_state \<Rightarrow> task_id \<Rightarrow> agent_id \<Rightarrow> completion_capsule \<Rightarrow> team_state team_result" where
  "apply_completion_capsule st t a capsule =
     andthen (validate_capsule capsule) (\<lambda>_.
     andthen (get_task st t) (\<lambda>r.
     if tr_status r \<noteq> TRunning \<or> tr_owner r \<noteq> Some a \<or> tr_completion r \<noteq> None
     then invariant ''Task {} cannot accept this Completion Capsule''
     else
     andthen (get_agent st a) (\<lambda>owner.
     if ar_status owner \<noteq> Active then Err (AgentNotActive a)
     else Ok (put_task st t (r\<lparr>tr_completion := Some capsule\<rparr>)))))"

definition apply_task_succeeded :: "team_state \<Rightarrow> task_id \<Rightarrow> team_state team_result" where
  "apply_task_succeeded st t =
     andthen (get_task st t) (\<lambda>r.
     if tr_status r \<noteq> TRunning \<or> tr_completion r = None then invariant ''Task {} cannot succeed''
     else Ok (put_task st t (r\<lparr>tr_status := TSucceeded\<rparr>)))"

definition apply_agent_succeeded :: "team_state \<Rightarrow> agent_id \<Rightarrow> team_state team_result" where
  "apply_agent_succeeded st a =
     andthen (get_agent st a) (\<lambda>r.
     if ar_status r \<noteq> Active then Err (AgentNotActive a)
     else
     andthen (get_task st (ar_task r)) (\<lambda>t.
     if tr_status t \<noteq> TSucceeded then invariant ''Agent {} Task did not succeed''
     else Ok (put_agent st a (r\<lparr>ar_status := Succeeded\<rparr>))))"

fun is_task_failed :: "task_status \<Rightarrow> bool" where
  "is_task_failed (TFailed _) = True"
| "is_task_failed _ = False"

fun is_task_cancelled :: "task_status \<Rightarrow> bool" where
  "is_task_cancelled (TCancelled _) = True"
| "is_task_cancelled _ = False"

definition apply_task_failed :: "team_state \<Rightarrow> task_id \<Rightarrow> string \<Rightarrow> team_state team_result" where
  "apply_task_failed st t reason =
     andthen (validate_reason reason) (\<lambda>_.
     andthen (get_task st t) (\<lambda>r.
     if tr_status r \<noteq> TRunning then invariant ''Task {} cannot fail from {}''
     else Ok (put_task st t (r\<lparr>tr_status := TFailed reason\<rparr>))))"

definition apply_agent_failed :: "team_state \<Rightarrow> agent_id \<Rightarrow> team_state team_result" where
  "apply_agent_failed st a =
     andthen (get_agent st a) (\<lambda>r.
     if ar_status r \<noteq> Active then Err (AgentNotActive a)
     else
     andthen (get_task st (ar_task r)) (\<lambda>t.
     if \<not> is_task_failed (tr_status t) then invariant ''Agent {} Task did not fail''
     else Ok (put_agent st a (r\<lparr>ar_status := Failed\<rparr>))))"

definition apply_task_cancelled :: "team_state \<Rightarrow> task_id \<Rightarrow> string \<Rightarrow> team_state team_result" where
  "apply_task_cancelled st t reason =
     andthen (validate_reason reason) (\<lambda>_.
     andthen (get_task st t) (\<lambda>r.
     if task_terminal (tr_status r) then invariant ''terminal Task {} cannot be cancelled''
     else Ok (put_task st t (r\<lparr>tr_status := TCancelled reason\<rparr>))))"

definition apply_agent_cancelled :: "team_state \<Rightarrow> agent_id \<Rightarrow> team_state team_result" where
  "apply_agent_cancelled st a =
     andthen (get_agent st a) (\<lambda>r.
     if agent_terminal (ar_status r) then invariant ''terminal Agent {} cannot be cancelled''
     else
     andthen (get_task st (ar_task r)) (\<lambda>t.
     if \<not> is_task_cancelled (tr_status t) then invariant ''Agent {} Task was not cancelled''
     else Ok (put_agent st a (r\<lparr>ar_status := Cancelled\<rparr>))))"

definition apply_task_blocked :: "team_state \<Rightarrow> task_id \<Rightarrow> task_id \<Rightarrow> team_state team_result" where
  "apply_task_blocked st t blocked_by =
     andthen (get_task st blocked_by) (\<lambda>blocker.
     if \<not> blocks_dependents (tr_status blocker) then invariant ''Task {} does not block dependents''
     else
     andthen (get_task st t) (\<lambda>r.
     if \<not> (tr_status r = TPending \<or> tr_status r = TReady)
        \<or> blocked_by \<notin> set (ts_dependencies (tr_spec r))
     then invariant ''Task {} cannot be blocked by Task {}''
     else Ok (put_task st t (r\<lparr>tr_status := TBlocked blocked_by\<rparr>))))"

definition apply_agent_blocked :: "team_state \<Rightarrow> agent_id \<Rightarrow> task_id \<Rightarrow> team_state team_result" where
  "apply_agent_blocked st a blocked_by =
     andthen (get_agent st a) (\<lambda>r.
     if ar_status r \<noteq> Dormant then invariant ''Agent {} cannot become Blocked from {}''
     else
     andthen (get_task st (ar_task r)) (\<lambda>t.
     if tr_status t \<noteq> TBlocked blocked_by then invariant ''Agent {} Task has a different blocker''
     else Ok (put_agent st a (r\<lparr>ar_status := Blocked\<rparr>))))"

definition apply_task_retry_requested :: "team_state \<Rightarrow> task_id \<Rightarrow> team_state team_result" where
  "apply_task_retry_requested st t =
     andthen (get_task st t) (\<lambda>r.
     if \<not> blocks_dependents (tr_status r) then invariant ''Task {} cannot be requeued from {}''
     else Ok (put_task st t (r\<lparr>tr_status := TPending, tr_completion := None\<rparr>)))"

definition retryable :: "agent_status \<Rightarrow> bool" where
  "retryable s \<longleftrightarrow> s = Blocked \<or> s = Failed \<or> s = Cancelled"

definition apply_agent_retry_requested :: "team_state \<Rightarrow> agent_id \<Rightarrow> agent_id \<Rightarrow> team_state team_result" where
  "apply_agent_retry_requested st requester a =
     andthen (get_agent st requester) (\<lambda>requester_rec.
     if ar_status requester_rec \<noteq> Active then Err (AgentNotActive requester)
     else
     andthen (get_agent st a) (\<lambda>r.
     if ar_parent r \<noteq> Some requester \<or> \<not> retryable (ar_status r)
     then invariant ''Agent {} cannot be requeued by Agent {}''
     else Ok (put_agent st a (r\<lparr>ar_status := Dormant\<rparr>))))"

definition apply_operation_committed :: "team_state \<Rightarrow> operation_id \<Rightarrow> transaction_id \<Rightarrow> team_state team_result" where
  "apply_operation_committed st op tx =
     andthen (validate_stored_identifier (id_get op)) (\<lambda>_.
     andthen (validate_stored_identifier (id_get tx)) (\<lambda>_.
     andthen (next_identifier (map id_get (bt_keys (operations st)))) (\<lambda>expected.
     if id_get op \<noteq> expected then invariant ''expected Team operation identifier {}, found {}''
     else if bt_contains_key (operations st) op then invariant ''Team operation {} was committed twice''
     else Ok (st\<lparr>operations := bt_insert op
         \<lparr>or_transaction = tx, or_acknowledgement = None\<rparr> (operations st)\<rparr>))))"

definition apply_operation_acknowledged ::
  "team_state \<Rightarrow> operation_id \<Rightarrow> transaction_id \<Rightarrow> transaction_id \<Rightarrow> team_state team_result" where
  "apply_operation_acknowledged st op committed ack =
     andthen (validate_stored_identifier (id_get op)) (\<lambda>_.
     andthen (validate_stored_identifier (id_get committed)) (\<lambda>_.
     andthen (validate_stored_identifier (id_get ack)) (\<lambda>_.
     andthen (ok_or (bt_get (operations st) op) (UnknownOperation op)) (\<lambda>r.
     if or_transaction r \<noteq> committed
     then invariant ''Team operation {} acknowledgement targets transaction {}, expected {}''
     else if or_acknowledgement r \<noteq> None then invariant ''Team operation {} was acknowledged twice''
     else Ok (st\<lparr>operations := bt_insert op (r\<lparr>or_acknowledgement := Some ack\<rparr>) (operations st)\<rparr>)))))"

fun apply_event :: "team_state \<Rightarrow> team_event_kind \<Rightarrow> usize \<Rightarrow> team_state team_result" where
  "apply_event st (TaskCreated t spec) n = apply_task_created st t spec"
| "apply_event st (AgentCreated a t parent budget caps preset) n =
     apply_agent_created st a t parent budget caps preset"
| "apply_event st (TaskOwnerAssigned t a) n = apply_task_owner_assigned st t a"
| "apply_event st (DelegationGranted p c) n = apply_delegation_granted st p c"
| "apply_event st (TaskReady t) n = apply_task_ready st t"
| "apply_event st (AgentActivated a) n = apply_agent_activated st a n"
| "apply_event st (TaskStarted t) n = apply_task_started st t"
| "apply_event st (MessageSent m sender recipient body) n = apply_message_sent st m sender recipient body"
| "apply_event st (CompletionCapsuleSubmitted t a capsule) n = apply_completion_capsule st t a capsule"
| "apply_event st (TaskSucceeded t) n = apply_task_succeeded st t"
| "apply_event st (AgentSucceeded a) n = apply_agent_succeeded st a"
| "apply_event st (TaskFailed t reason) n = apply_task_failed st t reason"
| "apply_event st (AgentFailed a) n = apply_agent_failed st a"
| "apply_event st (TaskCancelled t reason) n = apply_task_cancelled st t reason"
| "apply_event st (AgentCancelled a) n = apply_agent_cancelled st a"
| "apply_event st (TaskBlocked t b) n = apply_task_blocked st t b"
| "apply_event st (AgentBlocked a b) n = apply_agent_blocked st a b"
| "apply_event st (TaskRetryRequested t) n = apply_task_retry_requested st t"
| "apply_event st (AgentRetryRequested q a) n = apply_agent_retry_requested st q a"
| "apply_event st (OperationCommitted op tx) n = apply_operation_committed st op tx"
| "apply_event st (OperationAcknowledged op committed ack) n =
     apply_operation_acknowledged st op committed ack"

section \<open>Whole-state checks\<close>

fun validate_operations :: "nat \<Rightarrow> (operation_id \<times> operation_record) list \<Rightarrow> unit team_result" where
  "validate_operations index [] = Ok ()"
| "validate_operations index ((op, r) # rest) =
     andthen (ok_or (u64_try_from (index + 1)) IdentifierExhausted) (\<lambda>expected.
     if id_get op \<noteq> expected then invariant ''Team operation identifiers are not contiguous at {}''
     else if (case or_acknowledgement r of None \<Rightarrow> False | Some ack \<Rightarrow> ack \<le> or_transaction r)
     then invariant ''Team operation {} acknowledgement precedes its commit''
     else validate_operations (Suc index) rest)"

fun statuses_paired :: "task_status \<Rightarrow> agent_status \<Rightarrow> bool" where
  "statuses_paired TPending Dormant = True"
| "statuses_paired TReady Dormant = True"
| "statuses_paired TRunning Active = True"
| "statuses_paired (TBlocked _) Blocked = True"
| "statuses_paired TSucceeded Succeeded = True"
| "statuses_paired (TFailed _) Failed = True"
| "statuses_paired (TCancelled _) Cancelled = True"
| "statuses_paired _ _ = False"

definition validate_task :: "team_state \<Rightarrow> task_record \<Rightarrow> unit team_result" where
  "validate_task st r =
     andthen (ok_or (tr_owner r) (InvariantViolation ''Task {} has no Owner'')) (\<lambda>owner.
     andthen (get_agent st owner) (\<lambda>a.
     if ar_task a \<noteq> tr_id r then invariant ''Task {} Owner points elsewhere''
     else if \<not> statuses_paired (tr_status r) (ar_status a)
     then invariant ''Task {} and Agent {} states disagree''
     else Ok ()))"

fun budget_sum_from :: "resource_budget \<Rightarrow> resource_budget list \<Rightarrow> resource_budget option" where
  "budget_sum_from acc [] = Some acc"
| "budget_sum_from acc (b # bs) =
     (case budget_checked_add acc b of None \<Rightarrow> None | Some acc' \<Rightarrow> budget_sum_from acc' bs)"

definition children :: "team_state \<Rightarrow> agent_id \<Rightarrow> agent_record list" where
  "children st p = filter (\<lambda>c. ar_parent c = Some p) (bt_values (agents st))"

definition outstanding_children :: "team_state \<Rightarrow> agent_id \<Rightarrow> bool" where
  "outstanding_children st p \<longleftrightarrow>
     list_ex (\<lambda>c. ar_parent c = Some p \<and> \<not> agent_terminal (ar_status c)) (bt_values (agents st))"

definition validate_agent :: "team_state \<Rightarrow> agent_record \<Rightarrow> unit team_result" where
  "validate_agent st r =
     andthen (get_task st (ar_task r)) (\<lambda>t.
     if tr_owner t \<noteq> Some (ar_id r) then invariant ''Agent {} is not the Owner of Task {}''
     else
     andthen (case ar_parent r of
         Some p \<Rightarrow> ensure (bt_contains_key (agents st) p) (UnknownAgent p)
       | None \<Rightarrow> Ok ()) (\<lambda>_.
     if \<not> budget_contains (ar_budget r) (ar_reserved_budget r)
     then invariant ''Agent {} over-reserved its budget''
     else
     andthen (ok_or (budget_sum_from budget_default (map ar_budget (children st (ar_id r))))
               (BudgetExpansion (ar_id r))) (\<lambda>expected_reserved.
     if ar_reserved_budget r \<noteq> expected_reserved
     then invariant ''Agent {} reserved budget does not match its Delegations''
     else if agent_terminal (ar_status r) \<and> outstanding_children st (ar_id r)
     then Err (OutstandingChildren (ar_id r))
     else Ok ())))"

definition validate :: "team_state \<Rightarrow> usize \<Rightarrow> unit team_result" where
  "validate st max_active =
     (if active_agent_count st > max_active then invariant ''Active Agent limit exceeded''
      else if (case root st of None \<Rightarrow> False | Some r \<Rightarrow> \<not> bt_contains_key (agents st) r)
      then invariant ''root Agent is missing''
      else
      andthen (validate_operations 0 (operations st)) (\<lambda>_.
      andthen (try_each (validate_task st) (bt_values (tasks st))) (\<lambda>_.
      try_each (validate_agent st) (bt_values (agents st)))))"

definition check_pending :: "team_state \<Rightarrow> task_record \<Rightarrow> unit team_result" where
  "check_pending st t =
     andthen (first_failed_dependency st (tr_id t)) (\<lambda>failed.
     andthen (if failed \<noteq> None then Ok True else dependencies_succeeded st (tr_id t)) (\<lambda>resolved.
     if resolved then invariant ''Task {} is Pending despite a resolved dependency state''
     else Ok ()))"

definition validate_quiescent :: "team_state \<Rightarrow> usize \<Rightarrow> unit team_result" where
  "validate_quiescent st max_active =
     andthen (try_each (check_pending st)
               (filter (\<lambda>t. tr_status t = TPending) (bt_values (tasks st)))) (\<lambda>_.
     if active_agent_count st < max_active \<and> list_ex (\<lambda>t. tr_status t = TReady) (bt_values (tasks st))
     then invariant ''Ready Task was not activated despite available capacity''
     else Ok ())"

section \<open>The scheduler\<close>

definition apply_planned ::
  "team_state \<Rightarrow> team_event_kind list \<Rightarrow> team_event_kind \<Rightarrow> usize
     \<Rightarrow> (team_state \<times> team_event_kind list) team_result" where
  "apply_planned st evs e max_active =
     andthen (apply_event st e max_active) (\<lambda>st'. Ok (st', evs @ [e]))"

definition task_owner :: "team_state \<Rightarrow> task_id \<Rightarrow> agent_id team_result" where
  "task_owner st t =
     ok_or (Option.bind (bt_get (tasks st) t) tr_owner) (InvariantViolation ''Task {} has no Owner'')"

definition resolve_pending ::
  "usize \<Rightarrow> team_state \<times> team_event_kind list \<Rightarrow> task_id
     \<Rightarrow> (team_state \<times> team_event_kind list) team_result" where
  "resolve_pending max_active se t =
     (case se of (st, evs) \<Rightarrow>
     andthen (first_failed_dependency st t) (\<lambda>failed.
     case failed of
       Some blocked_by \<Rightarrow>
         andthen (apply_planned st evs (TaskBlocked t blocked_by) max_active) (\<lambda>(st, evs).
         andthen (task_owner st t) (\<lambda>a.
         apply_planned st evs (AgentBlocked a blocked_by) max_active))
     | None \<Rightarrow>
         andthen (dependencies_succeeded st t) (\<lambda>ready.
         if ready then apply_planned st evs (TaskReady t) max_active else Ok (st, evs))))"

fun activate_ready ::
  "nat \<Rightarrow> usize \<Rightarrow> team_state \<times> team_event_kind list
     \<Rightarrow> (team_state \<times> team_event_kind list) team_result" where
  "activate_ready 0 max_active se = Diverges"
| "activate_ready (Suc fuel) max_active (st, evs) =
     (if active_agent_count st < max_active
      then (case List.find (\<lambda>t. tr_status t = TReady) (bt_values (tasks st)) of
              None \<Rightarrow> Ok (st, evs)
            | Some r \<Rightarrow>
                andthen (task_owner st (tr_id r)) (\<lambda>a.
                andthen (apply_planned st evs (AgentActivated a) max_active) (\<lambda>(st, evs).
                andthen (apply_planned st evs (TaskStarted (tr_id r)) max_active) (\<lambda>se.
                activate_ready fuel max_active se))))
      else Ok (st, evs))"

definition pending_tasks :: "team_state \<Rightarrow> task_id list" where
  "pending_tasks st = map tr_id (filter (\<lambda>t. tr_status t = TPending) (bt_values (tasks st)))"

definition reconcile ::
  "team_state \<Rightarrow> team_event_kind list \<Rightarrow> usize \<Rightarrow> (team_state \<times> team_event_kind list) team_result" where
  "reconcile st evs max_active =
     andthen (try_fold (resolve_pending max_active) (st, evs) (pending_tasks st)) (\<lambda>se.
     activate_ready (Suc (length (tasks st))) max_active se)"

end
