(* ===== verification/Team_Tree.thy ===== *)
theory Team_Tree
  imports Team_State
begin

text \<open>
  The authority tree, the abstract view of a Team state: which Tasks exist with which
  specification, and which Agent was delegated by which with what capabilities and budget.  It
  grows and never changes otherwise.  \<open>tree_step\<close> is the specification of that growth;
  \<open>apply_event_tree\<close> shows that every event of the fold leaves the tree alone or takes one such
  step, so what holds along \<open>tree_step\<close> holds of every state the code builds.
\<close>

section \<open>The abstract tree\<close>

record authority_node =
  an_parent :: "agent_id option"
  an_task :: task_id
  an_budget :: resource_budget
  an_capabilities :: capability_snapshot
  an_preset :: "inherited_model_preset option"

record authority_tree =
  at_root :: "agent_id option"
  at_specs :: "task_id \<Rightarrow> task_spec option"
  at_nodes :: "agent_id \<Rightarrow> authority_node option"

definition empty_tree :: authority_tree where
  "empty_tree = \<lparr>at_root = None, at_specs = Map.empty, at_nodes = Map.empty\<rparr>"

text \<open>\<open>ancestor T a b\<close>: Agent \<open>a\<close> delegated \<open>b\<close>, directly or through others.\<close>

inductive ancestor :: "authority_tree \<Rightarrow> agent_id \<Rightarrow> agent_id \<Rightarrow> bool" for T where
  direct: "at_nodes T b = Some n \<Longrightarrow> an_parent n = Some a \<Longrightarrow> ancestor T a b"
| above: "at_nodes T b = Some n \<Longrightarrow> an_parent n = Some p \<Longrightarrow> ancestor T a p \<Longrightarrow> ancestor T a b"

inductive_simps ancestor_iff: "ancestor T a b"

definition delegable :: "authority_tree \<Rightarrow> agent_id \<Rightarrow> task_spec \<Rightarrow> capability_snapshot \<Rightarrow> bool" where
  "delegable T p spec caps \<longleftrightarrow>
     (\<exists>pn pspec. at_nodes T p = Some pn \<and> at_specs T (an_task pn) = Some pspec
       \<and> ts_scope spec |\<subseteq>| ts_scope pspec \<and> caps |\<subseteq>| an_capabilities pn)
     \<and> (\<forall>a an. a = p \<or> ancestor T a p \<longrightarrow> at_nodes T a = Some an
          \<longrightarrow> an_task an \<notin> set (ts_dependencies spec))"

inductive tree_step :: "authority_tree \<Rightarrow> authority_tree \<Rightarrow> bool" where
  new_task: "(\<And>t'. t' \<in> dom (at_specs T) \<Longrightarrow> t' < t) \<Longrightarrow>
     set (ts_dependencies spec) \<subseteq> dom (at_specs T) \<Longrightarrow>
     tree_step T (T\<lparr>at_specs := (at_specs T)(t \<mapsto> spec)\<rparr>)"
| new_root: "at_root T = None \<Longrightarrow> (\<And>a'. a' \<in> dom (at_nodes T) \<Longrightarrow> a' < a) \<Longrightarrow>
     at_specs T (an_task n) = Some spec \<Longrightarrow> ts_dependencies spec = [] \<Longrightarrow> an_parent n = None \<Longrightarrow>
     tree_step T (T\<lparr>at_root := Some a, at_nodes := (at_nodes T)(a \<mapsto> n)\<rparr>)"
| new_delegate: "(\<And>a'. a' \<in> dom (at_nodes T) \<Longrightarrow> a' < a) \<Longrightarrow>
     at_specs T (an_task n) = Some spec \<Longrightarrow> an_parent n = Some p \<Longrightarrow>
     delegable T p spec (an_capabilities n) \<Longrightarrow>
     tree_step T (T\<lparr>at_nodes := (at_nodes T)(a \<mapsto> n)\<rparr>)"

text \<open>What every tree that grows this way satisfies.\<close>

definition tree_inv :: "authority_tree \<Rightarrow> bool" where
  "tree_inv T \<longleftrightarrow>
     (\<forall>t spec d. at_specs T t = Some spec \<longrightarrow> d \<in> set (ts_dependencies spec) \<longrightarrow>
        d < t \<and> d \<in> dom (at_specs T))
   \<and> (\<forall>a n. at_nodes T a = Some n \<longrightarrow> an_task n \<in> dom (at_specs T))
   \<and> (\<forall>a n. at_nodes T a = Some n \<longrightarrow> an_parent n = None \<longrightarrow> at_root T = Some a)
   \<and> (\<forall>a n p. at_nodes T a = Some n \<longrightarrow> an_parent n = Some p \<longrightarrow>
        p < a \<and> (\<exists>pn pspec spec. at_nodes T p = Some pn \<and> an_capabilities n |\<subseteq>| an_capabilities pn
          \<and> at_specs T (an_task pn) = Some pspec \<and> at_specs T (an_task n) = Some spec
          \<and> ts_scope spec |\<subseteq>| ts_scope pspec))
   \<and> (\<forall>a an b n spec. ancestor T a b \<longrightarrow> at_nodes T a = Some an \<longrightarrow> at_nodes T b = Some n \<longrightarrow>
        at_specs T (an_task n) = Some spec \<longrightarrow> an_task an \<notin> set (ts_dependencies spec))"

lemma tree_inv_dependency:
  assumes "tree_inv T" and "at_specs T t = Some spec" and "d \<in> set (ts_dependencies spec)"
  shows "d < t" and "d \<in> dom (at_specs T)"
  using assms unfolding tree_inv_def by blast+

lemma tree_inv_task: "tree_inv T \<Longrightarrow> at_nodes T a = Some n \<Longrightarrow> an_task n \<in> dom (at_specs T)"
  unfolding tree_inv_def by blast

lemma tree_inv_root: "tree_inv T \<Longrightarrow> at_nodes T a = Some n \<Longrightarrow> an_parent n = None \<Longrightarrow> at_root T = Some a"
  unfolding tree_inv_def by blast

lemma tree_inv_parent_less: "tree_inv T \<Longrightarrow> at_nodes T a = Some n \<Longrightarrow> an_parent n = Some p \<Longrightarrow> p < a"
  unfolding tree_inv_def by blast

lemma tree_inv_parent:
  assumes "tree_inv T" and "at_nodes T a = Some n" and "an_parent n = Some p"
  obtains pn pspec spec where "at_nodes T p = Some pn" and "an_capabilities n |\<subseteq>| an_capabilities pn"
    and "at_specs T (an_task pn) = Some pspec" and "at_specs T (an_task n) = Some spec"
    and "ts_scope spec |\<subseteq>| ts_scope pspec"
  using assms unfolding tree_inv_def by blast

lemma tree_inv_ancestor:
  "tree_inv T \<Longrightarrow> ancestor T a b \<Longrightarrow> at_nodes T a = Some an \<Longrightarrow> at_nodes T b = Some n \<Longrightarrow>
   at_specs T (an_task n) = Some spec \<Longrightarrow> an_task an \<notin> set (ts_dependencies spec)"
  unfolding tree_inv_def by blast

lemma ancestor_in_tree:
  assumes "tree_inv T" and "ancestor T a b"
  shows "a < b" and "a \<in> dom (at_nodes T)"
proof -
  from assms(2) have "a < b \<and> a \<in> dom (at_nodes T)"
  proof (induction rule: ancestor.induct)
    case (direct b n a)
    then show ?case
      using tree_inv_parent_less [OF assms(1)] by (blast elim: tree_inv_parent [OF assms(1)])
  next
    case (above b n p a)
    then show ?case using tree_inv_parent_less [OF assms(1) above(1,2)] by auto
  qed
  then show "a < b" and "a \<in> dom (at_nodes T)" by simp_all
qed

lemma ancestor_old:
  assumes "tree_inv T" and "\<And>a'. a' \<in> dom (at_nodes T) \<Longrightarrow> a' < x"
    and "at_nodes T' = (at_nodes T)(x \<mapsto> n)"
    and "ancestor T' a b" and "b \<noteq> x"
  shows "ancestor T a b"
  using assms(4,5)
proof (induction rule: ancestor.induct)
  case (direct b m a)
  then show ?case using assms(3) by (auto intro: ancestor.direct)
next
  case (above b m p a)
  have b: "at_nodes T b = Some m" using above assms(3) by auto
  have "p < b" using tree_inv_parent_less [OF assms(1) b above.hyps(2)] .
  moreover have "b < x" using b assms(2) by blast
  ultimately have "p \<noteq> x" by simp
  with above b show ?case by (auto intro: ancestor.above)
qed

lemma ancestor_new:
  assumes "tree_inv T" and "\<And>a'. a' \<in> dom (at_nodes T) \<Longrightarrow> a' < x"
    and "at_nodes T' = (at_nodes T)(x \<mapsto> n)" and "ancestor T' a x"
    and "\<And>p. an_parent n = Some p \<Longrightarrow> p \<in> dom (at_nodes T)"
  shows "\<exists>p. an_parent n = Some p \<and> (a = p \<or> ancestor T a p)"
proof -
  from assms(4) consider "an_parent n = Some a"
    | p where "an_parent n = Some p" "ancestor T' a p"
    using assms(3) by (auto simp: ancestor_iff [of T' a x])
  then show ?thesis
  proof cases
    case 2
    then have "p \<noteq> x" using assms(2,5) by blast
    then show ?thesis using 2 ancestor_old [OF assms(1,2,3)] by blast
  qed simp
qed

lemma ancestor_empty: "\<not> ancestor empty_tree a b"
  by (subst ancestor_iff) (simp add: empty_tree_def)

lemma tree_inv_empty: "tree_inv empty_tree"
  using ancestor_empty by (auto simp: tree_inv_def) (simp_all add: empty_tree_def)

lemma tree_inv_new_task:
  assumes "tree_inv T" and "\<And>t'. t' \<in> dom (at_specs T) \<Longrightarrow> t' < t"
    and "set (ts_dependencies spec) \<subseteq> dom (at_specs T)"
  shows "tree_inv (T\<lparr>at_specs := (at_specs T)(t \<mapsto> spec)\<rparr>)" (is "tree_inv ?T'")
proof -
  have anc: "ancestor ?T' a b \<Longrightarrow> ancestor T a b" for a b
    by (induction rule: ancestor.induct) (auto intro: ancestor.intros)
  have fresh: "at_specs T t = None" using assms(2) [of t] by auto
  have old: "an_task n \<noteq> t" if "at_nodes T a = Some n" for a n
    using tree_inv_task [OF assms(1) that] fresh by auto
  show ?thesis
    unfolding tree_inv_def
  proof (intro conjI allI impI)
    fix t' spec' d
    assume "at_specs ?T' t' = Some spec'" and "d \<in> set (ts_dependencies spec')"
    then show "d < t'" "d \<in> dom (at_specs ?T')"
      using assms(2,3) tree_inv_dependency [OF assms(1)] by (auto split: if_splits) blast+
  next
    fix a n assume "at_nodes ?T' a = Some n"
    then show "an_task n \<in> dom (at_specs ?T')" using tree_inv_task [OF assms(1), of a n] by simp
  next
    fix a n assume "at_nodes ?T' a = Some n" and "an_parent n = None"
    then show "at_root ?T' = Some a" using tree_inv_root [OF assms(1), of a n] by simp
  next
    fix a n p assume n: "at_nodes ?T' a = Some n" and p: "an_parent n = Some p"
    from n have n': "at_nodes T a = Some n" by simp
    show "p < a" using tree_inv_parent_less [OF assms(1) n' p] .
    from tree_inv_parent [OF assms(1) n' p] obtain pn pspec spec' where *: "at_nodes T p = Some pn"
      "an_capabilities n |\<subseteq>| an_capabilities pn" "at_specs T (an_task pn) = Some pspec"
      "at_specs T (an_task n) = Some spec'" "ts_scope spec' |\<subseteq>| ts_scope pspec" .
    then show "\<exists>pn pspec spec. at_nodes ?T' p = Some pn \<and> an_capabilities n |\<subseteq>| an_capabilities pn
          \<and> at_specs ?T' (an_task pn) = Some pspec \<and> at_specs ?T' (an_task n) = Some spec
          \<and> ts_scope spec |\<subseteq>| ts_scope pspec"
      using old [OF n'] old [OF *(1)] by auto
  next
    fix a an b n spec'
    assume "ancestor ?T' a b" and "at_nodes ?T' a = Some an" and "at_nodes ?T' b = Some n"
      and "at_specs ?T' (an_task n) = Some spec'"
    then show "an_task an \<notin> set (ts_dependencies spec')"
      using anc [of a b] old [of b n] tree_inv_ancestor [OF assms(1), of a b an n spec'] by simp
  qed
qed

lemma tree_inv_new_node:
  assumes inv: "tree_inv T" and fresh: "\<And>a'. a' \<in> dom (at_nodes T) \<Longrightarrow> a' < a"
    and spec: "at_specs T (an_task n) = Some spec"
    and r: "an_parent n = None \<Longrightarrow> at_root T = None \<and> r = Some a"
    and r': "an_parent n \<noteq> None \<Longrightarrow> r = at_root T"
    and parent: "\<And>p. an_parent n = Some p \<Longrightarrow> delegable T p spec (an_capabilities n)"
  shows "tree_inv (T\<lparr>at_root := r, at_nodes := (at_nodes T)(a \<mapsto> n)\<rparr>)" (is "tree_inv ?T'")
proof -
  have nodes: "at_nodes ?T' = (at_nodes T)(a \<mapsto> n)" by simp
  have specs: "at_specs ?T' = at_specs T" by simp
  have new: "at_nodes T a = None" using fresh [of a] by auto
  have pdom: "p \<in> dom (at_nodes T)" if "an_parent n = Some p" for p
    using parent [OF that] by (auto simp: delegable_def)
  have child: "p < b \<and> (\<exists>pn pspec spec. at_nodes T p = Some pn \<and> an_capabilities m |\<subseteq>| an_capabilities pn
      \<and> at_specs T (an_task pn) = Some pspec \<and> at_specs T (an_task m) = Some spec
      \<and> ts_scope spec |\<subseteq>| ts_scope pspec)" if "at_nodes ?T' b = Some m" "an_parent m = Some p" for b m p
  proof (cases "b = a")
    case True
    with that have "m = n" by simp
    with that(2) have p: "an_parent n = Some p" by simp
    from parent [OF p] fresh [OF pdom [OF p]] spec \<open>m = n\<close> True show ?thesis
      unfolding delegable_def by blast
  next
    case False
    with that have m: "at_nodes T b = Some m" by simp
    show ?thesis
      using tree_inv_parent_less [OF inv m that(2)] tree_inv_parent [OF inv m that(2)] by blast
  qed
  show ?thesis
    unfolding tree_inv_def specs
  proof (intro conjI allI impI)
    fix t' spec' d
    assume "at_specs T t' = Some spec'" and "d \<in> set (ts_dependencies spec')"
    then show "d < t'" "d \<in> dom (at_specs T)" using tree_inv_dependency [OF inv] by blast+
  next
    fix b m assume "at_nodes ?T' b = Some m"
    then show "an_task m \<in> dom (at_specs T)"
      using tree_inv_task [OF inv, of b m] spec by (auto split: if_splits)
  next
    fix b m assume "at_nodes ?T' b = Some m" and "an_parent m = None"
    then show "at_root ?T' = Some b"
      using tree_inv_root [OF inv, of b m] r r' by (cases "an_parent n") (auto split: if_splits)
  next
    fix b m p assume m: "at_nodes ?T' b = Some m" and p: "an_parent m = Some p"
    from child [OF m p] show "p < b" by simp
    from child [OF m p] obtain pn pspec spec' where *: "at_nodes T p = Some pn"
      "an_capabilities m |\<subseteq>| an_capabilities pn" "at_specs T (an_task pn) = Some pspec"
      "at_specs T (an_task m) = Some spec'" "ts_scope spec' |\<subseteq>| ts_scope pspec" by blast
    moreover have "p \<noteq> a" using * new by auto
    ultimately show "\<exists>pn pspec spec. at_nodes ?T' p = Some pn \<and> an_capabilities m |\<subseteq>| an_capabilities pn
          \<and> at_specs T (an_task pn) = Some pspec \<and> at_specs T (an_task m) = Some spec
          \<and> ts_scope spec |\<subseteq>| ts_scope pspec" by auto
  next
    fix c cn b m spec'
    assume anc: "ancestor ?T' c b" and c: "at_nodes ?T' c = Some cn" and b: "at_nodes ?T' b = Some m"
      and s: "at_specs T (an_task m) = Some spec'"
    show "an_task cn \<notin> set (ts_dependencies spec')"
    proof (cases "b = a")
      case False
      then have "ancestor T c b" using ancestor_old [OF inv fresh nodes anc] by blast
      moreover from this have "c \<noteq> a" using ancestor_in_tree(2) [OF inv, of c b] new by auto
      ultimately show ?thesis using False b c s tree_inv_ancestor [OF inv, of c b cn m spec'] by simp
    next
      case True
      then have m: "m = n" using b by simp
      obtain p where p: "an_parent n = Some p" "c = p \<or> ancestor T c p"
        using ancestor_new [OF inv fresh nodes] anc True pdom by blast
      then have "c \<noteq> a" using pdom ancestor_in_tree(2) [OF inv, of c p] new by auto
      with c have "at_nodes T c = Some cn" by simp
      with p(2) parent [OF p(1)] s m spec show ?thesis unfolding delegable_def by auto
    qed
  qed
qed

lemma tree_step_inv: "tree_step T T' \<Longrightarrow> tree_inv T \<Longrightarrow> tree_inv T'"
proof (induction rule: tree_step.induct)
  case (new_task T t spec)
  then show ?case by (intro tree_inv_new_task) auto
next
  case (new_root T a n spec)
  then show ?case using tree_inv_new_node [of T a n spec "Some a"] by simp
next
  case (new_delegate T a n spec p)
  then show ?case using tree_inv_new_node [of T a n spec "at_root T"] by simp
qed

text \<open>Attenuation along the whole chain of delegation.\<close>

lemma ancestor_attenuates:
  assumes "tree_inv T" and "ancestor T a b" and "at_nodes T a = Some an" and "at_nodes T b = Some bn"
  shows "an_capabilities bn |\<subseteq>| an_capabilities an"
  using assms(2,3,4)
proof (induction arbitrary: bn rule: ancestor.induct)
  case (direct b n a')
  then have n: "bn = n" by simp
  from tree_inv_parent [OF assms(1) direct.hyps] obtain pn where
    "at_nodes T a' = Some pn" "an_capabilities n |\<subseteq>| an_capabilities pn" by blast
  with direct.prems(1) n show ?case by simp
next
  case (above b n p a')
  then have n: "bn = n" by simp
  from tree_inv_parent [OF assms(1) above.hyps(1,2)] obtain pn where
    pn: "at_nodes T p = Some pn" "an_capabilities n |\<subseteq>| an_capabilities pn" by blast
  with above.IH [OF above.prems(1) pn(1)] n show ?case by blast
qed

end
