(* ===== verification/Team_Fold.thy ===== *)
theory Team_Fold
  imports Team_Tree
begin

text \<open>
  What one event does to a Team state.  Events that create a Task or an Agent extend the
  authority tree by a \<open>tree_step\<close>; every other event is \<open>quiet\<close>: it rewrites one record without
  touching its identity, specification or authority.  From this follow the preservation of the
  invariant \<open>team_wf\<close> and that the fold never runs out of fuel.
\<close>

definition node_of :: "agent_record \<Rightarrow> authority_node" where
  "node_of r = \<lparr>an_parent = ar_parent r, an_task = ar_task r, an_budget = ar_budget r,
     an_capabilities = ar_capabilities r, an_preset = ar_preset r\<rparr>"

definition tree_of :: "team_state \<Rightarrow> authority_tree" where
  "tree_of st = \<lparr>at_root = root st,
     at_specs = (\<lambda>t. map_option tr_spec (bt_get (tasks st) t)),
     at_nodes = (\<lambda>a. map_option node_of (bt_get (agents st) a))\<rparr>"

text \<open>The maps are proper maps and every record sits under its own identifier.\<close>

definition maps_ok :: "team_state \<Rightarrow> bool" where
  "maps_ok st \<longleftrightarrow>
     bt_ok (tasks st) \<and> bt_ok (agents st) \<and> bt_ok (operations st)
   \<and> (\<forall>t r. bt_get (tasks st) t = Some r \<longrightarrow> tr_id r = t)
   \<and> (\<forall>a r. bt_get (agents st) a = Some r \<longrightarrow> ar_id r = a)"

definition team_wf :: "team_state \<Rightarrow> bool" where
  "team_wf st \<longleftrightarrow> maps_ok st \<and> tree_inv (tree_of st)"

lemma maps_okD:
  assumes "maps_ok st"
  shows "bt_ok (tasks st)" "bt_ok (agents st)" "bt_ok (operations st)"
    "bt_get (tasks st) t = Some r \<Longrightarrow> tr_id r = t"
    "bt_get (agents st) a = Some q \<Longrightarrow> ar_id q = a"
  using assms by (auto simp: maps_ok_def)

lemma tree_of_simps [simp]:
  "at_root (tree_of st) = root st"
  "at_specs (tree_of st) t = map_option tr_spec (bt_get (tasks st) t)"
  "at_nodes (tree_of st) a = map_option node_of (bt_get (agents st) a)"
  by (simp_all add: tree_of_def)

lemma node_of_simps [simp]:
  "an_parent (node_of r) = ar_parent r" "an_task (node_of r) = ar_task r"
  "an_budget (node_of r) = ar_budget r" "an_capabilities (node_of r) = ar_capabilities r"
  "an_preset (node_of r) = ar_preset r"
  by (simp_all add: node_of_def)

lemma get_task_Ok [result_ok]: "get_task st t = Ok r \<longleftrightarrow> bt_get (tasks st) t = Some r"
  by (simp add: get_task_def result_ok)

lemma get_agent_Ok [result_ok]: "get_agent st a = Ok r \<longleftrightarrow> bt_get (agents st) a = Some r"
  by (simp add: get_agent_def result_ok)

lemma get_returns [simp]: "get_task st t \<noteq> Diverges" "get_agent st a \<noteq> Diverges"
  by (simp_all add: get_task_def get_agent_def)

section \<open>Quiet events\<close>

inductive quiet :: "team_state \<Rightarrow> team_state \<Rightarrow> bool" where
  quiet_task: "bt_get (tasks st) t = Some r \<Longrightarrow> tr_id r' = tr_id r \<Longrightarrow> tr_spec r' = tr_spec r \<Longrightarrow>
     quiet st (put_task st t r')"
| quiet_agent: "bt_get (agents st) a = Some r \<Longrightarrow> ar_id r' = ar_id r \<Longrightarrow> node_of r' = node_of r \<Longrightarrow>
     quiet st (put_agent st a r')"
| quiet_messages: "quiet st (st\<lparr>messages := ms\<rparr>)"
| quiet_operations: "quiet st (st\<lparr>operations := bt_insert op q (operations st)\<rparr>)"

lemma quiet_keeps:
  assumes "quiet st st'" and "maps_ok st"
  shows "maps_ok st'" and "tree_of st' = tree_of st"
proof -
  from assms have "maps_ok st' \<and> tree_of st' = tree_of st"
  proof (induction rule: quiet.induct)
    case (quiet_task st t r r')
    then show ?case
      by (auto simp: maps_ok_def put_task_def bt_ok_insert bt_get_insert tree_of_def fun_eq_iff)
  next
    case (quiet_agent st a r r')
    then show ?case
      by (auto simp: maps_ok_def put_agent_def bt_ok_insert bt_get_insert tree_of_def fun_eq_iff)
  qed (simp_all add: maps_ok_def tree_of_def bt_ok_insert)
  then show "maps_ok st'" and "tree_of st' = tree_of st" by simp_all
qed

fun creates :: "team_event_kind \<Rightarrow> bool" where
  "creates (TaskCreated _ _) = True"
| "creates (AgentCreated _ _ _ _ _ _) = True"
| "creates _ = False"

lemmas quiet_apply_defs =
  apply_task_owner_assigned_def apply_delegation_granted_def apply_task_ready_def
  apply_agent_activated_def apply_task_started_def apply_message_sent_def
  apply_completion_capsule_def apply_task_succeeded_def apply_agent_succeeded_def
  apply_task_failed_def apply_agent_failed_def apply_task_cancelled_def apply_agent_cancelled_def
  apply_task_blocked_def apply_agent_blocked_def apply_task_retry_requested_def
  apply_agent_retry_requested_def apply_operation_committed_def apply_operation_acknowledged_def

lemma apply_event_quiet:
  assumes "apply_event st e n = Ok st'" and "\<not> creates e"
  shows "quiet st st'"
  using assms
  by (cases e)
     (auto simp: quiet_apply_defs result_ok node_of_def intro: quiet.intros)

section \<open>Creating events\<close>

lemma new_key_above:
  assumes "next_identifier (map id_get (bt_keys m)) = Ok e" and "k \<in> dom (bt_get m)" and "id_get k' = e"
  shows "k < k'"
proof -
  have "k \<in> set (bt_keys m)"
    using assms(2) bt_contains_key_iff [of m k] by (auto simp: bt_contains_key_def)
  then have "id_get k < e" using assms(1) by (auto intro: next_identifier_above)
  with assms(3) show ?thesis by (simp add: less_ident_def)
qed

lemma ancestor_loop_None:
  assumes "ancestor_loop fuel st (Some p) deps = Ok None"
    and "a = p \<or> ancestor (tree_of st) a p" and "bt_get (agents st) a = Some r"
  shows "ar_task r \<notin> set deps"
  using assms(1,2)
proof (induction fuel arbitrary: p)
  case (Suc fuel)
  then obtain q where q: "bt_get (agents st) p = Some q" "ar_task q \<notin> set deps"
    "ancestor_loop fuel st (ar_parent q) deps = Ok None"
    by (auto simp: result_ok split: if_splits)
  show ?case
  proof (cases "a = p")
    case True
    with q assms(3) show ?thesis by simp
  next
    case False
    with Suc.prems(2) q(1) obtain p' where p': "ar_parent q = Some p'"
      "a = p' \<or> ancestor (tree_of st) a p'"
      using ancestor_iff [of "tree_of st" a p] by auto
    with q(3) Suc.IH show ?thesis by simp
  qed
qed simp

lemma apply_task_created_step:
  assumes "apply_task_created st t spec = Ok st'" and "maps_ok st"
  shows "maps_ok st'" and "tree_step (tree_of st) (tree_of st')"
proof -
  let ?r = "\<lparr>tr_id = t, tr_spec = spec, tr_owner = None, tr_status = TPending, tr_completion = None\<rparr>"
  from assms(1) have st': "st' = put_task st t ?r"
    and next_id: "next_identifier (map id_get (bt_keys (tasks st))) = Ok (id_get t)"
    and deps: "\<forall>d \<in> set (ts_dependencies spec). bt_contains_key (tasks st) d"
    by (auto simp: apply_task_created_def result_ok)
  show "maps_ok st'"
    using assms(2) unfolding st'
    by (auto simp: maps_ok_def put_task_def bt_ok_insert bt_get_insert)
  have "tree_of st' = (tree_of st)\<lparr>at_specs := (at_specs (tree_of st))(t \<mapsto> spec)\<rparr>"
    unfolding st' by (auto simp: tree_of_def put_task_def bt_get_insert fun_eq_iff)
  moreover have "tree_step (tree_of st) ((tree_of st)\<lparr>at_specs := (at_specs (tree_of st))(t \<mapsto> spec)\<rparr>)"
  proof (rule tree_step.new_task)
    fix t' assume "t' \<in> dom (at_specs (tree_of st))"
    then have "t' \<in> dom (bt_get (tasks st))" by auto
    then show "t' < t" using new_key_above [OF next_id] by blast
  next
    show "set (ts_dependencies spec) \<subseteq> dom (at_specs (tree_of st))"
      using deps by (auto simp: bt_contains_key_def)
  qed
  ultimately show "tree_step (tree_of st) (tree_of st')" by simp
qed

lemma check_agent_parent_cases:
  assumes "check_agent_parent st a task_rec parent caps = Ok st1"
  obtains p pr pt where "parent = Some p" "st1 = st" "bt_get (agents st) p = Some pr"
      "ar_status pr = Active" "bt_get (tasks st) (ar_task pr) = Some pt"
      "ts_scope (tr_spec task_rec) |\<subseteq>| ts_scope (tr_spec pt)" "caps |\<subseteq>| ar_capabilities pr"
      "ancestor_dependency st p (ts_dependencies (tr_spec task_rec)) = Ok None"
  | "parent = None" "st1 = st\<lparr>root := Some a\<rparr>" "root st = None" "ts_dependencies (tr_spec task_rec) = []"
  using assms
  by (cases parent)
     (auto simp: check_agent_parent_def result_ok scope_subset_def cap_subset_def
       split: if_splits option.splits)

lemma apply_agent_created_step:
  assumes "apply_agent_created st a t parent budget caps preset = Ok st'" and "maps_ok st"
  shows "maps_ok st'" and "tree_step (tree_of st) (tree_of st')"
proof -
  let ?r = "\<lparr>ar_id = a, ar_parent = parent, ar_task = t, ar_status = Dormant, ar_budget = budget,
        ar_reserved_budget = budget_default, ar_capabilities = caps, ar_preset = preset\<rparr>"
  from assms(1) obtain tr st1 where st': "st' = put_agent st1 a ?r"
    and next_id: "next_identifier (map id_get (bt_keys (agents st))) = Ok (id_get a)"
    and tr: "bt_get (tasks st) t = Some tr"
    and check: "check_agent_parent st a tr parent caps = Ok st1"
    by (auto simp: apply_agent_created_def result_ok)
  have above: "\<And>a'. a' \<in> dom (at_nodes (tree_of st)) \<Longrightarrow> a' < a"
    using new_key_above [OF next_id] by (auto simp: dom_def)
  from check show "maps_ok st'"
    using assms(2) unfolding st'
    by (cases rule: check_agent_parent_cases)
       (auto simp: maps_ok_def put_agent_def bt_ok_insert bt_get_insert)
  from check show "tree_step (tree_of st) (tree_of st')"
  proof (cases rule: check_agent_parent_cases)
    case (1 p pr pt)
    have "delegable (tree_of st) p (tr_spec tr) caps"
      unfolding delegable_def
    proof (intro conjI allI impI)
      show "\<exists>pn pspec. at_nodes (tree_of st) p = Some pn \<and> at_specs (tree_of st) (an_task pn) = Some pspec
          \<and> ts_scope (tr_spec tr) |\<subseteq>| ts_scope pspec \<and> caps |\<subseteq>| an_capabilities pn"
        using 1 by auto
    next
      fix b bn assume "b = p \<or> ancestor (tree_of st) b p" and "at_nodes (tree_of st) b = Some bn"
      then show "an_task bn \<notin> set (ts_dependencies (tr_spec tr))"
        using ancestor_loop_None [OF 1(8) [unfolded ancestor_dependency_def], of b] by auto
    qed
    then have "tree_step (tree_of st) ((tree_of st)\<lparr>at_nodes := (at_nodes (tree_of st))(a \<mapsto> node_of ?r)\<rparr>)"
      using 1(1) tr by (intro tree_step.new_delegate [OF above]) auto
    moreover have "tree_of st' = (tree_of st)\<lparr>at_nodes := (at_nodes (tree_of st))(a \<mapsto> node_of ?r)\<rparr>"
      unfolding st' 1(2) by (auto simp: tree_of_def put_agent_def bt_get_insert fun_eq_iff)
    ultimately show ?thesis by simp
  next
    case 2
    have "tree_step (tree_of st)
        ((tree_of st)\<lparr>at_root := Some a, at_nodes := (at_nodes (tree_of st))(a \<mapsto> node_of ?r)\<rparr>)"
      using 2 tr by (intro tree_step.new_root [OF _ above]) auto
    moreover have "tree_of st' =
        (tree_of st)\<lparr>at_root := Some a, at_nodes := (at_nodes (tree_of st))(a \<mapsto> node_of ?r)\<rparr>"
      unfolding st' 2(2) by (auto simp: tree_of_def put_agent_def bt_get_insert fun_eq_iff)
    ultimately show ?thesis by simp
  qed
qed

section \<open>The fold keeps the invariant\<close>

lemma apply_event_tree:
  assumes "apply_event st e n = Ok st'" and "maps_ok st"
  shows "maps_ok st' \<and> (if creates e then tree_step (tree_of st) (tree_of st') else tree_of st' = tree_of st)"
proof (cases "creates e")
  case True
  with assms show ?thesis
    using apply_task_created_step apply_agent_created_step by (cases e) auto
next
  case False
  then have "quiet st st'" using apply_event_quiet [OF assms(1)] by simp
  with False show ?thesis using quiet_keeps [of st st'] assms(2) by simp
qed

lemma apply_event_wf:
  assumes "apply_event st e n = Ok st'" and "team_wf st"
  shows "team_wf st'"
  using apply_event_tree [OF assms(1)] assms(2)
  by (auto simp: team_wf_def split: if_splits intro: tree_step_inv)

lemma team_wf_default: "team_wf team_state_default"
  using tree_inv_empty
  by (simp add: team_wf_def maps_ok_def team_state_default_def tree_of_def empty_tree_def)

section \<open>The fold returns\<close>

lemma ancestor_loop_returns:
  assumes "team_wf st" and "card {k \<in> set (bt_keys (agents st)). k \<le> a} < fuel"
  shows "ancestor_loop fuel st (Some a) deps \<noteq> Diverges"
  using assms(2)
proof (induction fuel arbitrary: a)
  case (Suc fuel)
  show ?case
  proof (cases "bt_get (agents st) a")
    case None
    then show ?thesis by (simp add: get_agent_def)
  next
    case (Some r)
    let ?below = "\<lambda>x. {k \<in> set (bt_keys (agents st)). k \<le> x}"
    have a_in: "a \<in> ?below a"
      using Some bt_contains_key_iff [of "agents st" a] by (simp add: bt_contains_key_def)
    have "ancestor_loop fuel st (ar_parent r) deps \<noteq> Diverges"
    proof (cases "ar_parent r")
      case None
      have "card (?below a) \<noteq> 0" using a_in by (simp only: card_eq_0_iff) auto
      with Suc.prems have "fuel \<noteq> 0" by linarith
      then show ?thesis using None by (cases fuel) simp_all
    next
      case parent: (Some p)
      have "p < a"
        using assms(1) Some parent tree_inv_parent_less [of "tree_of st" a "node_of r" p]
        by (simp add: team_wf_def)
      then have "?below p \<subseteq> ?below a" and "a \<notin> ?below p" by auto
      then have "?below p \<subset> ?below a" using a_in by blast
      then have "card (?below p) < card (?below a)" by (intro psubset_card_mono) auto
      with Suc parent show ?thesis by simp
    qed
    with Some show ?thesis by (simp add: get_agent_def)
  qed
qed simp

lemma ancestor_dependency_returns:
  assumes "team_wf st"
  shows "ancestor_dependency st p deps \<noteq> Diverges"
proof -
  have "card {k \<in> set (bt_keys (agents st)). k \<le> p} \<le> card (set (bt_keys (agents st)))"
    by (intro card_mono) auto
  also have "\<dots> \<le> length (agents st)"
    using card_length [of "bt_keys (agents st)"] by (simp add: bt_keys_def)
  finally show ?thesis
    unfolding ancestor_dependency_def by (intro ancestor_loop_returns assms) simp
qed

lemma dependencies_succeeded_returns [simp]: "dependencies_succeeded st t \<noteq> Diverges"
proof -
  have "try_fold (\<lambda>all d. map_ok (\<lambda>d'. all \<and> tr_status d' = TSucceeded) (get_task st d)) b ds \<noteq> Diverges" for b ds
    by (induction ds arbitrary: b) (auto simp: andthen_eq_Diverges)
  then show ?thesis by (simp add: dependencies_succeeded_def andthen_eq_Diverges)
qed

lemma first_failed_in_returns [simp]: "first_failed_in st ds \<noteq> Diverges"
  by (induction ds) (auto simp: andthen_eq_Diverges)

lemma first_failed_dependency_returns [simp]: "first_failed_dependency st t \<noteq> Diverges"
  by (simp add: first_failed_dependency_def andthen_eq_Diverges)

lemma try_each_ensure_returns [simp]: "try_each (\<lambda>d. ensure (P d) (f d)) ds \<noteq> Diverges"
  by (rule try_each_not_Diverges) simp

lemma check_agent_parent_returns:
  assumes "team_wf st"
  shows "check_agent_parent st a r parent caps \<noteq> Diverges"
  using ancestor_dependency_returns [OF assms]
  by (auto simp: check_agent_parent_def andthen_eq_Diverges split: option.splits)

lemma apply_event_returns:
  assumes "team_wf st"
  shows "apply_event st e n \<noteq> Diverges"
  using check_agent_parent_returns [OF assms]
  by (cases e)
     (auto simp: quiet_apply_defs apply_task_created_def apply_agent_created_def
       andthen_eq_Diverges if_Err_eq_Diverges split: message_recipient.splits)

end
