(* ===== verification/Team_Runtime.thy ===== *)
theory Team_Runtime
  imports Team_State
begin

text \<open>
  The Agent Team runtime (\<open>TeamRuntime\<close> of \<open>greentyper-core/src/agent_team.rs\<close>): sessions,
  planning of each command, preparation and publication of its event transaction, and recovery
  of a runtime from an event log.

  The atomic counter \<open>NEXT_RUNTIME_AUTHORITY\<close> is a \<open>u64\<close> that \<open>team_runtime_new\<close> takes and
  returns advanced.  A command that fails leaves the runtime as it was: the code's \<open>dispatch\<close>
  returns before \<open>publish\<close>, the model returns no runtime.
\<close>

section \<open>Runtime state\<close>

record team_runtime =
  rt_max_active :: usize
  rt_authority :: u64
  rt_state :: team_state
  rt_event_log :: "team_event list"
  rt_next_task :: u64
  rt_next_agent :: u64
  rt_next_message :: u64
  rt_next_transaction :: u64

datatype command_outcome =
    RootAdmitted task_id agent_id agent_session
  | Delegated task_id agent_id agent_session
  | MessageAccepted message_id
  | StateChanged task_id agent_id

record team_durability_receipt =
  tdr_transaction :: transaction_id
  tdr_first_sequence :: event_seq
  tdr_last_sequence :: event_seq
  tdr_event_count :: u32
  tdr_transaction_crc32c :: u32

datatype commit_durability = Volatile | Synchronous team_durability_receipt

record team_commit =
  tc_transaction :: transaction_id
  tc_revision :: event_seq
  tc_durability :: commit_durability
  tc_events :: "team_event list"
  tc_outcome :: command_outcome

record prepared_events =
  pe_candidate :: team_state
  pe_transaction :: transaction_id
  pe_revision :: event_seq
  pe_events :: "team_event list"
  pe_next_transaction :: u64
  pe_next_task :: u64
  pe_next_agent :: u64
  pe_next_message :: u64

definition team_runtime_new :: "usize \<Rightarrow> u64 \<Rightarrow> (team_runtime \<times> u64) team_result" where
  "team_runtime_new max_active authority_counter =
     (if max_active = 0 then Err InvalidActiveAgentLimit
      else andthen (ok_or (checked_add authority_counter 1) IdentifierExhausted) (\<lambda>counter'.
        Ok (\<lparr>rt_max_active = max_active, rt_authority = authority_counter,
             rt_state = team_state_default, rt_event_log = [],
             rt_next_task = 1, rt_next_agent = 1, rt_next_message = 1, rt_next_transaction = 1\<rparr>,
            counter')))"

section \<open>Sessions\<close>

definition session :: "team_runtime \<Rightarrow> agent_id \<Rightarrow> agent_session" where
  "session rt a = \<lparr>as_agent = a, as_authority = rt_authority rt\<rparr>"

definition authenticate :: "team_runtime \<Rightarrow> agent_session \<Rightarrow> agent_id team_result" where
  "authenticate rt s =
     (if as_authority s \<noteq> rt_authority rt then Err (InvalidAgentSession (as_agent s))
      else if \<not> bt_contains_key (agents (rt_state rt)) (as_agent s) then Err (UnknownAgent (as_agent s))
      else Ok (as_agent s))"

definition require_active :: "team_runtime \<Rightarrow> agent_id \<Rightarrow> agent_record team_result" where
  "require_active rt a =
     andthen (get_agent (rt_state rt) a) (\<lambda>r.
     if ar_status r \<noteq> Active then Err (AgentNotActive a) else Ok r)"

definition require_no_outstanding_children :: "team_runtime \<Rightarrow> agent_id \<Rightarrow> unit team_result" where
  "require_no_outstanding_children rt p =
     (if outstanding_children (rt_state rt) p then Err (OutstandingChildren p) else Ok ())"

record agent_execution_context =
  ec_agent :: agent_id
  ec_capabilities :: capability_snapshot

definition trusted_active_agent_context ::
  "team_runtime \<Rightarrow> agent_session \<Rightarrow> agent_execution_context team_result" where
  "trusted_active_agent_context rt s =
     andthen (authenticate rt s) (\<lambda>a.
     andthen (require_active rt a) (\<lambda>_.
     andthen (get_agent (rt_state rt) a) (\<lambda>r.
     Ok \<lparr>ec_agent = a, ec_capabilities = ar_capabilities r\<rparr>)))"

definition trusted_rebind_nonterminal_sessions :: "team_runtime \<Rightarrow> agent_session list" where
  "trusted_rebind_nonterminal_sessions rt =
     map (\<lambda>r. session rt (ar_id r))
       (filter (\<lambda>r. \<not> agent_terminal (ar_status r)) (bt_values (agents (rt_state rt))))"

section \<open>Planning\<close>

fun first_duplicate :: "task_id list \<Rightarrow> task_id option" where
  "first_duplicate (a # b # ds) = (if a = b then Some a else first_duplicate (b # ds))"
| "first_duplicate _ = None"

definition validate_task_spec :: "team_runtime \<Rightarrow> task_spec \<Rightarrow> task_spec team_result" where
  "validate_task_spec rt task =
     (let title = trim (ts_title task) in
      if title = [] then Err InvalidTaskTitle
      else if length title > MAX_TASK_TITLE_BYTES then Err TaskTitleTooLarge
      else andthen (validate_scope (ts_scope task)) (\<lambda>_.
        if length (ts_dependencies task) > MAX_TASK_DEPENDENCIES then Err TooManyDependencies
        else (let deps = sort (ts_dependencies task) in
          case first_duplicate deps of Some d \<Rightarrow> Err (DuplicateDependency d) | None \<Rightarrow>
          andthen (try_each (\<lambda>d. ensure (bt_contains_key (tasks (rt_state rt)) d) (UnknownTask d)) deps)
            (\<lambda>_. Ok (task\<lparr>ts_title := title, ts_dependencies := deps\<rparr>)))))"

definition plan_root ::
  "team_runtime \<Rightarrow> task_spec \<Rightarrow> resource_budget \<Rightarrow> capability_snapshot
     \<Rightarrow> (team_event_kind list \<times> command_outcome) team_result" where
  "plan_root rt task budget caps =
     (if root (rt_state rt) \<noteq> None then Err RootAlreadyAdmitted
      else andthen (validate_task_spec rt task) (\<lambda>task.
        if ts_dependencies task \<noteq> [] then Err RootDependenciesNotAllowed
        else andthen (validate_budget budget) (\<lambda>_.
        andthen (validate_capabilities caps) (\<lambda>_.
        andthen (fresh_identifier (rt_next_task rt)) (\<lambda>t.
        andthen (fresh_identifier (rt_next_agent rt)) (\<lambda>a.
        Ok ([TaskCreated (Ident t) task,
             AgentCreated (Ident a) (Ident t) None budget caps None,
             TaskOwnerAssigned (Ident t) (Ident a)],
            RootAdmitted (Ident t) (Ident a) (session rt (Ident a)))))))))"

definition plan_delegation ::
  "team_runtime \<Rightarrow> agent_id \<Rightarrow> task_spec \<Rightarrow> resource_budget \<Rightarrow> capability_snapshot
     \<Rightarrow> inherited_model_preset option \<Rightarrow> (team_event_kind list \<times> command_outcome) team_result" where
  "plan_delegation rt parent task budget caps preset =
     andthen (get_agent (rt_state rt) parent) (\<lambda>parent_agent.
     if ar_status parent_agent \<noteq> Active then Err (AgentNotActive parent)
     else
     andthen (get_task (rt_state rt) (ar_task parent_agent)) (\<lambda>parent_task.
     andthen (validate_task_spec rt task) (\<lambda>task.
     andthen (ancestor_dependency (rt_state rt) parent (ts_dependencies task)) (\<lambda>dep.
     case dep of Some d \<Rightarrow> Err (DependencyCycle d) | None \<Rightarrow>
     if \<not> scope_subset (ts_scope task) (ts_scope (tr_spec parent_task)) then Err (ScopeExpansion parent)
     else
     andthen (validate_capabilities caps) (\<lambda>_.
     andthen (validate_preset_option preset) (\<lambda>_.
     if \<not> cap_subset caps (ar_capabilities parent_agent) then Err (CapabilityExpansion parent)
     else
     andthen (validate_budget budget) (\<lambda>_.
     andthen (ok_or (budget_remaining_after (ar_budget parent_agent) (ar_reserved_budget parent_agent))
               (InvariantViolation ''Agent {} reserved budget exceeds its budget'')) (\<lambda>remaining.
     if \<not> budget_contains remaining budget then Err (BudgetExpansion parent)
     else
     andthen (fresh_identifier (rt_next_task rt)) (\<lambda>t.
     andthen (fresh_identifier (rt_next_agent rt)) (\<lambda>a.
     Ok ([TaskCreated (Ident t) task,
          AgentCreated (Ident a) (Ident t) (Some parent) budget caps preset,
          TaskOwnerAssigned (Ident t) (Ident a),
          DelegationGranted parent (Ident a)],
         Delegated (Ident t) (Ident a) (session rt (Ident a)))))))))))))"

definition plan_message ::
  "team_runtime \<Rightarrow> agent_id \<Rightarrow> message_recipient \<Rightarrow> string
     \<Rightarrow> (team_event_kind list \<times> command_outcome) team_result" where
  "plan_message rt sender recipient body =
     andthen (require_active rt sender) (\<lambda>_.
     if trim body = [] then Err InvalidMessage
     else if length body > MAX_MESSAGE_BYTES then Err MessageTooLarge
     else
     andthen (case recipient of
         ToAgent a \<Rightarrow>
           andthen (get_agent (rt_state rt) a) (\<lambda>target.
           if agent_terminal (ar_status target)
           then Err (InvalidTransition a (ar_status target) ''receive a message'')
           else Ok ())
       | ToTeam \<Rightarrow> Ok ()) (\<lambda>_.
     andthen (fresh_identifier (rt_next_message rt)) (\<lambda>m.
     Ok ([MessageSent (Ident m) sender recipient body], MessageAccepted (Ident m)))))"

definition plan_completion ::
  "team_runtime \<Rightarrow> agent_id \<Rightarrow> completion_capsule \<Rightarrow> (team_event_kind list \<times> command_outcome) team_result" where
  "plan_completion rt a capsule =
     andthen (require_active rt a) (\<lambda>r.
     andthen (require_no_outstanding_children rt a) (\<lambda>_.
     andthen (validate_capsule capsule) (\<lambda>_.
     Ok ([CompletionCapsuleSubmitted (ar_task r) a capsule, TaskSucceeded (ar_task r), AgentSucceeded a],
         StateChanged (ar_task r) a))))"

definition plan_failure ::
  "team_runtime \<Rightarrow> agent_id \<Rightarrow> string \<Rightarrow> (team_event_kind list \<times> command_outcome) team_result" where
  "plan_failure rt a reason =
     andthen (require_active rt a) (\<lambda>r.
     andthen (require_no_outstanding_children rt a) (\<lambda>_.
     andthen (validate_reason reason) (\<lambda>_.
     Ok ([TaskFailed (ar_task r) reason, AgentFailed a], StateChanged (ar_task r) a))))"

definition plan_cancellation ::
  "team_runtime \<Rightarrow> agent_id \<Rightarrow> string \<Rightarrow> (team_event_kind list \<times> command_outcome) team_result" where
  "plan_cancellation rt a reason =
     andthen (get_agent (rt_state rt) a) (\<lambda>r.
     if agent_terminal (ar_status r) then Err (InvalidTransition a (ar_status r) ''cancel'')
     else
     andthen (require_no_outstanding_children rt a) (\<lambda>_.
     andthen (validate_reason reason) (\<lambda>_.
     Ok ([TaskCancelled (ar_task r) reason, AgentCancelled a], StateChanged (ar_task r) a))))"

definition plan_retry ::
  "team_runtime \<Rightarrow> agent_id \<Rightarrow> agent_id \<Rightarrow> (team_event_kind list \<times> command_outcome) team_result" where
  "plan_retry rt requester a =
     andthen (require_active rt requester) (\<lambda>_.
     andthen (get_agent (rt_state rt) a) (\<lambda>target.
     if ar_parent target \<noteq> Some requester
     then Err (InvalidTransition a (ar_status target) ''retry from this parent'')
     else if \<not> retryable (ar_status target) then Err (InvalidTransition a (ar_status target) ''retry'')
     else
     andthen (first_failed_dependency (rt_state rt) (ar_task target)) (\<lambda>failed.
     if failed \<noteq> None
     then Err (InvalidTransition a (ar_status target) ''retry while a dependency is still blocked'')
     else
     andthen (require_no_outstanding_children rt a) (\<lambda>_.
     Ok ([TaskRetryRequested (ar_task target), AgentRetryRequested requester a],
         StateChanged (ar_task target) a)))))"

fun plan :: "team_runtime \<Rightarrow> team_command \<Rightarrow> (team_event_kind list \<times> command_outcome) team_result" where
  "plan rt (AdmitRoot task budget caps) = plan_root rt task budget caps"
| "plan rt (Delegate s task budget caps) =
     andthen (authenticate rt s) (\<lambda>parent. plan_delegation rt parent task budget caps None)"
| "plan rt (DelegateWithModelPreset s task budget caps preset) =
     andthen (authenticate rt s) (\<lambda>parent. plan_delegation rt parent task budget caps preset)"
| "plan rt (SendMessage s recipient body) =
     andthen (authenticate rt s) (\<lambda>sender. plan_message rt sender recipient body)"
| "plan rt (Complete s capsule) = andthen (authenticate rt s) (\<lambda>a. plan_completion rt a capsule)"
| "plan rt (Fail s reason) = andthen (authenticate rt s) (\<lambda>a. plan_failure rt a reason)"
| "plan rt (Cancel s reason) = andthen (authenticate rt s) (\<lambda>a. plan_cancellation rt a reason)"
| "plan rt (Retry s a) = andthen (authenticate rt s) (\<lambda>requester. plan_retry rt requester a)"

section \<open>Operation journal framing\<close>

fun is_op_committed :: "team_event_kind \<Rightarrow> bool" where
  "is_op_committed (OperationCommitted _ _) = True"
| "is_op_committed _ = False"

fun is_op_acknowledged :: "team_event_kind \<Rightarrow> bool" where
  "is_op_acknowledged (OperationAcknowledged _ _ _) = True"
| "is_op_acknowledged _ = False"

datatype team_operation_kind =
  RootAdmission | Delegation | MessageOp | Completion | Failure | Cancellation | RetryOp

fun operation_kind_of :: "team_event_kind \<Rightarrow> team_operation_kind option" where
  "operation_kind_of (AgentCreated _ _ None _ _ _) = Some RootAdmission"
| "operation_kind_of (AgentCreated _ _ (Some _) _ _ _) = Some Delegation"
| "operation_kind_of (MessageSent _ _ _ _) = Some MessageOp"
| "operation_kind_of (CompletionCapsuleSubmitted _ _ _) = Some Completion"
| "operation_kind_of (TaskFailed _ _) = Some Failure"
| "operation_kind_of (TaskCancelled _ _) = Some Cancellation"
| "operation_kind_of (AgentRetryRequested _ _) = Some RetryOp"
| "operation_kind_of _ = None"

definition classify_operation_transaction :: "team_event list \<Rightarrow> team_operation_kind option" where
  "classify_operation_transaction evs =
     (case List.map_filter (operation_kind_of \<circ> te_kind) evs of [k] \<Rightarrow> Some k | _ \<Rightarrow> None)"

definition validate_operation_transaction :: "team_event list \<Rightarrow> unit team_result" where
  "validate_operation_transaction evs =
     (let committed = filter (is_op_committed \<circ> te_kind) evs;
          acknowledged = filter (is_op_acknowledged \<circ> te_kind) evs
      in case committed of
        e # _ \<Rightarrow>
          if length committed \<noteq> 1 \<or> acknowledged \<noteq> [] \<or> te_index e \<noteq> 0
          then invariant ''Team operation command transaction has invalid journal framing''
          else (case te_kind e of
              OperationCommitted _ tx \<Rightarrow>
                if tx \<noteq> te_transaction e
                then invariant ''Team operation marker transaction does not match its frame''
                else if classify_operation_transaction evs = None
                then invariant ''Team operation transaction must contain exactly one command kind''
                else Ok ()
            | _ \<Rightarrow> invariant ''unreachable'')
      | [] \<Rightarrow>
          (case acknowledged of
            e # _ \<Rightarrow>
              if length acknowledged \<noteq> 1 \<or> length evs \<noteq> 1
              then invariant ''Team operation acknowledgement must be its own transaction''
              else (case te_kind e of
                  OperationAcknowledged _ committed_tx ack_tx \<Rightarrow>
                    if ack_tx \<noteq> te_transaction e \<or> id_get committed_tx \<ge> id_get ack_tx
                    then invariant ''Team operation acknowledgement transaction is invalid''
                    else Ok ()
                | _ \<Rightarrow> invariant ''unreachable'')
          | [] \<Rightarrow> Ok ()))"

section \<open>Preparing and publishing a transaction\<close>

definition fresh_transaction_id :: "team_runtime \<Rightarrow> transaction_id team_result" where
  "fresh_transaction_id rt = map_ok Ident (fresh_identifier (rt_next_transaction rt))"

definition number_events :: "u64 \<Rightarrow> transaction_id \<Rightarrow> team_event_kind list \<Rightarrow> team_event list" where
  "number_events first_sequence tx kinds =
     map (\<lambda>(i, k). \<lparr>te_sequence = Ident (first_sequence + of_nat i), te_transaction = tx,
                     te_index = of_nat i, te_count = of_nat (length kinds), te_kind = k\<rparr>)
       (enumerate 0 kinds)"

definition prepare_events ::
  "team_runtime \<Rightarrow> transaction_id \<Rightarrow> team_event_kind list \<Rightarrow> prepared_events team_result" where
  "prepare_events rt tx base =
     (let n = rt_max_active rt in
      andthen (try_fold (\<lambda>(st, evs) e. apply_planned st evs e n) (rt_state rt, []) base) (\<lambda>(st, evs).
      andthen (reconcile st evs n) (\<lambda>(st, kinds).
      andthen (validate st n) (\<lambda>_.
      andthen (validate_quiescent st n) (\<lambda>_.
      andthen (ok_or (u32_try_from (length kinds)) IdentifierExhausted) (\<lambda>_.
      andthen (ok_or (u64_try_from (length (rt_event_log rt) + 1)) IdentifierExhausted) (\<lambda>first_sequence.
      andthen (ok_or (checked_add first_sequence (of_nat (length kinds - 1))) IdentifierExhausted)
        (\<lambda>last_sequence.
      let evs = number_events first_sequence tx kinds in
      andthen (validate_operation_transaction evs) (\<lambda>_.
      andthen (ok_or (checked_add (rt_next_transaction rt) 1) IdentifierExhausted) (\<lambda>next_transaction.
      andthen (next_identifier (map id_get (bt_keys (tasks st)))) (\<lambda>next_task.
      andthen (next_identifier (map id_get (bt_keys (agents st)))) (\<lambda>next_agent.
      andthen (next_identifier (map (id_get \<circ> mv_id) (messages st))) (\<lambda>next_message.
      Ok \<lparr>pe_candidate = st, pe_transaction = tx, pe_revision = Ident last_sequence,
          pe_events = evs, pe_next_transaction = next_transaction, pe_next_task = next_task,
          pe_next_agent = next_agent, pe_next_message = next_message\<rparr>)))))))))))))"

definition prepare :: "team_runtime \<Rightarrow> team_command \<Rightarrow> (prepared_events \<times> command_outcome) team_result" where
  "prepare rt cmd =
     andthen (plan rt cmd) (\<lambda>(evs, outcome).
     andthen (fresh_transaction_id rt) (\<lambda>tx.
     andthen (prepare_events rt tx evs) (\<lambda>prepared.
     Ok (prepared, outcome))))"

definition prepare_operation ::
  "team_runtime \<Rightarrow> operation_id \<Rightarrow> team_command \<Rightarrow> (prepared_events \<times> command_outcome) team_result" where
  "prepare_operation rt op cmd =
     andthen (fresh_transaction_id rt) (\<lambda>tx.
     andthen (plan rt cmd) (\<lambda>(evs, outcome).
     andthen (prepare_events rt tx (OperationCommitted op tx # evs)) (\<lambda>prepared.
     Ok (prepared, outcome))))"

definition prepare_operation_acknowledgement ::
  "team_runtime \<Rightarrow> operation_id \<Rightarrow> prepared_events team_result" where
  "prepare_operation_acknowledgement rt op =
     andthen (ok_or (bt_get (operations (rt_state rt)) op) (UnknownOperation op)) (\<lambda>r.
     andthen (fresh_transaction_id rt) (\<lambda>ack_tx.
     prepare_events rt ack_tx [OperationAcknowledged op (or_transaction r) ack_tx]))"

definition next_operation_id :: "team_runtime \<Rightarrow> operation_id team_result" where
  "next_operation_id rt =
     andthen (next_identifier (map id_get (bt_keys (operations (rt_state rt))))) (\<lambda>v.
     map_ok Ident (fresh_identifier v))"

definition publish_events :: "team_runtime \<Rightarrow> prepared_events \<Rightarrow> team_runtime" where
  "publish_events rt p =
     rt\<lparr>rt_event_log := rt_event_log rt @ pe_events p,
        rt_state := pe_candidate p,
        rt_next_transaction := pe_next_transaction p,
        rt_next_task := pe_next_task p,
        rt_next_agent := pe_next_agent p,
        rt_next_message := pe_next_message p\<rparr>"

definition publish ::
  "team_runtime \<Rightarrow> prepared_events \<times> command_outcome \<Rightarrow> commit_durability \<Rightarrow> team_runtime \<times> team_commit" where
  "publish rt prepared durability =
     (publish_events rt (fst prepared),
      \<lparr>tc_transaction = pe_transaction (fst prepared), tc_revision = pe_revision (fst prepared),
       tc_durability = durability, tc_events = pe_events (fst prepared),
       tc_outcome = snd prepared\<rparr>)"

definition dispatch :: "team_runtime \<Rightarrow> team_command \<Rightarrow> (team_runtime \<times> team_commit) team_result" where
  "dispatch rt cmd = andthen (prepare rt cmd) (\<lambda>prepared. Ok (publish rt prepared Volatile))"

section \<open>Snapshots\<close>

record task_view =
  tv_id :: task_id
  tv_title :: string
  tv_scope :: task_scope
  tv_dependencies :: "task_id list"
  tv_owner :: "agent_id option"
  tv_status :: task_status
  tv_completion :: "completion_capsule option"

record team_snapshot =
  sn_revision :: event_seq
  sn_tasks :: "task_view list"
  sn_agents :: "agent_record list"
  sn_messages :: "message_view list"

definition task_view_of :: "task_record \<Rightarrow> task_view" where
  "task_view_of r = \<lparr>tv_id = tr_id r, tv_title = ts_title (tr_spec r), tv_scope = ts_scope (tr_spec r),
     tv_dependencies = ts_dependencies (tr_spec r), tv_owner = tr_owner r, tv_status = tr_status r,
     tv_completion = tr_completion r\<rparr>"

definition snapshot :: "team_runtime \<Rightarrow> team_snapshot" where
  "snapshot rt =
     \<lparr>sn_revision = (if rt_event_log rt = [] then Ident 0 else te_sequence (last (rt_event_log rt))),
      sn_tasks = map task_view_of (bt_values (tasks (rt_state rt))),
      sn_agents = bt_values (agents (rt_state rt)),
      sn_messages = messages (rt_state rt)\<rparr>"

definition snapshot_active_agent_count :: "team_snapshot \<Rightarrow> usize" where
  "snapshot_active_agent_count sn = length (filter (\<lambda>a. ar_status a = Active) (sn_agents sn))"

section \<open>Recovery\<close>

datatype recovery_error =
    RecInvalidActiveAgentLimit
  | RuntimeAuthorityExhausted
  | SequenceMismatch u64 u64 \<comment> \<open>expected, actual\<close>
  | TransactionMismatch u64 u64
  | InvalidTransactionPosition transaction_id u32 u32
  | InvalidTransactionSize transaction_id
  | IncompleteTransaction transaction_id u32 usize
  | InvalidEvent event_seq team_error

record recovery =
  rv_state :: team_state
  rv_log :: "team_event list"
  rv_sequence :: u64
  rv_transaction :: u64
  rv_limit :: usize

definition recovery_start :: recovery where
  "recovery_start = \<lparr>rv_state = team_state_default, rv_log = [], rv_sequence = 1,
     rv_transaction = 1, rv_limit = 1\<rparr>"

definition replay_event ::
  "usize \<Rightarrow> u64 \<Rightarrow> team_event \<Rightarrow> team_state \<Rightarrow> nat \<times> team_event \<Rightarrow> (recovery_error, team_state) result" where
  "replay_event max_active expected_sequence first st ie =
     (case ie of (offset, e) \<Rightarrow>
     andthen (ok_or (checked_add expected_sequence (of_nat offset))
               (InvalidEvent (te_sequence e) IdentifierExhausted)) (\<lambda>expected.
     if id_get (te_sequence e) \<noteq> expected then Err (SequenceMismatch expected (id_get (te_sequence e)))
     else if te_transaction e \<noteq> te_transaction first
     then Err (TransactionMismatch (id_get (te_transaction first)) (id_get (te_transaction e)))
     else if te_index e \<noteq> of_nat offset
     then Err (InvalidTransactionPosition (te_transaction first) (of_nat offset) (te_index e))
     else if te_count e \<noteq> te_count first then Err (InvalidTransactionSize (te_transaction first))
     else map_err (InvalidEvent (te_sequence e)) (apply_event st (te_kind e) max_active)))"

text \<open>One round of the loop of \<open>recover\<close>: the new state and the number of events consumed.\<close>

definition recover_transaction ::
  "usize \<Rightarrow> recovery \<Rightarrow> team_event \<Rightarrow> team_event list \<Rightarrow> (recovery_error, recovery \<times> nat) result" where
  "recover_transaction max_active rv first events =
     (if id_get (te_sequence first) \<noteq> rv_sequence rv
      then Err (SequenceMismatch (rv_sequence rv) (id_get (te_sequence first)))
      else if id_get (te_transaction first) \<noteq> rv_transaction rv
      then Err (TransactionMismatch (rv_transaction rv) (id_get (te_transaction first)))
      else if te_index first \<noteq> 0
      then Err (InvalidTransactionPosition (te_transaction first) 0 (te_index first))
      else if te_count first = 0 then Err (InvalidTransactionSize (te_transaction first))
      else
      let n = unat (te_count first) in
      if length events < n
      then Err (IncompleteTransaction (te_transaction first) (te_count first) (length events))
      else
      let chunk = take n events; last_seq = te_sequence (events ! (n - 1)) in
      andthen (map_err (InvalidEvent (te_sequence first)) (validate_operation_transaction chunk)) (\<lambda>_.
      andthen (try_fold (replay_event max_active (rv_sequence rv) first) (rv_state rv) (enumerate 0 chunk))
        (\<lambda>candidate.
      andthen (map_err (InvalidEvent last_seq) (validate candidate max_active)) (\<lambda>_.
      let limit = max (rv_limit rv) (active_agent_count candidate) in
      andthen (map_err (InvalidEvent last_seq) (validate_quiescent candidate limit)) (\<lambda>_.
      andthen (ok_or (checked_add (rv_sequence rv) (of_nat n))
                (InvalidEvent (te_sequence first) IdentifierExhausted)) (\<lambda>next_sequence.
      andthen (ok_or (checked_add (rv_transaction rv) 1)
                (InvalidEvent (te_sequence first) IdentifierExhausted)) (\<lambda>next_transaction.
      Ok (\<lparr>rv_state = candidate, rv_log = rv_log rv @ chunk, rv_sequence = next_sequence,
           rv_transaction = next_transaction, rv_limit = limit\<rparr>, n))))))))"

lemma recover_transaction_consumes:
  "recover_transaction max_active rv first events = Ok (rv', n) \<Longrightarrow> n = unat (te_count first) \<and> 0 < n"
  by (auto simp: recover_transaction_def result_ok Let_def unat_gt_0 split: if_splits)

function recover_loop ::
  "usize \<Rightarrow> recovery \<Rightarrow> team_event list \<Rightarrow> (recovery_error, recovery) result" where
  "recover_loop max_active rv [] = Ok rv"
| "recover_loop max_active rv (first # rest) =
     andthen (recover_transaction max_active rv first (first # rest)) (\<lambda>rn.
     recover_loop max_active (fst rn) (drop (snd rn) (first # rest)))"
  by pat_completeness auto
termination
  by (relation "measure (\<lambda>(m, rv, evs). length evs)")
     (auto dest: recover_transaction_consumes simp: Suc_diff_le)

declare recover_loop.simps(2) [simp del]

definition new_error_as_recovery :: "team_error \<Rightarrow> recovery_error" where
  "new_error_as_recovery e = (if e = InvalidActiveAgentLimit then RecInvalidActiveAgentLimit
     else RuntimeAuthorityExhausted)"

definition refresh_identifiers :: "team_runtime \<Rightarrow> team_runtime team_result" where
  "refresh_identifiers rt =
     andthen (next_identifier (map id_get (bt_keys (tasks (rt_state rt))))) (\<lambda>next_task.
     andthen (next_identifier (map id_get (bt_keys (agents (rt_state rt))))) (\<lambda>next_agent.
     andthen (next_identifier (map (id_get \<circ> mv_id) (messages (rt_state rt)))) (\<lambda>next_message.
     Ok (rt\<lparr>rt_next_task := next_task, rt_next_agent := next_agent, rt_next_message := next_message\<rparr>))))"

definition recover ::
  "usize \<Rightarrow> u64 \<Rightarrow> team_event list \<Rightarrow> (recovery_error, team_runtime \<times> u64) result" where
  "recover max_active authority_counter events =
     andthen (map_err new_error_as_recovery (team_runtime_new max_active authority_counter)) (\<lambda>(rt, counter').
     andthen (recover_loop max_active recovery_start events) (\<lambda>rv.
     map_err (InvalidEvent (if rv_log rv = [] then Ident 0 else te_sequence (last (rv_log rv))))
       (map_ok (\<lambda>rt. (rt, counter'))
         (refresh_identifiers (rt\<lparr>rt_state := rv_state rv, rt_event_log := rv_log rv,
            rt_next_transaction := rv_transaction rv\<rparr>)))))"

end
