(* ===== verification/Team_Schedule.thy ===== *)
theory Team_Schedule
  imports Team_Fold Team_Runtime
begin

text \<open>
  The scheduler and the preparation of a transaction.  The events \<open>reconcile\<close> and
  \<open>prepare_events\<close> emit are exactly the events whose fold gives the state they return
  (\<open>emits\<close>), the invariant is kept, and neither runs out of fuel: each activation turns one Ready
  Task into a Running one.
\<close>

section \<open>Emitted events\<close>

definition apply_all :: "team_state \<Rightarrow> team_event_kind list \<Rightarrow> usize \<Rightarrow> team_state team_result" where
  "apply_all st es n = try_fold (\<lambda>st e. apply_event st e n) st es"

text \<open>The events only the scheduler emits.\<close>

fun scheduled :: "team_event_kind \<Rightarrow> bool" where
  "scheduled (TaskBlocked _ _) = True"
| "scheduled (AgentBlocked _ _) = True"
| "scheduled (TaskReady _) = True"
| "scheduled (AgentActivated _) = True"
| "scheduled (TaskStarted _) = True"
| "scheduled _ = False"

lemma scheduledI [intro]:
  "scheduled (TaskBlocked t b)" "scheduled (AgentBlocked a b)" "scheduled (TaskReady t)"
  "scheduled (AgentActivated a)" "scheduled (TaskStarted t)"
  by simp_all

definition emits ::
  "usize \<Rightarrow> team_state \<times> team_event_kind list \<Rightarrow> team_state \<times> team_event_kind list \<Rightarrow> bool" where
  "emits n se se' \<longleftrightarrow> (\<exists>es. snd se' = snd se @ es \<and> apply_all (fst se) es n = Ok (fst se') \<and> list_all scheduled es)"

lemma apply_all_Nil [simp]: "apply_all st [] n = Ok st"
  by (simp add: apply_all_def)

lemma apply_all_append: "apply_all st (es @ es') n = andthen (apply_all st es n) (\<lambda>st'. apply_all st' es' n)"
  by (simp add: apply_all_def try_fold_append)

lemma apply_all_snoc:
  "apply_all st es n = Ok st' \<Longrightarrow> apply_event st' e n = Ok st'' \<Longrightarrow> apply_all st (es @ [e]) n = Ok st''"
  by (simp add: apply_all_append) (simp add: apply_all_def)

lemma emits_refl [simp]: "emits n se se"
  by (simp add: emits_def)

lemma emits_trans: "emits n a b \<Longrightarrow> emits n b c \<Longrightarrow> emits n a c"
  unfolding emits_def by (fastforce simp: apply_all_append)

lemma apply_planned_emits:
  "apply_planned st evs e n = Ok se' \<Longrightarrow> scheduled e \<Longrightarrow> emits n (st, evs) se'"
  by (auto simp: apply_planned_def emits_def apply_all_def result_ok intro!: exI [of _ "[e]"])

lemma resolve_pending_cases:
  assumes "resolve_pending n (st, evs) t = Ok se'"
  obtains b st1 evs1 a where "first_failed_dependency st t = Ok (Some b)"
      "apply_planned st evs (TaskBlocked t b) n = Ok (st1, evs1)" "task_owner st1 t = Ok a"
      "apply_planned st1 evs1 (AgentBlocked a b) n = Ok se'"
  | "first_failed_dependency st t = Ok None" "dependencies_succeeded st t = Ok True"
      "apply_planned st evs (TaskReady t) n = Ok se'"
  | "first_failed_dependency st t = Ok None" "dependencies_succeeded st t = Ok False"
      "se' = (st, evs)"
proof -
  from assms obtain f where f: "first_failed_dependency st t = Ok f"
    by (auto simp: resolve_pending_def result_ok)
  show thesis
  proof (cases f)
    case None
    with assms f obtain r where "dependencies_succeeded st t = Ok r"
      by (auto simp: resolve_pending_def result_ok)
    then show thesis using assms f None that(2,3) by (cases r) (auto simp: resolve_pending_def)
  next
    case (Some b)
    with assms f show thesis using that(1) by (auto simp: resolve_pending_def result_ok)
  qed
qed

lemma resolve_pending_emits: "resolve_pending n se t = Ok se' \<Longrightarrow> emits n se se'"
proof -
  assume step: "resolve_pending n se t = Ok se'"
  obtain st evs where se: "se = (st, evs)" by (cases se)
  from step [unfolded se] show "emits n se se'"
    unfolding se by (cases rule: resolve_pending_cases) (blast intro: apply_planned_emits emits_trans emits_refl)+
qed

lemma try_fold_emits:
  assumes "try_fold f se xs = Ok se'" and "\<And>se x se'. f se x = Ok se' \<Longrightarrow> emits n se se'"
  shows "emits n se se'"
  by (rule try_fold_invariant [OF assms(1), where P = "emits n se"]) (auto intro: emits_trans assms(2))

lemma activate_ready_cases:
  assumes "activate_ready (Suc fuel) n (st, evs) = res"
  obtains "\<not> active_agent_count st < n" "res = Ok (st, evs)"
  | "List.find (\<lambda>t. tr_status t = TReady) (bt_values (tasks st)) = None" "res = Ok (st, evs)"
  | r where "active_agent_count st < n" "List.find (\<lambda>t. tr_status t = TReady) (bt_values (tasks st)) = Some r"
      "andthen (task_owner st (tr_id r)) (\<lambda>a.
       andthen (apply_planned st evs (AgentActivated a) n) (\<lambda>(st, evs).
       andthen (apply_planned st evs (TaskStarted (tr_id r)) n) (activate_ready fuel n))) = res"
  using assms
  by (cases "List.find (\<lambda>t. tr_status t = TReady) (bt_values (tasks st))") (auto split: if_splits)

declare activate_ready.simps(2) [simp del]

lemma activate_ready_emits: "activate_ready fuel n se = Ok se' \<Longrightarrow> emits n se se'"
proof (induction fuel arbitrary: se)
  case (Suc fuel)
  obtain st evs where se: "se = (st, evs)" by (cases se)
  from Suc.prems [unfolded se] show ?case
  proof (cases rule: activate_ready_cases)
    case (3 r)
    then obtain a st1 evs1 se2 where *: "task_owner st (tr_id r) = Ok a"
      "apply_planned st evs (AgentActivated a) n = Ok (st1, evs1)"
      "apply_planned st1 evs1 (TaskStarted (tr_id r)) n = Ok se2"
      "activate_ready fuel n se2 = Ok se'"
      by (auto simp: result_ok)
    from Suc.IH [OF *(4)] have "emits n se2 se'" .
    then show ?thesis using * unfolding se by (blast intro: apply_planned_emits emits_trans)
  qed (simp_all add: se)
qed simp

lemma reconcile_emits:
  assumes "reconcile st evs n = Ok se'"
  shows "emits n (st, evs) se'"
proof -
  from assms obtain se where fold: "try_fold (resolve_pending n) (st, evs) (pending_tasks st) = Ok se"
    and act: "activate_ready (Suc (length (tasks st))) n se = Ok se'"
    by (auto simp: reconcile_def result_ok)
  have "emits n (st, evs) se" by (rule try_fold_emits [OF fold]) (rule resolve_pending_emits)
  then show ?thesis using activate_ready_emits [OF act] emits_trans by blast
qed

lemma apply_all_wf: "apply_all st es n = Ok st' \<Longrightarrow> team_wf st \<Longrightarrow> team_wf st'"
  unfolding apply_all_def by (erule try_fold_invariant) (auto intro: apply_event_wf)

lemma apply_planned_wf: "apply_planned st evs e n = Ok se' \<Longrightarrow> team_wf st \<Longrightarrow> team_wf (fst se')"
  by (auto simp: apply_planned_def result_ok intro: apply_event_wf)

lemma emits_wf: "emits n se se' \<Longrightarrow> team_wf (fst se) \<Longrightarrow> team_wf (fst se')"
  by (auto simp: emits_def intro: apply_all_wf)

lemma apply_all_tree:
  assumes "apply_all st es n = Ok st'" and "maps_ok st"
  shows "maps_ok st' \<and> tree_step\<^sup>*\<^sup>* (tree_of st) (tree_of st')"
  unfolding apply_all_def
proof (rule try_fold_invariant [OF assms(1) [unfolded apply_all_def],
      where P = "\<lambda>s. maps_ok s \<and> tree_step\<^sup>*\<^sup>* (tree_of st) (tree_of s)"])
  show "maps_ok st \<and> tree_step\<^sup>*\<^sup>* (tree_of st) (tree_of st)" using assms(2) by simp
next
  fix s e s'
  assume "maps_ok s \<and> tree_step\<^sup>*\<^sup>* (tree_of st) (tree_of s)" and "apply_event s e n = Ok s'"
  then show "maps_ok s' \<and> tree_step\<^sup>*\<^sup>* (tree_of st) (tree_of s')"
    using apply_event_tree [of s e n s'] by (auto split: if_splits intro: rtranclp.rtrancl_into_rtrancl)
qed

section \<open>The scheduler returns\<close>

definition ready_count :: "team_state \<Rightarrow> nat" where
  "ready_count st = length (filter (\<lambda>t. tr_status t = TReady) (bt_values (tasks st)))"

lemma ready_count_le: "ready_count st \<le> length (tasks st)"
proof -
  have "ready_count st \<le> length (bt_values (tasks st))"
    unfolding ready_count_def by (rule length_filter_le)
  then show ?thesis by (simp add: bt_values_def)
qed

lemma find_ready:
  assumes "maps_ok st" and "List.find (\<lambda>t. tr_status t = TReady) (bt_values (tasks st)) = Some r"
  shows "bt_get (tasks st) (tr_id r) = Some r" and "tr_status r = TReady"
proof -
  from list_find_SomeD [OF assms(2)] have r: "r \<in> set (bt_values (tasks st))" "tr_status r = TReady" by auto
  then obtain t where "bt_get (tasks st) t = Some r"
    using bt_values_iff [OF maps_okD(1) [OF assms(1)]] by blast
  with maps_okD(4) [OF assms(1)] show "bt_get (tasks st) (tr_id r) = Some r" by metis
  show "tr_status r = TReady" by (rule r(2))
qed

lemma agent_activated_tasks: "apply_event st (AgentActivated a) n = Ok st' \<Longrightarrow> tasks st' = tasks st"
  by (auto simp: apply_agent_activated_def result_ok put_agent_def)

lemma task_started_ready_count:
  assumes "apply_event st (TaskStarted t) n = Ok st'" and "maps_ok st"
  shows "Suc (ready_count st') = ready_count st"
proof -
  from assms(1) obtain r where r: "bt_get (tasks st) t = Some r" "tr_status r = TReady"
    and st': "st' = put_task st t (r\<lparr>tr_status := TRunning\<rparr>)"
    by (auto simp: apply_task_started_def result_ok)
  obtain xs ys where "tasks st = xs @ (t, r) # ys"
    "bt_insert t (r\<lparr>tr_status := TRunning\<rparr>) (tasks st) = xs @ (t, r\<lparr>tr_status := TRunning\<rparr>) # ys"
    using bt_insert_present [OF maps_okD(1) [OF assms(2)] r(1)] by metis
  then show ?thesis using r(2) unfolding st' by (simp add: ready_count_def put_task_def bt_values_def)
qed

lemma apply_planned_returns: "team_wf st \<Longrightarrow> apply_planned st evs e n \<noteq> Diverges"
  using apply_event_returns by (auto simp: apply_planned_def andthen_eq_Diverges)

lemma activate_ready_returns:
  assumes "team_wf (fst se)" and "ready_count (fst se) < fuel"
  shows "activate_ready fuel n se \<noteq> Diverges"
  using assms
proof (induction fuel arbitrary: se)
  case (Suc fuel)
  obtain st evs where se: "se = (st, evs)" by (cases se)
  have wf: "team_wf st" using Suc.prems(1) se by simp
  show ?case
  proof
    assume "activate_ready (Suc fuel) n se = Diverges"
    then have "activate_ready (Suc fuel) n (st, evs) = Diverges" using se by simp
    then show False
    proof (cases rule: activate_ready_cases)
      case (3 r)
      have owner: "task_owner st (tr_id r) \<noteq> Diverges" by (simp add: task_owner_def)
      with 3(3) apply_planned_returns [OF wf] obtain a st1 evs1 where
        a: "apply_planned st evs (AgentActivated a) n = Ok (st1, evs1)"
        and rest: "andthen (apply_planned st1 evs1 (TaskStarted (tr_id r)) n) (activate_ready fuel n) = Diverges"
        by (auto simp: andthen_eq_Diverges)
      have wf1: "team_wf st1" using apply_planned_wf [OF a(1)] wf by simp
      from rest apply_planned_returns [OF wf1] obtain st2 evs2 where
        b: "apply_planned st1 evs1 (TaskStarted (tr_id r)) n = Ok (st2, evs2)"
        and div: "activate_ready fuel n (st2, evs2) = Diverges"
        by (auto simp: andthen_eq_Diverges)
      have wf2: "team_wf st2" using apply_planned_wf [OF b] wf1 by simp
      from a(1) b have "apply_event st (AgentActivated a) n = Ok st1"
        and started: "apply_event st1 (TaskStarted (tr_id r)) n = Ok st2"
        by (auto simp: apply_planned_def result_ok)
      then have "ready_count st1 = ready_count st"
        using agent_activated_tasks by (simp add: ready_count_def)
      moreover have "Suc (ready_count st2) = ready_count st1"
        using task_started_ready_count [OF started] wf1 by (simp add: team_wf_def)
      ultimately have "ready_count st2 < fuel" using Suc.prems(2) se by simp
      then show False using Suc.IH [of "(st2, evs2)"] wf2 div by simp
    qed simp_all
  qed
qed simp

lemma resolve_pending_returns: "team_wf (fst se) \<Longrightarrow> resolve_pending n se t \<noteq> Diverges"
proof -
  assume wf: "team_wf (fst se)"
  obtain st evs where se: "se = (st, evs)" by (cases se)
  have "task_owner st' t' \<noteq> Diverges" for st' t' by (simp add: task_owner_def)
  moreover have "apply_planned st' evs' e' n \<noteq> Diverges"
    if "apply_planned st evs e n = Ok (st', evs')" for st' evs' e e'
    using apply_planned_wf [OF that] wf se by (intro apply_planned_returns) simp
  ultimately show ?thesis
    using wf apply_planned_returns [of st evs _ n] unfolding se
    by (auto simp: resolve_pending_def andthen_eq_Diverges split: option.splits if_splits)
qed

lemma quiet_task_keys:
  assumes "quiet st st'" and "maps_ok st"
  shows "bt_keys (tasks st') = bt_keys (tasks st)"
  using assms
  by (induction rule: quiet.induct)
     (auto simp: put_task_def put_agent_def maps_ok_def intro: bt_keys_insert_present)

lemma apply_planned_task_keys:
  assumes "apply_planned st evs e n = Ok se'" and "\<not> creates e" and "maps_ok st"
  shows "bt_keys (tasks (fst se')) = bt_keys (tasks st)" and "maps_ok (fst se')"
proof -
  from assms(1) obtain st' where st': "apply_event st e n = Ok st'" "fst se' = st'"
    by (auto simp: apply_planned_def result_ok)
  have "quiet st st'" using apply_event_quiet [OF st'(1) assms(2)] .
  then show "bt_keys (tasks (fst se')) = bt_keys (tasks st)" and "maps_ok (fst se')"
    using quiet_task_keys quiet_keeps(1) assms(3) st'(2) by blast+
qed

lemma resolve_pending_tasks:
  assumes "resolve_pending n se t = Ok se'" and "maps_ok (fst se)"
  shows "length (tasks (fst se')) = length (tasks (fst se))"
proof -
  obtain st evs where se: "se = (st, evs)" by (cases se)
  have maps: "maps_ok st" using assms(2) se by simp
  from assms(1) [unfolded se] have "bt_keys (tasks (fst se')) = bt_keys (tasks st)"
  proof (cases rule: resolve_pending_cases)
    case (1 b st1 evs1 a)
    have "bt_keys (tasks st1) = bt_keys (tasks st)" and "maps_ok st1"
      using apply_planned_task_keys [OF 1(2) _ maps] by simp_all
    then show ?thesis using apply_planned_task_keys(1) [OF 1(4)] by simp
  next
    case 2
    then show ?thesis using apply_planned_task_keys(1) [OF 2(3) _ maps] by simp
  qed simp
  then show ?thesis using se by (simp add: bt_keys_def) (metis length_map)
qed

lemma try_fold_returns:
  assumes "P s" and "\<And>s x. P s \<Longrightarrow> f s x \<noteq> Diverges" and "\<And>s x s'. P s \<Longrightarrow> f s x = Ok s' \<Longrightarrow> P s'"
  shows "try_fold f s xs \<noteq> Diverges"
  using assms(1)
proof (induction xs arbitrary: s)
  case (Cons x xs)
  with assms(2,3) show ?case by (auto simp: andthen_eq_Diverges)
qed simp

lemma reconcile_returns:
  assumes "team_wf st"
  shows "reconcile st evs n \<noteq> Diverges"
proof -
  have "try_fold (resolve_pending n) (st, evs) ts \<noteq> Diverges" for ts
    by (rule try_fold_returns [where P = "\<lambda>se. team_wf (fst se)"])
       (use assms resolve_pending_returns resolve_pending_emits emits_wf in \<open>auto, blast\<close>)
  moreover have "activate_ready (Suc (length (tasks st))) n se \<noteq> Diverges"
    if "try_fold (resolve_pending n) (st, evs) ts = Ok se" for ts se
  proof (rule activate_ready_returns)
    have em: "emits n (st, evs) se" by (rule try_fold_emits [OF that]) (rule resolve_pending_emits)
    then show "team_wf (fst se)" using emits_wf assms by fastforce
    have "length (tasks (fst se)) = length (tasks st)"
    proof -
      have "(\<lambda>s. length (tasks (fst s)) = length (tasks st) \<and> team_wf (fst s)) se"
      proof (rule try_fold_invariant [OF that])
        fix s t s'
        assume s: "length (tasks (fst s)) = length (tasks st) \<and> team_wf (fst s)"
          and step: "resolve_pending n s t = Ok s'"
        have "length (tasks (fst s')) = length (tasks (fst s))"
          using resolve_pending_tasks [OF step] s by (simp add: team_wf_def)
        then show "length (tasks (fst s')) = length (tasks st) \<and> team_wf (fst s')" 
          using s resolve_pending_emits [OF step] emits_wf by auto
      qed (use assms in simp)
      then show ?thesis by simp
    qed
    then show "ready_count (fst se) < Suc (length (tasks st))" using ready_count_le [of "fst se"] by simp
  qed
  ultimately show ?thesis unfolding reconcile_def by (auto simp: andthen_eq_Diverges)
qed

end
