(* ===== verification/Team_Prepare.thy ===== *)
theory Team_Prepare
  imports Team_Schedule
begin

text \<open>
  What a prepared transaction is: the command's events followed by the scheduler's, numbered
  from the end of the log, with the fold of the log's state over them as candidate; and that
  planning and preparing never run out of fuel.
\<close>

section \<open>Prepared transactions\<close>

lemma fold_planned:
  "try_fold (\<lambda>(st, evs) e. apply_planned st evs e n) (st, evs) es =
     map_ok (\<lambda>st'. (st', evs @ es)) (apply_all st es n)"
proof (induction es arbitrary: st evs)
  case (Cons e es)
  then show ?case
    by (cases "apply_event st e n") (simp_all add: apply_planned_def apply_all_def)
qed simp

lemma number_events_length [simp]: "length (number_events s tx kinds) = length kinds"
  by (simp add: number_events_def)

lemma number_events_nth:
  "i < length kinds \<Longrightarrow> number_events s tx kinds ! i =
     \<lparr>te_sequence = Ident (s + of_nat i), te_transaction = tx, te_index = of_nat i,
      te_count = of_nat (length kinds), te_kind = kinds ! i\<rparr>"
  by (simp add: number_events_def nth_enumerate_eq)

lemma number_events_hd:
  "kinds \<noteq> [] \<Longrightarrow> hd (number_events s tx kinds) =
     \<lparr>te_sequence = Ident s, te_transaction = tx, te_index = 0, te_count = of_nat (length kinds),
      te_kind = hd kinds\<rparr>"
  by (cases kinds) (simp_all add: number_events_def)

lemma number_events_kinds [simp]: "map te_kind (number_events s tx kinds) = kinds"
  by (rule nth_equalityI) (simp_all add: number_events_nth)

definition identifiers_follow :: "team_state \<Rightarrow> u64 \<Rightarrow> u64 \<Rightarrow> u64 \<Rightarrow> bool" where
  "identifiers_follow st next_task next_agent next_message \<longleftrightarrow>
     next_identifier (map id_get (bt_keys (tasks st))) = Ok next_task
   \<and> next_identifier (map id_get (bt_keys (agents st))) = Ok next_agent
   \<and> next_identifier (map (id_get \<circ> mv_id) (messages st)) = Ok next_message"

lemma prepare_events_Ok:
  assumes "prepare_events rt tx base = Ok p" and "base \<noteq> []"
  obtains extra where
    "apply_all (rt_state rt) (base @ extra) (rt_max_active rt) = Ok (pe_candidate p)"
    "validate (pe_candidate p) (rt_max_active rt) = Ok ()"
    "validate_quiescent (pe_candidate p) (rt_max_active rt) = Ok ()"
    "pe_events p = number_events (of_nat (length (rt_event_log rt) + 1)) tx (base @ extra)"
    "length (base @ extra) < 2 ^ 32" "length (rt_event_log rt @ pe_events p) < 2 ^ 64"
    "validate_operation_transaction (pe_events p) = Ok ()"
    "checked_add (rt_next_transaction rt) 1 = Some (pe_next_transaction p)"
    "identifiers_follow (pe_candidate p) (pe_next_task p) (pe_next_agent p) (pe_next_message p)"
    "pe_transaction p = tx"
proof -
  let ?n = "rt_max_active rt"
  from assms(1) obtain st1 kinds where
    base: "apply_all (rt_state rt) base ?n = Ok st1"
    and rec: "reconcile st1 base ?n = Ok (pe_candidate p, kinds)"
    and rest: "validate (pe_candidate p) ?n = Ok ()" "validate_quiescent (pe_candidate p) ?n = Ok ()"
      "length kinds < 2 ^ 32"
      "checked_add (rt_next_transaction rt) 1 = Some (pe_next_transaction p)"
      "identifiers_follow (pe_candidate p) (pe_next_task p) (pe_next_agent p) (pe_next_message p)"
      "pe_transaction p = tx"
      "pe_events p = number_events (of_nat (length (rt_event_log rt) + 1)) tx kinds"
      "validate_operation_transaction (pe_events p) = Ok ()"
      "length (rt_event_log rt) + 1 < 2 ^ 64"
      "checked_add (of_nat (length (rt_event_log rt) + 1) :: u64) (of_nat (length kinds - 1)) \<noteq> None"
    by (auto simp: prepare_events_def Let_def fold_planned result_ok identifiers_follow_def split: if_splits)
  from reconcile_emits [OF rec] obtain extra where kinds: "kinds = base @ extra"
    and fold: "apply_all st1 extra ?n = Ok (pe_candidate p)"
    by (auto simp: emits_def)
  have all: "apply_all (rt_state rt) (base @ extra) ?n = Ok (pe_candidate p)"
    using base fold by (simp add: apply_all_append)
  have len: "length kinds - 1 < 2 ^ 64" using rest(3) by simp
  have "unat (of_nat (length (rt_event_log rt) + 1) :: u64) + unat (of_nat (length kinds - 1) :: u64) < 2 ^ 64"
    using rest(10) by (auto simp: checked_add_def split: if_splits)
  then have "length (rt_event_log rt) + 1 + (length kinds - 1) < 2 ^ 64"
    using rest(9) len by (simp add: unat_of_nat del: of_nat_Suc of_nat_add)
  moreover have "0 < length kinds" using kinds assms(2) by simp
  ultimately have bound: "length (rt_event_log rt @ pe_events p) < 2 ^ 64" using rest(7) by simp
  show thesis
    by (rule that [OF all rest(1,2) _ _ bound rest(8,4,5,6)]) (use rest kinds in simp_all)
qed

section \<open>Planning and preparing return\<close>

lemma plan_nonempty: "plan rt cmd = Ok (evs, out) \<Longrightarrow> evs \<noteq> []"
  by (cases cmd)
     (auto simp: result_ok plan_root_def plan_delegation_def plan_message_def plan_completion_def
       plan_failure_def plan_cancellation_def plan_retry_def Let_def split: option.splits if_splits)

lemma authenticate_returns [simp]: "authenticate rt s \<noteq> Diverges"
  by (simp add: authenticate_def)

lemma require_returns [simp]:
  "require_active rt a \<noteq> Diverges" "require_no_outstanding_children rt a \<noteq> Diverges"
  by (auto simp: require_active_def require_no_outstanding_children_def andthen_eq_Diverges)

lemma validate_task_spec_returns [simp]: "validate_task_spec rt spec \<noteq> Diverges"
  by (auto simp: validate_task_spec_def Let_def andthen_eq_Diverges split: option.splits)

lemma plan_returns:
  assumes "team_wf (rt_state rt)"
  shows "plan rt cmd \<noteq> Diverges"
  using ancestor_dependency_returns [OF assms]
  by (cases cmd)
     (auto simp: plan_root_def plan_delegation_def plan_message_def plan_completion_def
       plan_failure_def plan_cancellation_def plan_retry_def andthen_eq_Diverges if_Err_eq_Diverges
       split: option.splits message_recipient.splits)

lemma apply_all_returns: "team_wf st \<Longrightarrow> apply_all st es n \<noteq> Diverges"
  unfolding apply_all_def
  by (rule try_fold_returns [where P = team_wf]) (auto intro: apply_event_wf dest: apply_event_returns)

lemma validate_operations_returns [simp]: "validate_operations i ops \<noteq> Diverges"
  by (induction i ops rule: validate_operations.induct) (auto simp: andthen_eq_Diverges if_Err_eq_Diverges)

lemma validate_returns [simp]: "validate st n \<noteq> Diverges"
  by (auto simp: validate_def validate_task_def validate_agent_def andthen_eq_Diverges if_Err_eq_Diverges
      intro!: try_each_not_Diverges split: option.splits)

lemma validate_quiescent_returns [simp]: "validate_quiescent st n \<noteq> Diverges"
proof -
  have "check_pending st t \<noteq> Diverges" for t
    by (auto simp: check_pending_def andthen_eq_Diverges split: if_splits)
  then have "try_each (check_pending st) ts \<noteq> Diverges" for ts by (intro try_each_not_Diverges)
  then show ?thesis by (auto simp: validate_quiescent_def andthen_eq_Diverges)
qed

lemma validate_operation_transaction_returns [simp]: "validate_operation_transaction evs \<noteq> Diverges"
  by (auto simp: validate_operation_transaction_def Let_def split: list.splits team_event_kind.splits)

lemma prepare_events_returns:
  assumes "team_wf (rt_state rt)"
  shows "prepare_events rt tx base \<noteq> Diverges"
proof -
  have "reconcile st evs n \<noteq> Diverges" if "apply_all (rt_state rt) es n = Ok st" for st evs es n
    using reconcile_returns [OF apply_all_wf [OF that assms]] .
  then show ?thesis
    using apply_all_returns [OF assms]
    by (auto simp: prepare_events_def Let_def fold_planned andthen_eq_Diverges result_ok)
qed

lemma fresh_transaction_id_returns [simp]: "fresh_transaction_id rt \<noteq> Diverges"
  by (simp add: fresh_transaction_id_def)

lemma prepare_returns: "team_wf (rt_state rt) \<Longrightarrow> prepare rt cmd \<noteq> Diverges"
  using plan_returns prepare_events_returns by (auto simp: prepare_def andthen_eq_Diverges)

lemma prepare_operation_returns: "team_wf (rt_state rt) \<Longrightarrow> prepare_operation rt op cmd \<noteq> Diverges"
  using plan_returns prepare_events_returns by (auto simp: prepare_operation_def andthen_eq_Diverges)

lemma prepare_operation_acknowledgement_returns:
  "team_wf (rt_state rt) \<Longrightarrow> prepare_operation_acknowledgement rt op \<noteq> Diverges"
  using prepare_events_returns by (auto simp: prepare_operation_acknowledgement_def andthen_eq_Diverges)

end
