(* ===== verification/Team_Replay.thy ===== *)
theory Team_Replay
  imports Team_Prepare
begin

text \<open>
  The runtimes a process can hold (\<open>reachable\<close>: a fresh one, one recovered from any log that
  \<open>recover\<close> accepts, and what committing a transaction makes of either), the invariant of all of
  them, and the agreement of the two ways a state comes about: committing transactions one by
  one, and replaying the log they leave.
\<close>

section \<open>Reachable runtimes\<close>

inductive reachable :: "team_runtime \<Rightarrow> bool" where
  fresh: "team_runtime_new n c = Ok (rt, c') \<Longrightarrow> reachable rt"
| command: "reachable rt \<Longrightarrow> prepare rt cmd = Ok p \<Longrightarrow> reachable (publish_events rt (fst p))"
| operation: "reachable rt \<Longrightarrow> prepare_operation rt op cmd = Ok p \<Longrightarrow> reachable (publish_events rt (fst p))"
| acknowledgement: "reachable rt \<Longrightarrow> prepare_operation_acknowledgement rt op = Ok q \<Longrightarrow>
     reachable (publish_events rt q)"
| recovered: "recover n c log = Ok (rt, c') \<Longrightarrow> reachable rt"

definition prepared_for :: "team_runtime \<Rightarrow> prepared_events \<Rightarrow> bool" where
  "prepared_for rt p \<longleftrightarrow>
     (\<exists>tx base. fresh_transaction_id rt = Ok tx \<and> base \<noteq> [] \<and> prepare_events rt tx base = Ok p)"

lemma prepare_prepared: "prepare rt cmd = Ok p \<Longrightarrow> prepared_for rt (fst p)"
  by (fastforce simp: prepare_def prepared_for_def result_ok dest: plan_nonempty)

lemma prepare_operation_prepared: "prepare_operation rt op cmd = Ok p \<Longrightarrow> prepared_for rt (fst p)"
  by (fastforce simp: prepare_operation_def prepared_for_def result_ok)

lemma prepare_acknowledgement_prepared:
  "prepare_operation_acknowledgement rt op = Ok p \<Longrightarrow> prepared_for rt p"
  by (fastforce simp: prepare_operation_acknowledgement_def prepared_for_def result_ok)

lemma dispatch_Ok:
  assumes "dispatch rt cmd = Ok (rt', commit)"
  obtains p where "prepare rt cmd = Ok p" "rt' = publish_events rt (fst p)" "prepared_for rt (fst p)"
proof -
  from assms obtain p where "prepare rt cmd = Ok p" "rt' = publish_events rt (fst p)"
    by (auto simp: dispatch_def publish_def result_ok)
  then show thesis using that prepare_prepared by blast
qed

lemma reachable_dispatch: "reachable rt \<Longrightarrow> dispatch rt cmd = Ok (rt', commit) \<Longrightarrow> reachable rt'"
  by (auto elim!: dispatch_Ok intro: reachable.command)

text \<open>Every way to commit is one case.\<close>

lemma reachable_induct [consumes 1, case_names fresh commit recovered]:
  assumes "reachable rt"
    and "\<And>n c rt c'. team_runtime_new n c = Ok (rt, c') \<Longrightarrow> P rt"
    and "\<And>rt p. reachable rt \<Longrightarrow> P rt \<Longrightarrow> prepared_for rt p \<Longrightarrow> P (publish_events rt p)"
    and "\<And>n c log rt c'. recover n c log = Ok (rt, c') \<Longrightarrow> P rt"
  shows "P rt"
  using assms(1)
  by (induction rule: reachable.induct)
     (blast intro: assms(2-) prepare_prepared prepare_operation_prepared prepare_acknowledgement_prepared)+

section \<open>The limit only matters upwards\<close>

lemma apply_event_mono: "apply_event st e n = Ok st' \<Longrightarrow> n \<le> m \<Longrightarrow> apply_event st e m = Ok st'"
  by (cases e) (auto simp: apply_agent_activated_def split: if_splits)

lemma apply_all_mono: "apply_all st es n = Ok st' \<Longrightarrow> n \<le> m \<Longrightarrow> apply_all st es m = Ok st'"
  by (induction es arbitrary: st) (auto simp: apply_all_def result_ok intro: apply_event_mono)

lemma validate_mono: "validate st n = Ok u \<Longrightarrow> n \<le> m \<Longrightarrow> validate st m = Ok u"
  by (auto simp: validate_def split: if_splits)

lemma validate_quiescent_antimono: "validate_quiescent st n = Ok u \<Longrightarrow> m \<le> n \<Longrightarrow> validate_quiescent st m = Ok u"
  by (auto simp: validate_quiescent_def result_ok split: if_splits)

section \<open>One replayed transaction\<close>

definition framed :: "u64 \<Rightarrow> team_event \<Rightarrow> nat \<Rightarrow> team_event \<Rightarrow> bool" where
  "framed s first offset e \<longleftrightarrow>
     checked_add s (of_nat offset) = Some (id_get (te_sequence e))
   \<and> te_transaction e = te_transaction first \<and> te_index e = of_nat offset \<and> te_count e = te_count first"

lemma replay_event_Ok:
  "replay_event n s first st (offset, e) = Ok st' \<longleftrightarrow> framed s first offset e \<and> apply_event st (te_kind e) n = Ok st'"
  by (auto simp: replay_event_def framed_def result_ok)

lemma replay_fold_Ok:
  "try_fold (replay_event n s first) st (enumerate k es) = Ok st' \<longleftrightarrow>
     (\<forall>i < length es. framed s first (k + i) (es ! i)) \<and> apply_all st (map te_kind es) n = Ok st'"
proof (induction es arbitrary: k st)
  case (Cons e es)
  show ?case
    by (auto simp: result_ok replay_event_Ok Cons.IH apply_all_def All_less_Suc2)
qed simp

definition advanced :: "recovery \<Rightarrow> team_event list \<Rightarrow> usize \<Rightarrow> recovery \<Rightarrow> bool" where
  "advanced rv chunk m rv' \<longleftrightarrow>
     (\<forall>i < length chunk. framed (rv_sequence rv) (hd chunk) i (chunk ! i))
   \<and> id_get (te_transaction (hd chunk)) = rv_transaction rv
   \<and> validate_operation_transaction chunk = Ok ()
   \<and> apply_all (rv_state rv) (map te_kind chunk) m = Ok (rv_state rv')
   \<and> validate (rv_state rv') m = Ok ()
   \<and> rv_limit rv' = max (rv_limit rv) (active_agent_count (rv_state rv'))
   \<and> validate_quiescent (rv_state rv') (rv_limit rv') = Ok ()
   \<and> checked_add (rv_sequence rv) (of_nat (length chunk)) = Some (rv_sequence rv')
   \<and> checked_add (rv_transaction rv) 1 = Some (rv_transaction rv')
   \<and> rv_log rv' = rv_log rv @ chunk"

lemma checked_add_zero: "checked_add s 0 = Some t \<longleftrightarrow> s = t" for s :: "'a::len word"
  using unsigned_less [of s] by (auto simp: checked_add_def)

lemma recover_transaction_Ok:
  "recover_transaction m rv first (first # rest) = Ok (rv', k) \<longleftrightarrow>
     k = unat (te_count first) \<and> 0 < k \<and> k \<le> Suc (length rest)
     \<and> advanced rv (take k (first # rest)) m rv'" (is "?L \<longleftrightarrow> ?R")
proof
  assume L: ?L
  then obtain cand where *: "id_get (te_sequence first) = rv_sequence rv"
    "id_get (te_transaction first) = rv_transaction rv" "te_index first = 0" "te_count first \<noteq> 0"
    "k = unat (te_count first)" "k \<le> Suc (length rest)"
    "validate_operation_transaction (take k (first # rest)) = Ok ()"
    "try_fold (replay_event m (rv_sequence rv) first) (rv_state rv) (enumerate 0 (take k (first # rest))) = Ok cand"
    "validate cand m = Ok ()"
    "validate_quiescent cand (max (rv_limit rv) (active_agent_count cand)) = Ok ()"
    "checked_add (rv_sequence rv) (of_nat k) = Some (rv_sequence rv')"
    "checked_add (rv_transaction rv) 1 = Some (rv_transaction rv')"
    "rv_state rv' = cand" "rv_log rv' = rv_log rv @ take k (first # rest)"
    "rv_limit rv' = max (rv_limit rv) (active_agent_count cand)"
    by (auto simp: recover_transaction_def Let_def result_ok not_less split: if_splits)
  have k: "0 < k" using *(4,5) by (simp add: unat_gt_0)
  have "hd (take k (first # rest)) = first" using k by (cases k) simp_all
  moreover have "length (take k (first # rest)) = k" using *(6) by simp
  ultimately show ?R using * k by (simp add: advanced_def replay_fold_Ok)
next
  assume R: ?R
  then have k: "k = unat (te_count first)" "0 < k" "k \<le> Suc (length rest)"
    and adv: "advanced rv (take k (first # rest)) m rv'" by auto
  have hd: "hd (take k (first # rest)) = first" using k by (cases k) simp_all
  have len: "length (take k (first # rest)) = k" using k(3) by simp
  have "framed (rv_sequence rv) first 0 first"
    using adv k(2) unfolding advanced_def hd len by (cases k) auto
  then have head: "id_get (te_sequence first) = rv_sequence rv" "te_index first = 0"
    by (auto simp: framed_def checked_add_zero)
  have fold: "try_fold (replay_event m (rv_sequence rv) first) (rv_state rv)
      (enumerate 0 (take k (first # rest))) = Ok (rv_state rv')"
    using adv unfolding replay_fold_Ok advanced_def hd by simp
  have count: "te_count first \<noteq> 0" using k by auto
  show ?L
    using adv head count k hd len unfolding advanced_def recover_transaction_def Let_def k(1) [symmetric]
    by (cases rv') (auto simp: fold not_less)
qed

lemma advanced_mono:
  assumes "advanced rv chunk n rv'" and "n \<le> m"
  shows "advanced rv chunk m rv'"
  using assms unfolding advanced_def by (auto intro: apply_all_mono validate_mono)

section \<open>The loop\<close>

lemma recover_loop_step:
  "recover_loop m rv (first # rest) = Ok rv'' \<longleftrightarrow>
     (\<exists>rv' k. k = unat (te_count first) \<and> 0 < k \<and> k \<le> Suc (length rest)
        \<and> advanced rv (take k (first # rest)) m rv' \<and> recover_loop m rv' (drop k (first # rest)) = Ok rv'')"
  by (subst recover_loop.simps(2)) (auto simp: result_ok recover_transaction_Ok)

lemma recover_loop_induct [consumes 1, case_names Nil chunk]:
  assumes "recover_loop m rv evs = Ok rv'"
    and "\<And>rv. P rv [] rv"
    and "\<And>rv chunk rv1 rest rv'. chunk \<noteq> [] \<Longrightarrow> length chunk = unat (te_count (hd chunk)) \<Longrightarrow>
       advanced rv chunk m rv1 \<Longrightarrow> recover_loop m rv1 rest = Ok rv' \<Longrightarrow> P rv1 rest rv' \<Longrightarrow>
       P rv (chunk @ rest) rv'"
  shows "P rv evs rv'"
  using assms(1)
proof (induction evs arbitrary: rv rule: length_induct)
  case (1 evs)
  show ?case
  proof (cases evs)
    case Nil
    then show ?thesis using 1 assms(2) by simp
  next
    case (Cons first rest)
    with 1(2) obtain rv1 k where k: "k = unat (te_count first)" "0 < k" "k \<le> Suc (length rest)"
      and adv: "advanced rv (take k evs) m rv1" and more: "recover_loop m rv1 (drop k evs) = Ok rv'"
      using recover_loop_step by auto
    have len: "length (drop k evs) < length evs" using k Cons by simp
    have "take k evs \<noteq> []" "hd (take k evs) = first" "length (take k evs) = k"
      using k Cons by (cases k; simp)+
    then have "P rv (take k evs @ drop k evs) rv'"
      using assms(3) [OF _ _ adv more] 1(1) len more k(1) by metis
    then show ?thesis by simp
  qed
qed

lemma recover_loop_chunk:
  assumes "chunk \<noteq> []" and "length chunk = unat (te_count (hd chunk))" and "advanced rv chunk m rv1"
  shows "recover_loop m rv (chunk @ rest) = recover_loop m rv1 rest"
proof -
  obtain first tl where chunk: "chunk = first # tl" using assms(1) by (cases chunk) auto
  have "take (unat (te_count first)) (first # tl @ rest) = chunk"
    using assms(2) chunk by (metis append_Cons append_eq_conv_conj list.sel(1))
  then have "recover_transaction m rv first (first # tl @ rest) = Ok (rv1, length chunk)"
    using assms chunk by (simp add: recover_transaction_Ok)
  then show ?thesis
    unfolding chunk by (simp add: recover_loop.simps(2))
qed

lemma recover_loop_append:
  assumes "recover_loop m rv evs = Ok rv'"
  shows "recover_loop m rv (evs @ evs') = recover_loop m rv' evs'"
  using assms by (induction rule: recover_loop_induct) (simp_all add: recover_loop_chunk)

lemma recover_loop_mono:
  assumes "recover_loop n rv evs = Ok rv'" and "n \<le> m"
  shows "recover_loop m rv evs = Ok rv'"
  using assms(1)
proof (induction rule: recover_loop_induct)
  case (chunk rv chunk rv1 rest rv')
  then show ?case using recover_loop_chunk [OF _ _ advanced_mono [OF _ assms(2)]] by simp
qed simp

section \<open>Invariants of recovery\<close>

definition pending_settled :: "team_state \<Rightarrow> bool" where
  "pending_settled st \<longleftrightarrow>
     (\<forall>t \<in> set (bt_values (tasks st)). tr_status t = TPending \<longrightarrow> check_pending st t = Ok ())"

definition numbered :: "team_event list \<Rightarrow> bool" where
  "numbered log \<longleftrightarrow> (\<forall>i < length log. te_sequence (log ! i) = Ident (of_nat (Suc i)))"

definition recovery_ok :: "usize \<Rightarrow> recovery \<Rightarrow> bool" where
  "recovery_ok m rv \<longleftrightarrow>
     team_wf (rv_state rv) \<and> validate (rv_state rv) m = Ok () \<and> pending_settled (rv_state rv)
   \<and> apply_all team_state_default (map te_kind (rv_log rv)) m = Ok (rv_state rv)
   \<and> Suc (length (rv_log rv)) < 2 ^ 64 \<and> rv_sequence rv = of_nat (Suc (length (rv_log rv)))
   \<and> numbered (rv_log rv) \<and> rv_limit rv \<le> m"

lemma validate_quiescent_settled: "validate_quiescent st n = Ok u \<Longrightarrow> pending_settled st"
  by (auto simp: validate_quiescent_def pending_settled_def result_ok)

lemma validate_active: "validate st n = Ok u \<Longrightarrow> active_agent_count st \<le> n"
  by (auto simp: validate_def split: if_splits)

lemma default_ok [simp]:
  "validate team_state_default n = Ok ()" "pending_settled team_state_default"
  "identifiers_follow team_state_default 1 1 1"
  by (simp_all add: validate_def pending_settled_def team_state_default_def active_agent_count_def
      bt_values_def bt_keys_def identifiers_follow_def next_identifier_Nil)

lemma numbered_append:
  "numbered (xs @ ys) \<longleftrightarrow> numbered xs
     \<and> (\<forall>i < length ys. te_sequence (ys ! i) = Ident (of_nat (Suc (length xs + i))))"
proof -
  have "(\<forall>i < length xs + length ys. Q i) \<longleftrightarrow> (\<forall>i < length xs. Q i) \<and> (\<forall>i < length ys. Q (length xs + i))"
    (is "?all \<longleftrightarrow> ?left \<and> ?right") for Q
  proof
    assume split: "?left \<and> ?right"
    show ?all
    proof (intro allI impI)
      fix i assume "i < length xs + length ys"
      with split show "Q i" by (cases "i < length xs") (auto dest!: spec [of _ "i - length xs"] simp: not_less)
    qed
  qed simp
  then show ?thesis by (simp add: numbered_def nth_append del: of_nat_Suc)
qed

lemma framed_sequence:
  "framed s first i e \<Longrightarrow> te_sequence e = Ident (s + of_nat i)"
  by (auto simp: framed_def checked_add_Some_iff ident.expand)

lemma advanced_recovery_ok:
  assumes "advanced rv chunk m rv'" and "recovery_ok m rv" and "length chunk < 2 ^ 32"
  shows "recovery_ok m rv'"
proof -
  have seq: "checked_add (rv_sequence rv) (of_nat (length chunk)) = Some (rv_sequence rv')"
    and log: "rv_log rv' = rv_log rv @ chunk"
    and fold: "apply_all (rv_state rv) (map te_kind chunk) m = Ok (rv_state rv')"
    and val: "validate (rv_state rv') m = Ok ()"
    and quiet: "validate_quiescent (rv_state rv') (rv_limit rv') = Ok ()"
    and limit: "rv_limit rv' = max (rv_limit rv) (active_agent_count (rv_state rv'))"
    and frames: "\<forall>i < length chunk. framed (rv_sequence rv) (hd chunk) i (chunk ! i)"
    using assms(1) unfolding advanced_def by auto
  have old: "team_wf (rv_state rv)" "rv_sequence rv = of_nat (Suc (length (rv_log rv)))"
    "Suc (length (rv_log rv)) < 2 ^ 64" "numbered (rv_log rv)" "rv_limit rv \<le> m"
    "apply_all team_state_default (map te_kind (rv_log rv)) m = Ok (rv_state rv)"
    using assms(2) unfolding recovery_ok_def by auto
  have "unat (rv_sequence rv) = Suc (length (rv_log rv))"
    using old(2,3) by (simp add: unat_of_nat del: of_nat_Suc)
  moreover have "unat (of_nat (length chunk) :: u64) = length chunk"
    using assms(3) by (simp add: unat_of_nat)
  ultimately have bound: "Suc (length (rv_log rv')) < 2 ^ 64"
    and seq': "rv_sequence rv' = of_nat (Suc (length (rv_log rv')))"
    using seq old(2) log by (simp_all add: checked_add_Some_iff)
  have "numbered (rv_log rv')"
    using old(2,4) frames by (auto simp: log numbered_append ac_simps dest!: framed_sequence)
  moreover have "apply_all team_state_default (map te_kind (rv_log rv')) m = Ok (rv_state rv')"
    using old(6) fold by (simp add: log apply_all_append)
  ultimately show ?thesis
    unfolding recovery_ok_def
    using apply_all_wf [OF fold old(1)] val validate_quiescent_settled [OF quiet] bound seq' limit
      validate_active [OF val] old(5) by simp
qed

lemma recovery_start_ok: "0 < m \<Longrightarrow> recovery_ok m recovery_start"
  by (simp add: recovery_ok_def recovery_start_def team_wf_default numbered_def)

lemma recover_loop_ok:
  assumes "recover_loop m rv evs = Ok rv'" and "recovery_ok m rv"
  shows "recovery_ok m rv' \<and> rv_log rv' = rv_log rv @ evs"
  using assms
proof (induction rule: recover_loop_induct)
  case (chunk rv chunk rv1 rest rv')
  have "rv_log rv1 = rv_log rv @ chunk" using chunk.hyps(3) by (simp add: advanced_def)
  moreover have "length chunk < 2 ^ 32"
    using chunk.hyps(2) unsigned_less [of "te_count (hd chunk)"] by simp
  ultimately show ?case using chunk.IH advanced_recovery_ok [OF chunk.hyps(3) chunk.prems] by simp
qed simp

end
