(* ===== verification/Team_Reach.thy ===== *)
theory Team_Reach
  imports Team_Replay
begin

text \<open>
  The invariant of every reachable runtime, and that its log, replayed by \<open>recover\<close>, gives its
  state back.
\<close>

section \<open>The invariant\<close>

definition runtime_ok :: "team_runtime \<Rightarrow> bool" where
  "runtime_ok rt \<longleftrightarrow>
     team_wf (rt_state rt) \<and> validate (rt_state rt) (rt_max_active rt) = Ok ()
   \<and> pending_settled (rt_state rt) \<and> 0 < rt_max_active rt
   \<and> apply_all team_state_default (map te_kind (rt_event_log rt)) (rt_max_active rt) = Ok (rt_state rt)
   \<and> identifiers_follow (rt_state rt) (rt_next_task rt) (rt_next_agent rt) (rt_next_message rt)"

lemma publish_events_simps [simp]:
  "rt_state (publish_events rt p) = pe_candidate p"
  "rt_max_active (publish_events rt p) = rt_max_active rt"
  "rt_authority (publish_events rt p) = rt_authority rt"
  "rt_event_log (publish_events rt p) = rt_event_log rt @ pe_events p"
  "rt_next_task (publish_events rt p) = pe_next_task p"
  "rt_next_agent (publish_events rt p) = pe_next_agent p"
  "rt_next_message (publish_events rt p) = pe_next_message p"
  "rt_next_transaction (publish_events rt p) = pe_next_transaction p"
  by (simp_all add: publish_events_def)

lemma prepared_Ok:
  assumes "prepared_for rt p"
  obtains kinds where "kinds \<noteq> []"
    "apply_all (rt_state rt) kinds (rt_max_active rt) = Ok (pe_candidate p)"
    "validate (pe_candidate p) (rt_max_active rt) = Ok ()"
    "validate_quiescent (pe_candidate p) (rt_max_active rt) = Ok ()"
    "pe_events p = number_events (of_nat (Suc (length (rt_event_log rt)))) (Ident (rt_next_transaction rt)) kinds"
    "length kinds < 2 ^ 32" "length (rt_event_log rt @ pe_events p) < 2 ^ 64"
    "validate_operation_transaction (pe_events p) = Ok ()"
    "checked_add (rt_next_transaction rt) 1 = Some (pe_next_transaction p)"
    "identifiers_follow (pe_candidate p) (pe_next_task p) (pe_next_agent p) (pe_next_message p)"
proof -
  from assms obtain tx base where tx: "tx = Ident (rt_next_transaction rt)" and base: "base \<noteq> []"
    and prep: "prepare_events rt tx base = Ok p"
    by (auto simp: prepared_for_def fresh_transaction_id_def fresh_identifier_def result_ok)
  show thesis
  proof (rule prepare_events_Ok [OF prep base])
    fix extra
    assume facts: "apply_all (rt_state rt) (base @ extra) (rt_max_active rt) = Ok (pe_candidate p)"
      "validate (pe_candidate p) (rt_max_active rt) = Ok ()"
      "validate_quiescent (pe_candidate p) (rt_max_active rt) = Ok ()"
      "pe_events p = number_events (of_nat (length (rt_event_log rt) + 1)) tx (base @ extra)"
      "length (base @ extra) < 2 ^ 32" "length (rt_event_log rt @ pe_events p) < 2 ^ 64"
      "validate_operation_transaction (pe_events p) = Ok ()"
      "checked_add (rt_next_transaction rt) 1 = Some (pe_next_transaction p)"
      "identifiers_follow (pe_candidate p) (pe_next_task p) (pe_next_agent p) (pe_next_message p)"
    show thesis
      by (rule that [of "base @ extra"]) (use facts base tx in \<open>simp_all only: Suc_eq_plus1, simp\<close>)
  qed
qed

lemma publish_runtime_ok:
  assumes "runtime_ok rt" and "prepared_for rt p"
  shows "runtime_ok (publish_events rt p)"
proof -
  from assms(2) obtain kinds where
    fold: "apply_all (rt_state rt) kinds (rt_max_active rt) = Ok (pe_candidate p)"
    and val: "validate (pe_candidate p) (rt_max_active rt) = Ok ()"
    and quiet: "validate_quiescent (pe_candidate p) (rt_max_active rt) = Ok ()"
    and evs: "map te_kind (pe_events p) = kinds"
    and ids: "identifiers_follow (pe_candidate p) (pe_next_task p) (pe_next_agent p) (pe_next_message p)"
    by (rule prepared_Ok) simp
  have "team_wf (rt_state rt)" "0 < rt_max_active rt"
    "apply_all team_state_default (map te_kind (rt_event_log rt)) (rt_max_active rt) = Ok (rt_state rt)"
    using assms(1) by (auto simp: runtime_ok_def)
  then show ?thesis
    using apply_all_wf [OF fold] fold val validate_quiescent_settled [OF quiet] ids evs
    by (simp add: runtime_ok_def apply_all_append)
qed

lemma new_runtime:
  "team_runtime_new n c = Ok (rt, c') \<Longrightarrow>
     0 < n \<and> checked_add c 1 = Some c' \<and>
     rt = \<lparr>rt_max_active = n, rt_authority = c, rt_state = team_state_default, rt_event_log = [],
           rt_next_task = 1, rt_next_agent = 1, rt_next_message = 1, rt_next_transaction = 1\<rparr>"
  by (auto simp: team_runtime_new_def result_ok)

lemma recover_Ok:
  assumes "recover n c log = Ok (rt, c')"
  obtains rv where "recover_loop n recovery_start log = Ok rv" "recovery_ok n rv" "rv_log rv = log"
    "0 < n" "checked_add c 1 = Some c'"
    "identifiers_follow (rv_state rv) (rt_next_task rt) (rt_next_agent rt) (rt_next_message rt)"
    "rt_max_active rt = n" "rt_authority rt = c" "rt_state rt = rv_state rv" "rt_event_log rt = log"
    "rt_next_transaction rt = rv_transaction rv"
proof -
  from assms obtain rt0 rv where new: "team_runtime_new n c = Ok (rt0, c')"
    and loop: "recover_loop n recovery_start log = Ok rv"
    and refresh: "refresh_identifiers (rt0\<lparr>rt_state := rv_state rv, rt_event_log := rv_log rv,
            rt_next_transaction := rv_transaction rv\<rparr>) = Ok rt"
    by (auto simp: recover_def result_ok)
  have "0 < n" using new_runtime [OF new] by simp
  then have ok: "recovery_ok n rv \<and> rv_log rv = log"
    using recover_loop_ok [OF loop recovery_start_ok] by (simp add: recovery_start_def)
  show thesis
    by (rule that [OF loop]) (use ok refresh new_runtime [OF new] in
      \<open>auto simp: refresh_identifiers_def identifiers_follow_def result_ok\<close>)
qed

theorem reachable_ok: "reachable rt \<Longrightarrow> runtime_ok rt"
proof (induction rule: reachable_induct)
  case (fresh n c rt c')
  then show ?case by (auto dest!: new_runtime simp: runtime_ok_def team_wf_default)
next
  case (commit rt p)
  then show ?case by (simp add: publish_runtime_ok)
next
  case (recovered n c log rt c')
  then show ?case
  proof (cases rule: recover_Ok)
    case (1 rv)
    then show ?thesis by (simp add: runtime_ok_def recovery_ok_def)
  qed
qed

section \<open>Commit and replay agree\<close>

definition mirrors :: "team_runtime \<Rightarrow> recovery \<Rightarrow> bool" where
  "mirrors rt rv \<longleftrightarrow>
     rv_state rv = rt_state rt \<and> rv_log rv = rt_event_log rt
   \<and> rv_transaction rv = rt_next_transaction rt
   \<and> rv_sequence rv = of_nat (Suc (length (rt_event_log rt))) \<and> rv_limit rv \<le> rt_max_active rt"

lemma number_events_framed:
  assumes "i < length kinds" and "length kinds < 2 ^ 32" and "unat s + length kinds \<le> 2 ^ 64"
  shows "framed s (hd (number_events s tx kinds)) i (number_events s tx kinds ! i)"
proof -
  have kinds: "kinds \<noteq> []" using assms(1) by auto
  have "unat (of_nat i :: u64) = i" using assms(1,2) by (simp add: unat_of_nat)
  then have "checked_add s (of_nat i) = Some (s + of_nat i)"
    using assms(1,3) by (simp add: checked_add_Some_iff)
  then show ?thesis
    using assms(1) kinds by (simp add: framed_def number_events_hd number_events_nth)
qed

lemma publish_advances:
  assumes "mirrors rt rv" and "prepared_for rt p" and "Suc (length (rt_event_log rt @ pe_events p)) < 2 ^ 64"
  obtains rv' where "advanced rv (pe_events p) (rt_max_active rt) rv'" "mirrors (publish_events rt p) rv'"
    "pe_events p \<noteq> []" "length (pe_events p) = unat (te_count (hd (pe_events p)))"
proof -
  let ?s = "of_nat (Suc (length (rt_event_log rt))) :: u64"
  from assms(2) obtain kinds where kinds: "kinds \<noteq> []" "length kinds < 2 ^ 32"
    and fold: "apply_all (rt_state rt) kinds (rt_max_active rt) = Ok (pe_candidate p)"
    and val: "validate (pe_candidate p) (rt_max_active rt) = Ok ()"
    and quiet: "validate_quiescent (pe_candidate p) (rt_max_active rt) = Ok ()"
    and evs: "pe_events p = number_events ?s (Ident (rt_next_transaction rt)) kinds"
    and frame: "validate_operation_transaction (pe_events p) = Ok ()"
    and tx: "checked_add (rt_next_transaction rt) 1 = Some (pe_next_transaction p)"
    by (rule prepared_Ok)
  have s: "unat ?s + length kinds < 2 ^ 64"
    using assms(3) evs by (simp add: unat_of_nat del: of_nat_Suc)
  have len: "unat (of_nat (length kinds) :: u64) = length kinds"
    using kinds(2) by (simp add: unat_of_nat)
  have hd: "hd (pe_events p) = \<lparr>te_sequence = Ident ?s, te_transaction = Ident (rt_next_transaction rt),
      te_index = 0, te_count = of_nat (length kinds), te_kind = hd kinds\<rparr>"
    unfolding evs by (rule number_events_hd [OF kinds(1)])
  define limit where "limit = max (rv_limit rv) (active_agent_count (pe_candidate p))"
  have limit: "limit \<le> rt_max_active rt"
    using assms(1) validate_active [OF val] by (simp add: limit_def mirrors_def)
  define rv' where "rv' = \<lparr>rv_state = pe_candidate p, rv_log = rt_event_log rt @ pe_events p,
    rv_sequence = ?s + of_nat (length kinds), rv_transaction = pe_next_transaction p, rv_limit = limit\<rparr>"
  have "advanced rv (pe_events p) (rt_max_active rt) rv'"
    unfolding advanced_def
  proof (intro conjI allI impI)
    fix i assume "i < length (pe_events p)"
    then show "framed (rv_sequence rv) (hd (pe_events p)) i (pe_events p ! i)"
      using assms(1) number_events_framed [OF _ kinds(2)] s unfolding evs by (simp add: mirrors_def)
  next
    show "id_get (te_transaction (hd (pe_events p))) = rv_transaction rv"
      using assms(1) by (simp add: hd mirrors_def)
    show "validate_quiescent (rv_state rv') (rv_limit rv') = Ok ()"
      using validate_quiescent_antimono [OF quiet limit] by (simp add: rv'_def)
    show "checked_add (rv_sequence rv) (of_nat (length (pe_events p))) = Some (rv_sequence rv')"
      using assms(1) s len by (simp add: rv'_def mirrors_def evs checked_add_Some_iff del: of_nat_Suc)
  qed (use assms(1) fold val frame tx in \<open>simp_all add: rv'_def mirrors_def limit_def evs\<close>)
  moreover have "mirrors (publish_events rt p) rv'"
    using limit by (simp add: mirrors_def rv'_def evs)
  moreover have "pe_events p \<noteq> []" using kinds(1) evs by (metis length_0_conv number_events_length)
  moreover have "length (pe_events p) = unat (te_count (hd (pe_events p)))"
    using kinds(2) unfolding hd by (simp add: evs unat_of_nat)
  ultimately show thesis by (rule that)
qed

lemma reachable_replays:
  assumes "reachable rt" and "Suc (length (rt_event_log rt)) < 2 ^ 64"
  shows "\<exists>rv. recover_loop (rt_max_active rt) recovery_start (rt_event_log rt) = Ok rv \<and> mirrors rt rv"
  using assms
proof (induction rule: reachable_induct)
  case (fresh n c rt c')
  then show ?case by (auto dest!: new_runtime simp: mirrors_def recovery_start_def team_state_default_def)
next
  case (commit rt p)
  then obtain rv where rv: "recover_loop (rt_max_active rt) recovery_start (rt_event_log rt) = Ok rv"
    "mirrors rt rv" by auto
  have "Suc (length (rt_event_log rt @ pe_events p)) < 2 ^ 64" using commit.prems by simp
  from publish_advances [OF rv(2) commit.hyps(2) this] obtain rv' where
    "advanced rv (pe_events p) (rt_max_active rt) rv'" "mirrors (publish_events rt p) rv'"
    "pe_events p \<noteq> []" "length (pe_events p) = unat (te_count (hd (pe_events p)))" .
  then show ?case
    using recover_loop_append [OF rv(1)] recover_loop_chunk [of "pe_events p" rv "rt_max_active rt" rv' "[]"]
    by auto
next
  case (recovered n c log rt c')
  then show ?case
  proof (cases rule: recover_Ok)
    case (1 rv)
    then show ?thesis by (auto simp: mirrors_def recovery_ok_def)
  qed
qed

lemma recover_reachable:
  assumes "reachable rt" and "Suc (length (rt_event_log rt)) < 2 ^ 64"
    and "rt_max_active rt \<le> m" and "c < u64_max"
  shows "recover m c (rt_event_log rt) = Ok (rt\<lparr>rt_max_active := m, rt_authority := c\<rparr>, c + 1)"
proof -
  from reachable_replays [OF assms(1,2)] obtain rv where
    loop: "recover_loop (rt_max_active rt) recovery_start (rt_event_log rt) = Ok rv" and rv: "mirrors rt rv"
    by blast
  have ok: "runtime_ok rt" by (rule reachable_ok [OF assms(1)])
  have "0 < m" using ok assms(3) by (simp add: runtime_ok_def)
  moreover have "checked_add c 1 = Some (c + 1)"
    using assms(4) by (simp add: checked_add_Some_iff u64_max_def word_less_nat_alt unsigned_minus_1_eq_mask mask_eq_exp_minus_1)
  ultimately have "team_runtime_new m c =
      Ok (\<lparr>rt_max_active = m, rt_authority = c, rt_state = team_state_default, rt_event_log = [],
        rt_next_task = 1, rt_next_agent = 1, rt_next_message = 1, rt_next_transaction = 1\<rparr>, c + 1)"
    by (simp add: team_runtime_new_def)
  then show ?thesis
    using recover_loop_mono [OF loop assms(3)] rv ok
    by (cases rt) (simp add: recover_def mirrors_def refresh_identifiers_def runtime_ok_def identifiers_follow_def)
qed

end
