(* ===== verification/Team_Life.thy ===== *)
theory Team_Life
  imports Team_Reach
begin

text \<open>
  The life of one Task: which changes of status an event makes (\<open>task_step\<close>), that no event
  changes a Task's specification or Owner, that a Task only runs after its dependencies
  succeeded, and the bounds on everything a state stores.
\<close>

lemma reachable_state [consumes 1, case_names initial event]:
  assumes "reachable rt" and "P team_state_default"
    and "\<And>st e n st'. team_wf st \<Longrightarrow> P st \<Longrightarrow> apply_event st e n = Ok st' \<Longrightarrow> P st'"
  shows "P (rt_state rt)"
proof -
  have "apply_all team_state_default (map te_kind (rt_event_log rt)) (rt_max_active rt) = Ok (rt_state rt)"
    using reachable_ok [OF assms(1)] by (simp add: runtime_ok_def)
  then have "team_wf (rt_state rt) \<and> P (rt_state rt)"
    unfolding apply_all_def
    by (rule try_fold_invariant) (use assms(2,3) team_wf_default apply_event_wf in blast)+
  then show ?thesis by simp
qed

section \<open>Task transitions\<close>

inductive task_step :: "task_status \<Rightarrow> task_status \<Rightarrow> bool" where
  becomes_ready: "task_step TPending TReady"
| starts: "task_step TReady TRunning"
| succeeds: "task_step TRunning TSucceeded"
| fails: "task_step TRunning (TFailed reason)"
| is_cancelled: "\<not> task_terminal s \<Longrightarrow> task_step s (TCancelled reason)"
| is_blocked: "s = TPending \<or> s = TReady \<Longrightarrow> task_step s (TBlocked d)"
| is_requeued: "blocks_dependents s \<Longrightarrow> task_step s TPending"

lemmas task_steps = task_step.intros [THEN r_into_rtranclp [where r = task_step]]

inductive_simps task_step_from_Succeeded: "task_step TSucceeded s"

lemma succeeded_final: "task_step\<^sup>*\<^sup>* TSucceeded s \<Longrightarrow> s = TSucceeded"
  by (induction rule: rtranclp_induct) (auto simp: task_step_from_Succeeded)

definition task_moves :: "task_record \<Rightarrow> task_record \<Rightarrow> bool" where
  "task_moves r r' \<longleftrightarrow>
     tr_id r' = tr_id r \<and> tr_spec r' = tr_spec r
   \<and> (tr_owner r' = tr_owner r \<or> tr_owner r = None)
   \<and> task_step\<^sup>*\<^sup>* (tr_status r) (tr_status r')
   \<and> (tr_status r = TSucceeded \<longrightarrow> tr_completion r' = tr_completion r)"

lemma task_moves_refl [simp]: "task_moves r r"
  by (simp add: task_moves_def)

lemma task_moves_trans: "task_moves r r' \<Longrightarrow> task_moves r' r'' \<Longrightarrow> task_moves r r''"
  unfolding task_moves_def by (auto dest: succeeded_final)

lemma apply_event_task:
  assumes "apply_event st e n = Ok st'" and "bt_get (tasks st) t = Some r"
  shows "\<exists>r'. bt_get (tasks st') t = Some r' \<and> task_moves r r'"
proof (cases "creates e")
  case True
  show ?thesis
  proof (cases e)
    case (TaskCreated t' spec)
    then have "bt_get (tasks st) t' = None" "tasks st' = bt_insert t'
        \<lparr>tr_id = t', tr_spec = spec, tr_owner = None, tr_status = TPending, tr_completion = None\<rparr> (tasks st)"
      using assms(1) by (auto simp: apply_task_created_def result_ok put_task_def bt_contains_key_def)
    then show ?thesis using assms(2) by (auto simp: bt_get_insert)
  next
    case (AgentCreated a t' parent budget caps preset)
    then have "tasks st' = tasks st"
      using assms(1) by (auto simp: apply_agent_created_def result_ok put_agent_def elim!: check_agent_parent_cases)
    then show ?thesis using assms(2) by simp
  qed (use True in simp_all)
next
  case False
  show ?thesis
    using assms False
    by (cases e)
       (auto simp: quiet_apply_defs result_ok put_task_def put_agent_def bt_get_insert task_moves_def
         simp: task_steps)
qed

lemma apply_all_task:
  assumes "apply_all st es n = Ok st'" and "bt_get (tasks st) t = Some r"
  shows "\<exists>r'. bt_get (tasks st') t = Some r' \<and> task_moves r r'"
  using assms
proof (induction es arbitrary: st r)
  case (Cons e es)
  then obtain st1 where st1: "apply_event st e n = Ok st1" "apply_all st1 es n = Ok st'"
    by (auto simp: apply_all_def result_ok)
  from apply_event_task [OF st1(1) Cons.prems(2)] obtain r1 where
    "bt_get (tasks st1) t = Some r1" "task_moves r r1" by blast
  with Cons.IH [OF st1(2)] show ?case by (blast intro: task_moves_trans)
qed (auto intro: task_moves_refl)

section \<open>Nothing runs before its dependencies succeeded\<close>

definition past_waiting :: "task_status \<Rightarrow> bool" where
  "past_waiting s \<longleftrightarrow> s = TReady \<or> s = TRunning \<or> s = TSucceeded"

definition dependencies_met :: "team_state \<Rightarrow> bool" where
  "dependencies_met st \<longleftrightarrow>
     (\<forall>t r d. bt_get (tasks st) t = Some r \<longrightarrow> past_waiting (tr_status r) \<longrightarrow>
        d \<in> set (ts_dependencies (tr_spec r)) \<longrightarrow>
        (\<exists>q. bt_get (tasks st) d = Some q \<and> tr_status q = TSucceeded))"

lemma dependencies_fold:
  "try_fold (\<lambda>all d. map_ok (\<lambda>d'. all \<and> tr_status d' = TSucceeded) (get_task st d)) b ds = Ok True \<longleftrightarrow>
     b \<and> (\<forall>d \<in> set ds. \<exists>q. bt_get (tasks st) d = Some q \<and> tr_status q = TSucceeded)"
  by (induction ds arbitrary: b) (auto simp: result_ok)

lemma dependencies_succeeded_True:
  "dependencies_succeeded st t = Ok True \<longleftrightarrow>
     (\<exists>r. bt_get (tasks st) t = Some r \<and> (\<forall>d \<in> set (ts_dependencies (tr_spec r)).
        \<exists>q. bt_get (tasks st) d = Some q \<and> tr_status q = TSucceeded))"
  by (simp add: dependencies_succeeded_def result_ok dependencies_fold)

text \<open>Which event can move a Task into the runnable part of its life.\<close>

lemma enters_past_waiting:
  assumes "apply_event st e n = Ok st'" and "bt_get (tasks st') t = Some r'" and "past_waiting (tr_status r')"
  shows "(\<exists>r. bt_get (tasks st) t = Some r \<and> tr_spec r' = tr_spec r
            \<and> (past_waiting (tr_status r) \<or> dependencies_succeeded st t = Ok True))"
  using assms
  by (cases e)
     (auto simp: quiet_apply_defs apply_task_created_def apply_agent_created_def result_ok put_task_def
       put_agent_def bt_get_insert past_waiting_def split: if_splits elim!: check_agent_parent_cases)

lemma apply_event_dependencies_met:
  assumes "apply_event st e n = Ok st'" and "dependencies_met st"
  shows "dependencies_met st'"
  unfolding dependencies_met_def
proof (intro allI impI)
  fix t r' d
  assume r': "bt_get (tasks st') t = Some r'" "past_waiting (tr_status r')" "d \<in> set (ts_dependencies (tr_spec r'))"
  from enters_past_waiting [OF assms(1) r'(1,2)] obtain r where r: "bt_get (tasks st) t = Some r"
    "tr_spec r' = tr_spec r" "past_waiting (tr_status r) \<or> dependencies_succeeded st t = Ok True" by blast
  then have "\<exists>q. bt_get (tasks st) d = Some q \<and> tr_status q = TSucceeded"
    using assms(2) r'(3) by (auto simp: dependencies_met_def dependencies_succeeded_True)
  then obtain q where q: "bt_get (tasks st) d = Some q" "tr_status q = TSucceeded" by blast
  from apply_event_task [OF assms(1) q(1)] obtain q' where "bt_get (tasks st') d = Some q'" "task_moves q q'"
    by blast
  then show "\<exists>q. bt_get (tasks st') d = Some q \<and> tr_status q = TSucceeded"
    using q(2) by (auto simp: task_moves_def dest: succeeded_final)
qed

section \<open>Everything stored is within its bounds\<close>

definition task_bounded :: "task_record \<Rightarrow> bool" where
  "task_bounded r \<longleftrightarrow>
     validate_stored_task_spec (tr_spec r) = Ok ()
   \<and> (case tr_completion r of None \<Rightarrow> tr_status r \<noteq> TSucceeded | Some c \<Rightarrow> validate_capsule c = Ok ())
   \<and> (case tr_status r of TFailed reason \<Rightarrow> validate_reason reason = Ok ()
      | TCancelled reason \<Rightarrow> validate_reason reason = Ok () | _ \<Rightarrow> True)"

definition agent_bounded :: "agent_record \<Rightarrow> bool" where
  "agent_bounded a \<longleftrightarrow>
     validate_budget (ar_budget a) = Ok () \<and> validate_capabilities (ar_capabilities a) = Ok ()
   \<and> validate_preset_option (ar_preset a) = Ok ()"

definition message_bounded :: "message_view \<Rightarrow> bool" where
  "message_bounded m \<longleftrightarrow> trim (mv_body m) \<noteq> [] \<and> length (mv_body m) \<le> MAX_MESSAGE_BYTES"

definition state_bounded :: "team_state \<Rightarrow> bool" where
  "state_bounded st \<longleftrightarrow>
     (\<forall>t r. bt_get (tasks st) t = Some r \<longrightarrow> task_bounded r)
   \<and> (\<forall>a r. bt_get (agents st) a = Some r \<longrightarrow> agent_bounded r)
   \<and> (\<forall>m \<in> set (messages st). message_bounded m)"

lemma state_boundedD:
  assumes "state_bounded st"
  shows "bt_get (tasks st) t = Some r \<Longrightarrow> task_bounded r" and "bt_get (agents st) a = Some q \<Longrightarrow> agent_bounded q"
    and "m \<in> set (messages st) \<Longrightarrow> message_bounded m"
  using assms by (auto simp: state_bounded_def)

lemma put_bounded [intro!]:
  "state_bounded st \<Longrightarrow> task_bounded r \<Longrightarrow> state_bounded (put_task st t r)"
  "state_bounded st \<Longrightarrow> agent_bounded q \<Longrightarrow> state_bounded (put_agent st a q)"
  "state_bounded st \<Longrightarrow> state_bounded (st\<lparr>root := x\<rparr>)"
  "state_bounded st \<Longrightarrow> state_bounded (st\<lparr>operations := ops\<rparr>)"
  by (auto simp: state_bounded_def put_task_def put_agent_def bt_get_insert)

lemma agent_bounded_update [simp]:
  "agent_bounded (r\<lparr>ar_status := s\<rparr>) = agent_bounded r"
  "agent_bounded (r\<lparr>ar_reserved_budget := b\<rparr>) = agent_bounded r"
  by (simp_all add: agent_bounded_def)

lemma task_bounded_update:
  "task_bounded (r\<lparr>tr_owner := a\<rparr>) = task_bounded r"
  "task_bounded r \<Longrightarrow> validate_capsule c = Ok () \<Longrightarrow> task_bounded (r\<lparr>tr_completion := Some c\<rparr>)"
  "task_bounded r \<Longrightarrow> task_bounded (r\<lparr>tr_status := TPending\<rparr>)"
  "task_bounded r \<Longrightarrow> task_bounded (r\<lparr>tr_status := TPending, tr_completion := None\<rparr>)"
  "task_bounded r \<Longrightarrow> task_bounded (r\<lparr>tr_status := TReady\<rparr>)"
  "task_bounded r \<Longrightarrow> task_bounded (r\<lparr>tr_status := TRunning\<rparr>)"
  "task_bounded r \<Longrightarrow> task_bounded (r\<lparr>tr_status := TBlocked d\<rparr>)"
  "task_bounded r \<Longrightarrow> tr_completion r \<noteq> None \<Longrightarrow> task_bounded (r\<lparr>tr_status := TSucceeded\<rparr>)"
  "task_bounded r \<Longrightarrow> validate_reason x = Ok () \<Longrightarrow> task_bounded (r\<lparr>tr_status := TFailed x\<rparr>)"
  "task_bounded r \<Longrightarrow> validate_reason x = Ok () \<Longrightarrow> task_bounded (r\<lparr>tr_status := TCancelled x\<rparr>)"
  by (auto simp: task_bounded_def split: option.splits)

lemma apply_event_bounded:
  assumes "apply_event st e n = Ok st'" and "state_bounded st"
  shows "state_bounded st'"
proof (cases "creates e")
  case True
  show ?thesis
  proof (cases e)
    case (TaskCreated t spec)
    then show ?thesis
      using assms by (auto simp: apply_task_created_def result_ok task_bounded_def)
  next
    case (AgentCreated a t parent budget caps preset)
    then show ?thesis
      using assms by (auto simp: apply_agent_created_def result_ok agent_bounded_def elim!: check_agent_parent_cases)
  qed (use True in simp_all)
next
  case False
  show ?thesis
  proof (cases "\<exists>m sender to body. e = MessageSent m sender to body")
    case True
    then show ?thesis
      using assms by (auto simp: apply_message_sent_def result_ok state_bounded_def message_bounded_def)
  next
    case no_message: False
    show ?thesis
      using assms False no_message
      by (cases e)
         (auto simp: quiet_apply_defs result_ok dest: state_boundedD intro!: task_bounded_update
           simp: task_bounded_update(1))
  qed
qed

lemma state_bounded_default: "state_bounded team_state_default"
  by (simp add: state_bounded_def team_state_default_def)

end
