(* ===== verification/Team_Laws.thy ===== *)
theory Team_Laws
  imports Team_Life
begin

text \<open>
  What the whole-state checks say of a state that passes them, and the laws of the Agent Team
  derived from the invariant of reachable runtimes.
\<close>

section \<open>What validation establishes\<close>

lemma validate_taskD:
  assumes "validate st n = Ok u" and "bt_get (tasks st) t = Some r"
  obtains a q where "tr_owner r = Some a" "bt_get (agents st) a = Some q" "ar_task q = tr_id r"
    "statuses_paired (tr_status r) (ar_status q)"
proof -
  have "validate_task st r = Ok ()"
    using assms(1) bt_get_in_values [OF assms(2)] by (auto simp: validate_def result_ok split: if_splits)
  then show thesis using that by (auto simp: validate_task_def result_ok)
qed

lemma validate_agentD:
  assumes "validate st n = Ok u" and "bt_get (agents st) a = Some q"
  obtains r where "bt_get (tasks st) (ar_task q) = Some r" "tr_owner r = Some (ar_id q)"
    "budget_contains (ar_budget q) (ar_reserved_budget q)"
    "budget_sum_from budget_default (map ar_budget (children st (ar_id q))) = Some (ar_reserved_budget q)"
    "agent_terminal (ar_status q) \<Longrightarrow> \<not> outstanding_children st (ar_id q)"
proof -
  have "validate_agent st q = Ok ()"
    using assms(1) bt_get_in_values [OF assms(2)] by (auto simp: validate_def result_ok split: if_splits)
  then show thesis using that by (auto simp: validate_agent_def result_ok)
qed

lemma budget_sum_from_SomeD:
  "budget_sum_from b bs = Some s \<Longrightarrow>
     unat (token_units s) = unat (token_units b) + sum_list (map (unat \<circ> token_units) bs)
   \<and> unat (tool_calls s) = unat (tool_calls b) + sum_list (map (unat \<circ> tool_calls) bs)"
proof (induction b bs rule: budget_sum_from.induct)
  case (2 acc b bs)
  then show ?case by (auto dest: budget_checked_add_SomeD split: option.splits)
qed simp

lemma reachableD:
  assumes "reachable rt"
  shows "team_wf (rt_state rt)" "maps_ok (rt_state rt)" "tree_inv (tree_of (rt_state rt))"
    "validate (rt_state rt) (rt_max_active rt) = Ok ()" "pending_settled (rt_state rt)"
  using reachable_ok [OF assms] by (auto simp: runtime_ok_def team_wf_def)

section \<open>Recovery\<close>

lemma replay_fold_returns: "team_wf st \<Longrightarrow> try_fold (replay_event m s first) st ies \<noteq> Diverges"
proof (rule try_fold_returns [where P = team_wf])
  fix st ie assume "team_wf st"
  then show "replay_event m s first st ie \<noteq> Diverges"
    using apply_event_returns by (cases ie) (auto simp: replay_event_def andthen_eq_Diverges)
next
  fix st ie st' assume "team_wf st" and "replay_event m s first st ie = Ok st'"
  then show "team_wf st'" by (cases ie) (auto simp: replay_event_Ok intro: apply_event_wf)
qed

lemma recover_transaction_returns: "team_wf (rv_state rv) \<Longrightarrow> recover_transaction m rv first evs \<noteq> Diverges"
  using replay_fold_returns
  by (auto simp: recover_transaction_def Let_def andthen_eq_Diverges if_Err_eq_Diverges)

lemma recover_loop_returns: "team_wf (rv_state rv) \<Longrightarrow> recover_loop m rv evs \<noteq> Diverges"
proof (induction m rv evs rule: recover_loop.induct)
  case (2 m rv first rest)
  have "team_wf (rv_state rv')" if "recover_transaction m rv first (first # rest) = Ok (rv', k)" for rv' k
    using that "2.prems" unfolding recover_transaction_Ok advanced_def by (auto intro: apply_all_wf)
  with 2 recover_transaction_returns [OF "2.prems"] show ?case
    by (auto simp: recover_loop.simps(2) andthen_eq_Diverges)
qed simp

lemma refresh_identifiers_returns [simp]: "refresh_identifiers rt \<noteq> Diverges"
  by (auto simp: refresh_identifiers_def andthen_eq_Diverges)

lemma team_runtime_new_returns [simp]: "team_runtime_new n c \<noteq> Diverges"
  by (auto simp: team_runtime_new_def andthen_eq_Diverges)

section \<open>Owners\<close>

lemma owner_unique:
  assumes "validate st n = Ok u" and "maps_ok st" and "bt_get (agents st) a = Some q"
    and "bt_get (tasks st) (ar_task q) = Some r"
  shows "tr_owner r = Some a"
proof -
  from validate_agentD [OF assms(1,3)] obtain r' where
    "bt_get (tasks st) (ar_task q) = Some r'" "tr_owner r' = Some (ar_id q)" .
  with assms(4) maps_okD(5) [OF assms(2,3)] show ?thesis by simp
qed

section \<open>Dependencies\<close>

lemma first_failed_in_None:
  "first_failed_in st ds = Ok None \<longleftrightarrow>
     (\<forall>d \<in> set ds. \<exists>q. bt_get (tasks st) d = Some q \<and> \<not> blocks_dependents (tr_status q))"
  by (induction ds) (auto simp: result_ok split: if_splits)

lemma dependencies_succeeded_False:
  assumes "dependencies_succeeded st t \<noteq> Ok True" and "bt_get (tasks st) t = Some r"
    and "\<forall>d \<in> set (ts_dependencies (tr_spec r)). \<exists>q. bt_get (tasks st) d = Some q"
  shows "\<exists>d \<in> set (ts_dependencies (tr_spec r)). \<exists>q. bt_get (tasks st) d = Some q \<and> tr_status q \<noteq> TSucceeded"
  using assms unfolding dependencies_succeeded_True by blast

lemma check_pending_Ok:
  "check_pending st t = Ok u \<Longrightarrow>
     first_failed_dependency st (tr_id t) = Ok None \<and> dependencies_succeeded st (tr_id t) = Ok False"
  by (auto simp: check_pending_def result_ok split: if_splits)

section \<open>Authority\<close>

lemma ancestor_scope:
  assumes "tree_inv T" and "ancestor T a b" and "at_nodes T a = Some an" and "at_nodes T b = Some bn"
    and "at_specs T (an_task an) = Some aspec" and "at_specs T (an_task bn) = Some bspec"
  shows "ts_scope bspec |\<subseteq>| ts_scope aspec"
  using assms(2-)
proof (induction arbitrary: bn bspec rule: ancestor.induct)
  case (direct b n a')
  from tree_inv_parent [OF assms(1) direct.hyps] obtain pn pspec spec where
    "at_nodes T a' = Some pn" "at_specs T (an_task pn) = Some pspec"
    "at_specs T (an_task n) = Some spec" "ts_scope spec |\<subseteq>| ts_scope pspec" by blast
  with direct show ?case by simp
next
  case (above b n p a')
  from tree_inv_parent [OF assms(1) above.hyps(1,2)] obtain pn pspec spec where
    pn: "at_nodes T p = Some pn" "at_specs T (an_task pn) = Some pspec"
    "at_specs T (an_task n) = Some spec" "ts_scope spec |\<subseteq>| ts_scope pspec" by blast
  have "ts_scope pspec |\<subseteq>| ts_scope aspec"
    using above.IH [OF above.prems(1) pn(1) above.prems(3) pn(2)] .
  with pn above show ?case by auto
qed

section \<open>Operations commit once\<close>

definition commits_operation :: "operation_id \<Rightarrow> team_event_kind \<Rightarrow> bool" where
  "commits_operation op e \<longleftrightarrow> (case e of OperationCommitted op' _ \<Rightarrow> op' = op | _ \<Rightarrow> False)"

lemma apply_event_operations:
  assumes "apply_event st e n = Ok st'"
  shows "bt_get (operations st) op \<noteq> None \<Longrightarrow> bt_get (operations st') op \<noteq> None \<and> \<not> commits_operation op e"
    and "commits_operation op e \<Longrightarrow> bt_get (operations st') op \<noteq> None"
  using assms
  by (cases e;
      auto simp: commits_operation_def quiet_apply_defs apply_task_created_def apply_agent_created_def
        result_ok put_task_def put_agent_def bt_get_insert bt_contains_key_def
        split: if_splits elim!: check_agent_parent_cases)+

lemma apply_all_commits_once:
  assumes "apply_all st es n = Ok st'"
  shows "length (filter (commits_operation op) es) \<le> (if bt_get (operations st) op = None then 1 else 0)"
  using assms
proof (induction es arbitrary: st)
  case (Cons e es)
  then obtain st1 where st1: "apply_event st e n = Ok st1" "apply_all st1 es n = Ok st'"
    by (auto simp: apply_all_def result_ok)
  show ?case
    using Cons.IH [OF st1(2)] apply_event_operations [OF st1(1), of op] by (auto split: if_splits)
qed simp

end
