(* ===== verification/Team_Demo.thy ===== *)
theory Team_Demo
  imports Team_Reach
begin

text \<open>
  One concrete Team, executed by the model.  A root Agent with two slots delegates three Tasks,
  the last through one of its children.  The theorems about reachable runtimes are applied to it.
\<close>

definition dispatch_all :: "team_runtime \<Rightarrow> team_command list \<Rightarrow> team_runtime team_result" where
  "dispatch_all rt cmds = try_fold (\<lambda>rt cmd. map_ok fst (dispatch rt cmd)) rt cmds"

lemma reachable_dispatch_all: "dispatch_all rt cmds = Ok rt' \<Longrightarrow> reachable rt \<Longrightarrow> reachable rt'"
  unfolding dispatch_all_def
  by (erule try_fold_invariant) (auto simp: result_ok intro: reachable_dispatch)

definition demo_start :: team_runtime where
  "demo_start = \<lparr>rt_max_active = 2, rt_authority = 7, rt_state = team_state_default, rt_event_log = [],
     rt_next_task = 1, rt_next_agent = 1, rt_next_message = 1, rt_next_transaction = 1\<rparr>"

definition demo_spec :: "string \<Rightarrow> task_id list \<Rightarrow> task_spec" where
  "demo_spec title deps = \<lparr>ts_title = title, ts_scope = {|''core''|}, ts_dependencies = deps\<rparr>"

definition demo_session :: "u64 \<Rightarrow> agent_session" where
  "demo_session a = \<lparr>as_agent = Ident a, as_authority = 7\<rparr>"

definition demo_budget :: "u64 \<Rightarrow> u32 \<Rightarrow> resource_budget" where
  "demo_budget t c = \<lparr>token_units = t, tool_calls = c\<rparr>"

definition demo_delegate :: "u64 \<Rightarrow> string \<Rightarrow> task_id list \<Rightarrow> team_command" where
  "demo_delegate parent title deps =
     Delegate (demo_session parent) (demo_spec title deps) (demo_budget 10 1) {|WorkspaceRead|}"

definition demo_commands :: "team_command list" where
  "demo_commands =
     [AdmitRoot (demo_spec ''root'' []) (demo_budget 100 10) {|WorkspaceRead, Process|},
      demo_delegate 1 ''analyse'' [], demo_delegate 1 ''report'' [Ident 2],
      demo_delegate 2 ''check'' [Ident 3]]"

definition demo :: team_runtime where
  "demo = (case dispatch_all demo_start demo_commands of Ok rt \<Rightarrow> rt | _ \<Rightarrow> demo_start)"

definition demo_task_record :: "u64 \<Rightarrow> string \<Rightarrow> task_id list \<Rightarrow> task_status \<Rightarrow> task_record" where
  "demo_task_record t title deps s =
     \<lparr>tr_id = Ident t, tr_spec = demo_spec title deps, tr_owner = Some (Ident t), tr_status = s,
      tr_completion = None\<rparr>"

definition demo_child :: "u64 \<Rightarrow> u64 \<Rightarrow> agent_status \<Rightarrow> u64 \<Rightarrow> u32 \<Rightarrow> agent_record" where
  "demo_child a p s t c =
     \<lparr>ar_id = Ident a, ar_parent = Some (Ident p), ar_task = Ident a, ar_status = s,
      ar_budget = demo_budget 10 1, ar_reserved_budget = demo_budget t c,
      ar_capabilities = {|WorkspaceRead|}, ar_preset = None\<rparr>"

definition demo_root :: agent_record where
  "demo_root =
     \<lparr>ar_id = Ident 1, ar_parent = None, ar_task = Ident 1, ar_status = Active,
      ar_budget = demo_budget 100 10, ar_reserved_budget = demo_budget 20 2,
      ar_capabilities = {|WorkspaceRead, Process|}, ar_preset = None\<rparr>"

lemma demo_runs: "is_ok (dispatch_all demo_start demo_commands)"
  by code_simp

lemma demo_state:
  "rt_state demo = \<lparr>root = Some (Ident 1),
     tasks = [(Ident 1, demo_task_record 1 ''root'' [] TRunning),
              (Ident 2, demo_task_record 2 ''analyse'' [] TRunning),
              (Ident 3, demo_task_record 3 ''report'' [Ident 2] TPending),
              (Ident 4, demo_task_record 4 ''check'' [Ident 3] TPending)],
     agents = [(Ident 1, demo_root), (Ident 2, demo_child 2 1 Active 10 1),
               (Ident 3, demo_child 3 1 Dormant 0 0), (Ident 4, demo_child 4 2 Dormant 0 0)],
     messages = [], operations = []\<rparr>"
  by code_simp

lemma demo_limits: "rt_max_active demo = 2 \<and> rt_authority demo = 7 \<and> length (rt_event_log demo) = 21"
  by code_simp

lemma demo_reachable: "reachable demo"
proof -
  obtain rt where rt: "dispatch_all demo_start demo_commands = Ok rt"
    using demo_runs by (auto simp: is_ok_iff)
  have "team_runtime_new 2 7 = Ok (demo_start, 8)"
    by (simp add: team_runtime_new_def demo_start_def checked_add_code)
  then have "reachable demo_start" by (rule reachable.fresh)
  then show ?thesis using reachable_dispatch_all [OF rt] rt by (simp add: demo_def)
qed

lemma demo_gets [simp]:
  "bt_get (tasks (rt_state demo)) (Ident 2) = Some (demo_task_record 2 ''analyse'' [] TRunning)"
  "bt_get (tasks (rt_state demo)) (Ident 3) = Some (demo_task_record 3 ''report'' [Ident 2] TPending)"
  "bt_get (tasks (rt_state demo)) (Ident 4) = Some (demo_task_record 4 ''check'' [Ident 3] TPending)"
  "bt_get (agents (rt_state demo)) (Ident 1) = Some demo_root"
  "bt_get (agents (rt_state demo)) (Ident 2) = Some (demo_child 2 1 Active 10 1)"
  "bt_get (agents (rt_state demo)) (Ident 4) = Some (demo_child 4 2 Dormant 0 0)"
  by (simp_all add: demo_state bt_get_def)

text \<open>The root is an ancestor of the Agent its child delegated.\<close>

lemma demo_ancestor: "ancestor (tree_of (rt_state demo)) (Ident 1) (Ident 4)"
  by (rule ancestor.above [where p = "Ident 2" and n = "node_of (demo_child 4 2 Dormant 0 0)"])
     (auto simp: demo_child_def intro: ancestor.direct)

text \<open>The same Team once the first child has completed: its dependent runs.\<close>

definition demo_capsule :: completion_capsule where
  "demo_capsule = \<lparr>cc_outcome = ''done'', cc_evidence = [''log''], cc_changes = [], cc_tests = [],
     cc_decisions = [], cc_blockers = [], cc_artifacts = [], cc_residual_risks = []\<rparr>"

definition demo_finish :: "team_command list" where
  "demo_finish = [Cancel (demo_session 4) ''late'', Complete (demo_session 2) demo_capsule]"

definition demo_done :: team_runtime where
  "demo_done = (case dispatch_all demo demo_finish of Ok rt \<Rightarrow> rt | _ \<Rightarrow> demo)"

lemma demo_finish_runs: "is_ok (dispatch_all demo demo_finish)"
  by code_simp

lemma demo_done_reachable: "reachable demo_done"
proof -
  obtain rt where rt: "dispatch_all demo demo_finish = Ok rt"
    using demo_finish_runs by (auto simp: is_ok_iff)
  then show ?thesis using reachable_dispatch_all [OF rt demo_reachable] by (simp add: demo_done_def)
qed

lemma demo_done_report:
  "bt_get (tasks (rt_state demo_done)) (Ident 3) = Some (demo_task_record 3 ''report'' [Ident 2] TRunning)"
  by code_simp

end
