(* ===== verification/Team_Claims.thy ===== *)
theory Team_Claims
  imports Team_Laws Team_Demo
begin

text \<open>
  The properties of the Agent Team, each with the input at which its hypotheses hold.
\<close>

section \<open>Recovery\<close>

text \<open>C1 (functional).  Replaying the event log of any reachable runtime with
  the same or a larger limit of Active Agents rebuilds exactly that runtime: state, log and the
  next identifiers; only the authority, hence every session, is new.\<close>

theorem recovery_restores_runtime:
  assumes "reachable rt" and "Suc (length (rt_event_log rt)) < 2 ^ 64"
    and "rt_max_active rt \<le> m" and "c < u64_max"
  shows "recover m c (rt_event_log rt) = Ok (rt\<lparr>rt_max_active := m, rt_authority := c\<rparr>, c + 1)"
  by (rule recover_reachable [OF assms])

theorem recovery_restores_runtime_witness:
  "recover 3 9 (rt_event_log demo) = Ok (demo\<lparr>rt_max_active := 3, rt_authority := 9\<rparr>, 10)"
proof -
  have "(9 :: u64) < u64_max" by (simp add: u64_max_def)
  then show ?thesis
    using recovery_restores_runtime [OF demo_reachable, of 3 9] demo_limits by simp
qed

text \<open>A log that \<open>recover\<close> accepts becomes the log of the
  runtime, its sequence numbers count from one without a gap, its fold is the state, and the
  runtime gets an authority no earlier runtime of the process had.\<close>

theorem recovery_accepts_contiguous:
  assumes "recover m c log = Ok (rt, c')"
  shows "rt_event_log rt = log \<and> numbered log \<and> c < c' \<and> rt_authority rt = c
    \<and> try_fold (\<lambda>st e. apply_event st e m) team_state_default (map te_kind log) = Ok (rt_state rt)"
proof (rule recover_Ok [OF assms])
  fix rv
  assume "recovery_ok m rv" "rv_log rv = log" "checked_add c 1 = Some c'" "rt_authority rt = c"
    "rt_state rt = rv_state rv" "rt_event_log rt = log"
  then show ?thesis
    using checked_add_one_gt [of c c'] by (simp add: recovery_ok_def apply_all_def)
qed

theorem recovery_accepts_contiguous_witness: "numbered (rt_event_log demo)"
proof -
  have "(9 :: u64) < u64_max" by (simp add: u64_max_def)
  then have "recover 3 9 (rt_event_log demo) = Ok (demo\<lparr>rt_max_active := 3, rt_authority := 9\<rparr>, 9 + 1)"
    using demo_limits by (intro recover_reachable demo_reachable) auto
  from recovery_accepts_contiguous [OF this] show ?thesis by simp
qed

text \<open>Recovery returns on every log, well formed or not.\<close>

theorem recovery_returns: "recover m c log \<noteq> Diverges"
proof -
  have "recover_loop m recovery_start log \<noteq> Diverges"
    by (rule recover_loop_returns) (simp add: recovery_start_def team_wf_default)
  then show ?thesis by (auto simp: recover_def andthen_eq_Diverges)
qed

text \<open>C31 (termination).  Every command, durable operation and acknowledgement of a
  reachable runtime returns: the walk to the root and the activation loop end.\<close>

theorem commands_return:
  assumes "reachable rt"
  shows "dispatch rt cmd \<noteq> Diverges \<and> prepare_operation rt op cmd \<noteq> Diverges
    \<and> prepare_operation_acknowledgement rt op \<noteq> Diverges"
  using prepare_returns prepare_operation_returns prepare_operation_acknowledgement_returns
    reachableD(1) [OF assms]
  by (auto simp: dispatch_def andthen_eq_Diverges)

theorem commands_return_witness: "dispatch demo (demo_delegate 1 ''more'' []) \<noteq> Diverges"
  using commands_return [OF demo_reachable] by blast

section \<open>Authority\<close>

text \<open>C13 (refinement).  Seen as the abstract authority tree, a command only takes
  \<open>tree_step\<close>s: it adds Tasks and Agents and never edits the authority of existing ones.\<close>

theorem commands_refine_tree:
  assumes "reachable rt" and "dispatch rt cmd = Ok (rt', commit)"
  shows "tree_step\<^sup>*\<^sup>* (tree_of (rt_state rt)) (tree_of (rt_state rt'))"
proof (rule dispatch_Ok [OF assms(2)])
  fix p assume rt': "rt' = publish_events rt (fst p)" and "prepared_for rt (fst p)"
  then obtain kinds where "apply_all (rt_state rt) kinds (rt_max_active rt) = Ok (pe_candidate (fst p))"
    by (blast elim: prepared_Ok)
  from apply_all_tree [OF this reachableD(2) [OF assms(1)]] show ?thesis by (simp add: rt')
qed

definition demo_next :: team_runtime where
  "demo_next = (case dispatch demo (demo_delegate 1 ''more'' []) of Ok (rt, _) \<Rightarrow> rt | _ \<Rightarrow> demo)"

lemma demo_next_runs: "is_ok (dispatch demo (demo_delegate 1 ''more'' []))"
  by code_simp

lemma demo_next_step:
  obtains commit where "dispatch demo (demo_delegate 1 ''more'' []) = Ok (demo_next, commit)"
  using demo_next_runs by (auto simp: demo_next_def is_ok_iff)

theorem commands_refine_tree_witness:
  "tree_step\<^sup>*\<^sup>* (tree_of (rt_state demo)) (tree_of (rt_state demo_next))"
  by (rule demo_next_step) (rule commands_refine_tree [OF demo_reachable])

text \<open>C11 (safety).  Along every chain of delegation, capabilities and scope only
  shrink: an Agent never holds a capability that any of its ancestors lacks.\<close>

theorem authority_attenuates:
  assumes "reachable rt" and "ancestor (tree_of (rt_state rt)) a b"
    and "bt_get (agents (rt_state rt)) a = Some ra" and "bt_get (agents (rt_state rt)) b = Some rb"
    and "bt_get (tasks (rt_state rt)) (ar_task ra) = Some ta" and "bt_get (tasks (rt_state rt)) (ar_task rb) = Some tb"
  shows "ar_capabilities rb |\<subseteq>| ar_capabilities ra \<and> ts_scope (tr_spec tb) |\<subseteq>| ts_scope (tr_spec ta)"
  using ancestor_attenuates [OF reachableD(3) [OF assms(1)] assms(2), of "node_of ra" "node_of rb"]
    ancestor_scope [OF reachableD(3) [OF assms(1)] assms(2), of "node_of ra" "node_of rb" "tr_spec ta" "tr_spec tb"]
    assms(3-) by simp

theorem authority_attenuates_witness:
  "ar_capabilities (demo_child 4 2 Dormant 0 0) |\<subseteq>| ar_capabilities demo_root"
proof -
  have "bt_get (tasks (rt_state demo)) (ar_task demo_root) = Some (demo_task_record 1 ''root'' [] TRunning)"
    by (simp add: demo_state bt_get_def demo_root_def)
  moreover have "bt_get (tasks (rt_state demo)) (ar_task (demo_child 4 2 Dormant 0 0)) =
      Some (demo_task_record 4 ''check'' [Ident 3] TPending)"
    by (simp add: demo_child_def)
  ultimately show ?thesis
    using authority_attenuates [OF demo_reachable demo_ancestor] by simp
qed

text \<open>C12 (bounds).  No Agent hands out more than it has: the budgets of its children
  add up, without wrapping, to at most its own, in tokens and in tool calls.\<close>

theorem budgets_conserved:
  assumes "reachable rt" and "bt_get (agents (rt_state rt)) a = Some q"
  shows "sum_list (map (unat \<circ> token_units \<circ> ar_budget) (children (rt_state rt) a)) \<le> unat (token_units (ar_budget q))
    \<and> sum_list (map (unat \<circ> tool_calls \<circ> ar_budget) (children (rt_state rt) a)) \<le> unat (tool_calls (ar_budget q))"
proof (rule validate_agentD [OF reachableD(4) [OF assms(1)] assms(2)])
  assume "budget_contains (ar_budget q) (ar_reserved_budget q)"
    and "budget_sum_from budget_default (map ar_budget (children (rt_state rt) (ar_id q))) = Some (ar_reserved_budget q)"
  moreover have "ar_id q = a" using maps_okD(5) [OF reachableD(2) [OF assms(1)] assms(2)] .
  ultimately show ?thesis
    using budget_sum_from_SomeD budget_containsD by (fastforce simp: budget_default_def comp_assoc)
qed

theorem budgets_conserved_witness:
  "sum_list (map (unat \<circ> token_units \<circ> ar_budget) (children (rt_state demo) (Ident 1))) \<le> 100"
  using budgets_conserved [OF demo_reachable demo_gets(4)] by (simp add: demo_root_def demo_budget_def)

definition command_session :: "team_command \<Rightarrow> agent_session option" where
  "command_session cmd = (case cmd of AdmitRoot _ _ _ \<Rightarrow> None | Delegate s _ _ _ \<Rightarrow> Some s
     | DelegateWithModelPreset s _ _ _ _ \<Rightarrow> Some s | SendMessage s _ _ \<Rightarrow> Some s | Complete s _ \<Rightarrow> Some s
     | Fail s _ \<Rightarrow> Some s | Cancel s _ \<Rightarrow> Some s | Retry s _ \<Rightarrow> Some s)"

text \<open>C25 (error).  After a recovery, a session that carries any other authority
  than the recovered runtime's, such as every session issued before, is refused by each command
  that acts for an Agent, and no event is prepared.\<close>

theorem foreign_sessions_rejected:
  assumes "recover m c log = Ok (rt, c')" and "command_session cmd = Some s" and "as_authority s \<noteq> c"
  shows "dispatch rt cmd = Err (InvalidAgentSession (as_agent s))
    \<and> prepare_operation rt op cmd \<noteq> Ok p"
proof -
  have "rt_authority rt = c" by (rule recover_Ok [OF assms(1)])
  then have "authenticate rt s = Err (InvalidAgentSession (as_agent s))"
    using assms(3) by (simp add: authenticate_def)
  then have "plan rt cmd = Err (InvalidAgentSession (as_agent s))"
    using assms(2) by (cases cmd) (auto simp: command_session_def)
  then show ?thesis by (simp add: dispatch_def prepare_def prepare_operation_def result_ok)
qed

theorem foreign_sessions_rejected_witness:
  "dispatch (demo\<lparr>rt_max_active := 3, rt_authority := 9\<rparr>) (Fail (demo_session 1) ''stop'')
     = Err (InvalidAgentSession (Ident 1))"
proof -
  have "(9 :: u64) < u64_max" by (simp add: u64_max_def)
  then have "recover 3 9 (rt_event_log demo) = Ok (demo\<lparr>rt_max_active := 3, rt_authority := 9\<rparr>, 9 + 1)"
    using demo_limits by (intro recover_reachable demo_reachable) auto
  from foreign_sessions_rejected [OF this, of "Fail (demo_session 1) ''stop''" "demo_session 1"]
  show ?thesis by (simp add: command_session_def demo_session_def)
qed

section \<open>Tasks, Owners and dependencies\<close>

text \<open>A Task depends on existing Tasks with smaller identifiers
  only, so the graph of explicit dependencies is acyclic; and it never depends on the Task of an
  Agent above its Owner.\<close>

theorem dependencies_precede:
  assumes "reachable rt" and "bt_get (tasks (rt_state rt)) t = Some r" and "d \<in> set (ts_dependencies (tr_spec r))"
  shows "d < t \<and> bt_contains_key (tasks (rt_state rt)) d
    \<and> (\<forall>a ra b rb. ancestor (tree_of (rt_state rt)) a b \<longrightarrow> bt_get (agents (rt_state rt)) a = Some ra \<longrightarrow>
        bt_get (agents (rt_state rt)) b = Some rb \<longrightarrow> ar_task rb = t \<longrightarrow> ar_task ra \<noteq> d)"
proof -
  let ?T = "tree_of (rt_state rt)"
  have spec: "at_specs ?T t = Some (tr_spec r)" using assms(2) by simp
  note inv = reachableD(3) [OF assms(1)]
  have "d < t" "d \<in> dom (at_specs ?T)" using tree_inv_dependency [OF inv spec assms(3)] .
  moreover have "ar_task ra \<noteq> d" if "ancestor ?T a b" "bt_get (agents (rt_state rt)) a = Some ra"
    "bt_get (agents (rt_state rt)) b = Some rb" "ar_task rb = t" for a ra b rb
    using tree_inv_ancestor [OF inv that(1), of "node_of ra" "node_of rb" "tr_spec r"] that assms(2,3) by auto
  ultimately show ?thesis by (auto simp: bt_contains_key_def)
qed

theorem dependencies_precede_witness: "(Ident 3 :: task_id) < Ident 4 \<and> bt_contains_key (tasks (rt_state demo)) (Ident 3)"
  using dependencies_precede [OF demo_reachable demo_gets(3), of "Ident 3"]
  by (simp add: demo_task_record_def demo_spec_def)

text \<open>C29 (invariant).  Every Task has exactly one Owner: one Agent works on it, it is the
  recorded Owner, and the states of the two are a row of the documented table.\<close>

theorem one_owner:
  assumes "reachable rt" and "bt_get (tasks (rt_state rt)) t = Some r"
  shows "\<exists>a q. tr_owner r = Some a \<and> bt_get (agents (rt_state rt)) a = Some q \<and> ar_task q = t
    \<and> statuses_paired (tr_status r) (ar_status q)
    \<and> (\<forall>b p. bt_get (agents (rt_state rt)) b = Some p \<longrightarrow> ar_task p = t \<longrightarrow> b = a)"
proof (rule validate_taskD [OF reachableD(4) [OF assms(1)] assms(2)])
  fix a q
  assume aq: "tr_owner r = Some a" "bt_get (agents (rt_state rt)) a = Some q" "ar_task q = tr_id r"
    "statuses_paired (tr_status r) (ar_status q)"
  have "tr_id r = t" using maps_okD(4) [OF reachableD(2) [OF assms(1)] assms(2)] .
  moreover have "b = a" if "bt_get (agents (rt_state rt)) b = Some p" "ar_task p = t" for b p
    using owner_unique [OF reachableD(4,2) [OF assms(1)] that(1)] that(2) assms(2) aq(1) by simp
  ultimately show ?thesis using aq by metis
qed

theorem one_owner_witness:
  "\<exists>a q. tr_owner (demo_task_record 4 ''check'' [Ident 3] TPending) = Some a
     \<and> bt_get (agents (rt_state demo)) a = Some q \<and> ar_task q = Ident 4"
  using one_owner [OF demo_reachable demo_gets(3)] by blast

text \<open>C23 (safety).  A Task is Ready, Running or Succeeded only after every
  Task it depends on has succeeded.\<close>

theorem work_waits_for_dependencies:
  assumes "reachable rt" and "bt_get (tasks (rt_state rt)) t = Some r"
    and "tr_status r = TReady \<or> tr_status r = TRunning \<or> tr_status r = TSucceeded"
    and "d \<in> set (ts_dependencies (tr_spec r))"
  shows "\<exists>q. bt_get (tasks (rt_state rt)) d = Some q \<and> tr_status q = TSucceeded"
proof -
  have "dependencies_met (rt_state rt)"
    using assms(1)
  proof (induction rule: reachable_state)
    case initial
    show ?case by (simp add: dependencies_met_def team_state_default_def)
  next
    case (event st e n st')
    then show ?case by (blast intro: apply_event_dependencies_met)
  qed
  then show ?thesis using assms(2-) unfolding dependencies_met_def past_waiting_def by blast
qed

theorem work_waits_for_dependencies_witness:
  "\<exists>q. bt_get (tasks (rt_state demo_done)) (Ident 2) = Some q \<and> tr_status q = TSucceeded"
  using work_waits_for_dependencies [OF demo_done_reachable demo_done_report, of "Ident 2"]
  by (simp add: demo_task_record_def demo_spec_def)

text \<open>A Pending Task waits for something: some dependency has not
  succeeded, and none has failed, was cancelled or is blocked, for then the Task would have been
  blocked in the same transaction.\<close>

theorem pending_means_waiting:
  assumes "reachable rt" and "bt_get (tasks (rt_state rt)) t = Some r" and "tr_status r = TPending"
  shows "(\<forall>d \<in> set (ts_dependencies (tr_spec r)).
        \<exists>q. bt_get (tasks (rt_state rt)) d = Some q \<and> \<not> blocks_dependents (tr_status q))
    \<and> (\<exists>d \<in> set (ts_dependencies (tr_spec r)).
        \<exists>q. bt_get (tasks (rt_state rt)) d = Some q \<and> tr_status q \<noteq> TSucceeded)"
proof -
  let ?st = "rt_state rt"
  have id: "tr_id r = t" using maps_okD(4) [OF reachableD(2) [OF assms(1)] assms(2)] .
  have "check_pending ?st r = Ok ()"
    using reachableD(5) [OF assms(1)] bt_get_in_values [OF assms(2)] assms(3) by (simp add: pending_settled_def)
  then have none: "first_failed_dependency ?st t = Ok None" and "dependencies_succeeded ?st t = Ok False"
    using check_pending_Ok [of ?st r] id by auto
  moreover from none have ok: "\<forall>d \<in> set (ts_dependencies (tr_spec r)).
        \<exists>q. bt_get (tasks ?st) d = Some q \<and> \<not> blocks_dependents (tr_status q)"
    using assms(2) by (simp add: first_failed_dependency_def result_ok first_failed_in_None)
  moreover have "\<forall>d \<in> set (ts_dependencies (tr_spec r)). \<exists>q. bt_get (tasks ?st) d = Some q"
    using ok by blast
  ultimately show ?thesis using dependencies_succeeded_False [OF _ assms(2)] by simp
qed

theorem pending_means_waiting_witness:
  "\<exists>d \<in> {Ident 3}. \<exists>q. bt_get (tasks (rt_state demo)) d = Some q \<and> tr_status q \<noteq> TSucceeded"
  using pending_means_waiting [OF demo_reachable demo_gets(3)] by (simp add: demo_task_record_def demo_spec_def)



section \<open>Scheduling\<close>



text \<open>An Agent that succeeded, failed or was cancelled has no
  child that is still Dormant, Active or Blocked.\<close>

theorem parents_outlive_children:
  assumes "reachable rt" and "bt_get (agents (rt_state rt)) c = Some q" and "ar_parent q = Some a"
    and "\<not> agent_terminal (ar_status q)"
  shows "\<exists>p. bt_get (agents (rt_state rt)) a = Some p \<and> \<not> agent_terminal (ar_status p)"
proof -
  have "at_nodes (tree_of (rt_state rt)) c = Some (node_of q)" using assms(2) by simp
  from tree_inv_parent [OF reachableD(3) [OF assms(1)] this] assms(3) obtain p where
    p: "bt_get (agents (rt_state rt)) a = Some p" by fastforce
  have "\<not> agent_terminal (ar_status p)"
  proof (rule validate_agentD [OF reachableD(4) [OF assms(1)] p])
    assume "agent_terminal (ar_status p) \<Longrightarrow> \<not> outstanding_children (rt_state rt) (ar_id p)"
    moreover have "outstanding_children (rt_state rt) (ar_id p)"
      using maps_okD(5) [OF reachableD(2) [OF assms(1)] p] bt_get_in_values [OF assms(2)] assms(3,4)
      by (auto simp: outstanding_children_def list_ex_iff)
    ultimately show ?thesis by blast
  qed
  with p show ?thesis by blast
qed

theorem parents_outlive_children_witness:
  "\<exists>p. bt_get (agents (rt_state demo)) (Ident 2) = Some p \<and> \<not> agent_terminal (ar_status p)"
  using parents_outlive_children [OF demo_reachable demo_gets(6), of "Ident 2"] by (simp add: demo_child_def)

section \<open>Stored data and operations\<close>

text \<open>Everything a reachable runtime stores obeys the documented
  bounds: Task specifications, capsules and reasons, budgets and capabilities, message bodies; and
  a succeeded Task has a capsule.\<close>

theorem stored_data_bounded:
  assumes "reachable rt"
  shows "state_bounded (rt_state rt)"
  using assms by (induction rule: reachable_state) (auto intro: apply_event_bounded simp: state_bounded_default)

theorem stored_data_bounded_witness: "task_bounded (demo_task_record 4 ''check'' [Ident 3] TPending)"
  by (rule state_boundedD(1) [OF stored_data_bounded [OF demo_reachable] demo_gets(3)])

text \<open>The log of a reachable runtime commits every durable
  operation at most once.\<close>

theorem operations_commit_once:
  assumes "reachable rt"
  shows "length (filter (\<lambda>e. commits_operation op (te_kind e)) (rt_event_log rt)) \<le> 1"
proof -
  have "apply_all team_state_default (map te_kind (rt_event_log rt)) (rt_max_active rt) = Ok (rt_state rt)"
    using reachable_ok [OF assms] by (simp add: runtime_ok_def)
  from apply_all_commits_once [OF this, of op] show ?thesis
    by (simp add: filter_map comp_def team_state_default_def)
qed

theorem operations_commit_once_witness:
  "length (filter (\<lambda>e. commits_operation (Ident 1) (te_kind e)) (rt_event_log demo)) \<le> 1"
  by (rule operations_commit_once [OF demo_reachable])

section \<open>A wait cycle the delegation check admits\<close>


end
