(* ===== verification/Sse.thy ===== *)
theory Sse
  imports Rust_Text
begin

text \<open>
  The bounded Server-Sent Events parser (\<open>greentyper-core/src/provider/sse.rs\<close>).

  A method on \<open>&mut self\<close> returns the parser it leaves behind next to its result, also when the
  result is an error: a failed parser stays readable through \<open>events\<close>.  The loop of \<open>push_inner\<close>
  removes at least one byte of the buffer per round, which is its termination measure.
\<close>

section \<open>State\<close>

datatype sse_error =
    InvalidLimits | SsePoisoned | TotalBytesExceeded | LineBytesExceeded | DataLineLimitExceeded
  | InvalidUtf8 | IncompleteEvent

definition MAX_DATA_LINES_PER_EVENT :: usize where
  "MAX_DATA_LINES_PER_EVENT = 1024"

record sse_limits =
  max_total_bytes :: usize
  max_line_bytes :: usize

definition sse_limits_new :: "usize \<Rightarrow> usize \<Rightarrow> (sse_error, sse_limits) result" where
  "sse_limits_new bytes line =
     (if bytes = 0 \<or> line = 0 \<or> line > bytes then Err InvalidLimits
      else Ok \<lparr>max_total_bytes = bytes, max_line_bytes = line\<rparr>)"

record sse_event =
  se_event :: string
  se_data :: string

record sse_parser =
  sp_limits :: sse_limits
  sp_buffer :: string
  sp_event_type :: "string option"
  sp_event_data :: string
  sp_data_lines :: usize
  sp_events :: "sse_event list"
  sp_total :: usize
  sp_poisoned :: bool
  sp_skip_lf :: bool

definition sse_parser_new :: "sse_limits \<Rightarrow> sse_parser" where
  "sse_parser_new limits =
     \<lparr>sp_limits = limits, sp_buffer = [], sp_event_type = None, sp_event_data = [], sp_data_lines = 0,
      sp_events = [], sp_total = 0, sp_poisoned = False, sp_skip_lf = False\<rparr>"

section \<open>Lines\<close>

definition LF :: char where "LF = CHR 0x0A"
definition CR :: char where "CR = CHR 0x0D"

fun next_line_ending :: "string \<Rightarrow> (nat \<times> bool) option" where
  "next_line_ending [] = None"
| "next_line_ending (b # bs) =
     (if b = LF then Some (0, False) else if b = CR then Some (0, True)
      else map_option (\<lambda>(i, cr). (Suc i, cr)) (next_line_ending bs))"

definition sse_dispatch :: "sse_parser \<Rightarrow> sse_parser" where
  "sse_dispatch p =
     (if sp_data_lines p = 0 then p\<lparr>sp_event_type := None, sp_data_lines := 0\<rparr>
      else p\<lparr>sp_events := sp_events p @
               [\<lparr>se_event = (case sp_event_type p of Some e \<Rightarrow> if e = [] then ''message'' else e
                                                    | None \<Rightarrow> ''message''),
                 se_data = sp_event_data p\<rparr>],
             sp_event_type := None, sp_event_data := [], sp_data_lines := 0\<rparr>)"

text \<open>\<open>split_once(':')\<close> with the default \<open>(line, "")\<close>, and \<open>strip_prefix(' ')\<close>.\<close>

fun split_colon :: "string \<Rightarrow> string \<times> string" where
  "split_colon [] = ([], [])"
| "split_colon (b # bs) =
     (if b = CHR '':'' then ([], bs) else (case split_colon bs of (f, v) \<Rightarrow> (b # f, v)))"

definition strip_space :: "string \<Rightarrow> string" where
  "strip_space v = (case v of [] \<Rightarrow> [] | b # bs \<Rightarrow> if b = CHR '' '' then bs else v)"

definition process_data :: "sse_parser \<Rightarrow> string \<Rightarrow> (sse_error, unit) result \<times> sse_parser" where
  "process_data p v =
     (case usize_add (sp_data_lines p) 1 of
        None \<Rightarrow> (Err DataLineLimitExceeded, p)
      | Some n \<Rightarrow>
          let p = p\<lparr>sp_data_lines := n\<rparr> in
          if n > MAX_DATA_LINES_PER_EVENT then (Err DataLineLimitExceeded, p)
          else (Ok (), p\<lparr>sp_event_data := sp_event_data p @ (if n > 1 then [LF] else []) @ v\<rparr>))"

definition process_line :: "sse_parser \<Rightarrow> string \<Rightarrow> (sse_error, unit) result \<times> sse_parser" where
  "process_line p line =
     (if line = [] then (Ok (), sse_dispatch p)
      else if hd line = CHR '':'' then (Ok (), p)
      else if \<not> utf8_valid line then (Err InvalidUtf8, p)
      else (case split_colon line of (f, v) \<Rightarrow>
        let v = strip_space v in
        if f = ''event'' then (Ok (), p\<lparr>sp_event_type := Some v\<rparr>)
        else if f = ''data'' then process_data p v
        else (Ok (), p)))"

section \<open>Pushing a chunk\<close>

lemma next_line_ending_less: "next_line_ending bs = Some (i, cr) \<Longrightarrow> i < length bs"
  by (induction bs arbitrary: i cr) (auto split: if_splits)

definition end_of_input :: "nat \<Rightarrow> sse_parser \<Rightarrow> (sse_error, bool) result \<times> sse_parser" where
  "end_of_input initial p =
     (if length (sp_buffer p) > max_line_bytes (sp_limits p) then (Err LineBytesExceeded, p)
      else (Ok (length (sp_events p) > initial), p))"

text \<open>The parser once the line of length \<open>i\<close> and its terminator have left the buffer.\<close>

definition take_line :: "sse_parser \<Rightarrow> nat \<Rightarrow> bool \<Rightarrow> sse_parser" where
  "take_line p i cr = p\<lparr>sp_buffer := drop (Suc i) (sp_buffer p), sp_skip_lf := cr\<rparr>"

lemma process_line_buffer: "sp_buffer (snd (process_line p line)) = sp_buffer p"
  by (auto simp: process_line_def sse_dispatch_def process_data_def Let_def split: prod.splits option.splits)

lemma line_shrinks:
  assumes "next_line_ending (sp_buffer p) = Some (i, cr)"
    and "process_line (take_line (p\<lparr>sp_skip_lf := b\<rparr>) i cr) line = (r, p')"
  shows "length (sp_buffer p') < length (sp_buffer p)"
  using next_line_ending_less [OF assms(1)] process_line_buffer [of "take_line (p\<lparr>sp_skip_lf := b\<rparr>) i cr" line] assms(2)
  by (simp add: take_line_def)

function push_loop :: "bool \<Rightarrow> nat \<Rightarrow> sse_parser \<Rightarrow> (sse_error, bool) result \<times> sse_parser" where
  "push_loop stop initial p =
     (if sp_skip_lf p \<and> sp_buffer p \<noteq> [] \<and> hd (sp_buffer p) = LF
      then push_loop stop initial (p\<lparr>sp_buffer := tl (sp_buffer p), sp_skip_lf := False\<rparr>)
      else if sp_skip_lf p \<and> sp_buffer p = [] then end_of_input initial p
      else
      let p = p\<lparr>sp_skip_lf := False\<rparr> in
      (case next_line_ending (sp_buffer p) of
         None \<Rightarrow> end_of_input initial p
       | Some (i, cr) \<Rightarrow>
           if i > max_line_bytes (sp_limits p) then (Err LineBytesExceeded, p)
           else
           (case process_line (take_line p i cr) (take i (sp_buffer p)) of
              (Ok _, p') \<Rightarrow>
                if stop \<and> length (sp_events p') > initial then (Ok True, p')
                else push_loop stop initial p'
            | (Err e, p') \<Rightarrow> (Err e, p')
            | (Diverges, p') \<Rightarrow> (Diverges, p'))))"
  by pat_completeness auto
termination
  by (relation "measure (\<lambda>(stop, initial, p). length (sp_buffer p))")
     (auto dest: line_shrinks [OF _ sym])

declare push_loop.simps [simp del]

definition push_inner :: "sse_parser \<Rightarrow> string \<Rightarrow> bool \<Rightarrow> (sse_error, bool) result \<times> sse_parser" where
  "push_inner p chunk stop =
     (case usize_add (sp_total p) (length chunk) of
        None \<Rightarrow> (Err TotalBytesExceeded, p)
      | Some bytes \<Rightarrow>
          let p = p\<lparr>sp_total := bytes\<rparr> in
          if bytes > max_total_bytes (sp_limits p) then (Err TotalBytesExceeded, p)
          else push_loop stop (length (sp_events p)) (p\<lparr>sp_buffer := sp_buffer p @ chunk\<rparr>))"

definition poison_on_error :: "('e, 'a) result \<times> sse_parser \<Rightarrow> ('e, 'a) result \<times> sse_parser" where
  "poison_on_error rp = (case rp of (r, p) \<Rightarrow> (r, if is_ok r then p else p\<lparr>sp_poisoned := True\<rparr>))"

definition sse_push :: "sse_parser \<Rightarrow> string \<Rightarrow> (sse_error, unit) result \<times> sse_parser" where
  "sse_push p chunk =
     (if sp_poisoned p then (Err SsePoisoned, p)
      else poison_on_error (map_prod (map_ok (\<lambda>_. ())) id (push_inner p chunk False)))"

definition push_until_first_event :: "sse_parser \<Rightarrow> string \<Rightarrow> (sse_error, bool) result \<times> sse_parser" where
  "push_until_first_event p chunk =
     (if sp_poisoned p then (Err SsePoisoned, p)
      else poison_on_error (push_inner p chunk True))"

definition take_events :: "sse_parser \<Rightarrow> sse_event list \<times> sse_parser" where
  "take_events p = (sp_events p, p\<lparr>sp_events := []\<rparr>)"

definition sse_finish :: "sse_parser \<Rightarrow> (sse_error, sse_event list) result" where
  "sse_finish p =
     (if sp_poisoned p then Err SsePoisoned
      else (case push_inner p [] False of
        (r, p) \<Rightarrow> andthen r (\<lambda>_.
          if sp_buffer p \<noteq> [] \<or> sp_event_type p \<noteq> None \<or> sp_data_lines p \<noteq> 0
          then Err IncompleteEvent else Ok (sp_events p))))"

section \<open>The loop\<close>

lemma next_line_ending_append_Some: "next_line_ending a = Some x \<Longrightarrow> next_line_ending (a @ b) = Some x"
  by (induction a arbitrary: x) (auto split: if_splits)

lemma next_line_ending_append_None:
  "next_line_ending a = None \<Longrightarrow>
     next_line_ending (a @ b) = map_option (\<lambda>(i, cr). (length a + i, cr)) (next_line_ending b)"
  by (induction a; cases "next_line_ending b") (auto split: if_splits)

lemma process_line_frame:
  "process_line (p\<lparr>sp_buffer := x, sp_skip_lf := y\<rparr>) line =
     map_prod id (\<lambda>q. q\<lparr>sp_buffer := x, sp_skip_lf := y\<rparr>) (process_line p line)"
  by (auto simp: process_line_def sse_dispatch_def process_data_def Let_def split: prod.splits option.splits)

lemma process_line_keeps:
  "sp_limits (snd (process_line p line)) = sp_limits p"
  "sp_total (snd (process_line p line)) = sp_total p"
  "sp_poisoned (snd (process_line p line)) = sp_poisoned p"
  "sp_skip_lf (snd (process_line p line)) = sp_skip_lf p"
  by (auto simp: process_line_def sse_dispatch_def process_data_def Let_def split: prod.splits option.splits)

lemma process_line_returns [simp]: "process_line p line \<noteq> (Diverges, p')"
  by (auto simp: process_line_def process_data_def Let_def split: prod.splits option.splits)

text \<open>The three ways a round begins.\<close>

lemma push_loop_lf:
  "sp_skip_lf p \<Longrightarrow> sp_buffer p = LF # bs \<Longrightarrow>
     push_loop stop n p = push_loop stop n (p\<lparr>sp_buffer := bs, sp_skip_lf := False\<rparr>)"
  by (subst push_loop.simps) simp

lemma push_loop_end:
  "sp_buffer p = [] \<Longrightarrow> push_loop stop n p = end_of_input n p"
  by (subst push_loop.simps) (auto simp: Let_def end_of_input_def)

lemma push_loop_line:
  assumes "sp_skip_lf p \<Longrightarrow> hd (sp_buffer p) \<noteq> LF" and "sp_buffer p \<noteq> []"
  shows "push_loop stop n p =
     (case next_line_ending (sp_buffer p) of
         None \<Rightarrow> end_of_input n (p\<lparr>sp_skip_lf := False\<rparr>)
       | Some (i, cr) \<Rightarrow>
           if i > max_line_bytes (sp_limits p) then (Err LineBytesExceeded, p\<lparr>sp_skip_lf := False\<rparr>)
           else
           (case process_line (take_line p i cr) (take i (sp_buffer p)) of
              (Ok _, p') \<Rightarrow>
                if stop \<and> length (sp_events p') > n then (Ok True, p') else push_loop stop n p'
            | (Err e, p') \<Rightarrow> (Err e, p')
            | (Diverges, p') \<Rightarrow> (Diverges, p')))"
proof -
  have "take_line (p\<lparr>sp_skip_lf := False\<rparr>) i cr = take_line p i cr" for i cr by (simp add: take_line_def)
  then show ?thesis using assms by (subst push_loop.simps) (auto simp: Let_def split: option.splits)
qed

lemma push_loop_rounds [case_names lf stop line]:
  obtains bs where "sp_skip_lf p" "sp_buffer p = LF # bs"
  | "sp_buffer p = []"
  | "sp_skip_lf p \<Longrightarrow> hd (sp_buffer p) \<noteq> LF" "sp_buffer p \<noteq> []"
  by (cases "sp_buffer p") auto

lemma push_loop_induct [case_names lf stop none long line]:
  assumes lf: "\<And>p bs. sp_skip_lf p \<Longrightarrow> sp_buffer p = LF # bs \<Longrightarrow>
      P (p\<lparr>sp_buffer := bs, sp_skip_lf := False\<rparr>) \<Longrightarrow> P p"
    and stop: "\<And>p. sp_buffer p = [] \<Longrightarrow> P p"
    and none: "\<And>p. (sp_skip_lf p \<Longrightarrow> hd (sp_buffer p) \<noteq> LF) \<Longrightarrow> sp_buffer p \<noteq> [] \<Longrightarrow>
      next_line_ending (sp_buffer p) = None \<Longrightarrow> P p"
    and long: "\<And>p i cr. (sp_skip_lf p \<Longrightarrow> hd (sp_buffer p) \<noteq> LF) \<Longrightarrow> sp_buffer p \<noteq> [] \<Longrightarrow>
      next_line_ending (sp_buffer p) = Some (i, cr) \<Longrightarrow> i > max_line_bytes (sp_limits p) \<Longrightarrow> P p"
    and line: "\<And>p i cr r p'. (sp_skip_lf p \<Longrightarrow> hd (sp_buffer p) \<noteq> LF) \<Longrightarrow> sp_buffer p \<noteq> [] \<Longrightarrow>
      next_line_ending (sp_buffer p) = Some (i, cr) \<Longrightarrow> i \<le> max_line_bytes (sp_limits p) \<Longrightarrow>
      process_line (take_line p i cr) (take i (sp_buffer p)) = (r, p') \<Longrightarrow> P p' \<Longrightarrow> P p"
  shows "P p"
proof (induction "length (sp_buffer p)" arbitrary: p rule: less_induct)
  case less
  show ?case
  proof (cases rule: push_loop_rounds [of p])
    case (lf bs)
    then show ?thesis using assms(1) [of p bs] less by simp
  next
    case stop
    then show ?thesis by (rule assms(2))
  next
    case line
    show ?thesis
    proof (cases "next_line_ending (sp_buffer p)")
      case None
      then show ?thesis using none line by blast
    next
      case (Some x)
      obtain i cr where x: "x = (i, cr)" by (cases x)
      obtain r p' where p': "process_line (take_line p i cr) (take i (sp_buffer p)) = (r, p')" by fastforce
      have "take_line (p\<lparr>sp_skip_lf := sp_skip_lf p\<rparr>) i cr = take_line p i cr" by (simp add: take_line_def)
      then have "length (sp_buffer p') < length (sp_buffer p)"
        using line_shrinks [of p i cr "sp_skip_lf p"] Some x p' by simp
      then show ?thesis
        using assms(4) [OF line Some [unfolded x]] assms(5) [OF line Some [unfolded x] _ p'] less
        by (cases "i > max_line_bytes (sp_limits p)") auto
    qed
  qed
qed

lemma push_loop_returns: "fst (push_loop stop n p) \<noteq> Diverges"
proof (induction p rule: push_loop_induct)
  case (lf p bs)
  then show ?case by (simp add: push_loop_lf)
next
  case (line p i cr r p')
  then show ?case by (cases r) (auto simp: push_loop_line)
qed (auto simp: push_loop_line push_loop_end end_of_input_def)

section \<open>Chunks\<close>

definition extend :: "string \<Rightarrow> sse_parser \<Rightarrow> sse_parser" where
  "extend b p = p\<lparr>sp_buffer := sp_buffer p @ b\<rparr>"

lemma extend_simps [simp]:
  "sp_buffer (extend b p) = sp_buffer p @ b" "sp_limits (extend b p) = sp_limits p"
  "sp_events (extend b p) = sp_events p" "sp_skip_lf (extend b p) = sp_skip_lf p"
  "extend b (p\<lparr>sp_skip_lf := y\<rparr>) = (extend b p)\<lparr>sp_skip_lf := y\<rparr>"
  by (simp_all add: extend_def)

lemma process_line_extend:
  assumes "i < length (sp_buffer p)"
  shows "process_line (take_line (extend b p) i cr) line = map_prod id (extend b) (process_line (take_line p i cr) line)"
proof -
  have "take_line (extend b p) i cr = p\<lparr>sp_buffer := drop (Suc i) (sp_buffer p) @ b, sp_skip_lf := cr\<rparr>"
    using assms by (simp add: take_line_def extend_def)
  moreover have "sp_buffer (snd (process_line (take_line p i cr) line)) = drop (Suc i) (sp_buffer p)"
    by (simp add: process_line_buffer take_line_def)
  ultimately show ?thesis
    using process_line_frame [where p = p and x = "drop (Suc i) (sp_buffer p) @ b" and y = cr and line = line]
      process_line_frame [where p = p and x = "drop (Suc i) (sp_buffer p)" and y = cr and line = line]
    by (auto simp: take_line_def extend_def map_prod_def split: prod.splits)
qed

lemma push_loop_unskip:
  "(sp_skip_lf p \<Longrightarrow> hd (sp_buffer p) \<noteq> LF) \<Longrightarrow> sp_buffer p \<noteq> [] \<Longrightarrow>
     push_loop stop n (p\<lparr>sp_skip_lf := False\<rparr>) = push_loop stop n p"
  using push_loop_line [of p stop n] push_loop_line [of "p\<lparr>sp_skip_lf := False\<rparr>" stop n]
  by (cases "next_line_ending (sp_buffer p)") (auto simp: take_line_def)

lemma push_loop_append:
  "case push_loop False n p of
     (Ok _, p') \<Rightarrow> push_loop False n (extend b p) = push_loop False n (extend b p')
   | (Err e, p') \<Rightarrow> fst (push_loop False n (extend b p)) = Err e
       \<and> sp_events (snd (push_loop False n (extend b p))) = sp_events p'
   | (Diverges, _) \<Rightarrow> True"
proof (induction p rule: push_loop_induct)
  case (lf p bs)
  have e: "push_loop False n (extend b p) = push_loop False n (extend b (p\<lparr>sp_buffer := bs, sp_skip_lf := False\<rparr>))"
    using lf(1,2) push_loop_lf [of "extend b p" "bs @ b"] by (cases p) (simp add: extend_def)
  show ?case using lf(3) unfolding e push_loop_lf [OF lf(1,2)] .
next
  case (stop p)
  then show ?case by (simp add: push_loop_end end_of_input_def)
next
  case (none p)
  have line: "sp_skip_lf (extend b p) \<Longrightarrow> hd (sp_buffer (extend b p)) \<noteq> LF" "sp_buffer (extend b p) \<noteq> []"
    using none by auto
  show ?case
  proof (cases "length (sp_buffer p) > max_line_bytes (sp_limits p)")
    case True
    then have long: "push_loop False n (extend b p) = (Err LineBytesExceeded, (extend b p)\<lparr>sp_skip_lf := False\<rparr>)"
      using none(3) push_loop_line [OF line]
      by (auto simp: next_line_ending_append_None end_of_input_def split: option.splits)
    show ?thesis using True none by (simp add: push_loop_line end_of_input_def long)
  next
    case False
    then show ?thesis
      using none push_loop_unskip [OF line, of False n] by (simp add: push_loop_line end_of_input_def)
  qed
next
  case (long p i cr)
  then show ?case
    using push_loop_line [of "extend b p"] by (simp add: push_loop_line next_line_ending_append_Some)
next
  case (line p i cr r p')
  have i: "i < length (sp_buffer p)" using next_line_ending_less [OF line(3)] .
  have "push_loop False n (extend b p) =
      (case (r, extend b p') of (Ok _, q) \<Rightarrow> push_loop False n q | (Err e, q) \<Rightarrow> (Err e, q) | (Diverges, q) \<Rightarrow> (Diverges, q))"
    using line i push_loop_line [of "extend b p"]
    by (auto simp: next_line_ending_append_Some process_line_extend split: result.splits)
  then show ?case
    using line by (cases r) (auto simp: push_loop_line split: result.splits)
qed

text \<open>The number of events before the chunk only decides the answer, not what is parsed.\<close>

lemma push_loop_initial:
  "snd (push_loop False n p) = snd (push_loop False m p)
   \<and> map_ok (\<lambda>_. ()) (fst (push_loop False n p)) = map_ok (\<lambda>_. ()) (fst (push_loop False m p))"
proof (induction p rule: push_loop_induct)
  case (lf p bs)
  then show ?case by (simp add: push_loop_lf)
next
  case (line p i cr r p')
  then show ?case by (cases r) (auto simp: push_loop_line)
qed (auto simp: push_loop_line push_loop_end end_of_input_def)

text \<open>Stopping at the first event and resuming with an empty chunk is not stopping.\<close>

lemma push_loop_resume:
  "case push_loop True n p of
     (Ok _, p') \<Rightarrow> push_loop False n p' = push_loop False n p
   | (Err e, p') \<Rightarrow> push_loop False n p = (Err e, p')
   | (Diverges, _) \<Rightarrow> True"
proof (induction p rule: push_loop_induct)
  case (lf p bs)
  show ?case using lf(3) unfolding push_loop_lf [OF lf(1,2)] .
next
  case (line p i cr r p')
  then show ?case by (cases r) (auto simp: push_loop_line split: result.splits)
next
  case (none p)
  then show ?case
    using push_loop_unskip [OF none(1,2), of False n] by (auto simp: push_loop_line end_of_input_def split: result.splits)
qed (auto simp: push_loop_line push_loop_end end_of_input_def)

section \<open>Invariants\<close>

definition one_line :: "string \<Rightarrow> bool" where
  "one_line s \<longleftrightarrow> LF \<notin> set s \<and> CR \<notin> set s"

definition event_ok :: "sse_limits \<Rightarrow> sse_event \<Rightarrow> bool" where
  "event_ok limits e \<longleftrightarrow>
     se_event e \<noteq> [] \<and> one_line (se_event e) \<and> length (se_event e) \<le> max 7 (max_line_bytes limits)
   \<and> utf8_valid (se_event e) \<and> utf8_valid (se_data e)"

definition held_bytes :: "sse_parser \<Rightarrow> nat" where
  "held_bytes p = length (sp_buffer p) + length (sp_event_data p) + sum_list (map (length \<circ> se_data) (sp_events p))"

definition sse_ok :: "sse_parser \<Rightarrow> bool" where
  "sse_ok p \<longleftrightarrow>
     held_bytes p \<le> sp_total p \<and> sp_data_lines p \<le> MAX_DATA_LINES_PER_EVENT
   \<and> utf8_valid (sp_event_data p)
   \<and> pred_option (\<lambda>e. utf8_valid e \<and> one_line e \<and> length e \<le> max_line_bytes (sp_limits p)) (sp_event_type p)
   \<and> list_all (event_ok (sp_limits p)) (sp_events p)"

lemma split_colon_length: "split_colon line = (f, v) \<Longrightarrow> length f + length v \<le> length line"
  by (induction line arbitrary: f v) (auto split: if_splits prod.splits)

lemma split_colon_set: "split_colon line = (f, v) \<Longrightarrow> set v \<subseteq> set line"
  by (induction line arbitrary: f v) (auto split: if_splits prod.splits)

lemma split_colon_cases: "split_colon line = (f, v) \<Longrightarrow> v = [] \<or> line = f @ CHR '':'' # v"
  by (induction line arbitrary: f v) (auto split: if_splits prod.splits)

lemma strip_space_length: "length (strip_space v) \<le> length v"
  by (auto simp: strip_space_def split: list.splits)

lemma strip_space_set: "set (strip_space v) \<subseteq> set v"
  by (auto simp: strip_space_def split: list.splits)

lemma ascii_marks: "is_ascii (CHR '':'')" "is_ascii (CHR '' '')" "is_ascii LF"
  by (simp_all add: is_ascii_def LF_def less_eq_char_def)

lemma strip_space_valid: "utf8_valid v \<Longrightarrow> utf8_valid (strip_space v)"
  using utf8_valid_cut [of "[]" "CHR '' ''"] ascii_marks(2)
  by (cases v) (auto simp: strip_space_def)

lemma split_colon_valid:
  assumes "utf8_valid line" and "split_colon line = (f, v)"
  shows "utf8_valid (strip_space v)"
proof (rule strip_space_valid, cases "v = []")
  case False
  then have "line = f @ CHR '':'' # v" using split_colon_cases [OF assms(2)] by simp
  then show "utf8_valid v" using utf8_valid_cut [of f "CHR '':''" v] assms(1) ascii_marks(1) by simp
qed simp

lemma next_line_one_line: "next_line_ending bs = Some (i, cr) \<Longrightarrow> one_line (take i bs)"
  by (induction bs arbitrary: i cr) (auto simp: one_line_def split: if_splits)

lemma utf8_LF: "utf8_valid s \<Longrightarrow> utf8_valid (LF # s)"
  using utf8_valid_intros(1) ascii_marks(3) .

lemma sse_dispatch_ok: "sse_ok p \<Longrightarrow> sse_ok (sse_dispatch p)"
  by (auto simp: sse_ok_def sse_dispatch_def held_bytes_def event_ok_def one_line_def LF_def CR_def
      utf8_valid_intros is_ascii_def less_eq_char_def split: option.splits)

lemma process_data_ok:
  assumes "sse_ok p" and "utf8_valid v" and "held_bytes p + length v + 1 \<le> sp_total p"
    and "process_data p v = (Ok u, p')"
  shows "sse_ok p'"
  using assms
  by (auto simp: process_data_def sse_ok_def held_bytes_def Let_def utf8_valid_append utf8_LF
      split: option.splits if_splits)

lemma process_line_ok:
  assumes "sse_ok p" and "one_line line" and "length line \<le> max_line_bytes (sp_limits p)"
    and "held_bytes p + length line + 1 \<le> sp_total p"
    and "process_line p line = (Ok u, p')"
  shows "sse_ok p'"
proof (cases "line = [] \<or> hd line = CHR '':''")
  case True
  then show ?thesis using assms by (auto simp: process_line_def sse_dispatch_ok split: if_splits)
next
  case False
  obtain f v where fv: "split_colon line = (f, v)" by fastforce
  have valid: "utf8_valid line" and res: "(if f = ''event'' then (Ok (), p\<lparr>sp_event_type := Some (strip_space v)\<rparr>)
        else if f = ''data'' then process_data p (strip_space v) else (Ok (), p)) = (Ok u, p')"
    using assms(5) False fv by (auto simp: process_line_def Let_def split: if_splits)
  let ?v = "strip_space v"
  have len: "length ?v \<le> length line"
    using split_colon_length [OF fv] strip_space_length [of v] by linarith
  have v: "utf8_valid ?v" by (rule split_colon_valid [OF valid fv])
  have "one_line ?v"
    using assms(2) split_colon_set [OF fv] strip_space_set [of v] by (auto simp: one_line_def)
  moreover have "sse_ok p'" if "process_data p ?v = (Ok u, p')"
    using process_data_ok [OF assms(1) v _ that] assms(4) len by simp
  ultimately show ?thesis
    using res assms(1,3) len v by (auto simp: sse_ok_def held_bytes_def split: if_splits)
qed

lemma take_line_ok:
  assumes "sse_ok p" and "next_line_ending (sp_buffer p) = Some (i, cr)"
  shows "sse_ok (take_line p i cr)" and "held_bytes (take_line p i cr) + i + 1 \<le> sp_total p"
proof -
  have "i < length (sp_buffer p)" by (rule next_line_ending_less [OF assms(2)])
  then show "sse_ok (take_line p i cr)" and "held_bytes (take_line p i cr) + i + 1 \<le> sp_total p"
    using assms(1) by (auto simp: sse_ok_def held_bytes_def take_line_def)
qed

lemma push_loop_ok:
  assumes "push_loop stop n p = (Ok u, p')" and "sse_ok p"
  shows "sse_ok p' \<and> sp_limits p' = sp_limits p \<and> sp_total p' = sp_total p \<and> sp_poisoned p' = sp_poisoned p
    \<and> (\<not> stop \<longrightarrow> length (sp_buffer p') \<le> max_line_bytes (sp_limits p))"
  using assms
proof (induction p rule: push_loop_induct)
  case (lf p bs)
  have "sse_ok (p\<lparr>sp_buffer := bs, sp_skip_lf := False\<rparr>)"
    using lf(2) lf.prems(2) by (auto simp: sse_ok_def held_bytes_def)
  then show ?case using lf by (simp add: push_loop_lf)
next
  case (line p i cr r q)
  have i: "i < length (sp_buffer p)" by (rule next_line_ending_less [OF line(3)])
  have keeps: "sp_limits q = sp_limits p" "sp_total q = sp_total p" "sp_poisoned q = sp_poisoned p"
    using process_line_keeps [of "take_line p i cr" "take i (sp_buffer p)"] line(5) by (auto simp: take_line_def)
  show ?case
  proof (cases r)
    case (Ok x)
    have "sse_ok q"
      by (rule process_line_ok [OF take_line_ok(1) [OF line.prems(2) line(3)] next_line_one_line [OF line(3)] _ _ line(5) [unfolded Ok]])
         (use line(4) take_line_ok(2) [OF line.prems(2) line(3)] i in \<open>auto simp: take_line_def\<close>)
    then show ?thesis
      using line keeps Ok by (auto simp: push_loop_line split: if_splits)
  qed (use line in \<open>auto simp: push_loop_line\<close>)
qed (auto simp: push_loop_line push_loop_end end_of_input_def sse_ok_def held_bytes_def split: if_splits)

lemma push_inner_ok:
  assumes "push_inner p chunk stop = (Ok u, p')" and "sse_ok p"
  shows "sse_ok p' \<and> sp_limits p' = sp_limits p \<and> sp_total p' = sp_total p + length chunk
    \<and> sp_total p' \<le> max_total_bytes (sp_limits p) \<and> sp_poisoned p' = sp_poisoned p
    \<and> (\<not> stop \<longrightarrow> length (sp_buffer p') \<le> max_line_bytes (sp_limits p))"
proof -
  let ?q = "p\<lparr>sp_total := sp_total p + length chunk, sp_buffer := sp_buffer p @ chunk\<rparr>"
  from assms(1) have loop: "push_loop stop (length (sp_events p)) ?q = (Ok u, p')"
    and "sp_total p + length chunk \<le> max_total_bytes (sp_limits p)"
    by (auto simp: push_inner_def Let_def dest: usize_add_SomeD split: option.splits if_splits)
  moreover have "sse_ok ?q" using assms(2) by (auto simp: sse_ok_def held_bytes_def)
  ultimately show ?thesis using push_loop_ok [OF loop] by simp
qed

end
