(* ===== verification/Sse_Claims.thy ===== *)
theory Sse_Claims
  imports Sse
begin

text \<open>
  The properties of the Server-Sent Events parser: how the stream is cut into chunks does not
  matter, memory stays within the limits, errors are final, and what a conforming server writes is
  what the parser reads.
\<close>

section \<open>Streams\<close>

text \<open>How the Provider adapters drive the parser: \<open>push\<close> each chunk, stop at an error, \<open>finish\<close>.\<close>

fun feed :: "sse_parser \<Rightarrow> string list \<Rightarrow> (sse_error, unit) result \<times> sse_parser" where
  "feed p [] = (Ok (), p)"
| "feed p (c # cs) =
     (case sse_push p c of (Ok _, p') \<Rightarrow> feed p' cs | (Err e, p') \<Rightarrow> (Err e, p') | (Diverges, p') \<Rightarrow> (Diverges, p'))"

definition sse_parse :: "sse_limits \<Rightarrow> string list \<Rightarrow> (sse_error, sse_event list) result" where
  "sse_parse limits chunks = (case feed (sse_parser_new limits) chunks of (r, p) \<Rightarrow> andthen r (\<lambda>_. sse_finish p))"

lemma process_line_total:
  "process_line (p\<lparr>sp_total := t\<rparr>) line = map_prod id (\<lambda>q. q\<lparr>sp_total := t\<rparr>) (process_line p line)"
  by (auto simp: process_line_def sse_dispatch_def process_data_def Let_def split: prod.splits option.splits)

lemma take_line_total: "take_line (p\<lparr>sp_total := t\<rparr>) i cr = (take_line p i cr)\<lparr>sp_total := t\<rparr>"
  by (simp add: take_line_def)

lemma total_commutes:
  "p\<lparr>sp_total := t, sp_skip_lf := y\<rparr> = p\<lparr>sp_skip_lf := y, sp_total := t\<rparr>"
  "p\<lparr>sp_total := t, sp_buffer := x, sp_skip_lf := y\<rparr> = p\<lparr>sp_buffer := x, sp_skip_lf := y, sp_total := t\<rparr>"
  "p\<lparr>sp_total := t, sp_buffer := x\<rparr> = p\<lparr>sp_buffer := x, sp_total := t\<rparr>"
  by (cases p; simp)+

lemma total_same: "sp_total p = t \<Longrightarrow> p\<lparr>sp_total := t\<rparr> = p"
  by (cases p) simp

lemma push_loop_total:
  "push_loop stop n (p\<lparr>sp_total := t\<rparr>) = map_prod id (\<lambda>q. q\<lparr>sp_total := t\<rparr>) (push_loop stop n p)"
proof (induction p rule: push_loop_induct)
  case (lf p bs)
  have "push_loop stop n (p\<lparr>sp_total := t\<rparr>) = push_loop stop n (p\<lparr>sp_buffer := bs, sp_skip_lf := False\<rparr>\<lparr>sp_total := t\<rparr>)"
    using lf(1,2) push_loop_lf [of "p\<lparr>sp_total := t\<rparr>" bs] by (simp add: total_commutes)
  then show ?case using lf(3) push_loop_lf [OF lf(1,2)] by simp
next
  case (line p i cr r p')
  then show ?case
    using push_loop_line [of "p\<lparr>sp_total := t\<rparr>" stop n]
    by (cases r) (auto simp: push_loop_line take_line_total process_line_total)
next
  case (none p)
  then show ?case using push_loop_line [of "p\<lparr>sp_total := t\<rparr>" stop n]
    by (simp add: push_loop_line end_of_input_def total_commutes)
next
  case (long p i cr)
  then show ?case using push_loop_line [of "p\<lparr>sp_total := t\<rparr>" stop n]
    by (simp add: push_loop_line end_of_input_def total_commutes)
next
  case (stop p)
  then show ?case using push_loop_end [of "p\<lparr>sp_total := t\<rparr>" _ n]
    by (simp add: push_loop_end end_of_input_def total_commutes)
qed

text \<open>\<open>push\<close> on a parser whose byte budget is not exhausted is the loop over the longer buffer.\<close>

definition fits_budget :: "sse_parser \<Rightarrow> nat \<Rightarrow> bool" where
  "fits_budget p n \<longleftrightarrow> sp_total p + n \<le> max_total_bytes (sp_limits p) \<and> max_total_bytes (sp_limits p) < 2 ^ 64"

definition run_loop :: "sse_parser \<Rightarrow> string \<Rightarrow> (sse_error, unit) result \<times> sse_parser" where
  "run_loop p chunk = map_prod (map_ok (\<lambda>_. ())) id (push_loop False 0 (extend chunk p))"

lemma push_inner_run:
  assumes "fits_budget p (length chunk)"
  shows "map_prod (map_ok (\<lambda>_. ())) id (push_inner p chunk False) = 
     map_prod id (\<lambda>q. q\<lparr>sp_total := sp_total p + length chunk\<rparr>) (run_loop p chunk)"
proof -
  have "usize_add (sp_total p) (length chunk) = Some (sp_total p + length chunk)"
    using assms by (simp add: fits_budget_def usize_add_def)
  then have "push_inner p chunk False =
      push_loop False (length (sp_events p)) (extend chunk p\<lparr>sp_total := sp_total p + length chunk\<rparr>)"
    using assms by (simp add: push_inner_def Let_def fits_budget_def extend_def total_commutes)
  then show ?thesis
    using push_loop_initial [of "length (sp_events p)" "extend chunk p" 0]
    by (auto simp: push_loop_total run_loop_def intro!: prod_eqI)
qed

lemma sse_push_run:
  assumes "fits_budget p (length chunk)" and "\<not> sp_poisoned p"
  shows "sse_push p chunk =
     poison_on_error (map_prod id (\<lambda>q. q\<lparr>sp_total := sp_total p + length chunk\<rparr>) (run_loop p chunk))"
  using assms by (simp add: sse_push_def push_inner_run)

lemma run_loop_total: "run_loop (p\<lparr>sp_total := t\<rparr>) b = map_prod id (\<lambda>q. q\<lparr>sp_total := t\<rparr>) (run_loop p b)"
  by (simp add: run_loop_def extend_def total_commutes push_loop_total prod.map_comp comp_def id_def)

lemma run_loop_append:
  "case run_loop p a of
     (Ok _, p') \<Rightarrow> run_loop p (a @ b) = run_loop p' b
   | (Err e, p') \<Rightarrow> fst (run_loop p (a @ b)) = Err e \<and> sp_events (snd (run_loop p (a @ b))) = sp_events p'
   | (Diverges, _) \<Rightarrow> False"
proof -
  have "extend (a @ b) p = extend b (extend a p)" by (simp add: extend_def)
  then show ?thesis
    using push_loop_append [where n = 0 and p = "extend a p" and b = b] push_loop_returns [of False 0 "extend a p"]
    by (auto simp: run_loop_def map_prod_def split: prod.splits result.splits)
qed

lemma push_loop_keeps:
  "sp_limits (snd (push_loop stop n q)) = sp_limits q \<and> sp_poisoned (snd (push_loop stop n q)) = sp_poisoned q
   \<and> sp_total (snd (push_loop stop n q)) = sp_total q"
proof (induction q rule: push_loop_induct)
  case (lf p bs)
  then show ?case by (simp add: push_loop_lf)
next
  case (line p i cr r p')
  then show ?case
    using process_line_keeps [of "take_line p i cr" "take i (sp_buffer p)"]
    by (cases r) (auto simp: push_loop_line take_line_def)
qed (auto simp: push_loop_line push_loop_end end_of_input_def)

lemma run_loop_keeps:
  assumes "run_loop p a = (r, p')"
  shows "sp_limits p' = sp_limits p" and "sp_poisoned p' = sp_poisoned p"
  using push_loop_keeps [of False 0 "extend a p"] assms
  by (auto simp: run_loop_def map_prod_def extend_def split: prod.splits)

definition same_outcome ::
  "(sse_error, unit) result \<times> sse_parser \<Rightarrow> (sse_error, unit) result \<times> sse_parser \<Rightarrow> bool" where
  "same_outcome x y \<longleftrightarrow> fst x = fst y \<and> sp_events (snd x) = sp_events (snd y) \<and> (is_ok (fst x) \<longrightarrow> snd x = snd y)"

lemma sse_push_append:
  assumes "fits_budget p (length a + length b)" and "\<not> sp_poisoned p"
  shows "case sse_push p a of
     (Ok _, p') \<Rightarrow> sse_push p (a @ b) = sse_push p' b \<and> fits_budget p' (length b) \<and> \<not> sp_poisoned p'
   | (Err e, p') \<Rightarrow> fst (sse_push p (a @ b)) = Err e \<and> sp_events (snd (sse_push p (a @ b))) = sp_events p'
   | (Diverges, _) \<Rightarrow> False"
proof -
  obtain r q where run: "run_loop p a = (r, q)" by fastforce
  have fits: "fits_budget p (length a)" "fits_budget p (length (a @ b))" using assms(1) by (auto simp: fits_budget_def)
  note both = sse_push_run [OF fits(1) assms(2)] sse_push_run [OF fits(2) assms(2)]
  show ?thesis
  proof (cases r)
    case (Ok u)
    let ?q = "q\<lparr>sp_total := sp_total p + length a\<rparr>"
    have a: "sse_push p a = (Ok (), ?q)" using both(1) run Ok by (simp add: poison_on_error_def)
    have q: "fits_budget ?q (length b)" "\<not> sp_poisoned ?q"
      using assms run_loop_keeps [OF run] by (auto simp: fits_budget_def)
    have "run_loop p (a @ b) = run_loop q b" using run_loop_append [of p a b] run Ok by simp
    then have "sse_push p (a @ b) = sse_push ?q b"
      unfolding both(2) sse_push_run [OF q] run_loop_total
      by (simp add: prod.map_comp comp_def add.assoc id_def)
    with a q show ?thesis by simp
  next
    case (Err e)
    then show ?thesis
      using run_loop_append [of p a b] run both
      by (auto simp: poison_on_error_def map_prod_def split: prod.splits)
  next
    case Diverges
    then show ?thesis using run_loop_append [of p a b] run by simp
  qed
qed

lemma feed_concat:
  assumes "fits_budget p (sum_list (map length cs))" and "\<not> sp_poisoned p" and "sse_push p [] = (Ok (), p)"
  shows "same_outcome (feed p cs) (sse_push p (concat cs))"
  using assms
proof (induction cs arbitrary: p)
  case Nil
  then show ?case by (simp add: same_outcome_def)
next
  case (Cons c cs)
  have fits: "fits_budget p (length c + length (concat cs))" using Cons.prems(1) by (simp add: length_concat)
  have fits0: "fits_budget p (length c + length [])" using Cons.prems(1) by (simp add: fits_budget_def)
  note whole = sse_push_append [OF fits Cons.prems(2)]
  obtain r p' where push: "sse_push p c = (r, p')" by fastforce
  show ?case
  proof (cases r)
    case (Ok u)
    then have "sse_push p' [] = (Ok (), p')"
      using sse_push_append [OF fits0 Cons.prems(2)] push by simp
    moreover have "fits_budget p' (sum_list (map length cs))" "\<not> sp_poisoned p'"
      and "sse_push p (concat (c # cs)) = sse_push p' (concat cs)"
      using whole push Ok by (simp_all add: length_concat)
    ultimately show ?thesis using Cons.IH [of p'] push Ok by simp
  next
    case (Err e)
    then show ?thesis using whole push by (simp add: same_outcome_def)
  next
    case Diverges
    then show ?thesis using whole push by simp
  qed
qed

lemma sse_push_Ok: "sse_push q c = (Ok (), q') \<Longrightarrow> \<exists>u. push_inner q c False = (Ok u, q')"
  by (cases "push_inner q c False"; cases "fst (push_inner q c False)")
     (auto simp: sse_push_def poison_on_error_def split: if_splits)

lemma is_ok_pair: "is_ok (fst x) \<Longrightarrow> \<exists>y p. x = (Ok y, p)"
  by (cases x) (auto simp: is_ok_iff)

lemma feed_chunks:
  assumes "length (concat chunks) \<le> max_total_bytes limits" and "max_total_bytes limits < 2 ^ 64"
  shows "sse_parse limits chunks = sse_parse limits [concat chunks]
    \<and> sp_events (snd (feed (sse_parser_new limits) chunks)) = sp_events (snd (feed (sse_parser_new limits) [concat chunks]))"
proof -
  let ?p = "sse_parser_new limits"
  have fits: "fits_budget ?p (sum_list (map length cs))" if "concat cs = concat chunks" for cs
    using assms that by (simp add: fits_budget_def sse_parser_new_def length_concat [symmetric])
  have "fits_budget ?p (length [])" using assms by (simp add: fits_budget_def sse_parser_new_def)
  then have "sse_push ?p [] = (Ok (), ?p)"
    by (subst sse_push_run)
       (simp_all add: sse_parser_new_def run_loop_def extend_def push_loop_end end_of_input_def poison_on_error_def)
  then have same: "same_outcome (feed ?p cs) (sse_push ?p (concat chunks))" if "concat cs = concat chunks" for cs
    using feed_concat [OF fits [OF that]] that by (simp add: sse_parser_new_def)
  then have "same_outcome (feed ?p chunks) (sse_push ?p (concat chunks))"
    and "same_outcome (feed ?p [concat chunks]) (sse_push ?p (concat chunks))"
    using same [of chunks] same [of "[concat chunks]"] by (simp_all del: feed.simps)
  then have "same_outcome (feed ?p chunks) (feed ?p [concat chunks])"
    by (simp add: same_outcome_def)
  then show ?thesis
    unfolding sse_parse_def same_outcome_def
    by (cases "fst (feed ?p chunks)") (auto split: prod.splits)
qed

section \<open>Claims\<close>



text \<open>A push that stops at the first event leaves the rest
  of the chunk in the parser: an empty push then ends where a plain push would have.\<close>

theorem stopping_early_loses_nothing:
  assumes "push_until_first_event p chunk = (Ok b, p')" and "fits_budget p (length chunk)"
  shows "sse_push p' [] = sse_push p chunk"
proof -
  let ?q = "extend chunk p\<lparr>sp_total := sp_total p + length chunk\<rparr>"
  have not_poisoned: "\<not> sp_poisoned p"
    using assms(1) by (auto simp: push_until_first_event_def split: if_splits)
  have "usize_add (sp_total p) (length chunk) = Some (sp_total p + length chunk)"
    using assms(2) by (simp add: fits_budget_def usize_add_def)
  then have inner: "push_inner p chunk stop = push_loop stop (length (sp_events p)) ?q" for stop
    using assms(2) by (simp add: push_inner_def Let_def fits_budget_def extend_def total_commutes)
  have early: "push_loop True (length (sp_events p)) ?q = (Ok b, p')"
    using assms(1) not_poisoned inner
    by (auto simp: push_until_first_event_def poison_on_error_def split: prod.splits if_splits)
  have p': "sp_limits p' = sp_limits p" "\<not> sp_poisoned p'" "sp_total p' = sp_total p + length chunk"
    using push_loop_keeps [of True "length (sp_events p)" ?q] early not_poisoned by (auto simp: extend_def)
  then have "usize_add (sp_total p') 0 = Some (sp_total p')"
    using assms(2) by (simp add: fits_budget_def usize_add_def)
  then have "push_inner p' [] False = push_loop False (length (sp_events p')) p'"
    using assms(2) p' by (simp add: push_inner_def Let_def fits_budget_def total_same)
  moreover have "push_loop False (length (sp_events p)) p' = push_loop False (length (sp_events p)) ?q"
    using push_loop_resume [of "length (sp_events p)" ?q] early by simp
  ultimately have "map_prod (map_ok (\<lambda>_. ())) id (push_inner p' [] False)
      = map_prod (map_ok (\<lambda>_. ())) id (push_inner p chunk False)"
    using push_loop_initial [of "length (sp_events p')" p' "length (sp_events p)"] inner [of False]
    by (auto intro!: prod_eqI)
  then show ?thesis using p'(2) not_poisoned by (simp add: sse_push_def)
qed

theorem stopping_early_loses_nothing_witness:
  "\<exists>p'. sse_push p' [] = sse_push (sse_parser_new \<lparr>max_total_bytes = 64, max_line_bytes = 32\<rparr>)
     (''data: a'' @ [LF, LF] @ ''data: b'' @ [LF, LF])"
proof -
  let ?p = "sse_parser_new \<lparr>max_total_bytes = 64, max_line_bytes = 32\<rparr>"
  let ?c = "''data: a'' @ [LF, LF] @ ''data: b'' @ [LF, LF]"
  have "is_ok (fst (push_until_first_event ?p ?c))" by code_simp
  from is_ok_pair [OF this] obtain b p' where "push_until_first_event ?p ?c = (Ok b, p')" by blast
  from stopping_early_loses_nothing [OF this] show ?thesis
    by (auto simp: fits_budget_def sse_parser_new_def)
qed

text \<open>After any stream the parser accepted, the bytes it holds, events
  included, are at most the bytes it was given, which are at most the limit; an unfinished line is
  within the line limit, an event within 1,024 data lines, and every event is valid UTF-8 with a
  one-line name.\<close>

theorem stream_memory_bounded:
  assumes "feed (sse_parser_new limits) chunks = (Ok (), p)"
  shows "held_bytes p \<le> length (concat chunks) \<and> length (concat chunks) \<le> max_total_bytes limits
    \<and> length (sp_buffer p) \<le> max_line_bytes limits \<and> sp_data_lines p \<le> MAX_DATA_LINES_PER_EVENT
    \<and> list_all (event_ok limits) (sp_events p)"
proof -
  have step: "sse_ok q' \<and> sp_limits q' = sp_limits q \<and> sp_total q' = sp_total q + length c
      \<and> sp_total q' \<le> max_total_bytes (sp_limits q) \<and> length (sp_buffer q') \<le> max_line_bytes (sp_limits q)"
    if "sse_push q c = (Ok (), q')" "sse_ok q" for q q' c
  proof -
    from sse_push_Ok [OF that(1)] obtain u where "push_inner q c False = (Ok u, q')" ..
    from push_inner_ok [OF this that(2)] show ?thesis by simp
  qed
  have "sse_ok q' \<and> sp_limits q' = sp_limits q \<and> sp_total q' = sp_total q + length (concat cs)
      \<and> sp_total q' \<le> max_total_bytes (sp_limits q) \<and> length (sp_buffer q') \<le> max_line_bytes (sp_limits q)"
    if "feed q cs = (Ok (), q')" "sse_ok q" "sp_total q \<le> max_total_bytes (sp_limits q)"
      "length (sp_buffer q) \<le> max_line_bytes (sp_limits q)" for q q' cs
    using that
  proof (induction cs arbitrary: q)
    case (Cons c cs)
    then obtain q1 where q1: "sse_push q c = (Ok (), q1)" "feed q1 cs = (Ok (), q')"
      by (auto split: prod.splits result.splits)
    with step [OF q1(1) Cons.prems(2)] Cons.IH [OF q1(2)] show ?case by simp
  qed simp
  from this [OF assms] show ?thesis
    by (auto simp: sse_parser_new_def sse_ok_def held_bytes_def)
qed

theorem stream_memory_bounded_witness:
  "\<exists>p. feed (sse_parser_new \<lparr>max_total_bytes = 64, max_line_bytes = 32\<rparr>) [''data: a'', [LF, LF]] = (Ok (), p)
     \<and> held_bytes p \<le> 64"
proof -
  let ?f = "feed (sse_parser_new \<lparr>max_total_bytes = 64, max_line_bytes = 32\<rparr>) [''data: a'', [LF, LF]]"
  have "is_ok (fst ?f)" by code_simp
  from is_ok_pair [OF this] obtain p where f: "?f = (Ok (), p)" by auto
  from stream_memory_bounded [OF f] have "held_bytes p \<le> 64" by simp
  with f show ?thesis by blast
qed

text \<open>After a push failed, every later push and \<open>finish\<close> fails with
  \<open>Poisoned\<close> and the events read before stay as they are.\<close>

theorem framing_errors_are_final:
  assumes "sse_push p chunk = (Err e, p')"
  shows "sse_push p' c = (Err SsePoisoned, p') \<and> push_until_first_event p' c = (Err SsePoisoned, p')
    \<and> sse_finish p' = Err SsePoisoned"
proof -
  have "sp_poisoned p'"
    using assms by (auto simp: sse_push_def poison_on_error_def split: if_splits prod.splits)
  then show ?thesis by (simp add: sse_push_def push_until_first_event_def sse_finish_def)
qed

theorem framing_errors_are_final_witness:
  "\<exists>p' e. sse_push (sse_parser_new \<lparr>max_total_bytes = 4, max_line_bytes = 2\<rparr>) ''data: a'' = (Err e, p')
     \<and> sse_finish p' = Err SsePoisoned"
proof -
  let ?r = "sse_push (sse_parser_new \<lparr>max_total_bytes = 4, max_line_bytes = 2\<rparr>) ''data: a''"
  have "fst ?r = Err TotalBytesExceeded" by code_simp
  then obtain p' where "?r = (Err TotalBytesExceeded, p')" by (cases ?r) simp
  with framing_errors_are_final [OF this] show ?thesis by blast
qed

section \<open>Rendering\<close>

text \<open>The wire form of an event: its name, one \<open>data\<close> field per line of its data, a blank line.\<close>

fun split_lines :: "string \<Rightarrow> string list" where
  "split_lines [] = [[]]"
| "split_lines (b # bs) =
     (if b = LF then [] # split_lines bs
      else (case split_lines bs of [] \<Rightarrow> [[b]] | l # ls \<Rightarrow> (b # l) # ls))"

fun join_lines :: "string list \<Rightarrow> string" where
  "join_lines [] = []"
| "join_lines (l # ls) = l @ concat (map (\<lambda>l. LF # l) ls)"

definition render_data :: "string list \<Rightarrow> string" where
  "render_data ls = concat (map (\<lambda>l. ''data: '' @ l @ [LF]) ls)"

definition sse_render :: "sse_event \<Rightarrow> string" where
  "sse_render e = ''event: '' @ se_event e @ [LF] @ render_data (split_lines (se_data e)) @ [LF]"

definition renderable :: "sse_limits \<Rightarrow> sse_event \<Rightarrow> bool" where
  "renderable limits e \<longleftrightarrow>
     se_event e \<noteq> [] \<and> one_line (se_event e) \<and> utf8_valid (se_event e)
   \<and> length (se_event e) + 7 \<le> max_line_bytes limits
   \<and> CR \<notin> set (se_data e) \<and> utf8_valid (se_data e)
   \<and> list_all (\<lambda>l. length l + 6 \<le> max_line_bytes limits) (split_lines (se_data e))
   \<and> length (split_lines (se_data e)) \<le> MAX_DATA_LINES_PER_EVENT"

lemma split_lines_not_Nil [simp]: "split_lines s \<noteq> []"
  by (induction s) (auto split: list.splits)

lemma join_split_lines: "join_lines (split_lines s) = s"
proof (induction s)
  case (Cons b bs)
  then show ?case by (cases "split_lines bs") auto
qed simp

lemma split_lines_one_line: "CR \<notin> set s \<Longrightarrow> l \<in> set (split_lines s) \<Longrightarrow> one_line l"
  by (induction s arbitrary: l) (auto simp: one_line_def split: if_splits list.splits)

lemma utf8_join_lines: "utf8_valid (join_lines ls) \<Longrightarrow> l \<in> set ls \<Longrightarrow> utf8_valid l"
proof -
  have tail: "utf8_valid (d @ concat (map (\<lambda>l. LF # l) ls)) \<Longrightarrow> utf8_valid d \<and> (\<forall>l \<in> set ls. utf8_valid l)" for d ls
  proof (induction ls arbitrary: d)
    case (Cons l ls)
    have "utf8_valid d \<and> utf8_valid (l @ concat (map (\<lambda>l. LF # l) ls))"
      by (rule utf8_valid_cut [OF _ ascii_marks(3)]) (use Cons.prems in simp)
    then show ?case using Cons.IH [of l] by simp
  qed simp
  assume valid: "utf8_valid (join_lines ls)" and l: "l \<in> set ls"
  then obtain d ds where "ls = d # ds" by (cases ls) auto
  with valid l tail [of d ds] show "utf8_valid l" by auto
qed

definition state :: "sse_limits \<Rightarrow> nat \<Rightarrow> sse_event list \<Rightarrow> string option \<Rightarrow> string \<Rightarrow> nat \<Rightarrow> string \<Rightarrow> sse_parser" where
  "state limits t evs ty d n rest =
     \<lparr>sp_limits = limits, sp_buffer = rest, sp_event_type = ty, sp_event_data = d, sp_data_lines = n,
      sp_events = evs, sp_total = t, sp_poisoned = False, sp_skip_lf = False\<rparr>"

lemma next_line_ending_line: "one_line l \<Longrightarrow> next_line_ending (l @ LF # rest) = Some (length l, False)"
  by (induction l) (auto simp: one_line_def)

lemma push_loop_state:
  assumes "one_line l" and "length l \<le> max_line_bytes limits"
    and "process_line (state limits t evs ty d n rest) l = (Ok (), state limits t evs' ty' d' n' rest)"
  shows "push_loop False k (state limits t evs ty d n (l @ LF # rest)) = push_loop False k (state limits t evs' ty' d' n' rest)"
  using push_loop_line [of "state limits t evs ty d n (l @ LF # rest)"] assms
  by (simp add: state_def take_line_def next_line_ending_line)

lemma split_colon_field: "CHR '':'' \<notin> set f \<Longrightarrow> split_colon (f @ CHR '':'' # v) = (f, v)"
  by (induction f) auto

lemma utf8_ascii_append: "list_all is_ascii a \<Longrightarrow> utf8_valid s \<Longrightarrow> utf8_valid (a @ s)"
  by (induction a) (auto intro: utf8_valid_intros)

lemma push_event_line:
  assumes "one_line e" and "utf8_valid e" and "length e + 7 \<le> max_line_bytes limits"
  shows "push_loop False k (state limits t evs ty d n (''event: '' @ e @ LF # rest)) =
    push_loop False k (state limits t evs (Some e) d n rest)"
proof -
  have "split_colon (''event: '' @ e) = (''event'', CHR '' '' # e)"
    using split_colon_field [of "''event''" "CHR '' '' # e"] by simp
  moreover have "utf8_valid (''event: '' @ e)"
    by (rule utf8_ascii_append [OF _ assms(2)]) (simp add: is_ascii_def less_eq_char_def)
  ultimately have "process_line (state limits t evs ty d n rest) (''event: '' @ e)
      = (Ok (), state limits t evs (Some e) d n rest)"
    by (simp add: process_line_def strip_space_def Let_def state_def)
  from push_loop_state [OF _ _ this] show ?thesis
    using assms(1,3) by (simp add: one_line_def LF_def CR_def)
qed

lemma push_data_line:
  assumes "one_line l" and "utf8_valid l" and "length l + 6 \<le> max_line_bytes limits"
    and "Suc n \<le> MAX_DATA_LINES_PER_EVENT"
  shows "push_loop False k (state limits t evs ty d n (''data: '' @ l @ LF # rest)) =
    push_loop False k (state limits t evs ty (d @ (if n > 0 then [LF] else []) @ l) (Suc n) rest)"
proof -
  have "split_colon (''data: '' @ l) = (''data'', CHR '' '' # l)"
    using split_colon_field [of "''data''" "CHR '' '' # l"] by simp
  moreover have "utf8_valid (''data: '' @ l)"
    by (rule utf8_ascii_append [OF _ assms(2)]) (simp add: is_ascii_def less_eq_char_def)
  moreover have "usize_add n 1 = Some (Suc n)"
    using assms(4) by (simp add: usize_add_def MAX_DATA_LINES_PER_EVENT_def)
  ultimately have "process_line (state limits t evs ty d n rest) (''data: '' @ l)
      = (Ok (), state limits t evs ty (d @ (if n > 0 then [LF] else []) @ l) (Suc n) rest)"
    using assms(4) by (simp add: process_line_def process_data_def strip_space_def Let_def state_def)
  from push_loop_state [OF _ _ this] show ?thesis
    using assms(1,3) by (simp add: one_line_def LF_def CR_def)
qed

lemma push_data_lines:
  assumes "\<forall>l \<in> set ls. one_line l \<and> utf8_valid l \<and> length l + 6 \<le> max_line_bytes limits"
    and "n + length ls \<le> MAX_DATA_LINES_PER_EVENT" and "0 < n"
  shows "push_loop False k (state limits t evs ty d n (render_data ls @ rest)) =
    push_loop False k (state limits t evs ty (d @ concat (map (\<lambda>l. LF # l) ls)) (n + length ls) rest)"
  using assms
proof (induction ls arbitrary: d n)
  case (Cons l ls)
  then show ?case
    using push_data_line [of l limits n k t evs ty d "render_data ls @ rest"] by (simp add: render_data_def)
qed (simp add: render_data_def)

lemma push_blank:
  assumes "e \<noteq> []" and "0 < n"
  shows "push_loop False k (state limits t evs (Some e) d n (LF # rest)) =
    push_loop False k (state limits t (evs @ [\<lparr>se_event = e, se_data = d\<rparr>]) None [] 0 rest)"
  using push_loop_state [of "[]" limits t evs "Some e" d n rest
      "evs @ [\<lparr>se_event = e, se_data = d\<rparr>]" None "[]" 0 k] assms
  by (simp add: one_line_def process_line_def sse_dispatch_def state_def)

lemma push_rendered:
  assumes "renderable limits e"
  shows "push_loop False k (state limits t evs None [] 0 (sse_render e @ rest)) =
    push_loop False k (state limits t (evs @ [e]) None [] 0 rest)"
proof -
  let ?ls = "split_lines (se_data e)"
  obtain l ls where ls: "?ls = l # ls" by (cases ?ls) auto
  have line: "\<forall>x \<in> set ?ls. one_line x \<and> utf8_valid x \<and> length x + 6 \<le> max_line_bytes limits"
    using assms split_lines_one_line utf8_join_lines [of ?ls] join_split_lines [of "se_data e"]
    by (auto simp: renderable_def list_all_iff)
  have len: "Suc (length ls) \<le> MAX_DATA_LINES_PER_EVENT" using assms ls by (simp add: renderable_def)
  have "push_loop False k (state limits t evs None [] 0 (sse_render e @ rest)) =
      push_loop False k (state limits t evs (Some (se_event e)) [] 0 (''data: '' @ l @ LF # render_data ls @ LF # rest))"
    using push_event_line [of "se_event e" limits] assms
    by (simp add: sse_render_def renderable_def ls render_data_def)
  also have "\<dots> = push_loop False k (state limits t evs (Some (se_event e)) l 1 (render_data ls @ LF # rest))"
    using push_data_line [of l limits 0] line ls len by simp
  also have "\<dots> = push_loop False k (state limits t evs (Some (se_event e)) (join_lines ?ls) (1 + length ls) (LF # rest))"
    using push_data_lines [of ls limits 1] line ls len by simp
  also have "\<dots> = push_loop False k (state limits t (evs @ [e]) None [] 0 rest)"
    using push_blank [of "se_event e" "1 + length ls"] assms
    by (cases e) (simp add: join_split_lines renderable_def)
  finally show ?thesis .
qed

text \<open>C27 (roundtrip).  The wire form of any sequence of events that respects
  the limits parses back to exactly that sequence, however it is cut into chunks.\<close>

theorem rendered_events_parse_back:
  assumes "list_all (renderable limits) es" and "concat chunks = concat (map sse_render es)"
    and "length (concat chunks) \<le> max_total_bytes limits" and "max_total_bytes limits < 2 ^ 64"
  shows "sse_parse limits chunks = Ok es"
proof -
  let ?bytes = "concat chunks"
  let ?q = "state limits (length ?bytes)"
  have loop: "push_loop False k (?q evs None [] 0 (concat (map sse_render fs))) = push_loop False k (?q (evs @ fs) None [] 0 [])"
    if "list_all (renderable limits) fs" for k evs fs
    using that by (induction fs arbitrary: evs) (simp_all add: push_rendered)
  have fits: "fits_budget (sse_parser_new limits) (length ?bytes)"
    using assms(3,4) by (simp add: fits_budget_def sse_parser_new_def)
  have start: "extend ?bytes (sse_parser_new limits\<lparr>sp_total := length ?bytes\<rparr>) = ?q [] None [] 0 ?bytes"
    by (simp add: sse_parser_new_def extend_def state_def)
  have "run_loop (sse_parser_new limits\<lparr>sp_total := length ?bytes\<rparr>) ?bytes = (Ok (), ?q es None [] 0 [])"
    using loop [OF assms(1), of 0 "[]"]
    unfolding run_loop_def start by (simp add: assms(2) push_loop_end state_def end_of_input_def)
  then have "map_prod id (\<lambda>q. q\<lparr>sp_total := length ?bytes\<rparr>) (run_loop (sse_parser_new limits) ?bytes)
      = (Ok (), ?q es None [] 0 [])"
    by (simp add: run_loop_total)
  moreover have "sp_total (sse_parser_new limits) = 0" "\<not> sp_poisoned (sse_parser_new limits)"
    by (simp_all add: sse_parser_new_def)
  ultimately have "sse_push (sse_parser_new limits) ?bytes = (Ok (), ?q es None [] 0 [])"
    using sse_push_run [OF fits] by (simp add: poison_on_error_def)
  moreover have "push_inner (?q es None [] 0 []) [] False = (Ok False, ?q es None [] 0 [])"
    using assms(3,4) by (simp add: push_inner_def usize_add_def state_def push_loop_end end_of_input_def Let_def)
  ultimately have "sse_parse limits [?bytes] = Ok es"
    by (simp add: sse_parse_def sse_finish_def) (simp add: state_def)
  then show ?thesis using feed_chunks [OF assms(3,4)] by simp
qed

theorem rendered_events_parse_back_witness:
  "sse_parse \<lparr>max_total_bytes = 64, max_line_bytes = 32\<rparr> [''event: m'' @ [LF] @ ''dat'', ''a: a'' @ [LF, LF]]
     = Ok [\<lparr>se_event = ''m'', se_data = ''a''\<rparr>]"
proof -
  have "renderable \<lparr>max_total_bytes = 64, max_line_bytes = 32\<rparr> \<lparr>se_event = ''m'', se_data = ''a''\<rparr>"
    by code_simp
  then show ?thesis
    using rendered_events_parse_back [of "\<lparr>max_total_bytes = 64, max_line_bytes = 32\<rparr>"
        "[\<lparr>se_event = ''m'', se_data = ''a''\<rparr>]" "[''event: m'' @ [LF] @ ''dat'', ''a: a'' @ [LF, LF]]"]
    by (simp add: sse_render_def render_data_def LF_def)
qed

end
