(* ===== verification/Bytes.thy ===== *)
theory Bytes
  imports Prelude
begin

text \<open>
  Byte strings as the persistence code handles them: little-endian integers and the CRC-32C
  checksum.  Integers pass through \<open>int\<close>, so that encodings evaluate on binary numbers.
\<close>

unbundle bit_operations_syntax

section \<open>Little-endian integers\<close>

fun le_bytes :: "nat \<Rightarrow> int \<Rightarrow> u8 list" where
  "le_bytes 0 v = []"
| "le_bytes (Suc n) v = word_of_int v # le_bytes n (v div 256)"

fun le_value :: "u8 list \<Rightarrow> int" where
  "le_value [] = 0"
| "le_value (b # bs) = uint b + 256 * le_value bs"

definition u16_to_le :: "u16 \<Rightarrow> u8 list" where "u16_to_le w = le_bytes 2 (uint w)"
definition u32_to_le :: "u32 \<Rightarrow> u8 list" where "u32_to_le w = le_bytes 4 (uint w)"
definition u64_to_le :: "u64 \<Rightarrow> u8 list" where "u64_to_le w = le_bytes 8 (uint w)"

definition u16_from_le :: "u8 list \<Rightarrow> u16" where "u16_from_le bs = word_of_int (le_value bs)"
definition u32_from_le :: "u8 list \<Rightarrow> u32" where "u32_from_le bs = word_of_int (le_value bs)"
definition u64_from_le :: "u8 list \<Rightarrow> u64" where "u64_from_le bs = word_of_int (le_value bs)"

lemma le_bytes_length [simp]: "length (le_bytes n v) = n"
  by (induction n arbitrary: v) auto

lemma le_value_bytes: "0 \<le> v \<Longrightarrow> v < 256 ^ n \<Longrightarrow> le_value (le_bytes n v) = v"
proof (induction n arbitrary: v)
  case (Suc n)
  have "v div 256 < 256 ^ n" using Suc.prems by (simp add: div_less_iff_less_mult mult.commute)
  then have "le_value (le_bytes n (v div 256)) = v div 256" using Suc by simp
  moreover have "uint (word_of_int v :: u8) = v mod 256" by (simp add: uint_word_of_int)
  ultimately show ?case by simp
qed simp

lemma uint_lt: "uint (w :: 'a::len word) < 2 ^ LENGTH('a)"
  by (rule unsigned_less)

lemma le_length [simp]:
  "length (u16_to_le a) = 2" "length (u32_to_le b) = 4" "length (u64_to_le c) = 8"
  by (simp_all add: u16_to_le_def u32_to_le_def u64_to_le_def)

lemma le_roundtrip [simp]:
  "u16_from_le (u16_to_le a) = a" "u32_from_le (u32_to_le b) = b" "u64_from_le (u64_to_le c) = c"
  using uint_lt [of a] uint_lt [of b] uint_lt [of c]
  by (simp_all add: u16_from_le_def u32_from_le_def u64_from_le_def u16_to_le_def u32_to_le_def
      u64_to_le_def le_value_bytes)

section \<open>CRC-32C\<close>

definition crc_bit :: "u32 \<Rightarrow> u32" where
  "crc_bit crc = drop_bit 1 crc XOR (0x82F63B78 AND (0 - (crc AND 1)))"

definition crc_byte :: "u32 \<Rightarrow> u8 \<Rightarrow> u32" where
  "crc_byte crc b = (crc_bit ^^ 8) (crc XOR ucast b)"

definition crc32c :: "u8 list \<Rightarrow> u32" where
  "crc32c bytes = NOT (foldl crc_byte (NOT 0) bytes)"

text \<open>The reflected polynomial has its top bit set, so one step can be undone: the bit shifted out
  is the top bit of the result.\<close>

lemma crc_bit_alt: "crc_bit crc = drop_bit 1 crc XOR (if bit crc 0 then 0x82F63B78 else 0)"
  unfolding crc_bit_def and_one_eq mod_2_eq_odd bit_0 by (cases "odd crc") simp_all

lemma bit_crc_bit: "i < 32 \<Longrightarrow> bit (crc_bit a) i \<longleftrightarrow> (bit a (Suc i) \<noteq> (bit a 0 \<and> bit (0x82F63B78 :: u32) i))"
  by (auto simp: crc_bit_alt bit_xor_iff bit_drop_bit_eq)

lemma crc_bit_inj: "crc_bit a = crc_bit b \<Longrightarrow> a = b"
proof -
  assume eq: "crc_bit a = crc_bit b"
  have top: "bit (crc_bit c) 31 = bit c 0" for c
    using bit_crc_bit [of 31 c] bit_imp_le_length [of c 32] by auto
  have low: "bit a 0 = bit b 0" using top [of a] top [of b] eq by simp
  have "bit a i = bit b i" if "i < 32" for i
  proof (cases i)
    case 0
    then show ?thesis using low by simp
  next
    case (Suc j)
    then have "j < 32" using that by simp
    then show ?thesis using bit_crc_bit [of j a] bit_crc_bit [of j b] eq low Suc by auto
  qed
  then show "a = b" by (intro bit_word_eqI) simp
qed

lemma xor_cancel: "a XOR x = a XOR y \<Longrightarrow> x = y" for a :: "'a::len word"
  by (auto simp: bit_eq_iff bit_xor_iff)

lemma crc_byte_inj: "crc_byte a x = crc_byte b y \<Longrightarrow> a XOR ucast x = b XOR ucast y"
proof -
  have "(crc_bit ^^ n) a = (crc_bit ^^ n) b \<Longrightarrow> a = b" for n a b
    by (induction n) (auto dest: crc_bit_inj)
  then show "crc_byte a x = crc_byte b y \<Longrightarrow> a XOR ucast x = b XOR ucast y"
    by (simp only: crc_byte_def)
qed

lemma crc_byte_inj_left: "crc_byte a x = crc_byte b x \<Longrightarrow> a = b"
  using xor_cancel [of "ucast x" a b] by (auto dest!: crc_byte_inj simp: xor.commute)

lemma crc_fold_inj: "foldl crc_byte a bs = foldl crc_byte b bs \<Longrightarrow> a = b"
  by (induction bs arbitrary: a b) (auto dest: crc_byte_inj_left)

text \<open>Changing a single byte always changes the checksum.\<close>

lemma crc32c_byte_change:
  assumes "crc32c (xs @ x # ys) = crc32c (xs @ y # ys)"
  shows "x = y"
proof -
  have "foldl crc_byte (NOT 0) (xs @ x # ys) = foldl crc_byte (NOT 0) (xs @ y # ys)"
    using assms by (simp add: crc32c_def)
  then have "crc_byte (foldl crc_byte (NOT 0) xs) x = crc_byte (foldl crc_byte (NOT 0) xs) y"
    by (auto dest: crc_fold_inj)
  then have eq: "(ucast x :: u32) = ucast y" by (intro xor_cancel [OF crc_byte_inj])
  have "bit x i = bit y i" if "i < 8" for i
    using arg_cong [OF eq, of "\<lambda>w. bit w i"] that by (simp add: bit_ucast_iff)
  then show ?thesis by (intro bit_word_eqI) simp
qed

end
