(* ===== verification/Model.thy ===== *)
theory Model
  imports Rust_Text
begin

text \<open>
  Provider-neutral identifiers and conversation items (\<open>greentyper-core/src/model.rs\<close>) and the
  schema-version convention of everything persisted (\<open>greentyper-core/src/schema.rs\<close>).
\<close>

section \<open>Nonzero identifiers\<close>

text \<open>
  The macro \<open>nonzero_id!\<close> declares \<open>ThreadId\<close>, \<open>TurnId\<close>, \<open>ItemId\<close>, \<open>DeliveryId\<close>,
  \<open>ConfigEpochId\<close> and \<open>ProviderEpochId\<close> as distinct types over \<open>u64\<close>.  The model has one type
  with a phantom parameter; the constructor function takes the name the macro stringifies.
\<close>

datatype 'k nonzero_id = NonzeroId (nonzero_get: u64)

datatype thread_kind = ThreadKind
datatype turn_kind = TurnKind
datatype item_kind = ItemKind
datatype delivery_kind = DeliveryKind
datatype config_epoch_kind = ConfigEpochKind
datatype provider_epoch_kind = ProviderEpochKind

type_synonym thread_id = "thread_kind nonzero_id"
type_synonym turn_id = "turn_kind nonzero_id"
type_synonym item_id = "item_kind nonzero_id"
type_synonym delivery_id = "delivery_kind nonzero_id"
type_synonym config_epoch_id = "config_epoch_kind nonzero_id"
type_synonym provider_epoch_id = "provider_epoch_kind nonzero_id"

datatype model_error = ZeroId string | EmptyItem | ItemTooLarge

text \<open>The derived order is that of the numbers.\<close>

instantiation nonzero_id :: (type) linorder
begin

definition less_eq_nonzero_id :: "'a nonzero_id \<Rightarrow> 'a nonzero_id \<Rightarrow> bool" where
  "less_eq_nonzero_id a b \<longleftrightarrow> nonzero_get a \<le> nonzero_get b"

definition less_nonzero_id :: "'a nonzero_id \<Rightarrow> 'a nonzero_id \<Rightarrow> bool" where
  "less_nonzero_id a b \<longleftrightarrow> nonzero_get a < nonzero_get b"

instance
  by standard (auto simp: less_eq_nonzero_id_def less_nonzero_id_def nonzero_id.expand)

end

definition nonzero_new :: "string \<Rightarrow> u64 \<Rightarrow> (model_error, 'k nonzero_id) result" where
  "nonzero_new name value = (if value = 0 then Err (ZeroId name) else Ok (NonzeroId value))"

section \<open>Canonical items\<close>

definition MAX_ITEM_TEXT_BYTES :: usize where
  "MAX_ITEM_TEXT_BYTES = 1024 * 1024"

datatype item_role = RoleUser | RoleAssistant

record canonical_item =
  ci_id :: item_id
  ci_turn :: turn_id
  ci_role :: item_role
  ci_text :: string

definition canonical_item_new ::
  "item_id \<Rightarrow> turn_id \<Rightarrow> item_role \<Rightarrow> string \<Rightarrow> (model_error, canonical_item) result" where
  "canonical_item_new i t r text =
     (if trim text = [] then Err EmptyItem
      else if length text > MAX_ITEM_TEXT_BYTES then Err ItemTooLarge
      else Ok \<lparr>ci_id = i, ci_turn = t, ci_role = r, ci_text = text\<rparr>)"

section \<open>Schema versions\<close>

datatype schema_version = SchemaVersion (schema_get: u16)

datatype schema_kind =
    AcceptanceEvidence
  | BenchmarkEvidence
  | ConfigFile
  | ConfigEpoch
  | DeterministicFixture
  | LedgerFormat
  | ProviderCatalog
  | ProviderDiscovery
  | RuntimeEvent
  | TeamEvent
  | ToolEvent

datatype schema_error =
    ZeroVersion
  | Unsupported schema_kind schema_version schema_version \<comment> \<open>kind, supported, actual\<close>

definition schema_version_new :: "u16 \<Rightarrow> (schema_error, schema_version) result" where
  "schema_version_new version = (if version = 0 then Err ZeroVersion else Ok (SchemaVersion version))"

fun schema_current :: "schema_kind \<Rightarrow> schema_version" where
  "schema_current ConfigFile = SchemaVersion 2"
| "schema_current RuntimeEvent = SchemaVersion 14"
| "schema_current TeamEvent = SchemaVersion 4"
| "schema_current BenchmarkEvidence = SchemaVersion 2"
| "schema_current _ = SchemaVersion 1"

definition require_current :: "schema_kind \<Rightarrow> u16 \<Rightarrow> (schema_error, schema_version) result" where
  "require_current kind actual =
     andthen (schema_version_new actual) (\<lambda>actual.
       let supported = schema_current kind in
       if schema_get actual \<noteq> schema_get supported
       then Err (Unsupported kind supported actual)
       else Ok actual)"

lemma schema_current_nonzero: "schema_get (schema_current kind) \<noteq> 0"
  by (cases kind) auto

lemma require_current_Ok: "require_current kind actual = Ok v \<longleftrightarrow> actual = schema_get (schema_current kind) \<and> v = schema_current kind"
  using schema_current_nonzero [of kind]
  by (cases v; cases "schema_current kind")
     (auto simp: require_current_def schema_version_new_def result_ok Let_def split: if_splits)

end
