(* ===== verification/Ledger.thy ===== *)
theory Ledger
  imports Bytes Model
begin

text \<open>
  The append-only Event Ledger (\<open>greentyper-core/src/ledger.rs\<close>): framing and checksums, decoding
  with its cursor, the scan of a file, opening with and without repair, inspection, and appending
  with its poisoning.

  A file is the list of its bytes.  Reading a file that is there succeeds; writing can fail after
  any number of bytes, which \<open>write_outcome\<close> says.  Lengths and offsets are \<open>nat\<close>: a file is
  shorter than \<open>2 ^ 64\<close> bytes, so the checked additions on offsets within it succeed.
\<close>

unbundle bit_operations_syntax

section \<open>Data\<close>

record ledger_head =
  lh_transaction :: u64
  lh_sequence :: u64

definition ledger_head_default :: ledger_head where
  "ledger_head_default = \<lparr>lh_transaction = 0, lh_sequence = 0\<rparr>"

record event_data =
  ed_schema :: u16
  ed_kind :: u16
  ed_payload :: "u8 list"

record stored_event =
  sv_sequence :: u64
  sv_transaction :: u64
  sv_index :: u32
  sv_count :: u32
  sv_data :: event_data

record durability_receipt =
  dr_transaction :: u64
  dr_first_sequence :: u64
  dr_last_sequence :: u64
  dr_event_count :: u32
  dr_crc32c :: u32

record replay_report =
  rr_head :: ledger_head
  rr_events :: "stored_event list"
  rr_truncated :: nat

record file_ledger =
  fl_file :: "u8 list"
  fl_head :: ledger_head
  fl_events :: "stored_event list"
  fl_payload :: usize
  fl_poisoned :: bool

datatype io_error = NotFound | IoFailure string

datatype ledger_error =
    LedgerIo io_error
  | DurabilityAmbiguous io_error
  | HeadConflict ledger_head ledger_head \<comment> \<open>expected, actual\<close>
  | UnsupportedFormat u16 u16 \<comment> \<open>supported, actual\<close>
  | Corrupt nat string \<comment> \<open>offset, reason\<close>
  | EmptyTransaction
  | TooManyEvents
  | PayloadTooLarge
  | FrameTooLarge
  | ZeroEventSchema
  | ZeroEventKind
  | ReplayLimitExceeded
  | ReplayPayloadLimitExceeded
  | IncompleteTail nat
  | IntegerOverflow
  | WriterPoisoned
  | Locked
  | SymlinkPath
  | NotRegularFile

type_synonym 'a ledger_result = "(ledger_error, 'a) result"

section \<open>Constants\<close>

definition HEADER_MAGIC :: "u8 list" where
  "HEADER_MAGIC = [0x47, 0x54, 0x4C, 0x45, 0x44, 0x47, 0x45, 0x52]" \<comment> \<open>GTLEDGER\<close>
definition HEADER_BYTES :: nat where "HEADER_BYTES = 16"
definition FORMAT_VERSION :: u16 where "FORMAT_VERSION = schema_get (schema_current LedgerFormat)"
definition TRANSACTION_MAGIC :: "u8 list" where "TRANSACTION_MAGIC = [0x47, 0x54, 0x58, 0x4E]" \<comment> \<open>GTXN\<close>
definition COMMIT_MAGIC :: "u8 list" where "COMMIT_MAGIC = [0x43, 0x4D, 0x49, 0x54]" \<comment> \<open>CMIT\<close>

definition MAX_EVENT_PAYLOAD_BYTES :: int where "MAX_EVENT_PAYLOAD_BYTES = 1024 * 1024"
definition MAX_EVENTS_PER_TRANSACTION :: int where "MAX_EVENTS_PER_TRANSACTION = 4096"
definition MAX_FRAME_BODY_BYTES :: int where "MAX_FRAME_BODY_BYTES = 4 * 1024 * 1024"
definition MAX_REPLAY_EVENTS :: int where "MAX_REPLAY_EVENTS = 1000000"
definition MAX_REPLAY_PAYLOAD_BYTES :: int where "MAX_REPLAY_PAYLOAD_BYTES = 64 * 1024 * 1024"

lemmas ledger_bounds =
  MAX_EVENT_PAYLOAD_BYTES_def MAX_EVENTS_PER_TRANSACTION_def MAX_FRAME_BODY_BYTES_def
  MAX_REPLAY_EVENTS_def MAX_REPLAY_PAYLOAD_BYTES_def

section \<open>The header\<close>

definition ledger_header :: "u8 list" where
  "ledger_header =
     (let h = HEADER_MAGIC @ u16_to_le FORMAT_VERSION @ u16_to_le 0 in h @ u32_to_le (crc32c h))"

definition validate_header :: "u8 list \<Rightarrow> unit ledger_result" where
  "validate_header file =
     (if length file < HEADER_BYTES then Err (Corrupt 0 ''truncated ledger header'')
      else
      let header = take HEADER_BYTES file; version = u16_from_le (take 2 (drop 8 header)) in
      if take 8 header \<noteq> HEADER_MAGIC then Err (Corrupt 0 ''invalid ledger magic'')
      else if version \<noteq> FORMAT_VERSION then Err (UnsupportedFormat FORMAT_VERSION version)
      else if take 2 (drop 10 header) \<noteq> [0, 0] then Err (Corrupt 10 ''reserved ledger header bits are set'')
      else if crc32c (take 12 header) \<noteq> u32_from_le (take 4 (drop 12 header))
      then Err (Corrupt 12 ''ledger header checksum mismatch'')
      else Ok ())"

section \<open>Encoding a transaction\<close>

definition validate_event :: "event_data \<Rightarrow> unit ledger_result" where
  "validate_event e =
     (if ed_schema e = 0 then Err ZeroEventSchema
      else if ed_kind e = 0 then Err ZeroEventKind
      else if int (length (ed_payload e)) > MAX_EVENT_PAYLOAD_BYTES then Err PayloadTooLarge
      else Ok ())"

definition validate_events :: "event_data list \<Rightarrow> unit ledger_result" where
  "validate_events events =
     (if events = [] then Err EmptyTransaction
      else if int (length events) > MAX_EVENTS_PER_TRANSACTION then Err TooManyEvents
      else try_each validate_event events)"

definition event_header :: "u64 \<Rightarrow> u32 \<Rightarrow> u32 \<Rightarrow> event_data \<Rightarrow> u32 \<Rightarrow> u8 list" where
  "event_header sequence index count e payload_length =
     u64_to_le sequence @ u32_to_le index @ u32_to_le count @ u16_to_le (ed_schema e)
       @ u16_to_le (ed_kind e) @ u32_to_le payload_length"

text \<open>The loop over the events: it extends the body and the stored events.\<close>

definition encode_event ::
  "u64 \<Rightarrow> u64 \<Rightarrow> u32 \<Rightarrow> u8 list \<times> stored_event list \<Rightarrow> nat \<times> event_data
     \<Rightarrow> (u8 list \<times> stored_event list) ledger_result" where
  "encode_event transaction first_sequence count bs ie =
     (case bs of (body, stored) \<Rightarrow> case ie of (i, e) \<Rightarrow>
      andthen (ok_or (u32_try_from i) IntegerOverflow) (\<lambda>index.
      andthen (ok_or (checked_add first_sequence (ucast index)) IntegerOverflow) (\<lambda>sequence.
      andthen (ok_or (u32_try_from (length (ed_payload e))) PayloadTooLarge) (\<lambda>payload_length.
      Ok (body @ event_header sequence index count e payload_length @ ed_payload e,
          stored @ [\<lparr>sv_sequence = sequence, sv_transaction = transaction, sv_index = index,
                     sv_count = count, sv_data = e\<rparr>])))))"

definition transaction_frame :: "u32 \<Rightarrow> u8 list \<Rightarrow> u8 list" where
  "transaction_frame body_length body =
     TRANSACTION_MAGIC @ u32_to_le body_length @ u32_to_le (NOT body_length) @ body
       @ u32_to_le (crc32c body) @ COMMIT_MAGIC"

definition encode_transaction ::
  "u64 \<Rightarrow> u64 \<Rightarrow> event_data list \<Rightarrow> (u8 list \<times> stored_event list \<times> durability_receipt) ledger_result" where
  "encode_transaction transaction first_sequence events =
     andthen (ok_or (u32_try_from (length events)) TooManyEvents) (\<lambda>count.
     andthen (try_fold (encode_event transaction first_sequence count)
               (u64_to_le transaction @ u64_to_le first_sequence @ u32_to_le count, []) (enumerate 0 events))
       (\<lambda>(body, stored).
     if int (length body) > MAX_FRAME_BODY_BYTES then Err FrameTooLarge
     else
     andthen (ok_or (u32_try_from (length body)) FrameTooLarge) (\<lambda>body_length.
     andthen (ok_or (checked_add first_sequence (ucast count - 1)) IntegerOverflow) (\<lambda>last_sequence.
     Ok (transaction_frame body_length body, stored,
         \<lparr>dr_transaction = transaction, dr_first_sequence = first_sequence,
          dr_last_sequence = last_sequence, dr_event_count = count, dr_crc32c = crc32c body\<rparr>)))))"

section \<open>Decoding a transaction\<close>

record body_cursor =
  bc_body :: "u8 list"
  bc_position :: usize

definition cursor_bytes :: "usize \<Rightarrow> string \<Rightarrow> body_cursor \<Rightarrow> (u8 list \<times> body_cursor) ledger_result" where
  "cursor_bytes n field c =
     andthen (ok_or (usize_add (bc_position c) n) IntegerOverflow) (\<lambda>last.
     if last \<le> length (bc_body c)
     then Ok (take n (drop (bc_position c) (bc_body c)), c\<lparr>bc_position := last\<rparr>)
     else Err (Corrupt (bc_position c) field))"

definition cursor_u16 :: "string \<Rightarrow> body_cursor \<Rightarrow> (u16 \<times> body_cursor) ledger_result" where
  "cursor_u16 field c = map_ok (map_prod u16_from_le id) (cursor_bytes 2 field c)"

definition cursor_u32 :: "string \<Rightarrow> body_cursor \<Rightarrow> (u32 \<times> body_cursor) ledger_result" where
  "cursor_u32 field c = map_ok (map_prod u32_from_le id) (cursor_bytes 4 field c)"

definition cursor_u64 :: "string \<Rightarrow> body_cursor \<Rightarrow> (u64 \<times> body_cursor) ledger_result" where
  "cursor_u64 field c = map_ok (map_prod u64_from_le id) (cursor_bytes 8 field c)"

definition cursor_is_empty :: "body_cursor \<Rightarrow> bool" where
  "cursor_is_empty c \<longleftrightarrow> bc_position c = length (bc_body c)"

definition checked_replay_payload_bytes :: "usize \<Rightarrow> usize \<Rightarrow> usize ledger_result" where
  "checked_replay_payload_bytes current additional =
     andthen (ok_or (usize_add current additional) IntegerOverflow) (\<lambda>bytes.
     if int bytes > MAX_REPLAY_PAYLOAD_BYTES then Err ReplayPayloadLimitExceeded else Ok bytes)"

definition decode_event ::
  "u64 \<Rightarrow> u64 \<Rightarrow> u32 \<Rightarrow> body_cursor \<times> stored_event list \<times> usize \<Rightarrow> nat
     \<Rightarrow> (body_cursor \<times> stored_event list \<times> usize) ledger_result" where
  "decode_event transaction first_sequence count acc i =
     (case acc of (c, events, payload_bytes) \<Rightarrow>
      andthen (cursor_u64 ''event sequence'' c) (\<lambda>(sequence, c).
      andthen (cursor_u32 ''event index'' c) (\<lambda>(index, c).
      andthen (cursor_u32 ''event total'' c) (\<lambda>(all_events, c).
      andthen (cursor_u16 ''event schema'' c) (\<lambda>(schema, c).
      andthen (cursor_u16 ''event kind'' c) (\<lambda>(kind, c).
      andthen (cursor_u32 ''event payload length'' c) (\<lambda>(payload_length, c).
      andthen (ok_or (checked_add first_sequence (of_nat i)) IntegerOverflow) (\<lambda>expected_sequence.
      if sequence \<noteq> expected_sequence \<or> index \<noteq> of_nat i \<or> all_events \<noteq> count
      then Err (Corrupt (bc_position c) ''event transaction metadata is inconsistent'')
      else if schema = 0 \<or> kind = 0
      then Err (Corrupt (bc_position c) ''event schema and kind must be nonzero'')
      else if uint payload_length > MAX_EVENT_PAYLOAD_BYTES
      then Err (Corrupt (bc_position c) ''event payload is too large'')
      else
      andthen (checked_replay_payload_bytes payload_bytes (unat payload_length)) (\<lambda>payload_bytes.
      andthen (cursor_bytes (unat payload_length) ''event payload'' c) (\<lambda>(payload, c).
      Ok (c, events @ [\<lparr>sv_sequence = sequence, sv_transaction = transaction, sv_index = index,
            sv_count = all_events,
            sv_data = \<lparr>ed_schema = schema, ed_kind = kind, ed_payload = payload\<rparr>\<rparr>], payload_bytes)))))))))))"

record decoded_transaction =
  dt_head :: ledger_head
  dt_events :: "stored_event list"
  dt_payload :: usize

definition decode_transaction ::
  "u8 list \<Rightarrow> ledger_head \<Rightarrow> usize \<Rightarrow> usize \<Rightarrow> decoded_transaction ledger_result" where
  "decode_transaction body previous replayed_events replayed_payload =
     andthen (cursor_u64 ''transaction id'' \<lparr>bc_body = body, bc_position = 0\<rparr>) (\<lambda>(transaction, c).
     andthen (cursor_u64 ''first sequence'' c) (\<lambda>(first_sequence, c).
     andthen (cursor_u32 ''event count'' c) (\<lambda>(count, c).
     if count = 0 \<or> uint count > MAX_EVENTS_PER_TRANSACTION
     then Err (Corrupt 0 ''transaction event count is out of bounds'')
     else
     andthen (ok_or (checked_add (lh_transaction previous) 1) IntegerOverflow) (\<lambda>next_transaction.
     if transaction \<noteq> next_transaction then Err (Corrupt 0 ''transaction id is not contiguous'')
     else
     andthen (ok_or (checked_add (lh_sequence previous) 1) IntegerOverflow) (\<lambda>next_sequence.
     if first_sequence \<noteq> next_sequence then Err (Corrupt 8 ''event sequence is not contiguous'')
     else
     andthen (ok_or (usize_add replayed_events (unat count)) IntegerOverflow) (\<lambda>all_events.
     if int all_events > MAX_REPLAY_EVENTS then Err ReplayLimitExceeded
     else
     andthen (try_fold (decode_event transaction first_sequence count) (c, [], replayed_payload)
               [0..<unat count]) (\<lambda>(c, events, payload_bytes).
     if \<not> cursor_is_empty c then Err (Corrupt (bc_position c) ''transaction has trailing bytes'')
     else
     andthen (ok_or (checked_add first_sequence (ucast count - 1)) IntegerOverflow) (\<lambda>last_sequence.
     Ok \<lparr>dt_head = \<lparr>lh_transaction = transaction, lh_sequence = last_sequence\<rparr>,
         dt_events = events, dt_payload = payload_bytes\<rparr>))))))))"

section \<open>Scanning a file\<close>

text \<open>The frame at the head of \<open>rest\<close>: its body and its size, or \<open>None\<close> for an incomplete tail.\<close>

definition read_frame :: "nat \<Rightarrow> u8 list \<Rightarrow> (u8 list \<times> nat) option ledger_result" where
  "read_frame offset rest =
     (if length rest < 4 then Ok None
      else if take 4 rest \<noteq> TRANSACTION_MAGIC then Err (Corrupt offset ''invalid transaction magic'')
      else if length rest < 12 then Ok None
      else
      let length_word = u32_from_le (take 4 (drop 4 rest));
          complement = u32_from_le (take 4 (drop 8 rest));
          body_length = unat length_word; frame_bytes = 4 + 4 + 4 + body_length + 4 + 4 in
      if complement \<noteq> NOT length_word
      then Err (Corrupt (offset + 8) ''transaction frame length check mismatch'')
      else if body_length = 0 \<or> int body_length > MAX_FRAME_BODY_BYTES
      then Err (Corrupt (offset + 4) ''transaction frame length is out of bounds'')
      else if length rest < frame_bytes then Ok None
      else
      let body = take body_length (drop 12 rest) in
      if crc32c body \<noteq> u32_from_le (take 4 (drop (12 + body_length) rest))
      then Err (Corrupt (offset + 12 + body_length) ''transaction checksum mismatch'')
      else if take 4 (drop (16 + body_length) rest) \<noteq> COMMIT_MAGIC
      then Err (Corrupt (offset + frame_bytes - 4) ''transaction commit marker is invalid'')
      else Ok (Some (body, frame_bytes)))"

record scan_result =
  sr_head :: ledger_head
  sr_events :: "stored_event list"
  sr_valid_bytes :: nat
  sr_payload :: usize

lemma read_frame_bytes: "read_frame offset rest = Ok (Some (body, n)) \<Longrightarrow> 0 < n \<and> n \<le> length rest"
  by (auto simp: read_frame_def Let_def split: if_splits)

function scan_loop :: "u8 list \<Rightarrow> scan_result \<Rightarrow> scan_result ledger_result" where
  "scan_loop rest acc =
     (if rest = [] then Ok acc
      else andthen (read_frame (sr_valid_bytes acc) rest) (\<lambda>frame.
        case frame of None \<Rightarrow> Ok acc
        | Some (body, n) \<Rightarrow>
            andthen (decode_transaction body (sr_head acc) (length (sr_events acc)) (sr_payload acc)) (\<lambda>d.
            scan_loop (drop n rest)
              \<lparr>sr_head = dt_head d, sr_events = sr_events acc @ dt_events d,
               sr_valid_bytes = sr_valid_bytes acc + n, sr_payload = dt_payload d\<rparr>)))"
  by pat_completeness auto
termination
  by (relation "measure (\<lambda>(rest, acc). length rest)") (auto dest: read_frame_bytes)

declare scan_loop.simps [simp del]

definition scan_start :: scan_result where
  "scan_start = \<lparr>sr_head = ledger_head_default, sr_events = [], sr_valid_bytes = HEADER_BYTES, sr_payload = 0\<rparr>"

definition scan_transactions :: "u8 list \<Rightarrow> scan_result ledger_result" where
  "scan_transactions file = scan_loop (drop HEADER_BYTES file) scan_start"

section \<open>Opening, inspecting\<close>

text \<open>What is at a path.\<close>

datatype file_node = Missing | Symlink | NonFile | Regular "u8 list"

definition validate_path :: "file_node \<Rightarrow> bool \<Rightarrow> unit ledger_result" where
  "validate_path node allow_missing =
     (case node of
        Symlink \<Rightarrow> Err SymlinkPath
      | NonFile \<Rightarrow> Err NotRegularFile
      | Regular _ \<Rightarrow> Ok ()
      | Missing \<Rightarrow> if allow_missing then Ok () else Err (LedgerIo NotFound))"

definition node_bytes :: "file_node \<Rightarrow> u8 list" where
  "node_bytes node = (case node of Regular bytes \<Rightarrow> bytes | _ \<Rightarrow> [])"

text \<open>The checks and repairs on the bytes of an opened and locked file.\<close>

definition open_bytes ::
  "u8 list \<Rightarrow> bool \<Rightarrow> bool \<Rightarrow> (file_ledger \<times> replay_report) ledger_result" where
  "open_bytes bytes create repair_tail =
     (let bytes' = (if bytes = [] \<and> create then ledger_header else bytes) in
      andthen (if bytes = [] \<and> create then Ok () else validate_header bytes) (\<lambda>_.
      andthen (scan_transactions bytes') (\<lambda>scan.
      andthen (ok_or (if sr_valid_bytes scan \<le> length bytes'
                      then Some (length bytes' - sr_valid_bytes scan) else None) IntegerOverflow) (\<lambda>truncated.
      if truncated > 0 \<and> \<not> repair_tail then Err (IncompleteTail truncated)
      else Ok (\<lparr>fl_file = take (sr_valid_bytes scan) bytes', fl_head = sr_head scan,
                fl_events = sr_events scan, fl_payload = sr_payload scan, fl_poisoned = False\<rparr>,
               \<lparr>rr_head = sr_head scan, rr_events = sr_events scan, rr_truncated = truncated\<rparr>)))))"

definition open_with_policy ::
  "file_node \<Rightarrow> bool \<Rightarrow> bool \<Rightarrow> bool \<Rightarrow> (file_ledger \<times> replay_report) ledger_result" where
  "open_with_policy node locked create repair_tail =
     andthen (validate_path node create) (\<lambda>_.
     if locked then Err Locked else open_bytes (node_bytes node) create repair_tail)"

definition ledger_open :: "file_node \<Rightarrow> bool \<Rightarrow> (file_ledger \<times> replay_report) ledger_result" where
  "ledger_open node locked = open_with_policy node locked True True"

definition open_existing_strict :: "file_node \<Rightarrow> bool \<Rightarrow> (file_ledger \<times> replay_report) ledger_result" where
  "open_existing_strict node locked = open_with_policy node locked False False"

definition inspect :: "file_node \<Rightarrow> bool \<Rightarrow> replay_report ledger_result" where
  "inspect node locked =
     andthen (validate_path node False) (\<lambda>_.
     if locked then Err Locked
     else
     andthen (validate_header (node_bytes node)) (\<lambda>_.
     andthen (scan_transactions (node_bytes node)) (\<lambda>scan.
     andthen (ok_or (if sr_valid_bytes scan \<le> length (node_bytes node)
                     then Some (length (node_bytes node) - sr_valid_bytes scan) else None) IntegerOverflow)
       (\<lambda>truncated.
     Ok \<lparr>rr_head = sr_head scan, rr_events = sr_events scan, rr_truncated = truncated\<rparr>))))"

section \<open>Appending\<close>

text \<open>How writing a frame ends: synced, or failed when so many of its bytes had reached the file.\<close>

datatype write_outcome = Synced | FailedAfter nat io_error

definition write_frame_synchronously ::
  "write_outcome \<Rightarrow> u8 list \<Rightarrow> u8 list \<Rightarrow> (io_error, unit) result \<times> u8 list" where
  "write_frame_synchronously outcome file frame =
     (case outcome of Synced \<Rightarrow> (Ok (), file @ frame) | FailedAfter n e \<Rightarrow> (Err e, file @ take n frame))"

definition transaction_payload_bytes :: "event_data list \<Rightarrow> usize ledger_result" where
  "transaction_payload_bytes events =
     try_fold (\<lambda>bytes e. ok_or (usize_add bytes (length (ed_payload e))) IntegerOverflow) 0 events"

text \<open>Everything \<open>append_with_io\<close> does before the write: the frame, what to store and the receipt.\<close>

definition prepare_append ::
  "file_ledger \<Rightarrow> ledger_head \<Rightarrow> event_data list
     \<Rightarrow> (u8 list \<times> stored_event list \<times> durability_receipt \<times> usize) ledger_result" where
  "prepare_append l expected events =
     (if fl_poisoned l then Err WriterPoisoned
      else if expected \<noteq> fl_head l then Err (HeadConflict expected (fl_head l))
      else
      andthen (validate_events events) (\<lambda>_.
      andthen (ok_or (usize_add (length (fl_events l)) (length events)) IntegerOverflow) (\<lambda>replayed.
      if int replayed > MAX_REPLAY_EVENTS then Err ReplayLimitExceeded
      else
      andthen (transaction_payload_bytes events) (\<lambda>additional.
      andthen (checked_replay_payload_bytes (fl_payload l) additional) (\<lambda>payload_bytes.
      andthen (ok_or (checked_add (lh_transaction (fl_head l)) 1) IntegerOverflow) (\<lambda>transaction.
      andthen (ok_or (checked_add (lh_sequence (fl_head l)) 1) IntegerOverflow) (\<lambda>first_sequence.
      andthen (encode_transaction transaction first_sequence events) (\<lambda>(frame, stored, receipt).
      Ok (frame, stored, receipt, payload_bytes)))))))))"

definition append_with_io ::
  "(u8 list \<Rightarrow> u8 list \<Rightarrow> (io_error, unit) result \<times> u8 list) \<Rightarrow> file_ledger \<Rightarrow> ledger_head
     \<Rightarrow> event_data list \<Rightarrow> durability_receipt ledger_result \<times> file_ledger" where
  "append_with_io write_frame l expected events =
     (case prepare_append l expected events of
        Ok (frame, stored, receipt, payload_bytes) \<Rightarrow>
          (case write_frame (fl_file l) frame of
             (Ok _, file) \<Rightarrow>
               (Ok receipt, l\<lparr>fl_file := file,
                  fl_head := \<lparr>lh_transaction = dr_transaction receipt, lh_sequence = dr_last_sequence receipt\<rparr>,
                  fl_events := fl_events l @ stored, fl_payload := payload_bytes\<rparr>)
           | (Err source, file) \<Rightarrow>
               (Err (DurabilityAmbiguous source), l\<lparr>fl_file := file, fl_poisoned := True\<rparr>)
           | (Diverges, file) \<Rightarrow> (Diverges, l))
      | Err e \<Rightarrow> (Err e, l)
      | Diverges \<Rightarrow> (Diverges, l))"

definition ledger_append ::
  "write_outcome \<Rightarrow> file_ledger \<Rightarrow> ledger_head \<Rightarrow> event_data list
     \<Rightarrow> durability_receipt ledger_result \<times> file_ledger" where
  "ledger_append outcome = append_with_io (write_frame_synchronously outcome)"

end
