(* ===== verification/Ledger_Laws.thy ===== *)
theory Ledger_Laws
  imports Ledger
begin

text \<open>
  What the codec and the scan of the Ledger do: decoding inverts encoding, a complete frame is read
  back, a strict prefix of one is an incomplete tail, and a scan of a concatenation is the scans one
  after the other.
\<close>

unbundle bit_operations_syntax

section \<open>The cursor\<close>

lemma cursor_bytes_at:
  assumes "length (pre @ xs @ post) < 2 ^ 64" and "n = length xs"
  shows "cursor_bytes n f \<lparr>bc_body = pre @ xs @ post, bc_position = length pre\<rparr> =
    Ok (xs, \<lparr>bc_body = pre @ xs @ post, bc_position = length (pre @ xs)\<rparr>)"
proof -
  have "usize_add (length pre) (length xs) = Some (length (pre @ xs))"
    using assms(1) by (simp add: usize_add_def)
  then show ?thesis using assms(2) by (simp add: cursor_bytes_def)
qed

lemma cursor_ints_at:
  "length (pre @ u64_to_le a @ post) < 2 ^ 64 \<Longrightarrow>
     cursor_u64 f \<lparr>bc_body = pre @ u64_to_le a @ post, bc_position = length pre\<rparr> =
     Ok (a, \<lparr>bc_body = pre @ u64_to_le a @ post, bc_position = length (pre @ u64_to_le a)\<rparr>)"
  "length (pre @ u32_to_le b @ post) < 2 ^ 64 \<Longrightarrow>
     cursor_u32 f \<lparr>bc_body = pre @ u32_to_le b @ post, bc_position = length pre\<rparr> =
     Ok (b, \<lparr>bc_body = pre @ u32_to_le b @ post, bc_position = length (pre @ u32_to_le b)\<rparr>)"
  "length (pre @ u16_to_le c @ post) < 2 ^ 64 \<Longrightarrow>
     cursor_u16 f \<lparr>bc_body = pre @ u16_to_le c @ post, bc_position = length pre\<rparr> =
     Ok (c, \<lparr>bc_body = pre @ u16_to_le c @ post, bc_position = length (pre @ u16_to_le c)\<rparr>)"
  by (simp_all only: cursor_u64_def cursor_u32_def cursor_u16_def) (simp_all add: cursor_bytes_at)

section \<open>Encoded events\<close>

definition event_bytes :: "u64 \<Rightarrow> u32 \<Rightarrow> nat \<times> event_data \<Rightarrow> u8 list" where
  "event_bytes s count ie =
     (case ie of (i, e) \<Rightarrow>
       event_header (s + of_nat i) (of_nat i) count e (of_nat (length (ed_payload e))) @ ed_payload e)"

definition event_stored :: "u64 \<Rightarrow> u64 \<Rightarrow> u32 \<Rightarrow> nat \<times> event_data \<Rightarrow> stored_event" where
  "event_stored tx s count ie =
     (case ie of (i, e) \<Rightarrow> \<lparr>sv_sequence = s + of_nat i, sv_transaction = tx, sv_index = of_nat i,
        sv_count = count, sv_data = e\<rparr>)"

lemma ucast_of_nat_u32: "i < 2 ^ 32 \<Longrightarrow> (ucast (of_nat i :: u32) :: u64) = of_nat i"
  by (simp add: word_eq_iff_unsigned unsigned_ucast_eq unsigned_of_nat take_bit_nat_eq_self)

lemma encode_event_Ok:
  "encode_event tx s count (body, stored) (i, e) = Ok (body', stored') \<longleftrightarrow>
     i < 2 ^ 32 \<and> checked_add s (of_nat i) \<noteq> None \<and> length (ed_payload e) < 2 ^ 32
     \<and> body' = body @ event_bytes s count (i, e) \<and> stored' = stored @ [event_stored tx s count (i, e)]"
  by (auto simp: encode_event_def result_ok event_bytes_def event_stored_def ucast_of_nat_u32
      checked_add_Some_iff)

lemma encode_fold_Ok:
  "try_fold (encode_event tx s count) (body, stored) (enumerate k es) = Ok (body', stored') \<Longrightarrow>
     body' = body @ concat (map (event_bytes s count) (enumerate k es))
   \<and> stored' = stored @ map (event_stored tx s count) (enumerate k es)
   \<and> (\<forall>i < length es. k + i < 2 ^ 32 \<and> checked_add s (of_nat (k + i)) \<noteq> None
        \<and> length (ed_payload (es ! i)) < 2 ^ 32)"
proof (induction es arbitrary: k body stored)
  case (Cons e es)
  from Cons.prems obtain body1 stored1 where
    step: "encode_event tx s count (body, stored) (k, e) = Ok (body1, stored1)"
    and rest: "try_fold (encode_event tx s count) (body1, stored1) (enumerate (Suc k) es) = Ok (body', stored')"
    by (auto simp: result_ok)
  from Cons.IH [OF rest] step show ?case
    by (auto simp: encode_event_Ok All_less_Suc2 ac_simps)
qed simp

definition event_valid :: "event_data \<Rightarrow> bool" where
  "event_valid e \<longleftrightarrow> ed_schema e \<noteq> 0 \<and> ed_kind e \<noteq> 0 \<and> int (length (ed_payload e)) \<le> MAX_EVENT_PAYLOAD_BYTES"

lemma validate_event_Ok [result_ok]: "validate_event e = Ok u \<longleftrightarrow> event_valid e"
  by (auto simp: validate_event_def event_valid_def)

lemma decode_event_at:
  assumes "length (pre @ event_bytes s count (i, e) @ post) < 2 ^ 64"
    and "event_valid e" and "i < 2 ^ 32" and "checked_add s (of_nat i) \<noteq> None"
    and "checked_replay_payload_bytes p (length (ed_payload e)) = Ok p'"
  shows "decode_event tx s count (\<lparr>bc_body = pre @ event_bytes s count (i, e) @ post, bc_position = length pre\<rparr>, evs, p) i =
    Ok (\<lparr>bc_body = pre @ event_bytes s count (i, e) @ post, bc_position = length (pre @ event_bytes s count (i, e))\<rparr>,
        evs @ [event_stored tx s count (i, e)], p')"
proof -
  let ?pl = "ed_payload e"
  let ?n = "of_nat (length ?pl) :: u32"
  have n: "unat ?n = length ?pl"
    using assms(2) by (simp add: event_valid_def MAX_EVENT_PAYLOAD_BYTES_def unat_of_nat)
  then have un: "uint ?n = int (length ?pl)" by (simp add: uint_nat)
  let ?c = "\<lambda>k. \<lparr>bc_body = pre @ event_bytes s count (i, e) @ post, bc_position = k\<rparr>"
  let ?h = "u64_to_le (s + of_nat i)" and ?i = "u32_to_le (of_nat i)" and ?t = "u32_to_le count"
  let ?s = "u16_to_le (ed_schema e)" and ?k = "u16_to_le (ed_kind e)" and ?l = "u32_to_le ?n"
  have body: "pre @ event_bytes s count (i, e) @ post = pre @ ?h @ ?i @ ?t @ ?s @ ?k @ ?l @ ?pl @ post"
    by (simp add: event_bytes_def event_header_def)
  have len: "length (pre @ ?h @ ?i @ ?t @ ?s @ ?k @ ?l @ ?pl @ post) < 2 ^ 64" using assms(1) unfolding body .
  have r: "cursor_u64 f1 (?c (length pre)) = Ok (s + of_nat i, ?c (length pre + 8))"
    "cursor_u32 f2 (?c (length pre + 8)) = Ok (of_nat i, ?c (length pre + 12))"
    "cursor_u32 f3 (?c (length pre + 12)) = Ok (count, ?c (length pre + 16))"
    "cursor_u16 f4 (?c (length pre + 16)) = Ok (ed_schema e, ?c (length pre + 18))"
    "cursor_u16 f5 (?c (length pre + 18)) = Ok (ed_kind e, ?c (length pre + 20))"
    "cursor_u32 f6 (?c (length pre + 20)) = Ok (?n, ?c (length pre + 24))"
    "cursor_bytes (length ?pl) f7 (?c (length pre + 24)) = Ok (?pl, ?c (length pre + 24 + length ?pl))"
    for f1 f2 f3 f4 f5 f6 f7
    using cursor_ints_at(1) [of pre "s + of_nat i" "?i @ ?t @ ?s @ ?k @ ?l @ ?pl @ post" f1]
      cursor_ints_at(2) [of "pre @ ?h" "of_nat i" "?t @ ?s @ ?k @ ?l @ ?pl @ post" f2]
      cursor_ints_at(2) [of "pre @ ?h @ ?i" count "?s @ ?k @ ?l @ ?pl @ post" f3]
      cursor_ints_at(3) [of "pre @ ?h @ ?i @ ?t" "ed_schema e" "?k @ ?l @ ?pl @ post" f4]
      cursor_ints_at(3) [of "pre @ ?h @ ?i @ ?t @ ?s" "ed_kind e" "?l @ ?pl @ post" f5]
      cursor_ints_at(2) [of "pre @ ?h @ ?i @ ?t @ ?s @ ?k" ?n "?pl @ post" f6]
      cursor_bytes_at [of "pre @ ?h @ ?i @ ?t @ ?s @ ?k @ ?l" ?pl post "length ?pl" f7] len
    unfolding body by (simp_all add: add.assoc)
  have end_pos: "length (pre @ event_bytes s count (i, e)) = length pre + 24 + length ?pl"
    by (simp add: event_bytes_def event_header_def)
  have "checked_add s (of_nat i) = Some (s + of_nat i)" using assms(4) by (auto simp: checked_add_Some_iff)
  then show ?thesis
    using assms(2,5) n un unfolding end_pos
    by (simp add: decode_event_def r event_stored_def event_valid_def)
qed

definition payload_sum :: "event_data list \<Rightarrow> nat" where
  "payload_sum es = sum_list (map (length \<circ> ed_payload) es)"

lemma payload_sum_simps [simp]:
  "payload_sum [] = 0" "payload_sum (e # es) = length (ed_payload e) + payload_sum es"
  by (simp_all add: payload_sum_def)

lemma checked_replay_Ok:
  "checked_replay_payload_bytes p n = Ok q \<longleftrightarrow> q = p + n \<and> int q \<le> MAX_REPLAY_PAYLOAD_BYTES"
  by (auto simp: checked_replay_payload_bytes_def result_ok usize_add_def MAX_REPLAY_PAYLOAD_BYTES_def)

lemma transaction_payload_Ok: "transaction_payload_bytes es = Ok n \<Longrightarrow> n = payload_sum es"
proof -
  have "try_fold (\<lambda>bytes e. ok_or (usize_add bytes (length (ed_payload e))) IntegerOverflow) p es = Ok n
      \<Longrightarrow> n = p + payload_sum es" for p
    by (induction es arbitrary: p) (fastforce simp: result_ok dest: usize_add_SomeD)+
  then show "transaction_payload_bytes es = Ok n \<Longrightarrow> n = payload_sum es"
    by (fastforce simp: transaction_payload_bytes_def)
qed

lemma decode_fold_at:
  assumes "length (pre @ concat (map (event_bytes s count) (enumerate k es)) @ post) < 2 ^ 64"
    and "\<forall>e \<in> set es. event_valid e"
    and "\<forall>i < length es. k + i < 2 ^ 32 \<and> checked_add s (of_nat (k + i)) \<noteq> None"
    and "int (p + payload_sum es) \<le> MAX_REPLAY_PAYLOAD_BYTES"
  shows "try_fold (decode_event tx s count)
      (\<lparr>bc_body = pre @ concat (map (event_bytes s count) (enumerate k es)) @ post, bc_position = length pre\<rparr>, evs, p)
      [k..<k + length es] =
    Ok (\<lparr>bc_body = pre @ concat (map (event_bytes s count) (enumerate k es)) @ post,
         bc_position = length (pre @ concat (map (event_bytes s count) (enumerate k es)))\<rparr>,
        evs @ map (event_stored tx s count) (enumerate k es), p + payload_sum es)"
  using assms
proof (induction es arbitrary: pre k p evs)
  case (Cons e es)
  let ?rest = "concat (map (event_bytes s count) (enumerate (Suc k) es)) @ post"
  have idx: "[k..<k + length (e # es)] = k # [Suc k..<Suc k + length es]"
    by (simp add: upt_rec)
  have here: "k < 2 ^ 32" "checked_add s (of_nat k) \<noteq> None"
    and later: "\<forall>i < length es. Suc k + i < 2 ^ 32 \<and> checked_add s (of_nat (Suc k + i)) \<noteq> None"
    using Cons.prems(3) by (auto simp: All_less_Suc2 ac_simps)
  have pay: "checked_replay_payload_bytes p (length (ed_payload e)) = Ok (p + length (ed_payload e))"
    using Cons.prems(4) by (simp add: checked_replay_Ok)
  have step: "decode_event tx s count (\<lparr>bc_body = pre @ event_bytes s count (k, e) @ ?rest, bc_position = length pre\<rparr>, evs, p) k =
      Ok (\<lparr>bc_body = pre @ event_bytes s count (k, e) @ ?rest, bc_position = length (pre @ event_bytes s count (k, e))\<rparr>,
          evs @ [event_stored tx s count (k, e)], p + length (ed_payload e))"
    using Cons.prems(1,2) by (intro decode_event_at here pay) simp_all
  have "try_fold (decode_event tx s count)
      (\<lparr>bc_body = (pre @ event_bytes s count (k, e)) @ ?rest, bc_position = length (pre @ event_bytes s count (k, e))\<rparr>,
       evs @ [event_stored tx s count (k, e)], p + length (ed_payload e)) [Suc k..<Suc k + length es] =
    Ok (\<lparr>bc_body = (pre @ event_bytes s count (k, e)) @ ?rest,
         bc_position = length ((pre @ event_bytes s count (k, e)) @ concat (map (event_bytes s count) (enumerate (Suc k) es)))\<rparr>,
        (evs @ [event_stored tx s count (k, e)]) @ map (event_stored tx s count) (enumerate (Suc k) es),
        p + length (ed_payload e) + payload_sum es)"
    using Cons.prems by (intro Cons.IH later) simp_all
  then show ?case using step unfolding idx by (simp add: ac_simps)
qed simp

section \<open>Transactions\<close>

lemma decode_encoded:
  assumes enc: "encode_transaction tx s es = Ok (frame, stored, receipt)"
    and valid: "validate_events es = Ok ()"
    and head: "checked_add (lh_transaction prev) 1 = Some tx" "checked_add (lh_sequence prev) 1 = Some s"
    and limits: "int (n + length es) \<le> MAX_REPLAY_EVENTS" "int (p + payload_sum es) \<le> MAX_REPLAY_PAYLOAD_BYTES"
  obtains body where "frame = transaction_frame (of_nat (length body)) body" "body \<noteq> []"
    "int (length body) \<le> MAX_FRAME_BODY_BYTES"
    "decode_transaction body prev n p = Ok \<lparr>dt_head = \<lparr>lh_transaction = dr_transaction receipt,
        lh_sequence = dr_last_sequence receipt\<rparr>, dt_events = stored, dt_payload = p + payload_sum es\<rparr>"
    "dr_transaction receipt = tx" "dr_first_sequence receipt = s" "stored = map (event_stored tx s (of_nat (length es))) (enumerate 0 es)"
proof -
  let ?count = "of_nat (length es) :: u32"
  let ?pre = "u64_to_le tx @ u64_to_le s @ u32_to_le ?count"
  from enc obtain body where
    fold: "try_fold (encode_event tx s ?count) (?pre, []) (enumerate 0 es) = Ok (body, stored)"
    and small: "int (length body) \<le> MAX_FRAME_BODY_BYTES"
    and frame: "frame = transaction_frame (of_nat (length body)) body"
    and last: "checked_add s (ucast ?count - 1) = Some (dr_last_sequence receipt)"
    and receipt: "dr_transaction receipt = tx" "dr_first_sequence receipt = s"
    by (auto simp: encode_transaction_def result_ok not_less split: if_splits)
  let ?evs = "concat (map (event_bytes s ?count) (enumerate 0 es))"
  from encode_fold_Ok [OF fold] have body: "body = ?pre @ ?evs @ []"
    and stored: "stored = map (event_stored tx s ?count) (enumerate 0 es)"
    and adds: "\<forall>i < length es. 0 + i < 2 ^ 32 \<and> checked_add s (of_nat (0 + i)) \<noteq> None" by auto
  have es: "es \<noteq> []" "int (length es) \<le> MAX_EVENTS_PER_TRANSACTION" "\<forall>e \<in> set es. event_valid e"
    using valid by (auto simp: validate_events_def result_ok not_less split: if_splits)
  have count: "unat ?count = length es"
    using es(2) by (simp add: unat_of_nat MAX_EVENTS_PER_TRANSACTION_def)
  then have ucount: "uint ?count = int (length es)" and nonzero: "?count \<noteq> 0"
    using es(1) by (auto simp: uint_nat)
  have len: "length body < 2 ^ 64" using small by (simp add: MAX_FRAME_BODY_BYTES_def)
  let ?c = "\<lambda>k. \<lparr>bc_body = body, bc_position = k\<rparr>"
  have r: "cursor_u64 f1 (?c 0) = Ok (tx, ?c 8)" "cursor_u64 f2 (?c 8) = Ok (s, ?c 16)"
    "cursor_u32 f3 (?c 16) = Ok (?count, ?c 20)" for f1 f2 f3
    using cursor_ints_at(1) [of "[]" tx "u64_to_le s @ u32_to_le ?count @ ?evs" f1]
      cursor_ints_at(1) [of "u64_to_le tx" s "u32_to_le ?count @ ?evs" f2]
      cursor_ints_at(2) [of "u64_to_le tx @ u64_to_le s" ?count ?evs f3] len
    unfolding body by simp_all
  have "length (?pre @ ?evs @ []) < 2 ^ 64" using len unfolding body .
  from decode_fold_at [OF this es(3) adds limits(2), of tx "[]"]
  have loop: "try_fold (decode_event tx s ?count) (?c 20, [], p) [0..<length es] =
      Ok (?c (length body), stored, p + payload_sum es)"
    by (simp add: body stored)
  have "usize_add n (unat ?count) = Some (n + length es)"
    using limits(1) count by (simp add: usize_add_def MAX_REPLAY_EVENTS_def)
  then have "decode_transaction body prev n p = Ok \<lparr>dt_head = \<lparr>lh_transaction = tx,
      lh_sequence = dr_last_sequence receipt\<rparr>, dt_events = stored, dt_payload = p + payload_sum es\<rparr>"
    using es(2) head limits(1) nonzero last
    by (simp add: decode_transaction_def r ucount count loop cursor_is_empty_def)
  moreover have "body \<noteq> []" using body by (auto simp flip: length_0_conv)
  ultimately show thesis using that frame small receipt stored by simp
qed

section \<open>Frames\<close>

lemma frame_length [simp]: "length (transaction_frame n body) = 20 + length body"
  by (simp add: transaction_frame_def TRANSACTION_MAGIC_def COMMIT_MAGIC_def)

lemma frame_parts:
  fixes n :: u32 and body :: "u8 list"
  defines "f \<equiv> transaction_frame n body"
  shows "take 4 (f @ x) = TRANSACTION_MAGIC" "take 4 (drop 4 (f @ x)) = u32_to_le n"
    "take 4 (drop 8 (f @ x)) = u32_to_le (NOT n)" "take (length body) (drop 12 (f @ x)) = body"
    "take 4 (drop (12 + length body) (f @ x)) = u32_to_le (crc32c body)"
    "take 4 (drop (16 + length body) (f @ x)) = COMMIT_MAGIC"
  unfolding f_def transaction_frame_def
  by (simp_all add: TRANSACTION_MAGIC_def COMMIT_MAGIC_def numeral_eq_Suc)

definition body_ok :: "u8 list \<Rightarrow> bool" where
  "body_ok body \<longleftrightarrow> body \<noteq> [] \<and> int (length body) \<le> MAX_FRAME_BODY_BYTES"

lemma body_ok_unat: "body_ok body \<Longrightarrow> unat (of_nat (length body) :: u32) = length body"
  by (simp add: body_ok_def MAX_FRAME_BODY_BYTES_def unat_of_nat)

definition frame_at :: "u8 list \<Rightarrow> nat \<Rightarrow> bool" where
  "frame_at rest l \<longleftrightarrow>
     20 + l \<le> length rest \<and> take 4 rest = TRANSACTION_MAGIC
   \<and> unat (u32_from_le (take 4 (drop 4 rest))) = l
   \<and> u32_from_le (take 4 (drop 8 rest)) = NOT (u32_from_le (take 4 (drop 4 rest)))
   \<and> 0 < l \<and> int l \<le> MAX_FRAME_BODY_BYTES
   \<and> crc32c (take l (drop 12 rest)) = u32_from_le (take 4 (drop (12 + l) rest))
   \<and> take 4 (drop (16 + l) rest) = COMMIT_MAGIC"

lemma read_frame_Some:
  "read_frame offset rest = Ok (Some (body, n)) \<longleftrightarrow>
     (\<exists>l. frame_at rest l \<and> n = 20 + l \<and> body = take l (drop 12 rest))"
  by (auto simp: read_frame_def Let_def frame_at_def not_less split: if_splits)

lemma read_frame_complete:
  assumes "body_ok body"
  shows "read_frame offset (transaction_frame (of_nat (length body)) body @ rest) = Ok (Some (body, 20 + length body))"
proof -
  let ?f = "transaction_frame (of_nat (length body)) body"
  have "frame_at (?f @ rest) (length body)"
    using assms body_ok_unat [OF assms]
    unfolding frame_at_def frame_parts le_roundtrip by (simp add: body_ok_def)
  then show ?thesis
    unfolding read_frame_Some using frame_parts(4) [where n = "of_nat (length body)" and body = body and x = rest]
    by metis
qed

text \<open>Reading looks at no byte beyond the frame.\<close>

lemma read_frame_truncated:
  assumes "body_ok body" and "k < 20 + length body"
  shows "read_frame offset (take k (transaction_frame (of_nat (length body)) body)) = Ok None"
proof -
  let ?f = "transaction_frame (of_nat (length body)) body"
  have take_take: "take 4 (drop j (take k ?f)) = take 4 (drop j ?f)" if "j + 4 \<le> k" for j
    using that by (simp add: drop_take min_def)
  have parts: "take 4 ?f = TRANSACTION_MAGIC" "take 4 (drop 4 ?f) = u32_to_le (of_nat (length body))"
    "take 4 (drop 8 ?f) = u32_to_le (NOT (of_nat (length body)))"
    using frame_parts [where n = "of_nat (length body)" and body = body and x = "[]"] by simp_all
  have len: "length (take k ?f) = k" using assms(2) by simp
  consider "k < 4" | "4 \<le> k" "k < 12" | "12 \<le> k" by linarith
  then show ?thesis
  proof cases
    case 1
    then show ?thesis by (simp add: read_frame_def)
  next
    case 2
    then show ?thesis using take_take [of 0] parts len by (simp add: read_frame_def)
  next
    case 3
    then show ?thesis
      using take_take [of 0] take_take [of 4] take_take [of 8] parts len assms body_ok_unat [OF assms(1)]
      by (simp add: read_frame_def Let_def body_ok_def)
  qed
qed

lemma read_frame_take:
  assumes "read_frame offset rest = Ok (Some (body, n))" and "n \<le> m"
  shows "read_frame offset (take m rest) = Ok (Some (body, n))"
proof -
  from assms(1) obtain l where l: "frame_at rest l" "n = 20 + l" "body = take l (drop 12 rest)"
    unfolding read_frame_Some by blast
  have part: "take j (drop i (take m rest)) = take j (drop i rest)" if "i + j \<le> n" for i j
    using that assms(2) by (simp add: drop_take min_def)
  have "frame_at (take m rest) l"
    using l(1,2) assms(2) part [of 0 4] part [of 4 4] part [of 8 4] part [of 12 l] part [of "12 + l" 4]
      part [of "16 + l" 4]
    by (simp add: frame_at_def del: drop_take take_drop)
  moreover have "take l (drop 12 (take m rest)) = take l (drop 12 rest)" using part [of 12 l] l(2) by simp
  ultimately show ?thesis unfolding read_frame_Some using l by metis
qed

lemma read_frame_append:
  assumes "read_frame offset rest = Ok (Some (body, n))"
  shows "read_frame offset (rest @ tail) = Ok (Some (body, n))"
proof -
  from assms obtain l where l: "frame_at rest l" "n = 20 + l" "body = take l (drop 12 rest)"
    unfolding read_frame_Some by blast
  then have "n \<le> length rest" by (simp add: frame_at_def)
  then have part: "take j (drop i (rest @ tail)) = take j (drop i rest)" if "i + j \<le> n" for i j
    using that by simp
  have "frame_at (rest @ tail) l"
    using l(1,2) part [of 0 4] part [of 4 4] part [of 8 4] part [of 12 l] part [of "12 + l" 4]
      part [of "16 + l" 4]
    by (simp add: frame_at_def del: drop_append take_append)
  moreover have "take l (drop 12 (rest @ tail)) = take l (drop 12 rest)" using part [of 12 l] l(2) by simp
  ultimately show ?thesis unfolding read_frame_Some using l by metis
qed

text \<open>A body that does not match its stored checksum is refused.\<close>

lemma read_frame_mismatch:
  assumes "body_ok body" and "c \<noteq> crc32c body" and "20 + length body \<le> length rest"
    and "take 4 rest = TRANSACTION_MAGIC" "take 4 (drop 4 rest) = u32_to_le (of_nat (length body))"
    "take 4 (drop 8 rest) = u32_to_le (NOT (of_nat (length body)))" "take (length body) (drop 12 rest) = body"
    "take 4 (drop (12 + length body) rest) = u32_to_le c"
  shows "read_frame offset rest = Err (Corrupt (offset + 12 + length body) ''transaction checksum mismatch'')"
  using assms body_ok_unat [OF assms(1)]
  by (simp add: read_frame_def Let_def body_ok_def del: take_drop drop_take)

lemma frame_byte: "j < length body \<Longrightarrow> transaction_frame n body ! (12 + j) = body ! j"
  by (simp add: transaction_frame_def TRANSACTION_MAGIC_def nth_append)

lemma frame_update:
  "j < length body \<Longrightarrow> (transaction_frame n body)[12 + j := b]
     = TRANSACTION_MAGIC @ u32_to_le n @ u32_to_le (NOT n) @ body[j := b] @ u32_to_le (crc32c body) @ COMMIT_MAGIC"
  by (simp add: transaction_frame_def TRANSACTION_MAGIC_def list_update_append)

lemma read_changed_frame:
  assumes "body_ok body" and "j < length body" and "b \<noteq> body ! j"
  shows "read_frame offset ((transaction_frame (of_nat (length body)) body)[12 + j := b] @ tail)
    = Err (Corrupt (offset + 12 + length body) ''transaction checksum mismatch'')"
proof -
  let ?b = "body[j := b]"
  have "crc32c body \<noteq> crc32c ?b"
    using crc32c_byte_change [of "take j body" "body ! j" "drop (Suc j) body" b] assms(2,3)
    by (auto simp: id_take_nth_drop [symmetric] upd_conv_take_nth_drop)
  moreover have "body_ok ?b" using assms(1) by (simp add: body_ok_def)
  moreover have "(transaction_frame (of_nat (length body)) body)[12 + j := b] @ tail
    = TRANSACTION_MAGIC @ u32_to_le (of_nat (length ?b)) @ u32_to_le (NOT (of_nat (length ?b))) @ ?b
      @ u32_to_le (crc32c body) @ COMMIT_MAGIC @ tail" (is "_ = ?r")
    using assms(2) by (simp add: frame_update)
  moreover have "20 + length ?b \<le> length ?r" "take 4 ?r = TRANSACTION_MAGIC"
    "take 4 (drop 4 ?r) = u32_to_le (of_nat (length ?b))" "take 4 (drop 8 ?r) = u32_to_le (NOT (of_nat (length ?b)))"
    "take (length ?b) (drop 12 ?r) = ?b" "take 4 (drop (12 + length ?b) ?r) = u32_to_le (crc32c body)"
    by (simp_all add: TRANSACTION_MAGIC_def COMMIT_MAGIC_def numeral_eq_Suc)
  ultimately show ?thesis
    using read_frame_mismatch [of ?b "crc32c body" ?r offset] by (simp del: take_append drop_append)
qed

section \<open>Scans\<close>

definition scan_advance :: "scan_result \<Rightarrow> nat \<Rightarrow> decoded_transaction \<Rightarrow> scan_result" where
  "scan_advance acc n d =
     \<lparr>sr_head = dt_head d, sr_events = sr_events acc @ dt_events d,
      sr_valid_bytes = sr_valid_bytes acc + n, sr_payload = dt_payload d\<rparr>"

definition decode_next :: "u8 list \<Rightarrow> scan_result \<Rightarrow> decoded_transaction ledger_result" where
  "decode_next body acc = decode_transaction body (sr_head acc) (length (sr_events acc)) (sr_payload acc)"

lemma scan_loop_Nil [simp]: "scan_loop [] acc = Ok acc"
  by (simp add: scan_loop.simps)

lemma scan_loop_tail: "read_frame (sr_valid_bytes acc) rest = Ok None \<Longrightarrow> scan_loop rest acc = Ok acc"
  by (subst scan_loop.simps) simp

lemma scan_loop_Err: "read_frame (sr_valid_bytes acc) rest = Err e \<Longrightarrow> scan_loop rest acc = Err e"
  by (cases "rest = []") (simp_all add: scan_loop.simps [of rest] read_frame_def)

lemma scan_loop_frame:
  assumes "read_frame (sr_valid_bytes acc) rest = Ok (Some (body, n))"
  shows "scan_loop rest acc = andthen (decode_next body acc) (\<lambda>d. scan_loop (drop n rest) (scan_advance acc n d))"
  using assms read_frame_bytes [OF assms]
  by (subst scan_loop.simps) (auto simp: decode_next_def scan_advance_def)

lemma scan_loop_induct [consumes 1, case_names Nil tail frame]:
  assumes "scan_loop rest acc = Ok res"
    and "\<And>acc. P [] acc acc"
    and "\<And>rest acc. read_frame (sr_valid_bytes acc) rest = Ok None \<Longrightarrow> P rest acc acc"
    and "\<And>rest acc body n d res. read_frame (sr_valid_bytes acc) rest = Ok (Some (body, n)) \<Longrightarrow>
       decode_next body acc = Ok d \<Longrightarrow> scan_loop (drop n rest) (scan_advance acc n d) = Ok res \<Longrightarrow>
       P (drop n rest) (scan_advance acc n d) res \<Longrightarrow> P rest acc res"
  shows "P rest acc res"
  using assms(1)
proof (induction "length rest" arbitrary: rest acc rule: less_induct)
  case less
  show ?case
  proof (cases "rest = []")
    case True
    then show ?thesis using less(2) assms(2) by simp
  next
    case False
    with less(2) obtain f where f: "read_frame (sr_valid_bytes acc) rest = Ok f"
      by (subst (asm) scan_loop.simps) (auto simp: result_ok)
    show ?thesis
    proof (cases f)
      case None
      then show ?thesis using f less(2) scan_loop_tail assms(3) by simp
    next
      case (Some x)
      obtain body n where x: "x = (body, n)" by (cases x)
      with Some f have frame: "read_frame (sr_valid_bytes acc) rest = Ok (Some (body, n))" by simp
      from less(2) obtain d where d: "decode_next body acc = Ok d"
        "scan_loop (drop n rest) (scan_advance acc n d) = Ok res"
        by (auto simp: scan_loop_frame [OF frame] result_ok)
      have "length (drop n rest) < length rest" using read_frame_bytes [OF frame] by auto
      then show ?thesis using assms(4) [OF frame d] less(1) d(2) by blast
    qed
  qed
qed

lemma scan_valid_bytes:
  assumes "scan_loop rest acc = Ok res"
  shows "sr_valid_bytes acc \<le> sr_valid_bytes res \<and> sr_valid_bytes res \<le> sr_valid_bytes acc + length rest"
  using assms
proof (induction rule: scan_loop_induct)
  case (frame rest acc body n d res)
  then show ?case using read_frame_bytes [OF frame.hyps(1)] by (simp add: scan_advance_def)
qed simp_all

lemma scan_prefix:
  assumes "scan_loop rest acc = Ok res"
  shows "scan_loop (take (sr_valid_bytes res - sr_valid_bytes acc) rest) acc = Ok res"
  using assms
proof (induction rule: scan_loop_induct)
  case (frame rest acc body n d res)
  let ?m = "sr_valid_bytes res - sr_valid_bytes acc"
  have n: "n \<le> ?m"
    using scan_valid_bytes [OF frame.hyps(3)] by (auto simp: scan_advance_def)
  have "drop n (take ?m rest) = take (sr_valid_bytes res - sr_valid_bytes (scan_advance acc n d)) (drop n rest)"
    by (simp add: drop_take scan_advance_def)
  then show ?case
    using frame by (simp add: scan_loop_frame [OF read_frame_take [OF frame.hyps(1) n]])
qed simp_all

lemma scan_append:
  assumes "scan_loop rest acc = Ok res" and "sr_valid_bytes res = sr_valid_bytes acc + length rest"
  shows "scan_loop (rest @ tail) acc = scan_loop tail res"
  using assms
proof (induction rule: scan_loop_induct)
  case (frame rest acc body n d res)
  have "n \<le> length rest" using read_frame_bytes [OF frame.hyps(1)] by simp
  then show ?case
    using frame by (simp add: scan_loop_frame [OF read_frame_append [OF frame.hyps(1)]] scan_advance_def)
next
  case (tail rest acc)
  then have "rest = []" by simp
  then show ?case by simp
qed simp

section \<open>Open ledgers\<close>

text \<open>A writer that is not poisoned holds exactly what a scan of its file finds.\<close>

definition ledger_scan :: "file_ledger \<Rightarrow> scan_result" where
  "ledger_scan l = \<lparr>sr_head = fl_head l, sr_events = fl_events l, sr_valid_bytes = length (fl_file l),
     sr_payload = fl_payload l\<rparr>"

definition ledger_ok :: "file_ledger \<Rightarrow> bool" where
  "ledger_ok l \<longleftrightarrow> HEADER_BYTES \<le> length (fl_file l) \<and> validate_header (fl_file l) = Ok ()
     \<and> scan_transactions (fl_file l) = Ok (ledger_scan l)"

lemma validate_header_take:
  "validate_header (take m bytes) = validate_header bytes" if "HEADER_BYTES \<le> m"
  using that by (auto simp: validate_header_def Let_def HEADER_BYTES_def min_def)

lemma validate_header_append:
  "HEADER_BYTES \<le> length bytes \<Longrightarrow> validate_header (bytes @ x) = validate_header bytes"
  by (simp add: validate_header_def HEADER_BYTES_def)

lemma header_length [simp]: "length ledger_header = 16"
  by (simp add: ledger_header_def Let_def HEADER_MAGIC_def)

lemma validate_written_header: "validate_header ledger_header = Ok ()"
proof -
  let ?h = "HEADER_MAGIC @ u16_to_le FORMAT_VERSION @ u16_to_le 0"
  have h: "length ?h = 12" "ledger_header = ?h @ u32_to_le (crc32c ?h)"
    by (simp_all add: ledger_header_def Let_def HEADER_MAGIC_def)
  have m: "length HEADER_MAGIC = 8" by (simp add: HEADER_MAGIC_def)
  have zero: "u16_to_le 0 = [0, 0]" by (simp add: u16_to_le_def numeral_eq_Suc)
  have "take 16 ledger_header = ledger_header" by simp
  moreover have "take 12 ledger_header = ?h" "drop 12 ledger_header = u32_to_le (crc32c ?h)"
    unfolding h(2) using h(1) by simp_all
  moreover have "take 8 ledger_header = HEADER_MAGIC" "take 2 (drop 8 ledger_header) = u16_to_le FORMAT_VERSION"
    "take 2 (drop 10 ledger_header) = [0, 0]"
    unfolding h(2) using m zero by simp_all
  ultimately show ?thesis by (simp add: validate_header_def HEADER_BYTES_def Let_def)
qed

lemma open_bytes_Ok:
  assumes "open_bytes bytes create repair = Ok (l, report)"
  shows "ledger_ok l \<and> \<not> fl_poisoned l \<and> rr_head report = fl_head l \<and> rr_events report = fl_events l
    \<and> fl_file l @ drop (length (fl_file l)) bytes = (if bytes = [] \<and> create then ledger_header else bytes)
    \<and> (repair \<or> rr_truncated report = 0)
    \<and> rr_truncated report = length bytes - length (fl_file l)"
proof -
  let ?b = "if bytes = [] \<and> create then ledger_header else bytes"
  from assms obtain scan where scan: "scan_transactions ?b = Ok scan" and fit: "sr_valid_bytes scan \<le> length ?b"
    and header: "validate_header ?b = Ok ()"
    and l: "l = \<lparr>fl_file = take (sr_valid_bytes scan) ?b, fl_head = sr_head scan, fl_events = sr_events scan,
       fl_payload = sr_payload scan, fl_poisoned = False\<rparr>"
    and report: "report = \<lparr>rr_head = sr_head scan, rr_events = sr_events scan,
       rr_truncated = length ?b - sr_valid_bytes scan\<rparr>"
    and strict: "repair \<or> length ?b = sr_valid_bytes scan"
    using validate_written_header
    by (auto simp: open_bytes_def Let_def result_ok split: if_splits)
  from scan have loop: "scan_loop (drop HEADER_BYTES ?b) scan_start = Ok scan"
    by (simp add: scan_transactions_def)
  have le: "HEADER_BYTES \<le> sr_valid_bytes scan"
    using scan_valid_bytes [OF loop] by (simp add: scan_start_def)
  have "scan_transactions (take (sr_valid_bytes scan) ?b) = Ok scan"
    using scan_prefix [OF loop] by (simp add: scan_transactions_def scan_start_def drop_take)
  then have "ledger_ok l"
    using header le fit validate_header_take [OF le, of ?b]
    by (simp add: ledger_ok_def l ledger_scan_def min_def)
  then show ?thesis using l report fit strict le by (auto simp: min_def HEADER_BYTES_def)
qed

section \<open>Decoded transactions\<close>

lemma decode_event_Ok:
  assumes "decode_event tx s count (c, evs, p) i = Ok (c', evs', p')"
  obtains e where "evs' = evs @ [event_stored tx s count (i, e)]" "event_valid e"
    "p' = p + length (ed_payload e)" "int p' \<le> MAX_REPLAY_PAYLOAD_BYTES"
proof -
  from assms obtain schema kind payload c1 c2 and payload_length :: u32 where
    evs': "evs' = evs @ [\<lparr>sv_sequence = s + of_nat i, sv_transaction = tx, sv_index = of_nat i, sv_count = count,
        sv_data = \<lparr>ed_schema = schema, ed_kind = kind, ed_payload = payload\<rparr>\<rparr>]"
    and nz: "schema \<noteq> 0" "kind \<noteq> 0" and small: "uint payload_length \<le> MAX_EVENT_PAYLOAD_BYTES"
    and pay: "checked_replay_payload_bytes p (unat payload_length) = Ok p'"
    and bytes: "cursor_bytes (unat payload_length) ''event payload'' c1 = Ok (payload, c2)"
    unfolding decode_event_def result_ok checked_add_Some_iff not_less
    by (clarsimp simp: result_ok checked_add_Some_iff not_less split: if_splits)
  have "length payload = unat payload_length"
    using bytes by (auto simp: cursor_bytes_def result_ok dest!: usize_add_SomeD split: if_splits)
  moreover from this have "int (length payload) \<le> MAX_EVENT_PAYLOAD_BYTES" using small by simp
  ultimately show thesis
    using that [of "\<lparr>ed_schema = schema, ed_kind = kind, ed_payload = payload\<rparr>"] evs' nz pay
    by (auto simp: event_stored_def event_valid_def checked_replay_Ok)
qed

lemma decode_fold_Ok:
  assumes "try_fold (decode_event tx s count) (c, evs, p) [k..<k + n] = Ok (c', evs', p')"
    and "int p \<le> MAX_REPLAY_PAYLOAD_BYTES"
  shows "\<exists>es. length es = n \<and> evs' = evs @ map (event_stored tx s count) (enumerate k es)
    \<and> (\<forall>e \<in> set es. event_valid e) \<and> p' = p + payload_sum es \<and> int p' \<le> MAX_REPLAY_PAYLOAD_BYTES"
  using assms
proof (induction n arbitrary: k c evs p)
  case (Suc n)
  have "[k..<k + Suc n] = k # [Suc k..<Suc k + n]" by (simp add: upt_rec)
  with Suc.prems(1) obtain c1 evs1 p1 where
    step: "decode_event tx s count (c, evs, p) k = Ok (c1, evs1, p1)"
    and rest: "try_fold (decode_event tx s count) (c1, evs1, p1) [Suc k..<Suc k + n] = Ok (c', evs', p')"
    by (auto simp: result_ok)
  from decode_event_Ok [OF step] obtain e where e: "evs1 = evs @ [event_stored tx s count (k, e)]" "event_valid e"
    "p1 = p + length (ed_payload e)" "int p1 \<le> MAX_REPLAY_PAYLOAD_BYTES" .
  from Suc.IH [OF rest e(4)] obtain es where "length es = n"
    "evs' = evs1 @ map (event_stored tx s count) (enumerate (Suc k) es)" "\<forall>e \<in> set es. event_valid e"
    "p' = p1 + payload_sum es" "int p' \<le> MAX_REPLAY_PAYLOAD_BYTES" by blast
  with e show ?case by (intro exI [of _ "e # es"]) simp
qed simp

lemma decode_transaction_Ok:
  assumes "decode_transaction body prev n p = Ok d" and "int p \<le> MAX_REPLAY_PAYLOAD_BYTES"
  obtains tx s es where "checked_add (lh_transaction prev) 1 = Some tx" "checked_add (lh_sequence prev) 1 = Some s"
    "dt_events d = map (event_stored tx s (of_nat (length es))) (enumerate 0 es)" "es \<noteq> []"
    "int (length es) \<le> MAX_EVENTS_PER_TRANSACTION" "int (n + length es) \<le> MAX_REPLAY_EVENTS"
    "\<forall>e \<in> set es. event_valid e" "dt_payload d = p + payload_sum es" "int (dt_payload d) \<le> MAX_REPLAY_PAYLOAD_BYTES"
    "dt_head d = \<lparr>lh_transaction = tx, lh_sequence = s + of_nat (length es) - 1\<rparr>"
proof -
  from assms(1) obtain tx s count c c' evs pay last where
    heads: "checked_add (lh_transaction prev) 1 = Some tx" "checked_add (lh_sequence prev) 1 = Some s"
    and count: "count \<noteq> 0" "uint count \<le> MAX_EVENTS_PER_TRANSACTION"
    and all: "usize_add n (unat count) \<noteq> None" "int (n + unat count) \<le> MAX_REPLAY_EVENTS"
    and fold: "try_fold (decode_event tx s count) (c, [], p) [0..<0 + unat count] = Ok (c', evs, pay)"
    and last: "checked_add s (ucast count - 1) = Some last"
    and d: "d = \<lparr>dt_head = \<lparr>lh_transaction = tx, lh_sequence = last\<rparr>, dt_events = evs, dt_payload = pay\<rparr>"
    by (auto simp: decode_transaction_def result_ok not_less usize_add_def split: if_splits)
  from decode_fold_Ok [OF fold assms(2)] obtain es where es: "length es = unat count"
    "evs = map (event_stored tx s count) (enumerate 0 es)" "\<forall>e \<in> set es. event_valid e"
    "pay = p + payload_sum es" "int pay \<le> MAX_REPLAY_PAYLOAD_BYTES" by auto
  have cnt: "of_nat (length es) = count" using es(1) by simp
  have wide: "of_nat (length es) = (ucast count :: u64)" unfolding es(1) by (rule of_nat_unat)
  have "last = s + of_nat (length es) - 1"
    using last unfolding wide checked_add_Some_iff by (simp only: add_diff_eq)
  then have "dt_head d = \<lparr>lh_transaction = tx, lh_sequence = s + of_nat (length es) - 1\<rparr>" by (simp only: d decoded_transaction.simps)
  moreover have "es \<noteq> []" using es(1) count(1) by (auto simp: unat_eq_0)
  moreover have "int (length es) \<le> MAX_EVENTS_PER_TRANSACTION" using es(1) count(2) by simp
  moreover have "int (n + length es) \<le> MAX_REPLAY_EVENTS" using all(2) unfolding es(1) .
  moreover have "dt_events d = map (event_stored tx s (of_nat (length es))) (enumerate 0 es)"
    unfolding cnt es(2) d by (rule decoded_transaction.simps)
  moreover have "dt_payload d = p + payload_sum es" "int (dt_payload d) \<le> MAX_REPLAY_PAYLOAD_BYTES"
    using es(4,5) by (simp_all only: d decoded_transaction.simps)
  ultimately show thesis
    using heads es(3) by (intro that)
qed

section \<open>Accepted files\<close>

definition numbered_events :: "stored_event list \<Rightarrow> bool" where
  "numbered_events evs \<longleftrightarrow>
     (\<forall>i < length evs. sv_sequence (evs ! i) = of_nat (Suc i) \<and> event_valid (sv_data (evs ! i)))"

definition scan_ok :: "scan_result \<Rightarrow> bool" where
  "scan_ok acc \<longleftrightarrow>
     numbered_events (sr_events acc) \<and> lh_sequence (sr_head acc) = of_nat (length (sr_events acc))
   \<and> int (length (sr_events acc)) \<le> MAX_REPLAY_EVENTS
   \<and> sr_payload acc = payload_sum (map sv_data (sr_events acc)) \<and> int (sr_payload acc) \<le> MAX_REPLAY_PAYLOAD_BYTES"

lemma scan_advance_ok:
  assumes "scan_ok acc" and "decode_next body acc = Ok d"
  shows "scan_ok (scan_advance acc n d)"
proof -
  let ?m = "length (sr_events acc)"
  have old: "numbered_events (sr_events acc)" "lh_sequence (sr_head acc) = of_nat ?m"
    "sr_payload acc = payload_sum (map sv_data (sr_events acc))" "int (sr_payload acc) \<le> MAX_REPLAY_PAYLOAD_BYTES"
    using assms(1) by (auto simp: scan_ok_def)
  from decode_transaction_Ok [OF assms(2) [unfolded decode_next_def] old(4)] obtain tx s es where
    s: "checked_add (lh_sequence (sr_head acc)) 1 = Some s"
    and evs: "dt_events d = map (event_stored tx s (of_nat (length es))) (enumerate 0 es)"
    and lim: "int (?m + length es) \<le> MAX_REPLAY_EVENTS" and valid: "\<forall>e \<in> set es. event_valid e"
    and pay: "dt_payload d = sr_payload acc + payload_sum es" "int (dt_payload d) \<le> MAX_REPLAY_PAYLOAD_BYTES"
    and head: "dt_head d = \<lparr>lh_transaction = tx, lh_sequence = s + of_nat (length es) - 1\<rparr>" .
  have s': "s = of_nat (Suc ?m)" using s old(2) by (simp add: checked_add_Some_iff)
  have data: "map sv_data (dt_events d) = es"
    unfolding evs by (rule nth_equalityI) (simp_all add: nth_enumerate_eq event_stored_def)
  have len: "length (dt_events d) = length es" by (simp add: evs)
  have "sv_sequence (dt_events d ! i) = of_nat (Suc (?m + i)) \<and> event_valid (sv_data (dt_events d ! i))"
    if "i < length es" for i
    using that valid by (simp add: evs nth_enumerate_eq event_stored_def s')
  then have "numbered_events (sr_events acc @ dt_events d)"
    using old(1) len by (auto simp: numbered_events_def nth_append)
  then show ?thesis
    using old pay head s' lim data len
    by (simp add: scan_ok_def scan_advance_def payload_sum_def)
qed

lemma scan_loop_ok: "scan_loop rest acc = Ok res \<Longrightarrow> scan_ok acc \<Longrightarrow> scan_ok res"
  by (induction rule: scan_loop_induct) (auto intro: scan_advance_ok)

lemma scan_start_ok: "scan_ok scan_start"
  by (simp add: scan_ok_def scan_start_def numbered_events_def ledger_head_default_def ledger_bounds)

end
