(* ===== verification/Ledger_Claims.thy ===== *)
theory Ledger_Claims
  imports Ledger_Laws "HOL-Library.Sublist"
begin

text \<open>
  The properties of the Event Ledger: what was appended is what a reopened file holds, a failed
  append is all or nothing, accepted files are numbered without gaps, and a changed byte is found.
\<close>

section \<open>Appending and scanning\<close>

definition committed ::
  "file_ledger \<Rightarrow> u8 list \<Rightarrow> stored_event list \<Rightarrow> durability_receipt \<Rightarrow> usize \<Rightarrow> file_ledger" where
  "committed l frame stored receipt payload_bytes =
     l\<lparr>fl_file := fl_file l @ frame,
       fl_head := \<lparr>lh_transaction = dr_transaction receipt, lh_sequence = dr_last_sequence receipt\<rparr>,
       fl_events := fl_events l @ stored, fl_payload := payload_bytes\<rparr>"

lemma prepare_append_Ok:
  assumes "prepare_append l expected events = Ok (frame, stored, receipt, payload_bytes)"
  obtains body d where "frame = transaction_frame (of_nat (length body)) body" "body_ok body"
    "decode_next body (ledger_scan l) = Ok d"
    "scan_advance (ledger_scan l) (length frame) d = ledger_scan (committed l frame stored receipt payload_bytes)"
    "\<not> fl_poisoned l" "expected = fl_head l" "map sv_data stored = events"
proof -
  from assms obtain tx s n where
    valid: "validate_events events = Ok ()" and flags: "\<not> fl_poisoned l" "expected = fl_head l"
    and replayed: "int (length (fl_events l) + length events) \<le> MAX_REPLAY_EVENTS"
    and n: "transaction_payload_bytes events = Ok n"
    and pay: "checked_replay_payload_bytes (fl_payload l) n = Ok payload_bytes"
    and heads: "checked_add (lh_transaction (fl_head l)) 1 = Some tx" "checked_add (lh_sequence (fl_head l)) 1 = Some s"
    and enc: "encode_transaction tx s events = Ok (frame, stored, receipt)"
    by (auto simp: prepare_append_def result_ok not_less dest: usize_add_SomeD split: if_splits)
  have n_sum: "n = payload_sum events" by (rule transaction_payload_Ok [OF n])
  with pay have total: "int (fl_payload l + payload_sum events) \<le> MAX_REPLAY_PAYLOAD_BYTES"
    and pb: "payload_bytes = fl_payload l + payload_sum events" by (auto simp: checked_replay_Ok)
  show thesis
  proof (rule decode_encoded [OF enc valid heads replayed total])
    fix body
    assume frame: "frame = transaction_frame (of_nat (length body)) body" and "body \<noteq> []"
      and "int (length body) \<le> MAX_FRAME_BODY_BYTES"
      and dec: "decode_transaction body (fl_head l) (length (fl_events l)) (fl_payload l) =
        Ok \<lparr>dt_head = \<lparr>lh_transaction = dr_transaction receipt, lh_sequence = dr_last_sequence receipt\<rparr>,
            dt_events = stored, dt_payload = fl_payload l + payload_sum events\<rparr>"
      and st: "stored = map (event_stored tx s (of_nat (length events))) (enumerate 0 events)"
    have "map sv_data stored = events"
      unfolding st by (rule nth_equalityI) (simp_all add: nth_enumerate_eq event_stored_def)
    moreover have "body_ok body"
      using \<open>body \<noteq> []\<close> \<open>int (length body) \<le> MAX_FRAME_BODY_BYTES\<close> by (simp add: body_ok_def)
    ultimately show thesis
      using dec frame flags pb
      by (intro that [of body]) (auto simp: decode_next_def ledger_scan_def scan_advance_def committed_def)
  qed
qed

text \<open>Scanning the file with the frame behind it, or with a strict prefix of the frame.\<close>

lemma scan_continues:
  assumes "ledger_ok l"
  shows "scan_transactions (fl_file l @ x) = scan_loop x (ledger_scan l)"
proof -
  have len: "HEADER_BYTES \<le> length (fl_file l)"
    and scan: "scan_loop (drop HEADER_BYTES (fl_file l)) scan_start = Ok (ledger_scan l)"
    using assms by (auto simp: ledger_ok_def scan_transactions_def)
  have "sr_valid_bytes (ledger_scan l) = sr_valid_bytes scan_start + length (drop HEADER_BYTES (fl_file l))"
    using len by (simp add: ledger_scan_def scan_start_def)
  from scan_append [OF scan this, of x] len show ?thesis by (simp add: scan_transactions_def)
qed

lemma scan_appended:
  assumes "ledger_ok l" and "prepare_append l expected events = Ok (frame, stored, receipt, payload_bytes)"
  shows "scan_transactions (fl_file l @ frame) = Ok (ledger_scan (committed l frame stored receipt payload_bytes))"
    and "k < length frame \<Longrightarrow> scan_transactions (fl_file l @ take k frame) = Ok (ledger_scan l)"
    and "0 < length frame"
proof -
  obtain body d where frame: "frame = transaction_frame (of_nat (length body)) body" and body: "body_ok body"
    and dec: "decode_next body (ledger_scan l) = Ok d"
    and adv: "scan_advance (ledger_scan l) (length frame) d = ledger_scan (committed l frame stored receipt payload_bytes)"
    by (rule prepare_append_Ok [OF assms(2)])
  note more = scan_continues [OF assms(1)]
  have "read_frame (sr_valid_bytes (ledger_scan l)) (frame @ []) = Ok (Some (body, length frame))"
    unfolding frame using read_frame_complete [OF body, of _ "[]"] by simp
  then show "scan_transactions (fl_file l @ frame) = Ok (ledger_scan (committed l frame stored receipt payload_bytes))"
    unfolding more by (simp add: scan_loop_frame dec adv)
  show "0 < length frame" unfolding frame by simp
  assume "k < length frame"
  then have "read_frame (sr_valid_bytes (ledger_scan l)) (take k frame) = Ok None"
    unfolding frame using read_frame_truncated [OF body, of k] by simp
  then show "scan_transactions (fl_file l @ take k frame) = Ok (ledger_scan l)"
    unfolding more by (rule scan_loop_tail)
qed

lemma open_scanned:
  assumes "validate_header bytes = Ok ()" and "scan_transactions bytes = Ok scan" and "sr_valid_bytes scan \<le> length bytes"
  shows "open_bytes bytes create True = Ok (\<lparr>fl_file = take (sr_valid_bytes scan) bytes, fl_head = sr_head scan,
       fl_events = sr_events scan, fl_payload = sr_payload scan, fl_poisoned = False\<rparr>,
     \<lparr>rr_head = sr_head scan, rr_events = sr_events scan, rr_truncated = length bytes - sr_valid_bytes scan\<rparr>)"
proof -
  have "bytes \<noteq> []" using assms(1) by (auto simp: validate_header_def HEADER_BYTES_def)
  then show ?thesis using assms by (simp add: open_bytes_def Let_def)
qed

definition reopen :: "file_ledger \<Rightarrow> (file_ledger \<times> replay_report) ledger_result" where
  "reopen l = ledger_open (Regular (fl_file l)) False"

lemma reopen_scanned:
  assumes "ledger_ok l" and "scan_transactions (fl_file l @ x) = Ok (ledger_scan m)"
    and "fl_file l @ x = fl_file m @ y" and "\<not> fl_poisoned m" and "fl_file p = fl_file l @ x"
  shows "reopen p = Ok (m, \<lparr>rr_head = fl_head m, rr_events = fl_events m, rr_truncated = length y\<rparr>)"
proof -
  have len: "HEADER_BYTES \<le> length (fl_file l)" and "validate_header (fl_file l) = Ok ()"
    using assms(1) by (auto simp: ledger_ok_def)
  then have header: "validate_header (fl_file l @ x) = Ok ()" by (simp add: validate_header_append)
  have valid: "sr_valid_bytes (ledger_scan m) \<le> length (fl_file l @ x)"
    using arg_cong [OF assms(3), of length] by (simp add: ledger_scan_def)
  have "take (length (fl_file m)) (fl_file l @ x) = fl_file m" "length (fl_file l @ x) - length (fl_file m) = length y"
    unfolding assms(3) by simp_all
  then show ?thesis
    using open_scanned [OF header assms(2) valid, of True] assms(4)
    unfolding reopen_def ledger_open_def open_with_policy_def assms(5)
    by (cases m) (simp add: validate_path_def node_bytes_def ledger_scan_def)
qed

lemma append_Synced:
  assumes "ledger_append Synced l expected events = (Ok receipt, l')"
  obtains frame stored payload_bytes where
    "prepare_append l expected events = Ok (frame, stored, receipt, payload_bytes)"
    "l' = committed l frame stored receipt payload_bytes"
  using assms
  by (auto simp: ledger_append_def append_with_io_def write_frame_synchronously_def committed_def
      split: result.splits prod.splits)

lemma committed_ok:
  assumes "ledger_ok l" and "prepare_append l expected events = Ok (frame, stored, receipt, payload_bytes)"
  shows "ledger_ok (committed l frame stored receipt payload_bytes)"
  using assms(1) scan_appended(1) [OF assms]
  by (auto simp: ledger_ok_def committed_def validate_header_append)

lemma append_synced:
  assumes "ledger_ok l" and "ledger_append Synced l expected events = (Ok receipt, l')"
  shows "reopen l' = Ok (l', \<lparr>rr_head = fl_head l', rr_events = fl_events l', rr_truncated = 0\<rparr>)
    \<and> map sv_data (fl_events l') = map sv_data (fl_events l) @ events
    \<and> fl_head l' = \<lparr>lh_transaction = dr_transaction receipt, lh_sequence = dr_last_sequence receipt\<rparr>
    \<and> ledger_ok l' \<and> \<not> fl_poisoned l'"
proof (rule append_Synced [OF assms(2)])
  fix frame stored payload_bytes
  assume prep: "prepare_append l expected events = Ok (frame, stored, receipt, payload_bytes)"
    and l': "l' = committed l frame stored receipt payload_bytes"
  have facts: "\<not> fl_poisoned l" "map sv_data stored = events" by (rule prepare_append_Ok [OF prep]; simp)+
  have "reopen l' = Ok (l', \<lparr>rr_head = fl_head l', rr_events = fl_events l', rr_truncated = length []\<rparr>)"
    using reopen_scanned [where y = "[]" and p = l', OF assms(1) scan_appended(1) [OF assms(1) prep]] facts
    by (simp add: l') (simp add: committed_def)
  then show ?thesis using facts committed_ok [OF assms(1) prep] by (simp add: l') (simp add: committed_def)
qed

lemma append_failed:
  assumes "ledger_ok l" and "ledger_append (FailedAfter n source) l expected events = (r, l')"
    and "\<not> fl_poisoned l" and "fl_poisoned l'"
  shows "r = Err (DurabilityAmbiguous source)
    \<and> (\<exists>m report. reopen l' = Ok (m, report)
         \<and> (m = l \<or> (\<exists>receipt. ledger_append Synced l expected events = (Ok receipt, m))))"
proof -
  obtain frame stored receipt payload_bytes where
    prep: "prepare_append l expected events = Ok (frame, stored, receipt, payload_bytes)"
    and r: "r = Err (DurabilityAmbiguous source)" and bytes: "fl_file l' = fl_file l @ take n frame"
    using assms(2-)
    by (auto simp: ledger_append_def append_with_io_def write_frame_synchronously_def
        split: result.splits prod.splits)
  show ?thesis
  proof (cases "n < length frame")
    case True
    have "reopen l' = Ok (l, \<lparr>rr_head = fl_head l, rr_events = fl_events l, rr_truncated = length (take n frame)\<rparr>)"
      using reopen_scanned [where y = "take n frame" and p = l', OF assms(1) scan_appended(2) [OF assms(1) prep True]]
        assms(3) bytes by simp
    with r show ?thesis by blast
  next
    case False
    let ?m = "committed l frame stored receipt payload_bytes"
    have "reopen l' = Ok (?m, \<lparr>rr_head = fl_head ?m, rr_events = fl_events ?m, rr_truncated = length []\<rparr>)"
      using reopen_scanned [where y = "[]" and p = l', OF assms(1) scan_appended(1) [OF assms(1) prep]]
        assms(3) bytes False by (simp add: committed_def)
    moreover have "ledger_append Synced l expected events = (Ok receipt, ?m)"
      using prep by (simp add: ledger_append_def append_with_io_def write_frame_synchronously_def committed_def)
    ultimately show ?thesis using r by blast
  qed
qed

section \<open>Histories\<close>

text \<open>A ledger file through its life: created, appended to with any outcome of the write, and
  opened again by a later process.  The second component collects the transactions that were
  acknowledged with a receipt.\<close>

inductive journal :: "file_ledger \<Rightarrow> event_data list list \<Rightarrow> bool" where
  created: "ledger_open Missing False = Ok (l, report) \<Longrightarrow> journal l []"
| acknowledged: "journal l acks \<Longrightarrow> ledger_append outcome l expected events = (Ok receipt, l')
    \<Longrightarrow> journal l' (acks @ [events])"
| refused: "journal l acks \<Longrightarrow> ledger_append outcome l expected events = (Err e, l') \<Longrightarrow> journal l' acks"
| reopened: "journal l acks \<Longrightarrow> reopen l = Ok (l', report) \<Longrightarrow> journal l' acks"

definition survives :: "file_ledger \<Rightarrow> event_data list list \<Rightarrow> bool" where
  "survives l acks \<longleftrightarrow> (\<exists>m report. reopen l = Ok (m, report) \<and> ledger_ok m \<and> \<not> fl_poisoned m
     \<and> subseq (concat acks) (map sv_data (fl_events m)) \<and> (fl_poisoned l \<or> m = l))"

lemma reopen_ok:
  assumes "ledger_ok l" and "\<not> fl_poisoned l"
  shows "reopen l = Ok (l, \<lparr>rr_head = fl_head l, rr_events = fl_events l, rr_truncated = 0\<rparr>)"
  using reopen_scanned [OF assms(1), of "[]" l "[]" l] assms by (simp add: ledger_ok_def)

lemma survives_intro:
  "ledger_ok l \<Longrightarrow> \<not> fl_poisoned l \<Longrightarrow> subseq (concat acks) (map sv_data (fl_events l)) \<Longrightarrow> survives l acks"
  by (auto simp: survives_def reopen_ok)

lemma append_outcomes:
  assumes "ledger_append outcome l expected events = (r, l')"
  shows "l' = l \<or> (outcome = Synced \<and> (\<exists>receipt. r = Ok receipt)) \<or> (\<exists>n e. outcome = FailedAfter n e \<and> fl_poisoned l')"
    and "r = Ok receipt \<Longrightarrow> outcome = Synced \<and> \<not> fl_poisoned l"
    and "fl_poisoned l \<Longrightarrow> l' = l"
  using assms
  by (auto simp: ledger_append_def append_with_io_def write_frame_synchronously_def prepare_append_def
      split: result.splits prod.splits write_outcome.splits if_splits)

lemma survives_append:
  assumes "survives l acks" and "ledger_append outcome l expected events = (r, l')"
  shows "survives l' (case r of Ok _ \<Rightarrow> acks @ [events] | _ \<Rightarrow> acks)"
proof (cases "fl_poisoned l")
  case True
  then show ?thesis using append_outcomes(2,3) [OF assms(2)] assms(1) by (auto split: result.splits)
next
  case False
  then have l: "ledger_ok l" "subseq (concat acks) (map sv_data (fl_events l))"
    using assms(1) by (auto simp: survives_def)
  from append_outcomes(1) [OF assms(2)] show ?thesis
  proof (elim disjE exE conjE)
    assume same: "l' = l"
    show ?thesis
    proof (cases r)
      case (Ok receipt)
      then have "outcome = Synced" using append_outcomes(2) [OF assms(2)] by simp
      with append_synced [OF l(1)] assms(2) Ok show ?thesis
        using l(2) by (auto intro!: survives_intro list_emb_append_mono)
    qed (use same assms(1) in simp_all)
  next
    fix receipt assume "outcome = Synced" "r = Ok receipt"
    with append_synced [OF l(1)] assms(2) show ?thesis
      using l(2) by (auto intro!: survives_intro list_emb_append_mono)
  next
    fix n e assume failed: "outcome = FailedAfter n e" "fl_poisoned l'"
    from append_failed [OF l(1) assms(2) [unfolded failed(1)] False failed(2)] obtain m report where
      r: "r = Err (DurabilityAmbiguous e)" and m: "reopen l' = Ok (m, report)"
      and cases: "m = l \<or> (\<exists>receipt. ledger_append Synced l expected events = (Ok receipt, m))" by blast
    from cases have "ledger_ok m \<and> \<not> fl_poisoned m \<and> subseq (concat acks) (map sv_data (fl_events m))"
      using append_synced [OF l(1)] l False by (auto intro: list_emb_append2)
    then show ?thesis using r m failed(2) by (auto simp: survives_def)
  qed
qed

lemma create_ok:
  "ledger_open Missing False = Ok (\<lparr>fl_file = ledger_header, fl_head = ledger_head_default, fl_events = [],
     fl_payload = 0, fl_poisoned = False\<rparr>, \<lparr>rr_head = ledger_head_default, rr_events = [], rr_truncated = 0\<rparr>)"
  by (simp add: ledger_open_def open_with_policy_def validate_path_def node_bytes_def open_bytes_def Let_def
      scan_transactions_def HEADER_BYTES_def scan_start_def)

definition fresh_ledger :: file_ledger where
  "fresh_ledger = \<lparr>fl_file = ledger_header, fl_head = ledger_head_default, fl_events = [], fl_payload = 0,
     fl_poisoned = False\<rparr>"

lemma fresh_ok: "ledger_ok fresh_ledger" "\<not> fl_poisoned fresh_ledger"
  using open_bytes_Ok [of "[]" True True fresh_ledger] create_ok
  by (auto simp: ledger_open_def open_with_policy_def validate_path_def node_bytes_def fresh_ledger_def)

lemma journal_survives: "journal l acks \<Longrightarrow> survives l acks"
proof (induction rule: journal.induct)
  case (created l report)
  then show ?case using fresh_ok create_ok by (auto simp: fresh_ledger_def intro!: survives_intro)
next
  case (acknowledged l acks outcome expected events receipt l')
  then show ?case using survives_append [of l acks outcome expected events "Ok receipt" l'] by simp
next
  case (refused l acks outcome expected events e l')
  then show ?case using survives_append [of l acks outcome expected events "Err e" l'] by simp
next
  case (reopened l acks l' report)
  then show ?case by (auto simp: survives_def [of l] intro: survives_intro)
qed

section \<open>A concrete history\<close>

definition first_event :: event_data where
  "first_event = \<lparr>ed_schema = 1, ed_kind = 2, ed_payload = [7, 8]\<rparr>"

lemma first_prepared: "\<exists>frame stored receipt payload_bytes.
  prepare_append fresh_ledger ledger_head_default [first_event] = Ok (frame, stored, receipt, payload_bytes)"
  by (simp add: prepare_append_def fresh_ledger_def first_event_def ledger_head_default_def validate_events_def
      validate_event_def ledger_bounds usize_add_def transaction_payload_bytes_def checked_replay_payload_bytes_def
      checked_add_def encode_transaction_def encode_event_def u32_try_from_def event_header_def)

lemma first_synced: "\<exists>receipt l. ledger_append Synced fresh_ledger ledger_head_default [first_event] = (Ok receipt, l)"
  using first_prepared by (auto simp: ledger_append_def append_with_io_def write_frame_synchronously_def)


section \<open>Claims\<close>

text \<open>After a synced append, opening the file again succeeds
  without repair and yields the writer itself: the events stored before and the appended ones.\<close>

theorem appended_is_reopened:
  assumes "ledger_ok l" and "ledger_append Synced l expected events = (Ok receipt, l')"
  shows "reopen l' = Ok (l', \<lparr>rr_head = fl_head l', rr_events = fl_events l', rr_truncated = 0\<rparr>)
    \<and> map sv_data (fl_events l') = map sv_data (fl_events l) @ events
    \<and> fl_head l' = \<lparr>lh_transaction = dr_transaction receipt, lh_sequence = dr_last_sequence receipt\<rparr> \<and> ledger_ok l'"
  using append_synced [OF assms] by blast

theorem appended_is_reopened_witness:
  "\<exists>receipt l. ledger_append Synced fresh_ledger ledger_head_default [first_event] = (Ok receipt, l)
    \<and> map sv_data (fl_events l) = [first_event] \<and> ledger_ok l"
proof -
  from first_synced obtain receipt l
    where "ledger_append Synced fresh_ledger ledger_head_default [first_event] = (Ok receipt, l)" by blast
  with appended_is_reopened [OF fresh_ok(1) this] show ?thesis by (auto simp: fresh_ledger_def)
qed



text \<open>A poisoned writer refuses every append, a stale
  expected head is a conflict that names both heads, and invalid events are refused with their
  error, in this order; the file and the writer stay as they were, whatever the disk would do.\<close>

theorem refused_append_changes_nothing:
  assumes "fl_poisoned l \<or> expected \<noteq> fl_head l \<or> validate_events events = Err e"
  shows "ledger_append outcome l expected events =
    (Err (if fl_poisoned l then WriterPoisoned
          else if expected \<noteq> fl_head l then HeadConflict expected (fl_head l) else e), l)"
  using assms by (auto simp: ledger_append_def append_with_io_def prepare_append_def)

theorem refused_append_changes_nothing_witness:
  "ledger_append Synced fresh_ledger ledger_head_default [first_event, \<lparr>ed_schema = 0, ed_kind = 2, ed_payload = []\<rparr>]
    = (Err ZeroEventSchema, fresh_ledger)"
  using refused_append_changes_nothing [of fresh_ledger ledger_head_default
      "[first_event, \<lparr>ed_schema = 0, ed_kind = 2, ed_payload = []\<rparr>]" ZeroEventSchema Synced]
  by (simp add: fresh_ledger_def first_event_def ledger_head_default_def validate_events_def
      validate_event_def ledger_bounds)

text \<open>C4 (liveness).  Through any history of a ledger file, with write
  failures and restarts at any point, the file can always be opened again, and it holds every event
  that was ever acknowledged with a receipt, in the order of the receipts.\<close>

theorem acknowledged_events_survive:
  assumes "journal l acks"
  shows "\<exists>m report. reopen l = Ok (m, report) \<and> \<not> fl_poisoned m
    \<and> subseq (concat acks) (map sv_data (fl_events m))"
  using journal_survives [OF assms] by (auto simp: survives_def)

theorem acknowledged_events_survive_witness:
  "\<exists>l m report. journal l [[first_event]] \<and> reopen l = Ok (m, report)
     \<and> subseq [first_event] (map sv_data (fl_events m))"
proof -
  from first_synced obtain receipt l
    where "ledger_append Synced fresh_ledger ledger_head_default [first_event] = (Ok receipt, l)" by blast
  from journal.acknowledged [OF journal.created this] create_ok
  have "journal l [[first_event]]" by (simp add: fresh_ledger_def)
  with acknowledged_events_survive [OF this] show ?thesis by auto
qed

text \<open>Whatever bytes are in a file, if it opens as a
  ledger then its events are numbered 1, 2, 3 and so on without gaps, each is valid, the head is the
  number of events, and the limits on replayed events and payload bytes hold.\<close>

theorem opened_ledgers_are_numbered:
  assumes "open_with_policy node locked create repair = Ok (l, report)"
  shows "map sv_sequence (fl_events l) = map of_nat [1..<Suc (length (fl_events l))]
    \<and> lh_sequence (fl_head l) = of_nat (length (fl_events l))
    \<and> (\<forall>v \<in> set (fl_events l). validate_event (sv_data v) = Ok ())
    \<and> int (length (fl_events l)) \<le> MAX_REPLAY_EVENTS \<and> int (fl_payload l) \<le> MAX_REPLAY_PAYLOAD_BYTES"
proof -
  have "open_bytes (node_bytes node) create repair = Ok (l, report)"
    using assms by (auto simp: open_with_policy_def result_ok split: if_splits)
  then have "scan_ok (ledger_scan l)"
    using open_bytes_Ok [of "node_bytes node" create repair l report] scan_loop_ok [OF _ scan_start_ok]
    by (auto simp: ledger_ok_def scan_transactions_def)
  then have ok: "numbered_events (fl_events l)" "lh_sequence (fl_head l) = of_nat (length (fl_events l))"
    "int (length (fl_events l)) \<le> MAX_REPLAY_EVENTS" "int (fl_payload l) \<le> MAX_REPLAY_PAYLOAD_BYTES"
    by (simp_all add: scan_ok_def ledger_scan_def)
  have "map sv_sequence (fl_events l) = map of_nat [1..<Suc (length (fl_events l))]"
    using ok(1) by (intro nth_equalityI) (auto simp: numbered_events_def simp del: upt_Suc)
  then show ?thesis using ok by (auto simp: numbered_events_def result_ok in_set_conv_nth)
qed

theorem opened_ledgers_are_numbered_witness:
  "\<exists>receipt l l' report. ledger_append Synced fresh_ledger ledger_head_default [first_event] = (Ok receipt, l)
    \<and> ledger_open (Regular (fl_file l)) False = Ok (l', report) \<and> map sv_sequence (fl_events l') = [1]"
proof -
  from first_synced obtain receipt l
    where first: "ledger_append Synced fresh_ledger ledger_head_default [first_event] = (Ok receipt, l)" by blast
  from append_synced [OF fresh_ok(1) this] obtain report where
    open_l: "ledger_open (Regular (fl_file l)) False = Ok (l, report)" and "length (fl_events l) = 1"
    by (auto simp: reopen_def fresh_ledger_def dest: arg_cong [where f = length])
  with first opened_ledgers_are_numbered [OF open_l [unfolded ledger_open_def]] show ?thesis by auto
qed

text \<open>C28 (safety).  When any single byte of the body of the last committed
  transaction is changed on disk, the file no longer opens: the checksum mismatch is reported at the
  offset of the stored checksum, whatever bytes follow.\<close>

theorem changed_byte_is_detected:
  assumes "ledger_ok l" and "ledger_append Synced l expected events = (Ok receipt, l')"
    and "length (fl_file l) + 12 \<le> i" and "i < length (fl_file l') - 8" and "b \<noteq> fl_file l' ! i"
  shows "ledger_open (Regular ((fl_file l')[i := b] @ later)) False
    = Err (Corrupt (length (fl_file l') - 8) ''transaction checksum mismatch'')"
proof (rule append_Synced [OF assms(2)])
  fix frame stored payload_bytes
  assume prep: "prepare_append l expected events = Ok (frame, stored, receipt, payload_bytes)"
    and l': "l' = committed l frame stored receipt payload_bytes"
  show ?thesis
  proof (rule prepare_append_Ok [OF prep])
    fix body
    assume frame: "frame = transaction_frame (of_nat (length body)) body" and body: "body_ok body"
    let ?j = "i - length (fl_file l) - 12" and ?len = "u32_to_le (of_nat (length body))"
    have file': "fl_file l' = fl_file l @ frame" by (simp add: l' committed_def)
    have j: "i = length (fl_file l) + (12 + ?j)" "?j < length body"
      using assms(3,4) by (auto simp: file' frame)
    have b: "b \<noteq> body ! ?j"
      using assms(5) j frame_byte [of ?j body] by (metis file' frame nth_append_length_plus)
    have changed: "(fl_file l')[i := b] = fl_file l @ frame[12 + ?j := b]"
      unfolding file' by (subst j(1)) (simp add: list_update_append)
    have head: "validate_header (fl_file l) = Ok ()" "HEADER_BYTES \<le> length (fl_file l)"
      using assms(1) by (auto simp: ledger_ok_def)
    then have header: "validate_header ((fl_file l')[i := b] @ later) = Ok ()" "fl_file l \<noteq> []"
      unfolding changed append_assoc by (auto simp: validate_header_append HEADER_BYTES_def)
    from changed have "scan_transactions ((fl_file l')[i := b] @ later) = scan_loop (frame[12 + ?j := b] @ later) (ledger_scan l)"
      using scan_continues [OF assms(1)] by simp
    also have "\<dots> = Err (Corrupt (length (fl_file l) + 12 + length body) ''transaction checksum mismatch'')"
      using read_changed_frame [OF body j(2) b] by (simp add: frame scan_loop_Err ledger_scan_def)
    finally show ?thesis
      using header unfolding changed by (simp add: file' frame ledger_open_def open_with_policy_def validate_path_def node_bytes_def
          open_bytes_def)
  qed
qed

theorem changed_byte_is_detected_witness:
  "\<exists>receipt l. ledger_append Synced fresh_ledger ledger_head_default [first_event] = (Ok receipt, l)
    \<and> ledger_open (Regular ((fl_file l)[28 := fl_file l ! 28 + 1])) False
      = Err (Corrupt (length (fl_file l) - 8) ''transaction checksum mismatch'')"
proof -
  from first_synced obtain receipt l
    where first: "ledger_append Synced fresh_ledger ledger_head_default [first_event] = (Ok receipt, l)" by blast
  then obtain frame stored payload_bytes where
    prep: "prepare_append fresh_ledger ledger_head_default [first_event] = Ok (frame, stored, receipt, payload_bytes)"
    and l: "l = committed fresh_ledger frame stored receipt payload_bytes" by (rule append_Synced)
  from prepare_append_Ok [OF prep] obtain body where "frame = transaction_frame (of_nat (length body)) body" "body_ok body"
    by blast
  then have "28 < length (fl_file l) - 8" by (simp add: l committed_def fresh_ledger_def body_ok_def)
  with first changed_byte_is_detected [OF fresh_ok(1) first, of 28 "fl_file l ! 28 + 1" "[]"] show ?thesis
    by (simp add: fresh_ledger_def)
qed

text \<open>Inspecting an existing file reports exactly what
  opening it for writing reports, errors included; opening it strictly differs only in refusing an
  incomplete tail.\<close>

theorem inspect_agrees_with_open:
  assumes "bytes \<noteq> []"
  shows "inspect (Regular bytes) locked = map_ok snd (ledger_open (Regular bytes) locked)
    \<and> map_ok snd (open_existing_strict (Regular bytes) locked)
      = andthen (inspect (Regular bytes) locked)
          (\<lambda>r. if rr_truncated r > 0 then Err (IncompleteTail (rr_truncated r)) else Ok r)"
  using assms
  by (cases locked; cases "validate_header bytes"; cases "scan_transactions bytes")
    (simp_all add: inspect_def ledger_open_def open_existing_strict_def open_with_policy_def validate_path_def
      node_bytes_def open_bytes_def)

theorem inspect_agrees_with_open_witness:
  "inspect (Regular [1, 2]) False = map_ok snd (ledger_open (Regular [1, 2]) False)
    \<and> ledger_open (Regular [1, 2]) False = Err (Corrupt 0 ''truncated ledger header'')"
  using inspect_agrees_with_open [of "[1, 2]" False]
  by (simp add: ledger_open_def open_with_policy_def validate_path_def node_bytes_def open_bytes_def
      validate_header_def HEADER_BYTES_def)

end
