(* ===== verification/Team_Codec.thy ===== *)
theory Team_Codec
  imports Team_Runtime Ledger
begin

text \<open>
  The binary encoding of Team events (\<open>greentyper-core/src/agent_team/persistence.rs\<close>): the
  \<open>Encoder\<close> and \<open>Decoder\<close>, one encoding and one decoding per value type, and the payload of every
  event kind in the current schema and the three before it.

  An \<open>Encoder\<close> is the bytes it has written.  The sets of the code are ordered: scope labels and
  capabilities are written in the order of \<open>BTreeSet\<close>.
\<close>

section \<open>The order of capabilities\<close>

primrec cap_rank :: "capability \<Rightarrow> nat" where
  "cap_rank WorkspaceRead = 0"
| "cap_rank WorkspaceWrite = 1"
| "cap_rank Process = 2"
| "cap_rank Network = 3"
| "cap_rank (Tool name) = 4"

primrec cap_name :: "capability \<Rightarrow> string" where
  "cap_name WorkspaceRead = []"
| "cap_name WorkspaceWrite = []"
| "cap_name Process = []"
| "cap_name Network = []"
| "cap_name (Tool name) = name"

lemma capability_key: "cap_rank a = cap_rank b \<Longrightarrow> cap_name a = cap_name b \<Longrightarrow> a = b"
  by (cases a; cases b) simp_all

instantiation capability :: linorder
begin

definition less_eq_capability :: "capability \<Rightarrow> capability \<Rightarrow> bool" where
  "less_eq_capability a b \<longleftrightarrow> cap_rank a < cap_rank b \<or> (cap_rank a = cap_rank b \<and> cap_name a \<le> cap_name b)"

definition less_capability :: "capability \<Rightarrow> capability \<Rightarrow> bool" where
  "less_capability a b \<longleftrightarrow> cap_rank a < cap_rank b \<or> (cap_rank a = cap_rank b \<and> cap_name a < cap_name b)"

instance
  by standard (auto simp: less_eq_capability_def less_capability_def intro: capability_key)

end

section \<open>Errors and constants\<close>

datatype durable_team_error =
    DurableLedger ledger_error
  | DurableTeam team_error
  | DurableRecovery recovery_error
  | UnsupportedTeamEventSchema u16 u16 \<comment> \<open>supported, actual\<close>
  | CorruptEvent string
  | HeadMismatch ledger_head ledger_head \<comment> \<open>ledger, team\<close>
  | DurableIntegerOverflow

type_synonym 'a durable_result = "(durable_team_error, 'a) result"

definition TEAM_EVENT_SCHEMA :: u16 where "TEAM_EVENT_SCHEMA = schema_get (schema_current schema_kind.TeamEvent)"
definition TEAM_EVENT_SCHEMA_V1 :: u16 where "TEAM_EVENT_SCHEMA_V1 = 1"
definition TEAM_EVENT_SCHEMA_V2 :: u16 where "TEAM_EVENT_SCHEMA_V2 = 2"
definition TEAM_EVENT_SCHEMA_V3 :: u16 where "TEAM_EVENT_SCHEMA_V3 = 3"

lemmas team_event_schemas = TEAM_EVENT_SCHEMA_def TEAM_EVENT_SCHEMA_V1_def TEAM_EVENT_SCHEMA_V2_def TEAM_EVENT_SCHEMA_V3_def

section \<open>Encoder\<close>

type_synonym encoder = "u8 list"

definition byte_of_char :: "char \<Rightarrow> u8" where "byte_of_char c = of_char c"
definition char_of_byte :: "u8 \<Rightarrow> char" where "char_of_byte b = char_of (uint b)"

definition enc_u8 :: "encoder \<Rightarrow> u8 \<Rightarrow> encoder" where "enc_u8 enc v = enc @ [v]"
definition enc_u32 :: "encoder \<Rightarrow> u32 \<Rightarrow> encoder" where "enc_u32 enc v = enc @ u32_to_le v"
definition enc_u64 :: "encoder \<Rightarrow> u64 \<Rightarrow> encoder" where "enc_u64 enc v = enc @ u64_to_le v"
definition enc_identifier :: "encoder \<Rightarrow> u64 \<Rightarrow> encoder" where "enc_identifier enc v = enc_u64 enc v"

definition enc_count :: "encoder \<Rightarrow> usize \<Rightarrow> encoder durable_result" where
  "enc_count enc n = map_ok (enc_u32 enc) (ok_or (u32_try_from n) DurableIntegerOverflow)"

definition enc_string :: "encoder \<Rightarrow> string \<Rightarrow> encoder durable_result" where
  "enc_string enc s = map_ok (\<lambda>enc. enc @ map byte_of_char s) (enc_count enc (length s))"

definition enc_string_list :: "encoder \<Rightarrow> string list \<Rightarrow> encoder durable_result" where
  "enc_string_list enc ss = andthen (enc_count enc (length ss)) (\<lambda>enc. try_fold enc_string enc ss)"

section \<open>Decoder\<close>

record decoder =
  dc_bytes :: "u8 list"
  dc_position :: usize

definition decoder_new :: "u8 list \<Rightarrow> decoder" where
  "decoder_new bytes = \<lparr>dc_bytes = bytes, dc_position = 0\<rparr>"

definition dec_bytes :: "usize \<Rightarrow> decoder \<Rightarrow> (u8 list \<times> decoder) durable_result" where
  "dec_bytes n d =
     andthen (ok_or (usize_add (dc_position d) n) DurableIntegerOverflow) (\<lambda>last.
     if last \<le> length (dc_bytes d)
     then Ok (take n (drop (dc_position d) (dc_bytes d)), d\<lparr>dc_position := last\<rparr>)
     else Err (CorruptEvent ''truncated Team Event''))"

definition dec_u8 :: "decoder \<Rightarrow> (u8 \<times> decoder) durable_result" where
  "dec_u8 d = map_ok (map_prod hd id) (dec_bytes 1 d)"

definition dec_u32 :: "decoder \<Rightarrow> (u32 \<times> decoder) durable_result" where
  "dec_u32 d = map_ok (map_prod u32_from_le id) (dec_bytes 4 d)"

definition dec_u64 :: "decoder \<Rightarrow> (u64 \<times> decoder) durable_result" where
  "dec_u64 d = map_ok (map_prod u64_from_le id) (dec_bytes 8 d)"

definition decode_identifier :: "u64 \<Rightarrow> u64 durable_result" where
  "decode_identifier value =
     (if value = 0 \<or> value = u64_max then Err (CorruptEvent ''invalid Team Event identifier'') else Ok value)"

definition dec_identifier :: "decoder \<Rightarrow> (u64 \<times> decoder) durable_result" where
  "dec_identifier d =
     andthen (dec_u64 d) (\<lambda>(value, d). map_ok (\<lambda>value. (value, d)) (decode_identifier value))"

text \<open>\<open>decode_task\<close>, \<open>decode_agent\<close>, \<open>decode_message\<close>, \<open>decode_operation\<close> and \<open>decode_transaction\<close>.\<close>

definition decode_ident :: "decoder \<Rightarrow> ('k ident \<times> decoder) durable_result" where
  "decode_ident d = map_ok (map_prod Ident id) (dec_identifier d)"

definition dec_count :: "usize \<Rightarrow> decoder \<Rightarrow> (usize \<times> decoder) durable_result" where
  "dec_count limit d =
     andthen (dec_u32 d) (\<lambda>(value, d).
     if unat value > limit then Err (CorruptEvent ''Team Event collection exceeds its bound'')
     else Ok (unat value, d))"

definition dec_string :: "usize \<Rightarrow> decoder \<Rightarrow> (string \<times> decoder) durable_result" where
  "dec_string max_bytes d =
     andthen (dec_count max_bytes d) (\<lambda>(n, d).
     andthen (dec_bytes n d) (\<lambda>(bytes, d).
     let s = map char_of_byte bytes in
     if utf8_valid s then Ok (s, d) else Err (CorruptEvent ''Team Event string is not UTF-8'')))"

text \<open>A loop that runs a decoding step \<open>n\<close> times.\<close>

primrec dec_repeat :: "nat \<Rightarrow> ('s \<times> decoder \<Rightarrow> ('s \<times> decoder) durable_result) \<Rightarrow> 's \<times> decoder
    \<Rightarrow> ('s \<times> decoder) durable_result" where
  "dec_repeat 0 f s = Ok s"
| "dec_repeat (Suc n) f s = andthen (f s) (dec_repeat n f)"

definition dec_string_list :: "usize \<Rightarrow> decoder \<Rightarrow> ((string list \<times> usize) \<times> decoder) durable_result" where
  "dec_string_list entries d =
     andthen (dec_count MAX_CAPSULE_ENTRIES d) (\<lambda>(count, d).
     andthen (ok_or (usize_add entries count) DurableIntegerOverflow) (\<lambda>entries.
     if entries > MAX_CAPSULE_ENTRIES then Err (CorruptEvent ''Completion Capsule has too many entries'')
     else
     andthen (dec_repeat count (\<lambda>(values, d). map_ok (map_prod (\<lambda>s. values @ [s]) id) (dec_string MAX_CAPSULE_BYTES d))
               ([], d)) (\<lambda>(values, d).
     Ok ((values, entries), d))))"

definition dec_finish :: "decoder \<Rightarrow> unit durable_result" where
  "dec_finish d =
     (if dc_position d = length (dc_bytes d) then Ok () else Err (CorruptEvent ''Team Event has trailing bytes''))"

section \<open>Values\<close>

definition encode_task_spec :: "encoder \<Rightarrow> task_spec \<Rightarrow> encoder durable_result" where
  "encode_task_spec enc spec =
     andthen (enc_string enc (ts_title spec)) (\<lambda>enc.
     andthen (enc_count enc (fcard (ts_scope spec))) (\<lambda>enc.
     andthen (try_fold enc_string enc (sorted_list_of_fset (ts_scope spec))) (\<lambda>enc.
     andthen (enc_count enc (length (ts_dependencies spec))) (\<lambda>enc.
     Ok (foldl (\<lambda>enc d. enc_identifier enc (id_get d)) enc (ts_dependencies spec))))))"

definition decode_label :: "string fset \<times> decoder \<Rightarrow> (string fset \<times> decoder) durable_result" where
  "decode_label s =
     (case s of (labels, d) \<Rightarrow>
      andthen (dec_string MAX_SCOPE_LABEL_BYTES d) (\<lambda>(label, d).
      if label |\<in>| labels then Err (CorruptEvent ''duplicate Team scope label'')
      else Ok (finsert label labels, d)))"

definition decode_dependency :: "task_id list \<times> decoder \<Rightarrow> (task_id list \<times> decoder) durable_result" where
  "decode_dependency s = (case s of (ds, d) \<Rightarrow> map_ok (map_prod (\<lambda>t. ds @ [t]) id) (decode_ident d))"

definition decode_task_spec :: "decoder \<Rightarrow> (task_spec \<times> decoder) durable_result" where
  "decode_task_spec d =
     andthen (dec_string MAX_TASK_TITLE_BYTES d) (\<lambda>(title, d).
     andthen (dec_count MAX_SCOPE_LABELS d) (\<lambda>(label_count, d).
     andthen (dec_repeat label_count decode_label ({||}, d)) (\<lambda>(labels, d).
     andthen (dec_count MAX_TASK_DEPENDENCIES d) (\<lambda>(dependency_count, d).
     andthen (dec_repeat dependency_count decode_dependency ([], d)) (\<lambda>(dependencies, d).
     Ok (\<lparr>ts_title = title, ts_scope = labels, ts_dependencies = dependencies\<rparr>, d))))))"

definition encode_budget :: "encoder \<Rightarrow> resource_budget \<Rightarrow> encoder" where
  "encode_budget enc b = enc_u32 (enc_u64 enc (token_units b)) (tool_calls b)"

definition decode_budget :: "decoder \<Rightarrow> (resource_budget \<times> decoder) durable_result" where
  "decode_budget d =
     andthen (dec_u64 d) (\<lambda>(units, d).
     andthen (dec_u32 d) (\<lambda>(calls, d).
     Ok (\<lparr>token_units = units, tool_calls = calls\<rparr>, d)))"

primrec encode_capability :: "encoder \<Rightarrow> capability \<Rightarrow> encoder durable_result" where
  "encode_capability enc WorkspaceRead = Ok (enc_u8 enc 1)"
| "encode_capability enc WorkspaceWrite = Ok (enc_u8 enc 2)"
| "encode_capability enc Process = Ok (enc_u8 enc 3)"
| "encode_capability enc Network = Ok (enc_u8 enc 4)"
| "encode_capability enc (Tool name) = enc_string (enc_u8 enc 5) name"

definition encode_capabilities :: "encoder \<Rightarrow> capability_snapshot \<Rightarrow> encoder durable_result" where
  "encode_capabilities enc caps =
     andthen (enc_count enc (fcard caps)) (\<lambda>enc.
     try_fold encode_capability enc (sorted_list_of_fset caps))"

definition decode_capability_value :: "decoder \<Rightarrow> (capability \<times> decoder) durable_result" where
  "decode_capability_value d =
     andthen (dec_u8 d) (\<lambda>(tag, d).
     if tag = 1 then Ok (WorkspaceRead, d)
     else if tag = 2 then Ok (WorkspaceWrite, d)
     else if tag = 3 then Ok (Process, d)
     else if tag = 4 then Ok (Network, d)
     else if tag = 5 then map_ok (map_prod Tool id) (dec_string MAX_TOOL_NAME_BYTES d)
     else Err (CorruptEvent ''invalid Team capability tag''))"

definition decode_capability ::
  "capability_snapshot \<times> decoder \<Rightarrow> (capability_snapshot \<times> decoder) durable_result" where
  "decode_capability s =
     (case s of (caps, d) \<Rightarrow>
      andthen (decode_capability_value d) (\<lambda>(c, d).
      if c |\<in>| caps then Err (CorruptEvent ''duplicate Team capability'')
      else Ok (finsert c caps, d)))"

definition decode_capabilities :: "decoder \<Rightarrow> (capability_snapshot \<times> decoder) durable_result" where
  "decode_capabilities d =
     andthen (dec_count MAX_CAPABILITIES d) (\<lambda>(count, d).
     dec_repeat count decode_capability ({||}, d))"

primrec encode_optional_agent :: "encoder \<Rightarrow> agent_id option \<Rightarrow> encoder" where
  "encode_optional_agent enc None = enc_u8 enc 0"
| "encode_optional_agent enc (Some a) = enc_identifier (enc_u8 enc 1) (id_get a)"

definition decode_optional_agent :: "decoder \<Rightarrow> (agent_id option \<times> decoder) durable_result" where
  "decode_optional_agent d =
     andthen (dec_u8 d) (\<lambda>(tag, d).
     if tag = 0 then Ok (None, d)
     else if tag = 1 then map_ok (map_prod Some id) (decode_ident d)
     else Err (CorruptEvent ''invalid optional Agent tag''))"

primrec encode_optional_model_preset :: "encoder \<Rightarrow> inherited_model_preset option \<Rightarrow> encoder durable_result" where
  "encode_optional_model_preset enc None = Ok (enc_u8 enc 0)"
| "encode_optional_model_preset enc (Some preset) = enc_string (enc_u8 enc 1) (preset_id preset)"

definition decode_optional_model_preset :: "decoder \<Rightarrow> (inherited_model_preset option \<times> decoder) durable_result" where
  "decode_optional_model_preset d =
     andthen (dec_u8 d) (\<lambda>(tag, d).
     if tag = 0 then Ok (None, d)
     else if tag = 1
     then andthen (dec_string MAX_MODEL_PRESET_ID_BYTES d) (\<lambda>(name, d).
       map_err DurableTeam (map_ok (\<lambda>preset. (Some preset, d)) (inherited_model_preset_new name)))
     else Err (CorruptEvent ''invalid inherited Model Preset tag''))"

primrec encode_recipient :: "encoder \<Rightarrow> message_recipient \<Rightarrow> encoder" where
  "encode_recipient enc (ToAgent a) = enc_identifier (enc_u8 enc 1) (id_get a)"
| "encode_recipient enc ToTeam = enc_u8 enc 2"

definition decode_recipient :: "decoder \<Rightarrow> (message_recipient \<times> decoder) durable_result" where
  "decode_recipient d =
     andthen (dec_u8 d) (\<lambda>(tag, d).
     if tag = 1 then map_ok (map_prod ToAgent id) (decode_ident d)
     else if tag = 2 then Ok (ToTeam, d)
     else Err (CorruptEvent ''invalid message recipient tag''))"

definition encode_capsule :: "encoder \<Rightarrow> completion_capsule \<Rightarrow> encoder durable_result" where
  "encode_capsule enc c =
     andthen (enc_string enc (cc_outcome c)) (\<lambda>enc. try_fold enc_string_list enc (capsule_lists c))"

definition decode_capsule :: "decoder \<Rightarrow> (completion_capsule \<times> decoder) durable_result" where
  "decode_capsule d =
     andthen (dec_string MAX_CAPSULE_BYTES d) (\<lambda>(outcome, d).
     andthen (dec_string_list 0 d) (\<lambda>((evidence, n), d).
     andthen (dec_string_list n d) (\<lambda>((changes, n), d).
     andthen (dec_string_list n d) (\<lambda>((tests, n), d).
     andthen (dec_string_list n d) (\<lambda>((decisions, n), d).
     andthen (dec_string_list n d) (\<lambda>((blockers, n), d).
     andthen (dec_string_list n d) (\<lambda>((artifacts, n), d).
     andthen (dec_string_list n d) (\<lambda>((residual_risks, n), d).
     Ok (\<lparr>cc_outcome = outcome, cc_evidence = evidence, cc_changes = changes, cc_tests = tests,
          cc_decisions = decisions, cc_blockers = blockers, cc_artifacts = artifacts,
          cc_residual_risks = residual_risks\<rparr>, d)))))))))"

section \<open>Events\<close>

text \<open>The \<open>match\<close> of \<open>encode_event_data_for_schema\<close>: the tag of the kind and its payload.\<close>

definition ids :: "u64 list \<Rightarrow> encoder" where
  "ids = foldl enc_identifier []"

fun encode_kind :: "u16 \<Rightarrow> team_event_kind \<Rightarrow> (u16 \<times> encoder) durable_result" where
  "encode_kind schema (TaskCreated t spec) =
     map_ok (Pair 1) (encode_task_spec (ids [id_get t]) spec)"
| "encode_kind schema (AgentCreated a t parent budget caps preset) =
     andthen (encode_capabilities
       (encode_budget (encode_optional_agent (ids [id_get a, id_get t]) parent) budget) caps) (\<lambda>enc.
     map_ok (Pair 2)
       (if schema \<ge> TEAM_EVENT_SCHEMA_V3 then encode_optional_model_preset enc preset else Ok enc))"
| "encode_kind schema (TaskOwnerAssigned t a) = Ok (3, ids [id_get t, id_get a])"
| "encode_kind schema (DelegationGranted p c) = Ok (4, ids [id_get p, id_get c])"
| "encode_kind schema (TaskReady t) = Ok (5, ids [id_get t])"
| "encode_kind schema (AgentActivated a) = Ok (6, ids [id_get a])"
| "encode_kind schema (TaskStarted t) = Ok (7, ids [id_get t])"
| "encode_kind schema (MessageSent m sender recipient body) =
     map_ok (Pair 8) (enc_string (encode_recipient (ids [id_get m, id_get sender]) recipient) body)"
| "encode_kind schema (CompletionCapsuleSubmitted t a capsule) =
     map_ok (Pair 9) (encode_capsule (ids [id_get t, id_get a]) capsule)"
| "encode_kind schema (TaskSucceeded t) = Ok (10, ids [id_get t])"
| "encode_kind schema (AgentSucceeded a) = Ok (11, ids [id_get a])"
| "encode_kind schema (TaskFailed t reason) = map_ok (Pair 12) (enc_string (ids [id_get t]) reason)"
| "encode_kind schema (AgentFailed a) = Ok (13, ids [id_get a])"
| "encode_kind schema (TaskCancelled t reason) = map_ok (Pair 14) (enc_string (ids [id_get t]) reason)"
| "encode_kind schema (AgentCancelled a) = Ok (15, ids [id_get a])"
| "encode_kind schema (TaskBlocked t b) = Ok (16, ids [id_get t, id_get b])"
| "encode_kind schema (AgentBlocked a b) = Ok (17, ids [id_get a, id_get b])"
| "encode_kind schema (OperationCommitted op tx) = Ok (18, ids [id_get op, id_get tx])"
| "encode_kind schema (OperationAcknowledged op committed ack) =
     Ok (19, ids [id_get op, id_get committed, id_get ack])"
| "encode_kind schema (TaskRetryRequested t) = Ok (20, ids [id_get t])"
| "encode_kind schema (AgentRetryRequested requester a) = Ok (21, ids [id_get requester, id_get a])"

definition encode_event_data_for_schema :: "team_event_kind \<Rightarrow> u16 \<Rightarrow> event_data durable_result" where
  "encode_event_data_for_schema kind schema =
     map_ok (\<lambda>(tag, payload). \<lparr>ed_schema = schema, ed_kind = tag, ed_payload = payload\<rparr>) (encode_kind schema kind)"

definition encode_event_data :: "team_event_kind \<Rightarrow> event_data durable_result" where
  "encode_event_data kind = encode_event_data_for_schema kind TEAM_EVENT_SCHEMA"

text \<open>The \<open>match\<close> of \<open>decode_event_data\<close>, in groups of the same shape: kinds with one and two
  identifiers, and the rest.\<close>

definition decode1 :: "('k ident \<Rightarrow> team_event_kind) \<Rightarrow> decoder \<Rightarrow> (team_event_kind \<times> decoder) durable_result" where
  "decode1 f d = map_ok (map_prod f id) (decode_ident d)"

definition decode2 ::
  "('k ident \<Rightarrow> 'l ident \<Rightarrow> team_event_kind) \<Rightarrow> decoder \<Rightarrow> (team_event_kind \<times> decoder) durable_result" where
  "decode2 f d = andthen (decode_ident d) (\<lambda>(a, d). map_ok (map_prod (f a) id) (decode_ident d))"

definition decode_agent_created :: "u16 \<Rightarrow> decoder \<Rightarrow> (team_event_kind \<times> decoder) durable_result" where
  "decode_agent_created schema d =
     andthen (decode_ident d) (\<lambda>(a, d).
     andthen (decode_ident d) (\<lambda>(t, d).
     andthen (decode_optional_agent d) (\<lambda>(parent, d).
     andthen (decode_budget d) (\<lambda>(budget, d).
     andthen (decode_capabilities d) (\<lambda>(caps, d).
     andthen (if schema \<ge> TEAM_EVENT_SCHEMA_V3 then decode_optional_model_preset d else Ok (None, d)) (\<lambda>(preset, d).
     Ok (AgentCreated a t parent budget caps preset, d)))))))"

definition decode_kind :: "u16 \<Rightarrow> u16 \<Rightarrow> decoder \<Rightarrow> (team_event_kind \<times> decoder) durable_result" where
  "decode_kind schema tag d =
     (if tag = 1 then andthen (decode_ident d) (\<lambda>(t, d). map_ok (map_prod (TaskCreated t) id) (decode_task_spec d))
      else if tag = 2 then decode_agent_created schema d
      else if tag = 3 then decode2 TaskOwnerAssigned d
      else if tag = 4 then decode2 DelegationGranted d
      else if tag = 5 then decode1 TaskReady d
      else if tag = 6 then decode1 AgentActivated d
      else if tag = 7 then decode1 TaskStarted d
      else if tag = 8 then
        andthen (decode_ident d) (\<lambda>(m, d).
        andthen (decode_ident d) (\<lambda>(sender, d).
        andthen (decode_recipient d) (\<lambda>(recipient, d).
        map_ok (map_prod (MessageSent m sender recipient) id) (dec_string MAX_MESSAGE_BYTES d))))
      else if tag = 9 then
        andthen (decode_ident d) (\<lambda>(t, d).
        andthen (decode_ident d) (\<lambda>(a, d).
        map_ok (map_prod (CompletionCapsuleSubmitted t a) id) (decode_capsule d)))
      else if tag = 10 then decode1 TaskSucceeded d
      else if tag = 11 then decode1 AgentSucceeded d
      else if tag = 12 then
        andthen (decode_ident d) (\<lambda>(t, d). map_ok (map_prod (TaskFailed t) id) (dec_string MAX_REASON_BYTES d))
      else if tag = 13 then decode1 AgentFailed d
      else if tag = 14 then
        andthen (decode_ident d) (\<lambda>(t, d). map_ok (map_prod (TaskCancelled t) id) (dec_string MAX_REASON_BYTES d))
      else if tag = 15 then decode1 AgentCancelled d
      else if tag = 16 then decode2 TaskBlocked d
      else if tag = 17 then decode2 AgentBlocked d
      else if tag = 18 then decode2 OperationCommitted d
      else if tag = 19 then
        andthen (decode_ident d) (\<lambda>(op, d). decode2 (OperationAcknowledged op) d)
      else if tag = 20 then decode1 TaskRetryRequested d
      else if tag = 21 then decode2 AgentRetryRequested d
      else Err (CorruptEvent ''unknown Team Event kind''))"

definition decode_event_data :: "event_data \<Rightarrow> team_event_kind durable_result" where
  "decode_event_data data =
     (if ed_schema data \<notin> {TEAM_EVENT_SCHEMA_V1, TEAM_EVENT_SCHEMA_V2, TEAM_EVENT_SCHEMA_V3, TEAM_EVENT_SCHEMA}
      then Err (UnsupportedTeamEventSchema TEAM_EVENT_SCHEMA (ed_schema data))
      else if ed_schema data = TEAM_EVENT_SCHEMA_V1 \<and> ed_kind data > 17
      then Err (CorruptEvent ''Team Event kind is unavailable in schema one'')
      else if ed_schema data < TEAM_EVENT_SCHEMA \<and> ed_kind data > 19
      then Err (CorruptEvent ''Team Event kind is unavailable in prior schema'')
      else
      andthen (decode_kind (ed_schema data) (ed_kind data) (decoder_new (ed_payload data))) (\<lambda>(kind, d).
      map_ok (\<lambda>_. kind) (dec_finish d)))"

end
