(* ===== verification/Team_Durable.thy ===== *)
theory Team_Durable
  imports Team_Codec
begin

text \<open>
  The file-backed Team runtime (\<open>greentyper-core/src/agent_team/persistence.rs\<close>) and the journal of
  durable operations it reports (\<open>operation_records\<close> of \<open>agent_team.rs\<close>): a command is planned, its
  events are encoded and appended to the ledger, and only then published; opening decodes the stored
  events and recovers the runtime from them.

  \<open>write_outcome\<close> says how the write of the appended frame ends.  An \<open>expect\<close> that fails does not
  return: it is \<open>None\<close> in \<open>operation_records\<close> and \<open>Diverges\<close> in a result.
\<close>

section \<open>The operation journal\<close>

datatype team_operation_status = CommittedAwaitingAcknowledgement | Acknowledged

record team_operation_record =
  op_operation :: operation_id
  op_kind :: team_operation_kind
  op_agent :: "agent_id option"
  op_transaction :: transaction_id
  op_first_sequence :: event_seq
  op_last_sequence :: event_seq
  op_event_count :: u32
  op_acknowledgement :: "transaction_id option"
  op_status :: team_operation_status

fun initiating_parent :: "team_event_kind \<Rightarrow> agent_id option" where
  "initiating_parent (DelegationGranted parent _) = Some parent"
| "initiating_parent (AgentRetryRequested requester _) = Some requester"
| "initiating_parent _ = None"

fun acting_agent :: "team_state \<Rightarrow> team_event_kind \<Rightarrow> agent_id option" where
  "acting_agent st (AgentCreated a _ _ _ _ _) = Some a"
| "acting_agent st (AgentSucceeded a) = Some a"
| "acting_agent st (AgentFailed a) = Some a"
| "acting_agent st (AgentCancelled a) = Some a"
| "acting_agent st (AgentBlocked a _) = Some a"
| "acting_agent st (AgentRetryRequested _ a) = Some a"
| "acting_agent st (CompletionCapsuleSubmitted _ a _) = Some a"
| "acting_agent st (MessageSent _ sender _ _) = Some sender"
| "acting_agent st (TaskFailed t _) = Option.bind (bt_get (tasks st) t) tr_owner"
| "acting_agent st (TaskCancelled t _) = Option.bind (bt_get (tasks st) t) tr_owner"
| "acting_agent st _ = None"

fun find_map :: "('a \<Rightarrow> 'b option) \<Rightarrow> 'a list \<Rightarrow> 'b option" where
  "find_map f [] = None"
| "find_map f (x # xs) = (case f x of None \<Rightarrow> find_map f xs | Some y \<Rightarrow> Some y)"

definition operation_agent :: "team_event list \<Rightarrow> team_state \<Rightarrow> agent_id option" where
  "operation_agent evs st =
     (case find_map (initiating_parent \<circ> te_kind) evs of
        Some parent \<Rightarrow> Some parent
      | None \<Rightarrow> find_map (acting_agent st \<circ> te_kind) evs)"

text \<open>One event of the log: nothing, or the record of the operation it commits.\<close>

definition operation_record_of :: "team_runtime \<Rightarrow> team_event \<Rightarrow> team_operation_record list option" where
  "operation_record_of rt e =
     (case te_kind e of
        OperationCommitted op tx \<Rightarrow>
          let frame = filter (\<lambda>c. te_transaction c = tx) (rt_event_log rt) in
          Option.bind (bt_get (operations (rt_state rt)) op) (\<lambda>r.
          Option.bind (checked_sub (ucast (te_count e)) 1) (\<lambda>more.
          Option.bind (checked_add (id_get (te_sequence e)) more) (\<lambda>last_sequence.
          Option.bind (classify_operation_transaction frame) (\<lambda>kind.
          Some [\<lparr>op_operation = op, op_kind = kind, op_agent = operation_agent frame (rt_state rt),
                 op_transaction = tx, op_first_sequence = te_sequence e, op_last_sequence = Ident last_sequence,
                 op_event_count = te_count e, op_acknowledgement = or_acknowledgement r,
                 op_status = (if or_acknowledgement r \<noteq> None then Acknowledged
                              else CommittedAwaitingAcknowledgement)\<rparr>]))))
      | _ \<Rightarrow> Some [])"

definition operation_records :: "team_runtime \<Rightarrow> team_operation_record list option" where
  "operation_records rt = map_option concat (those (map (operation_record_of rt) (rt_event_log rt)))"

section \<open>The durable runtime\<close>

record durable_team_runtime =
  du_runtime :: team_runtime
  du_ledger :: file_ledger
  du_tail :: nat

record durable_team_inspection =
  di_snapshot :: team_snapshot
  di_ledger_head :: ledger_head
  di_tail :: nat
  di_operation_records :: "team_operation_record list"

definition validate_active_limit :: "usize \<Rightarrow> unit durable_result" where
  "validate_active_limit max_active = (if max_active = 0 then Err (DurableTeam InvalidActiveAgentLimit) else Ok ())"

definition runtime_head :: "team_runtime \<Rightarrow> ledger_head" where
  "runtime_head rt =
     (case rev (rt_event_log rt) of [] \<Rightarrow> ledger_head_default
      | e # _ \<Rightarrow> \<lparr>lh_transaction = id_get (te_transaction e), lh_sequence = id_get (te_sequence e)\<rparr>)"

definition team_receipt :: "durability_receipt \<Rightarrow> team_durability_receipt" where
  "team_receipt r =
     \<lparr>tdr_transaction = Ident (dr_transaction r), tdr_first_sequence = Ident (dr_first_sequence r),
      tdr_last_sequence = Ident (dr_last_sequence r), tdr_event_count = dr_event_count r,
      tdr_transaction_crc32c = dr_crc32c r\<rparr>"

definition decode_stored_event :: "stored_event \<Rightarrow> team_event durable_result" where
  "decode_stored_event s =
     andthen (decode_identifier (sv_sequence s)) (\<lambda>sequence.
     andthen (decode_identifier (sv_transaction s)) (\<lambda>transaction.
     andthen (decode_event_data (sv_data s)) (\<lambda>kind.
     Ok \<lparr>te_sequence = Ident sequence, te_transaction = Ident transaction, te_index = sv_index s,
         te_count = sv_count s, te_kind = kind\<rparr>)))"

text \<open>The second component of the results is the process's next Runtime authority.\<close>

definition recover_team :: "replay_report \<Rightarrow> usize \<Rightarrow> u64 \<Rightarrow> (team_runtime \<times> u64) durable_result" where
  "recover_team report max_active counter =
     andthen (try_map decode_stored_event (rr_events report)) (\<lambda>events.
     andthen (map_err DurableRecovery (recover max_active counter events)) (\<lambda>(rt, counter').
     if runtime_head rt \<noteq> rr_head report then Err (HeadMismatch (rr_head report) (runtime_head rt))
     else Ok (rt, counter')))"

definition from_opened_ledger ::
  "file_ledger \<times> replay_report \<Rightarrow> usize \<Rightarrow> u64 \<Rightarrow> (durable_team_runtime \<times> u64) durable_result" where
  "from_opened_ledger opened max_active counter =
     map_ok (\<lambda>(rt, counter').
       (\<lparr>du_runtime = rt, du_ledger = fst opened, du_tail = rr_truncated (snd opened)\<rparr>, counter'))
       (recover_team (snd opened) max_active counter)"

definition durable_open ::
  "file_node \<Rightarrow> bool \<Rightarrow> usize \<Rightarrow> u64 \<Rightarrow> (durable_team_runtime \<times> u64) durable_result" where
  "durable_open node locked max_active counter =
     andthen (validate_active_limit max_active) (\<lambda>_.
     andthen (map_err DurableLedger (ledger_open node locked)) (\<lambda>opened.
     from_opened_ledger opened max_active counter))"

definition durable_open_existing_strict ::
  "file_node \<Rightarrow> bool \<Rightarrow> usize \<Rightarrow> u64 \<Rightarrow> (durable_team_runtime \<times> u64) durable_result" where
  "durable_open_existing_strict node locked max_active counter =
     andthen (validate_active_limit max_active) (\<lambda>_.
     andthen (map_err DurableLedger (open_existing_strict node locked)) (\<lambda>opened.
     from_opened_ledger opened max_active counter))"

definition durable_inspect ::
  "file_node \<Rightarrow> bool \<Rightarrow> usize \<Rightarrow> u64 \<Rightarrow> (durable_team_inspection \<times> u64) durable_result" where
  "durable_inspect node locked max_active counter =
     andthen (validate_active_limit max_active) (\<lambda>_.
     andthen (map_err DurableLedger (inspect node locked)) (\<lambda>report.
     andthen (recover_team report max_active counter) (\<lambda>(rt, counter').
     case operation_records rt of None \<Rightarrow> Diverges
     | Some records \<Rightarrow>
         Ok (\<lparr>di_snapshot = snapshot rt, di_ledger_head = rr_head report, di_tail = rr_truncated report,
              di_operation_records = records\<rparr>, counter'))))"

section \<open>Committing\<close>

definition append_prepared ::
  "write_outcome \<Rightarrow> durable_team_runtime \<Rightarrow> prepared_events
     \<Rightarrow> team_durability_receipt durable_result \<times> file_ledger" where
  "append_prepared outcome d prepared =
     (let team_head = runtime_head (du_runtime d); ledger = du_ledger d in
      if fl_head ledger \<noteq> team_head then (Err (HeadMismatch (fl_head ledger) team_head), ledger)
      else
      case try_map (encode_event_data \<circ> te_kind) (pe_events prepared) of
        Err e \<Rightarrow> (Err e, ledger)
      | Diverges \<Rightarrow> (Diverges, ledger)
      | Ok encoded \<Rightarrow>
          (case ledger_append outcome ledger team_head encoded of
             (r, ledger') \<Rightarrow> (map_ok team_receipt (map_err DurableLedger r), ledger')))"

text \<open>What follows a prepared transaction: append it, and publish only when the append succeeded.\<close>

definition commit_prepared ::
  "write_outcome \<Rightarrow> durable_team_runtime \<Rightarrow> prepared_events \<Rightarrow> (team_durability_receipt \<Rightarrow> 'a)
     \<Rightarrow> 'a durable_result \<times> durable_team_runtime" where
  "commit_prepared outcome d prepared result_of =
     (case append_prepared outcome d prepared of
        (Ok receipt, ledger) \<Rightarrow>
          (Ok (result_of receipt), d\<lparr>du_runtime := publish_events (du_runtime d) prepared, du_ledger := ledger\<rparr>)
      | (Err e, ledger) \<Rightarrow> (Err e, d\<lparr>du_ledger := ledger\<rparr>)
      | (Diverges, ledger) \<Rightarrow> (Diverges, d\<lparr>du_ledger := ledger\<rparr>))"

definition durable_dispatch ::
  "write_outcome \<Rightarrow> durable_team_runtime \<Rightarrow> team_command \<Rightarrow> team_commit durable_result \<times> durable_team_runtime" where
  "durable_dispatch outcome d cmd =
     (case prepare (du_runtime d) cmd of
        Ok prepared \<Rightarrow>
          commit_prepared outcome d (fst prepared)
            (\<lambda>receipt. snd (publish (du_runtime d) prepared (Synchronous receipt)))
      | Err e \<Rightarrow> (Err (DurableTeam e), d)
      | Diverges \<Rightarrow> (Diverges, d))"

record team_operation_commit =
  toc_operation :: operation_id
  toc_commit :: team_commit

definition dispatch_operation ::
  "write_outcome \<Rightarrow> durable_team_runtime \<Rightarrow> operation_id \<Rightarrow> team_command
     \<Rightarrow> team_operation_commit durable_result \<times> durable_team_runtime" where
  "dispatch_operation outcome d op cmd =
     (case prepare_operation (du_runtime d) op cmd of
        Ok prepared \<Rightarrow>
          commit_prepared outcome d (fst prepared)
            (\<lambda>receipt. \<lparr>toc_operation = op,
               toc_commit = snd (publish (du_runtime d) prepared (Synchronous receipt))\<rparr>)
      | Err e \<Rightarrow> (Err (DurableTeam e), d)
      | Diverges \<Rightarrow> (Diverges, d))"

datatype acknowledge_outcome = Durable team_durability_receipt | AlreadyAcknowledged

definition acknowledge_operation ::
  "write_outcome \<Rightarrow> durable_team_runtime \<Rightarrow> operation_id
     \<Rightarrow> acknowledge_outcome durable_result \<times> durable_team_runtime" where
  "acknowledge_operation outcome d op =
     (case operation_records (du_runtime d) of
        None \<Rightarrow> (Diverges, d)
      | Some records \<Rightarrow>
         (case List.find (\<lambda>r. op_operation r = op) records of
            None \<Rightarrow> (Err (DurableTeam (UnknownOperation op)), d)
          | Some record \<Rightarrow>
              if op_status record = Acknowledged then (Ok AlreadyAcknowledged, d)
              else
              (case prepare_operation_acknowledgement (du_runtime d) op of
                 Ok prepared \<Rightarrow> commit_prepared outcome d prepared Durable
               | Err e \<Rightarrow> (Err (DurableTeam e), d)
               | Diverges \<Rightarrow> (Diverges, d))))"

end
