(* ===== verification/Team_Journal.thy ===== *)
theory Team_Journal
  imports Team_Durable Team_Reach Team_Life
begin

text \<open>
  The journal of durable operations: in a runtime's log every transaction is one run of events,
  so \<open>operation_records\<close> finds each operation's frame, its command and its state, and none of its
  \<open>expect\<close>s fails.
\<close>

section \<open>Frames\<close>

text \<open>\<open>framed_from j log\<close>: the log is a run of valid transactions, numbered from \<open>j + 1\<close>.\<close>

definition frame_of :: "nat \<Rightarrow> team_event list \<Rightarrow> bool" where
  "frame_of j chunk \<longleftrightarrow> (\<forall>e \<in> set chunk. te_transaction e = Ident (of_nat (Suc j)) \<and> te_count e \<noteq> 0)
     \<and> validate_operation_transaction chunk = Ok ()"

definition frames :: "team_event list list \<Rightarrow> bool" where
  "frames chunks \<longleftrightarrow> (\<forall>j < length chunks. frame_of j (chunks ! j))"

definition log_framed :: "team_event list \<Rightarrow> u64 \<Rightarrow> bool" where
  "log_framed log next_transaction \<longleftrightarrow>
     (\<exists>chunks. log = concat chunks \<and> frames chunks \<and> unat next_transaction = Suc (length chunks))"

lemma frames_snoc: "frames (chunks @ [chunk]) \<longleftrightarrow> frames chunks \<and> frame_of (length chunks) chunk"
  by (auto simp: frames_def nth_append less_Suc_eq)

lemma log_framed_append:
  assumes "log_framed log tx" and "\<forall>e \<in> set chunk. te_transaction e = Ident tx \<and> te_count e \<noteq> 0"
    and "validate_operation_transaction chunk = Ok ()" and "checked_add tx 1 = Some tx'"
  shows "log_framed (log @ chunk) tx'"
proof -
  from assms(1) obtain chunks where log: "log = concat chunks" "frames chunks" and tx: "unat tx = Suc (length chunks)"
    by (auto simp: log_framed_def)
  have "unat tx < 2 ^ 64" by (rule order_less_le_trans [OF unsigned_less]) simp
  with tx have "tx = of_nat (Suc (length chunks))"
    by (simp add: word_unat_eq_iff unat_of_nat del: of_nat_Suc)
  then have "frame_of (length chunks) chunk" using assms(2,3) by (simp add: frame_of_def)
  moreover have "unat tx' = Suc (Suc (length chunks))"
    using assms(4) tx by (simp add: checked_add_Some_iff unat_word_ariths)
  ultimately show ?thesis
    using log unfolding log_framed_def by (intro exI [of _ "chunks @ [chunk]"]) (simp add: frames_snoc)
qed

lemma recover_loop_framed:
  assumes "recover_loop m rv evs = Ok rv'" and "log_framed log (rv_transaction rv)"
  shows "log_framed (log @ evs) (rv_transaction rv')"
  using assms
proof (induction arbitrary: log rule: recover_loop_induct)
  case (chunk rv chunk rv1 rest rv')
  have "\<forall>e \<in> set chunk. te_transaction e = Ident (rv_transaction rv) \<and> te_count e \<noteq> 0"
    using chunk.hyps(1-3) by (auto simp: advanced_def framed_def in_set_conv_nth ident.expand)
  then have "log_framed (log @ chunk) (rv_transaction rv1)"
    using chunk.hyps(3) chunk.prems by (intro log_framed_append) (auto simp: advanced_def)
  with chunk.IH [of "log @ chunk"] show ?case by simp
qed simp

lemma start_framed: "log_framed [] 1"
  by (auto simp: log_framed_def frames_def)

lemma reachable_framed: "reachable rt \<Longrightarrow> log_framed (rt_event_log rt) (rt_next_transaction rt)"
proof (induction rule: reachable_induct)
  case (fresh n c rt c')
  then show ?case using start_framed by (auto dest!: new_runtime)
next
  case (commit rt p)
  from commit.hyps(2) obtain kinds where count: "length kinds < 2 ^ 32" "kinds \<noteq> []"
    and evs: "pe_events p = number_events (of_nat (Suc (length (rt_event_log rt)))) (Ident (rt_next_transaction rt)) kinds"
    and rest: "validate_operation_transaction (pe_events p) = Ok ()"
      "checked_add (rt_next_transaction rt) 1 = Some (pe_next_transaction p)"
    by (rule prepared_Ok) simp
  have "(of_nat (length kinds) :: u32) \<noteq> 0"
    using count by (simp add: word_unat_eq_iff unat_of_nat)
  then have "\<forall>e \<in> set (pe_events p). te_transaction e = Ident (rt_next_transaction rt) \<and> te_count e \<noteq> 0"
    by (auto simp: evs number_events_def)
  then show ?case using log_framed_append [OF commit.IH _ rest] by simp
next
  case (recovered n c log rt c')
  then show ?case
  proof (cases rule: recover_Ok)
    case (1 rv)
    from recover_loop_framed [OF 1(1), of "[]"] start_framed 1 show ?thesis by (simp add: recovery_start_def)
  qed
qed

section \<open>The operations a log commits\<close>

fun committed_op :: "team_event_kind \<Rightarrow> operation_id list" where
  "committed_op (OperationCommitted op _) = [op]"
| "committed_op _ = []"

lemma apply_event_committed:
  assumes "apply_event st k n = Ok st'"
  shows "bt_contains_key (operations st') op \<longleftrightarrow> bt_contains_key (operations st) op \<or> op \<in> set (committed_op k)"
    and "op \<in> set (committed_op k) \<Longrightarrow> \<not> bt_contains_key (operations st) op"
  using assms
  by (cases k; auto simp: quiet_apply_defs apply_task_created_def apply_agent_created_def
      result_ok put_task_def put_agent_def bt_get_insert bt_contains_key_def
      split: if_splits elim!: check_agent_parent_cases)+

lemma apply_all_committed:
  assumes "apply_all st ks n = Ok st'"
  shows "distinct (concat (map committed_op ks))
    \<and> (\<forall>op. bt_contains_key (operations st') op
         \<longleftrightarrow> bt_contains_key (operations st) op \<or> op \<in> set (concat (map committed_op ks)))
    \<and> (\<forall>op \<in> set (concat (map committed_op ks)). \<not> bt_contains_key (operations st) op)"
  using assms
proof (induction ks arbitrary: st)
  case (Cons k ks)
  then obtain st1 where st1: "apply_event st k n = Ok st1" "apply_all st1 ks n = Ok st'"
    by (auto simp: apply_all_def result_ok)
  have "distinct (committed_op k)" by (cases k) simp_all
  then show ?case using Cons.IH [OF st1(2)] apply_event_committed [OF st1(1)] by auto
qed (simp add: apply_all_def)

section \<open>No expectation of operation_records fails\<close>

lemma committed_in_frame:
  assumes "validate_operation_transaction chunk = Ok ()" and "e \<in> set chunk" and "te_kind e = OperationCommitted op tx"
  shows "tx = te_transaction e \<and> classify_operation_transaction chunk \<noteq> None"
proof -
  let ?c = "filter (is_op_committed \<circ> te_kind) chunk"
  have e: "e \<in> set ?c" using assms(2,3) by simp
  then obtain a cs where c: "?c = a # cs" by (cases ?c) auto
  have ok: "cs = []" "(case te_kind a of OperationCommitted _ tx \<Rightarrow> tx = te_transaction a
       \<and> classify_operation_transaction chunk \<noteq> None | _ \<Rightarrow> False)"
    using assms(1) unfolding validate_operation_transaction_def Let_def c
    by (auto split: if_splits team_event_kind.splits)
  with e c assms(3) show ?thesis by auto
qed

lemma concat_pick:
  "\<forall>i < length xs. f (xs ! i) = (if i = j then y else []) \<Longrightarrow> j < length xs \<Longrightarrow> concat (map f xs) = y"
proof (induction xs arbitrary: j)
  case (Cons x xs)
  show ?case
  proof (cases j)
    case 0
    with Cons.prems have "f x = y" "\<forall>i < length xs. f (xs ! i) = []" by (auto simp: All_less_Suc2)
    then show ?thesis by (auto simp: in_set_conv_nth)
  next
    case (Suc k)
    with Cons show ?thesis by (auto simp: All_less_Suc2)
  qed
qed simp

lemma frame_filter:
  assumes "frames chunks" and "length chunks < 2 ^ 64 - 1" and "j < length chunks" and "e \<in> set (chunks ! j)"
  shows "filter (\<lambda>c. te_transaction c = te_transaction e) (concat chunks) = chunks ! j"
proof -
  have same: "te_transaction c = te_transaction e \<longleftrightarrow> i = j" if "c \<in> set (chunks ! i)" "i < length chunks" for c i
  proof -
    have "te_transaction c = Ident (of_nat (Suc i))" "te_transaction e = Ident (of_nat (Suc j))"
      using assms(1,3,4) that by (auto simp: frames_def frame_of_def)
    moreover have "(of_nat (Suc i) :: u64) = of_nat (Suc j) \<longleftrightarrow> i = j"
      using assms(2,3) that(2) by (simp add: word_unat_eq_iff unat_of_nat del: of_nat_Suc)
    ultimately show ?thesis by simp
  qed
  let ?f = "filter (\<lambda>c. te_transaction c = te_transaction e)"
  have "?f (chunks ! i) = (if i = j then chunks ! j else [])" if "i < length chunks" for i
    using same that by (auto simp: filter_empty_conv intro: filter_True)
  then show ?thesis
    using concat_pick [of chunks ?f j "chunks ! j"] assms(3) by (simp add: filter_concat)
qed

lemma those_map: "(\<And>x. x \<in> set xs \<Longrightarrow> f x = Some (g x)) \<Longrightarrow> those (map f xs) = Some (map g xs)"
  by (induction xs) simp_all

text \<open>A record that tells what the fold keeps of its operation.\<close>

definition record_true :: "team_runtime \<Rightarrow> team_operation_record \<Rightarrow> bool" where
  "record_true rt r \<longleftrightarrow> (\<exists>kept. bt_get (operations (rt_state rt)) (op_operation r) = Some kept
     \<and> op_acknowledgement r = or_acknowledgement kept
     \<and> (op_status r = Acknowledged \<longleftrightarrow> or_acknowledgement kept \<noteq> None))"

lemma operation_record_total:
  assumes "log_framed (rt_event_log rt) (rt_next_transaction rt)" and "length (rt_event_log rt) < 2 ^ 63"
    and "numbered (rt_event_log rt)" and "e \<in> set (rt_event_log rt)"
    and "\<forall>op \<in> set (committed_op (te_kind e)). bt_contains_key (operations (rt_state rt)) op"
  shows "\<exists>rs. operation_record_of rt e = Some rs \<and> map op_operation rs = committed_op (te_kind e)
    \<and> (\<forall>r \<in> set rs. record_true rt r)"
proof (cases "te_kind e")
  case (OperationCommitted op tx)
  from assms(1) obtain chunks where log: "rt_event_log rt = concat chunks" "frames chunks"
    and tx: "unat (rt_next_transaction rt) = Suc (length chunks)" by (auto simp: log_framed_def)
  from assms(4) obtain j where j: "j < length chunks" "e \<in> set (chunks ! j)"
    unfolding log(1) by (auto simp: in_set_conv_nth [of _ chunks])
  have "unat (rt_next_transaction rt) < 2 ^ 64" by (rule order_less_le_trans [OF unsigned_less]) simp
  then have few: "length chunks < 2 ^ 64 - 1" using tx by simp
  have frame: "frame_of j (chunks ! j)" using log(2) j(1) by (simp add: frames_def)
  have marker: "tx = te_transaction e" "classify_operation_transaction (chunks ! j) \<noteq> None"
    using committed_in_frame [OF _ j(2) OperationCommitted] frame by (auto simp: frame_of_def)
  then have chunk: "filter (\<lambda>c. te_transaction c = tx) (rt_event_log rt) = chunks ! j"
    using frame_filter [OF log(2) few j] by (simp add: log(1))
  have count: "0 < unat (te_count e)" "unat (te_count e) < 2 ^ 32"
    using frame j(2) unsigned_less [of "te_count e"] by (auto simp: frame_of_def unat_gt_0)
  then have wide: "unat (ucast (te_count e) :: u64) = unat (te_count e)"
    by (simp add: unsigned_ucast_eq take_bit_nat_eq_self_iff)
  then have one: "(1 :: u64) \<le> ucast (te_count e)" using count by (simp add: word_le_nat_alt)
  have more: "checked_sub (ucast (te_count e) :: u64) 1 = Some (ucast (te_count e) - 1)"
    and small: "unat (ucast (te_count e) - 1 :: u64) < 2 ^ 32"
    using one count wide by (auto simp: checked_sub_def unat_sub)
  obtain i where i: "i < length (rt_event_log rt)" "e = rt_event_log rt ! i" using assms(4) by (auto simp: in_set_conv_nth)
  then have "unat (id_get (te_sequence e)) = Suc i"
    using assms(2,3) by (simp add: numbered_def unat_of_nat del: of_nat_Suc)
  then have last: "checked_add (id_get (te_sequence e)) (ucast (te_count e) - 1) \<noteq> None"
    using small i(1) assms(2) by (auto simp: checked_add_def)
  show ?thesis
    using assms(5) OperationCommitted chunk marker more last
    by (auto simp: operation_record_of_def Let_def bt_contains_key_def record_true_def)
qed (simp_all add: operation_record_of_def)

text \<open>The journal: one record per operation, with the state the fold keeps of it.\<close>

lemma operation_records_total:
  assumes "reachable rt" and "length (rt_event_log rt) < 2 ^ 63" and "numbered (rt_event_log rt)"
  obtains records where "operation_records rt = Some records" "distinct (map op_operation records)"
    "\<And>op. op \<in> set (map op_operation records) \<longleftrightarrow> bt_contains_key (operations (rt_state rt)) op"
    "\<And>r. r \<in> set records \<Longrightarrow> record_true rt r"
proof -
  let ?log = "rt_event_log rt" and ?ops = "operations (rt_state rt)"
  have "apply_all team_state_default (map te_kind ?log) (rt_max_active rt) = Ok (rt_state rt)"
    using reachable_ok [OF assms(1)] by (simp add: runtime_ok_def)
  from apply_all_committed [OF this]
  have ops: "distinct (concat (map (committed_op \<circ> te_kind) ?log))"
    "bt_contains_key ?ops op \<longleftrightarrow> op \<in> set (concat (map (committed_op \<circ> te_kind) ?log))" for op
    by (auto simp: team_state_default_def bt_contains_key_def bt_get_def comp_def)
  have "\<forall>e \<in> set ?log. \<exists>rs. operation_record_of rt e = Some rs \<and> map op_operation rs = committed_op (te_kind e)
    \<and> (\<forall>r \<in> set rs. record_true rt r)"
  proof
    fix e assume e: "e \<in> set ?log"
    then have "\<forall>op \<in> set (committed_op (te_kind e)). bt_contains_key ?ops op" using ops(2) by auto
    then show "\<exists>rs. operation_record_of rt e = Some rs \<and> map op_operation rs = committed_op (te_kind e)
        \<and> (\<forall>r \<in> set rs. record_true rt r)"
      by (rule operation_record_total [OF reachable_framed [OF assms(1)] assms(2,3) e])
  qed
  from bchoice [OF this] obtain g where g: "\<forall>e \<in> set ?log. operation_record_of rt e = Some (g e)
    \<and> map op_operation (g e) = committed_op (te_kind e) \<and> (\<forall>r \<in> set (g e). record_true rt r)" by blast
  let ?records = "concat (map g ?log)"
  have records: "operation_records rt = Some ?records"
    using g by (simp add: operation_records_def those_map [of ?log "operation_record_of rt" g])
  have names: "map op_operation ?records = concat (map (committed_op \<circ> te_kind) ?log)"
    using g by (simp add: map_concat comp_def cong: map_cong)
  show thesis
  proof (rule that [OF records])
    show "distinct (map op_operation ?records)" unfolding names by (rule ops(1))
    show "op \<in> set (map op_operation ?records) \<longleftrightarrow> bt_contains_key ?ops op" for op
      unfolding names ops(2) ..
    show "r \<in> set ?records \<Longrightarrow> record_true rt r" for r using g by auto
  qed
qed

end
