(* ===== verification/Team_Codec_Laws.thy ===== *)
theory Team_Codec_Laws
  imports Team_Codec
begin

text \<open>
  What the encoding promises: every part of a payload is read back as it was written, whatever
  stands before and behind it, and no decoder reads beyond its part.
\<close>

section \<open>Reading back\<close>

text \<open>\<open>reads dec v w\<close>: on the bytes \<open>w\<close>, wherever they stand, \<open>dec\<close> returns \<open>v\<close> and moves past them.\<close>

definition reads :: "(decoder \<Rightarrow> ('e, 'a \<times> decoder) result) \<Rightarrow> 'a \<Rightarrow> u8 list \<Rightarrow> bool" where
  "reads dec v w \<longleftrightarrow> (\<forall>pre rest. length pre + length w + length rest < 2 ^ 64 \<longrightarrow>
     dec \<lparr>dc_bytes = pre @ w @ rest, dc_position = length pre\<rparr>
       = Ok (v, \<lparr>dc_bytes = pre @ w @ rest, dc_position = length pre + length w\<rparr>))"

named_theorems reads

lemma reads_return [reads]: "reads (\<lambda>d. Ok (v, d)) v []"
  by (simp add: reads_def)

lemma reads_bind:
  assumes "reads dec v w" and "reads (k v) u x"
  shows "reads (\<lambda>d. andthen (dec d) (\<lambda>(y, d). k y d)) u (w @ x)"
  unfolding reads_def
proof (intro allI impI)
  fix pre rest :: "u8 list"
  assume len: "length pre + length (w @ x) + length rest < 2 ^ 64"
  have "dec \<lparr>dc_bytes = pre @ w @ (x @ rest), dc_position = length pre\<rparr>
      = Ok (v, \<lparr>dc_bytes = pre @ w @ (x @ rest), dc_position = length pre + length w\<rparr>)"
    using assms(1) len unfolding reads_def by auto
  moreover have "k v \<lparr>dc_bytes = (pre @ w) @ x @ rest, dc_position = length (pre @ w)\<rparr>
      = Ok (u, \<lparr>dc_bytes = (pre @ w) @ x @ rest, dc_position = length (pre @ w) + length x\<rparr>)"
    using assms(2) [unfolded reads_def, rule_format, of "pre @ w" rest] len by (simp add: ac_simps)
  ultimately show "andthen (dec \<lparr>dc_bytes = pre @ (w @ x) @ rest, dc_position = length pre\<rparr>) (\<lambda>(y, d). k y d)
      = Ok (u, \<lparr>dc_bytes = pre @ (w @ x) @ rest, dc_position = length pre + length (w @ x)\<rparr>)"
    by (simp add: ac_simps)
qed

lemma reads_map:
  "reads dec v w \<Longrightarrow> u = f v \<Longrightarrow> reads (\<lambda>d. map_ok (map_prod f id) (dec d)) u w"
  by (simp add: reads_def)

lemma reads_last: "reads dec v w \<Longrightarrow> reads (k v) u [] \<Longrightarrow> reads (\<lambda>d. andthen (dec d) (\<lambda>(y, d). k y d)) u w"
  using reads_bind [of dec v w k u "[]"] by simp

lemma reads_bytes: "length w = n \<Longrightarrow> reads (dec_bytes n) w w"
  by (simp add: reads_def dec_bytes_def usize_add_def)

lemma reads_u8 [reads]: "reads dec_u8 b [b]"
  using reads_map [OF reads_bytes, of "[b]" 1 b hd] by (simp add: dec_u8_def [abs_def])

lemma reads_u32 [reads]: "reads dec_u32 v (u32_to_le v)"
  using reads_map [OF reads_bytes, of "u32_to_le v" 4 v u32_from_le] by (simp add: dec_u32_def [abs_def])

lemma reads_u64 [reads]: "reads dec_u64 v (u64_to_le v)"
  using reads_map [OF reads_bytes, of "u64_to_le v" 8 v u64_from_le] by (simp add: dec_u64_def [abs_def])

definition id_valid :: "u64 \<Rightarrow> bool" where
  "id_valid i \<longleftrightarrow> i \<noteq> 0 \<and> i \<noteq> u64_max"

lemma reads_identifier [reads]: "id_valid i \<Longrightarrow> reads dec_identifier i (u64_to_le i)"
  using reads_u64 [of i] by (auto simp: reads_def dec_identifier_def decode_identifier_def id_valid_def)

lemma reads_ident [reads]: "id_valid (id_get i) \<Longrightarrow> reads decode_ident i (u64_to_le (id_get i))"
  unfolding decode_ident_def [abs_def] by (rule reads_map [OF reads_identifier]) simp_all

definition count_bytes :: "usize \<Rightarrow> u8 list" where
  "count_bytes n = u32_to_le (of_nat n)"

lemma reads_count [reads]:
  assumes "n \<le> limit" and "n < 2 ^ 32"
  shows "reads (dec_count limit) n (count_bytes n)"
proof -
  have "unat (of_nat n :: u32) = n" using assms(2) by (simp add: unat_of_nat)
  then show ?thesis
    using reads_u32 [of "of_nat n"] assms by (simp add: reads_def dec_count_def count_bytes_def)
qed

section \<open>Strings\<close>

lemma byte_char [simp]: "char_of_byte (byte_of_char c) = c"
proof -
  have "uint (of_nat (of_char c) :: u8) = int (of_char c)"
    using nat_of_char_less_256 [of c] by (simp add: unsigned_of_nat take_bit_nat_eq_self_iff)
  then have "uint (of_char c :: u8) = of_char c" by (simp only: of_nat_of_char)
  then show ?thesis by (simp add: char_of_byte_def byte_of_char_def)
qed

lemma chars_bytes [simp]: "char_of_byte \<circ> byte_of_char = id"
  by (simp add: fun_eq_iff)

definition string_bytes :: "string \<Rightarrow> u8 list" where
  "string_bytes s = count_bytes (length s) @ map byte_of_char s"

definition text_ok :: "usize \<Rightarrow> string \<Rightarrow> bool" where
  "text_ok n s \<longleftrightarrow> length s \<le> n \<and> length s < 2 ^ 32 \<and> utf8_valid s"

lemma reads_string [reads]: "text_ok n s \<Longrightarrow> reads (dec_string n) s (string_bytes s)"
  unfolding dec_string_def [abs_def] string_bytes_def text_ok_def
  by (rule reads_bind [OF reads_count]) (auto intro!: reads_last [OF reads_bytes] reads)

section \<open>Loops\<close>

lemma reads_repeat:
  assumes "\<And>ys x zs. xs = ys @ x # zs \<Longrightarrow>
      reads (\<lambda>d. f (foldl upd acc ys, d)) (upd (foldl upd acc ys) x) (enc x)"
  shows "reads (\<lambda>d. dec_repeat (length xs) f (acc, d)) (foldl upd acc xs) (concat (map enc xs))"
  using assms
proof (induction xs arbitrary: acc)
  case (Cons x xs)
  have "reads (\<lambda>d. f (acc, d)) (upd acc x) (enc x)" using Cons.prems [of "[]"] by simp
  moreover have "reads (\<lambda>d. dec_repeat (length xs) f (upd acc x, d)) (foldl upd (upd acc x) xs) (concat (map enc xs))"
    using Cons.prems [of "x # _"] by (intro Cons.IH) simp
  ultimately show ?case
    using reads_bind [where dec = "\<lambda>d. f (acc, d)" and k = "\<lambda>y d. dec_repeat (length xs) f (y, d)"]
    by (simp add: case_prod_unfold)
qed (simp add: reads)

lemma foldl_snoc: "foldl (\<lambda>vs x. vs @ [x]) acc xs = acc @ xs"
  by (induction xs arbitrary: acc) simp_all

lemma foldl_finsert: "foldl (\<lambda>A x. finsert x A) A xs = fset_of_list xs |\<union>| A"
  by (induction xs arbitrary: A) auto

lemma reads_appending:
  assumes "\<And>x. x \<in> set xs \<Longrightarrow> reads dec x (enc x)"
  shows "reads (\<lambda>d. dec_repeat (length xs) (\<lambda>(vs, d). map_ok (map_prod (\<lambda>x. vs @ [x]) id) (dec d)) ([], d)) xs
    (concat (map enc xs))"
proof -
  let ?f = "\<lambda>(vs, d). map_ok (map_prod (\<lambda>x. vs @ [x]) id) (dec d)"
  have "reads (\<lambda>d. dec_repeat (length xs) ?f ([], d)) (foldl (\<lambda>vs x. vs @ [x]) [] xs) (concat (map enc xs))"
    by (rule reads_repeat) (auto simp: foldl_snoc intro!: reads_map assms)
  then show ?thesis by (simp add: foldl_snoc)
qed

lemma reads_inserting:
  assumes "\<And>x. x |\<in>| A \<Longrightarrow> reads dec x (enc x)"
  shows "reads (\<lambda>d. dec_repeat (fcard A) (\<lambda>(B, d). andthen (dec d) (\<lambda>(x, d).
      if x |\<in>| B then Err e else Ok (finsert x B, d))) ({||}, d)) A (concat (map enc (sorted_list_of_fset A)))"
proof -
  let ?xs = "sorted_list_of_fset A"
  have "reads (\<lambda>d. andthen (dec d) (\<lambda>(x, d). if x |\<in>| fset_of_list ys then Err e else Ok (finsert x (fset_of_list ys), d)))
      (finsert x (fset_of_list ys)) (enc x)" if split: "?xs = ys @ x # zs" for ys x zs
  proof (rule reads_last)
    have "x \<in> set ?xs" unfolding split by simp
    then show "reads dec x (enc x)" using assms by simp
    have "distinct ?xs" by (simp add: sorted_list_of_fset.rep_eq)
    then have "x |\<notin>| fset_of_list ys" unfolding split by (simp add: fset_of_list_elem)
    then show "reads (\<lambda>d. if x |\<in>| fset_of_list ys then Err e else Ok (finsert x (fset_of_list ys), d))
        (finsert x (fset_of_list ys)) []" by (simp add: reads)
  qed
  then have "reads (\<lambda>d. dec_repeat (length ?xs) (\<lambda>(B, d). andthen (dec d) (\<lambda>(x, d).
      if x |\<in>| B then Err e else Ok (finsert x B, d))) ({||}, d)) (foldl (\<lambda>A x. finsert x A) {||} ?xs) (concat (map enc ?xs))"
    by (intro reads_repeat) (simp add: foldl_finsert)
  moreover have "length ?xs = fcard A" by (simp add: sorted_list_of_fset.rep_eq fcard.rep_eq)
  ultimately show ?thesis by (simp add: foldl_finsert)
qed

section \<open>Values\<close>

definition ident_bytes :: "'k ident \<Rightarrow> u8 list" where
  "ident_bytes i = u64_to_le (id_get i)"

definition ident_ok :: "'k ident \<Rightarrow> bool" where
  "ident_ok i \<longleftrightarrow> id_valid (id_get i)"

lemma reads_ident' [reads]: "ident_ok i \<Longrightarrow> reads decode_ident i (ident_bytes i)"
  by (simp add: ident_ok_def ident_bytes_def reads_ident)

definition spec_ok :: "task_spec \<Rightarrow> bool" where
  "spec_ok spec \<longleftrightarrow> text_ok MAX_TASK_TITLE_BYTES (ts_title spec)
     \<and> fcard (ts_scope spec) \<le> MAX_SCOPE_LABELS \<and> (\<forall>l. l |\<in>| ts_scope spec \<longrightarrow> text_ok MAX_SCOPE_LABEL_BYTES l)
     \<and> length (ts_dependencies spec) \<le> MAX_TASK_DEPENDENCIES \<and> (\<forall>d \<in> set (ts_dependencies spec). ident_ok d)"

definition spec_bytes :: "task_spec \<Rightarrow> u8 list" where
  "spec_bytes spec = string_bytes (ts_title spec) @ count_bytes (fcard (ts_scope spec))
     @ concat (map string_bytes (sorted_list_of_fset (ts_scope spec)))
     @ count_bytes (length (ts_dependencies spec)) @ concat (map ident_bytes (ts_dependencies spec))"

lemma reads_spec [reads]:
  assumes "spec_ok spec"
  shows "reads decode_task_spec spec (spec_bytes spec)"
proof -
  have ok: "text_ok MAX_TASK_TITLE_BYTES (ts_title spec)" "fcard (ts_scope spec) \<le> MAX_SCOPE_LABELS"
    "length (ts_dependencies spec) \<le> MAX_TASK_DEPENDENCIES"
    using assms by (simp_all add: spec_ok_def)
  have deps: "reads (\<lambda>d. dec_repeat (length (ts_dependencies spec)) decode_dependency ([], d))
      (ts_dependencies spec) (concat (map ident_bytes (ts_dependencies spec)))"
    unfolding decode_dependency_def [abs_def]
    using assms by (intro reads_appending reads) (simp add: spec_ok_def)
  have labels: "reads (\<lambda>d. dec_repeat (fcard (ts_scope spec)) decode_label ({||}, d))
      (ts_scope spec) (concat (map string_bytes (sorted_list_of_fset (ts_scope spec))))"
    unfolding decode_label_def [abs_def]
    using assms by (intro reads_inserting reads) (simp add: spec_ok_def)
  show ?thesis
    unfolding decode_task_spec_def [abs_def] spec_bytes_def
    apply (rule reads_bind [OF reads_string [OF ok(1)]])
    apply (rule reads_bind [OF reads_count [OF ok(2)]])
    subgoal using ok(2) by (simp add: team_bounds)
    apply (rule reads_bind [OF labels])
    apply (rule reads_bind [OF reads_count [OF ok(3)]])
    subgoal using ok(3) by (simp add: team_bounds)
    apply (rule reads_last [OF deps])
    by (cases spec) (simp add: reads)
qed

definition budget_bytes :: "resource_budget \<Rightarrow> u8 list" where
  "budget_bytes b = u64_to_le (token_units b) @ u32_to_le (tool_calls b)"

lemma reads_budget [reads]: "reads decode_budget b (budget_bytes b)"
  unfolding decode_budget_def [abs_def] budget_bytes_def
  by (cases b) (auto intro!: reads_bind [OF reads_u64] reads_last [OF reads_u32] reads)

primrec cap_bytes :: "capability \<Rightarrow> u8 list" where
  "cap_bytes WorkspaceRead = [1]"
| "cap_bytes WorkspaceWrite = [2]"
| "cap_bytes Process = [3]"
| "cap_bytes Network = [4]"
| "cap_bytes (Tool name) = [5] @ string_bytes name"

definition caps_ok :: "capability_snapshot \<Rightarrow> bool" where
  "caps_ok caps \<longleftrightarrow> fcard caps \<le> MAX_CAPABILITIES \<and> (\<forall>name. Tool name |\<in>| caps \<longrightarrow> text_ok MAX_TOOL_NAME_BYTES name)"

definition caps_bytes :: "capability_snapshot \<Rightarrow> u8 list" where
  "caps_bytes caps = count_bytes (fcard caps) @ concat (map cap_bytes (sorted_list_of_fset caps))"

lemma reads_capability:
  assumes "case c of Tool name \<Rightarrow> text_ok MAX_TOOL_NAME_BYTES name | _ \<Rightarrow> True"
  shows "reads decode_capability_value c (cap_bytes c)"
  unfolding decode_capability_value_def [abs_def]
  using assms by (cases c) (auto intro!: reads_last [OF reads_u8] reads_bind [OF reads_u8] reads_map reads
      simp flip: append_Cons simp del: append_Cons)

lemma reads_capabilities [reads]: "caps_ok caps \<Longrightarrow> reads decode_capabilities caps (caps_bytes caps)"
  unfolding decode_capabilities_def [abs_def] decode_capability_def [abs_def] caps_bytes_def caps_ok_def
  by (elim conjE, rule reads_bind [OF reads_count], assumption)
     (auto simp: team_bounds split: capability.splits intro!: reads_inserting reads_capability)

primrec optional_agent_bytes :: "agent_id option \<Rightarrow> u8 list" where
  "optional_agent_bytes None = [0]"
| "optional_agent_bytes (Some a) = [1] @ ident_bytes a"

lemma reads_optional_agent [reads]:
  "(\<And>a. p = Some a \<Longrightarrow> ident_ok a) \<Longrightarrow> reads decode_optional_agent p (optional_agent_bytes p)"
  unfolding decode_optional_agent_def [abs_def]
  by (cases p) (auto intro!: reads_last [OF reads_u8] reads_bind [OF reads_u8] reads_map reads
      simp del: append_Cons append.simps)

primrec recipient_bytes :: "message_recipient \<Rightarrow> u8 list" where
  "recipient_bytes (ToAgent a) = [1] @ ident_bytes a"
| "recipient_bytes ToTeam = [2]"

lemma reads_recipient [reads]:
  "(\<And>a. r = ToAgent a \<Longrightarrow> ident_ok a) \<Longrightarrow> reads decode_recipient r (recipient_bytes r)"
  unfolding decode_recipient_def [abs_def]
  by (cases r) (auto intro!: reads_last [OF reads_u8] reads_bind [OF reads_u8] reads_map reads
      simp del: append_Cons append.simps)

lemma ascii_utf8: "list_all is_ascii s \<Longrightarrow> utf8_valid s"
  by (induction s) (auto intro: utf8_valid_intros)

lemma preset_chars:
  "is_ascii_lowercase b \<Longrightarrow> is_ascii b" "is_ascii_digit b \<Longrightarrow> is_ascii b" "is_ascii (CHR ''-'')"
  unfolding is_ascii_lowercase_def is_ascii_digit_def is_ascii_def
  by (erule conjE, erule order.trans, simp add: less_eq_char_def)+ (simp add: less_eq_char_def)

lemma preset_ascii:
  assumes "validate_model_preset_id name = Ok ()"
  shows "text_ok MAX_MODEL_PRESET_ID_BYTES name"
proof -
  have "list_all is_ascii name" and "length name \<le> MAX_MODEL_PRESET_ID_BYTES"
    using assms preset_chars by (auto simp: validate_model_preset_id_def list_all_iff split: if_splits)
  then show ?thesis by (simp add: text_ok_def ascii_utf8 team_bounds)
qed

primrec preset_bytes :: "inherited_model_preset option \<Rightarrow> u8 list" where
  "preset_bytes None = [0]"
| "preset_bytes (Some preset) = [1] @ string_bytes (preset_id preset)"

lemma reads_preset [reads]:
  assumes "validate_preset_option p = Ok ()"
  shows "reads decode_optional_model_preset p (preset_bytes p)"
proof (cases p)
  case None
  then show ?thesis
    unfolding decode_optional_model_preset_def [abs_def] by (auto intro!: reads_last [OF reads_u8] reads)
next
  case (Some preset)
  then have ok: "validate_model_preset_id (preset_id preset) = Ok ()" using assms by (simp add: validate_preset_option_def)
  then show ?thesis
    unfolding decode_optional_model_preset_def [abs_def] Some
    by (auto intro!: reads_bind [OF reads_u8] reads_last [OF reads_string] reads preset_ascii
        simp: inherited_model_preset_new_def simp del: append_Cons append.simps)
qed

definition string_list_bytes :: "string list \<Rightarrow> u8 list" where
  "string_list_bytes ss = count_bytes (length ss) @ concat (map string_bytes ss)"

lemma reads_string_list:
  assumes "n + length ss \<le> MAX_CAPSULE_ENTRIES" and "\<forall>s \<in> set ss. text_ok MAX_CAPSULE_BYTES s"
  shows "reads (dec_string_list n) (ss, n + length ss) (string_list_bytes ss)"
proof -
  have "reads (\<lambda>d. dec_repeat (length ss) (\<lambda>(vs, d). map_ok (map_prod (\<lambda>x. vs @ [x]) id) (dec_string MAX_CAPSULE_BYTES d))
      ([], d)) ss (concat (map string_bytes ss))"
    using assms(2) by (intro reads_appending reads) simp
  from reads_last [OF this reads_return] show ?thesis
    unfolding dec_string_list_def [abs_def] string_list_bytes_def
    using assms(1) by (intro reads_bind [OF reads_count]) (auto simp: team_bounds usize_add_def)
qed

definition capsule_ok :: "completion_capsule \<Rightarrow> bool" where
  "capsule_ok c \<longleftrightarrow> text_ok MAX_CAPSULE_BYTES (cc_outcome c)
     \<and> (\<forall>ss \<in> set (capsule_lists c). \<forall>s \<in> set ss. text_ok MAX_CAPSULE_BYTES s)
     \<and> sum_list (map length (capsule_lists c)) \<le> MAX_CAPSULE_ENTRIES"

definition capsule_bytes :: "completion_capsule \<Rightarrow> u8 list" where
  "capsule_bytes c = string_bytes (cc_outcome c) @ concat (map string_list_bytes (capsule_lists c))"

lemma reads_capsule [reads]:
  assumes "capsule_ok c"
  shows "reads decode_capsule c (capsule_bytes c)"
proof -
  have k: "reads (dec_string_list n) (ss, n + length ss) (string_list_bytes ss)"
    if "ss \<in> set (capsule_lists c)" "n + length ss \<le> sum_list (map length (capsule_lists c))" for n ss
    using that assms by (intro reads_string_list) (auto simp: capsule_ok_def)
  have outcome: "text_ok MAX_CAPSULE_BYTES (cc_outcome c)" using assms by (simp add: capsule_ok_def)
  show ?thesis
    unfolding decode_capsule_def [abs_def] capsule_bytes_def
    apply (rule reads_bind [OF reads_string [OF outcome]])
    apply (simp only: capsule_lists_def list.map concat.simps append_Nil2)
    by (rule reads_bind [OF k] reads_last [OF k],
        simp add: capsule_lists_def, simp add: capsule_lists_def, simp only: prod.case)+
      (cases c, simp add: reads)
qed

section \<open>Encoders\<close>

lemma enc_count_eq: "n < 2 ^ 32 \<Longrightarrow> enc_count enc n = Ok (enc @ count_bytes n)"
  by (simp add: enc_count_def u32_try_from_def enc_u32_def count_bytes_def)

lemma enc_string_eq: "length s < 2 ^ 32 \<Longrightarrow> enc_string enc s = Ok (enc @ string_bytes s)"
  by (simp add: enc_string_def enc_count_eq string_bytes_def)

lemma enc_fold:
  assumes "\<And>enc x. x \<in> set xs \<Longrightarrow> f enc x = Ok (enc @ b x)"
  shows "try_fold f enc xs = Ok (enc @ concat (map b xs))"
  using assms by (induction xs arbitrary: enc) simp_all

lemma enc_string_list_eq:
  assumes "length ss < 2 ^ 32" and "\<forall>s \<in> set ss. text_ok n s"
  shows "enc_string_list enc ss = Ok (enc @ string_list_bytes ss)"
proof -
  have "try_fold enc_string enc ss = Ok (enc @ concat (map string_bytes ss))" for enc
    using assms(2) by (intro enc_fold enc_string_eq) (simp add: text_ok_def)
  then show ?thesis using assms(1) by (simp add: enc_string_list_def enc_count_eq string_list_bytes_def)
qed

lemma ids_eq: "ids is = concat (map u64_to_le is)"
proof -
  have "foldl enc_identifier enc is = enc @ concat (map u64_to_le is)" for enc
    by (induction "is" arbitrary: enc) (simp_all add: enc_identifier_def enc_u64_def)
  then show ?thesis by (simp add: ids_def)
qed

lemma encode_spec_eq:
  assumes "spec_ok spec"
  shows "encode_task_spec enc spec = Ok (enc @ spec_bytes spec)"
proof -
  have "foldl (\<lambda>enc d. enc_identifier enc (id_get d)) enc ds = enc @ concat (map ident_bytes ds)" for enc and ds :: "task_id list"
    by (induction ds arbitrary: enc) (simp_all add: enc_identifier_def enc_u64_def ident_bytes_def)
  moreover have "try_fold enc_string enc (sorted_list_of_fset (ts_scope spec))
      = Ok (enc @ concat (map string_bytes (sorted_list_of_fset (ts_scope spec))))" for enc
    using assms by (intro enc_fold enc_string_eq) (auto simp: spec_ok_def text_ok_def)
  ultimately show ?thesis
    using assms by (auto simp: encode_task_spec_def spec_ok_def spec_bytes_def enc_count_eq enc_string_eq text_ok_def team_bounds)
qed

lemma encode_capabilities_eq:
  assumes "caps_ok caps"
  shows "encode_capabilities enc caps = Ok (enc @ caps_bytes caps)"
proof -
  have "encode_capability enc c = Ok (enc @ cap_bytes c)" if "c |\<in>| caps" for enc c
    using that assms by (cases c) (auto simp: caps_ok_def enc_u8_def enc_string_eq text_ok_def)
  then have "try_fold encode_capability enc (sorted_list_of_fset caps)
      = Ok (enc @ concat (map cap_bytes (sorted_list_of_fset caps)))" for enc
    by (intro enc_fold) simp
  then show ?thesis
    using assms by (simp add: encode_capabilities_def caps_ok_def caps_bytes_def enc_count_eq team_bounds)
qed

lemma encode_capsule_eq:
  assumes "capsule_ok c"
  shows "encode_capsule enc c = Ok (enc @ capsule_bytes c)"
proof -
  have "length ss \<le> sum_list (map length (capsule_lists c))" if "ss \<in> set (capsule_lists c)" for ss
    using member_le_sum_list [of "length ss" "map length (capsule_lists c)"] that by simp
  then have "enc_string_list enc ss = Ok (enc @ string_list_bytes ss)" if "ss \<in> set (capsule_lists c)" for enc ss
    using that assms by (intro enc_string_list_eq) (fastforce simp: capsule_ok_def team_bounds)+
  then have "try_fold enc_string_list enc (capsule_lists c)
      = Ok (enc @ concat (map string_list_bytes (capsule_lists c)))" for enc
    by (intro enc_fold) simp
  then show ?thesis using assms by (auto simp: encode_capsule_def capsule_ok_def capsule_bytes_def enc_string_eq text_ok_def)
qed

section \<open>Events\<close>

text \<open>What the fold accepts of an event that is made of Rust strings: valid identifiers, bounded
  texts.\<close>

fun kind_ok :: "team_event_kind \<Rightarrow> bool" where
  "kind_ok (TaskCreated t spec) \<longleftrightarrow> ident_ok t \<and> spec_ok spec"
| "kind_ok (AgentCreated a t parent budget caps preset) \<longleftrightarrow>
     ident_ok a \<and> ident_ok t \<and> (\<forall>p. parent = Some p \<longrightarrow> ident_ok p) \<and> caps_ok caps
   \<and> validate_preset_option preset = Ok ()"
| "kind_ok (TaskOwnerAssigned t a) \<longleftrightarrow> ident_ok t \<and> ident_ok a"
| "kind_ok (DelegationGranted p c) \<longleftrightarrow> ident_ok p \<and> ident_ok c"
| "kind_ok (TaskReady t) \<longleftrightarrow> ident_ok t"
| "kind_ok (AgentActivated a) \<longleftrightarrow> ident_ok a"
| "kind_ok (TaskStarted t) \<longleftrightarrow> ident_ok t"
| "kind_ok (MessageSent m sender recipient body) \<longleftrightarrow>
     ident_ok m \<and> ident_ok sender \<and> (\<forall>a. recipient = ToAgent a \<longrightarrow> ident_ok a) \<and> text_ok MAX_MESSAGE_BYTES body"
| "kind_ok (CompletionCapsuleSubmitted t a capsule) \<longleftrightarrow> ident_ok t \<and> ident_ok a \<and> capsule_ok capsule"
| "kind_ok (TaskSucceeded t) \<longleftrightarrow> ident_ok t"
| "kind_ok (AgentSucceeded a) \<longleftrightarrow> ident_ok a"
| "kind_ok (TaskFailed t reason) \<longleftrightarrow> ident_ok t \<and> text_ok MAX_REASON_BYTES reason"
| "kind_ok (AgentFailed a) \<longleftrightarrow> ident_ok a"
| "kind_ok (TaskCancelled t reason) \<longleftrightarrow> ident_ok t \<and> text_ok MAX_REASON_BYTES reason"
| "kind_ok (AgentCancelled a) \<longleftrightarrow> ident_ok a"
| "kind_ok (TaskBlocked t b) \<longleftrightarrow> ident_ok t \<and> ident_ok b"
| "kind_ok (AgentBlocked a b) \<longleftrightarrow> ident_ok a \<and> ident_ok b"
| "kind_ok (OperationCommitted op tx) \<longleftrightarrow> ident_ok op \<and> ident_ok tx"
| "kind_ok (OperationAcknowledged op committed ack) \<longleftrightarrow> ident_ok op \<and> ident_ok committed \<and> ident_ok ack"
| "kind_ok (TaskRetryRequested t) \<longleftrightarrow> ident_ok t"
| "kind_ok (AgentRetryRequested requester a) \<longleftrightarrow> ident_ok requester \<and> ident_ok a"

text \<open>The Model Preset is not part of the schemas before the third.\<close>

fun in_schema :: "u16 \<Rightarrow> team_event_kind \<Rightarrow> team_event_kind" where
  "in_schema schema (AgentCreated a t parent budget caps preset) =
     AgentCreated a t parent budget caps (if schema \<ge> TEAM_EVENT_SCHEMA_V3 then preset else None)"
| "in_schema schema kind = kind"

lemma reads_decode1: "ident_ok i \<Longrightarrow> reads (decode1 f) (f i) (ident_bytes i)"
  unfolding decode1_def [abs_def] by (rule reads_map [OF reads_ident']) simp_all

lemma reads_decode2: "ident_ok i \<Longrightarrow> ident_ok j \<Longrightarrow> reads (decode2 f) (f i j) (ident_bytes i @ ident_bytes j)"
  unfolding decode2_def [abs_def] by (rule reads_bind [OF reads_ident'], assumption) (auto intro: reads_map reads)

lemma encode_ids: "map_ok (Pair n) (Ok enc) = Ok (n, enc)"
  by simp

lemma encode_kind_reads:
  assumes "kind_ok kind"
  shows "\<exists>tag w. encode_kind schema kind = Ok (tag, w) \<and> reads (decode_kind schema tag) (in_schema schema kind) w"
proof (cases kind)
  case (TaskCreated t spec)
  then have "encode_kind schema kind = Ok (1, ident_bytes t @ spec_bytes spec)"
    using assms by (simp add: ids_eq encode_spec_eq ident_bytes_def)
  moreover have "reads (decode_kind schema 1) kind (ident_bytes t @ spec_bytes spec)"
    unfolding decode_kind_def [abs_def] TaskCreated
    using assms TaskCreated by (auto intro!: reads_bind [OF reads_ident'] reads_map [OF reads_spec])
  ultimately show ?thesis using TaskCreated by auto
next
  case (AgentCreated a t parent budget caps preset)
  let ?w = "ident_bytes a @ ident_bytes t @ optional_agent_bytes parent @ budget_bytes budget @ caps_bytes caps"
  let ?p = "if schema \<ge> TEAM_EVENT_SCHEMA_V3 then preset_bytes preset else []"
  have head: "encode_capabilities (encode_budget (encode_optional_agent (ids [id_get a, id_get t]) parent) budget) caps
      = Ok ?w"
    using assms AgentCreated
    by (cases parent) (simp_all add: ids_eq encode_capabilities_eq ident_bytes_def encode_budget_def budget_bytes_def
        enc_identifier_def enc_u64_def enc_u32_def enc_u8_def)
  have "encode_optional_model_preset enc preset = Ok (enc @ preset_bytes preset)" for enc
    using assms AgentCreated preset_ascii
    by (cases preset) (auto simp: enc_u8_def validate_preset_option_def enc_string_eq text_ok_def)
  with head have "encode_kind schema kind = Ok (2, ?w @ ?p)" by (simp add: AgentCreated)
  moreover have "reads (decode_kind schema 2) (in_schema schema kind) (?w @ ?p)"
    unfolding decode_kind_def [abs_def] decode_agent_created_def AgentCreated append_assoc
    using assms AgentCreated
    by (auto intro!: reads_bind [OF reads_ident'] reads_bind [OF reads_optional_agent] reads_bind [OF reads_budget]
        reads_bind [OF reads_capabilities] reads_last [OF reads_preset] reads_last [OF reads_capabilities] reads)
  ultimately show ?thesis by blast
next
  case (MessageSent m sender recipient body)
  let ?w = "ident_bytes m @ ident_bytes sender @ recipient_bytes recipient @ string_bytes body"
  have "encode_recipient (ids [id_get m, id_get sender]) recipient
      = ident_bytes m @ ident_bytes sender @ recipient_bytes recipient"
    by (cases recipient) (simp_all add: ids_eq ident_bytes_def enc_identifier_def enc_u64_def enc_u8_def)
  then have "encode_kind schema kind = Ok (8, ?w)"
    using assms MessageSent by (simp add: enc_string_eq text_ok_def)
  moreover have "reads (decode_kind schema 8) kind ?w"
    unfolding decode_kind_def [abs_def] MessageSent
    using assms MessageSent
    by (auto intro!: reads_bind [OF reads_ident'] reads_bind [OF reads_recipient] reads_map [OF reads_string])
  ultimately show ?thesis using MessageSent by auto
next
  case (CompletionCapsuleSubmitted t a capsule)
  let ?w = "ident_bytes t @ ident_bytes a @ capsule_bytes capsule"
  have "encode_kind schema kind = Ok (9, ?w)"
    using assms CompletionCapsuleSubmitted by (simp add: ids_eq encode_capsule_eq ident_bytes_def)
  moreover have "reads (decode_kind schema 9) kind ?w"
    unfolding decode_kind_def [abs_def] CompletionCapsuleSubmitted
    using assms CompletionCapsuleSubmitted by (auto intro!: reads_bind [OF reads_ident'] reads_map [OF reads_capsule])
  ultimately show ?thesis using CompletionCapsuleSubmitted by auto
next
  case (TaskFailed t reason)
  have "encode_kind schema kind = Ok (12, ident_bytes t @ string_bytes reason)"
    using assms TaskFailed by (simp add: ids_eq enc_string_eq text_ok_def ident_bytes_def)
  moreover have "reads (decode_kind schema 12) kind (ident_bytes t @ string_bytes reason)"
    unfolding decode_kind_def [abs_def] TaskFailed
    using assms TaskFailed by (auto intro!: reads_bind [OF reads_ident'] reads_map [OF reads_string])
  ultimately show ?thesis using TaskFailed by auto
next
  case (TaskCancelled t reason)
  have "encode_kind schema kind = Ok (14, ident_bytes t @ string_bytes reason)"
    using assms TaskCancelled by (simp add: ids_eq enc_string_eq text_ok_def ident_bytes_def)
  moreover have "reads (decode_kind schema 14) kind (ident_bytes t @ string_bytes reason)"
    unfolding decode_kind_def [abs_def] TaskCancelled
    using assms TaskCancelled by (auto intro!: reads_bind [OF reads_ident'] reads_map [OF reads_string])
  ultimately show ?thesis using TaskCancelled by auto
next
  case (OperationAcknowledged op committed ack)
  let ?w = "ident_bytes op @ ident_bytes committed @ ident_bytes ack"
  have "encode_kind schema kind = Ok (19, ?w)" by (simp add: OperationAcknowledged ids_eq ident_bytes_def)
  moreover have "reads (decode_kind schema 19) kind ?w"
    unfolding decode_kind_def [abs_def] OperationAcknowledged
    using assms OperationAcknowledged by (auto intro!: reads_bind [OF reads_ident'] reads_decode2)
  ultimately show ?thesis using OperationAcknowledged by auto
qed (use assms in \<open>auto simp: ids_eq decode_kind_def [abs_def] simp flip: ident_bytes_def intro: reads_decode1 reads_decode2\<close>)

end
