(* ===== verification/Team_Stored.thy ===== *)
theory Team_Stored
  imports Team_Durable Team_Codec_Laws Team_Life
begin

text \<open>
  Every event of a team whose commands are made of Rust strings can be stored: the fold accepts
  only events with valid identifiers and bounded texts, so each encodes, and decodes to itself.
\<close>

section \<open>Trimming keeps UTF-8\<close>

lemma utf8_continuations:
  "utf8_2 a b \<Longrightarrow> continuation b" "utf8_3 a b c \<Longrightarrow> continuation b \<and> continuation c"
  "utf8_4 a b c d \<Longrightarrow> continuation b \<and> continuation c \<and> continuation d"
  by (auto simp: utf8_2_def utf8_3_def utf8_4_def)

text \<open>A valid string may be cut before any byte that is not a continuation.\<close>

lemma utf8_valid_boundary:
  assumes "utf8_valid (p @ x # s)" and "\<not> continuation x"
  shows "utf8_valid p \<and> utf8_valid (x # s)"
proof -
  have "utf8_valid p \<and> utf8_valid (x # s)" if "utf8_valid t" "t = p @ x # s" for t
    using that
  proof (induction t arbitrary: p rule: utf8_valid_induct)
    case (one a t)
    then show ?case by (cases p) (auto intro: utf8_valid_intros)
  next
    case (two a b t)
    then show ?case using utf8_continuations(1) [of a b] assms(2)
      by (auto simp: Cons_eq_append_conv intro: utf8_valid_intros)
  next
    case (three a b c t)
    then show ?case using utf8_continuations(2) [of a b c] assms(2)
      by (auto simp: Cons_eq_append_conv intro: utf8_valid_intros)
  next
    case (four a b c d t)
    then show ?case using utf8_continuations(3) [of a b c d] assms(2)
      by (auto simp: Cons_eq_append_conv intro: utf8_valid_intros)
  qed simp
  then show ?thesis using assms(1) by blast
qed

lemma ws_lead:
  "ws1 a \<Longrightarrow> is_ascii a" "ws1 a \<Longrightarrow> \<not> continuation a" "ws2 a b \<Longrightarrow> \<not> continuation a" "ws3 a b c \<Longrightarrow> \<not> continuation a"
  by (auto simp: ws1_def ws2_def ws3_def is_ascii_def continuation_def less_eq_char_def)

lemma ws_drop:
  "ws1 a \<Longrightarrow> utf8_valid (a # s) \<Longrightarrow> utf8_valid s"
  "ws2 a b \<Longrightarrow> utf8_valid (a # b # s) \<Longrightarrow> utf8_valid s"
  "ws3 a b c \<Longrightarrow> utf8_valid (a # b # c # s) \<Longrightarrow> utf8_valid s"
proof -
  show "ws1 a \<Longrightarrow> utf8_valid (a # s) \<Longrightarrow> utf8_valid s"
    using utf8_valid_cut [of "[]" a s] ws_lead(1) by simp
  show "ws2 a b \<Longrightarrow> utf8_valid (a # b # s) \<Longrightarrow> utf8_valid s"
    by (auto simp: ws2_def utf8_valid.simps(2) [of "CHR 0xC2"] is_ascii_def utf8_3_def utf8_4_def less_eq_char_def
        split: list.splits)
  have "\<not> is_ascii a \<and> \<not> utf8_2 a b \<and> \<not> utf8_4 a b c d" if "ws3 a b c" for d
    using that by (auto simp: ws3_def is_ascii_def utf8_2_def utf8_4_def less_eq_char_def)
  then show "ws3 a b c \<Longrightarrow> utf8_valid (a # b # c # s) \<Longrightarrow> utf8_valid s"
    by (auto simp: utf8_valid.simps(2) [of a] split: list.splits)
qed

lemma trim_front_valid:
  assumes "\<And>t. P t \<Longrightarrow> P (drop (w t) t)" and "P s"
  shows "P (trim_front w s)"
  using assms(2)
proof (induction s rule: length_induct)
  case (1 s)
  show ?case
  proof (cases "w s = 0 \<or> s = []")
    case False
    then have "P (trim_front w (drop (w s) s))" using 1 assms(1) by (simp add: diff_less)
    then show ?thesis using False by (simp add: trim_front.simps [of w s])
  qed (use 1 in \<open>simp add: trim_front.simps [of w s]\<close>)
qed

lemma trim_valid: "utf8_valid s \<Longrightarrow> utf8_valid (trim s)"
proof -
  have front: "utf8_valid (drop (leading_ws t) t)" if "utf8_valid t" for t
    using that by (cases t rule: leading_ws.cases) (auto dest: ws_drop)
  have rear: "utf8_valid (rev (drop (trailing_ws t) t))" if valid: "utf8_valid (rev t)" for t
  proof (cases "trailing_ws t = 0")
    case False
    then consider c u where "t = c # u" "ws1 c" "trailing_ws t = 1"
      | c b u where "t = c # b # u" "ws2 b c" "trailing_ws t = 2"
      | c b a u where "t = c # b # a # u" "ws3 a b c" "trailing_ws t = 3"
      by (cases t rule: trailing_ws.cases) (auto split: if_splits)
    then show ?thesis
    proof cases
      case (1 c u)
      then show ?thesis using valid utf8_valid_boundary [of "rev u" c "[]"] ws_lead(2) by simp
    next
      case (2 c b u)
      then show ?thesis using valid utf8_valid_boundary [of "rev u" b "[c]"] ws_lead(3) by simp
    next
      case (3 c b a u)
      then show ?thesis using valid utf8_valid_boundary [of "rev u" a "[b, c]"] ws_lead(4) by simp
    qed
  qed (use valid in simp)
  assume "utf8_valid s"
  with front have "utf8_valid (trim_front leading_ws s)" by (rule trim_front_valid [where P = utf8_valid])
  with rear show ?thesis
    using trim_front_valid [where P = "\<lambda>t. utf8_valid (rev t)" and w = trailing_ws and s = "rev (trim_front leading_ws s)"]
    by (simp add: trim_def)
qed

section \<open>What the fold accepts\<close>

text \<open>The texts of an event are Rust strings.\<close>

fun kind_utf8 :: "team_event_kind \<Rightarrow> bool" where
  "kind_utf8 (TaskCreated t spec) \<longleftrightarrow> utf8_valid (ts_title spec) \<and> (\<forall>l. l |\<in>| ts_scope spec \<longrightarrow> utf8_valid l)"
| "kind_utf8 (AgentCreated a t parent budget caps preset) \<longleftrightarrow> (\<forall>name. Tool name |\<in>| caps \<longrightarrow> utf8_valid name)"
| "kind_utf8 (MessageSent m sender recipient body) \<longleftrightarrow> utf8_valid body"
| "kind_utf8 (CompletionCapsuleSubmitted t a c) \<longleftrightarrow>
     utf8_valid (cc_outcome c) \<and> (\<forall>ss \<in> set (capsule_lists c). \<forall>s \<in> set ss. utf8_valid s)"
| "kind_utf8 (TaskFailed t reason) \<longleftrightarrow> utf8_valid reason"
| "kind_utf8 (TaskCancelled t reason) \<longleftrightarrow> utf8_valid reason"
| "kind_utf8 _ \<longleftrightarrow> True"

lemma text_okI: "length s \<le> n \<Longrightarrow> n < 2 ^ 32 \<Longrightarrow> utf8_valid s \<Longrightarrow> text_ok n s"
  by (simp add: text_ok_def)

lemma usize_sum_Some: "usize_sum_from acc ns = Some b \<Longrightarrow> b = acc + sum_list ns"
  by (induction acc ns rule: usize_sum_from.induct) (auto split: option.splits dest: usize_add_SomeD)

lemma capsule_storable:
  assumes "validate_capsule c = Ok ()" and "utf8_valid (cc_outcome c)"
    and "\<forall>ss \<in> set (capsule_lists c). \<forall>s \<in> set ss. utf8_valid s"
  shows "capsule_ok c"
proof -
  from assms(1) obtain b n where b: "capsule_approximate_bytes c = Some b" "b \<le> MAX_CAPSULE_BYTES"
    and n: "capsule_entry_count c = Some n" "n \<le> MAX_CAPSULE_ENTRIES"
    by (auto simp: validate_capsule_def split: if_splits option.splits)
  have "b = length (cc_outcome c) + sum_list (map length (concat (capsule_lists c)))"
    using b(1) unfolding capsule_approximate_bytes_def by (rule usize_sum_Some)
  moreover have "length s \<le> sum_list (map length (concat (capsule_lists c)))" if "ss \<in> set (capsule_lists c)" "s \<in> set ss" for ss s
    using that by (intro member_le_sum_list) (auto simp: image_iff)
  moreover have "n = sum_list (map length (capsule_lists c))"
    using usize_sum_Some n(1) by (fastforce simp: capsule_entry_count_def)
  ultimately show ?thesis
    using assms(2,3) b(2) n(2) unfolding capsule_ok_def
    by (fastforce intro!: text_okI simp: team_bounds)
qed

lemma spec_storable:
  assumes "validate_stored_task_spec spec = Ok ()" and "utf8_valid (ts_title spec)"
    and "\<forall>l. l |\<in>| ts_scope spec \<longrightarrow> utf8_valid l" and "\<forall>d \<in> set (ts_dependencies spec). ident_ok d"
  shows "spec_ok spec"
  using assms
  by (auto simp: validate_stored_task_spec_def validate_scope_def spec_ok_def result_ok not_less
      split: if_splits intro!: text_okI) (auto simp: team_bounds)

lemma caps_storable:
  assumes "validate_capabilities caps = Ok ()" and "\<forall>name. Tool name |\<in>| caps \<longrightarrow> utf8_valid name"
  shows "caps_ok caps"
  using assms
  by (fastforce simp: validate_capabilities_def caps_ok_def not_less team_bounds split: if_splits intro!: text_okI)

lemma reason_storable: "validate_reason r = Ok () \<Longrightarrow> utf8_valid r \<Longrightarrow> text_ok MAX_REASON_BYTES r"
  by (auto simp: validate_reason_def team_bounds split: if_splits intro!: text_okI)

lemma body_storable: "length s \<le> MAX_MESSAGE_BYTES \<Longrightarrow> utf8_valid s \<Longrightarrow> text_ok MAX_MESSAGE_BYTES s"
  by (auto simp: team_bounds intro: text_okI)

lemma stored_identifier_ok: "validate_stored_identifier (id_get i) = Ok u \<longleftrightarrow> ident_ok i"
  by (simp add: validate_stored_identifier_def ident_ok_def id_valid_def)

definition ids_ok :: "team_state \<Rightarrow> bool" where
  "ids_ok st \<longleftrightarrow>
     (\<forall>t r. bt_get (tasks st) t = Some r \<longrightarrow> ident_ok t \<and> (\<forall>d. tr_status r = TBlocked d \<longrightarrow> ident_ok d)
        \<and> (\<forall>a. tr_owner r = Some a \<longrightarrow> ident_ok a))
   \<and> (\<forall>a r. bt_get (agents st) a = Some r \<longrightarrow> ident_ok a)"

lemma ids_okD:
  assumes "ids_ok st"
  shows "bt_get (tasks st) t = Some r \<Longrightarrow> ident_ok t" "bt_get (tasks st) t = Some r \<Longrightarrow> tr_status r = TBlocked d \<Longrightarrow> ident_ok d"
    "bt_get (tasks st) t = Some r \<Longrightarrow> tr_owner r = Some a \<Longrightarrow> ident_ok a"
    "bt_get (agents st) a = Some q \<Longrightarrow> ident_ok a"
  using assms by (auto simp: ids_ok_def)

lemma apply_event_kind_ok:
  assumes "apply_event st k n = Ok st'" and "ids_ok st" and "kind_utf8 k"
  shows "kind_ok k"
proof (cases "creates k")
  case True
  show ?thesis
  proof (cases k)
    case (TaskCreated t spec)
    with assms show ?thesis
      by (auto simp: apply_task_created_def result_ok stored_identifier_ok bt_contains_key_def ident_ok_def
          dest: ids_okD(1) intro!: spec_storable)
  next
    case (AgentCreated a t parent budget caps preset)
    with assms show ?thesis
      by (auto simp: apply_agent_created_def result_ok stored_identifier_ok
          dest: ids_okD(1,4) intro!: caps_storable elim!: check_agent_parent_cases)
  qed (use True in simp_all)
next
  case False
  with assms show ?thesis
    by (cases k)
       (auto simp: quiet_apply_defs result_ok stored_identifier_ok not_less
         dest: ids_okD(1,4) ids_okD(2) ids_okD(3) intro: capsule_storable reason_storable body_storable
         split: message_recipient.splits)
qed

lemma ids_ok_put:
  "ids_ok st \<Longrightarrow> ident_ok t \<Longrightarrow> (\<And>d. tr_status r = TBlocked d \<Longrightarrow> ident_ok d) \<Longrightarrow> (\<And>a. tr_owner r = Some a \<Longrightarrow> ident_ok a)
     \<Longrightarrow> ids_ok (put_task st t r)"
  "ids_ok st \<Longrightarrow> ident_ok a \<Longrightarrow> ids_ok (put_agent st a q)"
  "ids_ok (st\<lparr>root := x\<rparr>) = ids_ok st" "ids_ok (st\<lparr>operations := ops\<rparr>) = ids_ok st"
  "ids_ok (st\<lparr>messages := ms\<rparr>) = ids_ok st"
  by (auto simp: ids_ok_def put_task_def put_agent_def bt_get_insert)

lemma apply_event_ids_ok:
  assumes "apply_event st k n = Ok st'" and "ids_ok st"
  shows "ids_ok st'"
proof (cases "creates k")
  case True
  show ?thesis
  proof (cases k)
    case (TaskCreated t spec)
    with assms show ?thesis by (auto simp: apply_task_created_def result_ok stored_identifier_ok intro!: ids_ok_put)
  next
    case (AgentCreated a t parent budget caps preset)
    with assms show ?thesis
      by (auto simp: apply_agent_created_def result_ok stored_identifier_ok ids_ok_put(3)
          intro!: ids_ok_put(2) elim!: check_agent_parent_cases)
  qed (use True in simp_all)
next
  case False
  with assms show ?thesis
    by (cases k)
       (auto simp: quiet_apply_defs result_ok ids_ok_put(3-) intro!: ids_ok_put(1,2) dest: ids_okD)
qed

lemma apply_all_storable:
  assumes "apply_all st ks n = Ok st'" and "ids_ok st" and "list_all kind_utf8 ks"
  shows "list_all kind_ok ks \<and> ids_ok st'"
  using assms
proof (induction ks arbitrary: st)
  case (Cons k ks)
  then obtain st1 where "apply_event st k n = Ok st1" "apply_all st1 ks n = Ok st'"
    by (auto simp: apply_all_def result_ok)
  with Cons apply_event_kind_ok apply_event_ids_ok show ?case by auto
qed simp

section \<open>The strings of commands\<close>

fun command_utf8 :: "team_command \<Rightarrow> bool" where
  "command_utf8 (AdmitRoot task budget caps) \<longleftrightarrow>
     kind_utf8 (TaskCreated (Ident 1) task) \<and> (\<forall>name. Tool name |\<in>| caps \<longrightarrow> utf8_valid name)"
| "command_utf8 (Delegate s task budget caps) \<longleftrightarrow>
     kind_utf8 (TaskCreated (Ident 1) task) \<and> (\<forall>name. Tool name |\<in>| caps \<longrightarrow> utf8_valid name)"
| "command_utf8 (DelegateWithModelPreset s task budget caps preset) \<longleftrightarrow>
     kind_utf8 (TaskCreated (Ident 1) task) \<and> (\<forall>name. Tool name |\<in>| caps \<longrightarrow> utf8_valid name)"
| "command_utf8 (SendMessage s recipient body) \<longleftrightarrow> utf8_valid body"
| "command_utf8 (Complete s capsule) \<longleftrightarrow> kind_utf8 (CompletionCapsuleSubmitted (Ident 1) (Ident 1) capsule)"
| "command_utf8 (Fail s reason) \<longleftrightarrow> utf8_valid reason"
| "command_utf8 (Cancel s reason) \<longleftrightarrow> utf8_valid reason"
| "command_utf8 (Retry s a) \<longleftrightarrow> True"

lemma validated_spec_utf8:
  "validate_task_spec rt task = Ok task' \<Longrightarrow> utf8_valid (ts_title task) \<Longrightarrow>
     utf8_valid (ts_title task') \<and> ts_scope task' = ts_scope task"
  by (auto simp: validate_task_spec_def Let_def result_ok trim_valid split: if_splits option.splits)

lemma plan_utf8:
  assumes "plan rt cmd = Ok (evs, out)" and "command_utf8 cmd"
  shows "list_all kind_utf8 evs"
  using assms
  by (cases cmd)
     (auto simp: result_ok plan_root_def plan_delegation_def plan_message_def plan_completion_def plan_failure_def
       plan_cancellation_def plan_retry_def dest: validated_spec_utf8 split: if_splits option.splits)

lemma scheduled_utf8: "scheduled k \<Longrightarrow> kind_utf8 k"
  by (cases k) simp_all

lemma prepare_events_kinds:
  assumes "prepare_events rt tx base = Ok p"
  obtains extra where "map te_kind (pe_events p) = base @ extra" "list_all scheduled extra"
proof -
  from assms obtain st st' kinds where "reconcile st base (rt_max_active rt) = Ok (st', kinds)"
    and evs: "map te_kind (pe_events p) = kinds"
    by (auto simp: prepare_events_def Let_def fold_planned result_ok split: if_splits)
  from reconcile_emits [OF this(1)] show thesis using that evs by (auto simp: emits_def)
qed

lemma prepared_utf8:
  assumes "prepare_events rt tx base = Ok p" and "list_all kind_utf8 base"
  shows "list_all kind_utf8 (map te_kind (pe_events p))"
proof (rule prepare_events_kinds [OF assms(1)])
  fix extra assume "map te_kind (pe_events p) = base @ extra" "list_all scheduled extra"
  then show ?thesis using assms(2) scheduled_utf8 by (auto simp: list_all_iff)
qed

end
