(* ===== verification/Event_Store.thy ===== *)
theory Event_Store
  imports Ledger_Claims
begin

text \<open>
  Components whose state is the fold of the events in a ledger file.  The locale \<open>event_sourced\<close> states
  what such a component provides; its lemmas say what the state of the component is, in memory and on
  the file, after an append with any outcome of the write.
\<close>

section \<open>What an append stores\<close>

lemma prepare_append_stored:
  assumes "prepare_append l expected events = Ok (frame, stored, receipt, payload_bytes)"
  shows "stored = map (event_stored (lh_transaction (fl_head l) + 1) (lh_sequence (fl_head l) + 1) (of_nat (length events)))
       (enumerate 0 events)"
    and "validate_events events = Ok ()" and "int (length (fl_events l) + length events) \<le> MAX_REPLAY_EVENTS"
    and "dr_transaction receipt = lh_transaction (fl_head l) + 1"
    and "dr_first_sequence receipt = lh_sequence (fl_head l) + 1"
    and "dr_last_sequence receipt = lh_sequence (fl_head l) + of_nat (length events)"
    and "dr_event_count receipt = of_nat (length events)"
proof -
  from assms obtain tx s where valid: "validate_events events = Ok ()"
    and bound: "int (length (fl_events l) + length events) \<le> MAX_REPLAY_EVENTS"
    and heads: "checked_add (lh_transaction (fl_head l)) 1 = Some tx" "checked_add (lh_sequence (fl_head l)) 1 = Some s"
    and enc: "encode_transaction tx s events = Ok (frame, stored, receipt)"
    by (auto simp: prepare_append_def result_ok not_less dest: usize_add_SomeD split: if_splits)
  from enc obtain body where "try_fold (encode_event tx s (of_nat (length events)))
       (u64_to_le tx @ u64_to_le s @ u32_to_le (of_nat (length events)), []) (enumerate 0 events) = Ok (body, stored)"
    and receipt: "dr_transaction receipt = tx" "dr_first_sequence receipt = s" "dr_event_count receipt = of_nat (length events)"
      "dr_last_sequence receipt = s + (ucast (of_nat (length events) :: u32) - 1)"
    and count: "length events < 2 ^ 32"
    by (auto simp: encode_transaction_def result_ok checked_add_Some_iff split: if_splits)
  from encode_fold_Ok [OF this(1)]
  have stored: "stored = map (event_stored tx s (of_nat (length events))) (enumerate 0 events)" by simp
  have tx: "tx = lh_transaction (fl_head l) + 1" and s: "s = lh_sequence (fl_head l) + 1"
    using heads by (simp_all add: checked_add_Some_iff)
  from stored show "stored = map (event_stored (lh_transaction (fl_head l) + 1) (lh_sequence (fl_head l) + 1) (of_nat (length events)))
       (enumerate 0 events)" by (simp add: tx s)
  show "validate_events events = Ok ()" "int (length (fl_events l) + length events) \<le> MAX_REPLAY_EVENTS"
    by fact+
  show "dr_transaction receipt = lh_transaction (fl_head l) + 1" "dr_first_sequence receipt = lh_sequence (fl_head l) + 1"
    "dr_event_count receipt = of_nat (length events)" by (simp_all add: receipt tx s)
  show "dr_last_sequence receipt = lh_sequence (fl_head l) + of_nat (length events)"
    using receipt(4) ucast_of_nat_u32 [OF count] by (simp add: s)
qed

lemma ledger_ok_scan: "ledger_ok l \<Longrightarrow> scan_ok (ledger_scan l)"
  by (auto simp: ledger_ok_def scan_transactions_def intro: scan_loop_ok scan_start_ok)

lemma ledger_ok_bound:
  assumes "ledger_ok l"
  shows "length (fl_events l) \<le> 1000000" "lh_sequence (fl_head l) = of_nat (length (fl_events l))"
  using ledger_ok_scan [OF assms] by (auto simp: scan_ok_def ledger_scan_def MAX_REPLAY_EVENTS_def)

text \<open>The stored form of a transaction.\<close>

definition stored_transaction :: "event_data list \<Rightarrow> stored_event list \<Rightarrow> bool" where
  "stored_transaction events stored \<longleftrightarrow> validate_events events = Ok ()
     \<and> (\<exists>tx s. stored = map (event_stored tx s (of_nat (length events))) (enumerate 0 events))"

lemma stored_transaction_nth:
  assumes "stored_transaction events stored"
  shows "length stored = length events" "events \<noteq> []" "length events < 2 ^ 32"
    and "i < length events \<Longrightarrow> sv_data (stored ! i) = events ! i"
    and "i < length events \<Longrightarrow> unat (sv_count (stored ! i)) = length events"
    and "i < length events \<Longrightarrow> sv_transaction (stored ! i) = sv_transaction (stored ! 0)"
  using assms
  by (auto simp: stored_transaction_def validate_events_def nth_enumerate_eq event_stored_def unat_of_nat
      MAX_EVENTS_PER_TRANSACTION_def split: if_splits)

section \<open>The interface\<close>

locale event_sourced =
  fixes replay :: "stored_event list \<Rightarrow> ('e, 's) result"
    and transact :: "'s \<Rightarrow> event_data list \<Rightarrow> 's \<Rightarrow> bool"
  assumes replay_transaction: "replay xs = Ok s \<Longrightarrow> transact s events s' \<Longrightarrow> stored_transaction events stored
    \<Longrightarrow> length xs + length events \<le> 1000000 \<Longrightarrow> replay (xs @ stored) = Ok s'"
begin

text \<open>The state of a writer in memory, and the state the next process finds in the file.\<close>

definition in_step :: "file_ledger \<Rightarrow> 's \<Rightarrow> bool" where
  "in_step l s \<longleftrightarrow> ledger_ok l \<and> \<not> fl_poisoned l \<and> replay (fl_events l) = Ok s"

definition on_disk :: "file_ledger \<Rightarrow> 's \<Rightarrow> bool" where
  "on_disk l s \<longleftrightarrow> (\<exists>m report. reopen l = Ok (m, report) \<and> in_step m s \<and> rr_events report = fl_events m)"

lemma in_step_on_disk: "in_step l s \<Longrightarrow> on_disk l s"
  by (auto simp: in_step_def on_disk_def reopen_ok)

lemma on_disk_unique: "on_disk l s \<Longrightarrow> on_disk l t \<Longrightarrow> s = t"
  by (auto simp: on_disk_def in_step_def)

lemma in_step_synced:
  assumes "in_step l s" and "transact s events s'" and "ledger_append Synced l (fl_head l) events = (Ok receipt, l')"
  shows "in_step l' s'"
proof -
  have l: "ledger_ok l" "replay (fl_events l) = Ok s" using assms(1) by (simp_all add: in_step_def)
  from append_Synced [OF assms(3)] obtain frame stored payload_bytes where
    prep: "prepare_append l (fl_head l) events = Ok (frame, stored, receipt, payload_bytes)"
    and l': "l' = committed l frame stored receipt payload_bytes" by blast
  have "stored_transaction events stored"
    using prepare_append_stored(1,2) [OF prep] by (auto simp: stored_transaction_def)
  moreover have "length (fl_events l) + length events \<le> 1000000"
    using prepare_append_stored(3) [OF prep] by (simp add: MAX_REPLAY_EVENTS_def)
  ultimately have "replay (fl_events l @ stored) = Ok s'"
    using replay_transaction [OF l(2) assms(2)] by simp
  then show ?thesis
    using append_synced [OF l(1) assms(3)] by (simp add: in_step_def l' committed_def)
qed

text \<open>An append succeeds and both states are the new one, or it fails and changes nothing, or it leaves a
  poisoned writer whose file holds the old state or the new one.\<close>

lemma append_cases:
  assumes "in_step l s" and "transact s events s'" and "ledger_append outcome l (fl_head l) events = (r, l')"
  obtains (appended) receipt where "r = Ok receipt" "in_step l' s'"
  | (refused) "\<forall>x. r \<noteq> Ok x" "l' = l"
  | (failed) e where "r = Err e" "fl_poisoned l'" "on_disk l' s \<or> on_disk l' s'"
proof (cases "\<exists>receipt. r = Ok receipt")
  case True
  then show thesis
    using appended in_step_synced [OF assms(1,2)] append_outcomes(2) [OF assms(3)] assms(3) by auto
next
  case not_ok: False
  have l: "ledger_ok l" "\<not> fl_poisoned l" using assms(1) by (simp_all add: in_step_def)
  from append_outcomes(1) [OF assms(3)] not_ok
  consider "l' = l" | n e where "outcome = FailedAfter n e" "fl_poisoned l'" by blast
  then show thesis
  proof cases
    case 1
    then show thesis using refused not_ok by blast
  next
    case 2
    from append_failed [OF l(1) assms(3) [unfolded 2(1)] l(2) 2(2)] obtain m report where
      r: "r = Err (DurabilityAmbiguous e)" and m: "reopen l' = Ok (m, report)"
      and old_or_new: "m = l \<or> (\<exists>receipt. ledger_append Synced l (fl_head l) events = (Ok receipt, m))" by blast
    from old_or_new have "in_step m s \<or> in_step m s'"
      using assms(1) in_step_synced [OF assms(1,2)] by blast
    moreover have "rr_events report = fl_events m"
      using m by (auto simp: reopen_def ledger_open_def open_with_policy_def result_ok dest!: open_bytes_Ok split: if_splits)
    ultimately show thesis using failed r 2(2) m by (auto simp: on_disk_def)
  qed
qed

lemma reopened_in_step:
  assumes "on_disk l s" and "ledger_open (Regular (fl_file l)) False = Ok (m, report)"
  shows "in_step m s" "replay (rr_events report) = Ok s"
  using assms by (auto simp: on_disk_def in_step_def reopen_def)

lemma fresh_in_step: "replay [] = Ok s \<Longrightarrow> in_step fresh_ledger s"
  using fresh_ok by (simp add: in_step_def fresh_ledger_def)

end

end
