(* ===== verification/Team_Durable_Laws.thy ===== *)
theory Team_Durable_Laws
  imports Team_Stored Event_Store
begin

text \<open>
  The durable Team runtime keeps its ledger and its runtime in step: what is stored decodes to the
  log of the published runtime, at every moment and through every failure of a write.
\<close>

section \<open>Stored events\<close>

text \<open>The first schema that has a kind of event.\<close>

fun first_schema :: "team_event_kind \<Rightarrow> u16" where
  "first_schema (OperationCommitted _ _) = 2"
| "first_schema (OperationAcknowledged _ _ _) = 2"
| "first_schema (TaskRetryRequested _) = 4"
| "first_schema (AgentRetryRequested _ _) = 4"
| "first_schema _ = 1"

lemma current_schema: "TEAM_EVENT_SCHEMA = 4"
  by (simp add: TEAM_EVENT_SCHEMA_def)

lemma in_schema_current: "in_schema TEAM_EVENT_SCHEMA kind = kind"
  by (cases kind) (simp_all add: current_schema team_event_schemas)

lemma tag_in_schema:
  "encode_kind schema kind = Ok (tag, w) \<Longrightarrow> (tag > 17 \<longrightarrow> 2 \<le> first_schema kind) \<and> (tag > 19 \<longrightarrow> first_schema kind = 4)"
  by (cases kind) (auto simp: result_ok)

text \<open>A payload that fits in memory decodes to the kind it was encoded from.\<close>

lemma encode_decode_schema:
  assumes "kind_ok kind" and "schema \<in> {1, 2, 3, 4}" and "first_schema kind \<le> schema"
  obtains data where "encode_event_data_for_schema kind schema = Ok data"
    "length (ed_payload data) < 2 ^ 64 \<longrightarrow> decode_event_data data = Ok (in_schema schema kind)"
proof -
  from encode_kind_reads [OF assms(1), of schema] obtain tag w where
    enc: "encode_kind schema kind = Ok (tag, w)"
    and reads: "reads (decode_kind schema tag) (in_schema schema kind) w" by blast
  have "decode_kind schema tag (decoder_new w) = Ok (in_schema schema kind, \<lparr>dc_bytes = w, dc_position = length w\<rparr>)"
    if "length w < 2 ^ 64"
    using reads [unfolded reads_def, rule_format, of "[]" "[]"] that by (simp add: decoder_new_def)
  moreover have "\<not> (schema = 1 \<and> 17 < tag)" "\<not> (schema < 4 \<and> 19 < tag)"
    using tag_in_schema [OF enc] assms(3) by (auto simp: word_le_nat_alt word_less_nat_alt)
  then have "\<not> (schema = TEAM_EVENT_SCHEMA_V1 \<and> 17 < tag)" "\<not> (schema < TEAM_EVENT_SCHEMA \<and> 19 < tag)"
    unfolding current_schema TEAM_EVENT_SCHEMA_V1_def .
  moreover have "schema \<in> {TEAM_EVENT_SCHEMA_V1, TEAM_EVENT_SCHEMA_V2, TEAM_EVENT_SCHEMA_V3, TEAM_EVENT_SCHEMA}"
    using assms(2) by (simp add: current_schema TEAM_EVENT_SCHEMA_V1_def TEAM_EVENT_SCHEMA_V2_def TEAM_EVENT_SCHEMA_V3_def)
  ultimately have "length w < 2 ^ 64 \<longrightarrow>
      decode_event_data \<lparr>ed_schema = schema, ed_kind = tag, ed_payload = w\<rparr> = Ok (in_schema schema kind)"
    unfolding decode_event_data_def by (auto simp: dec_finish_def simp del: insert_iff)
  with enc show thesis
    by (intro that [of "\<lparr>ed_schema = schema, ed_kind = tag, ed_payload = w\<rparr>"]) (simp_all add: encode_event_data_for_schema_def)
qed

lemma encode_decode:
  assumes "kind_ok kind"
  obtains data where "encode_event_data kind = Ok data"
    "length (ed_payload data) < 2 ^ 64 \<longrightarrow> decode_event_data data = Ok kind"
proof (rule encode_decode_schema [OF assms, of TEAM_EVENT_SCHEMA])
  show "TEAM_EVENT_SCHEMA \<in> {1, 2, 3, 4}" "first_schema kind \<le> TEAM_EVENT_SCHEMA"
    by (simp_all add: current_schema) (cases kind; simp)
qed (use that in \<open>simp add: in_schema_current encode_event_data_def\<close>)

section \<open>The runtime's part\<close>

text \<open>The log of a runtime is numbered, and the next transaction follows the last one.\<close>

definition follows :: "team_runtime \<Rightarrow> bool" where
  "follows rt \<longleftrightarrow> numbered (rt_event_log rt)
     \<and> runtime_head rt = \<lparr>lh_transaction = rt_next_transaction rt - 1, lh_sequence = of_nat (length (rt_event_log rt))\<rparr>"

lemma runtime_head_last:
  "rt_event_log rt = [] \<Longrightarrow> runtime_head rt = ledger_head_default"
  "rt_event_log rt \<noteq> [] \<Longrightarrow> runtime_head rt = \<lparr>lh_transaction = id_get (te_transaction (last (rt_event_log rt))),
     lh_sequence = id_get (te_sequence (last (rt_event_log rt)))\<rparr>"
  by (auto simp: runtime_head_def rev_eq_Cons_iff split: list.splits)

lemma followsI:
  assumes "numbered (rt_event_log rt)" and "rt_event_log rt \<noteq> []"
    and "id_get (te_transaction (last (rt_event_log rt))) + 1 = rt_next_transaction rt"
  shows "follows rt"
proof -
  have "te_sequence (last (rt_event_log rt)) = Ident (of_nat (length (rt_event_log rt)))"
    using assms(1,2) by (simp add: numbered_def last_conv_nth del: of_nat_Suc)
  then show ?thesis using assms by (auto simp: follows_def runtime_head_last eq_diff_eq)
qed

lemma recover_loop_transaction:
  assumes "recover_loop m rv evs = Ok rv'"
  shows "evs \<noteq> [] \<longrightarrow> id_get (te_transaction (last evs)) + 1 = rv_transaction rv'" and "evs = [] \<longrightarrow> rv' = rv"
  using assms
proof (induction rule: recover_loop_induct)
  case (chunk rv chunk rv1 rest rv')
  {
    case 1
    have "te_transaction (last chunk) = te_transaction (hd chunk)"
      using chunk.hyps(1,3) by (auto simp: advanced_def framed_def last_conv_nth)
    moreover have "id_get (te_transaction (hd chunk)) + 1 = rv_transaction rv1"
      using chunk.hyps(3) by (auto simp: advanced_def checked_add_Some_iff)
    ultimately show ?case using chunk by (auto simp: last_append)
  next
    case 2
    show ?case using chunk.hyps(1) by simp
  }
qed simp_all

lemma reachable_follows: "reachable rt \<Longrightarrow> follows rt"
proof (induction rule: reachable_induct)
  case (fresh n c rt c')
  then show ?case by (auto dest!: new_runtime simp: follows_def runtime_head_def ledger_head_default_def numbered_def)
next
  case (commit rt p)
  from commit.hyps(2) obtain kinds where kinds: "kinds \<noteq> []"
    and evs: "pe_events p = number_events (of_nat (Suc (length (rt_event_log rt)))) (Ident (rt_next_transaction rt)) kinds"
    and next_tx: "checked_add (rt_next_transaction rt) 1 = Some (pe_next_transaction p)"
    by (rule prepared_Ok) simp
  have "pe_events p \<noteq> []" using kinds evs by (metis length_0_conv number_events_length)
  moreover have "te_transaction (last (pe_events p)) = Ident (rt_next_transaction rt)"
    using kinds by (simp add: evs last_conv_nth number_events_nth flip: length_greater_0_conv)
  moreover have "numbered (rt_event_log rt @ pe_events p)"
    using commit.IH by (simp add: follows_def numbered_append evs number_events_nth)
  ultimately show ?case using next_tx by (intro followsI) (simp_all add: checked_add_Some_iff)
next
  case (recovered n c log rt c')
  then show ?case
  proof (cases rule: recover_Ok)
    case (1 rv)
    show ?thesis
    proof (cases "log = []")
      case True
      then show ?thesis
        using 1 by (auto simp: follows_def runtime_head_def ledger_head_default_def numbered_def recovery_start_def)
    next
      case False
      then show ?thesis using 1 recover_loop_transaction(1) [OF 1(1)] by (intro followsI) (auto simp: recovery_ok_def)
    qed
  qed
qed

section \<open>The two in step\<close>

definition durable_ok :: "durable_team_runtime \<Rightarrow> bool" where
  "durable_ok d \<longleftrightarrow> reachable (du_runtime d) \<and> ids_ok (rt_state (du_runtime d))
     \<and> ledger_ok (du_ledger d) \<and> \<not> fl_poisoned (du_ledger d)
     \<and> runtime_head (du_runtime d) = fl_head (du_ledger d)
     \<and> try_map decode_stored_event (fl_events (du_ledger d)) = Ok (rt_event_log (du_runtime d))"

lemma apply_all_ids_ok: "apply_all st ks n = Ok st' \<Longrightarrow> ids_ok st \<Longrightarrow> ids_ok st'"
  by (induction ks arbitrary: st) (auto simp: apply_all_def result_ok dest: apply_event_ids_ok)

lemma reachable_ids_ok: "reachable rt \<Longrightarrow> ids_ok (rt_state rt)"
  using apply_all_ids_ok [of team_state_default] reachable_ok [of rt]
  by (auto simp: runtime_ok_def ids_ok_def team_state_default_def bt_get_def)

lemma durable_ok_length:
  "durable_ok d \<Longrightarrow> length (rt_event_log (du_runtime d)) = length (fl_events (du_ledger d))"
  "durable_ok d \<Longrightarrow> length (rt_event_log (du_runtime d)) \<le> 1000000"
  using ledger_ok_bound(1) [of "du_ledger d"] by (auto simp: durable_ok_def result_ok dest: list_all2_lengthD)

lemma recovered_durable_ok:
  assumes "recover_team report m c = Ok (rt, c')" and "ledger_ok l" and "\<not> fl_poisoned l"
    and "rr_head report = fl_head l" and "rr_events report = fl_events l"
  shows "durable_ok \<lparr>du_runtime = rt, du_ledger = l, du_tail = n\<rparr>"
proof -
  from assms(1) obtain events where events: "try_map decode_stored_event (rr_events report) = Ok events"
    and rec: "recover m c events = Ok (rt, c')" and head: "runtime_head rt = rr_head report"
    by (auto simp: recover_team_def result_ok split: if_splits)
  have "reachable rt" using rec by (rule reachable.recovered)
  moreover have "rt_event_log rt = events" by (rule recover_Ok [OF rec])
  ultimately show ?thesis using assms events head reachable_ids_ok by (simp add: durable_ok_def)
qed

lemma from_opened_ok:
  assumes "from_opened_ledger (l, report) m c = Ok (d, c')" and "ledger_ok l" and "\<not> fl_poisoned l"
    and "rr_head report = fl_head l" and "rr_events report = fl_events l"
  shows "durable_ok d"
  using assms recovered_durable_ok [OF _ assms(2-)] by (auto simp: from_opened_ledger_def result_ok)

lemma opened_ok: "durable_open node locked m c = Ok (d, c') \<Longrightarrow> durable_ok d"
  by (auto simp: durable_open_def ledger_open_def open_with_policy_def result_ok
      dest!: open_bytes_Ok intro: from_opened_ok split: if_splits)

lemma opened_strict_ok: "durable_open_existing_strict node locked m c = Ok (d, c') \<Longrightarrow> durable_ok d"
  by (auto simp: durable_open_existing_strict_def open_existing_strict_def open_with_policy_def result_ok
      dest!: open_bytes_Ok intro: from_opened_ok split: if_splits)

text \<open>Opening the file again gives the runtime back, with a fresh authority.\<close>

lemma recover_team_ok:
  assumes "durable_ok d" and "rt_max_active (du_runtime d) \<le> m" and "c < u64_max"
    and "rr_head report = fl_head (du_ledger d)" and "rr_events report = fl_events (du_ledger d)"
  shows "recover_team report m c = Ok ((du_runtime d)\<lparr>rt_max_active := m, rt_authority := c\<rparr>, c + 1)"
proof -
  let ?rt = "du_runtime d"
  have "Suc (length (rt_event_log ?rt)) < 2 ^ 64" using durable_ok_length(2) [OF assms(1)] by simp
  then have "recover m c (rt_event_log ?rt) = Ok (?rt\<lparr>rt_max_active := m, rt_authority := c\<rparr>, c + 1)"
    using assms by (intro recover_reachable) (auto simp: durable_ok_def)
  moreover have "runtime_head (?rt\<lparr>rt_max_active := m, rt_authority := c\<rparr>) = runtime_head ?rt"
    by (simp add: runtime_head_def)
  ultimately show ?thesis using assms by (simp add: recover_team_def durable_ok_def)
qed

lemma reopened:
  assumes "durable_ok d" and "rt_max_active (du_runtime d) \<le> m" and "c < u64_max"
    and "ledger_open node False = Ok (du_ledger d, report)"
    and "rr_head report = fl_head (du_ledger d)" and "rr_events report = fl_events (du_ledger d)"
  shows "durable_open node False m c = Ok (\<lparr>du_runtime = (du_runtime d)\<lparr>rt_max_active := m, rt_authority := c\<rparr>,
      du_ledger = du_ledger d, du_tail = rr_truncated report\<rparr>, c + 1)"
proof -
  have "0 < m" using assms(1,2) reachable_ok [of "du_runtime d"] by (auto simp: durable_ok_def runtime_ok_def)
  then show ?thesis
    using recover_team_ok [OF assms(1-3,5,6)] assms(4)
    by (simp add: durable_open_def validate_active_limit_def from_opened_ledger_def)
qed

section \<open>Committing keeps them in step\<close>

lemma prepared_for_fresh:
  assumes "prepared_for rt p"
  shows "id_valid (rt_next_transaction rt)" "pe_events p \<noteq> []"
    "pe_transaction p = Ident (rt_next_transaction rt)"
    "map te_kind (pe_events p) \<noteq> []"
proof -
  from assms obtain base where id: "validate_stored_identifier (rt_next_transaction rt) = Ok ()" and base: "base \<noteq> []"
    and prep: "prepare_events rt (Ident (rt_next_transaction rt)) base = Ok p"
    by (auto simp: prepared_for_def fresh_transaction_id_def fresh_identifier_def result_ok)
  from id show "id_valid (rt_next_transaction rt)" by (simp add: validate_stored_identifier_def id_valid_def split: if_splits)
  show "pe_transaction p = Ident (rt_next_transaction rt)" by (rule prepare_events_Ok [OF prep base]) simp
  show "pe_events p \<noteq> []" by (rule prepared_Ok [OF assms]) (metis length_0_conv number_events_length)
  then show "map te_kind (pe_events p) \<noteq> []" by simp
qed

text \<open>Storing the encoding of the prepared events and decoding it gives the events.\<close>

lemma decode_identifier_Ok: "id_valid v \<Longrightarrow> decode_identifier v = Ok v"
  by (simp add: decode_identifier_def id_valid_def)

lemma small_id_valid: "0 < n \<Longrightarrow> n \<le> 1000000 \<Longrightarrow> id_valid (of_nat n)"
  by (auto simp: id_valid_def u64_max_def word_unat_eq_iff unat_of_nat unsigned_minus_1_eq_mask mask_eq_exp_minus_1)

lemma stored_decodes:
  assumes "encode_event_data kind = Ok data" and "event_valid data" and "kind_ok kind"
    and "id_valid tx" and "id_valid (s + of_nat i)"
  shows "decode_stored_event (event_stored tx s count (i, data)) =
     Ok \<lparr>te_sequence = Ident (s + of_nat i), te_transaction = Ident tx, te_index = of_nat i, te_count = count,
         te_kind = kind\<rparr>"
proof -
  have "length (ed_payload data) < 2 ^ 64"
    using assms(2) by (simp add: event_valid_def MAX_EVENT_PAYLOAD_BYTES_def)
  moreover obtain data' where "encode_event_data kind = Ok data'"
    "length (ed_payload data') < 2 ^ 64 \<longrightarrow> decode_event_data data' = Ok kind" by (rule encode_decode [OF assms(3)])
  ultimately have "decode_event_data data = Ok kind" using assms(1) by simp
  then show ?thesis
    using assms(4,5) by (simp add: decode_stored_event_def event_stored_def decode_identifier_Ok)
qed

lemma encoded_events:
  assumes "list_all kind_ok (map te_kind evs)"
  obtains encoded where "try_map (encode_event_data \<circ> te_kind) evs = Ok encoded" "length encoded = length evs"
    "\<forall>i < length evs. encode_event_data (te_kind (evs ! i)) = Ok (encoded ! i)"
proof (rule try_map_total [of evs "encode_event_data \<circ> te_kind"])
  show "\<forall>e \<in> set evs. \<exists>data. (encode_event_data \<circ> te_kind) e = Ok data"
    using assms by (auto simp: list_all_iff elim: encode_decode)
qed (use that in simp)

lemma appended_decodes:
  assumes "durable_ok d" and "prepared_for (du_runtime d) p" and "list_all kind_ok (map te_kind (pe_events p))"
    and "try_map (encode_event_data \<circ> te_kind) (pe_events p) = Ok encoded"
    and "prepare_append (du_ledger d) expected encoded = Ok (frame, stored, receipt, payload_bytes)"
  shows "try_map decode_stored_event stored = Ok (pe_events p)"
proof -
  let ?rt = "du_runtime d" and ?l = "du_ledger d"
  note stored = prepare_append_stored [OF assms(5)]
  have head: "fl_head ?l = \<lparr>lh_transaction = rt_next_transaction ?rt - 1, lh_sequence = of_nat (length (rt_event_log ?rt))\<rparr>"
    using assms(1) reachable_follows [of ?rt] by (simp add: durable_ok_def follows_def)
  obtain kinds where evs: "pe_events p = number_events (of_nat (Suc (length (rt_event_log ?rt)))) (Ident (rt_next_transaction ?rt)) kinds"
    by (rule prepared_Ok [OF assms(2)])
  have enc: "list_all2 (\<lambda>e data. encode_event_data (te_kind e) = Ok data) (pe_events p) encoded"
    using assms(4) by (simp add: result_ok)
  then have len: "length encoded = length kinds" using evs by (auto dest: list_all2_lengthD)
  have "decode_stored_event (stored ! i) = Ok (pe_events p ! i)" if i: "i < length kinds" for i
  proof -
    have "0 < Suc (length (rt_event_log ?rt) + i)" "Suc (length (rt_event_log ?rt) + i) \<le> 1000000"
      using stored(3) i len durable_ok_length(1) [OF assms(1)] by (simp_all add: MAX_REPLAY_EVENTS_def)
    then have "id_valid (of_nat (Suc (length (rt_event_log ?rt) + i)))" by (rule small_id_valid)
    then have seq: "id_valid (of_nat (length (rt_event_log ?rt)) + 1 + of_nat i)" by (simp add: ac_simps)
    have "event_valid (encoded ! i)"
      using stored(2) i len by (auto simp: validate_events_def result_ok split: if_splits)
    moreover have "kind_ok (kinds ! i)" using assms(3) i by (simp add: evs list_all_length)
    moreover have "encode_event_data (kinds ! i) = Ok (encoded ! i)"
      using enc i by (auto simp: evs list_all2_conv_all_nth number_events_nth)
    ultimately show ?thesis
      using stored_decodes [OF _ _ _ prepared_for_fresh(1) [OF assms(2)] seq] i len
      by (simp add: stored(1) head nth_enumerate_eq evs number_events_nth ac_simps)
  qed
  then show ?thesis
    using len by (simp add: result_ok list_all2_conv_all_nth stored(1) evs)
qed

lemma published_durable_ok:
  assumes "durable_ok d" and "prepared_for (du_runtime d) p" and "list_all kind_ok (map te_kind (pe_events p))"
    and "reachable (publish_events (du_runtime d) p)"
    and "try_map (encode_event_data \<circ> te_kind) (pe_events p) = Ok encoded"
    and "prepare_append (du_ledger d) expected encoded = Ok (frame, stored, receipt, payload_bytes)"
  shows "durable_ok \<lparr>du_runtime = publish_events (du_runtime d) p,
    du_ledger = committed (du_ledger d) frame stored receipt payload_bytes, du_tail = n\<rparr>"
proof -
  let ?rt = "du_runtime d" and ?l = "du_ledger d"
  note stored = prepare_append_stored [OF assms(6)]
  have follows: "follows ?rt" "follows (publish_events ?rt p)"
    using assms(1,4) by (auto simp: durable_ok_def intro: reachable_follows)
  have next_tx: "pe_next_transaction p = rt_next_transaction ?rt + 1"
    by (rule prepared_Ok [OF assms(2)]) (simp add: checked_add_Some_iff)
  have len: "length encoded = length (pe_events p)"
    using assms(5) by (auto simp: result_ok dest: list_all2_lengthD)
  have "fl_head ?l = runtime_head ?rt" using assms(1) by (simp add: durable_ok_def)
  then have "runtime_head (publish_events ?rt p) = \<lparr>lh_transaction = dr_transaction receipt, lh_sequence = dr_last_sequence receipt\<rparr>"
    using follows next_tx len by (simp add: follows_def stored(4,6))
  moreover have "try_map decode_stored_event (fl_events ?l @ stored) = Ok (rt_event_log ?rt @ pe_events p)"
    using assms(1) appended_decodes [OF assms(1-3,5,6)] by (simp add: durable_ok_def)
  moreover have "ledger_ok (committed ?l frame stored receipt payload_bytes)"
    using assms(1) committed_ok [OF _ assms(6)] by (simp add: durable_ok_def)
  ultimately show ?thesis
    using assms(1,4) reachable_ids_ok [OF assms(4)] by (simp add: durable_ok_def committed_def)
qed

lemma prepare_append_returns: "prepare_append l expected events \<noteq> Diverges"
proof -
  have encode: "try_fold (encode_event tx s count) acc es \<noteq> Diverges" for tx s count acc es
    by (induction es arbitrary: acc) (auto simp: andthen_eq_Diverges encode_event_def split: prod.splits)
  have payload: "transaction_payload_bytes es \<noteq> Diverges" for es
  proof -
    have "try_fold (\<lambda>bytes e. ok_or (usize_add bytes (length (ed_payload e))) IntegerOverflow) n es \<noteq> Diverges" for n
      by (induction es arbitrary: n) (auto simp: andthen_eq_Diverges)
    then show ?thesis by (simp add: transaction_payload_bytes_def)
  qed
  have "validate_events es \<noteq> Diverges" for es
    by (auto simp: validate_events_def validate_event_def intro!: try_each_not_Diverges split: if_splits)
  then show ?thesis
    using encode payload
    by (auto simp: prepare_append_def andthen_eq_Diverges encode_transaction_def checked_replay_payload_bytes_def
        split: if_splits)
qed

text \<open>Every way a commit ends.\<close>

definition crashed :: "durable_team_runtime \<Rightarrow> prepared_events \<Rightarrow> durable_team_runtime \<Rightarrow> bool" where
  "crashed d p d' \<longleftrightarrow> fl_poisoned (du_ledger d') \<and> du_runtime d' = du_runtime d
     \<and> (\<exists>m report. reopen (du_ledger d') = Ok (m, report)
          \<and> rr_head report = fl_head m \<and> rr_events report = fl_events m
          \<and> (durable_ok \<lparr>du_runtime = du_runtime d, du_ledger = m, du_tail = 0\<rparr>
             \<or> durable_ok \<lparr>du_runtime = publish_events (du_runtime d) p, du_ledger = m, du_tail = 0\<rparr>))"

lemma reopen_report: "reopen l = Ok (m, report) \<Longrightarrow> rr_head report = fl_head m \<and> rr_events report = fl_events m"
  by (auto simp: reopen_def ledger_open_def open_with_policy_def result_ok dest!: open_bytes_Ok split: if_splits)

lemma durable_ok_tail [simp]: "durable_ok (d\<lparr>du_tail := n\<rparr>) = durable_ok d"
  by (simp add: durable_ok_def)

lemma commit_outcomes:
  assumes "durable_ok d" and "prepared_for (du_runtime d) p" and "list_all kind_ok (map te_kind (pe_events p))"
    and "reachable (publish_events (du_runtime d) p)"
    and "commit_prepared outcome d p result_of = (r, d')"
  obtains
    (published) receipt where "outcome = Synced" "r = Ok (result_of receipt)" "durable_ok d'"
      "du_runtime d' = publish_events (du_runtime d) p"
      "tdr_transaction receipt = pe_transaction p" "tdr_event_count receipt = of_nat (length (pe_events p))"
      "tdr_first_sequence receipt = te_sequence (hd (pe_events p))"
      "tdr_last_sequence receipt = te_sequence (last (pe_events p))"
  | (refused) e where "r = Err (DurableLedger e)" "d' = d"
  | (ambiguous) n e where "outcome = FailedAfter n e" "r = Err (DurableLedger (DurabilityAmbiguous e))" "crashed d p d'"
proof -
  let ?rt = "du_runtime d" and ?l = "du_ledger d"
  have head: "fl_head ?l = runtime_head ?rt" and l: "ledger_ok ?l" "\<not> fl_poisoned ?l"
    using assms(1) by (simp_all add: durable_ok_def)
  obtain encoded where enc: "try_map (encode_event_data \<circ> te_kind) (pe_events p) = Ok encoded"
    and len: "length encoded = length (pe_events p)" by (rule encoded_events [OF assms(3)])
  obtain r0 l' where app: "ledger_append outcome ?l (runtime_head ?rt) encoded = (r0, l')" by force
  have commit: "commit_prepared outcome d p result_of =
      (case map_ok team_receipt (map_err DurableLedger r0) of
         Ok receipt \<Rightarrow> (Ok (result_of receipt), d\<lparr>du_runtime := publish_events ?rt p, du_ledger := l'\<rparr>)
       | Err e \<Rightarrow> (Err e, d\<lparr>du_ledger := l'\<rparr>)
       | Diverges \<Rightarrow> (Diverges, d\<lparr>du_ledger := l'\<rparr>))"
    by (simp add: commit_prepared_def append_prepared_def Let_def head enc app)
  show thesis
  proof (cases "prepare_append ?l (runtime_head ?rt) encoded")
    case (Err e)
    then have "r0 = Err e" "l' = ?l" using app by (simp_all add: ledger_append_def append_with_io_def)
    then show thesis using commit assms(5) refused by simp
  next
    case Diverges
    then show thesis using prepare_append_returns by simp
  next
    case (Ok prepared)
    then obtain frame stored receipt pb where
      prep: "prepare_append ?l (runtime_head ?rt) encoded = Ok (frame, stored, receipt, pb)" by (cases prepared) auto
    note ok = published_durable_ok [OF assms(1-4) enc]
    show thesis
    proof (cases outcome)
      case Synced
      then have "r0 = Ok receipt" "l' = committed ?l frame stored receipt pb"
        using app prep by (simp_all add: ledger_append_def append_with_io_def write_frame_synchronously_def committed_def)
      moreover have "team_receipt receipt = x" if "x = \<lparr>tdr_transaction = pe_transaction p,
          tdr_first_sequence = te_sequence (hd (pe_events p)), tdr_last_sequence = te_sequence (last (pe_events p)),
          tdr_event_count = of_nat (length (pe_events p)), tdr_transaction_crc32c = dr_crc32c receipt\<rparr>" for x
      proof -
        have "follows ?rt" using assms(1) by (simp add: durable_ok_def reachable_follows)
        moreover obtain kinds where "kinds \<noteq> []" "pe_events p =
            number_events (of_nat (Suc (length (rt_event_log ?rt)))) (Ident (rt_next_transaction ?rt)) kinds"
          by (rule prepared_Ok [OF assms(2)])
        ultimately show ?thesis
          using prepare_append_stored(4-7) [OF prep] len head prepared_for_fresh(3) [OF assms(2)] that
          by (simp add: team_receipt_def follows_def number_events_hd last_conv_nth number_events_nth of_nat_diff
              flip: length_greater_0_conv)
      qed
      ultimately show thesis
        using commit assms(5) ok [OF prep, of 0] Synced
        by (intro published [of "team_receipt receipt"]) (auto simp: durable_ok_def)
    next
      case (FailedAfter n e)
      then have r0: "r0 = Err (DurabilityAmbiguous e)" and l': "fl_poisoned l'"
        using app prep by (auto simp: ledger_append_def append_with_io_def write_frame_synchronously_def)
      from append_failed [OF l(1) app [unfolded FailedAfter] l(2) l'] obtain m report where
        reopen: "reopen l' = Ok (m, report)"
        and m: "m = ?l \<or> (\<exists>receipt. ledger_append Synced ?l (runtime_head ?rt) encoded = (Ok receipt, m))" by blast
      have "durable_ok \<lparr>du_runtime = ?rt, du_ledger = m, du_tail = 0\<rparr>
          \<or> durable_ok \<lparr>du_runtime = publish_events ?rt p, du_ledger = m, du_tail = 0\<rparr>"
        using m
      proof (elim disjE exE)
        assume "m = ?l"
        then show ?thesis using assms(1) by (simp add: durable_ok_def)
      next
        fix receipt' assume "ledger_append Synced ?l (runtime_head ?rt) encoded = (Ok receipt', m)"
        then show ?thesis by (rule append_Synced) (use ok in blast)
      qed
      then have "crashed d p d'"
        using reopen reopen_report [OF reopen] l' commit assms(5) r0 by (auto simp: crashed_def)
      then show thesis using commit assms(5) r0 FailedAfter ambiguous by simp
    qed
  qed
qed

end
