(* ===== verification/Ledger_Demo.thy ===== *)
theory Ledger_Demo
  imports Event_Store
begin

text \<open>
  Short concrete histories of a ledger: an append of a few small events succeeds or fails as the disk
  decides.  Checksums stay symbolic.
\<close>

section \<open>Small appends succeed\<close>

definition small_event :: "event_data \<Rightarrow> bool" where
  "small_event e \<longleftrightarrow> ed_schema e \<noteq> 0 \<and> ed_kind e \<noteq> 0 \<and> length (ed_payload e) \<le> 1000"

definition small_events :: "event_data list \<Rightarrow> bool" where
  "small_events es \<longleftrightarrow> es \<noteq> [] \<and> length es \<le> 16 \<and> list_all small_event es"

lemma small_valid: "small_events es \<Longrightarrow> validate_events es = Ok ()"
  by (auto simp: small_events_def small_event_def validate_events_def ledger_bounds event_valid_def list_all_iff result_ok)

lemma small_payload: "list_all small_event es \<Longrightarrow> n \<le> 100000 \<Longrightarrow> length es \<le> 16 \<Longrightarrow>
  \<exists>b. try_fold (\<lambda>bytes e. ok_or (usize_add bytes (length (ed_payload e))) IntegerOverflow) n es = Ok b \<and> b \<le> n + 1000 * length es"
proof (induction es arbitrary: n rule: rev_induct)
  case (snoc e es)
  then obtain b where "try_fold (\<lambda>bytes e. ok_or (usize_add bytes (length (ed_payload e))) IntegerOverflow) n es = Ok b"
    "b \<le> n + 1000 * length es" by auto
  then show ?case using snoc.prems by (auto simp: try_fold_append usize_add_def small_event_def)
qed simp

lemma small_fold:
  assumes "list_all small_event es" and "k + length es \<le> 16" and "unat s \<le> 100"
  shows "\<exists>body' stored'. try_fold (encode_event tx s count) (body, stored) (enumerate k es) = Ok (body', stored')
    \<and> length body' \<le> length body + 1100 * length es"
  using assms(1,2)
proof (induction es arbitrary: k body stored)
  case (Cons e es)
  have "unat (of_nat k :: u64) = k" using Cons.prems by (simp add: unat_of_nat)
  then have "encode_event tx s count (body, stored) (k, e)
      = Ok (body @ event_bytes s count (k, e), stored @ [event_stored tx s count (k, e)])"
    using Cons.prems assms(3) by (simp add: encode_event_Ok checked_add_def small_event_def)
  moreover have "length (event_bytes s count (k, e)) \<le> 1024"
    using Cons.prems by (simp add: event_bytes_def event_header_def small_event_def)
  moreover obtain body' stored' where
    "try_fold (encode_event tx s count) (body @ event_bytes s count (k, e), stored @ [event_stored tx s count (k, e)])
       (enumerate (Suc k) es) = Ok (body', stored')"
    "length body' \<le> length (body @ event_bytes s count (k, e)) + 1100 * length es"
    using Cons.IH [of "Suc k"] Cons.prems by force
  ultimately show ?case by simp
qed simp

lemma small_append:
  assumes "small_events es" and "\<not> fl_poisoned l" and "length (fl_events l) \<le> 100" and "fl_payload l \<le> 100000"
    and "unat (lh_transaction (fl_head l)) \<le> 90" and "unat (lh_sequence (fl_head l)) \<le> 90"
  shows "\<exists>frame stored receipt payload_bytes.
    prepare_append l (fl_head l) es = Ok (frame, stored, receipt, payload_bytes)
    \<and> payload_bytes \<le> fl_payload l + 16000"
proof -
  have es: "list_all small_event es" "length es \<le> 16" "es \<noteq> []" using assms(1) by (simp_all add: small_events_def)
  obtain b where b: "transaction_payload_bytes es = Ok b" "b \<le> 16000"
    using small_payload [OF es(1), of 0] es(2) by (force simp: transaction_payload_bytes_def)
  let ?tx = "lh_transaction (fl_head l) + 1" and ?s = "lh_sequence (fl_head l) + 1"
  have s: "unat ?s \<le> 91" "unat ?tx \<le> 91" using assms(5,6) by (simp_all add: unat_word_ariths)
  have heads: "checked_add (lh_transaction (fl_head l)) 1 = Some ?tx" "checked_add (lh_sequence (fl_head l)) 1 = Some ?s"
    using assms(5,6) by (simp_all add: checked_add_def)
  let ?n = "of_nat (length es) :: u32"
  obtain body stored where fold: "try_fold (encode_event ?tx ?s ?n) (u64_to_le ?tx @ u64_to_le ?s @ u32_to_le ?n, []) (enumerate 0 es) = Ok (body, stored)"
    and len: "length body \<le> 20000"
    using small_fold [OF es(1), of 0 ?s ?tx ?n "u64_to_le ?tx @ u64_to_le ?s @ u32_to_le ?n" "[]"] es(2) s(1) by force
  have "unat (ucast ?n - 1 :: u64) \<le> 16"
  proof -
    have "unat (of_nat (length es) :: u64) = length es" using es(2) by (simp add: unat_of_nat)
    moreover have "(1 :: u64) \<le> of_nat (length es)" using es(2,3) by (simp add: word_le_nat_alt unat_of_nat Suc_le_eq)
    ultimately show ?thesis using es(2) by (simp add: ucast_of_nat_u32 unat_sub)
  qed
  then have "checked_add ?s (ucast ?n - 1) = Some (?s + (ucast ?n - 1))" using s(1) by (simp add: checked_add_def)
  then have "\<exists>frame receipt. encode_transaction ?tx ?s es = Ok (frame, stored, receipt)"
    using fold len es(2) by (simp add: encode_transaction_def u32_try_from_def MAX_FRAME_BODY_BYTES_def)
  then show ?thesis
    using assms(2-4) small_valid [OF assms(1)] b es(2) heads
    by (auto simp: prepare_append_def usize_add_def MAX_REPLAY_EVENTS_def checked_replay_payload_bytes_def
        MAX_REPLAY_PAYLOAD_BYTES_def)
qed

section \<open>Small ledgers\<close>

definition small_ledger :: "nat \<Rightarrow> file_ledger \<Rightarrow> bool" where
  "small_ledger k l \<longleftrightarrow> \<not> fl_poisoned l \<and> length (fl_events l) \<le> 16 * k \<and> fl_payload l \<le> 16000 * k
     \<and> unat (lh_transaction (fl_head l)) \<le> k \<and> unat (lh_sequence (fl_head l)) \<le> 16 * k"

lemma small_fresh: "small_ledger 0 fresh_ledger"
  by (simp add: small_ledger_def fresh_ledger_def ledger_head_default_def)

lemma small_outcomes:
  assumes "small_events es" and "small_ledger k l" and "k \<le> 5"
  shows "\<exists>receipt l'. ledger_append Synced l (fl_head l) es = (Ok receipt, l') \<and> small_ledger (Suc k) l'"
    and "\<exists>l'. ledger_append (FailedAfter n e) l (fl_head l) es = (Err (DurabilityAmbiguous e), l') \<and> fl_poisoned l'"
proof -
  have l: "\<not> fl_poisoned l" "length (fl_events l) \<le> 100" "fl_payload l \<le> 100000"
    "unat (lh_transaction (fl_head l)) \<le> 90" "unat (lh_sequence (fl_head l)) \<le> 90"
    using assms(2,3) by (simp_all add: small_ledger_def)
  from small_append [OF assms(1) l] obtain frame stored receipt pb where
    prep: "prepare_append l (fl_head l) es = Ok (frame, stored, receipt, pb)" and pb: "pb \<le> fl_payload l + 16000"
    by blast
  have es: "length es \<le> 16" using assms(1) by (simp add: small_events_def)
  note st = prepare_append_stored [OF prep]
  have "unat (dr_transaction receipt) \<le> Suc k" "unat (dr_last_sequence receipt) \<le> 16 * Suc k"
    using assms(2,3) es by (simp_all add: st(4,6) small_ledger_def unat_word_ariths unat_of_nat)
  then have "small_ledger (Suc k) (committed l frame stored receipt pb)"
    using assms(2) pb es st(1) by (simp add: small_ledger_def committed_def)
  then show "\<exists>receipt l'. ledger_append Synced l (fl_head l) es = (Ok receipt, l') \<and> small_ledger (Suc k) l'"
    using l(1) by (auto simp: ledger_append_def append_with_io_def write_frame_synchronously_def prep committed_def)
  show "\<exists>l'. ledger_append (FailedAfter n e) l (fl_head l) es = (Err (DurabilityAmbiguous e), l') \<and> fl_poisoned l'"
    by (simp add: ledger_append_def append_with_io_def write_frame_synchronously_def prep)
qed

end
