(* ===== verification/Team_Durable_Demo.thy ===== *)
theory Team_Durable_Demo
  imports Team_Durable_Laws Team_Demo Ledger_Demo
begin

text \<open>
  A durable Team that is executed: a new ledger, the admission of a root Agent as an operation, and
  its acknowledgement.  Checksums stay symbolic.
\<close>

section \<open>A new file\<close>

definition new_team :: durable_team_runtime where
  "new_team = \<lparr>du_runtime = demo_start, du_ledger = fresh_ledger, du_tail = 0\<rparr>"

lemma new_team_opened: "durable_open Missing False 2 7 = Ok (new_team, 8)"
proof -
  have "recover 2 7 [] = Ok (demo_start, 8)"
    by (simp add: recover_def team_runtime_new_def checked_add_code refresh_identifiers_def recovery_start_def
        team_state_default_def next_identifier_Nil demo_start_def bt_keys_def)
  then show ?thesis
    by (simp add: durable_open_def validate_active_limit_def create_ok from_opened_ledger_def recover_team_def
        new_team_def fresh_ledger_def runtime_head_def demo_start_def)
qed

definition admit :: team_command where
  "admit = AdmitRoot (demo_spec ''root'' []) (demo_budget 100 10) {|WorkspaceRead, Process|}"

lemma admit_utf8: "command_utf8 admit"
proof -
  have "utf8_valid ''root''" "utf8_valid ''core''" by code_simp+
  then show ?thesis by (auto simp: admit_def demo_spec_def)
qed

definition admit_prepared :: "prepared_events \<times> command_outcome" where
  "admit_prepared = (case prepare demo_start admit of Ok p \<Rightarrow> p | _ \<Rightarrow> undefined)"

definition admit_operation :: "prepared_events \<times> command_outcome" where
  "admit_operation = (case prepare_operation demo_start (Ident 1) admit of Ok p \<Rightarrow> p | _ \<Rightarrow> undefined)"

definition stored_small :: "prepared_events \<Rightarrow> bool" where
  "stored_small p \<longleftrightarrow> (case try_map (encode_event_data \<circ> te_kind) (pe_events p) of Ok es \<Rightarrow> small_events es | _ \<Rightarrow> False)"

lemma admit_plans: "is_ok (prepare demo_start admit)" "is_ok (prepare_operation demo_start (Ident 1) admit)"
  by code_simp+

lemma admit_small: "stored_small (fst admit_prepared)" "stored_small (fst admit_operation)"
  by code_simp+

lemma small_commit:
  assumes "stored_small p" and "runtime_head (du_runtime d) = fl_head (du_ledger d)"
    and "\<not> fl_poisoned (du_ledger d)" and "length (fl_events (du_ledger d)) \<le> 100" and "fl_payload (du_ledger d) \<le> 100000"
    and "unat (lh_transaction (fl_head (du_ledger d))) \<le> 90" and "unat (lh_sequence (fl_head (du_ledger d))) \<le> 90"
  shows "\<exists>receipt d'. commit_prepared Synced d p f = (Ok (f receipt), d')
      \<and> du_runtime d' = publish_events (du_runtime d) p \<and> \<not> fl_poisoned (du_ledger d')
      \<and> fl_payload (du_ledger d') \<le> fl_payload (du_ledger d) + 16000"
    and "\<exists>d'. commit_prepared (FailedAfter n e) d p f = (Err (DurableLedger (DurabilityAmbiguous e)), d')
      \<and> fl_poisoned (du_ledger d')"
proof -
  from assms(1) obtain es where es: "try_map (encode_event_data \<circ> te_kind) (pe_events p) = Ok es" "small_events es"
    by (auto simp: stored_small_def split: result.splits)
  from small_append [OF es(2) assms(3-)] obtain frame stored receipt pb where
    prep: "prepare_append (du_ledger d) (fl_head (du_ledger d)) es = Ok (frame, stored, receipt, pb)"
    and pb: "pb \<le> fl_payload (du_ledger d) + 16000" by blast
  have commit: "commit_prepared outcome d p f =
      (case ledger_append outcome (du_ledger d) (fl_head (du_ledger d)) es of
         (Ok receipt, l) \<Rightarrow> (Ok (f (team_receipt receipt)), d\<lparr>du_runtime := publish_events (du_runtime d) p, du_ledger := l\<rparr>)
       | (Err e, l) \<Rightarrow> (Err (DurableLedger e), d\<lparr>du_ledger := l\<rparr>)
       | (Diverges, l) \<Rightarrow> (Diverges, d\<lparr>du_ledger := l\<rparr>))" for outcome
    using es(1) assms(2)
    by (simp add: commit_prepared_def append_prepared_def Let_def split: prod.splits result.splits)
  show "\<exists>receipt d'. commit_prepared Synced d p f = (Ok (f receipt), d')
      \<and> du_runtime d' = publish_events (du_runtime d) p \<and> \<not> fl_poisoned (du_ledger d')
      \<and> fl_payload (du_ledger d') \<le> fl_payload (du_ledger d) + 16000"
    unfolding commit using assms(3) pb
    by (auto simp: ledger_append_def append_with_io_def write_frame_synchronously_def prep)
  show "\<exists>d'. commit_prepared (FailedAfter n e) d p f = (Err (DurableLedger (DurabilityAmbiguous e)), d')
      \<and> fl_poisoned (du_ledger d')"
    unfolding commit by (simp add: ledger_append_def append_with_io_def write_frame_synchronously_def prep)
qed

lemma new_team_small:
  "runtime_head (du_runtime new_team) = fl_head (du_ledger new_team)" "\<not> fl_poisoned (du_ledger new_team)"
  "length (fl_events (du_ledger new_team)) \<le> 100" "fl_payload (du_ledger new_team) \<le> 100000"
  "unat (lh_transaction (fl_head (du_ledger new_team))) \<le> 90" "unat (lh_sequence (fl_head (du_ledger new_team))) \<le> 90"
  by (simp_all add: new_team_def fresh_ledger_def demo_start_def runtime_head_def ledger_head_default_def)

lemma admit_synced: "\<exists>commit d. durable_dispatch Synced new_team admit = (Ok commit, d)"
  using small_commit(1) [OF admit_small(1) new_team_small] admit_plans(1)
  by (force simp: durable_dispatch_def new_team_def admit_prepared_def is_ok_iff)

lemma admit_fails: "\<exists>d. durable_dispatch (FailedAfter 9 NotFound) new_team admit
    = (Err (DurableLedger (DurabilityAmbiguous NotFound)), d) \<and> fl_poisoned (du_ledger d)"
  using small_commit(2) [OF admit_small(1) new_team_small] admit_plans(1)
  by (force simp: durable_dispatch_def new_team_def admit_prepared_def is_ok_iff)

lemma admit_operated:
  "\<exists>commit d. dispatch_operation Synced new_team (Ident 1) admit = (Ok commit, d)
     \<and> du_runtime d = publish_events demo_start (fst admit_operation) \<and> \<not> fl_poisoned (du_ledger d)
     \<and> fl_payload (du_ledger d) \<le> 16000"
  using small_commit(1) [OF admit_small(2) new_team_small] admit_plans(2)
  by (force simp: dispatch_operation_def new_team_def fresh_ledger_def admit_operation_def is_ok_iff)

text \<open>The team after that operation, and its acknowledgement.\<close>

definition operated :: team_runtime where
  "operated = publish_events demo_start (fst admit_operation)"

lemma operated_records: "map_option (map op_operation) (operation_records operated) = Some [Ident 1]"
  by code_simp

lemma operated_head: "runtime_head operated = \<lparr>lh_transaction = 1, lh_sequence = 7\<rparr> \<and> length (rt_event_log operated) = 7"
  by code_simp

definition admit_acknowledgement :: prepared_events where
  "admit_acknowledgement = (case prepare_operation_acknowledgement operated (Ident 1) of Ok p \<Rightarrow> p | _ \<Rightarrow> undefined)"

lemma acknowledgement_small: "stored_small admit_acknowledgement"
  by code_simp

lemma operated_acknowledges:
  "is_ok (prepare_operation_acknowledgement operated (Ident 1))
    \<and> (case operation_records operated of Some [r] \<Rightarrow> op_operation r = Ident 1 \<and> op_status r \<noteq> Acknowledged | _ \<Rightarrow> False)"
  by code_simp

end
