(* ===== verification/Team_Durable_Claims.thy ===== *)
theory Team_Durable_Claims
  imports Team_Journal Team_Durable_Demo
begin

text \<open>
  The properties of the durable Team runtime: events survive their encoding, published state
  survives a restart, a failed write leaves one of two states, and the journal of operations is
  exact.
\<close>

section \<open>Histories\<close>

text \<open>A durable runtime through its life: opened on any file, and every operation of it with any
  outcome of its write.  A restart is another opening of its file.  The strings of commands are
  Rust strings.\<close>

inductive durable :: "durable_team_runtime \<Rightarrow> bool" where
  opened: "durable_open node locked m c = Ok (d, c') \<Longrightarrow> durable d"
| opened_strict: "durable_open_existing_strict node locked m c = Ok (d, c') \<Longrightarrow> durable d"
| dispatched: "durable d \<Longrightarrow> command_utf8 cmd \<Longrightarrow> durable_dispatch outcome d cmd = (r, d') \<Longrightarrow> durable d'"
| operated: "durable d \<Longrightarrow> command_utf8 cmd \<Longrightarrow> dispatch_operation outcome d op cmd = (r', d') \<Longrightarrow> durable d'"
| acknowledged: "durable d \<Longrightarrow> acknowledge_operation outcome d op = (r'', d') \<Longrightarrow> durable d'"

definition durable_inv :: "durable_team_runtime \<Rightarrow> bool" where
  "durable_inv d \<longleftrightarrow> reachable (du_runtime d) \<and> length (rt_event_log (du_runtime d)) \<le> 1000000
     \<and> (\<not> fl_poisoned (du_ledger d) \<longrightarrow> durable_ok d)"

lemma durable_ok_inv: "durable_ok d \<Longrightarrow> durable_inv d"
  using durable_ok_length(2) by (simp add: durable_inv_def durable_ok_def)

lemma poisoned_commits_nothing:
  "fl_poisoned (du_ledger d) \<Longrightarrow> commit_prepared outcome d p f = (r, d') \<Longrightarrow> d' = d \<and> (\<forall>v. r \<noteq> Ok v)"
  by (auto simp: commit_prepared_def append_prepared_def Let_def ledger_append_def append_with_io_def prepare_append_def
      split: result.splits prod.splits if_splits)

lemma commit_result: "commit_prepared outcome d p f = (Ok v, d') \<Longrightarrow> \<exists>receipt. v = f receipt"
  by (auto simp: commit_prepared_def split: prod.splits result.splits)

section \<open>What each operation commits\<close>

lemma storable_events:
  assumes "prepare_events rt tx base = Ok p" and "base \<noteq> []" and "list_all kind_utf8 base" and "ids_ok (rt_state rt)"
  shows "list_all kind_ok (map te_kind (pe_events p))"
proof (rule prepare_events_Ok [OF assms(1,2)])
  fix extra
  assume fold: "apply_all (rt_state rt) (base @ extra) (rt_max_active rt) = Ok (pe_candidate p)"
    and evs: "pe_events p = number_events (of_nat (length (rt_event_log rt) + 1)) tx (base @ extra)"
  from prepared_utf8 [OF assms(1,3)] have "list_all kind_utf8 (base @ extra)" by (simp add: evs)
  with apply_all_storable [OF fold assms(4)] show ?thesis by (simp add: evs)
qed

lemma prepare_storable:
  assumes "prepare rt cmd = Ok p" and "command_utf8 cmd" and "ids_ok (rt_state rt)"
  shows "list_all kind_ok (map te_kind (pe_events (fst p)))"
proof -
  from assms(1) obtain evs out tx where "plan rt cmd = Ok (evs, out)" "prepare_events rt tx evs = Ok (fst p)"
    by (auto simp: prepare_def result_ok)
  then show ?thesis using storable_events plan_nonempty plan_utf8 assms(2,3) by blast
qed

lemma prepare_operation_storable:
  assumes "prepare_operation rt op cmd = Ok p" and "command_utf8 cmd" and "ids_ok (rt_state rt)"
  shows "list_all kind_ok (map te_kind (pe_events (fst p)))"
proof -
  from assms(1) obtain evs out tx where "plan rt cmd = Ok (evs, out)"
    "prepare_events rt tx (OperationCommitted op tx # evs) = Ok (fst p)"
    by (auto simp: prepare_operation_def result_ok)
  then show ?thesis using storable_events plan_utf8 assms(2,3) by fastforce
qed

lemma prepare_acknowledgement_storable:
  "prepare_operation_acknowledgement rt op = Ok p \<Longrightarrow> ids_ok (rt_state rt) \<Longrightarrow> list_all kind_ok (map te_kind (pe_events p))"
  by (auto simp: prepare_operation_acknowledgement_def result_ok dest!: storable_events)

text \<open>A transaction that one of the operations may commit.\<close>

definition committable :: "durable_team_runtime \<Rightarrow> prepared_events \<Rightarrow> bool" where
  "committable d p \<longleftrightarrow> prepared_for (du_runtime d) p \<and> list_all kind_ok (map te_kind (pe_events p))
     \<and> reachable (publish_events (du_runtime d) p)"

lemma committable_prepared:
  assumes "reachable (du_runtime d)"
  shows "prepare (du_runtime d) cmd = Ok p \<Longrightarrow> command_utf8 cmd \<Longrightarrow> committable d (fst p)"
    and "prepare_operation (du_runtime d) op cmd = Ok p \<Longrightarrow> command_utf8 cmd \<Longrightarrow> committable d (fst p)"
    and "prepare_operation_acknowledgement (du_runtime d) op = Ok q \<Longrightarrow> committable d q"
  using assms reachable_ids_ok [OF assms] unfolding committable_def
  by (auto intro: prepare_prepared prepare_operation_prepared prepare_acknowledgement_prepared prepare_storable
      prepare_operation_storable prepare_acknowledgement_storable reachable.intros)

lemma commit_inv:
  assumes "durable_inv d" and "committable d p" and "commit_prepared outcome d p f = (r, d')"
  shows "durable_inv d'"
proof (cases "fl_poisoned (du_ledger d)")
  case True
  then show ?thesis using poisoned_commits_nothing assms by blast
next
  case False
  then have ok: "durable_ok d" using assms(1) by (simp add: durable_inv_def)
  from assms(2) have "prepared_for (du_runtime d) p" "list_all kind_ok (map te_kind (pe_events p))"
    "reachable (publish_events (du_runtime d) p)" by (auto simp: committable_def)
  then show ?thesis
  proof (cases rule: commit_outcomes [OF ok _ _ _ assms(3), consumes 3, case_names published refused ambiguous])
    case (published receipt)
    then show ?thesis by (simp add: durable_ok_inv)
  next
    case (ambiguous n e)
    then show ?thesis using assms(1) by (simp add: crashed_def durable_inv_def)
  qed (use assms(1) in simp)
qed

lemma dispatch_commits:
  assumes "durable_dispatch outcome d cmd = (r, d')"
  obtains (planned) p where "prepare (du_runtime d) cmd = Ok p"
      "commit_prepared outcome d (fst p) (\<lambda>receipt. snd (publish (du_runtime d) p (Synchronous receipt))) = (r, d')"
  | (invalid) e where "prepare (du_runtime d) cmd = Err e" "r = Err (DurableTeam e)" "d' = d"
  | (endless) "prepare (du_runtime d) cmd = Diverges" "d' = d"
  using assms by (auto simp: durable_dispatch_def split: result.splits)

lemma operation_commits:
  assumes "dispatch_operation outcome d op cmd = (r, d')"
  obtains "d' = d" | p f where "prepare_operation (du_runtime d) op cmd = Ok p" "commit_prepared outcome d (fst p) f = (r, d')"
  using assms by (auto simp: dispatch_operation_def split: result.splits)

lemma acknowledge_commits:
  assumes "acknowledge_operation outcome d op = (r, d')"
  obtains "d' = d" "\<And>receipt. r \<noteq> Ok (Durable receipt)"
  | p where "prepare_operation_acknowledgement (du_runtime d) op = Ok p" "commit_prepared outcome d p Durable = (r, d')"
  using assms by (auto simp: acknowledge_operation_def split: result.splits option.splits if_splits)

lemma durable_invariant: "durable d \<Longrightarrow> durable_inv d"
proof (induction rule: durable.induct)
  case (dispatched d cmd outcome r d')
  then have reach: "reachable (du_runtime d)" by (simp add: durable_inv_def)
  from dispatched.hyps(3) show ?case
    by (cases rule: dispatch_commits)
       (use dispatched commit_inv committable_prepared(1) [OF reach] in blast)+
next
  case (operated d cmd outcome op r' d')
  then have reach: "reachable (du_runtime d)" by (simp add: durable_inv_def)
  from operated.hyps(3) show ?case
    by (cases rule: operation_commits)
       (use operated commit_inv committable_prepared(2) [OF reach] in blast)+
next
  case (acknowledged d outcome op r'' d')
  then have reach: "reachable (du_runtime d)" by (simp add: durable_inv_def)
  from acknowledged.hyps(2) show ?case
    by (cases rule: acknowledge_commits)
       (use acknowledged commit_inv committable_prepared(3) [OF reach] in blast)+
qed (auto intro: durable_ok_inv opened_ok opened_strict_ok)

section \<open>Restarting\<close>

text \<open>A later process opens the file this one leaves.\<close>

definition restart :: "durable_team_runtime \<Rightarrow> usize \<Rightarrow> u64 \<Rightarrow> (durable_team_runtime \<times> u64) durable_result" where
  "restart d m c = durable_open (Regular (fl_file (du_ledger d))) False m c"

lemma restart_ok:
  assumes "durable_ok d" and "rt_max_active (du_runtime d) \<le> m" and "c < u64_max"
  shows "restart d m c = Ok (\<lparr>du_runtime = (du_runtime d)\<lparr>rt_max_active := m, rt_authority := c\<rparr>,
      du_ledger = du_ledger d, du_tail = 0\<rparr>, c + 1)"
proof -
  have "reopen (du_ledger d) = Ok (du_ledger d, \<lparr>rr_head = fl_head (du_ledger d), rr_events = fl_events (du_ledger d), rr_truncated = 0\<rparr>)"
    using assms(1) by (simp add: durable_ok_def reopen_ok)
  from reopened [OF assms this [unfolded reopen_def]] show ?thesis by (simp add: restart_def)
qed

lemma restart_crashed:
  assumes "crashed d p d'" and "rt_max_active (du_runtime d) \<le> m" and "c < u64_max"
  obtains d'' rt where "restart d' m c = Ok (d'', c + 1)" "du_runtime d'' = rt\<lparr>rt_max_active := m, rt_authority := c\<rparr>"
    "rt = du_runtime d \<or> rt = publish_events (du_runtime d) p"
proof -
  from assms(1) obtain l report where opened: "ledger_open (Regular (fl_file (du_ledger d'))) False = Ok (l, report)"
    and report: "rr_head report = fl_head l" "rr_events report = fl_events l"
    and rt: "durable_ok \<lparr>du_runtime = du_runtime d, du_ledger = l, du_tail = 0\<rparr>
       \<or> durable_ok \<lparr>du_runtime = publish_events (du_runtime d) p, du_ledger = l, du_tail = 0\<rparr>"
    by (auto simp: crashed_def reopen_def)
  then obtain rt where "durable_ok \<lparr>du_runtime = rt, du_ledger = l, du_tail = 0\<rparr>"
    and either: "rt = du_runtime d \<or> rt = publish_events (du_runtime d) p" by blast
  from reopened [OF this(1), of m c _ report] opened report assms(2,3) either
  have "restart d' m c = Ok (\<lparr>du_runtime = rt\<lparr>rt_max_active := m, rt_authority := c\<rparr>, du_ledger = l,
      du_tail = rr_truncated report\<rparr>, c + 1)" by (auto simp: restart_def)
  then show thesis by (rule that [OF _ _ either]) simp
qed

text \<open>What a restart finds after any operation, whichever way its write ended.\<close>

lemma commit_restart:
  assumes "durable_ok d" and "committable d p" and "commit_prepared outcome d p f = (r, d')"
    and "rt_max_active (du_runtime d) \<le> m" and "c < u64_max"
  obtains d'' rt where "restart d' m c = Ok (d'', c + 1)" "du_runtime d'' = rt\<lparr>rt_max_active := m, rt_authority := c\<rparr>"
    "rt = du_runtime d' \<or> (\<exists>e. r = Err (DurableLedger (DurabilityAmbiguous e)))"
    "rt = du_runtime d \<or> rt = publish_events (du_runtime d) p"
proof -
  from assms(2) have "prepared_for (du_runtime d) p" "list_all kind_ok (map te_kind (pe_events p))"
    "reachable (publish_events (du_runtime d) p)" by (auto simp: committable_def)
  then show thesis
  proof (cases rule: commit_outcomes [OF assms(1) _ _ _ assms(3), consumes 3, case_names published refused ambiguous])
    case (published receipt)
    then show ?thesis using restart_ok [of d' m c] assms(4,5) by (intro that) auto
  next
    case (refused e)
    then show ?thesis using restart_ok [of d m c] assms by (intro that) auto
  next
    case (ambiguous n e)
    from restart_crashed [OF ambiguous(3) assms(4,5)] obtain d'' rt where
      "restart d' m c = Ok (d'', c + 1)" "du_runtime d'' = rt\<lparr>rt_max_active := m, rt_authority := c\<rparr>"
      "rt = du_runtime d \<or> rt = publish_events (du_runtime d) p" .
    then show ?thesis using ambiguous(2) by (intro that) auto
  qed
qed

section \<open>A concrete history\<close>

lemma new_team_durable: "durable new_team"
  by (rule durable.opened [OF new_team_opened])

lemma authority_nine: "(9 :: u64) < u64_max"
  by (simp add: u64_max_def)

lemma new_team_limit: "rt_max_active (du_runtime new_team) \<le> 3" "\<not> fl_poisoned (du_ledger new_team)"
  by (simp_all add: new_team_def demo_start_def fresh_ledger_def)

lemma operated_team:
  obtains d commit where "durable d" "du_runtime d = operated" "\<not> fl_poisoned (du_ledger d)"
    "\<exists>receipt d'. acknowledge_operation Synced d (Ident 1) = (Ok (Durable receipt), d')"
proof -
  from admit_operated obtain commit d where op: "dispatch_operation Synced new_team (Ident 1) admit = (Ok commit, d)"
    and d: "du_runtime d = operated" "\<not> fl_poisoned (du_ledger d)" "fl_payload (du_ledger d) \<le> 16000"
    by (auto simp: operated_def)
  have durable: "durable d" by (rule durable.operated [OF new_team_durable admit_utf8 op])
  then have ok: "durable_ok d" using durable_invariant d(2) by (simp add: durable_inv_def)
  then have head: "fl_head (du_ledger d) = \<lparr>lh_transaction = 1, lh_sequence = 7\<rparr>" "length (fl_events (du_ledger d)) = 7"
    using operated_head d(1) durable_ok_length(1) [OF ok] by (simp_all add: durable_ok_def)
  have "\<exists>receipt d'. commit_prepared Synced d admit_acknowledgement Durable = (Ok (Durable receipt), d')"
    using small_commit(1) [OF acknowledgement_small, of d Durable] d head operated_head by auto
  then have "\<exists>receipt d'. acknowledge_operation Synced d (Ident 1) = (Ok (Durable receipt), d')"
    using operated_acknowledges d(1)
    by (auto simp: acknowledge_operation_def admit_acknowledgement_def is_ok_iff split: option.splits list.splits)
  then show thesis using that durable d by blast
qed

section \<open>The properties\<close>

text \<open>C26 (roundtrip).  Every event the fold can have accepted is encoded in each
  schema that has its kind, and decodes to itself; only the Model Preset is dropped before the
  third schema.\<close>

theorem events_round_trip:
  assumes "apply_event st kind n = Ok st'" and "ids_ok st" and "kind_utf8 kind"
    and "schema \<in> {1, 2, 3, 4}" and "first_schema kind \<le> schema"
  shows "\<exists>data. encode_event_data_for_schema kind schema = Ok data
    \<and> (length (ed_payload data) < 2 ^ 64 \<longrightarrow> decode_event_data data = Ok (in_schema schema kind))"
  using encode_decode_schema [OF apply_event_kind_ok [OF assms(1-3)] assms(4,5)] by blast

theorem events_round_trip_witness:
  "\<exists>data. encode_event_data_for_schema (TaskFailed (Ident 1) ''late'') 2 = Ok data
    \<and> (length (ed_payload data) < 2 ^ 64 \<longrightarrow> decode_event_data data = Ok (TaskFailed (Ident 1) ''late''))"
proof -
  have "is_ok (apply_event (rt_state operated) (TaskFailed (Ident 1) ''late'') 2)" "utf8_valid ''late''" by code_simp+
  moreover have "ids_ok (rt_state operated)"
  proof (rule operated_team)
    fix d assume "durable d" "du_runtime d = operated"
    then show ?thesis using durable_invariant [of d] reachable_ids_ok [of operated] by (simp add: durable_inv_def)
  qed
  ultimately show ?thesis
    using events_round_trip [of "rt_state operated" "TaskFailed (Ident 1) ''late''" 2 _ 2] by (auto simp: is_ok_iff)
qed

text \<open>C2 (refinement).  However a durable runtime came about, as long as
  no write of it failed, opening its file gives exactly its state, log and identifiers back, under
  the new process's limit and authority.\<close>

theorem published_state_survives:
  assumes "durable d" and "\<not> fl_poisoned (du_ledger d)" and "rt_max_active (du_runtime d) \<le> m" and "c < u64_max"
  shows "restart d m c = Ok (\<lparr>du_runtime = (du_runtime d)\<lparr>rt_max_active := m, rt_authority := c\<rparr>,
      du_ledger = du_ledger d, du_tail = 0\<rparr>, c + 1)"
  using durable_invariant [OF assms(1)] assms(2-) by (simp add: durable_inv_def restart_ok)

theorem published_state_survives_witness:
  "\<exists>d. du_runtime d = operated
    \<and> (\<exists>d'. restart d 3 9 = Ok (d', 10) \<and> rt_event_log (du_runtime d') = rt_event_log operated)"
proof (rule operated_team)
  fix d
  assume d: "durable d" "du_runtime d = operated" "\<not> fl_poisoned (du_ledger d)"
  have "rt_max_active operated = 2" by code_simp
  with published_state_survives [OF d(1,3) _ authority_nine, of 3] d(2) show ?thesis by auto
qed

text \<open>C3 (safety).  Whatever happens to the write of a dispatched command, a
  restart succeeds and finds the published runtime; only when the caller was told that durability
  is ambiguous may it find the command's whole effect instead, never a part of it.\<close>

theorem dispatch_is_atomic:
  assumes "durable d" and "\<not> fl_poisoned (du_ledger d)" and "command_utf8 cmd"
    and "durable_dispatch outcome d cmd = (r, d')" and "rt_max_active (du_runtime d) \<le> m" and "c < u64_max"
  shows "\<exists>d'' rt. restart d' m c = Ok (d'', c + 1) \<and> du_runtime d'' = rt\<lparr>rt_max_active := m, rt_authority := c\<rparr>
    \<and> (rt = du_runtime d'
       \<or> ((\<exists>e. r = Err (DurableLedger (DurabilityAmbiguous e))) \<and> du_runtime d' = du_runtime d
          \<and> (\<exists>commit. dispatch (du_runtime d) cmd = Ok (rt, commit))))"
proof -
  have ok: "durable_ok d" using durable_invariant [OF assms(1)] assms(2) by (simp add: durable_inv_def)
  then have reach: "reachable (du_runtime d)" by (simp add: durable_ok_def)
  from assms(4) show ?thesis
  proof (cases rule: dispatch_commits)
    case (planned p)
    note commits = committable_prepared(1) [OF reach planned(1) assms(3)]
    have "dispatch (du_runtime d) cmd = Ok (publish (du_runtime d) p Volatile)"
      using planned(1) by (simp add: dispatch_def)
    moreover have "du_runtime d' = du_runtime d" if "r = Err e" for e
      using planned(2) that by (auto simp: commit_prepared_def split: prod.splits result.splits)
    moreover obtain d'' rt where "restart d' m c = Ok (d'', c + 1)"
      "du_runtime d'' = rt\<lparr>rt_max_active := m, rt_authority := c\<rparr>"
      "rt = du_runtime d' \<or> (\<exists>e. r = Err (DurableLedger (DurabilityAmbiguous e)))"
      "rt = du_runtime d \<or> rt = publish_events (du_runtime d) (fst p)"
      by (rule commit_restart [OF ok commits planned(2) assms(5,6)])
    ultimately show ?thesis unfolding publish_def by auto
  qed (use restart_ok [OF ok assms(5,6)] in auto)
qed

theorem dispatch_is_atomic_witness:
  "\<exists>d d''. durable_dispatch (FailedAfter 9 NotFound) new_team admit
      = (Err (DurableLedger (DurabilityAmbiguous NotFound)), d) \<and> restart d 3 9 = Ok (d'', 10)"
proof -
  obtain d where "durable_dispatch (FailedAfter 9 NotFound) new_team admit
      = (Err (DurableLedger (DurabilityAmbiguous NotFound)), d)" using admit_fails by blast
  with dispatch_is_atomic [OF new_team_durable new_team_limit(2) admit_utf8 this new_team_limit(1) authority_nine]
  show ?thesis by auto
qed

text \<open>A dispatch whose write succeeds does to the
  runtime what the volatile dispatch does, with a receipt for exactly its transaction; the two
  refuse the same commands with the same error, and the only other refusals are the ledger's,
  which change nothing.\<close>

theorem durable_dispatch_is_dispatch:
  assumes "durable d" and "\<not> fl_poisoned (du_ledger d)" and "command_utf8 cmd"
    and "durable_dispatch Synced d cmd = (r, d')"
  shows "case r of
      Ok commit \<Rightarrow> \<exists>receipt. tc_durability commit = Synchronous receipt
        \<and> dispatch (du_runtime d) cmd = Ok (du_runtime d', commit\<lparr>tc_durability := Volatile\<rparr>)
        \<and> tdr_transaction receipt = tc_transaction commit
        \<and> tdr_first_sequence receipt = te_sequence (hd (tc_events commit))
        \<and> tdr_last_sequence receipt = te_sequence (last (tc_events commit))
    | Err (DurableTeam e) \<Rightarrow> d' = d \<and> dispatch (du_runtime d) cmd = Err e
    | Err (DurableLedger e) \<Rightarrow> d' = d \<and> is_ok (dispatch (du_runtime d) cmd)
    | _ \<Rightarrow> False"
proof -
  have ok: "durable_ok d" using durable_invariant [OF assms(1)] assms(2) by (simp add: durable_inv_def)
  then have reach: "reachable (du_runtime d)" by (simp add: durable_ok_def)
  from assms(4) show ?thesis
  proof (cases rule: dispatch_commits)
    case (planned p)
    note commits = committable_prepared(1) [OF reach planned(1) assms(3)]
    have volatile: "dispatch (du_runtime d) cmd = Ok (publish (du_runtime d) p Volatile)"
      using planned(1) by (simp add: dispatch_def)
    from commits have "prepared_for (du_runtime d) (fst p)" "list_all kind_ok (map te_kind (pe_events (fst p)))"
      "reachable (publish_events (du_runtime d) (fst p))" by (auto simp: committable_def)
    then show ?thesis
    proof (cases rule: commit_outcomes [OF ok _ _ _ planned(2), consumes 3, case_names published refused ambiguous])
      case (published receipt)
      then show ?thesis using volatile by (simp add: publish_def)
    next
      case (refused e)
      then show ?thesis using volatile by simp
    qed simp
  next
    case endless
    then show ?thesis using prepare_returns reachable_ok [OF reach] by (simp add: runtime_ok_def)
  qed (simp add: dispatch_def)
qed

theorem durable_dispatch_is_dispatch_witness:
  "\<exists>commit d. durable_dispatch Synced new_team admit = (Ok commit, d)
    \<and> dispatch demo_start admit = Ok (du_runtime d, commit\<lparr>tc_durability := Volatile\<rparr>)"
proof -
  obtain commit d where "durable_dispatch Synced new_team admit = (Ok commit, d)" using admit_synced by blast
  with durable_dispatch_is_dispatch [OF new_team_durable new_team_limit(2) admit_utf8 this]
  show ?thesis by (auto simp: new_team_def)
qed

section \<open>The journal\<close>

lemma durable_records:
  assumes "durable d"
  obtains records where "operation_records (du_runtime d) = Some records" "distinct (map op_operation records)"
    "\<And>op. op \<in> set (map op_operation records) \<longleftrightarrow> bt_contains_key (operations (rt_state (du_runtime d))) op"
    "\<And>r. r \<in> set records \<Longrightarrow> record_true (du_runtime d) r"
proof -
  have inv: "durable_inv d" by (rule durable_invariant [OF assms])
  show thesis
  proof (rule operation_records_total)
    show "reachable (du_runtime d)" "length (rt_event_log (du_runtime d)) < 2 ^ 63"
      using inv by (simp_all add: durable_inv_def)
    then show "numbered (rt_event_log (du_runtime d))" using reachable_follows by (simp add: follows_def)
  qed (rule that)
qed

text \<open>An acknowledgement stays.\<close>

definition acknowledged_in :: "team_state \<Rightarrow> operation_id \<Rightarrow> bool" where
  "acknowledged_in st op \<longleftrightarrow> (\<exists>r. bt_get (operations st) op = Some r \<and> or_acknowledgement r \<noteq> None)"

lemma apply_event_acknowledged:
  assumes "apply_event st k n = Ok st'"
  shows "acknowledged_in st op \<Longrightarrow> acknowledged_in st' op"
    and "k = OperationAcknowledged op tx ack \<Longrightarrow> acknowledged_in st' op"
  using assms
  by (cases k; auto simp: acknowledged_in_def quiet_apply_defs apply_task_created_def apply_agent_created_def
      result_ok put_task_def put_agent_def bt_get_insert bt_contains_key_def
      split: if_splits elim!: check_agent_parent_cases)+

lemma apply_all_acknowledged:
  "apply_all st ks n = Ok st' \<Longrightarrow> acknowledged_in st op \<Longrightarrow> acknowledged_in st' op"
  by (induction ks arbitrary: st) (auto simp: apply_all_def result_ok dest: apply_event_acknowledged(1))

lemma prepared_acknowledgement:
  assumes "prepare_operation_acknowledgement rt op = Ok p"
  shows "acknowledged_in (pe_candidate p) op"
proof -
  from assms obtain r :: operation_record and tx where prep: "prepare_events rt tx [OperationAcknowledged op (or_transaction r) tx] = Ok p"
    by (auto simp: prepare_operation_acknowledgement_def result_ok)
  show ?thesis
  proof (rule prepare_events_Ok [OF prep])
    fix extra
    assume "apply_all (rt_state rt) ([OperationAcknowledged op (or_transaction r) tx] @ extra) (rt_max_active rt) = Ok (pe_candidate p)"
    then obtain st where st: "apply_event (rt_state rt) (OperationAcknowledged op (or_transaction r) tx) (rt_max_active rt) = Ok st"
      and "apply_all st extra (rt_max_active rt) = Ok (pe_candidate p)"
      by (auto simp: apply_all_def result_ok)
    with apply_event_acknowledged(2) [OF st refl] apply_all_acknowledged show ?thesis by blast
  qed simp
qed

text \<open>The record that \<open>acknowledge_operation\<close> looks up.\<close>

lemma find_record:
  assumes "durable d" and "bt_get (operations (rt_state (du_runtime d))) op = Some kept"
  obtains records entry where "operation_records (du_runtime d) = Some records"
    "List.find (\<lambda>r. op_operation r = op) records = Some entry"
    "op_status entry = Acknowledged \<longleftrightarrow> or_acknowledgement kept \<noteq> None"
proof (rule durable_records [OF assms(1)])
  fix records
  assume records: "operation_records (du_runtime d) = Some records"
    and names: "\<And>op. op \<in> set (map op_operation records) \<longleftrightarrow> bt_contains_key (operations (rt_state (du_runtime d))) op"
    and true: "\<And>r. r \<in> set records \<Longrightarrow> record_true (du_runtime d) r"
  have "op \<in> set (map op_operation records)" using assms(2) unfolding names by (simp add: bt_contains_key_def)
  then obtain entry where entry: "List.find (\<lambda>r. op_operation r = op) records = Some entry"
    by (cases "List.find (\<lambda>r. op_operation r = op) records") (auto simp: find_None_iff)
  then have "entry \<in> set records" "op_operation entry = op" by (auto simp: find_Some_iff)
  then show thesis using that [OF records entry] true [of entry] assms(2) by (simp add: record_true_def)
qed

lemma acknowledge_again:
  assumes "durable d" and "acknowledged_in (rt_state (du_runtime d)) op"
  shows "acknowledge_operation outcome d op = (Ok AlreadyAcknowledged, d)"
proof -
  from assms(2) obtain kept where kept: "bt_get (operations (rt_state (du_runtime d))) op = Some kept"
    "or_acknowledgement kept \<noteq> None" by (auto simp: acknowledged_in_def)
  show ?thesis
    by (rule find_record [OF assms(1) kept(1)]) (use kept(2) in \<open>simp add: acknowledge_operation_def\<close>)
qed

text \<open>At every moment the journal of a durable runtime
  can be read, none of its internal expectations fails, and it holds exactly one record for each
  operation ever committed, with the acknowledgement the state has for it.\<close>

theorem operation_journal_is_exact:
  assumes "durable d"
  shows "\<exists>records. operation_records (du_runtime d) = Some records \<and> distinct (map op_operation records)
    \<and> (\<forall>op. op \<in> set (map op_operation records) \<longleftrightarrow> bt_contains_key (operations (rt_state (du_runtime d))) op)
    \<and> (\<forall>r \<in> set records. map_option or_acknowledgement (bt_get (operations (rt_state (du_runtime d))) (op_operation r))
          = Some (op_acknowledgement r))"
proof (rule durable_records [OF assms])
  fix records
  assume "operation_records (du_runtime d) = Some records" "distinct (map op_operation records)"
    "\<And>op. op \<in> set (map op_operation records) \<longleftrightarrow> bt_contains_key (operations (rt_state (du_runtime d))) op"
    "\<And>r. r \<in> set records \<Longrightarrow> record_true (du_runtime d) r"
  then show ?thesis unfolding record_true_def by fastforce
qed

theorem operation_journal_is_exact_witness:
  "\<exists>records. operation_records operated = Some records \<and> distinct (map op_operation records)"
  by (rule operated_team) (use operation_journal_is_exact in fastforce)

text \<open>Once an operation is acknowledged, acknowledging
  it again succeeds, writes nothing and changes nothing, whatever the disk would do.\<close>

theorem acknowledge_is_idempotent:
  assumes "durable d" and "acknowledge_operation outcome d op = (Ok x, d')"
  shows "acknowledge_operation outcome' d' op = (Ok AlreadyAcknowledged, d')"
proof -
  have d': "durable d'" using assms by (rule durable.acknowledged)
  from assms(2) show ?thesis
  proof (cases rule: acknowledge_commits)
    case 1
    have "acknowledged_in (rt_state (du_runtime d)) op"
    proof (rule durable_records [OF assms(1)])
      fix records
      assume records: "operation_records (du_runtime d) = Some records"
        and true: "\<And>r. r \<in> set records \<Longrightarrow> record_true (du_runtime d) r"
      with assms(2) 1 obtain entry where "List.find (\<lambda>r. op_operation r = op) records = Some entry"
        "op_status entry = Acknowledged"
        by (cases x) (auto simp: acknowledge_operation_def dest: commit_result split: option.splits if_splits result.splits)
      then show ?thesis using true [of entry] by (auto simp: find_Some_iff record_true_def acknowledged_in_def)
    qed
    then show ?thesis using acknowledge_again d' 1 by blast
  next
    case (2 p)
    then have "du_runtime d' = publish_events (du_runtime d) p"
      by (auto simp: commit_prepared_def split: prod.splits result.splits)
    then show ?thesis using acknowledge_again [OF d'] prepared_acknowledgement [OF 2(1)] by simp
  qed
qed

theorem acknowledge_is_idempotent_witness:
  "\<exists>d receipt d'. acknowledge_operation Synced d (Ident 1) = (Ok (Durable receipt), d')
    \<and> acknowledge_operation (FailedAfter 3 NotFound) d' (Ident 1) = (Ok AlreadyAcknowledged, d')"
  by (rule operated_team) (use acknowledge_is_idempotent in blast)

end
