(* ===== verification/Rust_Number.thy ===== *)
theory Rust_Number
  imports Rust_Text
begin

text \<open>
  Decimal integers as Rust prints and parses them: \<open>format!("{}")\<close>, \<open>str::parse\<close> for unsigned and
  signed types of a given range, and the splitting of strings at a character.
\<close>

section \<open>Printing\<close>

definition digit_char :: "nat \<Rightarrow> char" where
  "digit_char d = char_of (48 + d)"

fun show_nat :: "nat \<Rightarrow> string" where
  "show_nat n = (if n < 10 then [digit_char n] else show_nat (n div 10) @ [digit_char (n mod 10)])"

declare show_nat.simps [simp del]

definition show_int :: "int \<Rightarrow> string" where
  "show_int v = (if v < 0 then CHR ''-'' # show_nat (nat (- v)) else show_nat (nat v))"

section \<open>Parsing\<close>

definition digit_value :: "char \<Rightarrow> nat option" where
  "digit_value c = (if is_ascii_digit c then Some (of_char c - 48) else None)"

text \<open>The digits after the sign; \<open>bound\<close> is the largest magnitude of the type.\<close>

fun parse_digits :: "nat \<Rightarrow> nat \<Rightarrow> string \<Rightarrow> nat option" where
  "parse_digits bound acc [] = Some acc"
| "parse_digits bound acc (c # s) =
     (case digit_value c of None \<Rightarrow> None
      | Some d \<Rightarrow> if acc * 10 + d \<le> bound then parse_digits bound (acc * 10 + d) s else None)"

definition parse_unsigned :: "nat \<Rightarrow> string \<Rightarrow> nat option" where
  "parse_unsigned bound s =
     (case s of [] \<Rightarrow> None
      | c # ds \<Rightarrow> if c = CHR ''+'' then (if ds = [] then None else parse_digits bound 0 ds) else parse_digits bound 0 s)"

definition parse_i64 :: "string \<Rightarrow> int option" where
  "parse_i64 s =
     (case s of [] \<Rightarrow> None
      | c # ds \<Rightarrow>
          if c = CHR ''+'' then (if ds = [] then None else map_option int (parse_digits (2 ^ 63 - 1) 0 ds))
          else if c = CHR ''-'' then (if ds = [] then None else map_option (\<lambda>n. - int n) (parse_digits (2 ^ 63) 0 ds))
          else map_option int (parse_digits (2 ^ 63 - 1) 0 s))"

definition u64_bound :: nat where "u64_bound = 2 ^ 64 - 1"

section \<open>Splitting\<close>

fun split_on :: "char \<Rightarrow> string \<Rightarrow> string list" where
  "split_on c [] = [[]]"
| "split_on c (a # s) =
     (if a = c then [] # split_on c s
      else case split_on c s of [] \<Rightarrow> [[a]] | p # ps \<Rightarrow> (a # p) # ps)"

fun split_once :: "char \<Rightarrow> string \<Rightarrow> (string \<times> string) option" where
  "split_once c [] = None"
| "split_once c (a # s) = (if a = c then Some ([], s) else map_option (map_prod (Cons a) id) (split_once c s))"

section \<open>Round trips\<close>

lemma digit_char [simp]:
  "d < 10 \<Longrightarrow> is_ascii_digit (digit_char d)" "d < 10 \<Longrightarrow> digit_value (digit_char d) = Some d"
proof -
  assume "d < 10"
  then have "d \<in> {0, 1, 2, 3, 4, 5, 6, 7, 8, 9}" by auto
  then show "is_ascii_digit (digit_char d)" "digit_value (digit_char d) = Some d"
    by (auto simp: digit_char_def is_ascii_digit_def digit_value_def less_eq_char_def)
qed

lemma digits_of_show: "list_all is_ascii_digit (show_nat n)" and show_nonempty [simp]: "show_nat n \<noteq> []"
proof -
  show "list_all is_ascii_digit (show_nat n)"
  proof (induction n rule: less_induct)
    case (less n)
    then show ?case by (subst show_nat.simps) auto
  qed
  show "show_nat n \<noteq> []" by (subst show_nat.simps) simp
qed

lemma parse_digits_append:
  "parse_digits bound acc (s @ t) = Option.bind (parse_digits bound acc s) (\<lambda>acc. parse_digits bound acc t)"
  by (induction bound acc s rule: parse_digits.induct) (auto split: option.splits)

lemma parse_show: "n \<le> bound \<Longrightarrow> parse_digits bound 0 (show_nat n) = Some n"
proof (induction n rule: less_induct)
  case (less n)
  show ?case
  proof (cases "n < 10")
    case True
    then show ?thesis using less.prems by (subst show_nat.simps) simp
  next
    case False
    then have "parse_digits bound 0 (show_nat (n div 10)) = Some (n div 10)"
      using less by auto
    moreover have "n div 10 * 10 + n mod 10 = n" by simp
    ultimately show ?thesis
      using False less.prems by (subst show_nat.simps) (simp add: parse_digits_append)
  qed
qed

lemma digit_not [simp]: "\<not> is_ascii_digit CHR ''+''" "\<not> is_ascii_digit CHR ''-''" "\<not> is_ascii_digit CHR '':''"
  by (simp_all add: is_ascii_digit_def less_eq_char_def)

lemma parse_unsigned_show: "n \<le> bound \<Longrightarrow> parse_unsigned bound (show_nat n) = Some n"
  using parse_show [of n bound] digits_of_show [of n]
  by (auto simp: parse_unsigned_def split: list.splits)

lemma parse_i64_show:
  assumes "- (2 ^ 63) \<le> v" and "v < 2 ^ 63"
  shows "parse_i64 (show_int v) = Some v"
proof (cases "v < 0")
  case True
  then have "nat (- v) \<le> 2 ^ 63" using assms(1) by simp
  with True show ?thesis by (simp add: parse_i64_def show_int_def parse_show)
next
  case False
  then have "parse_digits (2 ^ 63 - 1) 0 (show_nat (nat v)) = Some (nat v)"
    using assms(2) by (intro parse_show) simp
  with False show ?thesis
    using digits_of_show [of "nat v"]
    by (auto simp: parse_i64_def show_int_def split: list.splits)
qed

lemma split_on_join: "c \<notin> set p \<Longrightarrow> split_on c (p @ c # s) = p # split_on c s"
  by (induction p) auto

lemma split_on_none: "c \<notin> set p \<Longrightarrow> split_on c p = [p]"
  by (induction p) auto

lemma colon_not_shown: "CHR '':'' \<notin> set (show_nat n)" "CHR '':'' \<notin> set (show_int v)"
  using digits_of_show [of n] digits_of_show [of "nat v"] digits_of_show [of "nat (- v)"]
  by (auto simp: show_int_def list_all_iff)

end
