(* ===== verification/Usage_Window.thy ===== *)
theory Usage_Window
  imports Rust_Number "HOL-Library.FSet" "HOL-Library.Product_Lexorder"
begin

text \<open>
  Usage windows (\<open>greentyper-core/src/usage.rs\<close>): a range of local minutes on some weekdays in a
  pinned time zone.

  The time-zone database and calendar of the crates \<open>jiff\<close> and \<open>jiff_tzdb\<close> are the parameter \<open>tz_rules\<close>
  of the definitions that use them.
\<close>

section \<open>Errors\<close>

datatype usage_error =
    InvalidWindowId | InvalidLocalTime | EmptyWindow | MissingDays | UnknownTimezone | NonCanonicalTimezone
  | LocalTimezoneUnavailable | MissingRulesetVersion | RulesetVersionMismatch | InvalidTimezoneData
  | ClockBeforeUnixEpoch | TimestampRange | InvalidAttemptIdentity | CompletionBeforeStart | DuplicateWindow
  | DuplicateAttempt | UnknownAttempt | DuplicateCostEvaluation | InvalidPageSize | InvalidCursor | StaleCursor
  | CursorQueryMismatch

type_synonym 'a usage_result = "(usage_error, 'a) result"

definition MAX_USAGE_WINDOW_ID_BYTES :: usize where "MAX_USAGE_WINDOW_ID_BYTES = 64"

section \<open>Calendar\<close>

datatype usage_weekday = Mon | Tue | Wed | Thu | Fri | Sat | Sun

datatype jiff_weekday = Monday | Tuesday | Wednesday | Thursday | Friday | Saturday | Sunday

primrec from_jiff :: "jiff_weekday \<Rightarrow> usage_weekday" where
  "from_jiff Monday = Mon"
| "from_jiff Tuesday = Tue"
| "from_jiff Wednesday = Wed"
| "from_jiff Thursday = Thu"
| "from_jiff Friday = Fri"
| "from_jiff Saturday = Sat"
| "from_jiff Sunday = Sun"

text \<open>A local date and time: hour, minute, the weekday and that of the day before, which does not exist at
  the start of the calendar.\<close>

record civil =
  cv_hour :: nat
  cv_minute :: nat
  cv_weekday :: jiff_weekday
  cv_yesterday :: "jiff_weekday option"

text \<open>\<open>jiff_tzdb::get\<close>, \<open>jiff_tzdb::VERSION\<close>, \<open>TimeZone::tzif\<close>, \<open>Timestamp::from_millisecond\<close> with
  \<open>to_zoned\<close>, and the name of the system's zone.\<close>

record 'z tz_rules =
  tz_get :: "string \<Rightarrow> (string \<times> u8 list) option"
  tz_version :: "string option"
  tz_tzif :: "string \<Rightarrow> u8 list \<Rightarrow> 'z option"
  tz_civil :: "'z \<Rightarrow> int \<Rightarrow> civil option"
  tz_system :: "string option"

datatype usage_timezone_source = Explicit | LocalSystem

datatype usage_window =
  UsageWindow (uw_id: string) (uw_start_minute: u16) (uw_end_minute: u16) (uw_days: "usage_weekday fset")
    (uw_timezone: string) (uw_timezone_source: usage_timezone_source) (uw_ruleset_version: string)

subsection \<open>The derived order\<close>

primrec weekday_rank :: "usage_weekday \<Rightarrow> nat" where
  "weekday_rank Mon = 0"
| "weekday_rank Tue = 1"
| "weekday_rank Wed = 2"
| "weekday_rank Thu = 3"
| "weekday_rank Fri = 4"
| "weekday_rank Sat = 5"
| "weekday_rank Sun = 6"

definition source_rank :: "usage_timezone_source \<Rightarrow> nat" where
  "source_rank s = (if s = Explicit then 0 else 1)"

definition window_key :: "usage_window \<Rightarrow> string \<times> u16 \<times> u16 \<times> nat list \<times> string \<times> nat \<times> string" where
  "window_key w = (uw_id w, uw_start_minute w, uw_end_minute w, sorted_list_of_fset (weekday_rank |`| uw_days w),
     uw_timezone w, source_rank (uw_timezone_source w), uw_ruleset_version w)"

lemma weekday_rank_inj: "inj weekday_rank"
proof (rule injI)
  fix a b assume "weekday_rank a = weekday_rank b"
  then show "a = b" by (cases a; cases b) simp_all
qed

lemma window_key_inj: "window_key a = window_key b \<Longrightarrow> a = b"
proof -
  assume eq: "window_key a = window_key b"
  then have "sorted_list_of_fset (weekday_rank |`| uw_days a) = sorted_list_of_fset (weekday_rank |`| uw_days b)"
    by (simp add: window_key_def)
  then have "weekday_rank |`| uw_days a = weekday_rank |`| uw_days b" by (metis sorted_list_of_fset_simps(2))
  then have "weekday_rank ` fset (uw_days a) = weekday_rank ` fset (uw_days b)" by (metis fimage.rep_eq)
  then have "uw_days a = uw_days b" using inj_image_eq_iff [OF weekday_rank_inj] by (simp add: fset_inject)
  moreover have "uw_timezone_source a = uw_timezone_source b"
    using eq by (cases "uw_timezone_source a"; cases "uw_timezone_source b") (simp_all add: window_key_def source_rank_def)
  ultimately show ?thesis using eq by (cases a; cases b) (simp add: window_key_def)
qed

instantiation usage_window :: linorder
begin

definition less_eq_usage_window :: "usage_window \<Rightarrow> usage_window \<Rightarrow> bool" where
  "less_eq_usage_window a b \<longleftrightarrow> window_key a \<le> window_key b"

definition less_usage_window :: "usage_window \<Rightarrow> usage_window \<Rightarrow> bool" where
  "less_usage_window a b \<longleftrightarrow> window_key a < window_key b"

instance
proof
  fix a b c :: usage_window
  show "a < b \<longleftrightarrow> a \<le> b \<and> \<not> b \<le> a" unfolding less_eq_usage_window_def less_usage_window_def by (rule less_le_not_le)
  show "a \<le> a" unfolding less_eq_usage_window_def by (rule order_refl)
  show "a \<le> b \<Longrightarrow> b \<le> c \<Longrightarrow> a \<le> c" unfolding less_eq_usage_window_def by (rule order_trans)
  show "a \<le> b \<Longrightarrow> b \<le> a \<Longrightarrow> a = b" unfolding less_eq_usage_window_def by (rule window_key_inj) (rule order_antisym)
  show "a \<le> b \<or> b \<le> a" unfolding less_eq_usage_window_def by (rule linear)
qed

end

section \<open>Validation\<close>

definition validate_window_id :: "string \<Rightarrow> unit usage_result" where
  "validate_window_id name =
     (if name = [] \<or> length name > MAX_USAGE_WINDOW_ID_BYTES
         \<or> \<not> list_all (\<lambda>(index, byte). is_ascii_lowercase byte \<or> is_ascii_digit byte \<or> (index > 0 \<and> byte = CHR ''-''))
               (enumerate 0 name)
      then Err InvalidWindowId else Ok ())"

definition parse_local_time :: "string \<Rightarrow> u16 usage_result" where
  "parse_local_time value =
     andthen (ok_or (split_once (CHR '':'') value) InvalidLocalTime) (\<lambda>(hour, minute).
     if length hour \<noteq> 2 \<or> length minute \<noteq> 2 then Err InvalidLocalTime
     else
     andthen (ok_or (parse_unsigned 65535 hour) InvalidLocalTime) (\<lambda>hour.
     andthen (ok_or (parse_unsigned 65535 minute) InvalidLocalTime) (\<lambda>minute.
     if hour > 23 \<or> minute > 59 then Err InvalidLocalTime
     else Ok (of_nat hour * 60 + of_nat minute))))"

definition bundled_timezone :: "'z tz_rules \<Rightarrow> string \<Rightarrow> (string \<times> u8 list) usage_result" where
  "bundled_timezone tz name = ok_or (tz_get tz name) UnknownTimezone"

definition current_ruleset_version :: "'z tz_rules \<Rightarrow> string usage_result" where
  "current_ruleset_version tz = ok_or (tz_version tz) MissingRulesetVersion"

definition resolve_timezone :: "'z tz_rules \<Rightarrow> string \<Rightarrow> (string \<times> usage_timezone_source) usage_result" where
  "resolve_timezone tz value =
     (if value = ''local''
      then andthen (ok_or (tz_system tz) LocalTimezoneUnavailable) (\<lambda>name.
        map_ok (\<lambda>(canonical, _). (canonical, LocalSystem)) (bundled_timezone tz name))
      else map_ok (\<lambda>(canonical, _). (canonical, Explicit)) (bundled_timezone tz value))"

section \<open>Windows\<close>

definition usage_window_resolve ::
  "'z tz_rules \<Rightarrow> string \<Rightarrow> string \<Rightarrow> string \<Rightarrow> usage_weekday list \<Rightarrow> string \<Rightarrow> usage_window usage_result" where
  "usage_window_resolve tz name start_time end_time days timezone =
     andthen (validate_window_id name) (\<lambda>_.
     andthen (parse_local_time start_time) (\<lambda>start_minute.
     andthen (parse_local_time end_time) (\<lambda>end_minute.
     if start_minute = end_minute then Err EmptyWindow
     else
     let days = fset_of_list days in
     if days = {||} then Err MissingDays
     else
     andthen (resolve_timezone tz timezone) (\<lambda>(timezone, timezone_source).
     andthen (current_ruleset_version tz) (\<lambda>ruleset_version.
     Ok (UsageWindow name start_minute end_minute days timezone timezone_source ruleset_version))))))"

definition from_resolved_parts ::
  "'z tz_rules \<Rightarrow> string \<Rightarrow> u16 \<Rightarrow> u16 \<Rightarrow> usage_weekday fset \<Rightarrow> string \<Rightarrow> usage_timezone_source \<Rightarrow> string
     \<Rightarrow> usage_window usage_result" where
  "from_resolved_parts tz name start_minute end_minute days timezone timezone_source ruleset_version =
     andthen (validate_window_id name) (\<lambda>_.
     if start_minute \<ge> 24 * 60 \<or> end_minute \<ge> 24 * 60 then Err InvalidLocalTime
     else if start_minute = end_minute then Err EmptyWindow
     else if days = {||} then Err MissingDays
     else
     andthen (bundled_timezone tz timezone) (\<lambda>(canonical, _).
     if canonical \<noteq> timezone then Err NonCanonicalTimezone
     else if ruleset_version = [] then Err MissingRulesetVersion
     else Ok (UsageWindow name start_minute end_minute days timezone timezone_source ruleset_version)))"

definition require_current_ruleset :: "'z tz_rules \<Rightarrow> usage_window \<Rightarrow> unit usage_result" where
  "require_current_ruleset tz w =
     andthen (current_ruleset_version tz) (\<lambda>version.
     if uw_ruleset_version w = version then Ok () else Err RulesetVersionMismatch)"

definition window_contains :: "'z tz_rules \<Rightarrow> usage_window \<Rightarrow> int \<Rightarrow> bool usage_result" where
  "window_contains tz w timestamp =
     andthen (require_current_ruleset tz w) (\<lambda>_.
     andthen (bundled_timezone tz (uw_timezone w)) (\<lambda>(_, data).
     andthen (ok_or (tz_tzif tz (uw_timezone w) data) InvalidTimezoneData) (\<lambda>timezone.
     andthen (ok_or (tz_civil tz timezone timestamp) TimestampRange) (\<lambda>local.
     let minute = of_nat (cv_hour local) * 60 + of_nat (cv_minute local) in
     andthen
       (if uw_start_minute w < uw_end_minute w
        then Ok (minute \<ge> uw_start_minute w \<and> minute < uw_end_minute w, cv_weekday local)
        else if minute \<ge> uw_start_minute w then Ok (True, cv_weekday local)
        else if minute < uw_end_minute w
        then map_ok (Pair True) (ok_or (cv_yesterday local) TimestampRange)
        else Ok (False, cv_weekday local)) (\<lambda>(inside, start_day).
     Ok (inside \<and> from_jiff start_day |\<in>| uw_days w))))))"

end
