(* ===== verification/Pricing.thy ===== *)
theory Pricing
  imports Bytes Rust_Text
begin

text \<open>
  Price Schedules and Cost Estimates (\<open>greentyper-core/src/pricing.rs\<close>), with the usage records and
  dialects of \<open>provider.rs\<close> they read.

  A \<open>UsageTimestamp\<close> is the \<open>i64\<close> it wraps, as an \<open>int\<close>: only comparisons and the two's complement
  bytes of it are used.
\<close>

unbundle bit_operations_syntax

section \<open>Usage records\<close>

datatype provider_dialect = Responses | ChatCompletions | Messages

datatype usage_accuracy = Exact | Estimated

type_synonym usage_timestamp = int

record usage_record =
  ur_input_tokens :: "u64 option"
  ur_cached_input_tokens :: "u64 option"
  ur_cache_write_input_tokens :: "u64 option"
  ur_output_tokens :: "u64 option"
  ur_reasoning_output_tokens :: "u64 option"
  ur_total_tokens :: "u64 option"
  ur_service_tier :: "string option"
  ur_accuracy :: usage_accuracy

definition usage_record_default :: usage_record where
  "usage_record_default =
     \<lparr>ur_input_tokens = None, ur_cached_input_tokens = None, ur_cache_write_input_tokens = None,
      ur_output_tokens = None, ur_reasoning_output_tokens = None, ur_total_tokens = None,
      ur_service_tier = None, ur_accuracy = Exact\<rparr>"

definition usage_record_estimated :: "u32 \<Rightarrow> u32 \<Rightarrow> usage_record" where
  "usage_record_estimated input_tokens output_tokens =
     (let input = ucast input_tokens; output = ucast output_tokens in
      usage_record_default\<lparr>ur_input_tokens := Some input, ur_output_tokens := Some output,
        ur_total_tokens := checked_add input output, ur_accuracy := Estimated\<rparr>)"

section \<open>Price Schedules\<close>

datatype price_schedule_source = Template | TemplateMirror | Manual | ProviderReported

datatype pricing_error =
    InvalidId
  | InvalidVersion
  | InvalidCurrency
  | InvalidProviderProfile
  | InvalidModel
  | InvalidServiceTier
  | InvalidContextRange
  | InvalidEffectiveInterval
  | InvalidSourceReference
  | UntrustedSource
  | TooManySchedules
  | DuplicateSchedule
  | OverlappingSchedules

type_synonym 'a pricing_result = "(pricing_error, 'a) result"

definition MAX_PRICE_SCHEDULES :: usize where "MAX_PRICE_SCHEDULES = 256"
definition MAX_PRICE_ID_BYTES :: usize where "MAX_PRICE_ID_BYTES = 64"
definition MAX_PRICE_TEXT_BYTES :: usize where "MAX_PRICE_TEXT_BYTES = 512"
definition MAX_SERVICE_TIER_BYTES :: usize where "MAX_SERVICE_TIER_BYTES = 64"

record token_rates =
  tk_input :: u64
  tk_cached_input :: u64
  tk_cache_write :: u64
  tk_output :: u64
  tk_reasoning_output :: u64

record price_schedule_definition =
  ps_id :: string
  ps_version :: string
  ps_currency :: string
  ps_provider_profile :: string
  ps_model :: string
  ps_dialect :: "provider_dialect option"
  ps_service_tier :: "string option"
  ps_minimum_context :: u64
  ps_maximum_context :: "u64 option"
  ps_effective_from :: usage_timestamp
  ps_effective_until :: "usage_timestamp option"
  ps_source :: price_schedule_source
  ps_source_ref :: string
  ps_rates :: token_rates

text \<open>The fields of a \<open>PriceSchedule\<close> are those of its definition and the fingerprint.\<close>

record price_schedule = price_schedule_definition +
  ps_fingerprint :: u64

definition valid_id :: "string \<Rightarrow> bool" where
  "valid_id value \<longleftrightarrow> value \<noteq> [] \<and> length value \<le> MAX_PRICE_ID_BYTES
     \<and> list_all (\<lambda>(index, byte). is_ascii_lowercase byte \<or> is_ascii_digit byte \<or> (index > 0 \<and> byte = CHR ''-''))
         (enumerate 0 value)"

definition validate_id :: "string \<Rightarrow> unit pricing_result" where
  "validate_id value = (if \<not> valid_id value then Err InvalidId else Ok ())"

definition validate_provider_profile :: "string \<Rightarrow> unit pricing_result" where
  "validate_provider_profile value = (if valid_id value then Ok () else Err InvalidProviderProfile)"

definition validate_text :: "string \<Rightarrow> pricing_error \<Rightarrow> unit pricing_result" where
  "validate_text value e =
     (if trim value = [] \<or> trim value \<noteq> value \<or> length value > MAX_PRICE_TEXT_BYTES \<or> has_control value
      then Err e else Ok ())"

definition validate_currency :: "string \<Rightarrow> unit pricing_result" where
  "validate_currency value =
     (if length value = 3 \<and> list_all is_ascii_uppercase value then Ok () else Err InvalidCurrency)"

definition validate_service_tier :: "string \<Rightarrow> unit pricing_result" where
  "validate_service_tier value =
     (if trim value = [] \<or> trim value \<noteq> value \<or> length value > MAX_SERVICE_TIER_BYTES \<or> has_control value
      then Err InvalidServiceTier else Ok ())"

subsection \<open>Fingerprint\<close>

definition hash_step :: "u64 \<Rightarrow> u64 \<Rightarrow> u64" where
  "hash_step hash value = (hash XOR value) * 0x100000001b3"

definition hash_bytes :: "u64 \<Rightarrow> u8 list \<Rightarrow> u64" where
  "hash_bytes hash bytes = foldl (\<lambda>hash byte. hash_step hash (ucast byte)) (hash_step hash (of_nat (length bytes))) bytes"

primrec provider_dialect_tag :: "provider_dialect \<Rightarrow> u8" where
  "provider_dialect_tag Responses = 1"
| "provider_dialect_tag ChatCompletions = 2"
| "provider_dialect_tag Messages = 3"

primrec source_tag :: "price_schedule_source \<Rightarrow> u8" where
  "source_tag Template = 1"
| "source_tag Manual = 2"
| "source_tag ProviderReported = 3"
| "source_tag TemplateMirror = 4"

definition text_bytes :: "string \<Rightarrow> u8 list" where
  "text_bytes = map of_char"

definition i64_to_le :: "int \<Rightarrow> u8 list" where
  "i64_to_le v = le_bytes 8 v"

definition optional_bytes :: "('a \<Rightarrow> u8 list) \<Rightarrow> 'a option \<Rightarrow> u8 list list" where
  "optional_bytes f x = (case x of Some v \<Rightarrow> [[1], f v] | None \<Rightarrow> [[0]])"

text \<open>The byte strings that \<open>fingerprint\<close> hashes, in its order.\<close>

definition fingerprint_parts :: "price_schedule_definition \<Rightarrow> u8 list list" where
  "fingerprint_parts d =
     map text_bytes [ps_id d, ps_version d, ps_currency d, ps_provider_profile d, ps_model d]
     @ [[case ps_dialect d of None \<Rightarrow> 0 | Some dialect \<Rightarrow> provider_dialect_tag dialect],
        text_bytes (case ps_service_tier d of None \<Rightarrow> '''' | Some tier \<Rightarrow> tier),
        u64_to_le (ps_minimum_context d)]
     @ optional_bytes u64_to_le (ps_maximum_context d)
     @ [i64_to_le (ps_effective_from d)]
     @ optional_bytes i64_to_le (ps_effective_until d)
     @ [[source_tag (ps_source d)], text_bytes (ps_source_ref d)]
     @ map u64_to_le [tk_input (ps_rates d), tk_cached_input (ps_rates d), tk_cache_write (ps_rates d),
         tk_output (ps_rates d), tk_reasoning_output (ps_rates d)]"

definition fingerprint :: "price_schedule_definition \<Rightarrow> u64" where
  "fingerprint d = foldl hash_bytes 0xcbf29ce484222325 (fingerprint_parts d)"

subsection \<open>Construction\<close>

definition price_schedule_new_trusted :: "price_schedule_definition \<Rightarrow> price_schedule pricing_result" where
  "price_schedule_new_trusted d =
     andthen (validate_id (ps_id d)) (\<lambda>_.
     andthen (validate_text (ps_version d) InvalidVersion) (\<lambda>_.
     andthen (validate_currency (ps_currency d)) (\<lambda>_.
     andthen (validate_provider_profile (ps_provider_profile d)) (\<lambda>_.
     andthen (validate_text (ps_model d) InvalidModel) (\<lambda>_.
     andthen (case ps_service_tier d of None \<Rightarrow> Ok () | Some tier \<Rightarrow> validate_service_tier tier) (\<lambda>_.
     if (case ps_maximum_context d of None \<Rightarrow> False | Some maximum \<Rightarrow> maximum \<le> ps_minimum_context d)
     then Err InvalidContextRange
     else if (case ps_effective_until d of None \<Rightarrow> False | Some until \<Rightarrow> until \<le> ps_effective_from d)
     then Err InvalidEffectiveInterval
     else
     andthen (validate_text (ps_source_ref d) InvalidSourceReference) (\<lambda>_.
     Ok (price_schedule_definition.extend d (price_schedule.fields (fingerprint d))))))))))"

definition price_schedule_new :: "price_schedule_definition \<Rightarrow> price_schedule pricing_result" where
  "price_schedule_new d = (if ps_source d \<noteq> Manual then Err UntrustedSource else price_schedule_new_trusted d)"

section \<open>Applicability\<close>

definition is_none_or :: "'a option \<Rightarrow> ('a \<Rightarrow> bool) \<Rightarrow> bool" where
  "is_none_or x P \<longleftrightarrow> (case x of None \<Rightarrow> True | Some v \<Rightarrow> P v)"

definition matches_base ::
  "price_schedule \<Rightarrow> string \<Rightarrow> string \<Rightarrow> provider_dialect option \<Rightarrow> usage_timestamp \<Rightarrow> bool" where
  "matches_base s provider_profile model dialect started_at \<longleftrightarrow>
     ps_provider_profile s = provider_profile \<and> ps_model s = model
   \<and> is_none_or (ps_dialect s) (\<lambda>expected. Some expected = dialect)
   \<and> started_at \<ge> ps_effective_from s
   \<and> is_none_or (ps_effective_until s) (\<lambda>until. started_at < until)"

definition matches_service_tier :: "price_schedule \<Rightarrow> string option \<Rightarrow> bool" where
  "matches_service_tier s service_tier \<longleftrightarrow> is_none_or (ps_service_tier s) (\<lambda>expected. Some expected = service_tier)"

definition matches_context :: "price_schedule \<Rightarrow> u64 \<Rightarrow> bool" where
  "matches_context s input_tokens \<longleftrightarrow>
     input_tokens \<ge> ps_minimum_context s \<and> is_none_or (ps_maximum_context s) (\<lambda>maximum. input_tokens < maximum)"

definition selectors_overlap :: "'a option \<Rightarrow> 'a option \<Rightarrow> bool" where
  "selectors_overlap left right \<longleftrightarrow> left = None \<or> right = None \<or> left = right"

definition ranges_overlap :: "'a::linorder \<Rightarrow> 'a option \<Rightarrow> 'a \<Rightarrow> 'a option \<Rightarrow> bool" where
  "ranges_overlap left_start left_end right_start right_end \<longleftrightarrow>
     is_none_or left_end (\<lambda>end'. right_start < end') \<and> is_none_or right_end (\<lambda>end'. left_start < end')"

definition overlaps :: "price_schedule \<Rightarrow> price_schedule \<Rightarrow> bool" where
  "overlaps s t \<longleftrightarrow>
     ps_provider_profile s = ps_provider_profile t \<and> ps_model s = ps_model t
   \<and> selectors_overlap (ps_dialect s) (ps_dialect t)
   \<and> selectors_overlap (ps_service_tier s) (ps_service_tier t)
   \<and> ranges_overlap (ps_minimum_context s) (ps_maximum_context s) (ps_minimum_context t) (ps_maximum_context t)
   \<and> ranges_overlap (ps_effective_from s) (ps_effective_until s) (ps_effective_from t) (ps_effective_until t)"

section \<open>Estimates\<close>

record cost_breakdown =
  cb_uncached_input :: u64
  cb_cached_input :: u64
  cb_cache_write :: u64
  cb_visible_output :: u64
  cb_reasoning_output :: u64

fun sum_checked :: "u64 \<Rightarrow> u64 list \<Rightarrow> u64 option" where
  "sum_checked acc [] = Some acc"
| "sum_checked acc (x # xs) = Option.bind (checked_add acc x) (\<lambda>acc. sum_checked acc xs)"

definition checked_total :: "cost_breakdown \<Rightarrow> u64 option" where
  "checked_total b =
     sum_checked 0 [cb_uncached_input b, cb_cached_input b, cb_cache_write b, cb_visible_output b, cb_reasoning_output b]"

record cost_estimate =
  ce_schedule :: price_schedule
  ce_amount :: u64
  ce_breakdown :: cost_breakdown
  ce_usage_accuracy :: usage_accuracy

datatype cost_estimate_unknown_reason =
    MissingUsageRecord
  | NoMatchingSchedule
  | MissingInputTokens
  | MissingCachedInputTokens
  | MissingCacheWriteInputTokens
  | MissingOutputTokens
  | MissingReasoningOutputTokens
  | MissingServiceTier
  | InconsistentInputAccounting
  | InconsistentOutputAccounting
  | ArithmeticOverflow

datatype cost_estimate_outcome = Known cost_estimate | Unknown cost_estimate_unknown_reason

text \<open>\<open>let Some(x) = m else { return Unknown(reason) }\<close>\<close>

definition let_some ::
  "'a option \<Rightarrow> cost_estimate_unknown_reason \<Rightarrow> ('a \<Rightarrow> cost_estimate_outcome) \<Rightarrow> cost_estimate_outcome" where
  "let_some m reason f = (case m of None \<Rightarrow> Unknown reason | Some x \<Rightarrow> f x)"

definition or_zero :: "u64 option \<Rightarrow> bool \<Rightarrow> u64 option" where
  "or_zero m free = (case m of Some value \<Rightarrow> Some value | None \<Rightarrow> if free then Some 0 else None)"

definition price :: "price_schedule \<Rightarrow> usage_record \<Rightarrow> u64 \<Rightarrow> u64 \<Rightarrow> u64 \<Rightarrow> u64 \<Rightarrow> u64 \<Rightarrow> cost_estimate_outcome" where
  "price s usage uncached_input cached_input cache_write visible_output reasoning_output =
     (case (checked_mul uncached_input (tk_input (ps_rates s)),
            checked_mul cached_input (tk_cached_input (ps_rates s)),
            checked_mul cache_write (tk_cache_write (ps_rates s)),
            checked_mul visible_output (tk_output (ps_rates s)),
            checked_mul reasoning_output (tk_reasoning_output (ps_rates s))) of
        (Some a, Some b, Some c, Some d, Some e) \<Rightarrow>
          let breakdown = \<lparr>cb_uncached_input = a, cb_cached_input = b, cb_cache_write = c, cb_visible_output = d,
                cb_reasoning_output = e\<rparr> in
          let_some (checked_total breakdown) ArithmeticOverflow (\<lambda>amount.
          Known \<lparr>ce_schedule = s, ce_amount = amount, ce_breakdown = breakdown, ce_usage_accuracy = ur_accuracy usage\<rparr>)
      | _ \<Rightarrow> Unknown ArithmeticOverflow)"

definition estimate :: "price_schedule \<Rightarrow> usage_record \<Rightarrow> cost_estimate_outcome" where
  "estimate s usage =
     let_some (ur_input_tokens usage) MissingInputTokens (\<lambda>input.
     let_some (ur_cached_input_tokens usage) MissingCachedInputTokens (\<lambda>cached_input.
     let_some (or_zero (ur_cache_write_input_tokens usage) (tk_cache_write (ps_rates s) = 0))
       MissingCacheWriteInputTokens (\<lambda>cache_write.
     let_some (ur_output_tokens usage) MissingOutputTokens (\<lambda>output.
     let_some (or_zero (ur_reasoning_output_tokens usage) (tk_reasoning_output (ps_rates s) = tk_output (ps_rates s)))
       MissingReasoningOutputTokens (\<lambda>reasoning_output.
     let_some (Option.bind (checked_sub input cached_input) (\<lambda>v. checked_sub v cache_write))
       InconsistentInputAccounting (\<lambda>uncached_input.
     let_some (checked_sub output reasoning_output) InconsistentOutputAccounting (\<lambda>visible_output.
     price s usage uncached_input cached_input cache_write visible_output reasoning_output)))))))"

section \<open>The book\<close>

fun adjacent_ids_equal :: "price_schedule list \<Rightarrow> bool" where
  "adjacent_ids_equal (s # t # rest) = (ps_id s = ps_id t \<or> adjacent_ids_equal (t # rest))"
| "adjacent_ids_equal _ = False"

fun any_overlap :: "price_schedule list \<Rightarrow> bool" where
  "any_overlap [] = False"
| "any_overlap (s # rest) = (list_ex (overlaps s) rest \<or> any_overlap rest)"

record price_schedule_book =
  pb_schedules :: "price_schedule list"

definition price_schedule_book_new :: "price_schedule list \<Rightarrow> price_schedule_book pricing_result" where
  "price_schedule_book_new schedules =
     (if length schedules > MAX_PRICE_SCHEDULES then Err TooManySchedules
      else
      let sorted = sort_key ps_id schedules in
      if adjacent_ids_equal sorted then Err DuplicateSchedule
      else if any_overlap sorted then Err OverlappingSchedules
      else Ok \<lparr>pb_schedules = sorted\<rparr>)"

definition estimate_attempt ::
  "price_schedule_book \<Rightarrow> string \<Rightarrow> string \<Rightarrow> provider_dialect option \<Rightarrow> usage_timestamp \<Rightarrow> usage_record
     \<Rightarrow> cost_estimate_outcome" where
  "estimate_attempt book provider_profile model dialect started_at usage =
     (let base = filter (\<lambda>s. matches_base s provider_profile model dialect started_at) (pb_schedules book) in
      if base = [] then Unknown NoMatchingSchedule
      else
      let tiers = filter (\<lambda>s. matches_service_tier s (ur_service_tier usage)) base in
      if tiers = []
      then Unknown (if ur_service_tier usage = None then MissingServiceTier else NoMatchingSchedule)
      else
      let_some (ur_input_tokens usage) MissingInputTokens (\<lambda>input_tokens.
      let_some (List.find (\<lambda>s. matches_context s input_tokens) tiers) NoMatchingSchedule (\<lambda>s.
      estimate s usage)))"

end
