(* ===== verification/Accumulator.thy ===== *)
theory Accumulator
  imports Ordered_Map "HOL-Library.Multiset"
begin

text \<open>
  Running totals.  The locale \<open>accumulator\<close> is the contract of a \<open>merge\<close> operation: on well-formed
  values it is associative and commutative with a neutral element, so that a total does not depend on
  the order in which its parts arrive.  A map of accumulators, merged key by key, is one again.
\<close>

definition total_of :: "('a \<Rightarrow> 'a \<Rightarrow> 'a) \<Rightarrow> 'a \<Rightarrow> 'a list \<Rightarrow> 'a" where
  "total_of merge zero xs = foldr merge xs zero"

lemma total_of_simps [simp]:
  "total_of merge zero [] = zero"
  "total_of merge zero (x # xs) = merge x (total_of merge zero xs)"
  by (simp_all add: total_of_def)

text \<open>\<open>map.entry(k).or_default()\<close>, updated; and the loop that does so for every entry of another map.\<close>

definition bt_entry :: "'k::linorder \<Rightarrow> 'v \<Rightarrow> ('v \<Rightarrow> 'v) \<Rightarrow> ('k, 'v) btree_map \<Rightarrow> ('k, 'v) btree_map" where
  "bt_entry k init f m = bt_insert k (f (case bt_get m k of Some v \<Rightarrow> v | None \<Rightarrow> init)) m"

definition bt_merge ::
  "'v \<Rightarrow> ('v \<Rightarrow> 'v \<Rightarrow> 'v) \<Rightarrow> ('k::linorder, 'v) btree_map \<Rightarrow> ('k, 'v) btree_map \<Rightarrow> ('k, 'v) btree_map" where
  "bt_merge init merge m n = foldl (\<lambda>m (k, v). bt_entry k init (\<lambda>t. merge t v) m) m n"

definition bt_all_ok :: "('v \<Rightarrow> bool) \<Rightarrow> ('k::linorder, 'v) btree_map \<Rightarrow> bool" where
  "bt_all_ok ok m \<longleftrightarrow> bt_ok m \<and> list_all ok (bt_values m)"

fun option_merge :: "('v \<Rightarrow> 'v \<Rightarrow> 'v) \<Rightarrow> 'v option \<Rightarrow> 'v option \<Rightarrow> 'v option" where
  "option_merge merge None b = b"
| "option_merge merge a None = a"
| "option_merge merge (Some a) (Some b) = Some (merge a b)"

lemma option_merge_None [simp]: "option_merge merge a None = a"
  by (cases a) simp_all

lemma bt_all_ok_iff: "bt_all_ok ok m \<longleftrightarrow> bt_ok m \<and> (\<forall>k v. bt_get m k = Some v \<longrightarrow> ok v)"
  by (auto simp: bt_all_ok_def list_all_iff bt_values_iff)

lemma bt_all_ok_Nil [simp]: "bt_all_ok ok []"
  by (simp add: bt_all_ok_iff)

lemma bt_get_entry:
  "bt_get (bt_entry k init f m) k' = (if k' = k then Some (f (case bt_get m k of Some v \<Rightarrow> v | None \<Rightarrow> init)) else bt_get m k')"
  by (simp add: bt_entry_def bt_get_insert)

lemma bt_ok_entry [simp]: "bt_ok m \<Longrightarrow> bt_ok (bt_entry k init f m)"
  by (simp add: bt_entry_def bt_ok_insert)

lemma bt_ok_merge: "bt_ok m \<Longrightarrow> bt_ok (bt_merge init merge m n)"
  unfolding bt_merge_def by (induction n arbitrary: m) auto

section \<open>The contract\<close>

locale accumulator =
  fixes ok :: "'a \<Rightarrow> bool" and zero :: 'a and merge :: "'a \<Rightarrow> 'a \<Rightarrow> 'a"
  assumes zero_ok: "ok zero"
    and merge_ok: "ok a \<Longrightarrow> ok b \<Longrightarrow> ok (merge a b)"
    and merge_assoc: "ok a \<Longrightarrow> ok b \<Longrightarrow> ok c \<Longrightarrow> merge (merge a b) c = merge a (merge b c)"
    and merge_commute: "ok a \<Longrightarrow> ok b \<Longrightarrow> merge a b = merge b a"
    and merge_zero: "ok a \<Longrightarrow> merge a zero = a"
begin

lemma zero_merge: "ok a \<Longrightarrow> merge zero a = a"
  using merge_commute merge_zero zero_ok by metis

lemma merge_left_commute: "ok a \<Longrightarrow> ok b \<Longrightarrow> ok c \<Longrightarrow> merge a (merge b c) = merge b (merge a c)"
  by (metis merge_assoc merge_commute)

lemma total_ok: "list_all ok xs \<Longrightarrow> ok (total_of merge zero xs)"
  by (induction xs) (simp_all add: zero_ok merge_ok)

lemma total_append:
  "list_all ok xs \<Longrightarrow> list_all ok ys \<Longrightarrow>
     total_of merge zero (xs @ ys) = merge (total_of merge zero xs) (total_of merge zero ys)"
  by (induction xs) (simp_all add: zero_merge total_ok merge_assoc)

lemma total_snoc: "list_all ok xs \<Longrightarrow> ok x \<Longrightarrow> total_of merge zero (xs @ [x]) = merge (total_of merge zero xs) x"
  by (simp add: total_append merge_zero)

lemma total_extract:
  "list_all ok (xs @ y # ys) \<Longrightarrow> total_of merge zero (xs @ y # ys) = merge y (total_of merge zero (xs @ ys))"
  by (induction xs) (simp_all add: merge_left_commute total_ok)

lemma total_permuted: "list_all ok xs \<Longrightarrow> mset xs = mset ys \<Longrightarrow> total_of merge zero xs = total_of merge zero ys"
proof (induction xs arbitrary: ys)
  case (Cons x xs)
  then have "x \<in> set ys" by (metis list.set_intros(1) mset_eq_setD)
  then obtain us vs where ys: "ys = us @ x # vs" by (auto simp: in_set_conv_decomp)
  with Cons.prems have rest: "mset xs = mset (us @ vs)" by simp
  have oks: "list_all ok ys" using Cons.prems by (metis list_all_iff mset_eq_setD)
  have "total_of merge zero xs = total_of merge zero (us @ vs)" using Cons.IH Cons.prems(1) rest by simp
  with oks ys show ?case by (simp add: total_extract)
qed simp

lemma foldl_total:
  "ok r \<Longrightarrow> list_all ok xs \<Longrightarrow> foldl merge r xs = merge r (total_of merge zero xs)"
  by (induction xs arbitrary: r) (simp_all add: merge_zero merge_ok merge_assoc total_ok)

subsection \<open>Maps\<close>

lemma option_merge_commute:
  "pred_option ok a \<Longrightarrow> pred_option ok b \<Longrightarrow> option_merge merge a b = option_merge merge b a"
  by (cases a; cases b) (simp_all add: merge_commute)

lemma option_merge_assoc:
  "pred_option ok a \<Longrightarrow> pred_option ok b \<Longrightarrow> pred_option ok c \<Longrightarrow>
     option_merge merge (option_merge merge a b) c = option_merge merge a (option_merge merge b c)"
  by (cases a; cases b; cases c) (simp_all add: merge_assoc)

lemma option_merge_ok: "pred_option ok a \<Longrightarrow> pred_option ok b \<Longrightarrow> pred_option ok (option_merge merge a b)"
  by (cases a; cases b) (simp_all add: merge_ok)

lemma bt_all_ok_get: "bt_all_ok ok m \<Longrightarrow> pred_option ok (bt_get m k)"
  by (cases "bt_get m k") (simp_all add: bt_all_ok_iff)

lemma bt_get_merge:
  assumes "bt_all_ok ok m" and "bt_all_ok ok n"
  shows "bt_get (bt_merge zero merge m n) k = option_merge merge (bt_get m k) (bt_get n k)"
  using assms
proof (induction n arbitrary: m)
  case Nil
  then show ?case by (simp add: bt_merge_def)
next
  case (Cons e n)
  obtain k1 v where e: "e = (k1, v)" by (cases e)
  let ?m = "bt_entry k1 zero (\<lambda>t. merge t v) m"
  have v: "ok v" and n: "bt_all_ok ok n" using Cons.prems(2) e by (auto simp: bt_all_ok_def bt_ok_def bt_values_def)
  have fresh: "bt_get n k1 = None"
    using Cons.prems(2) e by (force simp: bt_all_ok_def bt_ok_def bt_get_def map_of_eq_None_iff)
  have new: "bt_get ?m k1 = option_merge merge (bt_get m k1) (Some v)"
    by (cases "bt_get m k1") (simp_all add: bt_get_entry zero_merge v)
  have "bt_all_ok ok ?m"
    using Cons.prems(1) v by (auto simp: bt_all_ok_iff bt_get_entry zero_ok intro!: merge_ok split: option.splits if_splits)
  then have "bt_get (bt_merge zero merge ?m n) k = option_merge merge (bt_get ?m k) (bt_get n k)"
    using n by (rule Cons.IH)
  moreover have "bt_merge zero merge m (e # n) = bt_merge zero merge ?m n" by (simp add: bt_merge_def e)
  ultimately show ?case
    using new fresh e by (cases "k = k1") (simp_all add: bt_get_def [of "e # n"] bt_get_entry, simp_all add: bt_get_def)
qed

lemma bt_all_ok_merge: "bt_all_ok ok m \<Longrightarrow> bt_all_ok ok n \<Longrightarrow> bt_all_ok ok (bt_merge zero merge m n)"
  using option_merge_ok bt_all_ok_get bt_get_merge unfolding bt_all_ok_iff [of ok "bt_merge zero merge m n"]
  by (metis bt_all_ok_def bt_ok_merge option.pred_inject(2))

lemma keyed: "accumulator (bt_all_ok ok) [] (bt_merge zero merge)"
proof
  fix a b c :: "('k::linorder, 'a) btree_map"
  assume a: "bt_all_ok ok a"
  show "bt_merge zero merge a [] = a" by (simp add: bt_merge_def)
  assume b: "bt_all_ok ok b"
  show ab: "bt_all_ok ok (bt_merge zero merge a b)" using a b by (rule bt_all_ok_merge)
  have ba: "bt_all_ok ok (bt_merge zero merge b a)" using b a by (rule bt_all_ok_merge)
  show "bt_merge zero merge a b = bt_merge zero merge b a"
  proof (rule bt.entries_extensional)
    show "bt_get (bt_merge zero merge a b) k = bt_get (bt_merge zero merge b a) k" for k
      using a b by (simp add: bt_get_merge option_merge_commute bt_all_ok_get)
  qed (use ab ba in \<open>simp_all add: bt_all_ok_def\<close>)
  assume c: "bt_all_ok ok c"
  have bc: "bt_all_ok ok (bt_merge zero merge b c)" using b c by (rule bt_all_ok_merge)
  show "bt_merge zero merge (bt_merge zero merge a b) c = bt_merge zero merge a (bt_merge zero merge b c)"
  proof (rule bt.entries_extensional)
    show "bt_get (bt_merge zero merge (bt_merge zero merge a b) c) k
        = bt_get (bt_merge zero merge a (bt_merge zero merge b c)) k" for k
      using a b c ab bc by (simp add: bt_get_merge option_merge_assoc bt_all_ok_get)
  qed (use bt_all_ok_merge [OF ab c] bt_all_ok_merge [OF a bc] in \<open>simp_all add: bt_all_ok_def\<close>)
qed simp

end

end
