(* ===== verification/Usage_Rollup.thy ===== *)
theory Usage_Rollup
  imports Usage_Window Pricing Accumulator
begin

text \<open>
  Inference attempts and their cached rollups (\<open>greentyper-core/src/usage.rs\<close>): quantities, ratios,
  costs and distributions, each with \<open>observe\<close> for one attempt and \<open>merge\<close> for another rollup.
\<close>

section \<open>Saturating arithmetic and entries\<close>

definition saturating_add :: "u64 \<Rightarrow> u64 \<Rightarrow> u64" where
  "saturating_add a b = (case checked_add a b of Some c \<Rightarrow> c | None \<Rightarrow> u64_max)"

definition saturating_sub :: "u64 \<Rightarrow> u64 \<Rightarrow> u64" where
  "saturating_sub a b = (case checked_sub a b of Some c \<Rightarrow> c | None \<Rightarrow> 0)"

text \<open>\<open>a.zip(b).and_then(|(a, b)| a.checked_add(b))\<close>\<close>

definition add_options :: "u64 option \<Rightarrow> u64 option \<Rightarrow> u64 option" where
  "add_options a b = Option.bind a (\<lambda>a. Option.bind b (\<lambda>b. checked_add a b))"

section \<open>Attempts\<close>

datatype usage_attempt_outcome = Succeeded | Failed | Interrupted

datatype usage_cost_provenance = ProvenanceUnknown | ProvenancePriceSchedule

record usage_attempt =
  ua_attempt :: u32
  ua_thread :: u64
  ua_turn :: u64
  ua_agent :: "u64 option"
  ua_provider_profile :: string
  ua_requested_model :: string
  ua_observed_model :: "string option"
  ua_dialect :: "provider_dialect option"
  ua_requested_context_mode :: "string option"
  ua_requested_reasoning_effort :: "string option"
  ua_observed_reasoning_effort :: "string option"
  ua_requested_service_tier :: "string option"
  ua_observed_service_tier :: "string option"
  ua_started_at :: "usage_timestamp option"
  ua_completed_at :: "usage_timestamp option"
  ua_outcome :: usage_attempt_outcome
  ua_usage :: "usage_record option"
  ua_cost_provenance :: usage_cost_provenance
  ua_cost_estimate :: "cost_estimate option"
  ua_cost_unknown_reason :: "cost_estimate_unknown_reason option"
  ua_named_windows :: "usage_window list"

definition usage_attempt_new ::
  "u32 \<Rightarrow> u64 \<Rightarrow> u64 \<Rightarrow> u64 option \<Rightarrow> string \<Rightarrow> string \<Rightarrow> provider_dialect option \<Rightarrow> usage_timestamp option
     \<Rightarrow> usage_timestamp option \<Rightarrow> usage_attempt_outcome \<Rightarrow> usage_record option \<Rightarrow> usage_window list
     \<Rightarrow> usage_attempt usage_result" where
  "usage_attempt_new attempt thread turn agent provider_profile requested_model dialect started_at completed_at
      outcome usage named_windows =
     (if attempt = 0 \<or> thread = 0 \<or> turn = 0 then Err InvalidAttemptIdentity
      else if (case (started_at, completed_at) of (Some start_time, Some end_time) \<Rightarrow> end_time < start_time | _ \<Rightarrow> False)
      then Err CompletionBeforeStart
      else if \<not> distinct (map uw_id named_windows) then Err DuplicateWindow
      else Ok \<lparr>ua_attempt = attempt, ua_thread = thread, ua_turn = turn, ua_agent = agent,
        ua_provider_profile = provider_profile, ua_requested_model = requested_model, ua_observed_model = None,
        ua_dialect = dialect, ua_requested_context_mode = None, ua_requested_reasoning_effort = None,
        ua_observed_reasoning_effort = None, ua_requested_service_tier = None,
        ua_observed_service_tier = Option.bind usage ur_service_tier, ua_started_at = started_at,
        ua_completed_at = completed_at, ua_outcome = outcome, ua_usage = usage,
        ua_cost_provenance = ProvenanceUnknown, ua_cost_estimate = None, ua_cost_unknown_reason = None,
        ua_named_windows = named_windows\<rparr>)"

definition with_requested_policy ::
  "usage_attempt \<Rightarrow> string option \<Rightarrow> string option \<Rightarrow> string option \<Rightarrow> usage_attempt" where
  "with_requested_policy a context_mode reasoning_effort service_tier =
     a\<lparr>ua_requested_context_mode := context_mode, ua_requested_reasoning_effort := reasoning_effort,
       ua_requested_service_tier := service_tier\<rparr>"

definition attempt_record_cost :: "usage_attempt \<Rightarrow> cost_estimate_outcome \<Rightarrow> usage_attempt usage_result" where
  "attempt_record_cost a outcome =
     (if ua_cost_estimate a \<noteq> None \<or> ua_cost_unknown_reason a \<noteq> None then Err DuplicateCostEvaluation
      else Ok (case outcome of
          Known est \<Rightarrow> a\<lparr>ua_cost_provenance := ProvenancePriceSchedule, ua_cost_estimate := Some est\<rparr>
        | Unknown reason \<Rightarrow> a\<lparr>ua_cost_unknown_reason := Some reason\<rparr>))"

section \<open>Quantities\<close>

record usage_quantity =
  uq_exact :: "u64 option"
  uq_estimated :: "u64 option"
  uq_unknown_records :: u64
  uq_overflowed :: bool

definition usage_quantity_default :: usage_quantity where
  "usage_quantity_default = \<lparr>uq_exact = Some 0, uq_estimated = Some 0, uq_unknown_records = 0, uq_overflowed = False\<rparr>"

definition quantity_observe :: "u64 option \<Rightarrow> usage_accuracy \<Rightarrow> usage_quantity \<Rightarrow> usage_quantity" where
  "quantity_observe value accuracy q =
     (case value of
        None \<Rightarrow> q\<lparr>uq_unknown_records := saturating_add (uq_unknown_records q) 1\<rparr>
      | Some value \<Rightarrow>
         (case accuracy of
            Exact \<Rightarrow>
              let next' = Option.bind (uq_exact q) (\<lambda>current. checked_add current value) in
              q\<lparr>uq_exact := next', uq_overflowed := (uq_overflowed q \<or> next' = None)\<rparr>
          | Estimated \<Rightarrow>
              let next' = Option.bind (uq_estimated q) (\<lambda>current. checked_add current value) in
              q\<lparr>uq_estimated := next', uq_overflowed := (uq_overflowed q \<or> next' = None)\<rparr>))"

definition quantity_merge :: "usage_quantity \<Rightarrow> usage_quantity \<Rightarrow> usage_quantity" where
  "quantity_merge q p =
     (let exact = add_options (uq_exact q) (uq_exact p); estimated = add_options (uq_estimated q) (uq_estimated p) in
      \<lparr>uq_exact = exact, uq_estimated = estimated,
       uq_unknown_records = saturating_add (uq_unknown_records q) (uq_unknown_records p),
       uq_overflowed = (uq_overflowed q \<or> uq_overflowed p \<or> exact = None \<or> estimated = None)\<rparr>)"

section \<open>Ratios\<close>

record usage_ratio =
  rt_exact_numerator :: "u64 option"
  rt_exact_denominator :: "u64 option"
  rt_estimated_numerator :: "u64 option"
  rt_estimated_denominator :: "u64 option"
  rt_unknown_records :: u64
  rt_inconsistent_records :: u64
  rt_overflowed :: bool

definition usage_ratio_default :: usage_ratio where
  "usage_ratio_default = \<lparr>rt_exact_numerator = Some 0, rt_exact_denominator = Some 0, rt_estimated_numerator = Some 0,
     rt_estimated_denominator = Some 0, rt_unknown_records = 0, rt_inconsistent_records = 0, rt_overflowed = False\<rparr>"

definition ratio_observe_inconsistent :: "usage_ratio \<Rightarrow> usage_ratio" where
  "ratio_observe_inconsistent r = r\<lparr>rt_inconsistent_records := saturating_add (rt_inconsistent_records r) 1\<rparr>"

definition ratio_observe_unknown :: "usage_ratio \<Rightarrow> usage_ratio" where
  "ratio_observe_unknown r = r\<lparr>rt_unknown_records := saturating_add (rt_unknown_records r) 1\<rparr>"

definition merge_ratio_pair ::
  "u64 option \<Rightarrow> u64 option \<Rightarrow> u64 option \<Rightarrow> u64 option \<Rightarrow> u64 option \<times> u64 option \<times> bool" where
  "merge_ratio_pair left_numerator left_denominator right_numerator right_denominator =
     (let numerator = add_options left_numerator right_numerator;
          denominator = add_options left_denominator right_denominator in
      if numerator = None \<or> denominator = None then (None, None, True) else (numerator, denominator, False))"

text \<open>The targets of \<open>observe\<close>, chosen by the accuracy: both are extended, or both are lost.\<close>

definition ratio_extend :: "u64 option \<Rightarrow> u64 option \<Rightarrow> u64 \<Rightarrow> u64 \<Rightarrow> u64 option \<times> u64 option \<times> bool" where
  "ratio_extend target_numerator target_denominator numerator denominator =
     (let next_numerator = Option.bind target_numerator (\<lambda>v. checked_add v numerator);
          next_denominator = Option.bind target_denominator (\<lambda>v. checked_add v denominator) in
      if next_numerator = None \<or> next_denominator = None then (None, None, True)
      else (next_numerator, next_denominator, False))"

definition ratio_observe :: "u64 option \<Rightarrow> u64 option \<Rightarrow> usage_accuracy \<Rightarrow> usage_ratio \<Rightarrow> usage_ratio" where
  "ratio_observe numerator denominator accuracy r =
     (case (numerator, denominator) of
        (Some numerator, Some denominator) \<Rightarrow>
          if denominator = 0
          then (if numerator = 0 then ratio_observe_unknown r else ratio_observe_inconsistent r)
          else if numerator > denominator then ratio_observe_inconsistent r
          else
         (case accuracy of
            Exact \<Rightarrow>
             (case ratio_extend (rt_exact_numerator r) (rt_exact_denominator r) numerator denominator of
                (n, d, overflow) \<Rightarrow>
                  r\<lparr>rt_exact_numerator := n, rt_exact_denominator := d, rt_overflowed := (rt_overflowed r \<or> overflow)\<rparr>)
          | Estimated \<Rightarrow>
             (case ratio_extend (rt_estimated_numerator r) (rt_estimated_denominator r) numerator denominator of
                (n, d, overflow) \<Rightarrow>
                  r\<lparr>rt_estimated_numerator := n, rt_estimated_denominator := d, rt_overflowed := (rt_overflowed r \<or> overflow)\<rparr>))
      | _ \<Rightarrow> ratio_observe_unknown r)"

definition ratio_merge :: "usage_ratio \<Rightarrow> usage_ratio \<Rightarrow> usage_ratio" where
  "ratio_merge r s =
     (case merge_ratio_pair (rt_exact_numerator r) (rt_exact_denominator r) (rt_exact_numerator s) (rt_exact_denominator s) of
        (en, ed, exact_overflow) \<Rightarrow>
      case merge_ratio_pair (rt_estimated_numerator r) (rt_estimated_denominator r)
             (rt_estimated_numerator s) (rt_estimated_denominator s) of
        (sn, sd, estimated_overflow) \<Rightarrow>
      \<lparr>rt_exact_numerator = en, rt_exact_denominator = ed, rt_estimated_numerator = sn, rt_estimated_denominator = sd,
       rt_unknown_records = saturating_add (rt_unknown_records r) (rt_unknown_records s),
       rt_inconsistent_records = saturating_add (rt_inconsistent_records r) (rt_inconsistent_records s),
       rt_overflowed = (rt_overflowed r \<or> rt_overflowed s \<or> exact_overflow \<or> estimated_overflow)\<rparr>)"

text \<open>The \<open>u128\<close> product of two \<open>u64\<close> values does not overflow.\<close>

definition ratio_basis_points :: "u64 \<Rightarrow> u64 \<Rightarrow> u16 option" where
  "ratio_basis_points numerator denominator =
     (if denominator = 0 \<or> numerator > denominator then None
      else let basis_points = unat numerator * 10000 div unat denominator in
        if basis_points < 65536 then Some (of_nat basis_points) else None)"

definition exact_basis_points :: "usage_ratio \<Rightarrow> u16 option" where
  "exact_basis_points r =
     Option.bind (rt_exact_numerator r) (\<lambda>n. Option.bind (rt_exact_denominator r) (\<lambda>d. ratio_basis_points n d))"

definition estimated_basis_points :: "usage_ratio \<Rightarrow> u16 option" where
  "estimated_basis_points r =
     Option.bind (rt_estimated_numerator r) (\<lambda>n. Option.bind (rt_estimated_denominator r) (\<lambda>d. ratio_basis_points n d))"

section \<open>Costs and distributions\<close>

definition COST_SCALE_DECIMAL_PLACES :: u8 where "COST_SCALE_DECIMAL_PLACES = 12"

record cost_quantity =
  cq_scale :: u8
  cq_exact :: "u64 option"
  cq_estimated :: "u64 option"
  cq_records :: u64
  cq_overflowed :: bool

definition cost_quantity_default :: cost_quantity where
  "cost_quantity_default = \<lparr>cq_scale = COST_SCALE_DECIMAL_PLACES, cq_exact = Some 0, cq_estimated = Some 0, cq_records = 0,
     cq_overflowed = False\<rparr>"

definition cost_observe :: "u64 \<Rightarrow> usage_accuracy \<Rightarrow> cost_quantity \<Rightarrow> cost_quantity" where
  "cost_observe amount accuracy q =
     (let q = q\<lparr>cq_records := saturating_add (cq_records q) 1\<rparr> in
      case accuracy of
        Exact \<Rightarrow>
          let next' = Option.bind (cq_exact q) (\<lambda>current. checked_add current amount) in
          q\<lparr>cq_exact := next', cq_overflowed := (cq_overflowed q \<or> next' = None)\<rparr>
      | Estimated \<Rightarrow>
          let next' = Option.bind (cq_estimated q) (\<lambda>current. checked_add current amount) in
          q\<lparr>cq_estimated := next', cq_overflowed := (cq_overflowed q \<or> next' = None)\<rparr>)"

definition cost_merge :: "cost_quantity \<Rightarrow> cost_quantity \<Rightarrow> cost_quantity" where
  "cost_merge q p =
     (let exact = add_options (cq_exact q) (cq_exact p); estimated = add_options (cq_estimated q) (cq_estimated p) in
      q\<lparr>cq_exact := exact, cq_estimated := estimated, cq_records := saturating_add (cq_records q) (cq_records p),
        cq_overflowed := (cq_overflowed q \<or> cq_overflowed p \<or> exact = None \<or> estimated = None)\<rparr>)"

record usage_distribution =
  ud_values :: "(string, u64) btree_map"
  ud_unknown :: u64

definition usage_distribution_default :: usage_distribution where
  "usage_distribution_default = \<lparr>ud_values = [], ud_unknown = 0\<rparr>"

definition distribution_observe :: "string option \<Rightarrow> usage_distribution \<Rightarrow> usage_distribution" where
  "distribution_observe value d =
     (case value of
        Some value \<Rightarrow> d\<lparr>ud_values := bt_entry value 0 (\<lambda>count. saturating_add count 1) (ud_values d)\<rparr>
      | None \<Rightarrow> d\<lparr>ud_unknown := saturating_add (ud_unknown d) 1\<rparr>)"

definition distribution_merge :: "usage_distribution \<Rightarrow> usage_distribution \<Rightarrow> usage_distribution" where
  "distribution_merge d e =
     \<lparr>ud_values = foldl (\<lambda>m (value, count). bt_entry value 0 (\<lambda>t. saturating_add t count) m) (ud_values d) (ud_values e),
      ud_unknown = saturating_add (ud_unknown d) (ud_unknown e)\<rparr>"

section \<open>Rollups\<close>

primrec dialect_as_str :: "provider_dialect \<Rightarrow> string" where
  "dialect_as_str Responses = ''responses''"
| "dialect_as_str ChatCompletions = ''chat_completions''"
| "dialect_as_str Messages = ''messages''"

record usage_rollup =
  ro_attempts :: u64
  ro_succeeded :: u64
  ro_failed :: u64
  ro_interrupted :: u64
  ro_usage_records :: u64
  ro_input_tokens :: usage_quantity
  ro_cached_input_tokens :: usage_quantity
  ro_cache_write_input_tokens :: usage_quantity
  ro_cache_read_ratio :: usage_ratio
  ro_cache_write_ratio :: usage_ratio
  ro_output_tokens :: usage_quantity
  ro_reasoning_output_tokens :: usage_quantity
  ro_total_tokens :: usage_quantity
  ro_provider_profiles :: usage_distribution
  ro_requested_models :: usage_distribution
  ro_observed_models :: usage_distribution
  ro_dialects :: usage_distribution
  ro_requested_context_modes :: usage_distribution
  ro_requested_reasoning_efforts :: usage_distribution
  ro_observed_reasoning_efforts :: usage_distribution
  ro_requested_service_tiers :: usage_distribution
  ro_service_tiers :: usage_distribution
  ro_payg_cost_estimates :: "(string, cost_quantity) btree_map"
  ro_cost_unknown_attempts :: u64

definition usage_rollup_default :: usage_rollup where
  "usage_rollup_default =
     \<lparr>ro_attempts = 0, ro_succeeded = 0, ro_failed = 0, ro_interrupted = 0, ro_usage_records = 0,
      ro_input_tokens = usage_quantity_default, ro_cached_input_tokens = usage_quantity_default,
      ro_cache_write_input_tokens = usage_quantity_default, ro_cache_read_ratio = usage_ratio_default,
      ro_cache_write_ratio = usage_ratio_default, ro_output_tokens = usage_quantity_default,
      ro_reasoning_output_tokens = usage_quantity_default, ro_total_tokens = usage_quantity_default,
      ro_provider_profiles = usage_distribution_default, ro_requested_models = usage_distribution_default,
      ro_observed_models = usage_distribution_default, ro_dialects = usage_distribution_default,
      ro_requested_context_modes = usage_distribution_default,
      ro_requested_reasoning_efforts = usage_distribution_default,
      ro_observed_reasoning_efforts = usage_distribution_default,
      ro_requested_service_tiers = usage_distribution_default, ro_service_tiers = usage_distribution_default,
      ro_payg_cost_estimates = [], ro_cost_unknown_attempts = 0\<rparr>"

definition observe_cache_ratios :: "usage_record \<Rightarrow> usage_accuracy \<Rightarrow> usage_ratio \<times> usage_ratio \<Rightarrow> usage_ratio \<times> usage_ratio" where
  "observe_cache_ratios usage accuracy rw =
     (let input = ur_input_tokens usage; cached = ur_cached_input_tokens usage;
          cache_write = ur_cache_write_input_tokens usage in
      if (case (input, cached, cache_write) of
            (Some input, Some cached, Some cache_write) \<Rightarrow>
              (case checked_add cached cache_write of None \<Rightarrow> True | Some both \<Rightarrow> both > input)
          | _ \<Rightarrow> False)
      then map_prod ratio_observe_inconsistent ratio_observe_inconsistent rw
      else map_prod (ratio_observe cached input accuracy) (ratio_observe cache_write input accuracy) rw)"

text \<open>What \<open>observe\<close> does before it looks at the usage record.\<close>

definition observe_identity :: "usage_attempt \<Rightarrow> usage_rollup \<Rightarrow> usage_rollup" where
  "observe_identity a r =
     r\<lparr>ro_attempts := saturating_add (ro_attempts r) 1,
       ro_succeeded := (if ua_outcome a = Succeeded then saturating_add (ro_succeeded r) 1 else ro_succeeded r),
       ro_failed := (if ua_outcome a = Failed then saturating_add (ro_failed r) 1 else ro_failed r),
       ro_interrupted := (if ua_outcome a = Interrupted then saturating_add (ro_interrupted r) 1 else ro_interrupted r),
       ro_provider_profiles := distribution_observe (Some (ua_provider_profile a)) (ro_provider_profiles r),
       ro_requested_models := distribution_observe (Some (ua_requested_model a)) (ro_requested_models r),
       ro_observed_models := distribution_observe (ua_observed_model a) (ro_observed_models r),
       ro_dialects := distribution_observe (map_option dialect_as_str (ua_dialect a)) (ro_dialects r),
       ro_requested_context_modes := distribution_observe (ua_requested_context_mode a) (ro_requested_context_modes r),
       ro_requested_reasoning_efforts :=
         distribution_observe (ua_requested_reasoning_effort a) (ro_requested_reasoning_efforts r),
       ro_observed_reasoning_efforts :=
         distribution_observe (ua_observed_reasoning_effort a) (ro_observed_reasoning_efforts r),
       ro_requested_service_tiers := distribution_observe (ua_requested_service_tier a) (ro_requested_service_tiers r),
       ro_cost_unknown_attempts := saturating_add (ro_cost_unknown_attempts r) 1\<rparr>"

definition observe_no_usage :: "usage_rollup \<Rightarrow> usage_rollup" where
  "observe_no_usage r =
     r\<lparr>ro_cache_read_ratio := ratio_observe None None Exact (ro_cache_read_ratio r),
       ro_cache_write_ratio := ratio_observe None None Exact (ro_cache_write_ratio r),
       ro_input_tokens := quantity_observe None Exact (ro_input_tokens r),
       ro_cached_input_tokens := quantity_observe None Exact (ro_cached_input_tokens r),
       ro_cache_write_input_tokens := quantity_observe None Exact (ro_cache_write_input_tokens r),
       ro_output_tokens := quantity_observe None Exact (ro_output_tokens r),
       ro_reasoning_output_tokens := quantity_observe None Exact (ro_reasoning_output_tokens r),
       ro_total_tokens := quantity_observe None Exact (ro_total_tokens r),
       ro_service_tiers := distribution_observe None (ro_service_tiers r)\<rparr>"

definition observe_usage :: "usage_record \<Rightarrow> usage_rollup \<Rightarrow> usage_rollup" where
  "observe_usage usage r =
     (let accuracy = ur_accuracy usage;
          ratios = observe_cache_ratios usage accuracy (ro_cache_read_ratio r, ro_cache_write_ratio r) in
      r\<lparr>ro_usage_records := saturating_add (ro_usage_records r) 1,
        ro_cache_read_ratio := fst ratios,
        ro_cache_write_ratio := snd ratios,
        ro_input_tokens := quantity_observe (ur_input_tokens usage) accuracy (ro_input_tokens r),
        ro_cached_input_tokens := quantity_observe (ur_cached_input_tokens usage) accuracy (ro_cached_input_tokens r),
        ro_cache_write_input_tokens :=
          quantity_observe (ur_cache_write_input_tokens usage) accuracy (ro_cache_write_input_tokens r),
        ro_output_tokens := quantity_observe (ur_output_tokens usage) accuracy (ro_output_tokens r),
        ro_reasoning_output_tokens :=
          quantity_observe (ur_reasoning_output_tokens usage) accuracy (ro_reasoning_output_tokens r),
        ro_total_tokens := quantity_observe (ur_total_tokens usage) accuracy (ro_total_tokens r),
        ro_service_tiers := distribution_observe (ur_service_tier usage) (ro_service_tiers r)\<rparr>)"

definition rollup_observe :: "usage_attempt \<Rightarrow> usage_rollup \<Rightarrow> usage_rollup" where
  "rollup_observe a r =
     (let r = observe_identity a r in
      case ua_usage a of None \<Rightarrow> observe_no_usage r | Some usage \<Rightarrow> observe_usage usage r)"

definition rollup_observe_cost :: "cost_estimate_outcome \<Rightarrow> usage_rollup \<Rightarrow> usage_rollup" where
  "rollup_observe_cost outcome r =
     (case outcome of
        Known est \<Rightarrow>
          r\<lparr>ro_cost_unknown_attempts := saturating_sub (ro_cost_unknown_attempts r) 1,
            ro_payg_cost_estimates := bt_entry (ps_currency (ce_schedule est)) cost_quantity_default
              (cost_observe (ce_amount est) (ce_usage_accuracy est)) (ro_payg_cost_estimates r)\<rparr>
      | Unknown _ \<Rightarrow> r)"

definition rollup_merge :: "usage_rollup \<Rightarrow> usage_rollup \<Rightarrow> usage_rollup" where
  "rollup_merge r s =
     \<lparr>ro_attempts = saturating_add (ro_attempts r) (ro_attempts s),
      ro_succeeded = saturating_add (ro_succeeded r) (ro_succeeded s),
      ro_failed = saturating_add (ro_failed r) (ro_failed s),
      ro_interrupted = saturating_add (ro_interrupted r) (ro_interrupted s),
      ro_usage_records = saturating_add (ro_usage_records r) (ro_usage_records s),
      ro_input_tokens = quantity_merge (ro_input_tokens r) (ro_input_tokens s),
      ro_cached_input_tokens = quantity_merge (ro_cached_input_tokens r) (ro_cached_input_tokens s),
      ro_cache_write_input_tokens = quantity_merge (ro_cache_write_input_tokens r) (ro_cache_write_input_tokens s),
      ro_cache_read_ratio = ratio_merge (ro_cache_read_ratio r) (ro_cache_read_ratio s),
      ro_cache_write_ratio = ratio_merge (ro_cache_write_ratio r) (ro_cache_write_ratio s),
      ro_output_tokens = quantity_merge (ro_output_tokens r) (ro_output_tokens s),
      ro_reasoning_output_tokens = quantity_merge (ro_reasoning_output_tokens r) (ro_reasoning_output_tokens s),
      ro_total_tokens = quantity_merge (ro_total_tokens r) (ro_total_tokens s),
      ro_provider_profiles = distribution_merge (ro_provider_profiles r) (ro_provider_profiles s),
      ro_requested_models = distribution_merge (ro_requested_models r) (ro_requested_models s),
      ro_observed_models = distribution_merge (ro_observed_models r) (ro_observed_models s),
      ro_dialects = distribution_merge (ro_dialects r) (ro_dialects s),
      ro_requested_context_modes = distribution_merge (ro_requested_context_modes r) (ro_requested_context_modes s),
      ro_requested_reasoning_efforts =
        distribution_merge (ro_requested_reasoning_efforts r) (ro_requested_reasoning_efforts s),
      ro_observed_reasoning_efforts =
        distribution_merge (ro_observed_reasoning_efforts r) (ro_observed_reasoning_efforts s),
      ro_requested_service_tiers = distribution_merge (ro_requested_service_tiers r) (ro_requested_service_tiers s),
      ro_service_tiers = distribution_merge (ro_service_tiers r) (ro_service_tiers s),
      ro_payg_cost_estimates =
        foldl (\<lambda>m (currency, quantity). bt_entry currency cost_quantity_default (\<lambda>q. cost_merge q quantity) m)
          (ro_payg_cost_estimates r) (ro_payg_cost_estimates s),
      ro_cost_unknown_attempts = saturating_add (ro_cost_unknown_attempts r) (ro_cost_unknown_attempts s)\<rparr>"

end
