(* ===== verification/Usage_Projection.thy ===== *)
theory Usage_Projection
  imports Usage_Rollup
begin

text \<open>
  The usage projection and its queries (\<open>greentyper-core/src/usage.rs\<close>): recording attempts and cost
  evaluations into cached rollups per scope, snapshots, reports, and pages with cursors.

  The digest of \<open>sha2\<close> is the parameter \<open>sha256\<close> of the definitions that use it.
\<close>

section \<open>Cursors\<close>

definition MAX_USAGE_PAGE_SIZE :: usize where "MAX_USAGE_PAGE_SIZE = 1000"
definition MAX_USAGE_CURSOR_BYTES :: usize where "MAX_USAGE_CURSOR_BYTES = 160"
definition MILLIS_PER_HOUR :: int where "MILLIS_PER_HOUR = 60 * 60 * 1000"
definition MILLIS_PER_DAY :: int where "MILLIS_PER_DAY = 24 * MILLIS_PER_HOUR"

record usage_revision =
  rv_transaction :: u64
  rv_sequence :: u64

record usage_cursor_state =
  cs_revision :: usage_revision
  cs_as_of :: int
  cs_next_index :: usize

type_synonym usage_cursor = string

text \<open>\<open>{byte:02x}\<close>\<close>

definition hex_digit :: "nat \<Rightarrow> char" where
  "hex_digit d = (if d < 10 then char_of (48 + d) else char_of (87 + d))"

definition hex_byte :: "u8 \<Rightarrow> string" where
  "hex_byte b = [hex_digit (unat b div 16), hex_digit (unat b mod 16)]"

definition cursor_payload :: "usage_revision \<Rightarrow> int \<Rightarrow> usize \<Rightarrow> string" where
  "cursor_payload revision as_of next_index =
     ''v1'' @ CHR '':'' # show_nat (unat (rv_transaction revision)) @ CHR '':'' # show_nat (unat (rv_sequence revision))
       @ CHR '':'' # show_int as_of @ CHR '':'' # show_nat next_index"

definition cursor_checksum :: "(u8 list \<Rightarrow> u8 list) \<Rightarrow> string \<Rightarrow> string" where
  "cursor_checksum sha256 payload = concat (map hex_byte (sha256 (text_bytes payload)))"

definition cursor_encode :: "(u8 list \<Rightarrow> u8 list) \<Rightarrow> usage_revision \<Rightarrow> int \<Rightarrow> usize \<Rightarrow> usage_cursor" where
  "cursor_encode sha256 revision as_of next_index =
     (let payload = cursor_payload revision as_of next_index in
      payload @ CHR '':'' # cursor_checksum sha256 payload)"

definition parse_cursor_part :: "string \<Rightarrow> u64 usage_result" where
  "parse_cursor_part part = map_ok of_nat (ok_or (parse_unsigned u64_bound part) InvalidCursor)"

definition cursor_decode :: "(u8 list \<Rightarrow> u8 list) \<Rightarrow> usage_cursor \<Rightarrow> usage_cursor_state usage_result" where
  "cursor_decode sha256 cursor =
     (if cursor = [] \<or> length cursor > MAX_USAGE_CURSOR_BYTES \<or> \<not> list_all is_ascii cursor then Err InvalidCursor
      else case split_on (CHR '':'') cursor of
        [version, transaction, sequence, as_of, next_index, checksum] \<Rightarrow>
          andthen (parse_cursor_part transaction) (\<lambda>transaction.
          andthen (parse_cursor_part sequence) (\<lambda>sequence.
          andthen (ok_or (parse_i64 as_of) InvalidCursor) (\<lambda>as_of.
          andthen (ok_or (parse_unsigned u64_bound next_index) InvalidCursor) (\<lambda>next_index.
          if version \<noteq> ''v1'' \<or> length checksum \<noteq> 64 then Err InvalidCursor
          else
          let revision = \<lparr>rv_transaction = transaction, rv_sequence = sequence\<rparr>;
              expected = cursor_checksum sha256 (cursor_payload revision as_of next_index) in
          if checksum \<noteq> expected then Err InvalidCursor
          else Ok \<lparr>cs_revision = revision, cs_as_of = as_of, cs_next_index = next_index\<rparr>))))
      | _ \<Rightarrow> Err InvalidCursor)"

definition cursor_from_str :: "(u8 list \<Rightarrow> u8 list) \<Rightarrow> string \<Rightarrow> usage_cursor usage_result" where
  "cursor_from_str sha256 value = map_ok (\<lambda>_. value) (cursor_decode sha256 value)"

record runtime_usage_query =
  qu_page_size :: "usize option"
  qu_cursor :: "usage_cursor option"

definition query_summary_only :: runtime_usage_query where
  "query_summary_only = \<lparr>qu_page_size = None, qu_cursor = None\<rparr>"

definition query_page :: "usize \<Rightarrow> usage_cursor option \<Rightarrow> runtime_usage_query usage_result" where
  "query_page page_size cursor =
     (if page_size = 0 \<or> page_size > MAX_USAGE_PAGE_SIZE then Err InvalidPageSize
      else Ok \<lparr>qu_page_size = Some page_size, qu_cursor = cursor\<rparr>)"

section \<open>The projection\<close>

record usage_projection =
  pj_attempts :: "usage_attempt list"
  pj_total :: usage_rollup
  pj_threads :: "(u64, usage_rollup) btree_map"
  pj_turns :: "(u64, usage_rollup) btree_map"
  pj_agents :: "(u64, usage_rollup) btree_map"
  pj_named_windows :: "(usage_window, usage_rollup) btree_map"
  pj_instants :: "(int, usage_rollup) btree_map"

definition usage_projection_default :: usage_projection where
  "usage_projection_default = \<lparr>pj_attempts = [], pj_total = usage_rollup_default, pj_threads = [], pj_turns = [],
     pj_agents = [], pj_named_windows = [], pj_instants = []\<rparr>"

definition is_attempt :: "u64 \<Rightarrow> u32 \<Rightarrow> usage_attempt \<Rightarrow> bool" where
  "is_attempt turn attempt candidate \<longleftrightarrow> ua_turn candidate = turn \<and> ua_attempt candidate = attempt"

definition projection_attempt :: "usage_projection \<Rightarrow> u64 \<Rightarrow> u32 \<Rightarrow> usage_attempt option" where
  "projection_attempt p turn attempt = List.find (is_attempt turn attempt) (pj_attempts p)"

abbreviation observed :: "usage_attempt \<Rightarrow> 'k::linorder \<Rightarrow> ('k, usage_rollup) btree_map \<Rightarrow> ('k, usage_rollup) btree_map" where
  "observed a k \<equiv> bt_entry k usage_rollup_default (rollup_observe a)"

definition projection_record :: "usage_projection \<Rightarrow> usage_attempt \<Rightarrow> usage_projection usage_result" where
  "projection_record p a =
     (if list_ex (is_attempt (ua_turn a) (ua_attempt a)) (pj_attempts p) then Err DuplicateAttempt
      else Ok (p\<lparr>pj_total := rollup_observe a (pj_total p),
        pj_threads := observed a (ua_thread a) (pj_threads p),
        pj_turns := observed a (ua_turn a) (pj_turns p),
        pj_agents := (case ua_agent a of None \<Rightarrow> pj_agents p | Some agent \<Rightarrow> observed a agent (pj_agents p)),
        pj_named_windows := foldl (\<lambda>m window. observed a window m) (pj_named_windows p) (ua_named_windows a),
        pj_instants := (case ua_started_at a of None \<Rightarrow> pj_instants p
           | Some started_at \<Rightarrow> observed a started_at (pj_instants p)),
        pj_attempts := pj_attempts p @ [a]\<rparr>))"

text \<open>A write through \<open>get_mut(k).ok_or(UnknownAttempt)?\<close>.  An error leaves the writes before it in place,
  so the state is returned with the result.\<close>

type_synonym 's usage_step = "unit usage_result \<times> 's"

definition then_step :: "'s usage_step \<Rightarrow> ('s \<Rightarrow> 's usage_step) \<Rightarrow> 's usage_step" where
  "then_step s f = (case s of (Ok _, st) \<Rightarrow> f st | _ \<Rightarrow> s)"

definition cost_entry ::
  "cost_estimate_outcome \<Rightarrow> 'k::linorder \<Rightarrow> ('k, usage_rollup) btree_map \<Rightarrow> ('k, usage_rollup) btree_map usage_step" where
  "cost_entry outcome k m =
     (case bt_get m k of None \<Rightarrow> (Err UnknownAttempt, m) | Some r \<Rightarrow> (Ok (), bt_insert k (rollup_observe_cost outcome r) m))"

fun cost_entries ::
  "cost_estimate_outcome \<Rightarrow> 'k::linorder list \<Rightarrow> ('k, usage_rollup) btree_map \<Rightarrow> ('k, usage_rollup) btree_map usage_step" where
  "cost_entries outcome [] m = (Ok (), m)"
| "cost_entries outcome (k # ks) m = then_step (cost_entry outcome k m) (cost_entries outcome ks)"

fun find_position :: "('a \<Rightarrow> bool) \<Rightarrow> 'a list \<Rightarrow> nat option" where
  "find_position P [] = None"
| "find_position P (x # xs) = (if P x then Some 0 else map_option Suc (find_position P xs))"

definition projection_record_cost ::
  "usage_projection \<Rightarrow> u64 \<Rightarrow> u32 \<Rightarrow> cost_estimate_outcome \<Rightarrow> usage_projection usage_step" where
  "projection_record_cost p turn attempt outcome =
     (case find_position (is_attempt turn attempt) (pj_attempts p) of
        None \<Rightarrow> (Err UnknownAttempt, p)
      | Some i \<Rightarrow>
         (case attempt_record_cost (pj_attempts p ! i) outcome of
            Err e \<Rightarrow> (Err e, p)
          | Diverges \<Rightarrow> (Diverges, p)
          | Ok a \<Rightarrow>
              then_step (Ok (), p\<lparr>pj_attempts := (pj_attempts p)[i := a], pj_total := rollup_observe_cost outcome (pj_total p)\<rparr>) (\<lambda>p.
              then_step (map_prod id (\<lambda>m. p\<lparr>pj_threads := m\<rparr>) (cost_entry outcome (ua_thread a) (pj_threads p))) (\<lambda>p.
              then_step (map_prod id (\<lambda>m. p\<lparr>pj_turns := m\<rparr>) (cost_entry outcome (ua_turn a) (pj_turns p))) (\<lambda>p.
              then_step (map_prod id (\<lambda>m. p\<lparr>pj_agents := m\<rparr>)
                (case ua_agent a of None \<Rightarrow> (Ok (), pj_agents p) | Some agent \<Rightarrow> cost_entry outcome agent (pj_agents p))) (\<lambda>p.
              then_step (map_prod id (\<lambda>m. p\<lparr>pj_named_windows := m\<rparr>)
                (cost_entries outcome (ua_named_windows a) (pj_named_windows p))) (\<lambda>p.
              map_prod id (\<lambda>m. p\<lparr>pj_instants := m\<rparr>)
                (case ua_started_at a of None \<Rightarrow> (Ok (), pj_instants p)
                 | Some started_at \<Rightarrow> cost_entry outcome started_at (pj_instants p)))))))))"

section \<open>Queries\<close>

record scoped_usage_rollup =
  sc_id :: u64
  sc_usage :: usage_rollup

record named_usage_rollup =
  na_window :: usage_window
  na_usage :: usage_rollup

record rolling_usage_rollups =
  rl_one_hour :: usage_rollup
  rl_one_day :: usage_rollup
  rl_seven_days :: usage_rollup

record runtime_usage_summary =
  su_as_of :: usage_timestamp
  su_total :: usage_rollup
  su_thread :: "scoped_usage_rollup option"
  su_team :: "usage_rollup option"
  su_rolling :: rolling_usage_rollups
  su_named_windows :: "named_usage_rollup list"

record runtime_usage_snapshot =
  ss_as_of :: usage_timestamp
  ss_attempts :: "usage_attempt list"
  ss_thread :: "scoped_usage_rollup option"
  ss_turns :: "scoped_usage_rollup list"
  ss_agents :: "scoped_usage_rollup list"
  ss_team :: "usage_rollup option"
  ss_rolling :: rolling_usage_rollups
  ss_named_windows :: "named_usage_rollup list"

record usage_attempt_page =
  pg_attempts :: "usage_attempt list"
  pg_next_cursor :: "usage_cursor option"

record runtime_usage_report =
  rp_revision :: usage_revision
  rp_summary :: runtime_usage_summary
  rp_page :: "usage_attempt_page option"

definition i64_saturating_sub :: "int \<Rightarrow> int \<Rightarrow> int" where
  "i64_saturating_sub a b = max (- (2 ^ 63)) (min (2 ^ 63 - 1) (a - b))"

definition projection_rolling :: "usage_projection \<Rightarrow> usage_timestamp \<Rightarrow> int \<Rightarrow> usage_rollup" where
  "projection_rolling p as_of duration =
     (let start = i64_saturating_sub as_of duration in
      foldl (\<lambda>all (_, rollup). rollup_merge all rollup) usage_rollup_default
        (filter (\<lambda>(instant, _). start \<le> instant \<and> instant < as_of) (pj_instants p)))"

definition projection_summary :: "usage_projection \<Rightarrow> u64 option \<Rightarrow> usage_timestamp \<Rightarrow> runtime_usage_summary" where
  "projection_summary p thread as_of =
     \<lparr>su_as_of = as_of, su_total = pj_total p,
      su_thread = Option.bind thread (\<lambda>id'. map_option (\<lambda>usage. \<lparr>sc_id = id', sc_usage = usage\<rparr>) (bt_get (pj_threads p) id')),
      su_team = (if pj_agents p \<noteq> [] then Some (pj_total p) else None),
      su_rolling = \<lparr>rl_one_hour = projection_rolling p as_of MILLIS_PER_HOUR,
        rl_one_day = projection_rolling p as_of MILLIS_PER_DAY,
        rl_seven_days = projection_rolling p as_of (7 * MILLIS_PER_DAY)\<rparr>,
      su_named_windows = map (\<lambda>(window, usage). \<lparr>na_window = window, na_usage = usage\<rparr>) (pj_named_windows p)\<rparr>"

definition scoped :: "(u64, usage_rollup) btree_map \<Rightarrow> scoped_usage_rollup list" where
  "scoped values = map (\<lambda>(id', usage). \<lparr>sc_id = id', sc_usage = usage\<rparr>) values"

definition projection_snapshot :: "usage_projection \<Rightarrow> u64 option \<Rightarrow> usage_timestamp \<Rightarrow> runtime_usage_snapshot" where
  "projection_snapshot p thread as_of =
     (let summary = projection_summary p thread as_of in
      \<lparr>ss_as_of = su_as_of summary, ss_attempts = pj_attempts p, ss_thread = su_thread summary,
       ss_turns = scoped (pj_turns p), ss_agents = scoped (pj_agents p), ss_team = su_team summary,
       ss_rolling = su_rolling summary, ss_named_windows = su_named_windows summary\<rparr>)"

definition page_start ::
  "(u8 list \<Rightarrow> u8 list) \<Rightarrow> usage_projection \<Rightarrow> usage_timestamp \<Rightarrow> usage_revision \<Rightarrow> usage_cursor option \<Rightarrow> usize usage_result" where
  "page_start sha256 p as_of revision cursor =
     (case cursor of None \<Rightarrow> Ok 0
      | Some cursor \<Rightarrow>
          andthen (cursor_decode sha256 cursor) (\<lambda>state.
          if cs_revision state \<noteq> revision then Err StaleCursor
          else if cs_as_of state \<noteq> as_of then Err CursorQueryMismatch
          else if cs_next_index state > length (pj_attempts p) then Err InvalidCursor
          else Ok (cs_next_index state)))"

definition projection_report ::
  "(u8 list \<Rightarrow> u8 list) \<Rightarrow> usage_projection \<Rightarrow> u64 option \<Rightarrow> usage_timestamp \<Rightarrow> usage_revision \<Rightarrow> runtime_usage_query
     \<Rightarrow> runtime_usage_report usage_result" where
  "projection_report sha256 p thread as_of revision query =
     (let summary = projection_summary p thread as_of in
      andthen (case qu_page_size query of None \<Rightarrow> Ok None
        | Some page_size \<Rightarrow>
            andthen (page_start sha256 p as_of revision (qu_cursor query)) (\<lambda>start.
            let last_index = min (start + page_size) (length (pj_attempts p)) in
            Ok (Some \<lparr>pg_attempts = take (last_index - start) (drop start (pj_attempts p)),
              pg_next_cursor =
                (if last_index < length (pj_attempts p) then Some (cursor_encode sha256 revision as_of last_index) else None)\<rparr>)))
        (\<lambda>page. Ok \<lparr>rp_revision = revision, rp_summary = summary, rp_page = page\<rparr>))"

end
