(* ===== verification/Usage_Laws.thy ===== *)
theory Usage_Laws
  imports Usage_Projection
begin

text \<open>
  Rollups as running totals.  Every part of a rollup is an \<open>accumulator\<close>, and observing an attempt is
  merging what that attempt alone contributes; so a rollup is the total of the contributions of its attempts,
  in whichever order they were observed or merged.
\<close>

section \<open>Counters\<close>

lemma unat_saturating_add: "unat (saturating_add a b) = min (unat a + unat b) (2 ^ 64 - 1)"
proof (cases "unat a + unat b < 2 ^ 64")
  case True
  then have "checked_add a b = Some (a + b)" by (simp add: checked_add_def)
  with True show ?thesis using checked_add_SomeD [of a b "a + b"] by (simp add: saturating_add_def)
next
  case False
  then show ?thesis by (simp add: saturating_add_def checked_add_def u64_max_def unsigned_minus_1_eq_mask mask_eq_exp_minus_1)
qed

lemma unat_u64_min: "min (unat (a :: u64)) 18446744073709551615 = unat a"
proof -
  have "unat a < 2 ^ 64" by (rule order_less_le_trans [OF unsigned_less]) simp
  then show ?thesis by simp
qed

lemma checked_add_zeros [simp]: "checked_add a 0 = Some a" "checked_add 0 a = Some a"
  using unsigned_less [of a] by (simp_all add: checked_add_def)

interpretation sat: accumulator "\<lambda>_. True" "0 :: u64" saturating_add
  by unfold_locales (simp_all add: word_unat_eq_iff unat_saturating_add unat_u64_min)

lemma add_options_None [simp]: "add_options None b = None" "add_options a None = None"
  by (cases a, simp_all add: add_options_def)+

lemma add_options_Some [simp]: "add_options (Some a) (Some b) = checked_add a b"
  by (simp add: add_options_def)

lemma add_options_bind: "Option.bind x (\<lambda>c. checked_add c v) = add_options x (Some v)"
  by (cases x) simp_all

lemma checked_add_assoc:
  "Option.bind (checked_add a b) (\<lambda>d. checked_add d c) = Option.bind (checked_add b c) (\<lambda>d. checked_add a d)"
  for a b c :: u64
proof (cases "unat a + unat b + unat c < 2 ^ 64")
  case True
  then have "checked_add a b = Some (a + b)" "checked_add b c = Some (b + c)" by (simp_all add: checked_add_def)
  moreover from this have "unat (a + b) = unat a + unat b" "unat (b + c) = unat b + unat c"
    by (simp_all add: checked_add_SomeD)
  ultimately show ?thesis using True by (simp add: checked_add_def add.assoc)
next
  case False
  have "Option.bind (checked_add a b) (\<lambda>d. checked_add d c) = None"
    using False checked_add_SomeD [of a b] by (cases "checked_add a b") (simp_all, simp add: checked_add_def)
  moreover have "Option.bind (checked_add b c) (\<lambda>d. checked_add a d) = None"
    using False checked_add_SomeD [of b c] by (cases "checked_add b c") (simp_all, simp add: checked_add_def)
  ultimately show ?thesis by simp
qed

interpretation opt: accumulator "\<lambda>_. True" "Some (0 :: u64)" add_options
proof
  fix a b c :: "u64 option"
  show "add_options (add_options a b) c = add_options a (add_options b c)"
  proof (cases "a = None \<or> b = None \<or> c = None")
    case True
    then show ?thesis by (auto simp: add_options_def bind_eq_None_conv)
  next
    case False
    then obtain x y z where "a = Some x" "b = Some y" "c = Some z" by auto
    then show ?thesis using checked_add_assoc [of x y z] by (cases "checked_add x y"; cases "checked_add y z") simp_all
  qed
  show "add_options a b = add_options b a" by (cases a; cases b) (simp_all add: checked_add_commute)
  show "add_options a (Some 0) = a" by (cases a) simp_all
qed simp_all

lemma add_options_is_None: "a = None \<or> b = None \<Longrightarrow> add_options a b = None"
  by auto

section \<open>Quantities\<close>

definition quantity_ok :: "usage_quantity \<Rightarrow> bool" where
  "quantity_ok q \<longleftrightarrow> (uq_overflowed q \<longleftrightarrow> uq_exact q = None \<or> uq_estimated q = None)"

text \<open>On well-formed quantities the flag is determined by the totals.\<close>

lemma quantity_merge_ok:
  assumes "quantity_ok q" and "quantity_ok p"
  shows "quantity_merge q p =
    (let exact = add_options (uq_exact q) (uq_exact p); estimated = add_options (uq_estimated q) (uq_estimated p) in
      \<lparr>uq_exact = exact, uq_estimated = estimated,
       uq_unknown_records = saturating_add (uq_unknown_records q) (uq_unknown_records p),
       uq_overflowed = (exact = None \<or> estimated = None)\<rparr>)"
  using assms by (auto simp: quantity_ok_def quantity_merge_def Let_def)

lemma quantity_ok_merge: "quantity_ok a \<Longrightarrow> quantity_ok b \<Longrightarrow> quantity_ok (quantity_merge a b)"
  by (simp add: quantity_merge_ok Let_def) (simp add: quantity_ok_def)

interpretation quantity: accumulator quantity_ok usage_quantity_default quantity_merge
proof
  fix a b c :: usage_quantity
  show "quantity_ok usage_quantity_default" by (simp add: quantity_ok_def usage_quantity_default_def)
  assume a: "quantity_ok a"
  then show "quantity_merge a usage_quantity_default = a"
    by (cases a) (auto simp: quantity_ok_def quantity_merge_def usage_quantity_default_def sat.merge_zero opt.merge_zero)
  assume b: "quantity_ok b"
  from a b show "quantity_ok (quantity_merge a b)" by (rule quantity_ok_merge)
  from a b show "quantity_merge a b = quantity_merge b a"
    by (simp add: quantity_merge_ok Let_def sat.merge_commute [of "uq_unknown_records a"]
        opt.merge_commute [of "uq_exact a"] opt.merge_commute [of "uq_estimated a"])
  assume c: "quantity_ok c"
  have "quantity_merge (quantity_merge a b) c =
    (let exact = add_options (add_options (uq_exact a) (uq_exact b)) (uq_exact c);
         estimated = add_options (add_options (uq_estimated a) (uq_estimated b)) (uq_estimated c) in
      \<lparr>uq_exact = exact, uq_estimated = estimated,
       uq_unknown_records = saturating_add (saturating_add (uq_unknown_records a) (uq_unknown_records b)) (uq_unknown_records c),
       uq_overflowed = (exact = None \<or> estimated = None)\<rparr>)"
    unfolding quantity_merge_ok [OF quantity_ok_merge [OF a b] c] by (simp add: quantity_merge_ok [OF a b] Let_def)
  also have "\<dots> = quantity_merge a (quantity_merge b c)"
    unfolding quantity_merge_ok [OF a quantity_ok_merge [OF b c]]
    by (simp add: quantity_merge_ok [OF b c] Let_def sat.merge_assoc opt.merge_assoc)
  finally show "quantity_merge (quantity_merge a b) c = quantity_merge a (quantity_merge b c)" .
qed

lemma quantity_observe_merge:
  assumes "quantity_ok q"
  shows "quantity_observe v accuracy q = quantity_merge q (quantity_observe v accuracy usage_quantity_default)"
proof (cases v)
  case None
  with assms show ?thesis
    by (cases q) (auto simp: quantity_observe_def quantity_merge_def quantity_ok_def usage_quantity_default_def
        sat.merge_zero sat.zero_merge opt.merge_zero)
next
  case (Some x)
  with assms show ?thesis
    by (cases q; cases accuracy) (auto simp: quantity_observe_def quantity_merge_def quantity_ok_def
        usage_quantity_default_def sat.merge_zero opt.merge_zero add_options_bind Let_def)
qed

lemma quantity_observe_ok: "quantity_ok q \<Longrightarrow> quantity_ok (quantity_observe v accuracy q)"
  by (cases v; cases accuracy) (auto simp: quantity_observe_def quantity_ok_def Let_def)

section \<open>Ratios\<close>

definition ratio_ok :: "usage_ratio \<Rightarrow> bool" where
  "ratio_ok r \<longleftrightarrow> (rt_exact_numerator r = None \<longleftrightarrow> rt_exact_denominator r = None)
     \<and> (rt_estimated_numerator r = None \<longleftrightarrow> rt_estimated_denominator r = None)
     \<and> (rt_overflowed r \<longleftrightarrow> rt_exact_numerator r = None \<or> rt_estimated_numerator r = None)"

text \<open>A pair of totals is lost as a whole when either of them overflows.  A well-formed ratio is two such
  pairs and two counters.\<close>

definition pair_of :: "'a option \<Rightarrow> 'b option \<Rightarrow> ('a \<times> 'b) option" where
  "pair_of a b = Option.bind a (\<lambda>x. map_option (Pair x) b)"

lemma pair_of_simps [simp]: "pair_of None b = None" "pair_of a None = None" "pair_of (Some x) (Some y) = Some (x, y)"
  by (cases a, simp_all add: pair_of_def)+

definition pair_add :: "(u64 \<times> u64) option \<Rightarrow> (u64 \<times> u64) option \<Rightarrow> (u64 \<times> u64) option" where
  "pair_add p q = pair_of (add_options (map_option fst p) (map_option fst q)) (add_options (map_option snd p) (map_option snd q))"

lemma pair_of_add_left:
  "pair_of (add_options (map_option fst (pair_of x y)) c) (add_options (map_option snd (pair_of x y)) d)
     = pair_of (add_options x c) (add_options y d)"
  by (cases x; cases y) simp_all

lemma pair_of_add_right:
  "pair_of (add_options c (map_option fst (pair_of x y))) (add_options d (map_option snd (pair_of x y)))
     = pair_of (add_options c x) (add_options d y)"
  by (cases x; cases y) simp_all

interpretation pair: accumulator "\<lambda>_. True" "Some (0, 0)" pair_add
proof
  fix a b c :: "(u64 \<times> u64) option"
  show "pair_add (pair_add a b) c = pair_add a (pair_add b c)"
    unfolding pair_add_def pair_of_add_left pair_of_add_right by (simp add: opt.merge_assoc)
  show "pair_add a b = pair_add b a"
    by (simp add: pair_add_def opt.merge_commute [of "map_option _ a"])
  show "pair_add a (Some (0, 0)) = a" by (cases a) (auto simp: pair_add_def opt.merge_zero)
qed simp_all

definition ratio_of :: "(u64 \<times> u64) option \<Rightarrow> (u64 \<times> u64) option \<Rightarrow> u64 \<Rightarrow> u64 \<Rightarrow> usage_ratio" where
  "ratio_of p q unknown inconsistent =
     \<lparr>rt_exact_numerator = map_option fst p, rt_exact_denominator = map_option snd p,
      rt_estimated_numerator = map_option fst q, rt_estimated_denominator = map_option snd q,
      rt_unknown_records = unknown, rt_inconsistent_records = inconsistent, rt_overflowed = (p = None \<or> q = None)\<rparr>"

lemma ratio_ok_of [simp]: "ratio_ok (ratio_of p q u i)"
  by (simp add: ratio_ok_def ratio_of_def)

lemma ratio_ok_cases:
  assumes "ratio_ok r"
  obtains p q u i where "r = ratio_of p q u i"
proof
  show "r = ratio_of (pair_of (rt_exact_numerator r) (rt_exact_denominator r))
      (pair_of (rt_estimated_numerator r) (rt_estimated_denominator r)) (rt_unknown_records r) (rt_inconsistent_records r)"
    using assms
    by (cases r; cases "rt_exact_numerator r"; cases "rt_exact_denominator r"; cases "rt_estimated_numerator r";
        cases "rt_estimated_denominator r") (simp_all add: ratio_ok_def ratio_of_def)
qed

lemma merge_ratio_pair_of:
  "merge_ratio_pair (map_option fst p) (map_option snd p) (map_option fst q) (map_option snd q) =
     (map_option fst (pair_add p q), map_option snd (pair_add p q), pair_add p q = None)"
  by (cases "add_options (map_option fst p) (map_option fst q)"; cases "add_options (map_option snd p) (map_option snd q)")
     (simp_all add: merge_ratio_pair_def pair_add_def)

lemma ratio_merge_of:
  "ratio_merge (ratio_of p q u i) (ratio_of p' q' u' i') =
     ratio_of (pair_add p p') (pair_add q q') (saturating_add u u') (saturating_add i i')"
proof -
  have "pair_add None x = None" "pair_add x None = None" for x by (simp_all add: pair_add_def)
  then show ?thesis
    by (auto simp: ratio_merge_def ratio_of_def [of p] ratio_of_def [of p'] merge_ratio_pair_of, auto simp: ratio_of_def)
qed

lemma ratio_default_of: "usage_ratio_default = ratio_of (Some (0, 0)) (Some (0, 0)) 0 0"
  by (simp add: usage_ratio_default_def ratio_of_def)

interpretation ratio: accumulator ratio_ok usage_ratio_default ratio_merge
proof
  fix a b c :: usage_ratio
  show "ratio_ok usage_ratio_default" by (simp add: ratio_default_of)
  assume a: "ratio_ok a"
  then show "ratio_merge a usage_ratio_default = a"
    by (elim ratio_ok_cases) (simp add: ratio_merge_of ratio_default_of pair.merge_zero sat.merge_zero)
  assume b: "ratio_ok b"
  from a b show "ratio_ok (ratio_merge a b)" by (elim ratio_ok_cases) (simp add: ratio_merge_of)
  show "ratio_merge a b = ratio_merge b a"
  proof -
    obtain p q u i where ra: "a = ratio_of p q u i" using a by (rule ratio_ok_cases)
    obtain p' q' u' i' where rb: "b = ratio_of p' q' u' i'" using b by (rule ratio_ok_cases)
    show ?thesis unfolding ra rb ratio_merge_of
      by (simp add: pair.merge_commute [of p] pair.merge_commute [of q] sat.merge_commute [of u] sat.merge_commute [of i])
  qed
  assume c: "ratio_ok c"
  from a b c show "ratio_merge (ratio_merge a b) c = ratio_merge a (ratio_merge b c)"
    by (elim ratio_ok_cases) (simp add: ratio_merge_of pair.merge_assoc sat.merge_assoc)
qed

lemma ratio_extend_of:
  "ratio_extend (map_option fst p) (map_option snd p) n d =
     (map_option fst (pair_add p (Some (n, d))), map_option snd (pair_add p (Some (n, d))), pair_add p (Some (n, d)) = None)"
  using merge_ratio_pair_of [of p "Some (n, d)"] by (simp add: ratio_extend_def merge_ratio_pair_def add_options_bind)

lemma ratio_observe_of:
  "ratio_observe n d accuracy (ratio_of p q u i) =
     (let v = (case (n, d) of (Some n, Some d) \<Rightarrow>
          if d = 0 then (if n = 0 then (None, 1, 0) else (None, 0, 1)) else if n > d then (None, 0, 1) else (Some (n, d), 0, 0)
        | _ \<Rightarrow> (None, 1, 0)) in
      ratio_of (case fst v of Some x \<Rightarrow> if accuracy = Exact then pair_add p (Some x) else p | None \<Rightarrow> p)
        (case fst v of Some x \<Rightarrow> if accuracy = Estimated then pair_add q (Some x) else q | None \<Rightarrow> q)
        (saturating_add u (fst (snd v))) (saturating_add i (snd (snd v))))"
  by (cases n; cases d; cases accuracy)
     (auto simp: ratio_observe_def ratio_observe_unknown_def ratio_observe_inconsistent_def ratio_of_def ratio_extend_of
        sat.merge_zero, auto simp: pair_add_def)

lemma ratio_observe_ok: "ratio_ok r \<Longrightarrow> ratio_ok (ratio_observe n d accuracy r)"
  by (elim ratio_ok_cases) (simp add: ratio_observe_of Let_def)

lemma ratio_observe_merge:
  assumes "ratio_ok r"
  shows "ratio_observe n d accuracy r = ratio_merge r (ratio_observe n d accuracy usage_ratio_default)"
proof -
  obtain p q u i where r: "r = ratio_of p q u i" using assms by (rule ratio_ok_cases)
  show ?thesis unfolding r ratio_default_of ratio_observe_of Let_def ratio_merge_of
    by (cases accuracy) (auto simp: sat.zero_merge pair.zero_merge pair.merge_zero split: option.split)
qed

section \<open>Costs\<close>

definition cost_of :: "u64 option \<Rightarrow> u64 option \<Rightarrow> u64 \<Rightarrow> cost_quantity" where
  "cost_of exact estimated records =
     \<lparr>cq_scale = COST_SCALE_DECIMAL_PLACES, cq_exact = exact, cq_estimated = estimated, cq_records = records,
      cq_overflowed = (exact = None \<or> estimated = None)\<rparr>"

definition cost_ok :: "cost_quantity \<Rightarrow> bool" where
  "cost_ok q \<longleftrightarrow> q = cost_of (cq_exact q) (cq_estimated q) (cq_records q)"

lemma cost_ok_of [simp]: "cost_ok (cost_of e s n)"
  by (simp add: cost_ok_def) (simp add: cost_of_def)

lemma cost_ok_cases:
  assumes "cost_ok q" obtains e s n where "q = cost_of e s n"
  using assms cost_ok_def by blast

lemma cost_default_of: "cost_quantity_default = cost_of (Some 0) (Some 0) 0"
  by (simp add: cost_quantity_default_def cost_of_def)

lemma cost_merge_of:
  "cost_merge (cost_of e s n) (cost_of e' s' n') = cost_of (add_options e e') (add_options s s') (saturating_add n n')"
  by (auto simp: cost_merge_def cost_of_def Let_def)

lemma cost_observe_of:
  "cost_observe amount accuracy (cost_of e s n) =
     cost_of (if accuracy = Exact then add_options e (Some amount) else e)
       (if accuracy = Estimated then add_options s (Some amount) else s) (saturating_add n 1)"
  by (cases accuracy) (auto simp: cost_observe_def cost_of_def Let_def add_options_bind)

interpretation cost: accumulator cost_ok cost_quantity_default cost_merge
proof
  fix a b c :: cost_quantity
  show "cost_ok cost_quantity_default" by (simp add: cost_default_of)
  assume a: "cost_ok a"
  then show "cost_merge a cost_quantity_default = a"
    by (elim cost_ok_cases) (simp add: cost_merge_of cost_default_of opt.merge_zero sat.merge_zero)
  assume b: "cost_ok b"
  from a b show "cost_ok (cost_merge a b)" by (elim cost_ok_cases) (simp add: cost_merge_of)
  show "cost_merge a b = cost_merge b a"
  proof -
    obtain e s n where ra: "a = cost_of e s n" using a by (rule cost_ok_cases)
    obtain e' s' n' where rb: "b = cost_of e' s' n'" using b by (rule cost_ok_cases)
    show ?thesis unfolding ra rb cost_merge_of
      by (simp add: opt.merge_commute [of e] opt.merge_commute [of s] sat.merge_commute [of n])
  qed
  assume c: "cost_ok c"
  from a b c show "cost_merge (cost_merge a b) c = cost_merge a (cost_merge b c)"
    by (elim cost_ok_cases) (simp add: cost_merge_of opt.merge_assoc sat.merge_assoc)
qed

lemma cost_observe_ok: "cost_ok q \<Longrightarrow> cost_ok (cost_observe amount accuracy q)"
  by (elim cost_ok_cases) (simp add: cost_observe_of)

lemma cost_observe_merge:
  assumes "cost_ok q"
  shows "cost_observe amount accuracy q = cost_merge q (cost_observe amount accuracy cost_quantity_default)"
  using assms by (elim cost_ok_cases) (simp add: cost_observe_of cost_merge_of cost_default_of opt.zero_merge opt.merge_zero
      sat.zero_merge del: add_options_Some)

text \<open>The costs of a rollup, by currency.\<close>

interpretation costs: accumulator "bt_all_ok cost_ok" "[]" "bt_merge cost_quantity_default cost_merge"
  by (rule cost.keyed)

lemma entry_merge:
  assumes "\<And>q. q = (case bt_get m k of Some v \<Rightarrow> v | None \<Rightarrow> zero) \<Longrightarrow> f q = merge q (f zero)"
  shows "bt_entry k zero f m = bt_merge zero merge m (bt_entry k zero f [])"
  using assms by (simp add: bt_entry_def bt_merge_def)

lemma costs_observe_merge:
  assumes "bt_all_ok cost_ok m"
  shows "bt_entry k cost_quantity_default (cost_observe amount accuracy) m =
    bt_merge cost_quantity_default cost_merge m (bt_entry k cost_quantity_default (cost_observe amount accuracy) [])"
  using assms by (intro entry_merge cost_observe_merge) (auto simp: bt_all_ok_iff cost.zero_ok split: option.splits)

lemma costs_observe_ok: "bt_all_ok cost_ok (bt_entry k cost_quantity_default (cost_observe amount accuracy) [])"
  by (simp add: bt_entry_def bt_all_ok_def bt_ok_def bt_values_def cost_observe_ok cost.zero_ok)

section \<open>Distributions\<close>

interpretation tally: accumulator "bt_all_ok (\<lambda>_. True)" "[]" "bt_merge 0 saturating_add"
  by (rule sat.keyed)

definition distribution_ok :: "usage_distribution \<Rightarrow> bool" where
  "distribution_ok d \<longleftrightarrow> bt_all_ok (\<lambda>_. True) (ud_values d)"

lemma distribution_merge_alt:
  "distribution_merge d e = \<lparr>ud_values = bt_merge 0 saturating_add (ud_values d) (ud_values e),
     ud_unknown = saturating_add (ud_unknown d) (ud_unknown e)\<rparr>"
  by (simp add: distribution_merge_def bt_merge_def)

interpretation distribution: accumulator distribution_ok usage_distribution_default distribution_merge
proof
  fix a b c :: usage_distribution
  show "distribution_ok usage_distribution_default" by (simp add: distribution_ok_def usage_distribution_default_def)
  assume a: "distribution_ok a"
  then show "distribution_merge a usage_distribution_default = a"
    by (simp add: distribution_merge_alt distribution_ok_def usage_distribution_default_def tally.merge_zero sat.merge_zero)
  assume b: "distribution_ok b"
  from a b show "distribution_ok (distribution_merge a b)"
    by (simp add: distribution_merge_alt distribution_ok_def tally.merge_ok)
  from a b show "distribution_merge a b = distribution_merge b a"
    by (simp add: distribution_merge_alt distribution_ok_def tally.merge_commute [of "ud_values a"]
        sat.merge_commute [of "ud_unknown a"])
  assume c: "distribution_ok c"
  from a b c show "distribution_merge (distribution_merge a b) c = distribution_merge a (distribution_merge b c)"
    by (simp add: distribution_merge_alt distribution_ok_def tally.merge_assoc sat.merge_assoc)
qed

lemma distribution_observe_ok: "distribution_ok d \<Longrightarrow> distribution_ok (distribution_observe v d)"
  by (cases v) (simp_all add: distribution_observe_def distribution_ok_def bt_all_ok_iff)

lemma distribution_observe_merge: "distribution_observe v d = distribution_merge d (distribution_observe v usage_distribution_default)"
proof (cases v)
  case None
  then show ?thesis
    by (simp add: distribution_observe_def distribution_merge_def usage_distribution_default_def sat.zero_merge)
next
  case (Some x)
  have "bt_entry x 0 (\<lambda>c. saturating_add c 1) (ud_values d) =
      bt_merge 0 saturating_add (ud_values d) (bt_entry x 0 (\<lambda>c. saturating_add c 1) [])"
    by (rule entry_merge) (simp add: sat.zero_merge)
  with Some show ?thesis
    by (simp add: distribution_observe_def distribution_merge_alt usage_distribution_default_def sat.merge_zero)
qed

end
