(* ===== verification/Usage_Totals.thy ===== *)
theory Usage_Totals
  imports Usage_Laws
begin

text \<open>
  Whole rollups are accumulators, and the rollup of a list of attempts is the total of what each attempt
  contributes alone.  Recording a cost later replaces one contribution by another.
\<close>

section \<open>Rollups\<close>

definition rollup_ok :: "usage_rollup \<Rightarrow> bool" where
  "rollup_ok r \<longleftrightarrow>
     list_all quantity_ok [ro_input_tokens r, ro_cached_input_tokens r, ro_cache_write_input_tokens r, ro_output_tokens r,
       ro_reasoning_output_tokens r, ro_total_tokens r]
     \<and> list_all ratio_ok [ro_cache_read_ratio r, ro_cache_write_ratio r]
     \<and> list_all distribution_ok [ro_provider_profiles r, ro_requested_models r, ro_observed_models r, ro_dialects r,
       ro_requested_context_modes r, ro_requested_reasoning_efforts r, ro_observed_reasoning_efforts r,
       ro_requested_service_tiers r, ro_service_tiers r]
     \<and> bt_all_ok cost_ok (ro_payg_cost_estimates r)"

lemma payg_merge [simp]: "ro_payg_cost_estimates (rollup_merge r s) =
     bt_merge cost_quantity_default cost_merge (ro_payg_cost_estimates r) (ro_payg_cost_estimates s)"
  by (simp add: rollup_merge_def bt_merge_def)

lemmas parts_merge_ok = quantity.merge_ok ratio.merge_ok distribution.merge_ok costs.merge_ok
lemmas parts_merge_assoc = sat.merge_assoc quantity.merge_assoc ratio.merge_assoc distribution.merge_assoc costs.merge_assoc
lemmas parts_merge_commute = sat.merge_commute quantity.merge_commute ratio.merge_commute distribution.merge_commute
lemmas parts_merge_zero = sat.merge_zero quantity.merge_zero ratio.merge_zero distribution.merge_zero costs.merge_zero
lemmas parts_zero_ok = quantity.zero_ok ratio.zero_ok distribution.zero_ok costs.zero_ok
lemmas rollup_sel_defs = rollup_merge_def usage_rollup_default_def

lemma rollup_eqI:
  assumes "r\<lparr>ro_payg_cost_estimates := []\<rparr> = (s :: usage_rollup)\<lparr>ro_payg_cost_estimates := []\<rparr>"
    and "ro_payg_cost_estimates r = ro_payg_cost_estimates s"
  shows "r = s"
  using assms by (cases r; cases s) simp

interpretation rollup: accumulator rollup_ok usage_rollup_default rollup_merge
proof
  fix a b c :: usage_rollup
  show "rollup_ok usage_rollup_default" by (simp add: rollup_ok_def usage_rollup_default_def parts_zero_ok)
  assume a: "rollup_ok a"
  then show "rollup_merge a usage_rollup_default = a"
    by (cases a) (simp add: rollup_ok_def rollup_sel_defs parts_merge_zero)
  assume b: "rollup_ok b"
  from a b show ab: "rollup_ok (rollup_merge a b)"
    unfolding rollup_ok_def payg_merge by (simp add: rollup_merge_def parts_merge_ok)
  have "(rollup_merge a b)\<lparr>ro_payg_cost_estimates := []\<rparr> = (rollup_merge b a)\<lparr>ro_payg_cost_estimates := []\<rparr>"
    using a b by (simp add: rollup_merge_def rollup_ok_def parts_merge_commute)
  moreover have "ro_payg_cost_estimates (rollup_merge a b) = ro_payg_cost_estimates (rollup_merge b a)"
    using a b by (simp add: rollup_ok_def costs.merge_commute)
  ultimately show "rollup_merge a b = rollup_merge b a" by (rule rollup_eqI)
  assume c: "rollup_ok c"
  have "(rollup_merge (rollup_merge a b) c)\<lparr>ro_payg_cost_estimates := []\<rparr>
      = (rollup_merge a (rollup_merge b c))\<lparr>ro_payg_cost_estimates := []\<rparr>"
    using a b c by (simp add: rollup_merge_def rollup_ok_def parts_merge_assoc)
  moreover have "ro_payg_cost_estimates (rollup_merge (rollup_merge a b) c) = ro_payg_cost_estimates (rollup_merge a (rollup_merge b c))"
    using a b c by (simp add: rollup_ok_def costs.merge_assoc)
  ultimately show "rollup_merge (rollup_merge a b) c = rollup_merge a (rollup_merge b c)"
    by (rule rollup_eqI)
qed

section \<open>Observing is merging\<close>

lemma rollup_observe_alt:
  "rollup_observe a r = (case ua_usage a of None \<Rightarrow> observe_no_usage (observe_identity a r)
     | Some usage \<Rightarrow> observe_usage usage (observe_identity a r))"
  by (simp add: rollup_observe_def Let_def)

lemma cache_ratios_merge:
  assumes "ratio_ok x" and "ratio_ok y"
  shows "observe_cache_ratios usage accuracy (x, y) =
    (ratio_merge x (fst (observe_cache_ratios usage accuracy (usage_ratio_default, usage_ratio_default))),
     ratio_merge y (snd (observe_cache_ratios usage accuracy (usage_ratio_default, usage_ratio_default))))"
proof -
  have "ratio_observe_inconsistent z = ratio_merge z (ratio_observe_inconsistent usage_ratio_default)" if "ratio_ok z" for z
    using ratio_observe_merge [OF that, of "Some 1" "Some 0"] by (simp add: ratio_observe_def)
  with assms ratio_observe_merge show ?thesis by (simp add: observe_cache_ratios_def Let_def)
qed

lemma cache_ratios_ok:
  assumes "ratio_ok x" and "ratio_ok y"
  shows "ratio_ok (fst (observe_cache_ratios usage accuracy (x, y)))" "ratio_ok (snd (observe_cache_ratios usage accuracy (x, y)))"
  using assms by (simp_all add: observe_cache_ratios_def Let_def ratio_observe_ok)
    (simp_all add: ratio_observe_inconsistent_def ratio_ok_def)

lemma observe_identity_payg [simp]:
  "ro_payg_cost_estimates (rollup_observe a r) = ro_payg_cost_estimates r"
  by (simp add: rollup_observe_alt observe_identity_def observe_usage_def observe_no_usage_def Let_def split: option.split)

lemma rollup_observe_ok:
  assumes "rollup_ok r"
  shows "rollup_ok (rollup_observe a r)"
proof (cases "ua_usage a")
  case None
  with assms show ?thesis
    by (simp add: rollup_observe_alt rollup_ok_def observe_identity_def observe_no_usage_def quantity_observe_ok
        ratio_observe_ok distribution_observe_ok)
next
  case (Some u)
  with assms show ?thesis
    by (simp add: rollup_observe_alt rollup_ok_def observe_identity_def observe_usage_def Let_def quantity_observe_ok
        cache_ratios_ok distribution_observe_ok)
qed

lemma rollup_observe_merge:
  assumes ok: "rollup_ok r"
  shows "rollup_observe a r = rollup_merge r (rollup_observe a usage_rollup_default)"
proof (rule rollup_eqI)
  show "(rollup_observe a r)\<lparr>ro_payg_cost_estimates := []\<rparr>
      = (rollup_merge r (rollup_observe a usage_rollup_default))\<lparr>ro_payg_cost_estimates := []\<rparr>"
  proof (cases "ua_usage a")
    case None
    show ?thesis unfolding rollup_observe_alt None option.simps
      by (rule usage_rollup.equality) (use ok in \<open>simp_all add: rollup_ok_def rollup_merge_def observe_identity_def
        observe_no_usage_def usage_rollup_default_def sat.zero_merge sat.merge_zero
        quantity_observe_merge [symmetric] ratio_observe_merge [symmetric] distribution_observe_merge [symmetric]\<close>)
  next
    case (Some u)
    show ?thesis unfolding rollup_observe_alt Some option.simps
      by (rule usage_rollup.equality) (use ok in \<open>simp_all add: rollup_ok_def rollup_merge_def observe_identity_def
        observe_usage_def Let_def usage_rollup_default_def sat.zero_merge sat.merge_zero cache_ratios_merge [of "ro_cache_read_ratio r"]
        quantity_observe_merge [symmetric] distribution_observe_merge [symmetric]\<close>)
  qed
  show "ro_payg_cost_estimates (rollup_observe a r)
      = ro_payg_cost_estimates (rollup_merge r (rollup_observe a usage_rollup_default))"
    using ok by (simp add: rollup_ok_def costs.merge_zero) (simp add: usage_rollup_default_def costs.merge_zero)
qed

section \<open>The rollup of a list of attempts\<close>

text \<open>From scratch, with the code's own \<open>observe\<close> and \<open>observe_cost\<close>.\<close>

definition observe_attempt :: "usage_rollup \<Rightarrow> usage_attempt \<Rightarrow> usage_rollup" where
  "observe_attempt r a =
     (case ua_cost_estimate a of
        None \<Rightarrow> rollup_observe a r
      | Some est \<Rightarrow> rollup_observe_cost (Known est) (rollup_observe a r))"

definition rollup_of :: "usage_attempt list \<Rightarrow> usage_rollup" where
  "rollup_of xs = foldl observe_attempt usage_rollup_default xs"

abbreviation contribution :: "usage_attempt \<Rightarrow> usage_rollup" where
  "contribution a \<equiv> observe_attempt usage_rollup_default a"

definition contributions :: "usage_attempt list \<Rightarrow> usage_rollup" where
  "contributions xs = total_of rollup_merge usage_rollup_default (map contribution xs)"

lemma observe_cost_ok: "rollup_ok r \<Longrightarrow> rollup_ok (rollup_observe_cost outcome r)"
proof (cases outcome)
  case (Known est)
  assume "rollup_ok r"
  moreover from this have "bt_all_ok cost_ok (bt_entry (ps_currency (ce_schedule est)) cost_quantity_default
      (cost_observe (ce_amount est) (ce_usage_accuracy est)) (ro_payg_cost_estimates r))"
    by (subst costs_observe_merge) (simp_all add: rollup_ok_def costs.merge_ok costs_observe_ok)
  ultimately show ?thesis using Known by (simp add: rollup_observe_cost_def rollup_ok_def)
qed (simp add: rollup_observe_cost_def)

lemma contribution_ok: "rollup_ok (contribution a)"
  by (simp add: observe_attempt_def rollup_observe_ok observe_cost_ok rollup.zero_ok split: option.split)

lemma contributions_ok: "rollup_ok (contributions xs)"
  unfolding contributions_def by (rule rollup.total_ok) (simp add: list_all_iff contribution_ok)

lemma observed_unknown: "ro_cost_unknown_attempts (rollup_observe a r) = saturating_add (ro_cost_unknown_attempts r) 1"
  by (simp add: rollup_observe_alt observe_identity_def observe_usage_def observe_no_usage_def Let_def split: option.split)

lemma saturating_sub_add_one: "unat a < 2 ^ 64 - 1 \<Longrightarrow> saturating_sub (saturating_add a 1) 1 = a"
proof -
  assume "unat a < 2 ^ 64 - 1"
  then have ch: "checked_add a 1 = Some (a + 1)" by (simp add: checked_add_def)
  then have "unat (a + 1) = unat a + 1" by (simp add: checked_add_SomeD)
  then have "1 \<le> a + 1" by (simp add: word_le_nat_alt)
  with ch show ?thesis by (simp add: saturating_sub_def saturating_add_def checked_sub_def)
qed

text \<open>A cost evaluated later replaces the contribution of its attempt.\<close>

lemma observe_cost_merge:
  assumes ok: "rollup_ok r" and few: "unat (ro_cost_unknown_attempts r) < 2 ^ 64 - 1"
  shows "rollup_observe_cost (Known est) (rollup_merge r (rollup_observe a usage_rollup_default))
    = rollup_merge r (rollup_observe_cost (Known est) (rollup_observe a usage_rollup_default))"
proof (rule rollup_eqI)
  let ?one = "rollup_observe a usage_rollup_default"
  have one: "ro_cost_unknown_attempts ?one = 1"
    by (simp add: observed_unknown) (simp add: usage_rollup_default_def sat.zero_merge)
  have "saturating_sub (1 :: u64) 1 = 0" by (simp add: saturating_sub_def checked_sub_def)
  then show "(rollup_observe_cost (Known est) (rollup_merge r ?one))\<lparr>ro_payg_cost_estimates := []\<rparr>
      = (rollup_merge r (rollup_observe_cost (Known est) ?one))\<lparr>ro_payg_cost_estimates := []\<rparr>"
    using one saturating_sub_add_one [OF few] by (simp add: rollup_observe_cost_def rollup_merge_def sat.merge_zero)
  have empty: "ro_payg_cost_estimates ?one = []" by simp (simp add: usage_rollup_default_def)
  have "bt_all_ok cost_ok (ro_payg_cost_estimates r)" using ok by (simp add: rollup_ok_def)
  then show "ro_payg_cost_estimates (rollup_observe_cost (Known est) (rollup_merge r ?one))
      = ro_payg_cost_estimates (rollup_merge r (rollup_observe_cost (Known est) ?one))"
    unfolding rollup_observe_cost_def cost_estimate_outcome.case payg_merge usage_rollup.simps empty
    by (simp add: costs.merge_zero costs_observe_merge [symmetric])
qed

lemma contribution_unknown:
  "ro_cost_unknown_attempts (contribution a) = (if ua_cost_estimate a = None then 1 else 0)"
  by (simp add: observe_attempt_def observed_unknown rollup_observe_cost_def saturating_sub_def checked_sub_def split: option.split)
    (simp add: usage_rollup_default_def sat.zero_merge)

lemma contributions_unknown:
  "unat (ro_cost_unknown_attempts (contributions xs)) = min (length (filter (\<lambda>a. ua_cost_estimate a = None) xs)) (2 ^ 64 - 1)"
proof (induction xs)
  case Nil
  then show ?case by (simp add: contributions_def usage_rollup_default_def)
next
  case (Cons a xs)
  then show ?case
    by (simp add: contributions_def rollup_merge_def unat_saturating_add contribution_unknown) linarith
qed

lemma few_unknown: "length xs < 2 ^ 64 - 1 \<Longrightarrow> unat (ro_cost_unknown_attempts (contributions xs)) < 2 ^ 64 - 1"
  using length_filter_le [of "\<lambda>a. ua_cost_estimate a = None" xs] unfolding contributions_unknown by linarith

lemma contributions_snoc: "contributions (xs @ [a]) = rollup_merge (contributions xs) (contribution a)"
  unfolding contributions_def map_append list.map
  by (rule rollup.total_snoc) (simp_all add: list_all_iff contribution_ok)

lemma rollup_of_contributions: "length xs < 2 ^ 64 \<Longrightarrow> rollup_of xs = contributions xs"
proof (induction xs rule: rev_induct)
  case Nil
  then show ?case by (simp add: rollup_of_def contributions_def)
next
  case (snoc a xs)
  then have IH: "rollup_of xs = contributions xs" and "length xs < 2 ^ 64 - 1" by simp_all
  then have few: "unat (ro_cost_unknown_attempts (contributions xs)) < 2 ^ 64 - 1" using few_unknown by blast
  have "observe_attempt (contributions xs) a = rollup_merge (contributions xs) (contribution a)"
    unfolding observe_attempt_def
    by (simp add: rollup_observe_merge [OF contributions_ok, of a xs] observe_cost_merge [OF contributions_ok few] split: option.split)
  then show ?case using IH by (simp add: rollup_of_def contributions_snoc)
qed

lemma contributions_extract:
  "contributions (us @ a # vs) = rollup_merge (contributions (us @ vs)) (contribution a)"
proof -
  have "contributions (us @ a # vs) = rollup_merge (contribution a) (contributions (us @ vs))"
    unfolding contributions_def map_append list.map by (rule rollup.total_extract) (auto simp: list_all_iff contribution_ok)
  then show ?thesis using rollup.merge_commute [OF contribution_ok contributions_ok] by simp
qed

lemma contributions_permuted: "mset xs = mset ys \<Longrightarrow> contributions xs = contributions ys"
  unfolding contributions_def by (rule rollup.total_permuted) (simp_all add: list_all_iff contribution_ok)

lemma observe_keeps: "rollup_observe (a\<lparr>ua_cost_provenance := p, ua_cost_estimate := e\<rparr>) = rollup_observe a"
  "rollup_observe (a\<lparr>ua_cost_unknown_reason := u\<rparr>) = rollup_observe a"
  by (rule ext, simp add: rollup_observe_alt observe_identity_def split: option.split)+

lemma contributions_cost:
  assumes cost: "attempt_record_cost a outcome = Ok a'" and few: "length (us @ vs) < 2 ^ 64 - 1"
  shows "rollup_observe_cost outcome (contributions (us @ a # vs)) = contributions (us @ a' # vs)"
proof -
  have none: "ua_cost_estimate a = None" using cost by (auto simp: attempt_record_cost_def split: if_splits)
  show ?thesis
  proof (cases outcome)
    case (Known est)
    then have a': "a' = a\<lparr>ua_cost_provenance := ProvenancePriceSchedule, ua_cost_estimate := Some est\<rparr>"
      using cost by (auto simp: attempt_record_cost_def split: if_splits)
    have "rollup_observe_cost outcome (contributions (us @ a # vs))
        = rollup_merge (contributions (us @ vs)) (rollup_observe_cost outcome (contribution a))"
      unfolding contributions_extract Known using observe_cost_merge [OF contributions_ok few_unknown [OF few]]
      by (simp add: observe_attempt_def none)
    also have "rollup_observe_cost outcome (contribution a) = contribution a'"
      using Known none a' by (simp add: observe_attempt_def observe_keeps)
    finally show ?thesis by (simp add: contributions_extract)
  next
    case (Unknown reason)
    then have "a' = a\<lparr>ua_cost_unknown_reason := Some reason\<rparr>"
      using cost by (auto simp: attempt_record_cost_def split: if_splits)
    then have "contribution a' = contribution a" using none by (simp add: observe_attempt_def observe_keeps)
    with Unknown show ?thesis by (simp add: contributions_extract rollup_observe_cost_def)
  qed
qed

end
