(* ===== verification/Usage_Scopes.thy ===== *)
theory Usage_Scopes
  imports Usage_Totals
begin

text \<open>
  The cached rollups of the projection, scope by scope.  Each cache holds, for every key that some recorded
  attempt belongs to, the rollup of exactly those attempts; recording an attempt or a cost keeps it so.
\<close>

section \<open>Positions\<close>

lemma find_position_Some:
  "find_position P xs = Some i \<Longrightarrow> i < length xs \<and> P (xs ! i)"
  by (induction xs arbitrary: i) (auto split: if_splits)

lemma find_position_None: "find_position P xs = None \<longleftrightarrow> (\<forall>x \<in> set xs. \<not> P x)"
  by (induction xs) auto

section \<open>One cache\<close>

definition in_scope :: "(usage_attempt \<Rightarrow> 'k list) \<Rightarrow> 'k \<Rightarrow> usage_attempt list \<Rightarrow> usage_attempt list" where
  "in_scope scope k xs = filter (\<lambda>a. k \<in> set (scope a)) xs"

definition cache_exact :: "(usage_attempt \<Rightarrow> 'k list) \<Rightarrow> usage_attempt list \<Rightarrow> ('k::linorder, usage_rollup) btree_map \<Rightarrow> bool" where
  "cache_exact scope xs m \<longleftrightarrow> bt_ok m \<and>
     (\<forall>k. bt_get m k = (if in_scope scope k xs = [] then None else Some (contributions (in_scope scope k xs))))"

lemma contributions_Nil: "contributions [] = usage_rollup_default"
  by (simp add: contributions_def)

lemma foldl_observed:
  "bt_ok m \<Longrightarrow> distinct ks \<Longrightarrow> bt_ok (foldl (\<lambda>m k. observed a k m) m ks) \<and>
     bt_get (foldl (\<lambda>m k. observed a k m) m ks) k
       = (if k \<in> set ks then Some (rollup_observe a (case bt_get m k of Some r \<Rightarrow> r | None \<Rightarrow> usage_rollup_default))
          else bt_get m k)"
  by (induction ks arbitrary: m) (auto simp: bt_get_entry)

lemma cache_record:
  assumes exact: "cache_exact scope xs m" and distinct: "distinct (scope a)" and fresh: "ua_cost_estimate a = None"
  shows "cache_exact scope (xs @ [a]) (foldl (\<lambda>m k. observed a k m) m (scope a))"
proof -
  have m: "bt_ok m" using exact by (simp add: cache_exact_def)
  have one: "contribution a = rollup_observe a usage_rollup_default" using fresh by (simp add: observe_attempt_def)
  have "bt_get (foldl (\<lambda>m k. observed a k m) m (scope a)) k =
      (if in_scope scope k (xs @ [a]) = [] then None else Some (contributions (in_scope scope k (xs @ [a]))))" for k
  proof (cases "k \<in> set (scope a)")
    case True
    have "rollup_observe a (case bt_get m k of Some r \<Rightarrow> r | None \<Rightarrow> usage_rollup_default)
        = contributions (in_scope scope k xs @ [a])"
      using exact by (simp add: cache_exact_def contributions_snoc one rollup_observe_merge [OF contributions_ok, of a, symmetric]
          contributions_Nil rollup_observe_merge [OF rollup.zero_ok, of a, symmetric])
    with True show ?thesis using foldl_observed [OF m distinct, of a k] by (simp add: in_scope_def)
  next
    case False
    then show ?thesis using foldl_observed [OF m distinct, of a k] exact by (simp add: in_scope_def cache_exact_def)
  qed
  then show ?thesis using foldl_observed [OF m distinct] by (simp add: cache_exact_def)
qed

lemma cost_entries_run:
  assumes "bt_ok m" and "distinct ks" and "\<And>k. k \<in> set ks \<Longrightarrow> bt_get m k \<noteq> None"
  obtains m' where "cost_entries outcome ks m = (Ok (), m')" and "bt_ok m'"
    and "\<And>k. bt_get m' k = (if k \<in> set ks then map_option (rollup_observe_cost outcome) (bt_get m k) else bt_get m k)"
  using assms
proof (induction ks arbitrary: m thesis)
  case Nil
  from Nil.prems(1) [of m] Nil.prems(2) show ?case by simp
next
  case (Cons k ks)
  obtain r where r: "bt_get m k = Some r" using Cons.prems(4) by fastforce
  let ?m = "bt_insert k (rollup_observe_cost outcome r) m"
  have "bt_ok ?m" "distinct ks" "\<And>x. x \<in> set ks \<Longrightarrow> bt_get ?m x \<noteq> None"
    using Cons.prems by (auto simp: bt_ok_insert bt_get_insert)
  from Cons.IH [OF _ this] obtain m' where m': "cost_entries outcome ks ?m = (Ok (), m')" "bt_ok m'"
    "\<And>x. bt_get m' x = (if x \<in> set ks then map_option (rollup_observe_cost outcome) (bt_get ?m x) else bt_get ?m x)"
    by blast
  show ?case
  proof (rule Cons.prems(1))
    show "cost_entries outcome (k # ks) m = (Ok (), m')" using m'(1) r by (simp add: cost_entry_def then_step_def)
    show "bt_ok m'" by (rule m'(2))
    show "bt_get m' x = (if x \<in> set (k # ks) then map_option (rollup_observe_cost outcome) (bt_get m x) else bt_get m x)" for x
      using m'(3) [of x] r Cons.prems(3) by (auto simp: bt_get_insert)
  qed
qed

lemma in_scope_split: "in_scope scope k (us @ a # vs) = in_scope scope k us @ (if k \<in> set (scope a) then [a] else []) @ in_scope scope k vs"
  by (simp add: in_scope_def)

lemma in_scope_length: "length (in_scope scope k xs) \<le> length xs"
  by (simp add: in_scope_def)

lemma cache_cost:
  assumes exact: "cache_exact scope (us @ a # vs) m" and distinct: "distinct (scope a)" and same: "scope a' = scope a"
    and cost: "attempt_record_cost a outcome = Ok a'" and few: "length (us @ vs) < 2 ^ 64 - 1"
  obtains m' where "cost_entries outcome (scope a) m = (Ok (), m')" and "cache_exact scope (us @ a' # vs) m'"
proof -
  have m: "bt_ok m" using exact by (simp add: cache_exact_def)
  have "bt_get m k \<noteq> None" if "k \<in> set (scope a)" for k
    using exact that by (simp add: cache_exact_def in_scope_split)
  from cost_entries_run [OF m distinct this, of outcome] obtain m'
    where run: "cost_entries outcome (scope a) m = (Ok (), m')" and m': "bt_ok m'"
      and get: "\<And>k. bt_get m' k = (if k \<in> set (scope a) then map_option (rollup_observe_cost outcome) (bt_get m k) else bt_get m k)"
    by blast
  have "bt_get m' k = (if in_scope scope k (us @ a' # vs) = [] then None else Some (contributions (in_scope scope k (us @ a' # vs))))" for k
  proof (cases "k \<in> set (scope a)")
    case True
    have "length (in_scope scope k us @ in_scope scope k vs) < 2 ^ 64 - 1"
      using few in_scope_length [of scope k us] in_scope_length [of scope k vs] by simp
    from contributions_cost [OF cost this] show ?thesis
      using True exact get same by (simp add: cache_exact_def in_scope_split)
  next
    case False
    then show ?thesis using exact get same by (simp add: cache_exact_def in_scope_split)
  qed
  with m' have "cache_exact scope (us @ a' # vs) m'" by (simp add: cache_exact_def)
  with run show ?thesis by (rule that)
qed

section \<open>The projection\<close>

abbreviation thread_scope :: "usage_attempt \<Rightarrow> u64 list" where
  "thread_scope \<equiv> \<lambda>a. [ua_thread a]"

abbreviation turn_scope :: "usage_attempt \<Rightarrow> u64 list" where
  "turn_scope \<equiv> \<lambda>a. [ua_turn a]"

definition agent_scope :: "usage_attempt \<Rightarrow> u64 list" where
  "agent_scope a = (case ua_agent a of None \<Rightarrow> [] | Some agent \<Rightarrow> [agent])"
definition instant_scope :: "usage_attempt \<Rightarrow> int list" where
  "instant_scope a = (case ua_started_at a of None \<Rightarrow> [] | Some instant \<Rightarrow> [instant])"

definition attempt_ids :: "usage_attempt list \<Rightarrow> (u64 \<times> u32) list" where
  "attempt_ids xs = map (\<lambda>a. (ua_turn a, ua_attempt a)) xs"

definition projection_exact :: "usage_projection \<Rightarrow> bool" where
  "projection_exact p \<longleftrightarrow>
     distinct (attempt_ids (pj_attempts p)) \<and> (\<forall>a \<in> set (pj_attempts p). distinct (ua_named_windows a)) \<and>
     pj_total p = contributions (pj_attempts p) \<and>
     cache_exact thread_scope (pj_attempts p) (pj_threads p) \<and>
     cache_exact turn_scope (pj_attempts p) (pj_turns p) \<and>
     cache_exact agent_scope (pj_attempts p) (pj_agents p) \<and>
     cache_exact ua_named_windows (pj_attempts p) (pj_named_windows p) \<and>
     cache_exact instant_scope (pj_attempts p) (pj_instants p)"

lemma projection_exact_default: "projection_exact usage_projection_default"
  by (simp add: projection_exact_def usage_projection_default_def attempt_ids_def contributions_Nil cache_exact_def in_scope_def)

lemma foldl_option_scope:
  "(case x of None \<Rightarrow> m | Some k \<Rightarrow> observed a k m) = foldl (\<lambda>m k. observed a k m) m (case x of None \<Rightarrow> [] | Some k \<Rightarrow> [k])"
  by (cases x) simp_all

lemma distinct_scopes: "distinct (agent_scope a)" "distinct (instant_scope a)"
  by (simp_all add: agent_scope_def instant_scope_def split: option.split)

lemma projection_record_exact:
  assumes exact: "projection_exact p" and windows: "distinct (ua_named_windows a)" and fresh: "ua_cost_estimate a = None"
    and run: "projection_record p a = Ok p'"
  shows "projection_exact p'" and "pj_attempts p' = pj_attempts p @ [a]"
proof -
  note cached = cache_record [OF _ _ fresh]
  from run have new: "\<not> list_ex (is_attempt (ua_turn a) (ua_attempt a)) (pj_attempts p)"
    and p': "p' = p\<lparr>pj_total := rollup_observe a (pj_total p),
        pj_threads := observed a (ua_thread a) (pj_threads p),
        pj_turns := observed a (ua_turn a) (pj_turns p),
        pj_agents := foldl (\<lambda>m k. observed a k m) (pj_agents p) (agent_scope a),
        pj_named_windows := foldl (\<lambda>m k. observed a k m) (pj_named_windows p) (ua_named_windows a),
        pj_instants := foldl (\<lambda>m k. observed a k m) (pj_instants p) (instant_scope a),
        pj_attempts := pj_attempts p @ [a]\<rparr>"
    by (auto simp: projection_record_def foldl_option_scope agent_scope_def instant_scope_def split: if_splits)
  have one: "contribution a = rollup_observe a usage_rollup_default" using fresh by (simp add: observe_attempt_def)
  have "rollup_observe a (contributions (pj_attempts p)) = contributions (pj_attempts p @ [a])"
    using rollup_observe_merge [OF contributions_ok, of a] by (simp add: contributions_snoc one)
  moreover have "distinct (attempt_ids (pj_attempts p @ [a]))"
    using exact new by (auto simp: projection_exact_def attempt_ids_def list_ex_iff is_attempt_def)
  moreover have "cache_exact thread_scope (pj_attempts p @ [a]) (observed a (ua_thread a) (pj_threads p))"
    using exact cached [of thread_scope] by (simp add: projection_exact_def)
  moreover have "cache_exact turn_scope (pj_attempts p @ [a]) (observed a (ua_turn a) (pj_turns p))"
    using exact cached [of turn_scope] by (simp add: projection_exact_def)
  moreover have "cache_exact agent_scope (pj_attempts p @ [a]) (foldl (\<lambda>m k. observed a k m) (pj_agents p) (agent_scope a))"
    using exact distinct_scopes by (intro cached) (simp_all add: projection_exact_def)
  moreover have "cache_exact ua_named_windows (pj_attempts p @ [a])
      (foldl (\<lambda>m k. observed a k m) (pj_named_windows p) (ua_named_windows a))"
    using exact windows by (intro cached) (simp_all add: projection_exact_def)
  moreover have "cache_exact instant_scope (pj_attempts p @ [a]) (foldl (\<lambda>m k. observed a k m) (pj_instants p) (instant_scope a))"
    using exact distinct_scopes by (intro cached) (simp_all add: projection_exact_def)
  ultimately show "projection_exact p'"
    using exact windows unfolding p' projection_exact_def by simp
  show "pj_attempts p' = pj_attempts p @ [a]" by (simp add: p')
qed

lemma cost_option_scope:
  "(case x of None \<Rightarrow> (Ok (), m) | Some k \<Rightarrow> cost_entry outcome k m)
    = cost_entries outcome (case x of None \<Rightarrow> [] | Some k \<Rightarrow> [k]) m"
proof (cases x)
  case (Some k)
  obtain res m' where "cost_entry outcome k m = (res, m')" by (cases "cost_entry outcome k m")
  with Some show ?thesis by (cases res) (simp_all add: then_step_def)
qed simp

lemma then_step_Ok [simp]: "then_step (Ok (), s) f = f s"
  by (simp add: then_step_def)

lemma projection_record_cost_scopes:
  assumes "find_position (is_attempt turn attempt) (pj_attempts p) = Some i"
    and "attempt_record_cost (pj_attempts p ! i) outcome = Ok a"
  shows "projection_record_cost p turn attempt outcome =
      then_step (Ok (), p\<lparr>pj_attempts := (pj_attempts p)[i := a], pj_total := rollup_observe_cost outcome (pj_total p)\<rparr>) (\<lambda>p.
      then_step (map_prod id (\<lambda>m. p\<lparr>pj_threads := m\<rparr>) (cost_entry outcome (ua_thread a) (pj_threads p))) (\<lambda>p.
      then_step (map_prod id (\<lambda>m. p\<lparr>pj_turns := m\<rparr>) (cost_entry outcome (ua_turn a) (pj_turns p))) (\<lambda>p.
      then_step (map_prod id (\<lambda>m. p\<lparr>pj_agents := m\<rparr>) (cost_entries outcome (agent_scope a) (pj_agents p))) (\<lambda>p.
      then_step (map_prod id (\<lambda>m. p\<lparr>pj_named_windows := m\<rparr>)
        (cost_entries outcome (ua_named_windows a) (pj_named_windows p))) (\<lambda>p.
      map_prod id (\<lambda>m. p\<lparr>pj_instants := m\<rparr>) (cost_entries outcome (instant_scope a) (pj_instants p)))))))"
  unfolding projection_record_cost_def assms option.case result.case agent_scope_def instant_scope_def
  by (simp only: cost_option_scope)

lemma attempt_record_cost_keeps:
  assumes "attempt_record_cost a outcome = Ok a'"
  shows "ua_turn a' = ua_turn a" "ua_attempt a' = ua_attempt a" "ua_thread a' = ua_thread a" "agent_scope a' = agent_scope a"
    "ua_named_windows a' = ua_named_windows a" "instant_scope a' = instant_scope a"
  using assms by (auto simp: attempt_record_cost_def agent_scope_def instant_scope_def split: if_splits cost_estimate_outcome.splits)

lemma projection_record_cost_exact:
  assumes exact: "projection_exact p" and few: "length (pj_attempts p) < 2 ^ 64"
    and i: "find_position (is_attempt turn attempt) (pj_attempts p) = Some i"
    and cost: "attempt_record_cost (pj_attempts p ! i) outcome = Ok a'"
  obtains p' where "projection_record_cost p turn attempt outcome = (Ok (), p')"
    and "projection_exact p'" and "pj_attempts p' = (pj_attempts p)[i := a']"
proof -
  let ?a = "pj_attempts p ! i"
  define us where "us = take i (pj_attempts p)"
  define vs where "vs = drop (Suc i) (pj_attempts p)"
  have ilen: "i < length (pj_attempts p)" using find_position_Some [OF i] by simp
  then have xs: "pj_attempts p = us @ ?a # vs" by (simp add: us_def vs_def id_take_nth_drop)
  have upd: "(pj_attempts p)[i := a'] = us @ a' # vs" using ilen by (simp add: us_def vs_def upd_conv_take_nth_drop)
  have "length (pj_attempts p) = Suc (length (us @ vs))" using arg_cong [OF xs, of length] by simp
  then have few': "length (us @ vs) < 2 ^ 64 - 1" using few by simp
  note keeps = attempt_record_cost_keeps [OF cost]
  note cached = cache_cost [OF _ _ _ cost few']
  have exacts: "cache_exact thread_scope (us @ ?a # vs) (pj_threads p)" "cache_exact turn_scope (us @ ?a # vs) (pj_turns p)"
    "cache_exact agent_scope (us @ ?a # vs) (pj_agents p)" "cache_exact ua_named_windows (us @ ?a # vs) (pj_named_windows p)"
    "cache_exact instant_scope (us @ ?a # vs) (pj_instants p)"
    using exact unfolding projection_exact_def xs [symmetric] by simp_all
  have windows: "distinct (ua_named_windows ?a)" using exact ilen by (simp add: projection_exact_def)
  obtain m1 where m1: "cost_entries outcome [ua_thread ?a] (pj_threads p) = (Ok (), m1)" "cache_exact thread_scope (us @ a' # vs) m1"
    using cached [OF exacts(1)] keeps by auto
  obtain m2 where m2: "cost_entries outcome [ua_turn ?a] (pj_turns p) = (Ok (), m2)" "cache_exact turn_scope (us @ a' # vs) m2"
    using cached [OF exacts(2)] keeps by auto
  obtain m3 where m3: "cost_entries outcome (agent_scope ?a) (pj_agents p) = (Ok (), m3)" "cache_exact agent_scope (us @ a' # vs) m3"
    using cached [OF exacts(3) distinct_scopes(1)] keeps by auto
  obtain m4 where m4: "cost_entries outcome (ua_named_windows ?a) (pj_named_windows p) = (Ok (), m4)"
    "cache_exact ua_named_windows (us @ a' # vs) m4"
    using cached [OF exacts(4) windows] keeps by auto
  obtain m5 where m5: "cost_entries outcome (instant_scope ?a) (pj_instants p) = (Ok (), m5)" "cache_exact instant_scope (us @ a' # vs) m5"
    using cached [OF exacts(5) distinct_scopes(2)] keeps by auto
  let ?p = "p\<lparr>pj_attempts := us @ a' # vs, pj_total := rollup_observe_cost outcome (pj_total p), pj_threads := m1, pj_turns := m2,
     pj_agents := m3, pj_named_windows := m4, pj_instants := m5\<rparr>"
  have single: "cost_entry outcome k m = cost_entries outcome [k] m" for k :: u64 and m
    using cost_option_scope [of m outcome "Some k"] by (simp only: option.case)
  have "cost_entry outcome (ua_thread a') (pj_threads p) = (Ok (), m1)" "cost_entry outcome (ua_turn a') (pj_turns p) = (Ok (), m2)"
    using m1(1) m2(1) by (simp_all only: single keeps)
  moreover have "cost_entries outcome (agent_scope a') (pj_agents p) = (Ok (), m3)"
    "cost_entries outcome (ua_named_windows a') (pj_named_windows p) = (Ok (), m4)"
    "cost_entries outcome (instant_scope a') (pj_instants p) = (Ok (), m5)"
    using m3(1) m4(1) m5(1) by (simp_all only: keeps)
  ultimately have "projection_record_cost p turn attempt outcome = (Ok (), ?p)"
    unfolding projection_record_cost_scopes [OF i cost] by (simp add: upd)
  moreover have "projection_exact ?p"
  proof -
    have "attempt_ids (us @ a' # vs) = attempt_ids (us @ ?a # vs)" by (simp add: attempt_ids_def keeps)
    then have "distinct (attempt_ids (us @ a' # vs))" using exact xs by (simp add: projection_exact_def)
    moreover have "pj_total p = contributions (us @ ?a # vs)" using exact xs by (simp add: projection_exact_def)
    moreover have "\<forall>a \<in> set (us @ ?a # vs). distinct (ua_named_windows a)"
      using exact unfolding projection_exact_def xs [symmetric] by simp
    ultimately show ?thesis using m1(2) m2(2) m3(2) m4(2) m5(2) windows contributions_cost [OF cost few']
      by (simp add: projection_exact_def keeps)
  qed
  ultimately show ?thesis by (rule that) (simp add: upd)
qed

end
