(* ===== verification/Usage_Pages.thy ===== *)
theory Usage_Pages
  imports Usage_Scopes
begin

text \<open>
  Queries of the usage projection: rolling windows are totals over the attempts started in them, cursors
  decode to what was encoded, and following the cursors visits every attempt once.
\<close>

section \<open>Rolling windows\<close>

lemma total_of_groups:
  assumes "distinct ks"
  shows "total_of rollup_merge usage_rollup_default (map (\<lambda>k. contributions (filter (\<lambda>a. key a = Some k) xs)) ks)
    = contributions (filter (\<lambda>a. \<exists>k \<in> set ks. key a = Some k) xs)"
  using assms
proof (induction ks)
  case Nil
  then show ?case by (simp add: contributions_Nil)
next
  case (Cons k ks)
  let ?one = "filter (\<lambda>a. key a = Some k) xs" and ?rest = "filter (\<lambda>a. \<exists>k \<in> set ks. key a = Some k) xs"
  have "mset (?one @ ?rest) = mset (filter (\<lambda>a. \<exists>k \<in> set (k # ks). key a = Some k) xs)"
    using Cons.prems by (induction xs) auto
  then have "contributions (?one @ ?rest) = contributions (filter (\<lambda>a. \<exists>k \<in> set (k # ks). key a = Some k) xs)"
    by (rule contributions_permuted)
  moreover have "contributions (?one @ ?rest) = rollup_merge (contributions ?one) (contributions ?rest)"
    unfolding contributions_def map_append by (rule rollup.total_append) (simp_all add: list_all_iff contribution_ok)
  ultimately show ?case using Cons by simp
qed

lemma rolling_exact:
  assumes "projection_exact p"
  shows "projection_rolling p as_of duration = contributions (filter (\<lambda>a. case ua_started_at a of None \<Rightarrow> False
    | Some t \<Rightarrow> i64_saturating_sub as_of duration \<le> t \<and> t < as_of) (pj_attempts p))"
proof -
  let ?xs = "pj_attempts p" and ?in = "\<lambda>t. i64_saturating_sub as_of duration \<le> t \<and> t < as_of"
  let ?m = "filter (\<lambda>(instant, _). ?in instant) (pj_instants p)"
  from assms have ok: "bt_ok (pj_instants p)"
    and get: "\<And>k. bt_get (pj_instants p) k = (if in_scope instant_scope k ?xs = [] then None
      else Some (contributions (in_scope instant_scope k ?xs)))"
    by (simp_all add: projection_exact_def cache_exact_def)
  have scope: "in_scope instant_scope k ?xs = filter (\<lambda>a. ua_started_at a = Some k) ?xs" for k
    unfolding in_scope_def by (rule filter_cong) (auto simp: instant_scope_def split: option.splits)
  have vals: "r = contributions (filter (\<lambda>a. ua_started_at a = Some k) ?xs)" if "(k, r) \<in> set ?m" for k r
    using that ok get [of k] bt.entries_iff [OF ok, of k r] by (auto simp: scope split: if_splits)
  have dist: "distinct (map fst ?m)" using bt_ok_distinct [OF ok] by (simp add: distinct_map_filter)
  have "map snd ?m = map (\<lambda>k. contributions (filter (\<lambda>a. ua_started_at a = Some k) ?xs)) (map fst ?m)"
    using vals by (auto simp: map_eq_conv)
  then have "total_of rollup_merge usage_rollup_default (map snd ?m)
      = contributions (filter (\<lambda>a. \<exists>k \<in> set (map fst ?m). ua_started_at a = Some k) ?xs)"
    using total_of_groups [OF dist, of ua_started_at ?xs] by (simp only:)
  also have "filter (\<lambda>a. \<exists>k \<in> set (map fst ?m). ua_started_at a = Some k) ?xs
      = filter (\<lambda>a. case ua_started_at a of None \<Rightarrow> False | Some t \<Rightarrow> ?in t) ?xs"
  proof (rule filter_cong [OF refl])
    fix a assume a: "a \<in> set ?xs"
    have "k \<in> fst ` set (pj_instants p)" if "ua_started_at a = Some k" for k
    proof -
      have "in_scope instant_scope k ?xs \<noteq> []" using a that unfolding scope by (auto simp: filter_empty_conv)
      then show ?thesis using get bt.keys_iff [OF ok] by simp
    qed
    then show "(\<exists>k \<in> set (map fst ?m). ua_started_at a = Some k) = (case ua_started_at a of None \<Rightarrow> False | Some t \<Rightarrow> ?in t)"
      by (cases "ua_started_at a") (auto simp: image_iff)
  qed
  finally have total: "total_of rollup_merge usage_rollup_default (map snd ?m)
      = contributions (filter (\<lambda>a. case ua_started_at a of None \<Rightarrow> False | Some t \<Rightarrow> ?in t) ?xs)" .
  have "rollup_ok r" if "(k, r) \<in> set ?m" for k r unfolding vals [OF that] by (rule contributions_ok)
  then have oks: "list_all rollup_ok (map snd ?m)" by (auto simp: list_all_iff)
  have "foldl (\<lambda>all (_, rollup). rollup_merge all rollup) r ms = foldl rollup_merge r (map snd ms)" for r and ms :: "(int \<times> usage_rollup) list"
    by (induction ms arbitrary: r) (simp_all add: case_prod_beta)
  then have "projection_rolling p as_of duration = foldl rollup_merge usage_rollup_default (map snd ?m)"
    by (simp add: projection_rolling_def Let_def)
  also have "\<dots> = total_of rollup_merge usage_rollup_default (map snd ?m)"
    using rollup.foldl_total [OF rollup.zero_ok oks] rollup.zero_merge [OF rollup.total_ok [OF oks]] by simp
  finally show ?thesis using total by simp
qed

section \<open>Cursors\<close>

lemma length_show_nat: "n < 10 ^ Suc k \<Longrightarrow> length (show_nat n) \<le> Suc k"
proof (induction k arbitrary: n)
  case 0
  then show ?case by (subst show_nat.simps) simp
next
  case (Suc k)
  then show ?case by (subst show_nat.simps) auto
qed

lemma show_u64: "n < 2 ^ 64 \<Longrightarrow> length (show_nat n) \<le> 20"
  using length_show_nat [of n 19] by simp

lemma show_i64: "- (2 ^ 63) \<le> v \<Longrightarrow> v < 2 ^ 63 \<Longrightarrow> length (show_int v) \<le> 20"
  using length_show_nat [of "nat v" 19] length_show_nat [of "nat (- v)" 18] by (simp add: show_int_def)

lemma show_ascii: "list_all is_ascii (show_nat n)" "list_all is_ascii (show_int v)"
proof -
  have digit: "is_ascii_digit c \<Longrightarrow> is_ascii c" for c by (auto simp: is_ascii_digit_def is_ascii_def less_eq_char_def)
  show "list_all is_ascii (show_nat n)" for n using digits_of_show [of n] digit by (auto simp: list_all_iff)
  then show "list_all is_ascii (show_int v)" by (simp add: show_int_def) (simp add: is_ascii_def less_eq_char_def)
qed

lemma hex_digit_ascii:
  assumes "d < 16"
  shows "is_ascii (hex_digit d) \<and> hex_digit d \<noteq> CHR '':''"
proof -
  have code: "of_char (hex_digit d) = (if d < 10 then 48 + d else 87 + d)" using assms by (simp add: hex_digit_def)
  then have "of_char (hex_digit d) \<noteq> (of_char CHR '':'' :: nat)" by simp
  with code assms show ?thesis by (auto simp: is_ascii_def less_eq_char_def)
qed

lemma checksum_text:
  assumes "length (sha256 (text_bytes payload)) = 32"
  shows "length (cursor_checksum sha256 payload) = 64" "list_all is_ascii (cursor_checksum sha256 payload)"
    "CHR '':'' \<notin> set (cursor_checksum sha256 payload)"
proof -
  have byte: "unat (b :: u8) div 16 < 16" "unat b mod 16 < 16" for b
    using unsigned_less [of b, where 'a = nat] by simp_all
  have len: "length (concat (map hex_byte bs)) = 2 * length bs" for bs by (induction bs) (simp_all add: hex_byte_def)
  show "length (cursor_checksum sha256 payload) = 64" using assms by (simp add: cursor_checksum_def len)
  show "list_all is_ascii (cursor_checksum sha256 payload)" "CHR '':'' \<notin> set (cursor_checksum sha256 payload)"
    using hex_digit_ascii [OF byte(1)] hex_digit_ascii [OF byte(2)]
    by (auto simp: cursor_checksum_def hex_byte_def list_all_iff) metis+
qed

lemma cursor_decode_encode:
  assumes sha: "length (sha256 (text_bytes (cursor_payload revision as_of next_index))) = 32"
    and "- (2 ^ 63) \<le> as_of" "as_of < 2 ^ 63" and index: "next_index < 2 ^ 64"
  shows "cursor_decode sha256 (cursor_encode sha256 revision as_of next_index)
    = Ok \<lparr>cs_revision = revision, cs_as_of = as_of, cs_next_index = next_index\<rparr>"
proof -
  let ?t = "rv_transaction revision" and ?s = "rv_sequence revision"
  have rev: "\<lparr>rv_transaction = ?t, rv_sequence = ?s\<rparr> = revision" by (cases revision) simp
  let ?c = "cursor_checksum sha256 (cursor_payload revision as_of next_index)"
  have w: "unat w < 2 ^ 64" for w :: u64 by (rule order_less_le_trans [OF unsigned_less]) simp
  note check = checksum_text [of sha256, OF sha]
  have parts: "split_on (CHR '':'') (cursor_encode sha256 revision as_of next_index)
      = [''v1'', show_nat (unat ?t), show_nat (unat ?s), show_int as_of, show_nat next_index, ?c]"
    using check(3) by (simp add: cursor_encode_def Let_def cursor_payload_def split_on_join colon_not_shown split_on_none)
  have "length (cursor_encode sha256 revision as_of next_index) \<le> 160"
    using show_u64 [OF w [of ?t]] show_u64 [OF w [of ?s]] show_i64 [OF assms(2,3)] show_u64 [OF index] check(1)
    by (simp add: cursor_encode_def Let_def cursor_payload_def)
  moreover have "list_all is_ascii (cursor_encode sha256 revision as_of next_index)"
    using check(2) by (simp add: cursor_encode_def Let_def cursor_payload_def show_ascii)
      (simp add: is_ascii_def less_eq_char_def)
  moreover have "cursor_encode sha256 revision as_of next_index \<noteq> []"
    by (simp add: cursor_encode_def Let_def cursor_payload_def)
  moreover have "parse_unsigned u64_bound (show_nat (unat w)) = Some (unat w)" for w :: u64
    using w [of w] by (intro parse_unsigned_show) (simp add: u64_bound_def)
  moreover have "parse_unsigned u64_bound (show_nat next_index) = Some next_index"
    using index by (intro parse_unsigned_show) (simp add: u64_bound_def)
  ultimately show ?thesis
    using parse_i64_show [OF assms(2,3)] check(1)
    by (simp add: cursor_decode_def parts MAX_USAGE_CURSOR_BYTES_def parse_cursor_part_def ok_or_def Let_def rev)
qed

section \<open>Pages\<close>

text \<open>A client that follows the cursors, for at most \<open>fuel\<close> pages.\<close>

fun follow_pages ::
  "(u8 list \<Rightarrow> u8 list) \<Rightarrow> usage_projection \<Rightarrow> u64 option \<Rightarrow> usage_timestamp \<Rightarrow> usage_revision \<Rightarrow> usize
     \<Rightarrow> usage_cursor option \<Rightarrow> nat \<Rightarrow> usage_attempt list list usage_result" where
  "follow_pages sha256 p thread as_of revision page_size cursor 0 = Diverges"
| "follow_pages sha256 p thread as_of revision page_size cursor (Suc fuel) =
     andthen (query_page page_size cursor) (\<lambda>query.
     andthen (projection_report sha256 p thread as_of revision query) (\<lambda>report.
     case rp_page report of None \<Rightarrow> Ok []
     | Some page \<Rightarrow>
        (case pg_next_cursor page of None \<Rightarrow> Ok [pg_attempts page]
         | Some next' \<Rightarrow> map_ok (Cons (pg_attempts page))
             (follow_pages sha256 p thread as_of revision page_size (Some next') fuel))))"

definition cursor_at :: "(u8 list \<Rightarrow> u8 list) \<Rightarrow> usage_revision \<Rightarrow> int \<Rightarrow> usize \<Rightarrow> usage_cursor option \<Rightarrow> bool" where
  "cursor_at sha256 revision as_of start cursor \<longleftrightarrow>
     (cursor = None \<and> start = 0) \<or> cursor = Some (cursor_encode sha256 revision as_of start)"

lemma page_start_at:
  assumes sha: "\<And>bytes. length (sha256 bytes) = 32" and as_of: "- (2 ^ 63) \<le> as_of" "as_of < 2 ^ 63"
    and start: "start \<le> length (pj_attempts p)" "length (pj_attempts p) < 2 ^ 64"
    and cursor: "cursor_at sha256 revision as_of start cursor"
  shows "page_start sha256 p as_of revision cursor = Ok start"
proof (cases cursor)
  case None
  with cursor show ?thesis by (simp add: cursor_at_def page_start_def)
next
  case (Some c)
  then have c: "c = cursor_encode sha256 revision as_of start" using cursor by (simp add: cursor_at_def)
  have "start < 2 ^ 64" using start by simp
  from cursor_decode_encode [OF sha as_of this] show ?thesis
    using Some c start(1) by (simp add: page_start_def)
qed

lemma follow_pages_from:
  assumes sha: "\<And>bytes. length (sha256 bytes) = 32" and as_of: "- (2 ^ 63) \<le> as_of" "as_of < 2 ^ 63"
    and few: "length (pj_attempts p) < 2 ^ 64" and page_size: "0 < page_size" "page_size \<le> MAX_USAGE_PAGE_SIZE"
  shows "start \<le> length (pj_attempts p) \<Longrightarrow> cursor_at sha256 revision as_of start cursor \<Longrightarrow>
    length (pj_attempts p) - start < fuel \<Longrightarrow>
    \<exists>pages. follow_pages sha256 p thread as_of revision page_size cursor fuel = Ok pages
      \<and> concat pages = drop start (pj_attempts p) \<and> (\<forall>page \<in> set pages. length page \<le> page_size)"
proof (induction fuel arbitrary: start cursor)
  case (Suc fuel)
  let ?xs = "pj_attempts p"
  let ?last = "min (start + page_size) (length ?xs)"
  have query: "query_page page_size cursor = Ok \<lparr>qu_page_size = Some page_size, qu_cursor = cursor\<rparr>"
    using page_size by (simp add: query_page_def)
  note at = page_start_at [OF sha as_of Suc.prems(1) few Suc.prems(2)]
  let ?page = "take (?last - start) (drop start ?xs)"
  show ?case
  proof (cases "?last < length ?xs")
    case False
    then have "?page = drop start ?xs" using Suc.prems(1) by simp
    moreover have "length ?page \<le> page_size" by simp
    ultimately show ?thesis using False at by (simp add: query projection_report_def Let_def)
  next
    case True
    then have "?last \<le> length ?xs" "cursor_at sha256 revision as_of ?last (Some (cursor_encode sha256 revision as_of ?last))"
      "length ?xs - ?last < fuel"
      using Suc.prems page_size by (auto simp: cursor_at_def)
    from Suc.IH [OF this] obtain pages
      where pages: "follow_pages sha256 p thread as_of revision page_size (Some (cursor_encode sha256 revision as_of ?last)) fuel = Ok pages"
        and rest: "concat pages = drop ?last ?xs" and small: "\<forall>page \<in> set pages. length page \<le> page_size" by blast
    have "follow_pages sha256 p thread as_of revision page_size cursor (Suc fuel) = Ok (?page # pages)"
      unfolding follow_pages.simps query using at pages
      by (simp add: projection_report_def Let_def True del: min_less_iff_conj min_less_iff_disj)
    moreover have "concat (?page # pages) = drop start ?xs"
    proof -
      have "?last = start + (?last - start)" using Suc.prems(1) by simp
      then have "drop ?last ?xs = drop (?last - start) (drop start ?xs)" by (metis drop_drop add.commute)
      then show ?thesis unfolding concat.simps rest by (simp only: append_take_drop_id)
    qed
    ultimately show ?thesis using small by (intro exI [of _ "?page # pages"]) simp
  qed
qed simp

end
