(* ===== verification/Pricing_Claims.thy ===== *)
theory Pricing_Claims
  imports Pricing "HOL-Library.Multiset"
begin

text \<open>
  The properties of Cost Estimates: an amount is the exact sum over the billed tokens, at most one
  schedule of a book applies to an attempt, and the order in which schedules are given does not
  matter.
\<close>

section \<open>Overlap\<close>

text \<open>An attempt, as the schedules see it.\<close>

definition applies ::
  "string \<Rightarrow> string \<Rightarrow> provider_dialect option \<Rightarrow> usage_timestamp \<Rightarrow> string option \<Rightarrow> u64 \<Rightarrow> price_schedule \<Rightarrow> bool" where
  "applies profile model dialect started_at tier input s \<longleftrightarrow>
     matches_base s profile model dialect started_at \<and> matches_service_tier s tier \<and> matches_context s input"

lemma overlaps_sym: "overlaps s t \<longleftrightarrow> overlaps t s"
  by (auto simp: overlaps_def selectors_overlap_def ranges_overlap_def)

lemma applies_overlap:
  assumes "applies profile model dialect started_at tier input s" and "applies profile model dialect started_at tier input t"
  shows "overlaps s t"
  using assms
  by (auto simp: applies_def matches_base_def matches_service_tier_def matches_context_def overlaps_def
      selectors_overlap_def ranges_overlap_def is_none_or_def split: option.splits)

lemma any_overlap_iff: "any_overlap xs \<longleftrightarrow> \<not> sorted_wrt (\<lambda>s t. \<not> overlaps s t) xs"
  by (induction xs) (auto simp: list_ex_iff)

lemma no_overlap_unique:
  assumes "\<not> any_overlap xs" and "s \<in> set xs" and "t \<in> set xs" and "overlaps s t"
  shows "s = t"
proof -
  obtain i j where "i < length xs" "j < length xs" "s = xs ! i" "t = xs ! j"
    using assms(2,3) by (auto simp: in_set_conv_nth)
  then show ?thesis
    using assms(1,4) overlaps_sym by (cases i j rule: linorder_cases) (auto simp: any_overlap_iff sorted_wrt_iff_nth_less)
qed

lemma adjacent_distinct:
  assumes "sorted (map ps_id xs)"
  shows "adjacent_ids_equal xs \<longleftrightarrow> \<not> distinct (map ps_id xs)"
  using assms
proof (induction xs rule: adjacent_ids_equal.induct)
  case (1 s t rest)
  then have "ps_id s \<le> ps_id t" "\<forall>u \<in> set (t # rest). ps_id t \<le> ps_id u" by auto
  then show ?case using 1 by fastforce
qed auto

lemma find_Some_member: "List.find P xs = Some x \<Longrightarrow> x \<in> set xs \<and> P x"
  by (auto simp: find_Some_iff)

section \<open>Books\<close>

lemma book_new_Ok:
  assumes "price_schedule_book_new xs = Ok book"
  shows "pb_schedules book = sort_key ps_id xs" "distinct (map ps_id (pb_schedules book))"
    "\<not> any_overlap (pb_schedules book)" "length xs \<le> 256"
  using assms adjacent_distinct [of "sort_key ps_id xs"]
  by (auto simp: price_schedule_book_new_def Let_def MAX_PRICE_SCHEDULES_def not_less split: if_splits)

lemma sort_key_perm:
  assumes "mset xs = mset ys" and "distinct (map ps_id (sort_key ps_id xs))"
  shows "sort_key ps_id xs = sort_key ps_id ys"
proof (rule sort_key_inj_key_eq)
  show "mset xs = mset (sort_key ps_id ys)" using assms(1) by simp
  show "inj_on ps_id (set xs)" using assms(2) by (simp add: distinct_map)
qed simp

lemma book_new_perm:
  assumes "mset xs = mset ys"
  shows "price_schedule_book_new xs = price_schedule_book_new ys"
proof (cases "distinct (map ps_id (sort_key ps_id xs))")
  case True
  then show ?thesis
    using sort_key_perm [OF assms] mset_eq_length [OF assms] by (simp add: price_schedule_book_new_def)
next
  case False
  then have "\<not> distinct (map ps_id (sort_key ps_id ys))"
    using sort_key_perm [of ys xs] assms by metis
  with False show ?thesis
    using mset_eq_length [OF assms] by (simp add: price_schedule_book_new_def Let_def adjacent_distinct)
qed

section \<open>Amounts\<close>

text \<open>The tokens that are billed at each rate.  Counts that may be missing are zero: with such a
  schedule they do not change the amount.\<close>

definition tokens :: "u64 option \<Rightarrow> nat" where
  "tokens x = (case x of None \<Rightarrow> 0 | Some n \<Rightarrow> unat n)"

definition billed :: "price_schedule \<Rightarrow> usage_record \<Rightarrow> nat list" where
  "billed s u =
     [(tokens (ur_input_tokens u) - tokens (ur_cached_input_tokens u) - tokens (ur_cache_write_input_tokens u))
        * unat (tk_input (ps_rates s)),
      tokens (ur_cached_input_tokens u) * unat (tk_cached_input (ps_rates s)),
      tokens (ur_cache_write_input_tokens u) * unat (tk_cache_write (ps_rates s)),
      (tokens (ur_output_tokens u) - tokens (ur_reasoning_output_tokens u)) * unat (tk_output (ps_rates s)),
      tokens (ur_reasoning_output_tokens u) * unat (tk_reasoning_output (ps_rates s))]"

text \<open>When an amount can be told at all.\<close>

definition accountable :: "price_schedule \<Rightarrow> usage_record \<Rightarrow> bool" where
  "accountable s u \<longleftrightarrow>
     ur_input_tokens u \<noteq> None \<and> ur_cached_input_tokens u \<noteq> None \<and> ur_output_tokens u \<noteq> None
   \<and> (ur_cache_write_input_tokens u = None \<longrightarrow> tk_cache_write (ps_rates s) = 0)
   \<and> (ur_reasoning_output_tokens u = None \<longrightarrow> tk_reasoning_output (ps_rates s) = tk_output (ps_rates s))
   \<and> tokens (ur_cached_input_tokens u) + tokens (ur_cache_write_input_tokens u) \<le> tokens (ur_input_tokens u)
   \<and> tokens (ur_reasoning_output_tokens u) \<le> tokens (ur_output_tokens u)
   \<and> sum_list (billed s u) < 2 ^ 64"

lemma checked_Some:
  fixes a b c :: u64
  shows "checked_add a b = Some c \<longleftrightarrow> unat a + unat b < 2 ^ 64 \<and> unat c = unat a + unat b"
    and "checked_mul a b = Some c \<longleftrightarrow> unat a * unat b < 2 ^ 64 \<and> unat c = unat a * unat b"
    and "checked_sub a b = Some c \<longleftrightarrow> unat b \<le> unat a \<and> unat c = unat a - unat b"
  by (auto simp: checked_add_def checked_mul_def checked_sub_def word_le_nat_alt unat_sub word_unat_eq_iff unat_word_ariths)

lemma sum_checked_Some:
  "sum_checked acc xs = Some t \<longleftrightarrow> unat acc + sum_list (map unat xs) < 2 ^ 64 \<and> unat t = unat acc + sum_list (map unat xs)"
proof (induction xs arbitrary: acc)
  case Nil
  have "unat acc < 2 ^ 64" by (rule order_less_le_trans [OF unsigned_less]) simp
  then show ?case by (auto simp: word_unat_eq_iff)
next
  case (Cons x xs)
  show ?case
  proof (cases "checked_add acc x")
    case None
    then have "\<not> unat acc + unat x < 2 ^ 64" by (simp add: checked_add_def split: if_splits)
    with None show ?thesis by simp
  next
    case (Some v)
    then have "unat v = unat acc + unat x" by (simp add: checked_Some)
    with Some show ?thesis by (simp add: Cons.IH add.assoc)
  qed
qed

lemma let_some_simps [simp]: "let_some None reason f = Unknown reason" "let_some (Some x) reason f = f x"
  by (simp_all add: let_some_def)

definition breakdown_list :: "cost_breakdown \<Rightarrow> nat list" where
  "breakdown_list b = map unat [cb_uncached_input b, cb_cached_input b, cb_cache_write b, cb_visible_output b,
     cb_reasoning_output b]"

lemma checked_total_Some:
  "checked_total b = Some t \<longleftrightarrow> sum_list (breakdown_list b) < 2 ^ 64 \<and> unat t = sum_list (breakdown_list b)"
  unfolding checked_total_def sum_checked_Some breakdown_list_def by simp

definition products :: "price_schedule \<Rightarrow> u64 list \<Rightarrow> nat list" where
  "products s counts = map2 (\<lambda>n rate. unat n * unat rate) counts
     [tk_input (ps_rates s), tk_cached_input (ps_rates s), tk_cache_write (ps_rates s), tk_output (ps_rates s),
      tk_reasoning_output (ps_rates s)]"

lemma price_total:
  assumes "sum_list (products s [a, b, c, d, e]) < 2 ^ 64"
  obtains est where "price s u a b c d e = Known est" "ce_schedule est = s" "ce_usage_accuracy est = ur_accuracy u"
    "breakdown_list (ce_breakdown est) = products s [a, b, c, d, e]"
    "unat (ce_amount est) = sum_list (products s [a, b, c, d, e])"
proof -
  have "unat a * unat (tk_input (ps_rates s)) < 2 ^ 64" "unat b * unat (tk_cached_input (ps_rates s)) < 2 ^ 64"
    "unat c * unat (tk_cache_write (ps_rates s)) < 2 ^ 64" "unat d * unat (tk_output (ps_rates s)) < 2 ^ 64"
    "unat e * unat (tk_reasoning_output (ps_rates s)) < 2 ^ 64"
    using assms by (simp_all add: products_def)
  then obtain p q r v w where mults:
    "checked_mul a (tk_input (ps_rates s)) = Some p" "checked_mul b (tk_cached_input (ps_rates s)) = Some q"
    "checked_mul c (tk_cache_write (ps_rates s)) = Some r" "checked_mul d (tk_output (ps_rates s)) = Some v"
    "checked_mul e (tk_reasoning_output (ps_rates s)) = Some w"
    by (simp add: checked_mul_def)
  let ?b = "\<lparr>cb_uncached_input = p, cb_cached_input = q, cb_cache_write = r, cb_visible_output = v, cb_reasoning_output = w\<rparr>"
  have b: "breakdown_list ?b = products s [a, b, c, d, e]"
    using mults by (simp add: breakdown_list_def products_def checked_Some)
  then have "\<exists>t. checked_total ?b = Some t" using assms
    by (intro exI [of _ "of_nat (sum_list (products s [a, b, c, d, e]))"]) (simp add: checked_total_Some unat_of_nat)
  then obtain t where t: "checked_total ?b = Some t" ..
  then have "unat t = sum_list (products s [a, b, c, d, e])" using b by (simp add: checked_total_Some)
  then show thesis
    using mults b t by (intro that [of "\<lparr>ce_schedule = s, ce_amount = t, ce_breakdown = ?b, ce_usage_accuracy = ur_accuracy u\<rparr>"])
      (simp_all add: price_def)
qed

lemma price_overflow:
  assumes "\<not> sum_list (products s [a, b, c, d, e]) < 2 ^ 64"
  shows "price s u a b c d e = Unknown ArithmeticOverflow"
proof (cases "price s u a b c d e")
  case (Known est)
  then have "checked_total (ce_breakdown est) = Some (ce_amount est)"
    and "breakdown_list (ce_breakdown est) = products s [a, b, c, d, e]"
    by (auto simp: price_def Let_def let_some_def breakdown_list_def products_def checked_Some split: option.splits)
  then show ?thesis using assms by (simp add: checked_total_Some)
next
  case (Unknown reason)
  then show ?thesis by (auto simp: price_def Let_def let_some_def split: option.splits)
qed

lemma let_some_Known: "let_some m reason f = Known e \<longleftrightarrow> (\<exists>x. m = Some x \<and> f x = Known e)"
  by (cases m) simp_all

lemma or_zero_Some: "or_zero m free = Some w \<longleftrightarrow> tokens m = unat w \<and> (m = None \<longrightarrow> free)"
  by (auto simp: or_zero_def tokens_def word_unat_eq_iff split: option.splits)

lemma bind_sub_Some:
  "Option.bind (checked_sub a b) (\<lambda>v. checked_sub v c) = Some d \<longleftrightarrow> unat b + unat c \<le> unat a \<and> unat d = unat a - unat b - unat c"
  for a b c d :: u64
proof (cases "checked_sub a b")
  case None
  then show ?thesis by (auto simp: checked_sub_def word_le_nat_alt split: if_splits)
next
  case (Some v)
  then have "unat b \<le> unat a" "unat v = unat a - unat b" by (simp_all add: checked_Some)
  then show ?thesis unfolding Some by (auto simp: checked_Some)
qed

text \<open>The counts of a usage record that reach \<open>price\<close>.\<close>

definition counts :: "price_schedule \<Rightarrow> usage_record \<Rightarrow> u64 \<times> u64 \<times> u64 \<times> u64 \<times> u64 \<Rightarrow> bool" where
  "counts s u abcde \<longleftrightarrow> (case abcde of (a, b, c, d, e) \<Rightarrow>
     \<exists>i out. ur_input_tokens u = Some i \<and> ur_cached_input_tokens u = Some b \<and> ur_output_tokens u = Some out
     \<and> or_zero (ur_cache_write_input_tokens u) (tk_cache_write (ps_rates s) = 0) = Some c
     \<and> or_zero (ur_reasoning_output_tokens u) (tk_reasoning_output (ps_rates s) = tk_output (ps_rates s)) = Some e
     \<and> Option.bind (checked_sub i b) (\<lambda>v. checked_sub v c) = Some a \<and> checked_sub out e = Some d)"

lemma estimate_Known: "estimate s u = Known est \<longleftrightarrow> (\<exists>a b c d e. counts s u (a, b, c, d, e) \<and> price s u a b c d e = Known est)"
  by (auto simp: estimate_def let_some_Known counts_def)

lemma counts_billed: "counts s u (a, b, c, d, e) \<Longrightarrow> products s [a, b, c, d, e] = billed s u"
  by (auto simp: counts_def products_def billed_def or_zero_Some bind_sub_Some checked_Some tokens_def [of "Some _"])

lemma accountable_iff: "accountable s u \<longleftrightarrow> (\<exists>a b c d e. counts s u (a, b, c, d, e)) \<and> sum_list (billed s u) < 2 ^ 64"
proof -
  have word: "\<exists>w :: u64. unat w = n" if "n \<le> unat v" for n and v :: u64
  proof -
    have "unat v < 2 ^ 64" by (rule order_less_le_trans [OF unsigned_less]) simp
    then show ?thesis using that by (intro exI [of _ "of_nat n"]) (simp add: unat_of_nat)
  qed
  have "(\<exists>a b c d e. counts s u (a, b, c, d, e)) \<longleftrightarrow>
    ur_input_tokens u \<noteq> None \<and> ur_cached_input_tokens u \<noteq> None \<and> ur_output_tokens u \<noteq> None
   \<and> (ur_cache_write_input_tokens u = None \<longrightarrow> tk_cache_write (ps_rates s) = 0)
   \<and> (ur_reasoning_output_tokens u = None \<longrightarrow> tk_reasoning_output (ps_rates s) = tk_output (ps_rates s))
   \<and> tokens (ur_cached_input_tokens u) + tokens (ur_cache_write_input_tokens u) \<le> tokens (ur_input_tokens u)
   \<and> tokens (ur_reasoning_output_tokens u) \<le> tokens (ur_output_tokens u)" (is "?L \<longleftrightarrow> ?R")
  proof
    assume ?L
    then show ?R
      by (auto simp: counts_def or_zero_Some bind_sub_Some checked_Some tokens_def [of "Some _"])
  next
    assume R: ?R
    then obtain i b out where some: "ur_input_tokens u = Some i" "ur_cached_input_tokens u = Some b" "ur_output_tokens u = Some out"
      by blast
    then have le: "tokens (ur_cache_write_input_tokens u) \<le> unat i" "tokens (ur_reasoning_output_tokens u) \<le> unat out"
      using R by (simp_all add: tokens_def [of "Some _"])
    obtain c :: u64 where c: "unat c = tokens (ur_cache_write_input_tokens u)" using word [OF le(1)] by blast
    obtain e :: u64 where e: "unat e = tokens (ur_reasoning_output_tokens u)" using word [OF le(2)] by blast
    note ce = c e
    obtain a :: u64 where "unat a = unat i - unat b - unat c" using word [of "unat i - unat b - unat c" i] by auto
    moreover obtain d :: u64 where "unat d = unat out - unat e" using word [of "unat out - unat e" out] by auto
    ultimately have "counts s u (a, b, c, d, e)"
      using R some ce by (auto simp: counts_def or_zero_Some bind_sub_Some checked_Some tokens_def [of "Some _"])
    then show ?L by blast
  qed
  then show ?thesis by (auto simp: accountable_def)
qed

section \<open>A concrete book\<close>

definition demo_definition :: "string \<Rightarrow> u64 \<Rightarrow> u64 option \<Rightarrow> u64 \<Rightarrow> price_schedule_definition" where
  "demo_definition name minimum maximum rate =
     \<lparr>ps_id = name, ps_version = ''1'', ps_currency = ''USD'', ps_provider_profile = ''main'', ps_model = ''m'',
      ps_dialect = None, ps_service_tier = None, ps_minimum_context = minimum, ps_maximum_context = maximum,
      ps_effective_from = 0, ps_effective_until = None, ps_source = Manual, ps_source_ref = ''list'',
      ps_rates = \<lparr>tk_input = rate, tk_cached_input = 1, tk_cache_write = 0, tk_output = 5, tk_reasoning_output = 5\<rparr>\<rparr>"

definition demo_schedule :: "price_schedule_definition \<Rightarrow> price_schedule" where
  "demo_schedule d = (case price_schedule_new d of Ok s \<Rightarrow> s | _ \<Rightarrow> undefined)"

definition demo_short :: price_schedule where "demo_short = demo_schedule (demo_definition ''short'' 0 (Some 1000) 2)"
definition demo_long :: price_schedule where "demo_long = demo_schedule (demo_definition ''long'' 1000 None 4)"

definition demo_usage :: usage_record where
  "demo_usage = usage_record_default\<lparr>ur_input_tokens := Some 1500, ur_cached_input_tokens := Some 500,
     ur_output_tokens := Some 10\<rparr>"

lemma demo_valid: "is_ok (price_schedule_new (demo_definition ''short'' 0 (Some 1000) 2))"
  "is_ok (price_schedule_new (demo_definition ''long'' 1000 None 4))"
  by code_simp+

lemma demo_book: "price_schedule_book_new [demo_short, demo_long] = Ok \<lparr>pb_schedules = [demo_long, demo_short]\<rparr>"
  by code_simp

lemma demo_applies: "applies ''main'' ''m'' (Some Responses) 7 (ur_service_tier demo_usage) 1500 demo_long"
  by code_simp

section \<open>The properties\<close>

text \<open>C33 (bounds).  An estimate is known exactly when every count it needs is
  there, the parts do not exceed their totals and the exact sum fits in 64 bits; then the amount and
  each part of the breakdown are the exact products and sums, without wrap-around.  Counts the
  schedule does not need are taken as zero and do not change the amount.\<close>

theorem estimates_are_exact:
  "case estimate s u of
     Known e \<Rightarrow> accountable s u \<and> unat (ce_amount e) = sum_list (billed s u)
       \<and> breakdown_list (ce_breakdown e) = billed s u \<and> ce_schedule e = s \<and> ce_usage_accuracy e = ur_accuracy u
   | Unknown _ \<Rightarrow> \<not> accountable s u"
proof (cases "estimate s u")
  case (Known est)
  then obtain a b c d e where ok: "counts s u (a, b, c, d, e)" and price: "price s u a b c d e = Known est"
    by (auto simp: estimate_Known)
  have fits: "sum_list (products s [a, b, c, d, e]) < 2 ^ 64" using price price_overflow by fastforce
  moreover have "\<exists>a b c d e. counts s u (a, b, c, d, e)" using ok by blast
  ultimately have "accountable s u" using counts_billed [OF ok] unfolding accountable_iff by simp
  with Known show ?thesis
    using price_total [OF fits, of u] price counts_billed [OF ok] by auto
next
  case (Unknown reason)
  have "estimate s u \<noteq> Unknown reason" if acc: "accountable s u"
  proof -
    from acc obtain a b c d e where ok: "counts s u (a, b, c, d, e)" and fits: "sum_list (billed s u) < 2 ^ 64"
      by (auto simp: accountable_iff)
    obtain est where "price s u a b c d e = Known est"
      using price_total [of s a b c d e u] fits counts_billed [OF ok] by metis
    with ok have "estimate s u = Known est" unfolding estimate_Known by blast
    then show ?thesis by simp
  qed
  with Unknown show ?thesis by auto
qed

text \<open>Of the schedules a book accepted, at most one applies to
  an attempt, whatever its Provider, model, dialect, start, tier and input size; it is the one the
  estimate is made with.\<close>

theorem one_schedule_applies:
  assumes "price_schedule_book_new xs = Ok book" and "s \<in> set xs"
    and "applies profile model dialect started_at (ur_service_tier u) input s" and "ur_input_tokens u = Some input"
  shows "(\<forall>t \<in> set xs. applies profile model dialect started_at (ur_service_tier u) input t \<longrightarrow> t = s)
    \<and> estimate_attempt book profile model dialect started_at u = estimate s u"
proof -
  have unique: "t = s" if "t \<in> set xs" "applies profile model dialect started_at (ur_service_tier u) input t" for t
    using no_overlap_unique [OF book_new_Ok(3) [OF assms(1)], of t s] book_new_Ok(1) [OF assms(1)] that assms(2,3)
      applies_overlap by simp
  let ?tiers = "filter (\<lambda>s. matches_service_tier s (ur_service_tier u))
    (filter (\<lambda>s. matches_base s profile model dialect started_at) (pb_schedules book))"
  have s: "s \<in> set ?tiers" "matches_context s input"
    using assms book_new_Ok(1) [OF assms(1)] by (auto simp: applies_def)
  then obtain t where t: "List.find (\<lambda>s. matches_context s input) ?tiers = Some t"
    by (cases "List.find (\<lambda>s. matches_context s input) ?tiers") (auto simp: find_None_iff)
  then have "t \<in> set ?tiers" "matches_context t input" using find_Some_member by metis+
  then have "t = s" using unique [of t] book_new_Ok(1) [OF assms(1)] by (auto simp: applies_def)
  moreover have "?tiers \<noteq> []" "filter (\<lambda>s. matches_base s profile model dialect started_at) (pb_schedules book) \<noteq> []"
    using s(1) by (auto simp: filter_empty_conv)
  ultimately have "estimate_attempt book profile model dialect started_at u = estimate s u"
    using t assms(4) by (simp add: estimate_attempt_def Let_def del: filter_filter)
  then show ?thesis using unique by blast
qed

theorem one_schedule_applies_witness:
  "estimate_attempt \<lparr>pb_schedules = [demo_long, demo_short]\<rparr> ''main'' ''m'' (Some Responses) 7 demo_usage
     = estimate demo_long demo_usage"
  using one_schedule_applies [OF demo_book, of demo_long "''main''" "''m''" "Some Responses" 7 demo_usage 1500] demo_applies
  by (simp add: demo_usage_def)

text \<open>The order in which schedules are given changes
  neither the book nor the error.\<close>

theorem book_order_is_irrelevant:
  assumes "mset xs = mset ys"
  shows "price_schedule_book_new xs = price_schedule_book_new ys"
  by (rule book_new_perm [OF assms])

theorem book_order_is_irrelevant_witness:
  "price_schedule_book_new [demo_long, demo_short] = Ok \<lparr>pb_schedules = [demo_long, demo_short]\<rparr>"
  using book_order_is_irrelevant [of "[demo_short, demo_long]" "[demo_long, demo_short]"] demo_book by simp

end
