(* ===== verification/Usage_Claims.thy ===== *)
theory Usage_Claims
  imports Usage_Pages Pricing_Claims
begin

text \<open>
  Properties of usage accounting: cached rollups, costs, rolling windows, pages and usage windows.
\<close>

section \<open>Histories\<close>

text \<open>What the Turn runtime does with a projection: attempts built by the constructor are recorded, and the
  outcomes of cost estimates are recorded for attempts, known or not.\<close>

inductive usage_history :: "usage_projection \<Rightarrow> bool" where
  usage_empty: "usage_history usage_projection_default"
| usage_record: "usage_history p' \<Longrightarrow> usage_attempt_new attempt thread turn agent profile model dialect started completed outcome usage windows = Ok a
    \<Longrightarrow> projection_record p' (with_requested_policy a context_mode effort tier) = Ok p \<Longrightarrow> usage_history p"
| usage_cost: "usage_history p' \<Longrightarrow> projection_record_cost p' turn attempt outcome = (result, p) \<Longrightarrow> usage_history p"

lemma attempt_new_Ok:
  assumes "usage_attempt_new attempt thread turn agent profile model dialect started completed outcome usage windows = Ok a"
  shows "distinct (ua_named_windows (with_requested_policy a context_mode effort tier))"
    and "ua_cost_estimate (with_requested_policy a context_mode effort tier) = None"
  using assms by (auto simp: usage_attempt_new_def with_requested_policy_def distinct_map split: if_splits)

lemma record_cost_cases:
  obtains (missing) "find_position (is_attempt turn attempt) (pj_attempts p) = None"
      "projection_record_cost p turn attempt outcome = (Err UnknownAttempt, p)"
  | (twice) i where "find_position (is_attempt turn attempt) (pj_attempts p) = Some i"
      "attempt_record_cost (pj_attempts p ! i) outcome = Err DuplicateCostEvaluation"
      "projection_record_cost p turn attempt outcome = (Err DuplicateCostEvaluation, p)"
  | (priced) i a where "find_position (is_attempt turn attempt) (pj_attempts p) = Some i"
      "attempt_record_cost (pj_attempts p ! i) outcome = Ok a"
proof (cases "find_position (is_attempt turn attempt) (pj_attempts p)")
  case None
  then show ?thesis using missing by (simp add: projection_record_cost_def)
next
  case (Some i)
  show ?thesis
  proof (cases "ua_cost_estimate (pj_attempts p ! i) \<noteq> None \<or> ua_cost_unknown_reason (pj_attempts p ! i) \<noteq> None")
    case True
    then have "attempt_record_cost (pj_attempts p ! i) outcome = Err DuplicateCostEvaluation"
      by (auto simp: attempt_record_cost_def)
    then show ?thesis using twice Some by (simp add: projection_record_cost_def)
  next
    case False
    then obtain a where "attempt_record_cost (pj_attempts p ! i) outcome = Ok a" by (auto simp: attempt_record_cost_def)
    then show ?thesis using priced Some by blast
  qed
qed

lemma then_step_keeps: "Q (snd step) \<Longrightarrow> (\<And>s. Q s \<Longrightarrow> Q (snd (f s))) \<Longrightarrow> Q (snd (then_step step f))"
  by (auto simp: then_step_def split: prod.splits result.splits)

lemma record_cost_length: "length (pj_attempts (snd (projection_record_cost p turn attempt outcome))) = length (pj_attempts p)"
proof (cases rule: record_cost_cases [of turn attempt p outcome])
  case (priced i a)
  let ?Q = "\<lambda>q. length (pj_attempts q) = length (pj_attempts p)"
  show ?thesis unfolding projection_record_cost_scopes [OF priced]
    by (intro then_step_keeps [of ?Q]) simp_all
qed simp_all

lemma history_exact: "usage_history p \<Longrightarrow> length (pj_attempts p) < 2 ^ 64 \<Longrightarrow> projection_exact p"
proof (induction rule: usage_history.induct)
  case usage_empty
  show ?case by (rule projection_exact_default)
next
  case (usage_record p' attempt thread turn agent profile model dialect started completed outcome usage windows a context_mode effort tier p)
  note new = attempt_new_Ok [OF usage_record.hyps(2), of context_mode effort tier]
  have "pj_attempts p = pj_attempts p' @ [with_requested_policy a context_mode effort tier]"
    using usage_record.hyps(3) by (auto simp: projection_record_def split: if_splits)
  then have "projection_exact p'" using usage_record by simp
  from projection_record_exact(1) [OF this new usage_record.hyps(3)] show ?case .
next
  case (usage_cost p' turn attempt outcome result p)
  show ?case
  proof (cases rule: record_cost_cases [of turn attempt p' outcome])
    case missing
    with usage_cost show ?thesis by simp
  next
    case (twice i)
    with usage_cost show ?thesis by simp
  next
    case (priced i a)
    show ?thesis
    proof (cases "length (pj_attempts p') < 2 ^ 64")
      case True
      with usage_cost.IH have "projection_exact p'" .
      from projection_record_cost_exact [OF this True priced] show ?thesis using usage_cost.hyps(2) by auto
    next
      case False
      have "length (pj_attempts p) = length (pj_attempts p')"
        using usage_cost.hyps(2) record_cost_length [of p' turn attempt outcome] by simp
      with False usage_cost.prems show ?thesis by simp
    qed
  qed
qed

lemma find_is_position: "List.find P xs = map_option ((!) xs) (find_position P xs)"
  by (induction xs) (auto simp: option.map_comp comp_def)

lemma find_position_update: "find_position P xs = Some i \<Longrightarrow> P y \<Longrightarrow> find_position P (xs[i := y]) = Some i"
  by (induction xs arbitrary: i) (auto split: if_splits)

section \<open>Reported totals\<close>

text \<open>The sum of the counts of one accuracy in the records of the attempts; and a \<open>u64\<close> that holds it, if one can.\<close>

definition reported :: "(usage_record \<Rightarrow> u64 option) \<Rightarrow> usage_accuracy \<Rightarrow> usage_attempt list \<Rightarrow> nat" where
  "reported field accuracy xs = sum_list (map (\<lambda>a. case ua_usage a of None \<Rightarrow> 0
     | Some u \<Rightarrow> if ur_accuracy u = accuracy then tokens (field u) else 0) xs)"

definition fitting :: "nat \<Rightarrow> u64 option" where
  "fitting n = (if n < 2 ^ 64 then Some (of_nat n) else None)"

lemma fitting_add: "Option.bind (fitting n) (\<lambda>c. checked_add c v) = fitting (n + unat v)"
  by (auto simp: fitting_def checked_add_def unsigned_of_nat take_bit_eq_mod)

definition observe_field :: "(usage_record \<Rightarrow> u64 option) \<Rightarrow> usage_quantity \<Rightarrow> usage_attempt \<Rightarrow> usage_quantity" where
  "observe_field field q a = (case ua_usage a of None \<Rightarrow> quantity_observe None Exact q
     | Some u \<Rightarrow> quantity_observe (field u) (ur_accuracy u) q)"

lemma observe_field_total:
  "uq_exact (foldl (observe_field field) usage_quantity_default xs) = fitting (reported field Exact xs)
   \<and> uq_estimated (foldl (observe_field field) usage_quantity_default xs) = fitting (reported field Estimated xs)"
proof (induction xs rule: rev_induct)
  case Nil
  then show ?case by (simp add: reported_def usage_quantity_default_def fitting_def)
next
  case (snoc a xs)
  let ?q = "foldl (observe_field field) usage_quantity_default xs"
  show ?case
  proof (cases "ua_usage a")
    case None
    then show ?thesis using snoc by (simp add: observe_field_def quantity_observe_def reported_def)
  next
    case (Some u)
    then show ?thesis using snoc
      by (cases "field u"; cases "ur_accuracy u")
        (simp_all add: observe_field_def quantity_observe_def reported_def tokens_def Let_def fitting_add)
  qed
qed

lemma observe_attempt_fields:
  "ro_input_tokens (observe_attempt r a) = observe_field ur_input_tokens (ro_input_tokens r) a"
  "ro_cached_input_tokens (observe_attempt r a) = observe_field ur_cached_input_tokens (ro_cached_input_tokens r) a"
  "ro_output_tokens (observe_attempt r a) = observe_field ur_output_tokens (ro_output_tokens r) a"
  "ro_total_tokens (observe_attempt r a) = observe_field ur_total_tokens (ro_total_tokens r) a"
  "ro_attempts (observe_attempt r a) = saturating_add (ro_attempts r) 1"
  by (cases "ua_cost_estimate a"; cases "ua_usage a"; simp add: observe_attempt_def rollup_observe_alt rollup_observe_cost_def
      observe_identity_def observe_usage_def observe_no_usage_def observe_field_def Let_def)+

lemma rollup_of_fields:
  "ro_input_tokens (rollup_of xs) = foldl (observe_field ur_input_tokens) usage_quantity_default xs"
  "ro_cached_input_tokens (rollup_of xs) = foldl (observe_field ur_cached_input_tokens) usage_quantity_default xs"
  "ro_output_tokens (rollup_of xs) = foldl (observe_field ur_output_tokens) usage_quantity_default xs"
  "ro_total_tokens (rollup_of xs) = foldl (observe_field ur_total_tokens) usage_quantity_default xs"
  "unat (ro_attempts (rollup_of xs)) = min (length xs) (2 ^ 64 - 1)"
proof (induction xs rule: rev_induct)
  case Nil
  { case 1 show ?case by (simp add: rollup_of_def usage_rollup_default_def)
  next case 2 show ?case by (simp add: rollup_of_def usage_rollup_default_def)
  next case 3 show ?case by (simp add: rollup_of_def usage_rollup_default_def)
  next case 4 show ?case by (simp add: rollup_of_def usage_rollup_default_def)
  next case 5 show ?case by (simp add: rollup_of_def usage_rollup_default_def) }
next
  case (snoc a xs)
  note step = rollup_of_def foldl_append foldl.simps observe_attempt_fields
  { case 1 show ?case using snoc(1) by (simp add: step)
  next case 2 show ?case using snoc(2) by (simp add: step)
  next case 3 show ?case using snoc(3) by (simp add: step)
  next case 4 show ?case using snoc(4) by (simp add: step)
  next case 5 show ?case using snoc(5) by (simp add: step unat_saturating_add) }
qed

section \<open>Local minutes of a window\<close>

text \<open>The minutes a window covers, counted from the midnight that starts its day; past 1440 they are on the
  next day.\<close>

definition window_span :: "usage_window \<Rightarrow> nat set" where
  "window_span w = (let s = unat (uw_start_minute w); e = unat (uw_end_minute w) in
     if s < e then {s..<e} else {s..<e + 1440})"

section \<open>A concrete history\<close>

text \<open>Two attempts of one Turn, the first of which is priced once the second has been recorded.\<close>

definition demo_window :: usage_window where
  "demo_window = UsageWindow ''night'' 1320 360 {|Mon|} ''UTC'' Explicit ''2025b''"

definition demo_attempt :: "u32 \<Rightarrow> usage_attempt" where
  "demo_attempt n = (case usage_attempt_new n 1 2 (Some 3) ''main'' ''m'' (Some Responses) (Some (int (unat n) * 1000)) None Succeeded
     (Some demo_usage) [demo_window] of Ok a \<Rightarrow> with_requested_policy a None (Some ''high'') None | _ \<Rightarrow> undefined)"

definition demo_record :: "usage_projection \<Rightarrow> usage_attempt \<Rightarrow> usage_projection" where
  "demo_record p a = (case projection_record p a of Ok q \<Rightarrow> q | _ \<Rightarrow> p)"

definition demo_two :: usage_projection where
  "demo_two = demo_record (demo_record usage_projection_default (demo_attempt 1)) (demo_attempt 2)"

definition demo_outcome :: cost_estimate_outcome where
  "demo_outcome = estimate demo_long demo_usage"

definition demo_priced :: usage_projection where
  "demo_priced = snd (projection_record_cost demo_two 2 1 demo_outcome)"

lemma demo_attempt_new:
  "n \<noteq> 0 \<Longrightarrow> \<exists>a. usage_attempt_new n 1 2 (Some 3) ''main'' ''m'' (Some Responses) (Some (int (unat n) * 1000)) None Succeeded
     (Some demo_usage) [demo_window] = Ok a \<and> demo_attempt n = with_requested_policy a None (Some ''high'') None"
  by (simp add: demo_attempt_def usage_attempt_new_def)

lemma demo_identity [simp]: "n \<noteq> 0 \<Longrightarrow> ua_attempt (demo_attempt n) = n" "n \<noteq> 0 \<Longrightarrow> ua_turn (demo_attempt n) = 2"
  "n \<noteq> 0 \<Longrightarrow> ua_cost_estimate (demo_attempt n) = None" "n \<noteq> 0 \<Longrightarrow> ua_cost_unknown_reason (demo_attempt n) = None"
  by (simp_all add: demo_attempt_def usage_attempt_new_def with_requested_policy_def)

lemma demo_record_Ok:
  "\<forall>b \<in> set (pj_attempts p). \<not> is_attempt (ua_turn a) (ua_attempt a) b \<Longrightarrow>
    projection_record p a = Ok (demo_record p a) \<and> pj_attempts (demo_record p a) = pj_attempts p @ [a]"
  by (simp add: demo_record_def projection_record_def list_ex_iff)

lemma demo_history_record:
  assumes "usage_history p" and "n \<noteq> 0" and "\<forall>b \<in> set (pj_attempts p). \<not> is_attempt 2 n b"
  shows "usage_history (demo_record p (demo_attempt n))" "pj_attempts (demo_record p (demo_attempt n)) = pj_attempts p @ [demo_attempt n]"
proof -
  obtain a where a: "usage_attempt_new n 1 2 (Some 3) ''main'' ''m'' (Some Responses) (Some (int (unat n) * 1000)) None Succeeded
     (Some demo_usage) [demo_window] = Ok a" "demo_attempt n = with_requested_policy a None (Some ''high'') None"
    using demo_attempt_new [OF assms(2)] by blast
  have rec: "projection_record p (demo_attempt n) = Ok (demo_record p (demo_attempt n))"
    "pj_attempts (demo_record p (demo_attempt n)) = pj_attempts p @ [demo_attempt n]"
    using demo_record_Ok [of p "demo_attempt n"] assms(2,3) by simp_all
  show "usage_history (demo_record p (demo_attempt n))" using usage_record [OF assms(1) a(1)] rec(1) a(2) by simp
  show "pj_attempts (demo_record p (demo_attempt n)) = pj_attempts p @ [demo_attempt n]" by (rule rec(2))
qed

lemma demo_history:
  "usage_history demo_two" "pj_attempts demo_two = [demo_attempt 1, demo_attempt 2]"
  "usage_history demo_priced" "length (pj_attempts demo_priced) = 2"
proof -
  have one: "usage_history (demo_record usage_projection_default (demo_attempt 1))"
    "pj_attempts (demo_record usage_projection_default (demo_attempt 1)) = [demo_attempt 1]"
    using demo_history_record [OF usage_empty, of 1] by (simp_all add: usage_projection_default_def)
  show two: "usage_history demo_two" "pj_attempts demo_two = [demo_attempt 1, demo_attempt 2]"
    using demo_history_record [OF one(1), of 2] one(2) by (simp_all add: demo_two_def is_attempt_def)
  show "usage_history demo_priced" unfolding demo_priced_def using two(1) by (rule usage_cost) (rule surjective_pairing)
  show "length (pj_attempts demo_priced) = 2" unfolding demo_priced_def record_cost_length two(2) by simp
qed

definition demo_zone :: "unit tz_rules" where
  "demo_zone = \<lparr>tz_get = (\<lambda>name. if name = ''UTC'' \<or> name = ''Zulu'' then Some (''UTC'', []) else None), tz_version = Some ''2025b'',
     tz_tzif = (\<lambda>_ _. Some ()),
     tz_civil = (\<lambda>_ t. Some \<lparr>cv_hour = nat (t div MILLIS_PER_HOUR mod 24), cv_minute = nat (t div 60000 mod 60),
       cv_weekday = Tuesday, cv_yesterday = Some Monday\<rparr>),
     tz_system = Some ''UTC''\<rparr>"

text \<open>The halves of a local time may carry a sign, although the error message asks for HH:MM.\<close>

lemma signed_time_accepted: "parse_local_time ''+1:+2'' = Ok 62"
  by (simp add: parse_local_time_def parse_unsigned_def digit_value_def is_ascii_digit_def less_eq_char_def ok_or_def)

section \<open>Properties\<close>

definition rollup_if_any :: "usage_attempt list \<Rightarrow> usage_rollup option" where
  "rollup_if_any xs = (if xs = [] then None else Some (rollup_of xs))"

lemma cache_rollup:
  assumes "cache_exact scope xs m" and "length xs < 2 ^ 64"
  shows "bt_get m k = rollup_if_any (filter (\<lambda>a. k \<in> set (scope a)) xs)"
proof -
  have "length (filter (\<lambda>a. k \<in> set (scope a)) xs) < 2 ^ 64" using assms(2) by (rule le_less_trans [OF length_filter_le])
  from rollup_of_contributions [OF this] show ?thesis
    using assms(1) by (simp add: cache_exact_def in_scope_def rollup_if_any_def)
qed

text \<open>C32 (invariant).  After any history of recorded attempts and costs, every cached
  rollup (the total and those by Thread, Turn, Agent, usage window and starting instant) equals the rollup
  computed from scratch over exactly the recorded attempts of that scope, and a scope without attempts has no
  entry.  Costs that arrive later, in any order, leave no difference.\<close>

theorem cached_rollups_are_exact:
  assumes "usage_history p" and "length (pj_attempts p) < 2 ^ 64"
  shows "pj_total p = rollup_of (pj_attempts p)
    \<and> (\<forall>thread. bt_get (pj_threads p) thread = rollup_if_any (filter (\<lambda>a. ua_thread a = thread) (pj_attempts p)))
    \<and> (\<forall>turn. bt_get (pj_turns p) turn = rollup_if_any (filter (\<lambda>a. ua_turn a = turn) (pj_attempts p)))
    \<and> (\<forall>agent. bt_get (pj_agents p) agent = rollup_if_any (filter (\<lambda>a. ua_agent a = Some agent) (pj_attempts p)))
    \<and> (\<forall>w. bt_get (pj_named_windows p) w = rollup_if_any (filter (\<lambda>a. w \<in> set (ua_named_windows a)) (pj_attempts p)))
    \<and> (\<forall>t. bt_get (pj_instants p) t = rollup_if_any (filter (\<lambda>a. ua_started_at a = Some t) (pj_attempts p)))"
proof -
  have exact: "projection_exact p" using assms by (rule history_exact)
  note cached = cache_rollup [OF _ assms(2)]
  have scopes: "agent \<in> set (agent_scope a) \<longleftrightarrow> ua_agent a = Some agent" "t \<in> set (instant_scope a) \<longleftrightarrow> ua_started_at a = Some t"
    for a agent t by (auto simp: agent_scope_def instant_scope_def split: option.splits)
  have single: "x \<in> set [y] \<longleftrightarrow> y = x" for x y :: u64 by auto
  from exact have caches: "cache_exact thread_scope (pj_attempts p) (pj_threads p)" "cache_exact turn_scope (pj_attempts p) (pj_turns p)"
    "cache_exact agent_scope (pj_attempts p) (pj_agents p)" "cache_exact ua_named_windows (pj_attempts p) (pj_named_windows p)"
    "cache_exact instant_scope (pj_attempts p) (pj_instants p)" and total: "pj_total p = contributions (pj_attempts p)"
    by (simp_all add: projection_exact_def)
  show ?thesis
    using total rollup_of_contributions [OF assms(2)] cached [OF caches(1)] cached [OF caches(2)] cached [OF caches(3)]
      cached [OF caches(4)] cached [OF caches(5)] unfolding scopes single by simp
qed

theorem cached_rollups_are_exact_witness:
  "pj_total demo_priced = rollup_of (pj_attempts demo_priced)"
  using cached_rollups_are_exact [OF demo_history(3)] demo_history(4) by simp

text \<open>Recording a cost either succeeds, or fails and changes nothing: it never
  stops halfway between two caches.  It fails with \<open>UnknownAttempt\<close> exactly when no such attempt was
  recorded, and with \<open>DuplicateCostEvaluation\<close> exactly when that attempt already has an outcome.\<close>

theorem cost_is_recorded_once:
  assumes "usage_history p" and "length (pj_attempts p) < 2 ^ 64"
    and "projection_record_cost p turn attempt outcome = (result, p')"
  shows "case projection_attempt p turn attempt of
      None \<Rightarrow> result = Err UnknownAttempt \<and> p' = p
    | Some a \<Rightarrow>
        if ua_cost_estimate a = None \<and> ua_cost_unknown_reason a = None
        then result = Ok () \<and> projection_attempt p' turn attempt
            = Some (case outcome of Known est \<Rightarrow> a\<lparr>ua_cost_provenance := ProvenancePriceSchedule, ua_cost_estimate := Some est\<rparr>
                | Unknown reason \<Rightarrow> a\<lparr>ua_cost_unknown_reason := Some reason\<rparr>)
        else result = Err DuplicateCostEvaluation \<and> p' = p"
proof -
  have exact: "projection_exact p" using assms(1,2) by (rule history_exact)
  have found: "projection_attempt p turn attempt
      = map_option ((!) (pj_attempts p)) (find_position (is_attempt turn attempt) (pj_attempts p))"
    unfolding projection_attempt_def by (rule find_is_position)
  show ?thesis
  proof (cases rule: record_cost_cases [of turn attempt p outcome])
    case missing
    then have "result = Err UnknownAttempt" "p' = p" using assms(3) by simp_all
    then show ?thesis unfolding found missing(1) by simp
  next
    case (twice i)
    then have "ua_cost_estimate (pj_attempts p ! i) \<noteq> None \<or> ua_cost_unknown_reason (pj_attempts p ! i) \<noteq> None"
      by (auto simp: attempt_record_cost_def split: if_splits)
    moreover have "result = Err DuplicateCostEvaluation" "p' = p" using twice(3) assms(3) by simp_all
    ultimately show ?thesis unfolding found twice(1) by auto
  next
    case (priced i a)
    obtain q where q: "projection_record_cost p turn attempt outcome = (Ok (), q)" "pj_attempts q = (pj_attempts p)[i := a]"
      by (rule projection_record_cost_exact [OF exact assms(2) priced])
    note pos = find_position_Some [OF priced(1)]
    have "find_position (is_attempt turn attempt) ((pj_attempts p)[i := a]) = Some i"
      using priced(1) attempt_record_cost_keeps(1,2) [OF priced(2)] pos
      by (intro find_position_update) (simp_all add: is_attempt_def)
    then have "projection_attempt q turn attempt = Some a"
      using pos by (simp add: projection_attempt_def find_is_position q(2))
    moreover have "result = Ok ()" "p' = q" using q(1) assms(3) by simp_all
    ultimately show ?thesis unfolding found priced(1) using priced(2)
      by (cases outcome) (auto simp: attempt_record_cost_def split: if_splits)
  qed
qed

theorem cost_is_recorded_once_witness:
  "projection_record_cost demo_two 2 1 demo_outcome = (Ok (), demo_priced)"
proof -
  have "projection_attempt demo_two 2 1 = Some (demo_attempt 1)"
    by (simp add: projection_attempt_def demo_history(2) is_attempt_def)
  then show ?thesis
    using cost_is_recorded_once [OF demo_history(1), of 2 1 demo_outcome "fst (projection_record_cost demo_two 2 1 demo_outcome)" demo_priced]
    by (simp add: demo_history(2) demo_priced_def prod_eq_iff)
qed

text \<open>The rolling totals, which the code merges from the
  per-instant caches, are the rollup computed from scratch over the attempts that started in the half-open
  interval of that length before the query.\<close>

theorem rolling_totals_are_windows:
  assumes "usage_history p" and "length (pj_attempts p) < 2 ^ 64"
  shows "projection_rolling p as_of duration = rollup_of (filter (\<lambda>a. case ua_started_at a of None \<Rightarrow> False
    | Some t \<Rightarrow> max (- (2 ^ 63)) (min (2 ^ 63 - 1) (as_of - duration)) \<le> t \<and> t < as_of) (pj_attempts p))"
proof -
  have "length (filter P (pj_attempts p)) < 2 ^ 64" for P using assms(2) by (rule le_less_trans [OF length_filter_le])
  then show ?thesis
    using rolling_exact [OF history_exact [OF assms], of as_of duration] by (simp only: rollup_of_contributions i64_saturating_sub_def)
qed

theorem rolling_totals_are_windows_witness:
  "projection_rolling demo_priced 2000 MILLIS_PER_HOUR = rollup_of (filter (\<lambda>a. case ua_started_at a of None \<Rightarrow> False
    | Some t \<Rightarrow> max (- (2 ^ 63)) (min (2 ^ 63 - 1) (2000 - MILLIS_PER_HOUR)) \<le> t \<and> t < 2000) (pj_attempts demo_priced))"
  using rolling_totals_are_windows [OF demo_history(3), of 2000 MILLIS_PER_HOUR] demo_history(4) by simp

text \<open>C34 (bounds).  In the rollup of any attempts the exact and the estimated totals of input,
  cached, output and all tokens are the sums of the counts reported with that accuracy, and are absent exactly
  when the sum does not fit 64 bits; no total ever wraps.\<close>

theorem totals_never_wrap:
  "uq_exact (ro_input_tokens (rollup_of xs)) = fitting (reported ur_input_tokens Exact xs)
   \<and> uq_estimated (ro_input_tokens (rollup_of xs)) = fitting (reported ur_input_tokens Estimated xs)
   \<and> uq_exact (ro_cached_input_tokens (rollup_of xs)) = fitting (reported ur_cached_input_tokens Exact xs)
   \<and> uq_estimated (ro_cached_input_tokens (rollup_of xs)) = fitting (reported ur_cached_input_tokens Estimated xs)
   \<and> uq_exact (ro_output_tokens (rollup_of xs)) = fitting (reported ur_output_tokens Exact xs)
   \<and> uq_estimated (ro_output_tokens (rollup_of xs)) = fitting (reported ur_output_tokens Estimated xs)
   \<and> uq_exact (ro_total_tokens (rollup_of xs)) = fitting (reported ur_total_tokens Exact xs)
   \<and> uq_estimated (ro_total_tokens (rollup_of xs)) = fitting (reported ur_total_tokens Estimated xs)
   \<and> unat (ro_attempts (rollup_of xs)) = min (length xs) (2 ^ 64 - 1)"
  by (simp only: rollup_of_fields observe_field_total)

text \<open>C35 (roundtrip).  A client that asks for the first page and then follows the
  cursors it is given, with the same revision and instant, receives every recorded attempt once and in
  order, in pages of at most the requested size, and no cursor it was given is refused.  The digest is any function
  to 32 bytes.\<close>

theorem pages_visit_every_attempt:
  assumes "\<And>bytes. length (sha256 bytes) = 32" and "- (2 ^ 63) \<le> as_of" and "as_of < 2 ^ 63"
    and "length (pj_attempts p) < 2 ^ 64" and "0 < page_size" and "page_size \<le> MAX_USAGE_PAGE_SIZE"
  shows "\<exists>pages. follow_pages sha256 p thread as_of revision page_size None (Suc (length (pj_attempts p))) = Ok pages
    \<and> concat pages = pj_attempts p \<and> (\<forall>page \<in> set pages. length page \<le> page_size)"
  using follow_pages_from [where start = 0 and cursor = None and revision = revision and thread = thread
      and fuel = "Suc (length (pj_attempts p))", OF assms] by (simp add: cursor_at_def)

theorem pages_visit_every_attempt_witness:
  "\<exists>pages. follow_pages (\<lambda>_. replicate 32 7) demo_two None 2000 \<lparr>rv_transaction = 4, rv_sequence = 9\<rparr> 1 None 3 = Ok pages
    \<and> concat pages = [demo_attempt 1, demo_attempt 2] \<and> (\<forall>page \<in> set pages. length page \<le> 1)"
  using pages_visit_every_attempt [of "\<lambda>_. replicate 32 7" 2000 demo_two 1 None "\<lparr>rv_transaction = 4, rv_sequence = 9\<rparr>"]
  by (simp add: demo_history(2) MAX_USAGE_PAGE_SIZE_def numeral_3_eq_3)

text \<open>Whether an instant lies in a usage window depends on the local minute and
  day only: it does when today, or yesterday for a window that passes midnight, is a day of the window and the
  minutes since that day began are in its span.\<close>

theorem windows_cover_local_days:
  assumes "require_current_ruleset tz w = Ok ()" and "tz_get tz (uw_timezone w) = Some (name, data)"
    and "tz_tzif tz (uw_timezone w) data = Some zone" and "tz_civil tz zone instant = Some local"
    and "cv_hour local < 24" and "cv_minute local < 60" and "cv_yesterday local = Some yesterday"
    and "unat (uw_start_minute w) < 1440" and "unat (uw_end_minute w) < 1440"
  shows "window_contains tz w instant = Ok (let m = cv_hour local * 60 + cv_minute local in
      (from_jiff (cv_weekday local) |\<in>| uw_days w \<and> m \<in> window_span w)
      \<or> (from_jiff yesterday |\<in>| uw_days w \<and> m + 1440 \<in> window_span w))"
proof -
  let ?m = "cv_hour local * 60 + cv_minute local"
  have "?m < 1440" using assms(5,6) by simp
  then have minute: "unat (of_nat (cv_hour local) * 60 + of_nat (cv_minute local) :: u16) = ?m"
    by (simp add: unat_word_ariths unsigned_of_nat take_bit_eq_mod mod_add_eq mod_mult_left_eq)
  show ?thesis
    using assms \<open>?m < 1440\<close>
    by (auto simp: window_contains_def bundled_timezone_def ok_or_def window_span_def Let_def word_less_nat_alt
        word_le_nat_alt minute)
qed

theorem windows_cover_local_days_witness:
  "window_contains demo_zone demo_window (5 * MILLIS_PER_HOUR) = Ok True"
  using windows_cover_local_days [of demo_zone demo_window "''UTC''" "[]" "()" "5 * MILLIS_PER_HOUR"
      "\<lparr>cv_hour = 5, cv_minute = 0, cv_weekday = Tuesday, cv_yesterday = Some Monday\<rparr>" Monday]
  by (simp add: demo_zone_def demo_window_def require_current_ruleset_def current_ruleset_version_def MILLIS_PER_HOUR_def
      window_span_def Let_def)

text \<open>A window that configuration resolved is well formed (a valid identifier,
  two different minutes of a day, at least one day), belongs to the current rule set, and is accepted again,
  unchanged, when it is rebuilt from its stored parts; provided a zone's canonical name names the same zone and the
  database has a version.\<close>

theorem resolved_windows_revalidate:
  assumes "usage_window_resolve tz name start_time end_time days timezone = Ok w"
    and "\<And>zone canonical data. tz_get tz zone = Some (canonical, data) \<Longrightarrow> tz_get tz canonical = Some (canonical, data)"
    and "tz_version tz \<noteq> Some []"
  shows "unat (uw_start_minute w) < 1440 \<and> unat (uw_end_minute w) < 1440 \<and> uw_start_minute w \<noteq> uw_end_minute w
    \<and> uw_days w = fset_of_list days \<and> days \<noteq> [] \<and> uw_id w = name
    \<and> require_current_ruleset tz w = Ok ()
    \<and> from_resolved_parts tz (uw_id w) (uw_start_minute w) (uw_end_minute w) (uw_days w) (uw_timezone w)
        (uw_timezone_source w) (uw_ruleset_version w) = Ok w"
proof -
  obtain s e zone source version where ok: "validate_window_id name = Ok ()" "parse_local_time start_time = Ok s"
    "parse_local_time end_time = Ok e" "s \<noteq> e" "fset_of_list days \<noteq> {||}" "resolve_timezone tz timezone = Ok (zone, source)"
    "tz_version tz = Some version" "w = UsageWindow name s e (fset_of_list days) zone source version"
    using assms(1) by (simp add: usage_window_resolve_def result_ok Let_def current_ruleset_version_def split: if_splits) blast
  have "unat t < 1440" if "parse_local_time str = Ok t" for str t
    using that by (auto simp: parse_local_time_def result_ok unat_word_ariths unsigned_of_nat take_bit_eq_mod split: if_splits)
  with ok have minutes: "unat s < 1440" "unat e < 1440" by blast+
  obtain data where "tz_get tz zone = Some (zone, data)"
    using ok(6) assms(2) by (auto simp: resolve_timezone_def bundled_timezone_def result_ok split: if_splits)
  with ok minutes assms(3) show ?thesis
    by (auto simp: from_resolved_parts_def require_current_ruleset_def current_ruleset_version_def bundled_timezone_def
        ok_or_def word_le_nat_alt)
qed

theorem resolved_windows_revalidate_witness:
  "\<exists>w. usage_window_resolve demo_zone ''night'' ''22:00'' ''06:00'' [Mon] ''Zulu'' = Ok w
    \<and> from_resolved_parts demo_zone (uw_id w) (uw_start_minute w) (uw_end_minute w) (uw_days w) (uw_timezone w)
        (uw_timezone_source w) (uw_ruleset_version w) = Ok w"
proof -
  have "usage_window_resolve demo_zone ''night'' ''22:00'' ''06:00'' [Mon] ''Zulu'' = Ok demo_window"
  proof -
    have "validate_window_id ''night'' = Ok ()"
      by (simp add: validate_window_id_def MAX_USAGE_WINDOW_ID_BYTES_def is_ascii_lowercase_def less_eq_char_def)
    moreover have "parse_local_time ''22:00'' = Ok 1320" "parse_local_time ''06:00'' = Ok 360"
      by (simp_all add: parse_local_time_def parse_unsigned_def digit_value_def is_ascii_digit_def less_eq_char_def ok_or_def)
    ultimately show ?thesis
      by (simp add: usage_window_resolve_def demo_window_def demo_zone_def resolve_timezone_def bundled_timezone_def
          current_ruleset_version_def ok_or_def Let_def)
  qed
  moreover have "tz_get demo_zone zone = Some (canonical, data) \<Longrightarrow> tz_get demo_zone canonical = Some (canonical, data)"
    and "tz_version demo_zone \<noteq> Some []" for zone canonical data
    by (auto simp: demo_zone_def split: if_splits)
  ultimately show ?thesis using resolved_windows_revalidate [of demo_zone "''night''" "''22:00''" "''06:00''" "[Mon]" "''Zulu''" demo_window]
    by metis
qed

end
