(* ===== verification/Tool_Types.thy ===== *)
theory Tool_Types
  imports Team_Runtime Ledger "HOL-Library.Multiset"
begin

text \<open>
  The data of the Tool Runtime (\<open>greentyper-core/src/tool_runtime.rs\<close>): call identifiers, canonical
  arguments, declared resources and their binding, intents, records, requests, decisions and errors.

  \<open>serde_json\<close> and \<open>sha2\<close> are parameters: \<open>json_lib\<close> below and a function \<open>sha256\<close> on bytes.
\<close>

section \<open>Bounds\<close>

definition MAX_CALL_IDENTITY_BYTES :: usize where "MAX_CALL_IDENTITY_BYTES = 256"
definition MAX_TOOL_NAME_BYTES :: usize where "MAX_TOOL_NAME_BYTES = 256"
definition MAX_ARGUMENT_BYTES :: usize where "MAX_ARGUMENT_BYTES = 64 * 1024"
definition MAX_RESOURCE_BYTES :: usize where "MAX_RESOURCE_BYTES = 1024"
definition MAX_RESOURCES_PER_AXIS :: usize where "MAX_RESOURCES_PER_AXIS = 64"
definition MAX_TOOL_REASON_BYTES :: usize where "MAX_TOOL_REASON_BYTES = 8 * 1024"
definition MAX_OUTPUT_BYTES :: usize where "MAX_OUTPUT_BYTES = 256 * 1024"
definition APPROVAL_DENIED_REASON :: string where "APPROVAL_DENIED_REASON = ''Tool approval denied''"
definition EFFECT_FAILED_REASON :: string where "EFFECT_FAILED_REASON = ''Tool execution failed''"
definition EFFECT_AMBIGUOUS_REASON :: string where "EFFECT_AMBIGUOUS_REASON = ''Tool outcome is ambiguous''"
definition RECONCILED_FAILED_REASON :: string where "RECONCILED_FAILED_REASON = ''Tool effect reconciled as failed''"

section \<open>Identifiers and errors\<close>

datatype call_tag = CallTag

type_synonym tool_call_id = "call_tag ident"

datatype tool_runtime_error =
    ToolLedger ledger_error
  | InvalidArguments string
  | InvalidResource string
  | InvalidText string
  | TextTooLarge string
  | CapabilityDenied capability
  | IdentityConflict string
  | UnknownCall tool_call_id
  | StaleApprovalRequest
  | ApprovalExpired
  | ReconciliationNeeded tool_call_id \<comment> \<open>\<open>ReconciliationRequired\<close>\<close>
  | ReconciliationAuthorityDenied tool_call_id
  | InvalidCallTransition tool_call_id string \<comment> \<open>\<open>InvalidTransition\<close>\<close>
  | UnsupportedToolEventSchema u16 u16 \<comment> \<open>supported, actual\<close>
  | CorruptToolEvent string
  | CorruptToolState string
  | CallIdentifierExhausted
  | ToolIntegerOverflow
  | ClockError

type_synonym 'a tool_result = "(tool_runtime_error, 'a) result"

definition call_id_new :: "u64 \<Rightarrow> tool_call_id tool_result" where
  "call_id_new value = (if value = 0 \<or> value = u64_max then Err CallIdentifierExhausted else Ok (Ident value))"

definition call_id_from_stored :: "u64 \<Rightarrow> tool_call_id tool_result" where
  "call_id_from_stored value = map_err (\<lambda>_. CorruptToolEvent ''invalid Tool Call ID'') (call_id_new value)"

definition validate_bounded_text :: "string \<Rightarrow> usize \<Rightarrow> string \<Rightarrow> unit tool_result" where
  "validate_bounded_text value max_bytes field =
     (if value = [] \<or> trim value \<noteq> value \<or> has_control value then Err (InvalidText field)
      else if length value > max_bytes then Err (TextTooLarge field)
      else Ok ())"

section \<open>Arguments\<close>

text \<open>
  \<open>serde_json::Value\<close>.  A number is the text its \<open>to_string\<close> gives; the keys of an object are distinct,
  in the order its iterator has.
\<close>

datatype json =
    JNull
  | JBool bool
  | JNumber string
  | JString string
  | JArray "json list"
  | JObject "(string \<times> json) list"

text \<open>\<open>serde_json::from_str\<close> for a \<open>Value\<close>, and \<open>serde_json::to_string\<close> of a string.\<close>

record json_lib =
  js_parse :: "string \<Rightarrow> json option"
  js_quote :: "string \<Rightarrow> string option"

definition is_object :: "json \<Rightarrow> bool" where
  "is_object v = (case v of JObject _ \<Rightarrow> True | _ \<Rightarrow> False)"

lemma size_list_mset: "mset xs = mset ys \<Longrightarrow> size_list f xs = size_list f ys"
  by (simp add: size_list_conv_sum_list) (metis mset_map size_mset sum_mset_sum_list)

text \<open>The writer appends to \<open>output\<close>; \<open>write_values\<close> and \<open>write_entries\<close> are its loops from an index on.\<close>

function (sequential)
  write_canonical_json :: "json_lib \<Rightarrow> json \<Rightarrow> string \<Rightarrow> string tool_result"
  and write_values :: "json_lib \<Rightarrow> nat \<Rightarrow> json list \<Rightarrow> string \<Rightarrow> string tool_result"
  and write_entries :: "json_lib \<Rightarrow> nat \<Rightarrow> (string \<times> json) list \<Rightarrow> string \<Rightarrow> string tool_result"
where
  "write_canonical_json js JNull out = Ok (out @ ''null'')"
| "write_canonical_json js (JBool b) out = Ok (out @ (if b then ''true'' else ''false''))"
| "write_canonical_json js (JNumber n) out = Ok (out @ n)"
| "write_canonical_json js (JString s) out =
     map_ok ((@) out) (ok_or (js_quote js s) (InvalidArguments ''Tool argument string cannot be encoded''))"
| "write_canonical_json js (JArray values) out =
     map_ok (\<lambda>out. out @ '']'') (write_values js 0 values (out @ ''[''))"
| "write_canonical_json js (JObject values) out =
     map_ok (\<lambda>out. out @ ''}'') (write_entries js 0 (sort_key fst values) (out @ ''{''))"
| "write_values js index [] out = Ok out"
| "write_values js index (v # vs) out =
     andthen (write_canonical_json js v (if index > 0 then out @ '','' else out)) (write_values js (index + 1) vs)"
| "write_entries js index [] out = Ok out"
| "write_entries js index ((key, v) # es) out =
     andthen (ok_or (js_quote js key) (InvalidArguments ''Tool argument key cannot be encoded'')) (\<lambda>quoted.
     andthen (write_canonical_json js v ((if index > 0 then out @ '','' else out) @ quoted @ '':'')) (\<lambda>out.
     write_entries js (index + 1) es out))"
  by pat_completeness auto

termination
proof (relation "measure (\<lambda>p. case p of Inl (_, v, _) \<Rightarrow> 2 * size v + 1
    | Inr (Inl (_, _, vs, _)) \<Rightarrow> 2 * size_list size vs
    | Inr (Inr (_, _, es, _)) \<Rightarrow> 2 * size_list (size_prod (\<lambda>_. 0) size) es)")
  fix js :: "json_lib" and es :: "(string \<times> json) list" and out :: string
  have "size_list (size_prod (\<lambda>_. 0) size) (sort_key fst es) = size_list (size_prod (\<lambda>_. 0) size) es"
    by (rule size_list_mset) simp
  then show "(Inr (Inr (js, 0, sort_key fst es, out @ ''{'')), Inl (js, JObject es, out))
    \<in> measure (\<lambda>p. case p of Inl (_, v, _) \<Rightarrow> 2 * size v + 1
      | Inr (Inl (_, _, vs, _)) \<Rightarrow> 2 * size_list size vs
      | Inr (Inr (_, _, es, _)) \<Rightarrow> 2 * size_list (size_prod (\<lambda>_. 0) size) es)"
    by simp
qed simp_all

record tool_arguments =
  ta_canonical_json :: string

definition tool_arguments_parse :: "json_lib \<Rightarrow> string \<Rightarrow> tool_arguments tool_result" where
  "tool_arguments_parse js input =
     (if length input > MAX_ARGUMENT_BYTES then Err (InvalidArguments ''Tool arguments exceed the byte limit'')
      else
      andthen (ok_or (js_parse js input) (InvalidArguments ''Tool arguments are not JSON'')) (\<lambda>value.
      if \<not> is_object value then Err (InvalidArguments ''Tool arguments must be a JSON object'')
      else
      andthen (write_canonical_json js value []) (\<lambda>canonical_json.
      if length canonical_json > MAX_ARGUMENT_BYTES
      then Err (InvalidArguments ''canonical Tool arguments exceed the byte limit'')
      else Ok \<lparr>ta_canonical_json = canonical_json\<rparr>)))"

type_synonym digest = "u8 list"
type_synonym hasher = "u8 list \<Rightarrow> digest"

definition str_bytes :: "string \<Rightarrow> u8 list" where
  "str_bytes = map of_char"

definition arguments_hash :: "hasher \<Rightarrow> tool_arguments \<Rightarrow> digest" where
  "arguments_hash sha256 a = sha256 (str_bytes (ta_canonical_json a))"

section \<open>Resources\<close>

record tool_resources =
  rs_reads :: "string fset"
  rs_writes :: "string fset"
  rs_process :: "string option"
  rs_network :: "string fset"

definition tool_resources_default :: tool_resources where
  "tool_resources_default = \<lparr>rs_reads = {||}, rs_writes = {||}, rs_process = None, rs_network = {||}\<rparr>"

definition with_filesystem_read :: "string \<Rightarrow> tool_resources \<Rightarrow> tool_resources" where
  "with_filesystem_read resource r = r\<lparr>rs_reads := finsert resource (rs_reads r)\<rparr>"

definition with_filesystem_write :: "string \<Rightarrow> tool_resources \<Rightarrow> tool_resources" where
  "with_filesystem_write resource r = r\<lparr>rs_writes := finsert resource (rs_writes r)\<rparr>"

definition with_process :: "string \<Rightarrow> tool_resources \<Rightarrow> tool_resources" where
  "with_process executable r = r\<lparr>rs_process := Some executable\<rparr>"

definition with_network_target :: "string \<Rightarrow> tool_resources \<Rightarrow> tool_resources" where
  "with_network_target target r = r\<lparr>rs_network := finsert target (rs_network r)\<rparr>"

record tool_resource_binding =
  rb_fingerprint :: digest
  rb_reads :: u16
  rb_writes :: u16
  rb_process :: bool
  rb_network :: u16

definition binding_validate :: "tool_resource_binding \<Rightarrow> unit tool_result" where
  "binding_validate b =
     (if unat (rb_reads b) > MAX_RESOURCES_PER_AXIS \<or> unat (rb_writes b) > MAX_RESOURCES_PER_AXIS
         \<or> unat (rb_network b) > MAX_RESOURCES_PER_AXIS
      then Err (CorruptToolEvent ''Tool resource binding exceeds its axis limit'') else Ok ())"

definition require_capability :: "bool \<Rightarrow> capability \<Rightarrow> capability_snapshot \<Rightarrow> unit tool_result" where
  "require_capability needed c caps = (if needed \<and> \<not> cap_contains caps c then Err (CapabilityDenied c) else Ok ())"

definition binding_require_capabilities :: "tool_resource_binding \<Rightarrow> capability_snapshot \<Rightarrow> unit tool_result" where
  "binding_require_capabilities b caps =
     andthen (require_capability (rb_reads b > 0) WorkspaceRead caps) (\<lambda>_.
     andthen (require_capability (rb_writes b > 0) WorkspaceWrite caps) (\<lambda>_.
     andthen (require_capability (rb_process b) Process caps) (\<lambda>_.
     require_capability (rb_network b > 0) Network caps)))"

definition resources_require_capabilities :: "tool_resources \<Rightarrow> capability_snapshot \<Rightarrow> unit tool_result" where
  "resources_require_capabilities r caps =
     andthen (require_capability (rs_reads r \<noteq> {||}) WorkspaceRead caps) (\<lambda>_.
     andthen (require_capability (rs_writes r \<noteq> {||}) WorkspaceWrite caps) (\<lambda>_.
     andthen (require_capability (rs_process r \<noteq> None) Process caps) (\<lambda>_.
     require_capability (rs_network r \<noteq> {||}) Network caps)))"

definition validate_resource_axis :: "string fset \<Rightarrow> unit tool_result" where
  "validate_resource_axis resources =
     (if fcard resources > MAX_RESOURCES_PER_AXIS then Err (InvalidResource ''too many resources on one authority axis'')
      else try_each (\<lambda>resource. validate_bounded_text resource MAX_RESOURCE_BYTES ''resource'') (sorted_list_of_fset resources))"

definition resources_validate :: "tool_resources \<Rightarrow> unit tool_result" where
  "resources_validate r =
     andthen (validate_resource_axis (rs_reads r)) (\<lambda>_.
     andthen (validate_resource_axis (rs_writes r)) (\<lambda>_.
     andthen (validate_resource_axis (rs_network r)) (\<lambda>_.
     case rs_process r of None \<Rightarrow> Ok ()
     | Some executable \<Rightarrow> validate_bounded_text executable MAX_RESOURCE_BYTES ''process resource'')))"

text \<open>What the hasher is fed, in order.\<close>

definition resource_value_bytes :: "string \<Rightarrow> u8 list" where
  "resource_value_bytes value = u32_to_le (of_nat (length value)) @ str_bytes value"

definition resource_axis_bytes :: "u8 \<Rightarrow> string fset \<Rightarrow> u8 list" where
  "resource_axis_bytes tag resources =
     tag # u32_to_le (of_nat (fcard resources)) @ concat (map resource_value_bytes (sorted_list_of_fset resources))"

definition binding_bytes :: "tool_resources \<Rightarrow> u8 list" where
  "binding_bytes r =
     str_bytes ''greentyper-tool-resource-binding-v1'' @ [0]
       @ resource_axis_bytes 1 (rs_reads r) @ resource_axis_bytes 2 (rs_writes r)
       @ 3 # (case rs_process r of Some executable \<Rightarrow> 1 # resource_value_bytes executable | None \<Rightarrow> [0])
       @ resource_axis_bytes 4 (rs_network r)"

definition resources_binding :: "hasher \<Rightarrow> tool_resources \<Rightarrow> tool_resource_binding" where
  "resources_binding sha256 r =
     \<lparr>rb_fingerprint = sha256 (binding_bytes r), rb_reads = of_nat (fcard (rs_reads r)),
      rb_writes = of_nat (fcard (rs_writes r)), rb_process = (rs_process r \<noteq> None),
      rb_network = of_nat (fcard (rs_network r))\<rparr>"

section \<open>Intents, records, requests\<close>

record tool_intent =
  ti_identity :: string
  ti_tool :: string
  ti_arguments :: tool_arguments
  ti_resources :: tool_resources

definition intent_validate :: "tool_intent \<Rightarrow> unit tool_result" where
  "intent_validate i =
     andthen (validate_bounded_text (ti_identity i) MAX_CALL_IDENTITY_BYTES ''Tool call identity'') (\<lambda>_.
     andthen (validate_bounded_text (ti_tool i) MAX_TOOL_NAME_BYTES ''Tool name'') (\<lambda>_.
     resources_validate (ti_resources i)))"

definition tool_intent_new :: "string \<Rightarrow> string \<Rightarrow> tool_arguments \<Rightarrow> tool_resources \<Rightarrow> tool_intent tool_result" where
  "tool_intent_new identity tool arguments resources =
     (let intent = \<lparr>ti_identity = identity, ti_tool = tool, ti_arguments = arguments, ti_resources = resources\<rparr> in
      andthen (intent_validate intent) (\<lambda>_. Ok intent))"

datatype tool_call_status = AwaitingApproval | CallDenied | ReconciliationRequired | CallSucceeded | CallFailed

record tool_call_record =
  tc_call :: tool_call_id
  tc_identity :: string
  tc_agent :: agent_id
  tc_tool :: string
  tc_arguments_hash :: digest
  tc_binding :: tool_resource_binding
  tc_status :: tool_call_status
  tc_expires_at :: "u64 option"
  tc_result_digest :: "digest option"
  tc_reason :: "string option"

record tool_approval_request =
  rq_call :: tool_call_id
  rq_session :: agent_session
  rq_intent :: tool_intent
  rq_arguments_hash :: digest

datatype tool_request_outcome = ApprovalRequired tool_approval_request | ExistingCall tool_call_record

datatype approval_decision = Grant u64 | Deny string

record authorized_tool_call =
  au_record :: tool_call_record
  au_arguments :: tool_arguments
  au_resources :: tool_resources

datatype tool_execution = ExecutionSucceeded "u8 list" | ExecutionFailed string | ExecutionAmbiguous string

datatype tool_call_outcome =
    OutcomeSucceeded tool_call_record "u8 list"
  | OutcomeFailed tool_call_record
  | OutcomeDenied tool_call_record
  | OutcomeReconciliation tool_call_record

datatype tool_reconciliation_decision = ObservedSucceeded digest | ObservedFailed string

record tool_principal =
  pr_session :: agent_session
  pr_agent :: agent_id
  pr_capabilities :: capability_snapshot

definition tool_principal_new :: "agent_session \<Rightarrow> agent_execution_context \<Rightarrow> tool_principal" where
  "tool_principal_new s context' =
     \<lparr>pr_session = s, pr_agent = ec_agent context', pr_capabilities = ec_capabilities context'\<rparr>"

end
