(* ===== verification/Tool_State.thy ===== *)
theory Tool_State
  imports Tool_Types
begin

text \<open>
  Tool events and the state they fold into (\<open>greentyper-core/src/tool_runtime.rs\<close>): one branch of
  \<open>apply\<close> per event kind, the shape a transaction must have, and replaying a whole log.
\<close>

section \<open>Events\<close>

datatype tool_event =
    CallRequested tool_call_id string agent_id string digest tool_resource_binding
      \<comment> \<open>call, identity, agent, tool, arguments hash, resource binding\<close>
  | ApprovalGranted tool_call_id agent_id digest tool_resource_binding u64
      \<comment> \<open>call, agent, arguments hash, resource binding, expiry\<close>
  | EffectPrepared tool_call_id digest
  | ApprovalDenied tool_call_id string
  | EffectSucceeded tool_call_id digest
  | EffectFailed tool_call_id string
  | EffectAmbiguous tool_call_id string
  | EffectReconciledSucceeded tool_call_id digest
  | EffectReconciledFailed tool_call_id string

primrec event_call :: "tool_event \<Rightarrow> tool_call_id" where
  "event_call (CallRequested call _ _ _ _ _) = call"
| "event_call (ApprovalGranted call _ _ _ _) = call"
| "event_call (EffectPrepared call _) = call"
| "event_call (ApprovalDenied call _) = call"
| "event_call (EffectSucceeded call _) = call"
| "event_call (EffectFailed call _) = call"
| "event_call (EffectAmbiguous call _) = call"
| "event_call (EffectReconciledSucceeded call _) = call"
| "event_call (EffectReconciledFailed call _) = call"

record tool_state =
  tl_calls :: "(tool_call_id, tool_call_record) btree_map"
  tl_identities :: "(string, tool_call_id) btree_map"
  tl_next_call :: u64

definition tool_state_default :: tool_state where
  "tool_state_default = \<lparr>tl_calls = [], tl_identities = [], tl_next_call = 1\<rparr>"

section \<open>Applying events\<close>

text \<open>The code updates the state in place; both callers work on a copy that they drop when an event is
  refused, so that a refused event has no state here.\<close>

definition awaiting_approval :: "tool_state \<Rightarrow> tool_call_id \<Rightarrow> tool_call_record tool_result" where
  "awaiting_approval s call =
     andthen (ok_or (bt_get (tl_calls s) call) (CorruptToolState ''unknown Tool call'')) (\<lambda>r.
     if tc_status r \<noteq> AwaitingApproval then Err (CorruptToolState ''Tool call is not awaiting approval'') else Ok r)"

definition reconciliation_required :: "tool_state \<Rightarrow> tool_call_id \<Rightarrow> tool_call_record tool_result" where
  "reconciliation_required s call =
     andthen (ok_or (bt_get (tl_calls s) call) (CorruptToolState ''unknown Tool call'')) (\<lambda>r.
     if tc_status r \<noteq> ReconciliationRequired then Err (CorruptToolState ''Tool call is not awaiting reconciliation'')
     else Ok r)"

text \<open>A write through the reference the two lookups return.\<close>

definition put_call :: "tool_state \<Rightarrow> tool_call_id \<Rightarrow> tool_call_record \<Rightarrow> tool_state" where
  "put_call s call r = s\<lparr>tl_calls := bt_insert call r (tl_calls s)\<rparr>"

definition apply_call_requested ::
  "tool_state \<Rightarrow> tool_call_id \<Rightarrow> string \<Rightarrow> agent_id \<Rightarrow> string \<Rightarrow> digest \<Rightarrow> tool_resource_binding \<Rightarrow> tool_state tool_result" where
  "apply_call_requested s call identity agent tool hash binding =
     (if id_get call \<noteq> tl_next_call s then Err (CorruptToolState ''Tool Call IDs are not contiguous'')
      else
      andthen (validate_bounded_text identity MAX_CALL_IDENTITY_BYTES ''Tool call identity'') (\<lambda>_.
      andthen (validate_bounded_text tool MAX_TOOL_NAME_BYTES ''Tool name'') (\<lambda>_.
      andthen (binding_validate binding) (\<lambda>_.
      if bt_contains_key (tl_identities s) identity \<or> bt_contains_key (tl_calls s) call
      then Err (CorruptToolState ''duplicate Tool call identity'')
      else
      andthen (ok_or (checked_add (tl_next_call s) 1) CallIdentifierExhausted) (\<lambda>next_call.
      Ok ((put_call s call
            \<lparr>tc_call = call, tc_identity = identity, tc_agent = agent, tc_tool = tool, tc_arguments_hash = hash,
             tc_binding = binding, tc_status = AwaitingApproval, tc_expires_at = None, tc_result_digest = None,
             tc_reason = None\<rparr>)
          \<lparr>tl_identities := bt_insert identity call (tl_identities s), tl_next_call := next_call\<rparr>))))))"

definition apply_approval_granted ::
  "tool_state \<Rightarrow> tool_call_id \<Rightarrow> agent_id \<Rightarrow> digest \<Rightarrow> tool_resource_binding \<Rightarrow> u64 \<Rightarrow> tool_state tool_result" where
  "apply_approval_granted s call agent hash binding expires_at =
     andthen (awaiting_approval s call) (\<lambda>r.
     if tc_agent r \<noteq> agent \<or> tc_arguments_hash r \<noteq> hash \<or> tc_binding r \<noteq> binding \<or> expires_at = 0
     then Err (CorruptToolState ''Approval Grant does not match its Tool call'')
     else Ok (put_call s call (r\<lparr>tc_expires_at := Some expires_at\<rparr>)))"

definition apply_effect_prepared :: "tool_state \<Rightarrow> tool_call_id \<Rightarrow> digest \<Rightarrow> tool_state tool_result" where
  "apply_effect_prepared s call hash =
     andthen (awaiting_approval s call) (\<lambda>r.
     if tc_arguments_hash r \<noteq> hash \<or> tc_expires_at r = None
     then Err (CorruptToolState ''prepared Tool effect lacks a matching Approval Grant'')
     else Ok (put_call s call (r\<lparr>tc_status := ReconciliationRequired,
       tc_reason := Some ''prepared Tool effect has no durable outcome''\<rparr>)))"

definition apply_approval_denied :: "tool_state \<Rightarrow> tool_call_id \<Rightarrow> string \<Rightarrow> tool_state tool_result" where
  "apply_approval_denied s call reason =
     andthen (validate_bounded_text reason MAX_TOOL_REASON_BYTES ''denial reason'') (\<lambda>_.
     andthen (awaiting_approval s call) (\<lambda>r.
     Ok (put_call s call (r\<lparr>tc_status := CallDenied, tc_reason := Some reason\<rparr>))))"

definition apply_effect_succeeded :: "tool_state \<Rightarrow> tool_call_id \<Rightarrow> digest \<Rightarrow> tool_state tool_result" where
  "apply_effect_succeeded s call result_digest =
     andthen (reconciliation_required s call) (\<lambda>r.
     Ok (put_call s call (r\<lparr>tc_status := CallSucceeded, tc_result_digest := Some result_digest, tc_reason := None\<rparr>)))"

definition apply_effect_failed :: "tool_state \<Rightarrow> tool_call_id \<Rightarrow> string \<Rightarrow> tool_state tool_result" where
  "apply_effect_failed s call reason =
     andthen (validate_bounded_text reason MAX_TOOL_REASON_BYTES ''Tool failure reason'') (\<lambda>_.
     andthen (reconciliation_required s call) (\<lambda>r.
     Ok (put_call s call (r\<lparr>tc_status := CallFailed, tc_reason := Some reason\<rparr>))))"

definition apply_effect_ambiguous :: "tool_state \<Rightarrow> tool_call_id \<Rightarrow> string \<Rightarrow> tool_state tool_result" where
  "apply_effect_ambiguous s call reason =
     andthen (validate_bounded_text reason MAX_TOOL_REASON_BYTES ''ambiguous Tool effect reason'') (\<lambda>_.
     andthen (reconciliation_required s call) (\<lambda>r.
     Ok (put_call s call (r\<lparr>tc_reason := Some reason\<rparr>))))"

primrec tool_apply :: "tool_state \<Rightarrow> tool_event \<Rightarrow> tool_state tool_result" where
  "tool_apply s (CallRequested call identity agent tool hash binding) =
     apply_call_requested s call identity agent tool hash binding"
| "tool_apply s (ApprovalGranted call agent hash binding expires_at) =
     apply_approval_granted s call agent hash binding expires_at"
| "tool_apply s (EffectPrepared call hash) = apply_effect_prepared s call hash"
| "tool_apply s (ApprovalDenied call reason) = apply_approval_denied s call reason"
| "tool_apply s (EffectSucceeded call result_digest) = apply_effect_succeeded s call result_digest"
| "tool_apply s (EffectFailed call reason) = apply_effect_failed s call reason"
| "tool_apply s (EffectAmbiguous call reason) = apply_effect_ambiguous s call reason"
| "tool_apply s (EffectReconciledSucceeded call result_digest) = apply_effect_succeeded s call result_digest"
| "tool_apply s (EffectReconciledFailed call reason) = apply_effect_failed s call reason"

section \<open>Transactions\<close>

fun transaction_shape :: "tool_event list \<Rightarrow> bool" where
  "transaction_shape [ApprovalGranted call _ _ _ _, EffectPrepared prepared _] = (call = prepared)"
| "transaction_shape [ApprovalGranted _ _ _ _ _] = False"
| "transaction_shape [EffectPrepared _ _] = False"
| "transaction_shape [_] = True"
| "transaction_shape _ = False"

definition validate_transaction :: "tool_event list \<Rightarrow> unit tool_result" where
  "validate_transaction events =
     (if \<not> transaction_shape events then Err (CorruptToolState ''invalid Tool Event transaction'')
      else
      case events of [] \<Rightarrow> Err (CorruptToolState ''empty Tool transaction'')
      | first # _ \<Rightarrow>
          if list_ex (\<lambda>event. event_call event \<noteq> event_call first) events
          then Err (CorruptToolState ''mixed Tool Call IDs in one transaction'')
          else Ok ())"

definition apply_transaction :: "tool_state \<Rightarrow> tool_event list \<Rightarrow> tool_state tool_result" where
  "apply_transaction s events = andthen (validate_transaction events) (\<lambda>_. try_fold tool_apply s events)"

end
