(* ===== verification/Tool_Codec.thy ===== *)
theory Tool_Codec
  imports Tool_State
begin

text \<open>
  The encoding of Tool events in the ledger (\<open>greentyper-core/src/tool_runtime.rs\<close>): hashes in lowercase
  hexadecimal, and one payload structure per kind of event.

  The JSON of the payloads is made and read by \<open>serde_json\<close> with derived implementations; they are the
  parameter \<open>tool_serde\<close>.
\<close>

unbundle bit_operations_syntax

section \<open>Hashes\<close>

definition HEX :: string where "HEX = ''0123456789abcdef''"

definition encode_hash :: "digest \<Rightarrow> string" where
  "encode_hash hash = concat (map (\<lambda>byte. [HEX ! unat (drop_bit 4 byte), HEX ! unat (byte AND 0x0F)]) hash)"

definition decode_hex_digit :: "char \<Rightarrow> u8 tool_result" where
  "decode_hex_digit value =
     (if CHR ''0'' \<le> value \<and> value \<le> CHR ''9'' then Ok (of_char value - 48)
      else if CHR ''a'' \<le> value \<and> value \<le> CHR ''f'' then Ok (of_char value - 97 + 10)
      else Err (CorruptToolEvent ''Tool hash is not lowercase hexadecimal''))"

fun decode_pairs :: "string \<Rightarrow> digest tool_result" where
  "decode_pairs (a # b # rest) =
     andthen (decode_hex_digit a) (\<lambda>high.
     andthen (decode_hex_digit b) (\<lambda>low.
     map_ok (Cons (push_bit 4 high OR low)) (decode_pairs rest)))"
| "decode_pairs _ = Ok []"

definition decode_hash :: "string \<Rightarrow> digest tool_result" where
  "decode_hash value =
     (if length value \<noteq> 64 then Err (CorruptToolEvent ''invalid Tool hash length'') else decode_pairs value)"

section \<open>Payloads\<close>

record binding_payload =
  bp_fingerprint :: string
  bp_reads :: u16
  bp_writes :: u16
  bp_process :: bool
  bp_network :: u16

record requested_payload =
  qp_call :: u64
  qp_identity :: string
  qp_agent :: u64
  qp_tool :: string
  qp_arguments_hash :: string
  qp_binding :: binding_payload

record grant_payload =
  gp_call :: u64
  gp_agent :: u64
  gp_arguments_hash :: string
  gp_binding :: binding_payload
  gp_expires_at :: u64

record prepared_payload =
  pp_call :: u64
  pp_arguments_hash :: string

record reason_payload =
  np_call :: u64
  np_reason :: string

record digest_payload =
  dp_call :: u64
  dp_result_digest :: string

text \<open>\<open>serde_json::to_vec\<close> and \<open>serde_json::from_slice\<close> at the five payload types.\<close>

record tool_serde =
  sd_requested :: "(requested_payload \<Rightarrow> u8 list option) \<times> (u8 list \<Rightarrow> requested_payload option)"
  sd_grant :: "(grant_payload \<Rightarrow> u8 list option) \<times> (u8 list \<Rightarrow> grant_payload option)"
  sd_prepared :: "(prepared_payload \<Rightarrow> u8 list option) \<times> (u8 list \<Rightarrow> prepared_payload option)"
  sd_reason :: "(reason_payload \<Rightarrow> u8 list option) \<times> (u8 list \<Rightarrow> reason_payload option)"
  sd_digest :: "(digest_payload \<Rightarrow> u8 list option) \<times> (u8 list \<Rightarrow> digest_payload option)"

definition serialize_payload :: "('p \<Rightarrow> u8 list option) \<times> (u8 list \<Rightarrow> 'p option) \<Rightarrow> 'p \<Rightarrow> u8 list tool_result" where
  "serialize_payload serde value = ok_or (fst serde value) (CorruptToolState ''Tool Event cannot be encoded'')"

definition deserialize_payload :: "('p \<Rightarrow> u8 list option) \<times> (u8 list \<Rightarrow> 'p option) \<Rightarrow> u8 list \<Rightarrow> 'p tool_result" where
  "deserialize_payload serde bytes = ok_or (snd serde bytes) (CorruptToolEvent ''invalid Tool Event payload'')"

definition binding_to_payload :: "tool_resource_binding \<Rightarrow> binding_payload" where
  "binding_to_payload b =
     \<lparr>bp_fingerprint = encode_hash (rb_fingerprint b), bp_reads = rb_reads b, bp_writes = rb_writes b,
      bp_process = rb_process b, bp_network = rb_network b\<rparr>"

definition binding_from_payload :: "binding_payload \<Rightarrow> tool_resource_binding tool_result" where
  "binding_from_payload p =
     andthen (decode_hash (bp_fingerprint p)) (\<lambda>fingerprint.
     let b = \<lparr>rb_fingerprint = fingerprint, rb_reads = bp_reads p, rb_writes = bp_writes p,
              rb_process = bp_process p, rb_network = bp_network p\<rparr> in
     andthen (binding_validate b) (\<lambda>_. Ok b))"

definition TOOL_EVENT_SCHEMA :: u16 where
  "TOOL_EVENT_SCHEMA = schema_get (schema_current ToolEvent)"

primrec encode_payload :: "tool_serde \<Rightarrow> tool_event \<Rightarrow> u16 \<times> u8 list tool_result" where
  "encode_payload sd (CallRequested call identity agent tool hash binding) =
     (1, serialize_payload (sd_requested sd)
       \<lparr>qp_call = id_get call, qp_identity = identity, qp_agent = id_get agent, qp_tool = tool,
        qp_arguments_hash = encode_hash hash, qp_binding = binding_to_payload binding\<rparr>)"
| "encode_payload sd (ApprovalGranted call agent hash binding expires_at) =
     (2, serialize_payload (sd_grant sd)
       \<lparr>gp_call = id_get call, gp_agent = id_get agent, gp_arguments_hash = encode_hash hash,
        gp_binding = binding_to_payload binding, gp_expires_at = expires_at\<rparr>)"
| "encode_payload sd (EffectPrepared call hash) =
     (3, serialize_payload (sd_prepared sd) \<lparr>pp_call = id_get call, pp_arguments_hash = encode_hash hash\<rparr>)"
| "encode_payload sd (ApprovalDenied call reason) =
     (4, serialize_payload (sd_reason sd) \<lparr>np_call = id_get call, np_reason = reason\<rparr>)"
| "encode_payload sd (EffectSucceeded call result_digest) =
     (5, serialize_payload (sd_digest sd) \<lparr>dp_call = id_get call, dp_result_digest = encode_hash result_digest\<rparr>)"
| "encode_payload sd (EffectFailed call reason) =
     (6, serialize_payload (sd_reason sd) \<lparr>np_call = id_get call, np_reason = reason\<rparr>)"
| "encode_payload sd (EffectAmbiguous call reason) =
     (7, serialize_payload (sd_reason sd) \<lparr>np_call = id_get call, np_reason = reason\<rparr>)"
| "encode_payload sd (EffectReconciledSucceeded call result_digest) =
     (8, serialize_payload (sd_digest sd) \<lparr>dp_call = id_get call, dp_result_digest = encode_hash result_digest\<rparr>)"
| "encode_payload sd (EffectReconciledFailed call reason) =
     (9, serialize_payload (sd_reason sd) \<lparr>np_call = id_get call, np_reason = reason\<rparr>)"

definition tool_encode_event :: "tool_serde \<Rightarrow> tool_event \<Rightarrow> event_data tool_result" where
  "tool_encode_event sd event =
     (case encode_payload sd event of (kind, payload) \<Rightarrow>
        map_ok (\<lambda>payload. \<lparr>ed_schema = TOOL_EVENT_SCHEMA, ed_kind = kind, ed_payload = payload\<rparr>) payload)"

section \<open>Decoding\<close>

definition agent_from_stored :: "u64 \<Rightarrow> agent_id option" where
  "agent_from_stored value = (if value = 0 \<or> value = u64_max then None else Some (Ident value))"

definition decode_agent :: "u64 \<Rightarrow> agent_id tool_result" where
  "decode_agent value = ok_or (agent_from_stored value) (CorruptToolEvent ''invalid Agent ID'')"

definition decode_requested :: "tool_serde \<Rightarrow> u8 list \<Rightarrow> tool_event tool_result" where
  "decode_requested sd bytes =
     andthen (deserialize_payload (sd_requested sd) bytes) (\<lambda>p.
     andthen (call_id_from_stored (qp_call p)) (\<lambda>call.
     andthen (decode_agent (qp_agent p)) (\<lambda>agent.
     andthen (decode_hash (qp_arguments_hash p)) (\<lambda>hash.
     andthen (binding_from_payload (qp_binding p)) (\<lambda>binding.
     Ok (CallRequested call (qp_identity p) agent (qp_tool p) hash binding))))))"

definition decode_granted :: "tool_serde \<Rightarrow> u8 list \<Rightarrow> tool_event tool_result" where
  "decode_granted sd bytes =
     andthen (deserialize_payload (sd_grant sd) bytes) (\<lambda>p.
     andthen (call_id_from_stored (gp_call p)) (\<lambda>call.
     andthen (decode_agent (gp_agent p)) (\<lambda>agent.
     andthen (decode_hash (gp_arguments_hash p)) (\<lambda>hash.
     andthen (binding_from_payload (gp_binding p)) (\<lambda>binding.
     Ok (ApprovalGranted call agent hash binding (gp_expires_at p)))))))"

definition decode_prepared :: "tool_serde \<Rightarrow> u8 list \<Rightarrow> tool_event tool_result" where
  "decode_prepared sd bytes =
     andthen (deserialize_payload (sd_prepared sd) bytes) (\<lambda>p.
     andthen (call_id_from_stored (pp_call p)) (\<lambda>call.
     andthen (decode_hash (pp_arguments_hash p)) (\<lambda>hash.
     Ok (EffectPrepared call hash))))"

definition decode_reason :: "tool_serde \<Rightarrow> u8 list \<Rightarrow> (tool_call_id \<Rightarrow> string \<Rightarrow> tool_event) \<Rightarrow> tool_event tool_result" where
  "decode_reason sd bytes build =
     andthen (deserialize_payload (sd_reason sd) bytes) (\<lambda>p.
     andthen (call_id_from_stored (np_call p)) (\<lambda>call.
     Ok (build call (np_reason p))))"

definition decode_digest :: "tool_serde \<Rightarrow> u8 list \<Rightarrow> (tool_call_id \<Rightarrow> digest \<Rightarrow> tool_event) \<Rightarrow> tool_event tool_result" where
  "decode_digest sd bytes build =
     andthen (deserialize_payload (sd_digest sd) bytes) (\<lambda>p.
     andthen (call_id_from_stored (dp_call p)) (\<lambda>call.
     andthen (decode_hash (dp_result_digest p)) (\<lambda>result_digest.
     Ok (build call result_digest))))"

definition tool_decode_event :: "tool_serde \<Rightarrow> event_data \<Rightarrow> tool_event tool_result" where
  "tool_decode_event sd data =
     (if ed_schema data \<noteq> TOOL_EVENT_SCHEMA then Err (UnsupportedToolEventSchema TOOL_EVENT_SCHEMA (ed_schema data))
      else if ed_kind data = 1 then decode_requested sd (ed_payload data)
      else if ed_kind data = 2 then decode_granted sd (ed_payload data)
      else if ed_kind data = 3 then decode_prepared sd (ed_payload data)
      else if ed_kind data = 4 then decode_reason sd (ed_payload data) ApprovalDenied
      else if ed_kind data = 5 then decode_digest sd (ed_payload data) EffectSucceeded
      else if ed_kind data = 6 then decode_reason sd (ed_payload data) EffectFailed
      else if ed_kind data = 7 then decode_reason sd (ed_payload data) EffectAmbiguous
      else if ed_kind data = 8 then decode_digest sd (ed_payload data) EffectReconciledSucceeded
      else if ed_kind data = 9 then decode_reason sd (ed_payload data) EffectReconciledFailed
      else Err (CorruptToolEvent ''unknown Tool Event kind''))"

end
