(* ===== verification/Tool_Runtime.thy ===== *)
theory Tool_Runtime
  imports Tool_Codec
begin

text \<open>
  The durable Tool Runtime (\<open>greentyper-core/src/tool_runtime.rs\<close>): opening, requesting, resolving and
  reconciling Tool calls over the Event Ledger.

  What the outside does is a parameter: the outcome of each write to the file, the clock in milliseconds
  (\<open>None\<close> before the epoch), and the executor of effects.  The calls an operation hands to the executor are
  part of its result, in order.
\<close>

section \<open>Replaying\<close>

text \<open>The loop of \<open>replay_state\<close>, with the events from \<open>position\<close> on.\<close>

function replay_loop :: "tool_serde \<Rightarrow> usize \<Rightarrow> stored_event list \<Rightarrow> tool_state \<Rightarrow> tool_state tool_result" where
  "replay_loop sd position [] s = Ok s"
| "replay_loop sd position (first # rest) s =
     (let event_count = unat (sv_count first); events = first # rest in
      andthen (ok_or (usize_add position event_count) ToolIntegerOverflow) (\<lambda>last_position.
      if event_count = 0 \<or> event_count > length events then Err (CorruptToolEvent ''incomplete Tool Event transaction'')
      else
      let stored = take event_count events in
      if list_ex (\<lambda>event. sv_transaction event \<noteq> sv_transaction first) stored
      then Err (CorruptToolEvent ''mixed Tool Ledger transactions'')
      else
      andthen (try_map (\<lambda>event. tool_decode_event sd (sv_data event)) stored) (\<lambda>decoded.
      andthen (apply_transaction s decoded) (\<lambda>s.
      replay_loop sd last_position (drop event_count events) s))))"
  by pat_completeness auto

termination
  by (relation "measure (\<lambda>(_, _, events, _). length events)") auto

definition replay_state :: "tool_serde \<Rightarrow> stored_event list \<Rightarrow> tool_state tool_result" where
  "replay_state sd events = replay_loop sd 0 events tool_state_default"

section \<open>The runtime\<close>

record tool_snapshot =
  tn_head :: ledger_head
  tn_tail :: nat
  tn_calls :: "tool_call_record list"

record durable_tool_runtime =
  dtr_ledger :: file_ledger
  dtr_state :: tool_state
  dtr_tail :: nat

definition inspect_tool_ledger :: "tool_serde \<Rightarrow> file_node \<Rightarrow> bool \<Rightarrow> tool_snapshot tool_result" where
  "inspect_tool_ledger sd node locked =
     andthen (map_err ToolLedger (inspect node locked)) (\<lambda>report.
     andthen (replay_state sd (rr_events report)) (\<lambda>s.
     Ok \<lparr>tn_head = rr_head report, tn_tail = rr_truncated report, tn_calls = bt_values (tl_calls s)\<rparr>))"

definition tool_from_opened :: "tool_serde \<Rightarrow> file_ledger \<times> replay_report \<Rightarrow> durable_tool_runtime tool_result" where
  "tool_from_opened sd opened =
     andthen (replay_state sd (rr_events (snd opened))) (\<lambda>s.
     Ok \<lparr>dtr_ledger = fst opened, dtr_state = s, dtr_tail = rr_truncated (snd opened)\<rparr>)"

definition tool_open :: "tool_serde \<Rightarrow> file_node \<Rightarrow> bool \<Rightarrow> durable_tool_runtime tool_result" where
  "tool_open sd node locked = andthen (map_err ToolLedger (ledger_open node locked)) (tool_from_opened sd)"

definition tool_open_existing_strict :: "tool_serde \<Rightarrow> file_node \<Rightarrow> bool \<Rightarrow> durable_tool_runtime tool_result" where
  "tool_open_existing_strict sd node locked =
     andthen (map_err ToolLedger (open_existing_strict node locked)) (tool_from_opened sd)"

definition tool_snapshot_of :: "durable_tool_runtime \<Rightarrow> tool_snapshot" where
  "tool_snapshot_of d =
     \<lparr>tn_head = fl_head (dtr_ledger d), tn_tail = dtr_tail d, tn_calls = bt_values (tl_calls (dtr_state d))\<rparr>"

definition pending_reconciliation :: "durable_tool_runtime \<Rightarrow> tool_call_id option" where
  "pending_reconciliation d =
     map_option tc_call (List.find (\<lambda>r. tc_status r = ReconciliationRequired) (bt_values (tl_calls (dtr_state d))))"

definition tool_record :: "durable_tool_runtime \<Rightarrow> tool_call_id \<Rightarrow> tool_call_record tool_result" where
  "tool_record d call = ok_or (bt_get (tl_calls (dtr_state d)) call) (UnknownCall call)"

section \<open>Authority\<close>

definition validate_authority :: "capability_snapshot \<Rightarrow> tool_intent \<Rightarrow> unit tool_result" where
  "validate_authority caps intent =
     (if \<not> cap_contains caps (Tool (ti_tool intent)) then Err (CapabilityDenied (Tool (ti_tool intent)))
      else resources_require_capabilities (ti_resources intent) caps)"

definition validate_record_authority :: "capability_snapshot \<Rightarrow> tool_call_record \<Rightarrow> unit tool_result" where
  "validate_record_authority caps r =
     (if \<not> cap_contains caps (Tool (tc_tool r)) then Err (CapabilityDenied (Tool (tc_tool r)))
      else binding_require_capabilities (tc_binding r) caps)"

definition record_matches :: "hasher \<Rightarrow> tool_call_record \<Rightarrow> agent_id \<Rightarrow> tool_intent \<Rightarrow> digest \<Rightarrow> bool" where
  "record_matches sha256 r agent intent hash \<longleftrightarrow>
     tc_agent r = agent \<and> tc_tool r = ti_tool intent \<and> tc_arguments_hash r = hash
     \<and> tc_binding r = resources_binding sha256 (ti_resources intent)"

definition current_unix_ms :: "nat option \<Rightarrow> u64 tool_result" where
  "current_unix_ms clock =
     andthen (ok_or clock ClockError) (\<lambda>milliseconds. ok_or (u64_try_from milliseconds) ToolIntegerOverflow)"

section \<open>Appending\<close>

text \<open>The \<open>?\<close> operator where the state has changed already.\<close>

definition andthen_with :: "('e, 'a) result \<times> 's \<Rightarrow> ('a \<Rightarrow> 's \<Rightarrow> ('e, 'b) result \<times> 's) \<Rightarrow> ('e, 'b) result \<times> 's" where
  "andthen_with p f = (case p of (Ok x, s) \<Rightarrow> f x s | (Err e, s) \<Rightarrow> (Err e, s) | (Diverges, s) \<Rightarrow> (Diverges, s))"

definition append_tool_events ::
  "tool_serde \<Rightarrow> write_outcome \<Rightarrow> durable_tool_runtime \<Rightarrow> tool_event list
     \<Rightarrow> durability_receipt tool_result \<times> durable_tool_runtime" where
  "append_tool_events sd outcome d events =
     andthen_with
       (andthen (validate_transaction events) (\<lambda>_.
        andthen (apply_transaction (dtr_state d) events) (\<lambda>candidate.
        andthen (try_map (tool_encode_event sd) events) (\<lambda>encoded. Ok (candidate, encoded)))), d)
       (\<lambda>(candidate, encoded) d.
          case ledger_append outcome (dtr_ledger d) (fl_head (dtr_ledger d)) encoded of
            (result, ledger) \<Rightarrow>
              andthen_with (map_err ToolLedger result, d\<lparr>dtr_ledger := ledger\<rparr>)
                (\<lambda>receipt d. (Ok receipt, d\<lparr>dtr_state := candidate\<rparr>)))"

section \<open>Requesting\<close>

definition tool_request ::
  "hasher \<Rightarrow> tool_serde \<Rightarrow> write_outcome \<Rightarrow> durable_tool_runtime \<Rightarrow> tool_principal \<Rightarrow> tool_intent
     \<Rightarrow> tool_request_outcome tool_result \<times> durable_tool_runtime" where
  "tool_request sha256 sd outcome d p intent =
     andthen_with
       (andthen (intent_validate intent) (\<lambda>_. validate_authority (pr_capabilities p) intent), d)
       (\<lambda>_ d.
        let hash = arguments_hash sha256 (ti_arguments intent) in
        case bt_get (tl_identities (dtr_state d)) (ti_identity intent) of
          Some call \<Rightarrow>
           (case bt_get (tl_calls (dtr_state d)) call of
              None \<Rightarrow> (Err (CorruptToolState ''Tool identity points to a missing call''), d)
            | Some r \<Rightarrow>
                if \<not> record_matches sha256 r (pr_agent p) intent hash
                then (Err (IdentityConflict (ti_identity intent)), d)
                else if tc_status r = AwaitingApproval
                then (Ok (ApprovalRequired \<lparr>rq_call = call, rq_session = pr_session p, rq_intent = intent,
                       rq_arguments_hash = hash\<rparr>), d)
                else (Ok (ExistingCall r), d))
        | None \<Rightarrow>
           (case pending_reconciliation d of
              Some call \<Rightarrow> (Err (ReconciliationNeeded call), d)
            | None \<Rightarrow>
                andthen_with (call_id_new (tl_next_call (dtr_state d)), d) (\<lambda>call d.
                andthen_with
                  (append_tool_events sd outcome d
                    [CallRequested call (ti_identity intent) (pr_agent p) (ti_tool intent) hash
                      (resources_binding sha256 (ti_resources intent))]) (\<lambda>_ d.
                (Ok (ApprovalRequired \<lparr>rq_call = call, rq_session = pr_session p, rq_intent = intent,
                   rq_arguments_hash = hash\<rparr>), d)))))"

section \<open>Resolving\<close>

definition validate_request ::
  "hasher \<Rightarrow> durable_tool_runtime \<Rightarrow> tool_principal \<Rightarrow> tool_approval_request \<Rightarrow> unit tool_result" where
  "validate_request sha256 d p request =
     (if pr_session p \<noteq> rq_session request \<or> pr_agent p \<noteq> as_agent (rq_session request)
      then Err StaleApprovalRequest
      else
      andthen (intent_validate (rq_intent request)) (\<lambda>_.
      andthen (validate_authority (pr_capabilities p) (rq_intent request)) (\<lambda>_.
      if rq_arguments_hash request \<noteq> arguments_hash sha256 (ti_arguments (rq_intent request))
      then Err StaleApprovalRequest
      else
      andthen (tool_record d (rq_call request)) (\<lambda>r.
      if tc_status r \<noteq> AwaitingApproval
         \<or> \<not> record_matches sha256 r (pr_agent p) (rq_intent request) (rq_arguments_hash request)
      then Err StaleApprovalRequest else Ok ()))))"

text \<open>What is stored and returned for what the executor reported.\<close>

definition outcome_event :: "hasher \<Rightarrow> tool_call_id \<Rightarrow> tool_execution \<Rightarrow> tool_event" where
  "outcome_event sha256 call execution =
     (case execution of
        ExecutionSucceeded output \<Rightarrow>
          if length output \<le> MAX_OUTPUT_BYTES then EffectSucceeded call (sha256 output)
          else EffectAmbiguous call ''Tool output exceeded the durable result boundary''
      | ExecutionFailed _ \<Rightarrow> EffectFailed call EFFECT_FAILED_REASON
      | ExecutionAmbiguous _ \<Rightarrow> EffectAmbiguous call EFFECT_AMBIGUOUS_REASON)"

definition outcome_result :: "tool_execution \<Rightarrow> tool_call_record \<Rightarrow> tool_call_outcome" where
  "outcome_result execution r =
     (case execution of
        ExecutionSucceeded output \<Rightarrow>
          if length output \<le> MAX_OUTPUT_BYTES then OutcomeSucceeded r output else OutcomeReconciliation r
      | ExecutionFailed _ \<Rightarrow> OutcomeFailed r
      | ExecutionAmbiguous _ \<Rightarrow> OutcomeReconciliation r)"

type_synonym tool_executor = "authorized_tool_call \<Rightarrow> tool_execution"

text \<open>The result carries the calls handed to the executor.\<close>

definition tool_resolve ::
  "hasher \<Rightarrow> tool_serde \<Rightarrow> nat option \<Rightarrow> write_outcome \<Rightarrow> write_outcome \<Rightarrow> tool_executor \<Rightarrow> durable_tool_runtime
     \<Rightarrow> tool_principal \<Rightarrow> tool_approval_request \<Rightarrow> approval_decision
     \<Rightarrow> tool_call_outcome tool_result \<times> durable_tool_runtime \<times> authorized_tool_call list" where
  "tool_resolve sha256 sd clock prepare_outcome outcome_outcome execute d p request decision =
     andthen_with (validate_request sha256 d p request, d, []) (\<lambda>_ (d, _).
     case decision of
       Deny reason \<Rightarrow>
         andthen_with (validate_bounded_text reason MAX_TOOL_REASON_BYTES ''denial reason'', d, []) (\<lambda>_ (d, _).
         case append_tool_events sd prepare_outcome d [ApprovalDenied (rq_call request) APPROVAL_DENIED_REASON] of
           (appended, d) \<Rightarrow>
         andthen_with (appended, d, []) (\<lambda>_ (d, _).
         (map_ok OutcomeDenied (tool_record d (rq_call request)), d, [])))
     | Grant expires_at \<Rightarrow>
         andthen_with (current_unix_ms clock, d, []) (\<lambda>now (d, _).
         if expires_at \<le> now then (Err ApprovalExpired, d, [])
         else
         case append_tool_events sd prepare_outcome d
           [ApprovalGranted (rq_call request) (pr_agent p) (rq_arguments_hash request)
              (resources_binding sha256 (ti_resources (rq_intent request))) expires_at,
            EffectPrepared (rq_call request) (rq_arguments_hash request)] of
           (appended, d) \<Rightarrow>
         andthen_with (appended, d, []) (\<lambda>_ (d, _).
         andthen_with (tool_record d (rq_call request), d, []) (\<lambda>prepared_record (d, _).
         let authorized = \<lparr>au_record = prepared_record, au_arguments = ti_arguments (rq_intent request),
               au_resources = ti_resources (rq_intent request)\<rparr>;
             execution = execute authorized in
         case append_tool_events sd outcome_outcome d [outcome_event sha256 (rq_call request) execution] of
           (appended, d) \<Rightarrow>
         andthen_with (appended, d, [authorized]) (\<lambda>_ (d, executed).
         (map_ok (outcome_result execution) (tool_record d (rq_call request)), d, executed))))))"

section \<open>Reconciling\<close>

definition tool_reconcile ::
  "tool_serde \<Rightarrow> write_outcome \<Rightarrow> durable_tool_runtime \<Rightarrow> tool_principal \<Rightarrow> tool_call_id
     \<Rightarrow> tool_reconciliation_decision \<Rightarrow> tool_call_record tool_result \<times> durable_tool_runtime" where
  "tool_reconcile sd outcome d p call decision =
     andthen_with (tool_record d call, d) (\<lambda>r d.
     if tc_agent r \<noteq> pr_agent p then (Err (ReconciliationAuthorityDenied call), d)
     else
     andthen_with (validate_record_authority (pr_capabilities p) r, d) (\<lambda>_ d.
     if tc_status r = CallSucceeded \<or> tc_status r = CallFailed then (Ok r, d)
     else if tc_status r \<noteq> ReconciliationRequired then (Err (InvalidCallTransition call ''reconcile''), d)
     else
     andthen_with
       (case decision of
          ObservedSucceeded result_digest \<Rightarrow> Ok (EffectReconciledSucceeded call result_digest)
        | ObservedFailed reason \<Rightarrow>
            andthen (validate_bounded_text reason MAX_TOOL_REASON_BYTES ''reconciliation reason'') (\<lambda>_.
            Ok (EffectReconciledFailed call RECONCILED_FAILED_REASON)), d) (\<lambda>event d.
     andthen_with (append_tool_events sd outcome d [event]) (\<lambda>_ d.
     (tool_record d call, d)))))"

end
