(* ===== verification/Tool_Codec_Laws.thy ===== *)
theory Tool_Codec_Laws
  imports Tool_Runtime Event_Store Team_Codec_Laws
begin

text \<open>
  What the Tool Runtime stores reads back: hashes, events, and the replay of a stored transaction.  The
  Tool Runtime is an instance of \<open>event_sourced\<close>.
\<close>

unbundle bit_operations_syntax

section \<open>Hashes\<close>

lemma unat_less_256: "unat (b :: u8) < 256"
  by (rule order_less_le_trans [OF unsigned_less]) simp

lemma decode_hex_digit_HEX: "n < 16 \<Longrightarrow> decode_hex_digit (HEX ! n) = Ok (of_nat n)"
proof -
  have "\<forall>n \<in> set [0..<16]. decode_hex_digit (HEX ! n) = Ok (of_nat n)"
    by (simp add: upt_rec decode_hex_digit_def HEX_def less_eq_char_def)
  then show "n < 16 \<Longrightarrow> decode_hex_digit (HEX ! n) = Ok (of_nat n)" by simp
qed

lemma nibbles:
  fixes b :: u8
  shows "unat (drop_bit 4 b) < 16" "unat (b AND 15) < 16" "push_bit 4 (drop_bit 4 b) OR (b AND 15) = b"
proof -
  have "unat (drop_bit 4 b) = unat b div 16"
    unfolding unsigned_drop_bit_eq using unat_less_256 [of b] by (simp add: drop_bit_eq_div take_bit_eq_mod)
  then show "unat (drop_bit 4 b) < 16" using unat_less_256 [of b] by simp
  have "b AND 15 = take_bit 4 b" by (simp add: take_bit_eq_mask mask_eq_decr_exp)
  then have low: "b AND 15 = take_bit 4 b" .
  show "unat (b AND 15) < 16" unfolding low unsigned_take_bit_eq by (simp add: take_bit_eq_mod)
  show "push_bit 4 (drop_bit 4 b) OR (b AND 15) = b"
    unfolding low by (rule bit_eqI) (auto simp: bit_simps)
qed

lemma encode_hash_Cons: "encode_hash (b # h) = HEX ! unat (drop_bit 4 b) # HEX ! unat (b AND 15) # encode_hash h"
  by (simp add: encode_hash_def)

lemma length_encode_hash [simp]: "length (encode_hash h) = 2 * length h"
  by (induction h) (simp_all add: encode_hash_Cons, simp add: encode_hash_def)

lemma decode_pairs_encode: "decode_pairs (encode_hash h) = Ok h"
proof (induction h)
  case (Cons b h)
  then show ?case by (simp add: encode_hash_Cons decode_hex_digit_HEX nibbles)
qed (simp add: encode_hash_def)

lemma decode_encode_hash [simp]: "length h = 32 \<Longrightarrow> decode_hash (encode_hash h) = Ok h"
  by (simp add: decode_hash_def decode_pairs_encode)

section \<open>Events\<close>

text \<open>What \<open>serde_json\<close> promises for a type with derived implementations: a value that was written reads
  back.\<close>

definition reads_back :: "('p \<Rightarrow> u8 list option) \<times> (u8 list \<Rightarrow> 'p option) \<Rightarrow> bool" where
  "reads_back serde \<longleftrightarrow> (\<forall>p bytes. fst serde p = Some bytes \<longrightarrow> snd serde bytes = Some p)"

definition serde_faithful :: "tool_serde \<Rightarrow> bool" where
  "serde_faithful sd \<longleftrightarrow> reads_back (sd_requested sd) \<and> reads_back (sd_grant sd) \<and> reads_back (sd_prepared sd)
     \<and> reads_back (sd_reason sd) \<and> reads_back (sd_digest sd)"

text \<open>The identifiers, hashes and bindings that the types of the code admit.\<close>

primrec event_fits :: "tool_event \<Rightarrow> bool" where
  "event_fits (CallRequested call _ agent _ hash binding) \<longleftrightarrow>
     id_valid (id_get call) \<and> id_valid (id_get agent) \<and> length hash = 32
     \<and> length (rb_fingerprint binding) = 32 \<and> binding_validate binding = Ok ()"
| "event_fits (ApprovalGranted call agent hash binding _) \<longleftrightarrow>
     id_valid (id_get call) \<and> id_valid (id_get agent) \<and> length hash = 32
     \<and> length (rb_fingerprint binding) = 32 \<and> binding_validate binding = Ok ()"
| "event_fits (EffectPrepared call hash) \<longleftrightarrow> id_valid (id_get call) \<and> length hash = 32"
| "event_fits (ApprovalDenied call _) \<longleftrightarrow> id_valid (id_get call)"
| "event_fits (EffectSucceeded call result_digest) \<longleftrightarrow> id_valid (id_get call) \<and> length result_digest = 32"
| "event_fits (EffectFailed call _) \<longleftrightarrow> id_valid (id_get call)"
| "event_fits (EffectAmbiguous call _) \<longleftrightarrow> id_valid (id_get call)"
| "event_fits (EffectReconciledSucceeded call result_digest) \<longleftrightarrow> id_valid (id_get call) \<and> length result_digest = 32"
| "event_fits (EffectReconciledFailed call _) \<longleftrightarrow> id_valid (id_get call)"

lemma call_id_from_stored_valid [simp]: "id_valid (id_get call) \<Longrightarrow> call_id_from_stored (id_get call) = Ok call"
  by (simp add: call_id_from_stored_def call_id_new_def id_valid_def)

lemma decode_agent_valid [simp]: "id_valid (id_get agent) \<Longrightarrow> decode_agent (id_get agent) = Ok agent"
  by (simp add: decode_agent_def agent_from_stored_def id_valid_def)

lemma binding_round_trip [simp]:
  "length (rb_fingerprint b) = 32 \<Longrightarrow> binding_validate b = Ok () \<Longrightarrow> binding_from_payload (binding_to_payload b) = Ok b"
  by (cases b) (simp add: binding_from_payload_def binding_to_payload_def)

lemma payload_reads_back:
  "reads_back serde \<Longrightarrow> serialize_payload serde p = Ok bytes \<Longrightarrow> deserialize_payload serde bytes = Ok p"
  by (auto simp: reads_back_def serialize_payload_def deserialize_payload_def result_ok)

lemma tool_event_reads_back:
  assumes "serde_faithful sd" and "event_fits event" and "tool_encode_event sd event = Ok data"
  shows "tool_decode_event sd data = Ok event"
  using assms
  by (cases event)
    (auto simp: serde_faithful_def tool_encode_event_def result_ok tool_decode_event_def decode_requested_def
      decode_granted_def decode_prepared_def decode_reason_def decode_digest_def dest!: payload_reads_back [rotated])

lemma tool_events_read_back:
  assumes "serde_faithful sd" and "list_all event_fits events" and "try_map (tool_encode_event sd) events = Ok encoded"
  shows "try_map (tool_decode_event sd) encoded = Ok events"
  using assms(2,3)
  by (induction events arbitrary: encoded) (auto simp: result_ok list_all2_Cons1 tool_event_reads_back [OF assms(1)])

section \<open>Replaying\<close>

lemma replay_loop_append:
  "replay_loop sd p xs s = Ok s' \<Longrightarrow> replay_loop sd p (xs @ ys) s = replay_loop sd (p + length xs) ys s'"
proof (induction sd p xs s rule: replay_loop.induct)
  case (2 sd position first rest s)
  let ?n = "unat (sv_count first)"
  let ?xs = "first # rest"
  from "2.prems" obtain q decoded s1 where q: "usize_add position ?n = Some q"
    and n: "?n \<noteq> 0" "?n \<le> length ?xs"
    and mixed: "\<not> list_ex (\<lambda>event. sv_transaction event \<noteq> sv_transaction first) (take ?n ?xs)"
    and dec: "try_map (\<lambda>event. tool_decode_event sd (sv_data event)) (take ?n ?xs) = Ok decoded"
    and app: "apply_transaction s decoded = Ok s1"
    and loop: "replay_loop sd q (drop ?n ?xs) s1 = Ok s'"
    by (auto simp: result_ok Let_def split: if_splits)
  have "replay_loop sd q (drop ?n ?xs @ ys) s1 = replay_loop sd (q + length (drop ?n ?xs)) ys s'"
    using "2.IH" [of ?n ?xs q "take ?n ?xs" decoded s1] q n mixed dec app loop by (simp add: Let_def)
  moreover have "q + length (drop ?n ?xs) = position + length ?xs"
    using usize_add_SomeD [OF q] n(2) by simp
  moreover have chunk: "take ?n (first # rest @ ys) = take ?n ?xs" "drop ?n (first # rest @ ys) = drop ?n ?xs @ ys"
    using n(2) by (simp_all flip: append_Cons)
  ultimately show ?case
    using q n mixed dec app by (simp add: Let_def)
qed simp

lemma replay_loop_transaction:
  assumes "stored_transaction encoded stored" and "try_map (tool_decode_event sd) encoded = Ok events"
    and "apply_transaction s events = Ok s'" and "p + length encoded < 2 ^ 64"
  shows "replay_loop sd p stored s = Ok s'"
proof -
  note st = stored_transaction_nth [OF assms(1)]
  obtain first rest where stored: "stored = first # rest"
    using st(1,2) by (cases stored) auto
  have first: "first = stored ! 0" and count: "unat (sv_count first) = length stored"
    using st(5) [of 0] st(1,2) by (simp_all add: stored)
  have "map sv_data stored = encoded"
    using st(1,4) by (intro nth_equalityI) simp_all
  then have "try_map (\<lambda>event. tool_decode_event sd (sv_data event)) stored = try_map (tool_decode_event sd) encoded"
    by (induction stored arbitrary: encoded) auto
  moreover have "\<not> list_ex (\<lambda>event. sv_transaction event \<noteq> sv_transaction first) stored"
    using st(1,6) by (auto simp: first list_ex_iff in_set_conv_nth)
  ultimately show ?thesis
    using assms(2-4) count st(1,2) by (simp add: stored usize_add_def Let_def)
qed

lemma replay_state_length: "replay_state sd xs = Ok s \<Longrightarrow> replay_state sd (xs @ ys) = replay_loop sd (length xs) ys s"
  using replay_loop_append [of sd 0 xs tool_state_default s ys] by (simp add: replay_state_def)

text \<open>A transaction of the Tool Runtime, over what is stored for it.\<close>

definition tool_transact :: "tool_serde \<Rightarrow> tool_state \<Rightarrow> event_data list \<Rightarrow> tool_state \<Rightarrow> bool" where
  "tool_transact sd s encoded s' \<longleftrightarrow> serde_faithful sd \<and> (\<exists>events. list_all event_fits events
     \<and> try_map (tool_encode_event sd) events = Ok encoded \<and> apply_transaction s events = Ok s')"

interpretation tools: event_sourced "replay_state sd" "tool_transact sd" for sd
proof
  fix xs s encoded s' stored
  assume "replay_state sd xs = Ok s" "tool_transact sd s encoded s'" "stored_transaction encoded stored"
    and bound: "length xs + length encoded \<le> 1000000"
  then show "replay_state sd (xs @ stored) = Ok s'"
    by (auto simp: tool_transact_def replay_state_length intro!: replay_loop_transaction tool_events_read_back)
qed

end
