(* ===== verification/Tool_Laws.thy ===== *)
theory Tool_Laws
  imports Tool_Codec_Laws
begin

text \<open>
  The life of a Tool call: what a transaction does to the state, the invariant of the state, and the
  runtime in step with its ledger through every operation, failed write and restart.
\<close>

section \<open>The lifecycle\<close>

text \<open>The abstract machine: a map from call identifiers to records, in which a call is registered under the
  next identifier and then takes the steps of its life.\<close>

inductive call_step :: "tool_call_record \<Rightarrow> tool_call_record \<Rightarrow> bool" where
  granted: "tc_status r = AwaitingApproval \<Longrightarrow> expires_at \<noteq> 0 \<Longrightarrow>
    call_step r (r\<lparr>tc_expires_at := Some expires_at, tc_status := ReconciliationRequired, tc_reason := Some reason\<rparr>)"
| denied: "tc_status r = AwaitingApproval \<Longrightarrow> call_step r (r\<lparr>tc_status := CallDenied, tc_reason := Some reason\<rparr>)"
| succeeded: "tc_status r = ReconciliationRequired \<Longrightarrow>
    call_step r (r\<lparr>tc_status := CallSucceeded, tc_result_digest := Some result_digest, tc_reason := None\<rparr>)"
| failed: "tc_status r = ReconciliationRequired \<Longrightarrow> call_step r (r\<lparr>tc_status := CallFailed, tc_reason := Some reason\<rparr>)"
| ambiguous: "tc_status r = ReconciliationRequired \<Longrightarrow> call_step r (r\<lparr>tc_reason := Some reason\<rparr>)"

inductive registry_step :: "(tool_call_id \<Rightarrow> tool_call_record option) \<Rightarrow> (tool_call_id \<Rightarrow> tool_call_record option) \<Rightarrow> bool"
where
  registered: "m call = None \<Longrightarrow> \<forall>r \<in> ran m. tc_identity r \<noteq> identity \<Longrightarrow>
    registry_step m (m(call \<mapsto> \<lparr>tc_call = call, tc_identity = identity, tc_agent = agent, tc_tool = tool,
      tc_arguments_hash = hash, tc_binding = binding, tc_status = AwaitingApproval, tc_expires_at = None,
      tc_result_digest = None, tc_reason = None\<rparr>))"
| advanced: "m call = Some r \<Longrightarrow> call_step r r' \<Longrightarrow> registry_step m (m(call \<mapsto> r'))"

text \<open>What a record of each status holds.\<close>

definition call_record_ok :: "tool_call_record \<Rightarrow> bool" where
  "call_record_ok r \<longleftrightarrow> (tc_expires_at r = None \<longleftrightarrow> tc_status r = AwaitingApproval \<or> tc_status r = CallDenied)
     \<and> (tc_result_digest r = None \<longleftrightarrow> tc_status r \<noteq> CallSucceeded)
     \<and> (tc_reason r = None \<longleftrightarrow> tc_status r = AwaitingApproval \<or> tc_status r = CallSucceeded)"

lemma call_step_ok: "call_step r r' \<Longrightarrow> call_record_ok r \<Longrightarrow> call_record_ok r'"
  by (induction rule: call_step.induct) (auto simp: call_record_ok_def)

text \<open>The request a record stands for, which no step changes.\<close>

definition call_terms :: "tool_call_record \<Rightarrow> tool_call_id \<times> string \<times> agent_id \<times> string \<times> digest \<times> tool_resource_binding"
where
  "call_terms r = (tc_call r, tc_identity r, tc_agent r, tc_tool r, tc_arguments_hash r, tc_binding r)"

lemma call_step_terms:
  assumes "call_step r r'"
  shows "call_terms r' = call_terms r" "tc_call r' = tc_call r" "tc_identity r' = tc_identity r"
    "tc_status r \<in> {AwaitingApproval, ReconciliationRequired}" "tc_status r' \<noteq> AwaitingApproval"
    "tc_status r = ReconciliationRequired \<Longrightarrow> tc_expires_at r' = tc_expires_at r \<and> tc_status r' \<noteq> CallDenied"
  using assms by (cases; simp add: call_terms_def)+

section \<open>States\<close>

definition tool_ok :: "tool_state \<Rightarrow> bool" where
  "tool_ok s \<longleftrightarrow> bt_ok (tl_calls s) \<and> bt_ok (tl_identities s) \<and> tl_next_call s \<noteq> 0
     \<and> (\<forall>call. bt_get (tl_calls s) call \<noteq> None \<longleftrightarrow> id_get call \<noteq> 0 \<and> id_get call < tl_next_call s)
     \<and> (\<forall>call r. bt_get (tl_calls s) call = Some r \<longrightarrow> tc_call r = call \<and> call_record_ok r)
     \<and> (\<forall>identity call. bt_get (tl_identities s) identity = Some call
          \<longleftrightarrow> (\<exists>r. bt_get (tl_calls s) call = Some r \<and> tc_identity r = identity))"

lemma tool_ok_default: "tool_ok tool_state_default"
  by (auto simp: tool_ok_def tool_state_default_def)

lemma tool_ok_record:
  assumes "tool_ok s" and "bt_get (tl_calls s) call = Some r"
  shows "tc_call r = call" "id_valid (id_get call)" "call_record_ok r"
    "bt_get (tl_identities s) (tc_identity r) = Some call"
proof -
  have below: "id_get call < tl_next_call s" "id_get call \<noteq> 0"
    using assms unfolding tool_ok_def by (metis option.distinct(1))+
  then show "id_valid (id_get call)" by (auto simp: id_valid_def u64_max_def)
  show "tc_call r = call" "call_record_ok r" "bt_get (tl_identities s) (tc_identity r) = Some call"
    using assms unfolding tool_ok_def by blast+
qed

text \<open>A lookup followed by a write.\<close>

lemma awaiting_approval_Ok [result_ok]:
  "awaiting_approval s call = Ok r \<longleftrightarrow> bt_get (tl_calls s) call = Some r \<and> tc_status r = AwaitingApproval"
  by (auto simp: awaiting_approval_def result_ok)

lemma reconciliation_required_Ok [result_ok]:
  "reconciliation_required s call = Ok r \<longleftrightarrow> bt_get (tl_calls s) call = Some r \<and> tc_status r = ReconciliationRequired"
  by (auto simp: reconciliation_required_def result_ok)

lemma put_call_simps [simp]:
  "bt_get (tl_calls (put_call s call r)) c = (if c = call then Some r else bt_get (tl_calls s) c)"
  "tl_identities (put_call s call r) = tl_identities s" "tl_next_call (put_call s call r) = tl_next_call s"
  by (simp_all add: put_call_def bt_get_insert)

lemma put_call_upd: "bt_get (tl_calls (put_call s call r)) = (bt_get (tl_calls s))(call \<mapsto> r)"
  by (rule ext) simp

lemma bt_insert_twice: "bt_insert k v' (bt_insert k v m) = bt_insert k v' m"
  by (induction k v m rule: bt_insert.induct) auto

lemma put_call_twice [simp]: "put_call (put_call s call r) call r' = put_call s call r'"
  by (simp add: put_call_def bt_insert_twice)

text \<open>What a transaction is, and what it does.\<close>

lemma transaction_shapes:
  assumes "transaction_shape events"
  obtains (one) event where "events = [event]" "\<forall>c a h b e. event \<noteq> ApprovalGranted c a h b e" "\<forall>c h. event \<noteq> EffectPrepared c h"
  | (grant) call agent hash binding expires_at hash'
    where "events = [ApprovalGranted call agent hash binding expires_at, EffectPrepared call hash']"
  using assms by (induction events rule: transaction_shape.induct) auto

text \<open>Every event of the shape \<open>one\<close> but a request is a step of its call.\<close>

lemma single_event_step:
  assumes "tool_apply s event = Ok s'" and "\<forall>c a h b e. event \<noteq> ApprovalGranted c a h b e"
    and "\<forall>c h. event \<noteq> EffectPrepared c h" and "\<forall>c i a t h b. event \<noteq> CallRequested c i a t h b"
  obtains r r' where "bt_get (tl_calls s) (event_call event) = Some r" "call_step r r'" "s' = put_call s (event_call event) r'"
proof (cases event)
  case (ApprovalDenied call reason)
  then show thesis using assms(1) that call_step.denied by (auto simp: result_ok apply_approval_denied_def)
next
  case (EffectAmbiguous call reason)
  then show thesis using assms(1) that call_step.ambiguous by (auto simp: result_ok apply_effect_ambiguous_def)
next
  case (EffectSucceeded call result_digest)
  then show thesis using assms(1) that call_step.succeeded by (auto simp: result_ok apply_effect_succeeded_def)
next
  case (EffectReconciledSucceeded call result_digest)
  then show thesis using assms(1) that call_step.succeeded by (auto simp: result_ok apply_effect_succeeded_def)
next
  case (EffectFailed call reason)
  then show thesis using assms(1) that call_step.failed by (auto simp: result_ok apply_effect_failed_def)
next
  case (EffectReconciledFailed call reason)
  then show thesis using assms(1) that call_step.failed by (auto simp: result_ok apply_effect_failed_def)
qed (use assms in blast)+

lemma transaction_cases:
  assumes "apply_transaction s events = Ok s'"
  obtains (request) call identity agent tool hash binding where
      "events = [CallRequested call identity agent tool hash binding]"
      "apply_call_requested s call identity agent tool hash binding = Ok s'"
  | (advance) call r r' where "bt_get (tl_calls s) call = Some r" "call_step r r'" "s' = put_call s call r'"
      "\<forall>event \<in> set events. event_call event = call"
proof -
  from assms have shape: "transaction_shape events" and fold: "try_fold tool_apply s events = Ok s'"
    by (auto simp: apply_transaction_def validate_transaction_def result_ok split: if_splits)
  from shape show thesis
  proof (cases rule: transaction_shapes)
    case (one event)
    then have app: "tool_apply s event = Ok s'" using fold by (auto simp: result_ok)
    show thesis
    proof (cases "\<exists>c i a t h b. event = CallRequested c i a t h b")
      case True
      then show thesis using app one request by auto
    next
      case False
      then have "\<forall>c i a t h b. event \<noteq> CallRequested c i a t h b" by blast
      from single_event_step [OF app one(2,3) this] obtain r r' where
        "bt_get (tl_calls s) (event_call event) = Some r" "call_step r r'" "s' = put_call s (event_call event) r'"
        by blast
      then show thesis using one(1) advance by simp
    qed
  next
    case (grant call agent hash binding expires_at hash')
    with fold obtain r where r: "bt_get (tl_calls s) call = Some r" "tc_status r = AwaitingApproval" "expires_at \<noteq> 0"
      and s': "s' = put_call (put_call s call (r\<lparr>tc_expires_at := Some expires_at\<rparr>)) call
        (r\<lparr>tc_expires_at := Some expires_at, tc_status := ReconciliationRequired,
           tc_reason := Some ''prepared Tool effect has no durable outcome''\<rparr>)"
      by (auto simp: result_ok apply_approval_granted_def apply_effect_prepared_def)
    show thesis
      using r grant call_step.granted [OF r(2,3)]
      by (intro advance [of call r "r\<lparr>tc_expires_at := Some expires_at, tc_status := ReconciliationRequired,
           tc_reason := Some ''prepared Tool effect has no durable outcome''\<rparr>"])
        (simp_all add: s')
  qed
qed

text \<open>Transactions keep the invariant and are steps of the abstract machine.\<close>

lemma requested_fresh:
  assumes "tool_ok s" and "apply_call_requested s call identity agent tool hash binding = Ok s'"
  shows "bt_get (tl_calls s) call = None" "bt_get (tl_identities s) identity = None"
    "id_get call = tl_next_call s" "tl_next_call s' = tl_next_call s + 1" "unat (tl_next_call s) + 1 < 2 ^ 64"
    "s' = (put_call s call \<lparr>tc_call = call, tc_identity = identity, tc_agent = agent, tc_tool = tool,
        tc_arguments_hash = hash, tc_binding = binding, tc_status = AwaitingApproval, tc_expires_at = None,
        tc_result_digest = None, tc_reason = None\<rparr>)
      \<lparr>tl_identities := bt_insert identity call (tl_identities s), tl_next_call := tl_next_call s + 1\<rparr>"
  using assms(2)
  by (auto simp: apply_call_requested_def result_ok bt_contains_key_def checked_add_Some_iff split: if_splits)

lemma requested_ok:
  assumes s: "tool_ok s" and app: "apply_call_requested s call identity agent tool hash binding = Ok s'"
  shows "tool_ok s'"
proof -
  note fresh = requested_fresh [OF s app]
  have below: "x < tl_next_call s + 1 \<longleftrightarrow> x < tl_next_call s \<or> x = tl_next_call s" for x
    using fresh(5) by (auto simp: word_less_nat_alt unat_word_ariths word_unat_eq_iff)
  have nonzero: "tl_next_call s + 1 \<noteq> 0"
    using fresh(5) by (auto simp: word_unat_eq_iff unat_word_ariths)
  have call: "c = call \<longleftrightarrow> id_get c = tl_next_call s" for c
    using fresh(3) by (cases c; cases call) auto
  have ids: "tc_identity r \<noteq> identity" if "bt_get (tl_calls s) c = Some r" for c r
    using that s fresh(2) unfolding tool_ok_def by (metis option.distinct(1))
  show ?thesis
    unfolding tool_ok_def
  proof (intro conjI allI impI)
    show "bt_ok (tl_calls s')" "bt_ok (tl_identities s')" "tl_next_call s' \<noteq> 0"
      using s nonzero by (simp_all add: tool_ok_def fresh(6) put_call_def bt_ok_insert)
    show "bt_get (tl_calls s') c \<noteq> None \<longleftrightarrow> id_get c \<noteq> 0 \<and> id_get c < tl_next_call s'" for c
      using s fresh(3) by (auto simp: tool_ok_def fresh(6) below call)
    show "bt_get (tl_calls s') c = Some r \<Longrightarrow> tc_call r = c" "bt_get (tl_calls s') c = Some r \<Longrightarrow> call_record_ok r" for c r
      using s by (auto simp: fresh(6) call_record_ok_def split: if_splits) (auto simp: tool_ok_def call_record_ok_def)
    show "bt_get (tl_identities s') i = Some c \<longleftrightarrow> (\<exists>r. bt_get (tl_calls s') c = Some r \<and> tc_identity r = i)" for i c
      using s fresh(1,2) ids by (auto simp: tool_ok_def fresh(6) bt_get_insert)
  qed
qed

lemma advanced_ok:
  assumes s: "tool_ok s" and r: "bt_get (tl_calls s) call = Some r" and step: "call_step r r'"
  shows "tool_ok (put_call s call r')"
  unfolding tool_ok_def
proof (intro conjI allI impI)
  show "bt_ok (tl_calls (put_call s call r'))" using s by (simp add: tool_ok_def put_call_def bt_ok_insert)
  show "bt_get (tl_calls (put_call s call r')) c \<noteq> None \<longleftrightarrow> id_get c \<noteq> 0 \<and> id_get c < tl_next_call (put_call s call r')" for c
    using s r by (auto simp: tool_ok_def)
  show "bt_get (tl_calls (put_call s call r')) c = Some q \<Longrightarrow> tc_call q = c" for c q
    using s r call_step_terms(2) [OF step] by (auto simp: tool_ok_def split: if_splits)
  show "bt_get (tl_calls (put_call s call r')) c = Some q \<Longrightarrow> call_record_ok q" for c q
    using s r call_step_ok [OF step] by (auto simp: tool_ok_def split: if_splits)
  show "bt_get (tl_identities (put_call s call r')) i = Some c
      \<longleftrightarrow> (\<exists>q. bt_get (tl_calls (put_call s call r')) c = Some q \<and> tc_identity q = i)" for i c
    using s r call_step_terms(3) [OF step] by (auto simp: tool_ok_def)
qed (use s in \<open>simp_all add: tool_ok_def\<close>)

lemma transaction_ok: "apply_transaction s events = Ok s' \<Longrightarrow> tool_ok s \<Longrightarrow> tool_ok s'"
  by (cases rule: transaction_cases [of s events s']) (auto intro: requested_ok advanced_ok)

lemma transaction_registry:
  assumes "apply_transaction s events = Ok s'" and "tool_ok s"
  shows "registry_step (bt_get (tl_calls s)) (bt_get (tl_calls s'))"
  using assms(1)
proof (cases rule: transaction_cases)
  case (request call identity agent tool hash binding)
  note fresh = requested_fresh [OF assms(2) request(2)]
  have "\<forall>r \<in> ran (bt_get (tl_calls s)). tc_identity r \<noteq> identity"
    using assms(2) fresh(2) unfolding tool_ok_def ran_def by (auto, metis option.distinct(1))
  from registered [OF fresh(1) this] show ?thesis by (simp add: fresh(6) put_call_upd)
next
  case (advance call r r')
  then show ?thesis using registry_step.advanced [where m = "bt_get (tl_calls s)", OF advance(1,2)] by (simp add: put_call_upd)
qed

lemma replay_loop_ok: "replay_loop sd p events s = Ok s' \<Longrightarrow> tool_ok s \<Longrightarrow> tool_ok s'"
proof (induction sd p events s rule: replay_loop.induct)
  case (2 sd position first rest s)
  from "2.prems"(1) obtain q decoded s1 where "usize_add position (unat (sv_count first)) = Some q"
    and "apply_transaction s decoded = Ok s1"
    and "replay_loop sd q (drop (unat (sv_count first)) (first # rest)) s1 = Ok s'"
    and "\<not> (unat (sv_count first) = 0 \<or> unat (sv_count first) > length (first # rest))"
    and "\<not> list_ex (\<lambda>event. sv_transaction event \<noteq> sv_transaction first) (take (unat (sv_count first)) (first # rest))"
    and "try_map (\<lambda>event. tool_decode_event sd (sv_data event)) (take (unat (sv_count first)) (first # rest)) = Ok decoded"
    by (auto simp: result_ok Let_def split: if_splits)
  then show ?case using "2.IH" [OF refl refl] transaction_ok "2.prems"(2) by simp
qed simp

lemma replay_state_ok: "replay_state sd events = Ok s \<Longrightarrow> tool_ok s"
  unfolding replay_state_def by (erule replay_loop_ok) (rule tool_ok_default)

end
