(* ===== verification/Tool_Life.thy ===== *)
theory Tool_Life
  imports Tool_Laws
begin

text \<open>
  The Tool Runtime through its life: created, used and opened again, with writes that fail and processes
  that stop at any point.  Which calls were handed to the executor is part of the history.
\<close>

lemma andthen_with_simps [simp]:
  "andthen_with (Ok x, s) f = f x s" "andthen_with (Err e, s) f = (Err e, s)" "andthen_with (Diverges, s) f = (Diverges, s)"
  by (simp_all add: andthen_with_def)

section \<open>Appending\<close>

text \<open>The runtime and its ledger agree.\<close>

definition runtime_in_step :: "tool_serde \<Rightarrow> durable_tool_runtime \<Rightarrow> bool" where
  "runtime_in_step sd d \<longleftrightarrow> tools.in_step sd (dtr_ledger d) (dtr_state d)"

lemma runtime_in_step_ok:
  assumes "runtime_in_step sd d"
  shows "tool_ok (dtr_state d)" "\<not> fl_poisoned (dtr_ledger d)" "tools.on_disk sd (dtr_ledger d) (dtr_state d)"
  using assms replay_state_ok tools.in_step_on_disk by (auto simp: runtime_in_step_def tools.in_step_def)

lemma append_tool_cases:
  assumes d: "runtime_in_step sd d" and serde: "serde_faithful sd" and fits: "list_all event_fits events"
    and app: "append_tool_events sd outcome d events = (r, d')"
  obtains (appended) receipt where "r = Ok receipt" "runtime_in_step sd d'"
      "apply_transaction (dtr_state d) events = Ok (dtr_state d')"
  | (refused) "\<forall>x. r \<noteq> Ok x" "d' = d"
  | (failed) e s where "r = Err e" "fl_poisoned (dtr_ledger d')" "apply_transaction (dtr_state d) events = Ok s"
      "tools.on_disk sd (dtr_ledger d') (dtr_state d) \<or> tools.on_disk sd (dtr_ledger d') s"
proof (cases "andthen (validate_transaction events) (\<lambda>_.
    andthen (apply_transaction (dtr_state d) events) (\<lambda>candidate.
    andthen (try_map (tool_encode_event sd) events) (\<lambda>encoded. Ok (candidate, encoded))))")
  case (Ok p)
  then obtain s encoded where p: "p = (s, encoded)" and s: "apply_transaction (dtr_state d) events = Ok s"
    and encoded: "try_map (tool_encode_event sd) events = Ok encoded" by (auto simp: andthen_eq_Ok)
  obtain res ledger where wr: "ledger_append outcome (dtr_ledger d) (fl_head (dtr_ledger d)) encoded = (res, ledger)"
    by fastforce
  have "tool_transact sd (dtr_state d) encoded s"
    using serde fits encoded s by (auto simp: tool_transact_def)
  from d [unfolded runtime_in_step_def] this wr show thesis
  proof (cases rule: tools.append_cases)
    case (appended receipt)
    then have "r = Ok receipt \<and> dtr_state d' = s \<and> dtr_ledger d' = ledger"
      using app by (auto simp: append_tool_events_def Ok p wr)
    then show thesis using that(1) appended s by (simp add: runtime_in_step_def)
  next
    case refused
    then show thesis
      using that(2) app by (cases res) (auto simp: append_tool_events_def Ok p wr)
  next
    case (failed e)
    then have "r = Err (ToolLedger e) \<and> dtr_ledger d' = ledger"
      using app by (auto simp: append_tool_events_def Ok p wr)
    then show thesis using that(3) [OF _ _ s] failed by simp
  qed
next
  case (Err e)
  then show thesis using that(2) app by (auto simp: append_tool_events_def)
next
  case Diverges
  then show thesis using that(2) app by (auto simp: append_tool_events_def)
qed

text \<open>A poisoned writer stores nothing more.\<close>

lemma append_tool_poisoned:
  assumes "fl_poisoned (dtr_ledger d)" and "append_tool_events sd outcome d events = (r, d')"
  shows "(\<forall>x. r \<noteq> Ok x) \<and> d' = d"
proof (cases "andthen (validate_transaction events) (\<lambda>_.
    andthen (apply_transaction (dtr_state d) events) (\<lambda>candidate.
    andthen (try_map (tool_encode_event sd) events) (\<lambda>encoded. Ok (candidate, encoded))))")
  case (Ok p)
  obtain s encoded where p: "p = (s, encoded)" by fastforce
  obtain res ledger where wr: "ledger_append outcome (dtr_ledger d) (fl_head (dtr_ledger d)) encoded = (res, ledger)"
    by fastforce
  show ?thesis
    using append_outcomes(2,3) [OF wr] assms by (cases res) (auto simp: append_tool_events_def Ok p wr)
qed (use assms(2) in \<open>auto simp: append_tool_events_def\<close>)

section \<open>What is appended fits\<close>

definition principal_fits :: "tool_principal \<Rightarrow> bool" where
  "principal_fits p \<longleftrightarrow> id_valid (id_get (pr_agent p))"

definition digests :: "hasher \<Rightarrow> bool" where
  "digests sha256 \<longleftrightarrow> (\<forall>bytes. length (sha256 bytes) = 32)"

lemma resource_axis_bound: "validate_resource_axis rs = Ok () \<Longrightarrow> unat (of_nat (fcard rs) :: u16) \<le> MAX_RESOURCES_PER_AXIS"
  by (auto simp: validate_resource_axis_def MAX_RESOURCES_PER_AXIS_def unat_of_nat split: if_splits)

lemma resources_binding_fits:
  assumes "resources_validate r = Ok ()" and "digests sha256"
  shows "binding_validate (resources_binding sha256 r) = Ok ()" "length (rb_fingerprint (resources_binding sha256 r)) = 32"
  using assms
  by (auto simp: resources_validate_def result_ok binding_validate_def resources_binding_def digests_def not_less
      dest!: resource_axis_bound)

lemma arguments_hash_fits [simp]: "digests sha256 \<Longrightarrow> length (arguments_hash sha256 a) = 32"
  by (simp add: arguments_hash_def digests_def)

lemma validate_request_Ok:
  assumes "validate_request sha256 d p request = Ok ()"
  obtains r where "pr_session p = rq_session request" "pr_agent p = as_agent (rq_session request)"
    "intent_validate (rq_intent request) = Ok ()" "validate_authority (pr_capabilities p) (rq_intent request) = Ok ()"
    "rq_arguments_hash request = arguments_hash sha256 (ti_arguments (rq_intent request))"
    "bt_get (tl_calls (dtr_state d)) (rq_call request) = Some r" "tc_status r = AwaitingApproval"
    "record_matches sha256 r (pr_agent p) (rq_intent request) (rq_arguments_hash request)"
  using assms by (auto simp: validate_request_def result_ok tool_record_def split: if_splits)

lemma outcome_event_fits: "digests sha256 \<Longrightarrow> id_valid (id_get call) \<Longrightarrow> event_fits (outcome_event sha256 call execution)"
  by (auto simp: outcome_event_def digests_def split: tool_execution.splits)

section \<open>Resolving\<close>

text \<open>The grant that resolving stores before anything is executed.\<close>

definition grant_events :: "hasher \<Rightarrow> tool_principal \<Rightarrow> tool_approval_request \<Rightarrow> u64 \<Rightarrow> tool_event list" where
  "grant_events sha256 p request expires_at =
     [ApprovalGranted (rq_call request) (pr_agent p) (rq_arguments_hash request)
        (resources_binding sha256 (ti_resources (rq_intent request))) expires_at,
      EffectPrepared (rq_call request) (rq_arguments_hash request)]"

text \<open>Resolving executes at most one call, and only after its grant was appended.\<close>

lemma tool_resolve_cases:
  assumes "tool_resolve sha256 sd clock prepare_outcome outcome_outcome execute d p request decision = (res, d', calls)"
  obtains (invalid) "d' = d" "calls = []"
  | (denied) reason r where "decision = Deny reason" "calls = []" "validate_request sha256 d p request = Ok ()"
      "append_tool_events sd prepare_outcome d [ApprovalDenied (rq_call request) APPROVAL_DENIED_REASON] = (r, d')"
  | (unprepared) expires_at r where "calls = []" "validate_request sha256 d p request = Ok ()" "\<forall>x. r \<noteq> Ok x"
      "append_tool_events sd prepare_outcome d (grant_events sha256 p request expires_at) = (r, d')"
  | (unrecorded) expires_at receipt where "calls = []" "validate_request sha256 d p request = Ok ()"
      "append_tool_events sd prepare_outcome d (grant_events sha256 p request expires_at) = (Ok receipt, d')"
      "bt_get (tl_calls (dtr_state d')) (rq_call request) = None"
  | (executed) expires_at now receipt d1 r1 a ro where "validate_request sha256 d p request = Ok ()"
      "decision = Grant expires_at" "current_unix_ms clock = Ok now" "now < expires_at"
      "append_tool_events sd prepare_outcome d (grant_events sha256 p request expires_at) = (Ok receipt, d1)"
      "bt_get (tl_calls (dtr_state d1)) (rq_call request) = Some r1"
      "a = \<lparr>au_record = r1, au_arguments = ti_arguments (rq_intent request), au_resources = ti_resources (rq_intent request)\<rparr>"
      "calls = [a]"
      "append_tool_events sd outcome_outcome d1 [outcome_event sha256 (rq_call request) (execute a)] = (ro, d')"
proof (cases "validate_request sha256 d p request")
  case (Ok u)
  then have valid: "validate_request sha256 d p request = Ok ()" by simp
  show thesis
  proof (cases decision)
    case (Deny reason)
    obtain r d1 where app: "append_tool_events sd prepare_outcome d [ApprovalDenied (rq_call request) APPROVAL_DENIED_REASON] = (r, d1)"
      by fastforce
    show thesis
    proof (cases "validate_bounded_text reason MAX_TOOL_REASON_BYTES ''denial reason''")
      case (Ok u)
      then have "d' = d1 \<and> calls = []"
        using assms valid app by (cases r) (auto simp: tool_resolve_def Deny)
      then show thesis using denied valid Deny app by blast
    qed (use assms valid invalid in \<open>auto simp: tool_resolve_def Deny\<close>)
  next
    case (Grant expires_at)
    show thesis
    proof (cases "current_unix_ms clock")
      case (Ok now)
      obtain r d1 where app: "append_tool_events sd prepare_outcome d (grant_events sha256 p request expires_at) = (r, d1)"
        by fastforce
      show thesis
      proof (cases "expires_at \<le> now")
        case True
        then show thesis using assms valid Ok invalid by (auto simp: tool_resolve_def Grant)
      next
        case False
        note run = assms [unfolded tool_resolve_def Grant, folded grant_events_def]
        show thesis
        proof (cases r)
          case r: (Ok receipt)
          show thesis
          proof (cases "bt_get (tl_calls (dtr_state d1)) (rq_call request)")
            case None
            then have "d' = d1 \<and> calls = []"
              using run valid Ok False app r by (simp add: tool_record_def)
            then show thesis using unrecorded [OF _ valid] app None r by blast
          next
            case (Some r1)
            let ?a = "\<lparr>au_record = r1, au_arguments = ti_arguments (rq_intent request),
              au_resources = ti_resources (rq_intent request)\<rparr>"
            obtain ro d2 where app2:
              "append_tool_events sd outcome_outcome d1 [outcome_event sha256 (rq_call request) (execute ?a)] = (ro, d2)"
              by fastforce
            have "d' = d2 \<and> calls = [?a]"
              using run valid Ok False app r Some app2 by (cases ro) (auto simp: tool_record_def Let_def)
            then show thesis
              using executed [OF valid Grant Ok _ app [unfolded r] Some refl] app2 False by simp
          qed
        qed (use run valid Ok False app unprepared [OF _ valid] in \<open>auto\<close>)
      qed
    qed (use assms valid invalid in \<open>auto simp: tool_resolve_def Grant\<close>)
  qed
qed (use assms invalid in \<open>auto simp: tool_resolve_def\<close>)

section \<open>Histories\<close>

text \<open>A Tool Ledger through its life, with the calls that were handed to the executor, in order.  A process
  that stops in the middle of an operation is a write that fails there, followed by \<open>reopened\<close>.\<close>

definition decision_fits :: "tool_reconciliation_decision \<Rightarrow> bool" where
  "decision_fits decision \<longleftrightarrow> (\<forall>result_digest. decision = ObservedSucceeded result_digest \<longrightarrow> length result_digest = 32)"

inductive tool_history :: "hasher \<Rightarrow> tool_serde \<Rightarrow> durable_tool_runtime \<Rightarrow> authorized_tool_call list \<Rightarrow> bool"
  for sha256 sd where
  created: "tool_open sd Missing False = Ok d \<Longrightarrow> tool_history sha256 sd d []"
| requested: "tool_history sha256 sd d xs \<Longrightarrow> principal_fits p \<Longrightarrow> tool_request sha256 sd outcome d p intent = (r, d')
    \<Longrightarrow> tool_history sha256 sd d' xs"
| resolved: "tool_history sha256 sd d xs \<Longrightarrow> principal_fits p
    \<Longrightarrow> tool_resolve sha256 sd clock prepare_outcome outcome_outcome execute d p request decision = (res, d', calls)
    \<Longrightarrow> tool_history sha256 sd d' (xs @ calls)"
| reconciled: "tool_history sha256 sd d xs \<Longrightarrow> decision_fits reconciliation
    \<Longrightarrow> tool_reconcile sd outcome d p call reconciliation = (record, d') \<Longrightarrow> tool_history sha256 sd d' xs"
| reopened: "tool_history sha256 sd d xs \<Longrightarrow> tool_open sd (Regular (fl_file (dtr_ledger d))) False = Ok d'
    \<Longrightarrow> tool_history sha256 sd d' xs"

text \<open>The executed calls are different calls, and the state knows each as prepared or settled.\<close>

definition executed_call :: "authorized_tool_call \<Rightarrow> tool_call_id" where
  "executed_call a = tc_call (au_record a)"

definition consumed :: "tool_state \<Rightarrow> authorized_tool_call list \<Rightarrow> bool" where
  "consumed s xs \<longleftrightarrow> distinct (map executed_call xs)
     \<and> (\<forall>a \<in> set xs. \<exists>r. bt_get (tl_calls s) (executed_call a) = Some r \<and> call_terms r = call_terms (au_record a)
          \<and> tc_expires_at r = tc_expires_at (au_record a) \<and> tc_status r \<in> {ReconciliationRequired, CallSucceeded, CallFailed})"

lemma consumed_transaction:
  assumes "consumed s xs" and "tool_ok s" and "apply_transaction s events = Ok s'"
  shows "consumed s' xs"
  using assms(3)
proof (cases rule: transaction_cases)
  case (request call identity agent tool hash binding)
  note fresh = requested_fresh [OF assms(2) request(2)]
  show ?thesis using assms(1) fresh(1) unfolding consumed_def by (auto simp: fresh(6))
next
  case (advance call r r')
  note step = call_step_terms [OF advance(2)]
  have "tc_status r' \<in> {ReconciliationRequired, CallSucceeded, CallFailed}" if "tc_status r = ReconciliationRequired"
    using step(5) step(6) [OF that] by (cases "tc_status r'") auto
  with assms(1) step(1,4,6) advance(1) show ?thesis unfolding consumed_def advance(3) by (auto; fastforce)
qed

definition tool_invariant :: "tool_serde \<Rightarrow> durable_tool_runtime \<Rightarrow> authorized_tool_call list \<Rightarrow> bool" where
  "tool_invariant sd d xs \<longleftrightarrow> tool_ok (dtr_state d)
     \<and> (\<exists>s. tools.on_disk sd (dtr_ledger d) s \<and> tool_ok s \<and> consumed s xs
          \<and> (fl_poisoned (dtr_ledger d) \<or> runtime_in_step sd d \<and> s = dtr_state d))"

lemma tool_invariantI: "runtime_in_step sd d \<Longrightarrow> consumed (dtr_state d) xs \<Longrightarrow> tool_invariant sd d xs"
  using runtime_in_step_ok [of sd d] by (auto simp: tool_invariant_def)

lemma tool_invariant_step:
  assumes "tool_invariant sd d xs" and "\<not> fl_poisoned (dtr_ledger d)"
  shows "runtime_in_step sd d" "consumed (dtr_state d) xs"
  using assms by (auto simp: tool_invariant_def)

lemma invariant_append:
  assumes inv: "tool_invariant sd d xs" and serde: "serde_faithful sd" and fits: "list_all event_fits events"
    and app: "append_tool_events sd outcome d events = (r, d')"
  shows "tool_invariant sd d' xs"
proof (cases "fl_poisoned (dtr_ledger d)")
  case True
  then show ?thesis using append_tool_poisoned [OF _ app] inv by simp
next
  case False
  note step = tool_invariant_step [OF inv False]
  note ok = runtime_in_step_ok(1) [OF step(1)]
  from step(1) serde fits app show ?thesis
  proof (cases rule: append_tool_cases)
    case (appended receipt)
    then show ?thesis using consumed_transaction [OF step(2) ok] by (blast intro: tool_invariantI)
  next
    case refused
    then show ?thesis using inv by simp
  next
    case (failed e s)
    have "dtr_state d' = dtr_state d"
      using app failed(1) unfolding append_tool_events_def
      by (auto simp: andthen_with_def split: result.splits prod.splits)
    moreover have "consumed s xs" "tool_ok s"
      using consumed_transaction [OF step(2) ok failed(3)] transaction_ok [OF failed(3) ok] by simp_all
    ultimately show ?thesis using failed(2,4) ok step(2) by (auto simp: tool_invariant_def)
  qed
qed

lemma invariant_requested:
  assumes inv: "tool_invariant sd d xs" and serde: "serde_faithful sd" and sha: "digests sha256"
    and p: "principal_fits p" and req: "tool_request sha256 sd outcome d p intent = (r, d')"
  shows "tool_invariant sd d' xs"
proof (cases "d' = d")
  case False
  then obtain call ra where valid: "intent_validate intent = Ok ()" and call: "call_id_new (tl_next_call (dtr_state d)) = Ok call"
    and app: "append_tool_events sd outcome d
      [CallRequested call (ti_identity intent) (pr_agent p) (ti_tool intent) (arguments_hash sha256 (ti_arguments intent))
        (resources_binding sha256 (ti_resources intent))] = (ra, d')"
    using req by (auto simp: tool_request_def andthen_with_def Let_def result_ok split: result.splits option.splits prod.splits if_splits)
  have "id_valid (id_get call)" using call by (auto simp: call_id_new_def id_valid_def split: if_splits)
  moreover have "resources_validate (ti_resources intent) = Ok ()" using valid by (simp add: intent_validate_def result_ok)
  ultimately show ?thesis
    using p sha resources_binding_fits [OF _ sha] by (intro invariant_append [OF inv serde _ app]) (simp add: principal_fits_def)
qed (use inv in simp)

lemma invariant_reconciled:
  assumes inv: "tool_invariant sd d xs" and serde: "serde_faithful sd" and fits: "decision_fits reconciliation"
    and rec: "tool_reconcile sd outcome d p call reconciliation = (record, d')"
  shows "tool_invariant sd d' xs"
proof (cases "d' = d")
  case False
  then obtain r event ra where r: "bt_get (tl_calls (dtr_state d)) call = Some r"
    and event: "event = EffectReconciledFailed call RECONCILED_FAILED_REASON
      \<or> (\<exists>result_digest. reconciliation = ObservedSucceeded result_digest \<and> event = EffectReconciledSucceeded call result_digest)"
    and app: "append_tool_events sd outcome d [event] = (ra, d')"
    using rec by (auto simp: tool_reconcile_def andthen_with_def tool_record_def result_ok
        split: result.splits prod.splits if_splits tool_reconciliation_decision.splits)
  have "id_valid (id_get call)" using tool_ok_record(2) [OF _ r] inv by (simp add: tool_invariant_def)
  then show ?thesis using event fits by (intro invariant_append [OF inv serde _ app]) (auto simp: decision_fits_def)
qed (use inv in simp)

lemma granted_state:
  assumes "apply_transaction s (grant_events sha256 p request expires_at) = Ok s'"
  obtains r where "bt_get (tl_calls s) (rq_call request) = Some r" "tc_status r = AwaitingApproval"
    "bt_get (tl_calls s') (rq_call request) = Some (r\<lparr>tc_expires_at := Some expires_at,
       tc_status := ReconciliationRequired, tc_reason := Some ''prepared Tool effect has no durable outcome''\<rparr>)"
  using assms
  by (auto simp: apply_transaction_def grant_events_def result_ok apply_approval_granted_def apply_effect_prepared_def)

lemma grant_events_fit:
  assumes "validate_request sha256 d p request = Ok ()" and "tool_ok (dtr_state d)" and "digests sha256" and "principal_fits p"
  shows "list_all event_fits (grant_events sha256 p request expires_at)" "id_valid (id_get (rq_call request))"
proof -
  from validate_request_Ok [OF assms(1)] obtain r where
    r: "bt_get (tl_calls (dtr_state d)) (rq_call request) = Some r"
    and intent: "intent_validate (rq_intent request) = Ok ()"
    and hash: "rq_arguments_hash request = arguments_hash sha256 (ti_arguments (rq_intent request))" by blast
  show "id_valid (id_get (rq_call request))" by (rule tool_ok_record(2) [OF assms(2) r])
  then show "list_all event_fits (grant_events sha256 p request expires_at)"
    using assms(3,4) intent hash resources_binding_fits [OF _ assms(3)]
    by (simp add: grant_events_def principal_fits_def intent_validate_def result_ok)
qed

text \<open>When a call is executed, its grant is durable and it was not executed before.\<close>

lemma executed_prepared:
  assumes inv: "tool_invariant sd d xs" and serde: "serde_faithful sd" and sha: "digests sha256" and p: "principal_fits p"
    and valid: "validate_request sha256 d p request = Ok ()"
    and app: "append_tool_events sd outcome d (grant_events sha256 p request expires_at) = (Ok receipt, d1)"
    and r1: "bt_get (tl_calls (dtr_state d1)) (rq_call request) = Some r1" and a: "au_record a = r1"
  shows "runtime_in_step sd d1" "consumed (dtr_state d1) (xs @ [a])" "executed_call a = rq_call request"
    "tc_status r1 = ReconciliationRequired" "tc_expires_at r1 = Some expires_at"
proof -
  have "\<not> fl_poisoned (dtr_ledger d)" using append_tool_poisoned [OF _ app] by blast
  note step = tool_invariant_step [OF inv this]
  note ok = runtime_in_step_ok(1) [OF step(1)]
  note fits = grant_events_fit [OF valid ok sha p]
  have next_step: "runtime_in_step sd d1 \<and> apply_transaction (dtr_state d) (grant_events sha256 p request expires_at) = Ok (dtr_state d1)"
    by (rule append_tool_cases [OF step(1) serde fits(1) app]) auto
  then show "runtime_in_step sd d1" by simp
  obtain r where r: "bt_get (tl_calls (dtr_state d)) (rq_call request) = Some r"
    "tc_status r = AwaitingApproval" and r1': "r1 = r\<lparr>tc_expires_at := Some expires_at,
       tc_status := ReconciliationRequired, tc_reason := Some ''prepared Tool effect has no durable outcome''\<rparr>"
    by (rule granted_state [OF conjunct2 [OF next_step]]) (use r1 in simp)
  from r1' show "tc_status r1 = ReconciliationRequired" "tc_expires_at r1 = Some expires_at" by simp_all
  show call: "executed_call a = rq_call request"
    using tool_ok_record(1) [OF ok r(1)] by (simp add: executed_call_def a r1')
  have "rq_call request \<notin> executed_call ` set xs"
    using step(2) r by (fastforce simp: consumed_def)
  moreover have "consumed (dtr_state d1) xs"
    using consumed_transaction [OF step(2) ok] next_step by blast
  ultimately show "consumed (dtr_state d1) (xs @ [a])"
    using call r1 a \<open>tc_status r1 = ReconciliationRequired\<close> by (simp add: consumed_def)
qed

lemma invariant_resolved:
  assumes inv: "tool_invariant sd d xs" and serde: "serde_faithful sd" and sha: "digests sha256" and p: "principal_fits p"
    and res: "tool_resolve sha256 sd clock prepare_outcome outcome_outcome execute d p request decision = (res, d', calls)"
  shows "tool_invariant sd d' (xs @ calls)"
proof -
  have ok: "tool_ok (dtr_state d)" using inv by (simp add: tool_invariant_def)
  note fit = grant_events_fit [OF _ ok sha p]
  from res show ?thesis
  proof (cases rule: tool_resolve_cases)
    case (denied reason r)
    then show ?thesis using fit(2) [OF denied(3)] invariant_append [OF inv serde _ denied(4)] by simp
  next
    case (unprepared expires_at r)
    then show ?thesis using invariant_append [OF inv serde fit(1) [OF unprepared(2)] unprepared(4)] by simp
  next
    case (unrecorded expires_at receipt)
    then show ?thesis using invariant_append [OF inv serde fit(1) [OF unrecorded(2)] unrecorded(3)] by simp
  next
    case (executed expires_at now receipt d1 r1 a ro)
    have "au_record a = r1" by (simp add: executed(7))
    note prepared = executed_prepared [OF inv serde sha p executed(1,5,6) this]
    have "tool_invariant sd d1 (xs @ calls)"
      using tool_invariantI prepared(1,2) by (simp add: executed(8))
    then show ?thesis
      using invariant_append [OF _ serde _ executed(9)] outcome_event_fits [OF sha fit(2) [OF executed(1)]] by simp
  qed (use inv in simp)
qed

lemma replay_empty: "replay_state sd [] = Ok tool_state_default"
  by (simp add: replay_state_def)

lemma tool_open_in_step:
  assumes "tools.on_disk sd l s" and "tool_open sd (Regular (fl_file l)) False = Ok d"
  shows "runtime_in_step sd d" "dtr_state d = s"
  using assms tools.reopened_in_step [OF assms(1)]
  by (auto simp: tool_open_def tool_from_opened_def result_ok runtime_in_step_def tools.in_step_def)

lemma tool_created: "tool_open sd Missing False = Ok \<lparr>dtr_ledger = fresh_ledger, dtr_state = tool_state_default, dtr_tail = 0\<rparr>"
  using create_ok by (simp add: tool_open_def tool_from_opened_def fresh_ledger_def replay_empty)

lemma history_invariant:
  assumes "tool_history sha256 sd d xs" and "serde_faithful sd" and "digests sha256"
  shows "tool_invariant sd d xs"
  using assms(1)
proof (induction rule: tool_history.induct)
  case (created d)
  then have "d = \<lparr>dtr_ledger = fresh_ledger, dtr_state = tool_state_default, dtr_tail = 0\<rparr>" by (simp add: tool_created)
  then show ?case
    using tools.fresh_in_step [OF replay_empty] by (intro tool_invariantI) (simp_all add: runtime_in_step_def consumed_def)
next
  case (requested d xs p outcome intent r d')
  then show ?case using invariant_requested assms(2,3) by blast
next
  case (resolved d xs p clock prepare_outcome outcome_outcome execute request decision res d' calls)
  then show ?case using invariant_resolved assms(2,3) by blast
next
  case (reconciled d xs reconciliation outcome p call rec d')
  then show ?case using invariant_reconciled assms(2) by blast
next
  case (reopened d xs d')
  from reopened.IH obtain s where "tools.on_disk sd (dtr_ledger d) s" "consumed s xs"
    by (auto simp: tool_invariant_def)
  then show ?case using tool_open_in_step [OF _ reopened.hyps(2)] tool_invariantI by metis
qed

text \<open>The file of a runtime with a history always opens, and to the runtime's own state unless a write failed.\<close>

lemma history_opens:
  assumes "tool_history sha256 sd d xs" and "serde_faithful sd" and "digests sha256"
  obtains d' where "tool_open sd (Regular (fl_file (dtr_ledger d))) False = Ok d'" "runtime_in_step sd d'"
    "consumed (dtr_state d') xs" "\<not> fl_poisoned (dtr_ledger d) \<longrightarrow> dtr_state d' = dtr_state d"
proof -
  from history_invariant [OF assms] obtain s where s: "tools.on_disk sd (dtr_ledger d) s" "consumed s xs"
    and same: "fl_poisoned (dtr_ledger d) \<or> s = dtr_state d" by (auto simp: tool_invariant_def)
  from s(1) obtain m report where "reopen (dtr_ledger d) = Ok (m, report)" "replay_state sd (rr_events report) = Ok s"
    by (auto simp: tools.on_disk_def tools.in_step_def)
  then have "tool_open sd (Regular (fl_file (dtr_ledger d))) False
      = Ok \<lparr>dtr_ledger = m, dtr_state = s, dtr_tail = rr_truncated report\<rparr>"
    by (simp add: tool_open_def tool_from_opened_def reopen_def)
  from that [OF this] tool_open_in_step [OF s(1) this] s(2) same show thesis by auto
qed

end
