(* ===== verification/Tool_Demo.thy ===== *)
theory Tool_Demo
  imports Tool_Life Ledger_Demo
begin

text \<open>
  A concrete instance of the parameters of the Tool Runtime, and a Tool call that is requested, granted and
  executed.  The stand-ins are small: an encoding with length bytes instead of JSON, and a digest that
  pads to 32 bytes.
\<close>

section \<open>Encodings\<close>

type_synonym 'a codec = "('a \<Rightarrow> u8 list option) \<times> (u8 list \<Rightarrow> ('a \<times> u8 list) option)"

definition codec_ok :: "'a codec \<Rightarrow> bool" where
  "codec_ok c \<longleftrightarrow> (\<forall>x w rest. fst c x = Some w \<longrightarrow> snd c (w @ rest) = Some (x, rest))"

definition u64_codec :: "u64 codec" where
  "u64_codec = (\<lambda>v. Some (u64_to_le v), \<lambda>w. if length w < 8 then None else Some (u64_from_le (take 8 w), drop 8 w))"

definition u16_codec :: "u16 codec" where
  "u16_codec = (\<lambda>v. Some (u16_to_le v), \<lambda>w. if length w < 2 then None else Some (u16_from_le (take 2 w), drop 2 w))"

definition bool_codec :: "bool codec" where
  "bool_codec = (\<lambda>v. Some [if v then 1 else 0], \<lambda>w. case w of [] \<Rightarrow> None | b # w \<Rightarrow> Some (b = 1, w))"

definition text_codec :: "string codec" where
  "text_codec =
     (\<lambda>v. if length v < 256 then Some (of_nat (length v) # map byte_of_char v) else None,
      \<lambda>w. case w of [] \<Rightarrow> None | n # w \<Rightarrow>
        if length w < unat n then None else Some (map char_of_byte (take (unat n) w), drop (unat n) w))"

definition pair_codec :: "'a codec \<Rightarrow> 'b codec \<Rightarrow> ('a \<times> 'b) codec" where
  "pair_codec c d =
     (\<lambda>(x, y). Option.bind (fst c x) (\<lambda>w. map_option ((@) w) (fst d y)),
      \<lambda>w. Option.bind (snd c w) (\<lambda>(x, w). map_option (\<lambda>(y, w). ((x, y), w)) (snd d w)))"

definition iso_codec :: "('a \<Rightarrow> 'b) \<Rightarrow> ('b \<Rightarrow> 'a) \<Rightarrow> 'b codec \<Rightarrow> 'a codec" where
  "iso_codec f g c = (\<lambda>x. fst c (f x), \<lambda>w. map_option (map_prod g id) (snd c w))"

definition whole :: "'a codec \<Rightarrow> ('a \<Rightarrow> u8 list option) \<times> (u8 list \<Rightarrow> 'a option)" where
  "whole c = (fst c, \<lambda>w. case snd c w of Some (x, []) \<Rightarrow> Some x | _ \<Rightarrow> None)"

named_theorems codec

lemma base_codecs [codec]: "codec_ok u64_codec" "codec_ok u16_codec" "codec_ok bool_codec"
  by (auto simp: codec_ok_def u64_codec_def u16_codec_def bool_codec_def)

lemma text_codec [codec]: "codec_ok text_codec"
  by (auto simp: codec_ok_def text_codec_def unat_of_nat split: if_splits)

lemma pair_codec [codec]: "codec_ok c \<Longrightarrow> codec_ok d \<Longrightarrow> codec_ok (pair_codec c d)"
  by (auto simp: codec_ok_def pair_codec_def bind_eq_Some_conv)

lemma iso_codec [codec]: "codec_ok c \<Longrightarrow> (\<And>x. g (f x) = x) \<Longrightarrow> codec_ok (iso_codec f g c)"
  by (auto simp: codec_ok_def iso_codec_def)

lemma whole_reads_back: "codec_ok c \<Longrightarrow> reads_back (whole c)"
  unfolding codec_ok_def reads_back_def whole_def by (metis append_Nil2 case_prod_conv fst_conv list.simps(4) option.simps(5) snd_conv)

definition binding_codec :: "binding_payload codec" where
  "binding_codec =
     iso_codec (\<lambda>b. (bp_fingerprint b, bp_reads b, bp_writes b, bp_process b, bp_network b))
       (\<lambda>(f, r, w, p, n). \<lparr>bp_fingerprint = f, bp_reads = r, bp_writes = w, bp_process = p, bp_network = n\<rparr>)
       (pair_codec text_codec (pair_codec u16_codec (pair_codec u16_codec (pair_codec bool_codec u16_codec))))"

definition demo_serde :: tool_serde where
  "demo_serde = \<lparr>
     sd_requested = whole (iso_codec
       (\<lambda>p. (qp_call p, qp_identity p, qp_agent p, qp_tool p, qp_arguments_hash p, qp_binding p))
       (\<lambda>(c, i, a, t, h, b). \<lparr>qp_call = c, qp_identity = i, qp_agent = a, qp_tool = t, qp_arguments_hash = h, qp_binding = b\<rparr>)
       (pair_codec u64_codec (pair_codec text_codec (pair_codec u64_codec (pair_codec text_codec
         (pair_codec text_codec binding_codec)))))),
     sd_grant = whole (iso_codec
       (\<lambda>p. (gp_call p, gp_agent p, gp_arguments_hash p, gp_binding p, gp_expires_at p))
       (\<lambda>(c, a, h, b, e). \<lparr>gp_call = c, gp_agent = a, gp_arguments_hash = h, gp_binding = b, gp_expires_at = e\<rparr>)
       (pair_codec u64_codec (pair_codec u64_codec (pair_codec text_codec (pair_codec binding_codec u64_codec))))),
     sd_prepared = whole (iso_codec (\<lambda>p. (pp_call p, pp_arguments_hash p))
       (\<lambda>(c, h). \<lparr>pp_call = c, pp_arguments_hash = h\<rparr>) (pair_codec u64_codec text_codec)),
     sd_reason = whole (iso_codec (\<lambda>p. (np_call p, np_reason p))
       (\<lambda>(c, r). \<lparr>np_call = c, np_reason = r\<rparr>) (pair_codec u64_codec text_codec)),
     sd_digest = whole (iso_codec (\<lambda>p. (dp_call p, dp_result_digest p))
       (\<lambda>(c, r). \<lparr>dp_call = c, dp_result_digest = r\<rparr>) (pair_codec u64_codec text_codec))\<rparr>"

lemma binding_codec [codec]: "codec_ok binding_codec"
  unfolding binding_codec_def by (intro codec) simp

lemma demo_serde_faithful: "serde_faithful demo_serde"
  unfolding serde_faithful_def demo_serde_def tool_serde.simps
  by (intro conjI whole_reads_back iso_codec pair_codec base_codecs text_codec binding_codec) simp_all

definition demo_sha256 :: hasher where
  "demo_sha256 bytes = take 32 (bytes @ replicate 32 0)"

lemma demo_digests: "digests demo_sha256"
  by (auto simp: digests_def demo_sha256_def)

lemma demo_sha256_length [simp]: "length (demo_sha256 bytes) = 32"
  using demo_digests by (simp add: digests_def)

section \<open>A Tool call\<close>

definition demo_principal :: tool_principal where
  "demo_principal = \<lparr>pr_session = \<lparr>as_agent = Ident 1, as_authority = 7\<rparr>, pr_agent = Ident 1,
     pr_capabilities = {|WorkspaceRead, Tool ''read''|}\<rparr>"

definition demo_intent :: tool_intent where
  "demo_intent = \<lparr>ti_identity = ''turn-1'', ti_tool = ''read'', ti_arguments = \<lparr>ta_canonical_json = ''{}''\<rparr>,
     ti_resources = with_filesystem_read ''src'' tool_resources_default\<rparr>"

definition demo_approval :: tool_approval_request where
  "demo_approval = \<lparr>rq_call = Ident 1, rq_session = pr_session demo_principal, rq_intent = demo_intent,
     rq_arguments_hash = arguments_hash demo_sha256 (ti_arguments demo_intent)\<rparr>"

definition demo_execute :: tool_executor where
  "demo_execute call = ExecutionSucceeded [1, 2]"

definition demo_tools :: durable_tool_runtime where
  "demo_tools = \<lparr>dtr_ledger = fresh_ledger, dtr_state = tool_state_default, dtr_tail = 0\<rparr>"

definition demo_requested :: "tool_event list" where
  "demo_requested = [CallRequested (Ident 1) ''turn-1'' (Ident 1) ''read'' (rq_arguments_hash demo_approval)
     (resources_binding demo_sha256 (ti_resources demo_intent))]"

definition demo_granted :: "tool_event list" where
  "demo_granted = grant_events demo_sha256 demo_principal demo_approval 200"

definition demo_settled :: "tool_event list" where
  "demo_settled = [outcome_event demo_sha256 (Ident 1) (ExecutionSucceeded [1, 2])]"

lemma principal_demo: "principal_fits demo_principal"
  by (simp add: principal_fits_def demo_principal_def id_valid_def u64_max_def)

lemma intent_demo: "intent_validate demo_intent = Ok ()" "validate_authority (pr_capabilities demo_principal) demo_intent = Ok ()"
  by code_simp+

definition encodes_small :: "tool_event list \<Rightarrow> bool" where
  "encodes_small events = (case try_map (tool_encode_event demo_serde) events of Ok encoded \<Rightarrow> small_events encoded | _ \<Rightarrow> False)"

lemmas demo_codecs = demo_serde_def whole_def iso_codec_def pair_codec_def binding_codec_def text_codec_def u64_codec_def
  u16_codec_def bool_codec_def

lemma demo_small: "encodes_small demo_requested" "encodes_small demo_granted" "encodes_small demo_settled"
  by (simp_all add: encodes_small_def demo_requested_def demo_granted_def grant_events_def demo_settled_def outcome_event_def
      MAX_OUTPUT_BYTES_def tool_encode_event_def serialize_payload_def demo_codecs binding_to_payload_def
      resources_binding_def demo_approval_def arguments_hash_def small_events_def small_event_def
      TOOL_EVENT_SCHEMA_def)

section \<open>The states it goes through\<close>

definition demo_record :: tool_call_record where
  "demo_record = \<lparr>tc_call = Ident 1, tc_identity = ''turn-1'', tc_agent = Ident 1, tc_tool = ''read'',
     tc_arguments_hash = rq_arguments_hash demo_approval,
     tc_binding = resources_binding demo_sha256 (ti_resources demo_intent), tc_status = AwaitingApproval,
     tc_expires_at = None, tc_result_digest = None, tc_reason = None\<rparr>"

definition demo_prepared_record :: tool_call_record where
  "demo_prepared_record = demo_record\<lparr>tc_expires_at := Some 200, tc_status := ReconciliationRequired,
     tc_reason := Some ''prepared Tool effect has no durable outcome''\<rparr>"

definition demo_settled_record :: tool_call_record where
  "demo_settled_record = demo_prepared_record\<lparr>tc_status := CallSucceeded,
     tc_result_digest := Some (demo_sha256 [1, 2]), tc_reason := None\<rparr>"

definition demo_state :: "tool_call_record \<Rightarrow> tool_state" where
  "demo_state r = \<lparr>tl_calls = [(Ident 1, r)], tl_identities = [(''turn-1'', Ident 1)], tl_next_call = 2\<rparr>"

lemma demo_texts:
  "validate_bounded_text ''turn-1'' MAX_CALL_IDENTITY_BYTES ''Tool call identity'' = Ok ()"
  "validate_bounded_text ''read'' MAX_TOOL_NAME_BYTES ''Tool name'' = Ok ()"
  by code_simp+

lemma demo_binding: "binding_validate (resources_binding demo_sha256 (ti_resources demo_intent)) = Ok ()"
  using intent_demo(1) resources_binding_fits(1) [OF _ demo_digests] by (simp add: intent_validate_def result_ok)

lemma demo_state_get [simp]: "bt_get (tl_calls (demo_state r)) (Ident 1) = Some r"
  by (simp add: demo_state_def bt_get_def)

lemma demo_state_put [simp]: "put_call (demo_state r) (Ident 1) r' = demo_state r'"
  by (simp add: demo_state_def put_call_def)

lemma demo_applied:
  "apply_transaction tool_state_default demo_requested = Ok (demo_state demo_record)"
  "apply_transaction (demo_state demo_record) demo_granted = Ok (demo_state demo_prepared_record)"
  "apply_transaction (demo_state demo_prepared_record) demo_settled = Ok (demo_state demo_settled_record)"
proof -
  show "apply_transaction tool_state_default demo_requested = Ok (demo_state demo_record)"
    by (simp add: apply_transaction_def validate_transaction_def demo_requested_def apply_call_requested_def
        tool_state_default_def demo_texts demo_binding bt_contains_key_def checked_add_code put_call_def
        demo_state_def demo_record_def)
  show "apply_transaction (demo_state demo_record) demo_granted = Ok (demo_state demo_prepared_record)"
    by (simp add: apply_transaction_def validate_transaction_def demo_granted_def grant_events_def
        apply_approval_granted_def apply_effect_prepared_def awaiting_approval_def demo_approval_def demo_principal_def
        demo_prepared_record_def demo_record_def)
  show "apply_transaction (demo_state demo_prepared_record) demo_settled = Ok (demo_state demo_settled_record)"
    by (simp add: apply_transaction_def validate_transaction_def demo_settled_def outcome_event_def MAX_OUTPUT_BYTES_def
        apply_effect_succeeded_def reconciliation_required_def demo_settled_record_def demo_prepared_record_def)
qed

lemma demo_append:
  assumes "encodes_small events" and "apply_transaction (dtr_state d) events = Ok s" and "small_ledger k (dtr_ledger d)"
    and "k \<le> 5"
  shows "\<exists>receipt d'. append_tool_events demo_serde Synced d events = (Ok receipt, d') \<and> dtr_state d' = s
      \<and> small_ledger (Suc k) (dtr_ledger d')"
    and "\<exists>d'. append_tool_events demo_serde (FailedAfter n e) d events = (Err (ToolLedger (DurabilityAmbiguous e)), d')
      \<and> dtr_state d' = dtr_state d \<and> fl_poisoned (dtr_ledger d')"
proof -
  from assms(1) obtain encoded where encoded: "try_map (tool_encode_event demo_serde) events = Ok encoded" "small_events encoded"
    by (auto simp: encodes_small_def split: result.splits)
  have "validate_transaction events = Ok ()" using assms(2) by (auto simp: apply_transaction_def result_ok)
  then have app: "append_tool_events demo_serde outcome d events =
      (case ledger_append outcome (dtr_ledger d) (fl_head (dtr_ledger d)) encoded of (result, ledger) \<Rightarrow>
         andthen_with (map_err ToolLedger result, d\<lparr>dtr_ledger := ledger\<rparr>)
           (\<lambda>receipt d. (Ok receipt, d\<lparr>dtr_state := s\<rparr>)))" for outcome
    using assms(2) encoded(1) by (simp add: append_tool_events_def)
  note outcomes = small_outcomes [OF encoded(2) assms(3,4)]
  show "\<exists>receipt d'. append_tool_events demo_serde Synced d events = (Ok receipt, d') \<and> dtr_state d' = s
      \<and> small_ledger (Suc k) (dtr_ledger d')"
    using outcomes(1) by (auto simp: app)
  show "\<exists>d'. append_tool_events demo_serde (FailedAfter n e) d events = (Err (ToolLedger (DurabilityAmbiguous e)), d')
      \<and> dtr_state d' = dtr_state d \<and> fl_poisoned (dtr_ledger d')"
    using outcomes(2) [of n e] by (auto simp: app)
qed

section \<open>The call is requested, granted and executed\<close>

lemma demo_matches: "record_matches demo_sha256 demo_record (Ident 1) demo_intent (rq_arguments_hash demo_approval)"
  by (simp add: record_matches_def demo_record_def demo_intent_def)

lemma demo_request:
  "\<exists>d. tool_request demo_sha256 demo_serde Synced demo_tools demo_principal demo_intent = (Ok (ApprovalRequired demo_approval), d)
     \<and> dtr_state d = demo_state demo_record \<and> small_ledger 1 (dtr_ledger d)"
proof -
  have "small_ledger 0 (dtr_ledger demo_tools)" by (simp add: demo_tools_def small_fresh)
  from demo_append(1) [OF demo_small(1) _ this] demo_applied(1) obtain receipt d where
    "append_tool_events demo_serde Synced demo_tools demo_requested = (Ok receipt, d)"
    "dtr_state d = demo_state demo_record" "small_ledger 1 (dtr_ledger d)" by (auto simp: demo_tools_def)
  then show ?thesis
    using intent_demo
    by (auto simp: tool_request_def demo_tools_def tool_state_default_def pending_reconciliation_def bt_values_def
        call_id_new_def u64_max_def demo_requested_def demo_approval_def demo_principal_def demo_intent_def)
qed

lemma tool_demo_valid:
  "dtr_state d = demo_state demo_record \<Longrightarrow> validate_request demo_sha256 d demo_principal demo_approval = Ok ()"
  using intent_demo demo_matches
  by (simp add: validate_request_def demo_principal_def demo_approval_def tool_record_def demo_record_def)

definition demo_authorized :: authorized_tool_call where
  "demo_authorized = \<lparr>au_record = demo_prepared_record, au_arguments = ti_arguments demo_intent,
     au_resources = ti_resources demo_intent\<rparr>"

lemma demo_clock: "current_unix_ms (Some 100) = Ok 100"
  by (simp add: current_unix_ms_def u64_try_from_def)

lemma demo_resolve:
  assumes "dtr_state d = demo_state demo_record" and "small_ledger 1 (dtr_ledger d)"
  shows "\<exists>d'. tool_resolve demo_sha256 demo_serde (Some 100) Synced Synced demo_execute d demo_principal demo_approval (Grant 200)
      = (Ok (OutcomeSucceeded demo_settled_record [1, 2]), d', [demo_authorized])
      \<and> dtr_state d' = demo_state demo_settled_record"
    and "\<exists>d'. tool_resolve demo_sha256 demo_serde (Some 100) Synced (FailedAfter 9 NotFound) demo_execute d demo_principal
        demo_approval (Grant 200)
      = (Err (ToolLedger (DurabilityAmbiguous NotFound)), d', [demo_authorized]) \<and> fl_poisoned (dtr_ledger d')"
proof -
  from demo_append(1) [OF demo_small(2) _ assms(2)] demo_applied(2) assms(1) obtain receipt d1 where
    prepare: "append_tool_events demo_serde Synced d demo_granted = (Ok receipt, d1)"
    and d1: "dtr_state d1 = demo_state demo_prepared_record" "small_ledger 2 (dtr_ledger d1)"
    by (auto simp: numeral_2_eq_2)
  have call: "rq_call demo_approval = Ident 1" "ti_arguments (rq_intent demo_approval) = ti_arguments demo_intent"
    "ti_resources (rq_intent demo_approval) = ti_resources demo_intent" by (simp_all add: demo_approval_def)
  have settle: "append_tool_events demo_serde outcome d1 [outcome_event demo_sha256 (Ident 1) (demo_execute demo_authorized)]
      = append_tool_events demo_serde outcome d1 demo_settled" for outcome
    by (simp add: demo_settled_def demo_execute_def)
  note valid = tool_demo_valid [OF assms(1)]
  have expired: "\<not> (200 :: u64) \<le> 100" by simp
  have run: "tool_resolve demo_sha256 demo_serde (Some 100) Synced outcome demo_execute d demo_principal demo_approval (Grant 200)
      = (case append_tool_events demo_serde outcome d1 demo_settled of (appended, d) \<Rightarrow>
           andthen_with (appended, d, [demo_authorized]) (\<lambda>_ (d, executed).
             (map_ok (outcome_result (demo_execute demo_authorized)) (tool_record d (Ident 1)), d, executed)))" for outcome
    using prepare d1(1) settle [of outcome]
    by (simp add: tool_resolve_def valid demo_clock demo_granted_def grant_events_def call Let_def tool_record_def
        flip: demo_authorized_def)
  from demo_append(1) [OF demo_small(3) _ d1(2)] demo_applied(3) d1(1) obtain receipt' d2 where
    "append_tool_events demo_serde Synced d1 demo_settled = (Ok receipt', d2)" "dtr_state d2 = demo_state demo_settled_record"
    by auto
  then show "\<exists>d'. tool_resolve demo_sha256 demo_serde (Some 100) Synced Synced demo_execute d demo_principal demo_approval (Grant 200)
      = (Ok (OutcomeSucceeded demo_settled_record [1, 2]), d', [demo_authorized])
      \<and> dtr_state d' = demo_state demo_settled_record"
    by (simp add: run tool_record_def outcome_result_def demo_execute_def MAX_OUTPUT_BYTES_def)
  from demo_append(2) [OF demo_small(3) _ d1(2), of _ 9 NotFound] demo_applied(3) d1(1) obtain d2 where
    "append_tool_events demo_serde (FailedAfter 9 NotFound) d1 demo_settled = (Err (ToolLedger (DurabilityAmbiguous NotFound)), d2)"
    "fl_poisoned (dtr_ledger d2)" by auto
  then show "\<exists>d'. tool_resolve demo_sha256 demo_serde (Some 100) Synced (FailedAfter 9 NotFound) demo_execute d demo_principal
        demo_approval (Grant 200)
      = (Err (ToolLedger (DurabilityAmbiguous NotFound)), d', [demo_authorized]) \<and> fl_poisoned (dtr_ledger d')"
    by (simp add: run)
qed

lemma tool_demo_history:
  "\<exists>d. tool_history demo_sha256 demo_serde d [] \<and> dtr_state d = demo_state demo_record \<and> small_ledger 1 (dtr_ledger d)"
  using demo_request tool_history.requested [OF tool_history.created principal_demo] tool_created [folded demo_tools_def]
  by metis

lemma demo_executed:
  "\<exists>d. tool_history demo_sha256 demo_serde d [demo_authorized] \<and> dtr_state d = demo_state demo_settled_record"
  "\<exists>d. tool_history demo_sha256 demo_serde d [demo_authorized] \<and> fl_poisoned (dtr_ledger d)"
proof -
  from tool_demo_history obtain d where d: "tool_history demo_sha256 demo_serde d []" "dtr_state d = demo_state demo_record"
    "small_ledger 1 (dtr_ledger d)" by blast
  note resolved = tool_history.resolved [OF d(1) principal_demo]
  show "\<exists>d. tool_history demo_sha256 demo_serde d [demo_authorized] \<and> dtr_state d = demo_state demo_settled_record"
    using demo_resolve(1) [OF d(2,3)] resolved by fastforce
  show "\<exists>d. tool_history demo_sha256 demo_serde d [demo_authorized] \<and> fl_poisoned (dtr_ledger d)"
    using demo_resolve(2) [OF d(2,3)] resolved by fastforce
qed

end
