(* ===== verification/Tool_Canonical.thy ===== *)
theory Tool_Canonical
  imports Tool_Types Team_Codec_Laws
begin

text \<open>
  Two encodings of the Tool Runtime as functions of what they encode: the canonical text of arguments does
  not depend on the order of keys, and the bytes a binding is computed from determine the resources.
\<close>

section \<open>Arguments\<close>

text \<open>The same JSON value, up to the order in which the entries of objects come.\<close>

inductive same_json :: "json \<Rightarrow> json \<Rightarrow> bool" where
  same: "same_json v v"
| array: "list_all2 same_json vs ws \<Longrightarrow> same_json (JArray vs) (JArray ws)"
| object: "list_all2 (\<lambda>e f. fst e = fst f \<and> same_json (snd e) (snd f)) es fs \<Longrightarrow> distinct (map fst es) \<Longrightarrow>
    mset fs = mset gs \<Longrightarrow> same_json (JObject es) (JObject gs)"

lemma sort_key_parallel:
  assumes "list_all2 (\<lambda>e f. fst e = fst f \<and> P (snd e) (snd f)) es fs"
  shows "list_all2 (\<lambda>e f. fst e = fst f \<and> P (snd e) (snd f)) (sort_key fst es) (sort_key fst fs)"
proof -
  have insort: "list_all2 (\<lambda>e f. fst e = fst f \<and> P (snd e) (snd f)) (insort_key fst e xs) (insort_key fst f ys)"
    if "list_all2 (\<lambda>e f. fst e = fst f \<and> P (snd e) (snd f)) xs ys" "fst e = fst f \<and> P (snd e) (snd f)"
    for e f and xs ys :: "(_ \<times> _) list"
    using that by (induction rule: list_all2_induct) auto
  from assms show ?thesis by (induction rule: list_all2_induct) (simp_all add: insort)
qed

lemma sort_key_mset:
  assumes "mset fs = mset gs" and "distinct (map fst fs)"
  shows "sort_key fst fs = sort_key fst gs"
proof -
  have "distinct (map fst (sort_key fst fs))" "distinct (map fst (sort_key fst gs))"
    using assms by (metis mset_map mset_sort mset_eq_imp_distinct_iff)+
  moreover have "set fs = set gs" using assms(1) by (metis set_mset_mset)
  ultimately show ?thesis
    using assms(2) by (intro map_sorted_distinct_set_unique [of fst]) (simp_all add: distinct_map)
qed

lemma write_values_cong:
  "list_all2 (\<lambda>v w. \<forall>out. write_canonical_json js v out = write_canonical_json js w out) vs ws \<Longrightarrow>
     write_values js index vs out = write_values js index ws out"
  by (induction arbitrary: index out rule: list_all2_induct) (auto intro!: andthen_fundef_cong)

lemma write_entries_cong:
  "list_all2 (\<lambda>e f. fst e = fst f \<and> (\<forall>out. write_canonical_json js (snd e) out = write_canonical_json js (snd f) out)) es fs
     \<Longrightarrow> write_entries js index es out = write_entries js index fs out"
proof (induction arbitrary: index out rule: list_all2_induct)
  case (Cons e es f fs)
  then show ?case by (cases e; cases f) (auto intro!: andthen_fundef_cong)
qed simp

lemma same_json_writes: "same_json v w \<Longrightarrow> write_canonical_json js v out = write_canonical_json js w out"
proof (induction arbitrary: out rule: same_json.induct)
  case (array vs ws)
  then have "list_all2 (\<lambda>v w. \<forall>out. write_canonical_json js v out = write_canonical_json js w out) vs ws"
    by (auto elim: list_all2_mono)
  then show ?case by (simp add: write_values_cong)
next
  case (object es fs gs)
  let ?R = "\<lambda>e f. fst e = fst f \<and> (\<forall>out. write_canonical_json js (snd e) out = write_canonical_json js (snd f) out)"
  have pairs: "list_all2 ?R es fs" using object.IH by (auto elim: list_all2_mono)
  have "map fst es = map fst fs" using pairs by (induction rule: list_all2_induct) auto
  with object have "sort_key fst fs = sort_key fst gs" by (intro sort_key_mset) simp_all
  with sort_key_parallel [OF pairs] show ?case by (simp add: write_entries_cong)
qed simp

lemma same_json_object: "same_json v w \<Longrightarrow> is_object v = is_object w"
  by (auto simp: is_object_def elim: same_json.cases)

section \<open>Resources\<close>

text \<open>Every part of the hashed bytes says how long it is.\<close>

lemma str_bytes_inj: "str_bytes v = str_bytes w \<longleftrightarrow> v = w"
proof -
  have "inj (of_char :: char \<Rightarrow> u8)"
    by (rule inj_on_inverseI [of _ char_of_byte]) (metis byte_char byte_of_char_def)
  then show ?thesis by (simp add: str_bytes_def)
qed

lemma u32_to_le_split: "u32_to_le m @ x = u32_to_le n @ y \<longleftrightarrow> m = n \<and> x = y"
  by (metis append_eq_append_conv le_length(2) le_roundtrip(2))

lemma of_nat_u32: "a < 2 ^ 32 \<Longrightarrow> b < 2 ^ 32 \<Longrightarrow> (of_nat a :: u32) = of_nat b \<longleftrightarrow> a = b"
  by (simp add: word_unat_eq_iff unat_of_nat)

definition short :: "string \<Rightarrow> bool" where
  "short v \<longleftrightarrow> length v < 2 ^ 32"

lemma value_bytes_split:
  assumes "short v" and "short w" and "resource_value_bytes v @ x = resource_value_bytes w @ y"
  shows "v = w" "x = y"
proof -
  from assms(3) have eq: "u32_to_le (of_nat (length v)) @ (str_bytes v @ x) = u32_to_le (of_nat (length w)) @ (str_bytes w @ y)"
    by (simp add: resource_value_bytes_def)
  then have "length v = length w" using assms(1,2) by (simp add: u32_to_le_split of_nat_u32 short_def)
  moreover have "str_bytes v @ x = str_bytes w @ y" using eq by (simp add: u32_to_le_split)
  ultimately show "v = w" "x = y" using str_bytes_inj [of v w] by (simp_all add: str_bytes_def)
qed

lemma values_bytes_split:
  assumes "length vs = length ws" and "\<forall>v \<in> set vs \<union> set ws. short v"
    and "concat (map resource_value_bytes vs) @ x = concat (map resource_value_bytes ws) @ y"
  shows "vs = ws \<and> x = y"
  using assms
proof (induction vs ws rule: list_induct2)
  case (Cons v vs w ws)
  then show ?case
    using value_bytes_split [of v w "concat (map resource_value_bytes vs) @ x" "concat (map resource_value_bytes ws) @ y"]
    by auto
qed simp

definition axis_ok :: "string fset \<Rightarrow> bool" where
  "axis_ok rs \<longleftrightarrow> fcard rs < 2 ^ 32 \<and> (\<forall>v. v |\<in>| rs \<longrightarrow> short v)"

lemma axis_bytes_split:
  assumes "axis_ok rs" and "axis_ok qs" and "resource_axis_bytes tag rs @ x = resource_axis_bytes tag qs @ y"
  shows "rs = qs" "x = y"
proof -
  from assms(3) have eq: "u32_to_le (of_nat (fcard rs)) @ (concat (map resource_value_bytes (sorted_list_of_fset rs)) @ x)
      = u32_to_le (of_nat (fcard qs)) @ (concat (map resource_value_bytes (sorted_list_of_fset qs)) @ y)"
    by (simp add: resource_axis_bytes_def)
  have len: "length (sorted_list_of_fset rs) = fcard rs" for rs :: "string fset"
    by (simp add: sorted_list_of_fset.rep_eq fcard.rep_eq)
  from eq have "fcard rs = fcard qs" using assms(1,2) by (simp add: u32_to_le_split of_nat_u32 axis_ok_def)
  then have same: "sorted_list_of_fset rs = sorted_list_of_fset qs \<and> x = y"
    using eq assms(1,2) by (intro values_bytes_split) (auto simp: u32_to_le_split axis_ok_def len)
  then show "x = y" ..
  from arg_cong [OF conjunct1 [OF same], of fset_of_list] show "rs = qs" by simp
qed

definition process_bytes :: "string option \<Rightarrow> u8 list" where
  "process_bytes p = (case p of Some executable \<Rightarrow> 1 # resource_value_bytes executable | None \<Rightarrow> [0])"

lemma process_bytes_split:
  assumes "\<forall>v. p = Some v \<longrightarrow> short v" and "\<forall>v. q = Some v \<longrightarrow> short v" and "process_bytes p @ x = process_bytes q @ y"
  shows "p = q" "x = y"
proof -
  have "p = q \<and> x = y"
  proof (cases p)
    case None
    then show ?thesis using assms(3) by (cases q) (simp_all add: process_bytes_def)
  next
    case p: (Some v)
    show ?thesis
    proof (cases q)
      case None
      then show ?thesis using assms(3) p by (simp add: process_bytes_def)
    next
      case (Some w)
      then have "resource_value_bytes v @ x = resource_value_bytes w @ y" "short v" "short w"
        using assms p by (simp_all add: process_bytes_def)
      then show ?thesis using value_bytes_split p Some by blast
    qed
  qed
  then show "p = q" "x = y" by simp_all
qed

lemma validated_short: "validate_bounded_text v MAX_RESOURCE_BYTES field = Ok () \<Longrightarrow> short v"
  by (auto simp: validate_bounded_text_def MAX_RESOURCE_BYTES_def short_def split: if_splits)

lemma resources_validate_axes:
  assumes "resources_validate r = Ok ()"
  shows "axis_ok (rs_reads r)" "axis_ok (rs_writes r)" "axis_ok (rs_network r)" "\<forall>v. rs_process r = Some v \<longrightarrow> short v"
  using assms
  by (auto simp: resources_validate_def validate_resource_axis_def result_ok axis_ok_def MAX_RESOURCES_PER_AXIS_def
      dest: validated_short split: if_splits option.splits)

lemma binding_bytes_inj:
  assumes "resources_validate r = Ok ()" and "resources_validate q = Ok ()" and "binding_bytes r = binding_bytes q"
  shows "r = q"
proof -
  note ok = resources_validate_axes [OF assms(1)] resources_validate_axes [OF assms(2)]
  from assms(3) have 1: "resource_axis_bytes 1 (rs_reads r) @ (resource_axis_bytes 2 (rs_writes r) @ 3 # process_bytes (rs_process r)
        @ resource_axis_bytes 4 (rs_network r))
      = resource_axis_bytes 1 (rs_reads q) @ (resource_axis_bytes 2 (rs_writes q) @ 3 # process_bytes (rs_process q)
        @ resource_axis_bytes 4 (rs_network q))"
    by (simp add: binding_bytes_def process_bytes_def)
  note 2 = axis_bytes_split(2) [OF ok(1,5) 1]
  from axis_bytes_split(2) [OF ok(2,6) 2] have 3: "process_bytes (rs_process r) @ resource_axis_bytes 4 (rs_network r)
      = process_bytes (rs_process q) @ resource_axis_bytes 4 (rs_network q)" by simp
  from process_bytes_split(2) [OF ok(4,8) 3] have 4: "resource_axis_bytes 4 (rs_network r) @ [] = resource_axis_bytes 4 (rs_network q) @ []"
    by simp
  show ?thesis
    using axis_bytes_split(1) [OF ok(1,5) 1] axis_bytes_split(1) [OF ok(2,6) 2] process_bytes_split(1) [OF ok(4,8) 3]
      axis_bytes_split(1) [OF ok(3,7) 4] by simp
qed

end
