(* ===== verification/Tool_Claims.thy ===== *)
theory Tool_Claims
  imports Tool_Demo Tool_Canonical
begin

text \<open>
  The properties of the Tool Runtime: an effect runs at most once, only under a durable and unexpired
  grant, and is accounted for after every crash.
\<close>

section \<open>Helpers\<close>

lemma record_matches_terms:
  "record_matches sha256 r agent intent hash \<Longrightarrow> tc_agent r = agent \<and> tc_tool r = ti_tool intent
     \<and> tc_arguments_hash r = hash \<and> tc_binding r = resources_binding sha256 (ti_resources intent)"
  by (simp add: record_matches_def)

lemma granted_terms:
  assumes "append_tool_events sd outcome d (grant_events sha256 p request expires_at) = (Ok receipt, d1)"
    and "bt_get (tl_calls (dtr_state d)) (rq_call request) = Some r"
    and "bt_get (tl_calls (dtr_state d1)) (rq_call request) = Some r1"
  shows "call_terms r1 = call_terms r \<and> tc_expires_at r1 = Some expires_at"
proof -
  from assms(1) have "apply_transaction (dtr_state d) (grant_events sha256 p request expires_at) = Ok (dtr_state d1)"
    by (auto simp: append_tool_events_def andthen_with_def result_ok split: result.splits prod.splits)
  then show ?thesis by (rule granted_state) (use assms(2,3) in \<open>auto simp: call_terms_def\<close>)
qed

text \<open>The checks before a request is stored end.\<close>

lemma bounded_text_returns: "validate_bounded_text v n field \<noteq> Diverges"
  by (simp add: validate_bounded_text_def)

lemma resources_validate_returns: "resources_validate r \<noteq> Diverges"
proof -
  have "validate_resource_axis rs \<noteq> Diverges" for rs
    by (simp add: validate_resource_axis_def try_each_not_Diverges bounded_text_returns)
  then show ?thesis
    by (auto simp: resources_validate_def andthen_eq_Diverges bounded_text_returns split: option.splits)
qed

lemma authority_returns: "validate_authority caps intent \<noteq> Diverges"
  by (auto simp: validate_authority_def resources_require_capabilities_def require_capability_def andthen_eq_Diverges)

lemma request_checks_return:
  "andthen (intent_validate intent) (\<lambda>_. validate_authority (pr_capabilities p) intent) \<noteq> Diverges"
  by (auto simp: intent_validate_def andthen_eq_Diverges bounded_text_returns resources_validate_returns authority_returns)

section \<open>Claims\<close>

text \<open>C5 (safety).  In any history of a Tool Ledger, with writes that fail at any byte, crashes and
  reopening, no call is handed to the executor twice, and a call that was executed is never again awaiting approval in the
  state the next process reads from the file.\<close>

theorem effects_run_at_most_once:
  assumes "tool_history sha256 sd d xs" and "serde_faithful sd" and "digests sha256"
  shows "distinct (map executed_call xs)
    \<and> (\<exists>d'. tool_open sd (Regular (fl_file (dtr_ledger d))) False = Ok d'
         \<and> (\<forall>a \<in> set xs. \<exists>r. tool_record d' (executed_call a) = Ok r
              \<and> tc_status r \<in> {ReconciliationRequired, CallSucceeded, CallFailed}))"
proof (rule history_opens [OF assms])
  fix d' assume "tool_open sd (Regular (fl_file (dtr_ledger d))) False = Ok d'" "consumed (dtr_state d') xs"
  then show ?thesis by (auto simp: consumed_def tool_record_def)
qed

theorem effects_run_at_most_once_witness:
  "\<exists>d d' r. tool_history demo_sha256 demo_serde d [demo_authorized] \<and> fl_poisoned (dtr_ledger d)
     \<and> tool_open demo_serde (Regular (fl_file (dtr_ledger d))) False = Ok d'
     \<and> tool_record d' (executed_call demo_authorized) = Ok r \<and> tc_status r \<noteq> AwaitingApproval"
proof -
  from demo_executed(2) obtain d where d: "tool_history demo_sha256 demo_serde d [demo_authorized]" "fl_poisoned (dtr_ledger d)"
    by blast
  with effects_run_at_most_once [OF d(1) demo_serde_faithful demo_digests] show ?thesis by fastforce
qed

text \<open>C6 (safety).  When resolving a request hands a call to the executor, the decision was a grant
  whose expiry is after the clock, the principal is the one the request was made for and holds every capability
  the Tool and its resources need, the arguments and resources handed over are those whose hash and binding
  the stored call has, and the grant was already durable: a process that opens the file before the outcome is
  stored finds the call awaiting reconciliation.\<close>

theorem effects_are_durably_granted:
  assumes "tool_history sha256 sd d xs" and "serde_faithful sd" and "digests sha256" and "principal_fits p"
    and "tool_resolve sha256 sd clock prepare_outcome outcome_outcome execute d p request decision = (res, d', calls)"
    and "a \<in> set calls"
  shows "calls = [a] \<and> executed_call a = rq_call request \<and> executed_call a \<notin> executed_call ` set xs
    \<and> pr_session p = rq_session request \<and> validate_authority (pr_capabilities p) (rq_intent request) = Ok ()
    \<and> tc_agent (au_record a) = pr_agent p \<and> tc_tool (au_record a) = ti_tool (rq_intent request)
    \<and> tc_arguments_hash (au_record a) = arguments_hash sha256 (au_arguments a)
    \<and> tc_binding (au_record a) = resources_binding sha256 (au_resources a)
    \<and> au_arguments a = ti_arguments (rq_intent request) \<and> au_resources a = ti_resources (rq_intent request)
    \<and> (\<exists>expires_at now d1 d2. decision = Grant expires_at \<and> current_unix_ms clock = Ok now \<and> now < expires_at
         \<and> append_tool_events sd prepare_outcome d (grant_events sha256 p request expires_at) = (Ok d1, d2)
         \<and> tc_expires_at (au_record a) = Some expires_at
         \<and> (\<exists>d3. tool_open sd (Regular (fl_file (dtr_ledger d2))) False = Ok d3
              \<and> tool_record d3 (executed_call a) = Ok (au_record a) \<and> tc_status (au_record a) = ReconciliationRequired))"
  using assms(5)
proof (cases rule: tool_resolve_cases)
  case (executed expires_at now receipt d1 r1 b ro)
  have b: "b = a" using assms(6) executed(8) by simp
  have rec: "au_record a = r1" using executed(7) by (simp flip: b)
  note inv = history_invariant [OF assms(1-3)]
  note prepared = executed_prepared [OF inv assms(2-4) executed(1,5,6) rec]
  from validate_request_Ok [OF executed(1)] obtain r where
    req: "pr_session p = rq_session request" "validate_authority (pr_capabilities p) (rq_intent request) = Ok ()"
      "rq_arguments_hash request = arguments_hash sha256 (ti_arguments (rq_intent request))"
    and r: "bt_get (tl_calls (dtr_state d)) (rq_call request) = Some r"
    and match: "record_matches sha256 r (pr_agent p) (rq_intent request) (rq_arguments_hash request)" by blast
  note terms = granted_terms [OF executed(5) r executed(6)] record_matches_terms [OF match]
  have "tool_invariant sd d1 (xs @ [a])" by (rule tool_invariantI [OF prepared(1,2)])
  from prepared(1) obtain m report where "reopen (dtr_ledger d1) = Ok (m, report)" "replay_state sd (rr_events report) = Ok (dtr_state d1)"
    by (auto simp: runtime_in_step_def tools.in_step_def reopen_ok)
  then have "\<exists>d3. tool_open sd (Regular (fl_file (dtr_ledger d1))) False = Ok d3 \<and> dtr_state d3 = dtr_state d1"
    by (simp add: tool_open_def tool_from_opened_def reopen_def)
  then obtain d3 where d3: "tool_open sd (Regular (fl_file (dtr_ledger d1))) False = Ok d3" "dtr_state d3 = dtr_state d1" by blast
  then have "tool_record d3 (executed_call a) = Ok (au_record a)"
    using executed(6) prepared(3) rec by (simp add: tool_record_def)
  moreover have "executed_call a \<notin> executed_call ` set xs" using prepared(2) by (simp add: consumed_def)
  ultimately show ?thesis
    using executed b rec prepared req terms d3(1) by (auto simp: call_terms_def)
qed (use assms(6) in simp_all)

theorem effects_are_durably_granted_witness:
  "\<exists>d d' res. tool_history demo_sha256 demo_serde d []
     \<and> tool_resolve demo_sha256 demo_serde (Some 100) Synced Synced demo_execute d demo_principal demo_approval (Grant 200)
         = (res, d', [demo_authorized])
     \<and> executed_call demo_authorized = rq_call demo_approval"
proof -
  from tool_demo_history obtain d where d: "tool_history demo_sha256 demo_serde d []" "dtr_state d = demo_state demo_record"
    "small_ledger 1 (dtr_ledger d)" by blast
  from demo_resolve(1) [OF d(2,3)] obtain res d' where
    run: "tool_resolve demo_sha256 demo_serde (Some 100) Synced Synced demo_execute d demo_principal demo_approval (Grant 200)
         = (res, d', [demo_authorized])" by blast
  have "demo_authorized \<in> set [demo_authorized]" by simp
  from effects_are_durably_granted [OF d(1) demo_serde_faithful demo_digests principal_demo run this] d(1) run
  show ?thesis by blast
qed

text \<open>C7 (refinement).  After any history the Tool Ledger opens again.  Unless a write had
  failed, the process reads exactly the state the last one had.  As long as one executed call has no settled
  outcome, a call is reported as pending reconciliation and every request of a new call is refused,
  whatever the principal and the intent, and nothing is stored.\<close>

theorem restarts_expose_unsettled_effects:
  assumes "tool_history sha256 sd d xs" and "serde_faithful sd" and "digests sha256"
  shows "\<exists>d'. tool_open sd (Regular (fl_file (dtr_ledger d))) False = Ok d'
    \<and> (\<not> fl_poisoned (dtr_ledger d) \<longrightarrow> dtr_state d' = dtr_state d)
    \<and> (\<forall>a \<in> set xs. (\<exists>r. tool_record d' (executed_call a) = Ok r \<and> tc_status r \<in> {CallSucceeded, CallFailed})
         \<or> (\<exists>call. pending_reconciliation d' = Some call
              \<and> (\<forall>outcome p intent. bt_get (tl_identities (dtr_state d')) (ti_identity intent) = None
                   \<longrightarrow> (\<exists>e. tool_request sha256 sd outcome d' p intent = (Err e, d')))))"
proof (rule history_opens [OF assms])
  fix d' assume opened: "tool_open sd (Regular (fl_file (dtr_ledger d))) False = Ok d'" "consumed (dtr_state d') xs"
    "\<not> fl_poisoned (dtr_ledger d) \<longrightarrow> dtr_state d' = dtr_state d"
  have refused: "\<exists>e. tool_request sha256 sd outcome d' p intent = (Err e, d')"
    if "pending_reconciliation d' = Some call" "bt_get (tl_identities (dtr_state d')) (ti_identity intent) = None"
    for call outcome p intent
  proof -
    have "andthen (intent_validate intent) (\<lambda>_. validate_authority (pr_capabilities p) intent) \<noteq> Diverges"
      by (rule request_checks_return)
    then show ?thesis
      using that
      by (cases "andthen (intent_validate intent) (\<lambda>_. validate_authority (pr_capabilities p) intent)")
        (simp_all add: tool_request_def Let_def)
  qed
  have pending: "\<exists>call. pending_reconciliation d' = Some call"
    if "bt_get (tl_calls (dtr_state d')) c = Some r" "tc_status r = ReconciliationRequired" for c r
    using bt_get_in_values [OF that(1)] that(2) find_None_iff [of "\<lambda>r. tc_status r = ReconciliationRequired"]
    by (fastforce simp: pending_reconciliation_def)
  have "(\<exists>r. tool_record d' (executed_call a) = Ok r \<and> tc_status r \<in> {CallSucceeded, CallFailed})
      \<or> (\<exists>call. pending_reconciliation d' = Some call)" if "a \<in> set xs" for a
    using opened(2) that pending by (fastforce simp: consumed_def tool_record_def)
  with opened(1,3) refused show ?thesis by metis
qed

theorem restarts_expose_unsettled_effects_witness:
  "\<exists>d d'. tool_history demo_sha256 demo_serde d [demo_authorized] \<and> fl_poisoned (dtr_ledger d)
     \<and> tool_open demo_serde (Regular (fl_file (dtr_ledger d))) False = Ok d'"
proof -
  from demo_executed(2) obtain d where d: "tool_history demo_sha256 demo_serde d [demo_authorized]" "fl_poisoned (dtr_ledger d)"
    by blast
  with restarts_expose_unsettled_effects [OF d(1) demo_serde_faithful demo_digests] show ?thesis by blast
qed

text \<open>C8 (refinement).  Every transaction the Tool state accepts is one step of the abstract registry: a
  call under a new identifier and a new identity, or one step of the life of one call, from awaiting
  approval to denied or prepared and from prepared to succeeded or failed, which leaves all other calls alone.  It
  keeps the state well-formed: identifiers are contiguous, identities and calls correspond, and each record
  has an expiry, a result and a reason exactly when its status says so.\<close>

theorem tool_states_refine_registry:
  assumes "apply_transaction s events = Ok s'" and "tool_ok s"
  shows "registry_step (bt_get (tl_calls s)) (bt_get (tl_calls s')) \<and> tool_ok s'"
  using transaction_registry [OF assms] transaction_ok [OF assms] ..

theorem tool_states_refine_registry_witness:
  "registry_step (bt_get (tl_calls tool_state_default)) (bt_get (tl_calls (demo_state demo_record)))
     \<and> tool_ok (demo_state demo_record)"
  using tool_states_refine_registry [OF demo_applied(1) tool_ok_default] .

text \<open>C9 (roundtrip).  A Tool event that is encoded for the ledger decodes to itself, whatever JSON text the
  serializer makes of it, for all nine kinds.\<close>

theorem tool_events_round_trip:
  assumes "serde_faithful sd" and "event_fits event" and "tool_encode_event sd event = Ok data"
  shows "tool_decode_event sd data = Ok event"
  by (rule tool_event_reads_back [OF assms])

theorem tool_events_round_trip_witness:
  "\<exists>data. tool_encode_event demo_serde (EffectReconciledSucceeded (Ident 3) (replicate 32 7)) = Ok data
     \<and> tool_decode_event demo_serde data = Ok (EffectReconciledSucceeded (Ident 3) (replicate 32 7))"
proof -
  have "\<exists>data. tool_encode_event demo_serde (EffectReconciledSucceeded (Ident 3) (replicate 32 7)) = Ok data"
    by (simp add: tool_encode_event_def serialize_payload_def demo_codecs)
  then obtain data where "tool_encode_event demo_serde (EffectReconciledSucceeded (Ident 3) (replicate 32 7)) = Ok data" ..
  with tool_events_round_trip [OF demo_serde_faithful _ this] show ?thesis by (simp add: id_valid_def u64_max_def)
qed

text \<open>C10 (equivalence).  Two argument texts within the byte limit that parse to the same JSON value up to the
  order of object keys, at any depth, give the same canonical arguments or the same error, so the same hash.\<close>

theorem argument_order_is_irrelevant:
  assumes "js_parse js x = Some v" and "js_parse js y = Some w" and "same_json v w"
    and "length x \<le> MAX_ARGUMENT_BYTES" and "length y \<le> MAX_ARGUMENT_BYTES"
  shows "tool_arguments_parse js x = tool_arguments_parse js y"
  using assms same_json_writes [OF assms(3)] same_json_object [OF assms(3)] by (simp add: tool_arguments_parse_def)

definition demo_json :: json_lib where
  "demo_json = \<lparr>js_parse = (\<lambda>s. Some (JObject (if s = ''1'' then [(''b'', JNull), (''a'', JBool True)]
     else [(''a'', JBool True), (''b'', JNull)]))), js_quote = (\<lambda>s. Some (CHR 0x22 # s @ [CHR 0x22]))\<rparr>"

theorem argument_order_is_irrelevant_witness:
  "tool_arguments_parse demo_json ''1'' = tool_arguments_parse demo_json ''2''
     \<and> js_parse demo_json ''1'' \<noteq> js_parse demo_json ''2''"
proof
  have "same_json (JObject [(''b'', JNull), (''a'', JBool True)]) (JObject [(''a'', JBool True), (''b'', JNull)])"
    by (rule object [of _ "[(''b'', JNull), (''a'', JBool True)]"]) (simp_all add: same)
  then show "tool_arguments_parse demo_json ''1'' = tool_arguments_parse demo_json ''2''"
    by (intro argument_order_is_irrelevant [of demo_json "''1''" _ "''2''"]) (simp_all add: demo_json_def MAX_ARGUMENT_BYTES_def)
  show "js_parse demo_json ''1'' \<noteq> js_parse demo_json ''2''" by (simp add: demo_json_def)
qed

text \<open>The bytes a resource binding is hashed from determine the declared resources: two
  valid declarations that differ in any path, process or network target, or in the axis it is on, are hashed from
  different bytes.\<close>

theorem bindings_tell_resources_apart:
  assumes "resources_validate r = Ok ()" and "resources_validate q = Ok ()"
  shows "binding_bytes r = binding_bytes q \<longleftrightarrow> r = q"
  using binding_bytes_inj [OF assms] by auto

theorem bindings_tell_resources_apart_witness:
  "binding_bytes (with_filesystem_read ''ab'' tool_resources_default)
     \<noteq> binding_bytes (with_filesystem_read ''a'' (with_filesystem_read ''b'' tool_resources_default))"
proof -
  have "resources_validate (with_filesystem_read ''ab'' tool_resources_default) = Ok ()"
    "resources_validate (with_filesystem_read ''a'' (with_filesystem_read ''b'' tool_resources_default)) = Ok ()"
    by code_simp+
  from bindings_tell_resources_apart [OF this] show ?thesis
    by (simp add: with_filesystem_read_def tool_resources_default_def)
qed

text \<open>A request that was answered with an approval request can be repeated: it is
  answered with the same approval request, for the same call, and nothing more is stored, whatever the
  disk would do.  The identity cannot be used again by another Agent, for another Tool or for arguments with another hash.\<close>

theorem repeated_requests_are_idempotent:
  assumes "tool_request sha256 sd outcome d p intent = (Ok (ApprovalRequired request), d')"
  shows "tool_request sha256 sd again d' p intent = (Ok (ApprovalRequired request), d')
    \<and> (pr_agent q \<noteq> pr_agent p \<or> ti_tool other \<noteq> ti_tool intent
         \<or> arguments_hash sha256 (ti_arguments other) \<noteq> arguments_hash sha256 (ti_arguments intent)
       \<longrightarrow> ti_identity other = ti_identity intent \<longrightarrow> intent_validate other = Ok ()
       \<longrightarrow> validate_authority (pr_capabilities q) other = Ok ()
       \<longrightarrow> tool_request sha256 sd again d' q other = (Err (IdentityConflict (ti_identity intent)), d'))"
proof -
  have valid: "andthen (intent_validate intent) (\<lambda>_. validate_authority (pr_capabilities p) intent) = Ok ()"
    using assms
    by (cases "andthen (intent_validate intent) (\<lambda>_. validate_authority (pr_capabilities p) intent)")
      (simp_all add: tool_request_def)
  have "\<exists>r. bt_get (tl_identities (dtr_state d')) (ti_identity intent) = Some (rq_call request)
      \<and> bt_get (tl_calls (dtr_state d')) (rq_call request) = Some r \<and> tc_status r = AwaitingApproval
      \<and> record_matches sha256 r (pr_agent p) intent (arguments_hash sha256 (ti_arguments intent))
      \<and> request = \<lparr>rq_call = rq_call request, rq_session = pr_session p, rq_intent = intent,
           rq_arguments_hash = arguments_hash sha256 (ti_arguments intent)\<rparr>"
  proof (cases "bt_get (tl_identities (dtr_state d)) (ti_identity intent)")
    case (Some call)
    then show ?thesis
      using assms valid by (auto simp: tool_request_def Let_def split: option.splits if_splits)
  next
    case None
    then obtain call receipt where request: "request = \<lparr>rq_call = call, rq_session = pr_session p, rq_intent = intent,
           rq_arguments_hash = arguments_hash sha256 (ti_arguments intent)\<rparr>"
      and app: "append_tool_events sd outcome d [CallRequested call (ti_identity intent) (pr_agent p) (ti_tool intent)
        (arguments_hash sha256 (ti_arguments intent)) (resources_binding sha256 (ti_resources intent))] = (Ok receipt, d')"
      using assms valid
      by (auto simp: tool_request_def Let_def andthen_with_def split: option.splits result.splits prod.splits if_splits)
    then have "apply_transaction (dtr_state d) [CallRequested call (ti_identity intent) (pr_agent p) (ti_tool intent)
        (arguments_hash sha256 (ti_arguments intent)) (resources_binding sha256 (ti_resources intent))] = Ok (dtr_state d')"
      by (auto simp: append_tool_events_def andthen_with_def result_ok split: result.splits prod.splits)
    then have "\<exists>next_call. dtr_state d' = (put_call (dtr_state d) call
        \<lparr>tc_call = call, tc_identity = ti_identity intent, tc_agent = pr_agent p, tc_tool = ti_tool intent,
         tc_arguments_hash = arguments_hash sha256 (ti_arguments intent),
         tc_binding = resources_binding sha256 (ti_resources intent), tc_status = AwaitingApproval,
         tc_expires_at = None, tc_result_digest = None, tc_reason = None\<rparr>)
        \<lparr>tl_identities := bt_insert (ti_identity intent) call (tl_identities (dtr_state d)), tl_next_call := next_call\<rparr>"
      by (auto simp: apply_transaction_def result_ok apply_call_requested_def split: if_splits dest: sym)
    then show ?thesis by (auto simp: request bt_get_insert record_matches_def)
  qed
  then obtain r where r: "bt_get (tl_identities (dtr_state d')) (ti_identity intent) = Some (rq_call request)"
    "bt_get (tl_calls (dtr_state d')) (rq_call request) = Some r" "tc_status r = AwaitingApproval"
    "record_matches sha256 r (pr_agent p) intent (arguments_hash sha256 (ti_arguments intent))"
    and request: "request = \<lparr>rq_call = rq_call request, rq_session = pr_session p, rq_intent = intent,
           rq_arguments_hash = arguments_hash sha256 (ti_arguments intent)\<rparr>" by blast
  have "tool_request sha256 sd again d' p intent = (Ok (ApprovalRequired request), d')"
    using valid r request by (simp add: tool_request_def)
  then show ?thesis
    using r by (auto simp: tool_request_def Let_def record_matches_def)
qed

theorem repeated_requests_are_idempotent_witness:
  "\<exists>d. tool_request demo_sha256 demo_serde Synced demo_tools demo_principal demo_intent = (Ok (ApprovalRequired demo_approval), d)
     \<and> tool_request demo_sha256 demo_serde (FailedAfter 0 NotFound) d demo_principal demo_intent = (Ok (ApprovalRequired demo_approval), d)"
  using demo_request repeated_requests_are_idempotent by blast

end
