(* ===== verification/Config.thy ===== *)
theory Config
  imports Model Pricing Usage_Window
begin

text \<open>
  Layered configuration (\<open>greentyper-core/src/config.rs\<close>): the four layers, their resolution, and the
  epoch that is frozen for a Turn.
\<close>

unbundle bit_operations_syntax

section \<open>Values\<close>

definition DEFAULT_MAX_OUTPUT_BYTES :: u32 where "DEFAULT_MAX_OUTPUT_BYTES = 64 * 1024"
definition CONFIG_MAX_OUTPUT_BYTES :: u32 where "CONFIG_MAX_OUTPUT_BYTES = 512 * 1024"
definition MAX_OUTPUT_TOKENS :: u32 where "MAX_OUTPUT_TOKENS = 1024 * 1024"
definition MAX_CONFIG_ID_BYTES :: usize where "MAX_CONFIG_ID_BYTES = 64"
definition MAX_CONFIG_STRING_BYTES :: usize where "MAX_CONFIG_STRING_BYTES = 512"
definition MAX_USAGE_WINDOWS :: usize where "MAX_USAGE_WINDOWS = 128"

definition CONFIG_SCHEMA_VERSION :: u16 where
  "CONFIG_SCHEMA_VERSION = schema_get (schema_current ConfigEpoch)"

datatype reasoning_effort = EffortNone | EffortMinimal | EffortLow | EffortMedium | EffortHigh | EffortXHigh | EffortMax

primrec effort_as_str :: "reasoning_effort \<Rightarrow> string" where
  "effort_as_str EffortNone = ''none''"
| "effort_as_str EffortMinimal = ''minimal''"
| "effort_as_str EffortLow = ''low''"
| "effort_as_str EffortMedium = ''medium''"
| "effort_as_str EffortHigh = ''high''"
| "effort_as_str EffortXHigh = ''xhigh''"
| "effort_as_str EffortMax = ''max''"

definition effort_parse :: "string \<Rightarrow> reasoning_effort option" where
  "effort_parse v =
     (if v = ''none'' then Some EffortNone
      else if v = ''minimal'' then Some EffortMinimal
      else if v = ''low'' then Some EffortLow
      else if v = ''medium'' then Some EffortMedium
      else if v = ''high'' then Some EffortHigh
      else if v = ''xhigh'' then Some EffortXHigh
      else if v = ''max'' then Some EffortMax
      else None)"

datatype service_tier = TierAuto | TierDefault | TierFlex | TierScale | TierPriority | TierFast

primrec tier_as_str :: "service_tier \<Rightarrow> string" where
  "tier_as_str TierAuto = ''auto''"
| "tier_as_str TierDefault = ''default''"
| "tier_as_str TierFlex = ''flex''"
| "tier_as_str TierScale = ''scale''"
| "tier_as_str TierPriority = ''priority''"
| "tier_as_str TierFast = ''fast''"

definition tier_parse :: "string \<Rightarrow> service_tier option" where
  "tier_parse v =
     (if v = ''auto'' then Some TierAuto
      else if v = ''default'' then Some TierDefault
      else if v = ''flex'' then Some TierFlex
      else if v = ''scale'' then Some TierScale
      else if v = ''priority'' then Some TierPriority
      else if v = ''fast'' then Some TierFast
      else None)"

datatype context_mode = ModeCanonical | ModeProviderNative

primrec mode_as_str :: "context_mode \<Rightarrow> string" where
  "mode_as_str ModeCanonical = ''canonical''"
| "mode_as_str ModeProviderNative = ''provider_native''"

definition mode_parse :: "string \<Rightarrow> context_mode option" where
  "mode_parse v =
     (if v = ''canonical'' then Some ModeCanonical
      else if v = ''provider_native'' then Some ModeProviderNative
      else None)"

text \<open>The names parse back, and nothing else parses.\<close>

lemma effort_parse_as_str [simp]: "effort_parse v = Some e \<longleftrightarrow> v = effort_as_str e"
  by (cases e) (auto simp: effort_parse_def)

lemma tier_parse_as_str [simp]: "tier_parse v = Some t \<longleftrightarrow> v = tier_as_str t"
  by (cases t) (auto simp: tier_parse_def)

lemma mode_parse_as_str [simp]: "mode_parse v = Some m \<longleftrightarrow> v = mode_as_str m"
  by (cases m) (auto simp: mode_parse_def)

section \<open>Layers\<close>

datatype config_source = BuiltIn | User | Project | Cli

record config_layer =
  cl_provider_profile :: "string option"
  cl_provider_model :: "string option"
  cl_max_output_bytes :: "u32 option"
  cl_max_output_tokens :: "u32 option"
  cl_reasoning_effort :: "reasoning_effort option"
  cl_service_tier :: "service_tier option"
  cl_context_mode :: "context_mode option"

definition config_layer_default :: config_layer where
  "config_layer_default =
     \<lparr>cl_provider_profile = None, cl_provider_model = None, cl_max_output_bytes = None, cl_max_output_tokens = None,
      cl_reasoning_effort = None, cl_service_tier = None, cl_context_mode = None\<rparr>"

definition config_layer_built_in :: config_layer where
  "config_layer_built_in =
     \<lparr>cl_provider_profile = Some ''simulator'', cl_provider_model = Some ''deterministic-v1'',
      cl_max_output_bytes = Some DEFAULT_MAX_OUTPUT_BYTES, cl_max_output_tokens = None, cl_reasoning_effort = None,
      cl_service_tier = None, cl_context_mode = Some ModeCanonical\<rparr>"

record config_layers =
  ly_built_in :: config_layer
  ly_user :: config_layer
  ly_project :: config_layer
  ly_cli :: config_layer

definition config_layers_default :: config_layers where
  "config_layers_default =
     \<lparr>ly_built_in = config_layer_built_in, ly_user = config_layer_default, ly_project = config_layer_default,
      ly_cli = config_layer_default\<rparr>"

datatype config_error =
    MissingRequired string
  | EmptyString string
  | SurroundingWhitespace string
  | StringTooLong string
  | ZeroMaxOutputBytes
  | ZeroMaxOutputTokens
  | MaxOutputBytesTooLarge
  | MaxOutputTokensTooLarge
  | TooManyUsageWindows
  | DuplicateUsageWindow

type_synonym 'a config_result = "(config_error, 'a) result"

section \<open>Resolution\<close>

record 'a sourced =
  so_value :: 'a
  so_source :: config_source

record resolved_config =
  rc_provider_profile :: "string sourced"
  rc_provider_model :: "string sourced"
  rc_max_output_bytes :: "u32 sourced"
  rc_max_output_tokens :: "u32 sourced option"
  rc_reasoning_effort :: "reasoning_effort sourced option"
  rc_service_tier :: "service_tier sourced option"
  rc_context_mode :: "context_mode sourced"

definition validate_layer_string :: "string \<Rightarrow> string option \<Rightarrow> unit config_result" where
  "validate_layer_string key value =
     (case value of None \<Rightarrow> Ok ()
      | Some v \<Rightarrow>
          if trim v = [] then Err (EmptyString key)
          else if trim v \<noteq> v then Err (SurroundingWhitespace key)
          else if length v > MAX_CONFIG_STRING_BYTES then Err (StringTooLong key)
          else Ok ())"

definition validate_layer :: "config_layer \<Rightarrow> unit config_result" where
  "validate_layer l =
     andthen (validate_layer_string ''provider.profile'' (cl_provider_profile l)) (\<lambda>_.
     andthen (validate_layer_string ''provider.model'' (cl_provider_model l)) (\<lambda>_.
     andthen (case cl_max_output_bytes l of None \<Rightarrow> Ok ()
       | Some n \<Rightarrow> if n = 0 then Err ZeroMaxOutputBytes
           else if n > CONFIG_MAX_OUTPUT_BYTES then Err MaxOutputBytesTooLarge else Ok ()) (\<lambda>_.
     case cl_max_output_tokens l of None \<Rightarrow> Ok ()
     | Some n \<Rightarrow> if n = 0 then Err ZeroMaxOutputTokens
         else if n > MAX_OUTPUT_TOKENS then Err MaxOutputTokensTooLarge else Ok ())))"

text \<open>The array of one setting in the four layers, and the last entry that is set.\<close>

definition layer_values :: "(config_layer \<Rightarrow> 'a option) \<Rightarrow> config_layers \<Rightarrow> ('a option \<times> config_source) list" where
  "layer_values f l = [(f (ly_built_in l), BuiltIn), (f (ly_user l), User), (f (ly_project l), Project), (f (ly_cli l), Cli)]"

definition resolve_optional :: "('a option \<times> config_source) list \<Rightarrow> 'a sourced option" where
  "resolve_optional values' =
     (case rev (List.map_filter (\<lambda>(v, s). map_option (\<lambda>v. (v, s)) v) values') of
        [] \<Rightarrow> None | (v, s) # _ \<Rightarrow> Some \<lparr>so_value = v, so_source = s\<rparr>)"

definition resolve_required :: "string \<Rightarrow> ('a option \<times> config_source) list \<Rightarrow> 'a sourced config_result" where
  "resolve_required key values' = ok_or (resolve_optional values') (MissingRequired key)"

definition layers_resolve :: "config_layers \<Rightarrow> resolved_config config_result" where
  "layers_resolve l =
     andthen (validate_layer (ly_built_in l)) (\<lambda>_.
     andthen (validate_layer (ly_user l)) (\<lambda>_.
     andthen (validate_layer (ly_project l)) (\<lambda>_.
     andthen (validate_layer (ly_cli l)) (\<lambda>_.
     andthen (resolve_required ''provider.profile'' (layer_values cl_provider_profile l)) (\<lambda>provider_profile.
     andthen (resolve_required ''provider.model'' (layer_values cl_provider_model l)) (\<lambda>provider_model.
     andthen (resolve_required ''runtime.max_output_bytes'' (layer_values cl_max_output_bytes l)) (\<lambda>max_output_bytes.
     if so_value max_output_bytes = 0 then Err ZeroMaxOutputBytes
     else if so_value max_output_bytes > CONFIG_MAX_OUTPUT_BYTES then Err MaxOutputBytesTooLarge
     else
     let max_output_tokens = resolve_optional (layer_values cl_max_output_tokens l) in
     if (case max_output_tokens of Some v \<Rightarrow> so_value v = 0 | None \<Rightarrow> False) then Err ZeroMaxOutputTokens
     else if (case max_output_tokens of Some v \<Rightarrow> so_value v > MAX_OUTPUT_TOKENS | None \<Rightarrow> False)
     then Err MaxOutputTokensTooLarge
     else
     andthen (resolve_required ''context.mode'' (layer_values cl_context_mode l)) (\<lambda>context_mode.
     Ok \<lparr>rc_provider_profile = provider_profile, rc_provider_model = provider_model,
         rc_max_output_bytes = max_output_bytes, rc_max_output_tokens = max_output_tokens,
         rc_reasoning_effort = resolve_optional (layer_values cl_reasoning_effort l),
         rc_service_tier = resolve_optional (layer_values cl_service_tier l),
         rc_context_mode = context_mode\<rparr>))))))))"

section \<open>Epochs\<close>

record config_epoch =
  cf_id :: config_epoch_id
  cf_fingerprint :: u64
  cf_resolved :: resolved_config
  cf_usage_windows :: "usage_window list"
  cf_price_schedules :: price_schedule_book

primrec config_source_tag :: "config_source \<Rightarrow> u8" where
  "config_source_tag BuiltIn = 1"
| "config_source_tag User = 2"
| "config_source_tag Project = 3"
| "config_source_tag Cli = 4"

primrec usage_timezone_source_tag :: "usage_timezone_source \<Rightarrow> u8" where
  "usage_timezone_source_tag Explicit = 1"
| "usage_timezone_source_tag LocalSystem = 2"

primrec usage_weekday_tag :: "usage_weekday \<Rightarrow> u8" where
  "usage_weekday_tag Mon = 1"
| "usage_weekday_tag Tue = 2"
| "usage_weekday_tag Wed = 3"
| "usage_weekday_tag Thu = 4"
| "usage_weekday_tag Fri = 5"
| "usage_weekday_tag Sat = 6"
| "usage_weekday_tag Sun = 7"

text \<open>\<open>UsageWindow::days\<close>, in the order of the set.\<close>

definition window_days :: "usage_window \<Rightarrow> usage_weekday list" where
  "window_days w = filter (\<lambda>day. day |\<in>| uw_days w) [Mon, Tue, Wed, Thu, Fri, Sat, Sun]"

definition sourced_parts :: "('a \<Rightarrow> u8 list) \<Rightarrow> 'a sourced \<Rightarrow> u8 list list" where
  "sourced_parts f v = [f (so_value v), [config_source_tag (so_source v)]]"

definition optional_parts :: "('a \<Rightarrow> u8 list) \<Rightarrow> 'a sourced option \<Rightarrow> u8 list list" where
  "optional_parts f v = (case v of None \<Rightarrow> [] | Some v \<Rightarrow> sourced_parts f v)"

definition config_parts :: "resolved_config \<Rightarrow> u8 list list" where
  "config_parts c =
     [u16_to_le CONFIG_SCHEMA_VERSION]
     @ sourced_parts text_bytes (rc_provider_profile c) @ sourced_parts text_bytes (rc_provider_model c)
     @ sourced_parts u32_to_le (rc_max_output_bytes c) @ optional_parts u32_to_le (rc_max_output_tokens c)
     @ optional_parts (text_bytes \<circ> effort_as_str) (rc_reasoning_effort c)
     @ optional_parts (text_bytes \<circ> tier_as_str) (rc_service_tier c)
     @ (if so_value (rc_context_mode c) \<noteq> ModeCanonical \<or> so_source (rc_context_mode c) \<noteq> BuiltIn
        then sourced_parts (text_bytes \<circ> mode_as_str) (rc_context_mode c) else [])"

definition window_hash :: "u64 \<Rightarrow> usage_window \<Rightarrow> u64" where
  "window_hash hash w =
     foldl (\<lambda>hash day. hash_step hash (ucast (usage_weekday_tag day)))
       (foldl hash_bytes hash [text_bytes (uw_id w), u16_to_le (uw_start_minute w), u16_to_le (uw_end_minute w),
          text_bytes (uw_timezone w), [usage_timezone_source_tag (uw_timezone_source w)],
          text_bytes (uw_ruleset_version w)])
       (window_days w)"

definition config_fingerprint :: "resolved_config \<Rightarrow> usage_window list \<Rightarrow> price_schedule_book \<Rightarrow> u64" where
  "config_fingerprint c usage_windows price_schedules =
     foldl (\<lambda>hash s. hash_bytes hash (u64_to_le (ps_fingerprint s)))
       (foldl window_hash (foldl hash_bytes 0xcbf29ce484222325 (config_parts c)) usage_windows)
       (pb_schedules price_schedules)"

fun adjacent_windows_equal :: "usage_window list \<Rightarrow> bool" where
  "adjacent_windows_equal (v # w # rest) = (uw_id v = uw_id w \<or> adjacent_windows_equal (w # rest))"
| "adjacent_windows_equal _ = False"

definition freeze_with_observability ::
  "config_epoch_id \<Rightarrow> config_layers \<Rightarrow> usage_window list \<Rightarrow> price_schedule_book \<Rightarrow> config_epoch config_result" where
  "freeze_with_observability i layers usage_windows price_schedules =
     andthen (layers_resolve layers) (\<lambda>resolved.
     if length usage_windows > MAX_USAGE_WINDOWS then Err TooManyUsageWindows
     else
     let usage_windows = sort_key uw_id usage_windows in
     if adjacent_windows_equal usage_windows then Err DuplicateUsageWindow
     else Ok \<lparr>cf_id = i, cf_fingerprint = config_fingerprint resolved usage_windows price_schedules,
              cf_resolved = resolved, cf_usage_windows = usage_windows, cf_price_schedules = price_schedules\<rparr>)"

definition freeze_with_usage_windows ::
  "config_epoch_id \<Rightarrow> config_layers \<Rightarrow> usage_window list \<Rightarrow> config_epoch config_result" where
  "freeze_with_usage_windows i layers usage_windows =
     freeze_with_observability i layers usage_windows \<lparr>pb_schedules = []\<rparr>"

definition config_freeze :: "config_epoch_id \<Rightarrow> config_layers \<Rightarrow> config_epoch config_result" where
  "config_freeze i layers = freeze_with_usage_windows i layers []"

section \<open>Laws\<close>

text \<open>The layer a source names, and the layers above it.\<close>

primrec layer_of :: "config_source \<Rightarrow> config_layers \<Rightarrow> config_layer" where
  "layer_of BuiltIn l = ly_built_in l"
| "layer_of User l = ly_user l"
| "layer_of Project l = ly_project l"
| "layer_of Cli l = ly_cli l"

primrec layers_above :: "config_source \<Rightarrow> config_layers \<Rightarrow> config_layer list" where
  "layers_above BuiltIn l = [ly_user l, ly_project l, ly_cli l]"
| "layers_above User l = [ly_project l, ly_cli l]"
| "layers_above Project l = [ly_cli l]"
| "layers_above Cli l = []"

definition wins :: "(config_layer \<Rightarrow> 'a option) \<Rightarrow> config_layers \<Rightarrow> 'a sourced \<Rightarrow> bool" where
  "wins f l v \<longleftrightarrow> f (layer_of (so_source v) l) = Some (so_value v) \<and> (\<forall>m \<in> set (layers_above (so_source v) l). f m = None)"

lemma resolve_optional_Some [result_ok]: "resolve_optional (layer_values f l) = Some v \<longleftrightarrow> wins f l v"
  by (cases "f (ly_built_in l)"; cases "f (ly_user l)"; cases "f (ly_project l)"; cases "f (ly_cli l)"; cases v; cases "so_source v")
    (auto simp: resolve_optional_def layer_values_def wins_def List.map_filter_simps)

lemma resolve_optional_None:
  "resolve_optional (layer_values f l) = None \<longleftrightarrow> (\<forall>m \<in> {ly_built_in l, ly_user l, ly_project l, ly_cli l}. f m = None)"
  by (cases "f (ly_built_in l)"; cases "f (ly_user l)"; cases "f (ly_project l)"; cases "f (ly_cli l)")
    (auto simp: resolve_optional_def layer_values_def List.map_filter_simps)

lemma resolve_required_Ok [result_ok]: "resolve_required key (layer_values f l) = Ok v \<longleftrightarrow> wins f l v"
  by (simp add: resolve_required_def result_ok)

lemma adjacent_windows_distinct:
  "sorted (map uw_id ws) \<Longrightarrow> \<not> adjacent_windows_equal ws \<longleftrightarrow> distinct (map uw_id ws)"
  by (induction ws rule: adjacent_windows_equal.induct) (auto simp: less_le)

end
