(* ===== verification/Config_Claims.thy ===== *)
theory Config_Claims
  imports Config "HOL-Library.Multiset"
begin

text \<open>
  The properties of layered configuration (\<open>greentyper-core/src/config.rs\<close>).
\<close>

section \<open>Validated layers\<close>

definition text_setting :: "string \<Rightarrow> bool" where
  "text_setting v \<longleftrightarrow> v \<noteq> [] \<and> trim v = v \<and> length v \<le> MAX_CONFIG_STRING_BYTES"

lemma validate_layer_string_Ok [result_ok]:
  "validate_layer_string key x = Ok u \<longleftrightarrow> (\<forall>v. x = Some v \<longrightarrow> text_setting v)"
  by (cases x) (auto simp: validate_layer_string_def text_setting_def not_less)

text \<open>The conditions one layer is checked for.\<close>

definition layer_ok :: "config_layer \<Rightarrow> bool" where
  "layer_ok l \<longleftrightarrow> (\<forall>v. cl_provider_profile l = Some v \<longrightarrow> text_setting v) \<and> (\<forall>v. cl_provider_model l = Some v \<longrightarrow> text_setting v)
     \<and> (\<forall>n. cl_max_output_bytes l = Some n \<longrightarrow> 0 < n \<and> n \<le> CONFIG_MAX_OUTPUT_BYTES)
     \<and> (\<forall>n. cl_max_output_tokens l = Some n \<longrightarrow> 0 < n \<and> n \<le> MAX_OUTPUT_TOKENS)"

lemma validate_layer_Ok [result_ok]: "validate_layer l = Ok u \<longleftrightarrow> layer_ok l"
  unfolding validate_layer_def layer_ok_def result_ok
  by (cases "cl_max_output_bytes l"; cases "cl_max_output_tokens l") (auto simp: result_ok not_less word_gt_0)

abbreviation layers_list :: "config_layers \<Rightarrow> config_layer list" where
  "layers_list l \<equiv> [ly_built_in l, ly_user l, ly_project l, ly_cli l]"

lemma layer_of_in: "layer_of s l \<in> set (layers_list l)"
  by (cases s) simp_all

lemma wins_layer:
  assumes "wins f l v" and "\<forall>m \<in> set (layers_list l). layer_ok m"
  obtains m where "f m = Some (so_value v)" "layer_ok m"
  using that assms layer_of_in [of "so_source v" l] by (auto simp: wins_def)

lemma layers_resolve_OkD:
  assumes "layers_resolve l = Ok c"
  shows "\<forall>m \<in> set (layers_list l). layer_ok m"
    and "wins cl_provider_profile l (rc_provider_profile c)" "wins cl_provider_model l (rc_provider_model c)"
    "wins cl_max_output_bytes l (rc_max_output_bytes c)" "wins cl_context_mode l (rc_context_mode c)"
    and "rc_max_output_tokens c = resolve_optional (layer_values cl_max_output_tokens l)"
    "rc_reasoning_effort c = resolve_optional (layer_values cl_reasoning_effort l)"
    "rc_service_tier c = resolve_optional (layer_values cl_service_tier l)"
  using assms by (auto simp: layers_resolve_def result_ok Let_def simp del: not_None_eq split del: if_split)

definition given :: "(config_layer \<Rightarrow> 'a option) \<Rightarrow> config_layers \<Rightarrow> bool" where
  "given f l \<longleftrightarrow> list_ex (\<lambda>m. f m \<noteq> None) (layers_list l)"

lemma resolve_given: "resolve_optional (layer_values f l) = None \<longleftrightarrow> \<not> given f l"
  by (simp add: resolve_optional_None given_def)

lemma resolve_required_given: "given f l \<Longrightarrow> \<exists>v. resolve_required key (layer_values f l) = Ok v"
  by (cases "resolve_optional (layer_values f l)") (simp_all add: resolve_required_def resolve_given)

lemma resolved_tokens_ok:
  assumes "\<forall>m \<in> set (layers_list l). layer_ok m" "resolve_optional (layer_values cl_max_output_tokens l) = Some v"
  shows "0 < so_value v \<and> so_value v \<le> MAX_OUTPUT_TOKENS"
proof -
  from assms(2) have "wins cl_max_output_tokens l v" by (simp add: result_ok)
  then obtain m where "cl_max_output_tokens m = Some (so_value v)" "layer_ok m" using assms(1) by (rule wins_layer)
  then show ?thesis by (simp add: layer_ok_def)
qed

lemma resolved_bytes_ok:
  assumes "\<forall>m \<in> set (layers_list l). layer_ok m" "wins cl_max_output_bytes l v"
  shows "0 < so_value v \<and> so_value v \<le> CONFIG_MAX_OUTPUT_BYTES"
proof -
  obtain m where "cl_max_output_bytes m = Some (so_value v)" "layer_ok m" using assms(2,1) by (rule wins_layer)
  then show ?thesis by (simp add: layer_ok_def)
qed

lemma resolved_text_ok:
  assumes "\<forall>m \<in> set (layers_list l). layer_ok m" "wins f l v" "f = cl_provider_profile \<or> f = cl_provider_model"
  shows "text_setting (so_value v)"
proof -
  obtain m where "f m = Some (so_value v)" "layer_ok m" using assms(2,1) by (rule wins_layer)
  then show ?thesis using assms(3) by (auto simp: layer_ok_def)
qed

lemma layers_resolve_total:
  assumes ok: "\<forall>m \<in> set (layers_list l). layer_ok m"
    and "given cl_provider_profile l" "given cl_provider_model l" "given cl_max_output_bytes l" "given cl_context_mode l"
  shows "\<exists>c. layers_resolve l = Ok c"
proof -
  obtain p where p: "resolve_required ''provider.profile'' (layer_values cl_provider_profile l) = Ok p"
    using resolve_required_given [OF assms(2)] by blast
  obtain m where m: "resolve_required ''provider.model'' (layer_values cl_provider_model l) = Ok m"
    using resolve_required_given [OF assms(3)] by blast
  obtain b where b: "resolve_required ''runtime.max_output_bytes'' (layer_values cl_max_output_bytes l) = Ok b"
    using resolve_required_given [OF assms(4)] by blast
  obtain x where x: "resolve_required ''context.mode'' (layer_values cl_context_mode l) = Ok x"
    using resolve_required_given [OF assms(5)] by blast
  have valid: "validate_layer (ly_built_in l) = Ok ()" "validate_layer (ly_user l) = Ok ()"
    "validate_layer (ly_project l) = Ok ()" "validate_layer (ly_cli l) = Ok ()"
    using ok by (simp_all add: result_ok)
  have "so_value b \<noteq> 0 \<and> \<not> so_value b > CONFIG_MAX_OUTPUT_BYTES"
    using resolved_bytes_ok [OF ok, of b] b by (simp add: result_ok not_less word_gt_0)
  moreover have "case resolve_optional (layer_values cl_max_output_tokens l) of
      Some v \<Rightarrow> so_value v \<noteq> 0 \<and> \<not> so_value v > MAX_OUTPUT_TOKENS | None \<Rightarrow> True"
    using resolved_tokens_ok [OF ok] by (auto simp: not_less split: option.split)
  ultimately show ?thesis
    by (simp add: layers_resolve_def valid p m b x Let_def split: option.splits)
qed

text \<open>When a configuration can be resolved, and what an optional setting resolves to.\<close>

definition layers_ready :: "config_layers \<Rightarrow> bool" where
  "layers_ready l \<longleftrightarrow> list_all (\<lambda>m. is_ok (validate_layer m)) (layers_list l)
     \<and> given cl_provider_profile l \<and> given cl_provider_model l \<and> given cl_max_output_bytes l \<and> given cl_context_mode l"

definition wins_or_unset :: "(config_layer \<Rightarrow> 'a option) \<Rightarrow> config_layers \<Rightarrow> 'a sourced option \<Rightarrow> bool" where
  "wins_or_unset f l v = (case v of Some v \<Rightarrow> wins f l v | None \<Rightarrow> \<not> given f l)"

lemma wins_or_unset_resolve: "wins_or_unset f l (resolve_optional (layer_values f l))"
proof (cases "resolve_optional (layer_values f l)")
  case None
  with resolve_given [of f l] show ?thesis by (simp add: wins_or_unset_def)
next
  case (Some v)
  with resolve_optional_Some [of f l v] show ?thesis by (simp add: wins_or_unset_def)
qed

lemma wins_given: "wins f l v \<Longrightarrow> given f l"
  using layer_of_in [of "so_source v" l] by (auto simp: wins_def given_def)

lemma layers_ready_iff: "layers_ready l \<longleftrightarrow> (\<forall>m \<in> set (layers_list l). layer_ok m)
     \<and> given cl_provider_profile l \<and> given cl_provider_model l \<and> given cl_max_output_bytes l \<and> given cl_context_mode l"
  by (simp add: layers_ready_def is_ok_iff result_ok)

section \<open>Claims\<close>

text \<open>C40 (functional).  The configuration resolves exactly when every layer, also
  an overridden one, holds valid values and each required setting is given somewhere.  Then every
  setting has the value of the highest layer that gives it, with that layer as its source; the optional ones are
  unset only when no layer gives them; and all values are within their bounds.
\<close>

theorem settings_come_from_the_highest_layer:
  "case layers_resolve l of
     Ok c \<Rightarrow> layers_ready l
       \<and> wins cl_provider_profile l (rc_provider_profile c) \<and> text_setting (so_value (rc_provider_profile c))
       \<and> wins cl_provider_model l (rc_provider_model c) \<and> text_setting (so_value (rc_provider_model c))
       \<and> wins cl_max_output_bytes l (rc_max_output_bytes c)
       \<and> 0 < so_value (rc_max_output_bytes c) \<and> so_value (rc_max_output_bytes c) \<le> CONFIG_MAX_OUTPUT_BYTES
       \<and> wins_or_unset cl_max_output_tokens l (rc_max_output_tokens c)
       \<and> (case rc_max_output_tokens c of Some v \<Rightarrow> 0 < so_value v \<and> so_value v \<le> MAX_OUTPUT_TOKENS | None \<Rightarrow> True)
       \<and> wins_or_unset cl_reasoning_effort l (rc_reasoning_effort c)
       \<and> wins_or_unset cl_service_tier l (rc_service_tier c)
       \<and> wins cl_context_mode l (rc_context_mode c)
   | Err e \<Rightarrow> \<not> layers_ready l
   | Diverges \<Rightarrow> False"
proof (cases "layers_resolve l")
  case (Ok c)
  note r = layers_resolve_OkD [OF Ok]
  have "layers_ready l" using r(1-5) by (auto simp: layers_ready_iff dest: wins_given)
  moreover have "case rc_max_output_tokens c of Some v \<Rightarrow> 0 < so_value v \<and> so_value v \<le> MAX_OUTPUT_TOKENS | None \<Rightarrow> True"
    using resolved_tokens_ok [OF r(1)] r(6) by (auto split: option.split)
  ultimately show ?thesis
    using r resolved_bytes_ok [OF r(1,4)] resolved_text_ok [OF r(1,2)] resolved_text_ok [OF r(1,3)]
    by (simp add: Ok wins_or_unset_resolve)
next
  case (Err e)
  then show ?thesis using layers_resolve_total [of l] by (auto simp: layers_ready_iff)
next
  case Diverges
  have "validate_layer m \<noteq> Diverges" for m
    by (auto simp: validate_layer_def validate_layer_string_def andthen_eq_Diverges split: option.splits)
  with Diverges show ?thesis
    by (auto simp: layers_resolve_def andthen_eq_Diverges resolve_required_def Let_def split: if_splits)
qed

text \<open>
  The epoch frozen for a Turn does not depend on the order in which the
  usage windows are given: the result, its fingerprint and the errors are the same.  A frozen epoch has
  at most 128 windows, sorted by distinct identifiers.
\<close>

theorem epochs_ignore_window_order:
  assumes "mset ws = mset ws'"
  shows "freeze_with_observability i l ws book = freeze_with_observability i l ws' book
    \<and> (case freeze_with_observability i l ws book of
         Ok e \<Rightarrow> length (cf_usage_windows e) \<le> MAX_USAGE_WINDOWS \<and> mset (cf_usage_windows e) = mset ws
           \<and> sorted (map uw_id (cf_usage_windows e)) \<and> distinct (map uw_id (cf_usage_windows e))
       | _ \<Rightarrow> True)"
proof
  let ?s = "sort_key uw_id ws" and ?s' = "sort_key uw_id ws'"
  have n: "length ws = length ws'" using assms by (rule mset_eq_length)
  have adj: "adjacent_windows_equal ?s = adjacent_windows_equal ?s'"
  proof -
    have "mset (map uw_id ?s) = mset (map uw_id ?s')" using assms by simp
    then have "distinct (map uw_id ?s) = distinct (map uw_id ?s')" by (rule mset_eq_imp_distinct_iff)
    with adjacent_windows_distinct [of ?s] adjacent_windows_distinct [of ?s'] show ?thesis by auto
  qed
  have same: "?s = ?s'" if "\<not> adjacent_windows_equal ?s"
  proof -
    have d: "distinct (map uw_id ?s)" "distinct (map uw_id ?s')"
      using that adj adjacent_windows_distinct [of ?s] adjacent_windows_distinct [of ?s'] by simp_all
    have set: "set ?s = set ?s'" unfolding set_sort by (rule mset_eq_setD [OF assms])
    have "inj_on uw_id (set ?s \<union> set ?s')" unfolding set [symmetric] Un_absorb using d(1) unfolding distinct_map by (rule conjunct2)
    then show ?thesis by (rule map_sorted_distinct_set_unique [OF _ sorted_sort_key d(1) sorted_sort_key d(2) set])
  qed
  show "freeze_with_observability i l ws book = freeze_with_observability i l ws' book"
  proof (cases "adjacent_windows_equal ?s")
    case True
    with adj have "adjacent_windows_equal ?s'" by simp
    with True show ?thesis by (simp only: freeze_with_observability_def Let_def n if_True)
  next
    case False
    show ?thesis by (simp only: freeze_with_observability_def Let_def n same [OF False])
  qed
  show "case freeze_with_observability i l ws book of
         Ok e \<Rightarrow> length (cf_usage_windows e) \<le> MAX_USAGE_WINDOWS \<and> mset (cf_usage_windows e) = mset ws
           \<and> sorted (map uw_id (cf_usage_windows e)) \<and> distinct (map uw_id (cf_usage_windows e))
       | _ \<Rightarrow> True"
    using adjacent_windows_distinct [of ?s]
    by (auto simp: freeze_with_observability_def Let_def result_ok split: result.splits if_splits)
qed

definition demo_frozen_windows :: "usage_window list" where
  "demo_frozen_windows = [UsageWindow ''night'' 1320 360 {|Mon|} ''UTC'' Explicit ''2025b'', UsageWindow ''day'' 480 1020 {|Tue|} ''UTC'' Explicit ''2025b'']"

theorem epochs_ignore_window_order_witness:
  "freeze_with_observability (NonzeroId 1) config_layers_default demo_frozen_windows \<lparr>pb_schedules = []\<rparr>
     = freeze_with_observability (NonzeroId 1) config_layers_default (rev demo_frozen_windows) \<lparr>pb_schedules = []\<rparr>"
  using epochs_ignore_window_order [of demo_frozen_windows "rev demo_frozen_windows"] by simp

end
