(* ===== verification/Context_View.thy ===== *)
theory Context_View
  imports Model Ledger Tool_Types
begin

text \<open>
  Context views and context pressure (\<open>greentyper-core/src/context.rs\<close>): the projection of conversation
  items, its reduction to artifacts and a recent tail, the request made from a stored reduction, and
  admission under token pressure.  The digest SHA-256 is a parameter.
\<close>

section \<open>Bounds and errors\<close>

definition DEFAULT_SOFT_PERCENT :: u8 where "DEFAULT_SOFT_PERCENT = 65"
definition DEFAULT_HARD_PERCENT :: u8 where "DEFAULT_HARD_PERCENT = 90"
definition MAX_CONTEXT_VIEW_BYTES :: usize where "MAX_CONTEXT_VIEW_BYTES = 512 * 1024"
definition MAX_CONTEXT_VIEW_ITEMS :: usize where "MAX_CONTEXT_VIEW_ITEMS = 4096"
definition DEFAULT_RAW_TAIL_BYTES :: usize where "DEFAULT_RAW_TAIL_BYTES = 64 * 1024"
definition DEFAULT_RAW_TAIL_ITEMS :: usize where "DEFAULT_RAW_TAIL_ITEMS = 32"

datatype context_view_error =
    TooManyItems | ViewTooLarge | ViewOverflow | InvalidReductionPolicy | ArtifactMismatch | InvalidStoredView

type_synonym 'a view_result = "(context_view_error, 'a) result"

section \<open>Event ranges\<close>

record context_event_range =
  er_first :: "u64 option"
  er_last :: "u64 option"
  er_transaction :: u64

definition range_from_head :: "ledger_head \<Rightarrow> context_event_range" where
  "range_from_head head =
     (if lh_sequence head = 0 then \<lparr>er_first = None, er_last = None, er_transaction = 0\<rparr>
      else \<lparr>er_first = Some 1, er_last = Some (lh_sequence head), er_transaction = lh_transaction head\<rparr>)"

definition range_head :: "context_event_range \<Rightarrow> ledger_head" where
  "range_head r = \<lparr>lh_transaction = er_transaction r, lh_sequence = (case er_last r of Some s \<Rightarrow> s | None \<Rightarrow> 0)\<rparr>"

section \<open>View items\<close>

datatype context_view_role = ViewUser | ViewAssistant

primrec view_role :: "item_role \<Rightarrow> context_view_role" where
  "view_role RoleUser = ViewUser"
| "view_role RoleAssistant = ViewAssistant"

record context_view_item =
  vi_item :: u64
  vi_turn :: u64
  vi_role :: context_view_role
  vi_text :: string
  vi_tokens :: u64

text \<open>\<open>str::chars().count()\<close>: the bytes that begin a character.\<close>

definition chars_count :: "string \<Rightarrow> usize" where
  "chars_count s = length (filter (\<lambda>c. \<not> continuation c) s)"

definition view_len :: "usize \<Rightarrow> u64 view_result" where
  "view_len n = ok_or (u64_try_from n) ViewOverflow"

definition view_add :: "u64 \<Rightarrow> u64 \<Rightarrow> u64 view_result" where
  "view_add a b = ok_or (checked_add a b) ViewOverflow"

definition view_item :: "canonical_item \<Rightarrow> context_view_item view_result" where
  "view_item item =
     andthen (view_len (chars_count (ci_text item))) (\<lambda>characters.
     let estimated_tokens = max (of_nat ((unat characters + 3) div 4)) 1 in
     Ok \<lparr>vi_item = nonzero_get (ci_id item), vi_turn = nonzero_get (ci_turn item), vi_role = view_role (ci_role item),
         vi_text = ci_text item, vi_tokens = estimated_tokens\<rparr>)"

definition view_item_from_stored :: "u64 \<Rightarrow> u64 \<Rightarrow> context_view_role \<Rightarrow> string \<Rightarrow> context_view_item view_result" where
  "view_item_from_stored item turn role text =
     andthen (map_err (\<lambda>_. InvalidStoredView) (nonzero_new ''ItemId'' item)) (\<lambda>item.
     andthen (map_err (\<lambda>_. InvalidStoredView) (nonzero_new ''TurnId'' turn)) (\<lambda>turn.
     andthen (map_err (\<lambda>_. InvalidStoredView)
       (canonical_item_new item turn (case role of ViewUser \<Rightarrow> RoleUser | ViewAssistant \<Rightarrow> RoleAssistant) text)) view_item))"

section \<open>Views\<close>

record context_view =
  cw_source :: context_event_range
  cw_items :: "context_view_item list"
  cw_raw_bytes :: u64
  cw_tokens :: u64

text \<open>One turn of the loop of \<open>ContextView::from_items\<close>, and the loop.\<close>

definition view_push ::
  "u64 \<times> u64 \<times> u64 \<times> context_view_item list \<Rightarrow> canonical_item \<Rightarrow> (u64 \<times> u64 \<times> u64 \<times> context_view_item list) view_result"
where
  "view_push acc item =
     (case acc of (last_item, raw_bytes, estimated_tokens, projected) \<Rightarrow>
        if nonzero_get (ci_id item) \<le> last_item then Err InvalidStoredView
        else
        andthen (view_len (length (ci_text item))) (\<lambda>bytes.
        andthen (view_add raw_bytes bytes) (\<lambda>raw_bytes.
        if raw_bytes > of_nat MAX_CONTEXT_VIEW_BYTES then Err ViewTooLarge
        else
        andthen (view_item item) (\<lambda>v.
        andthen (view_add estimated_tokens (vi_tokens v)) (\<lambda>estimated_tokens.
        Ok (nonzero_get (ci_id item), raw_bytes, estimated_tokens, projected @ [v]))))))"

definition context_view_from_items :: "ledger_head \<Rightarrow> canonical_item list \<Rightarrow> context_view view_result" where
  "context_view_from_items head items =
     (if length items > MAX_CONTEXT_VIEW_ITEMS then Err TooManyItems
      else
      andthen (try_fold view_push (0, 0, 0, []) items) (\<lambda>(_, raw_bytes, estimated_tokens, projected).
      Ok \<lparr>cw_source = range_from_head head, cw_items = projected, cw_raw_bytes = raw_bytes, cw_tokens = estimated_tokens\<rparr>))"

section \<open>Reduction\<close>

record context_reduction_policy =
  rp_max_raw_bytes :: usize
  rp_max_raw_items :: usize

definition reduction_policy_new :: "usize \<Rightarrow> usize \<Rightarrow> context_reduction_policy view_result" where
  "reduction_policy_new max_raw_bytes max_raw_items =
     (if max_raw_bytes = 0 \<or> max_raw_bytes > MAX_CONTEXT_VIEW_BYTES \<or> max_raw_items = 0
         \<or> max_raw_items > MAX_CONTEXT_VIEW_ITEMS
      then Err InvalidReductionPolicy
      else Ok \<lparr>rp_max_raw_bytes = max_raw_bytes, rp_max_raw_items = max_raw_items\<rparr>)"

definition reduction_policy_default :: context_reduction_policy where
  "reduction_policy_default = \<lparr>rp_max_raw_bytes = DEFAULT_RAW_TAIL_BYTES, rp_max_raw_items = DEFAULT_RAW_TAIL_ITEMS\<rparr>"

record context_artifact_ref =
  ar_item :: u64
  ar_turn :: u64
  ar_role :: context_view_role
  ar_byte_len :: u64
  ar_tokens :: u64
  ar_digest :: digest

definition artifact_from_item :: "hasher \<Rightarrow> context_view_item \<Rightarrow> context_artifact_ref view_result" where
  "artifact_from_item sha256 v =
     andthen (view_len (length (vi_text v))) (\<lambda>byte_len.
     Ok \<lparr>ar_item = vi_item v, ar_turn = vi_turn v, ar_role = vi_role v, ar_byte_len = byte_len,
         ar_tokens = vi_tokens v, ar_digest = sha256 (str_bytes (vi_text v))\<rparr>)"

definition artifact_from_stored ::
  "u64 \<Rightarrow> u64 \<Rightarrow> context_view_role \<Rightarrow> u64 \<Rightarrow> u64 \<Rightarrow> digest \<Rightarrow> context_artifact_ref view_result" where
  "artifact_from_stored item turn role byte_len estimated_tokens digest =
     (if item = 0 \<or> turn = 0 \<or> byte_len = 0 \<or> byte_len > of_nat MAX_ITEM_TEXT_BYTES \<or> estimated_tokens = 0
      then Err InvalidStoredView
      else Ok \<lparr>ar_item = item, ar_turn = turn, ar_role = role, ar_byte_len = byte_len, ar_tokens = estimated_tokens,
               ar_digest = digest\<rparr>)"

record reduced_context_view =
  rv_source :: context_event_range
  rv_artifacts :: "context_artifact_ref list"
  rv_recent :: "context_view_item list"
  rv_raw_bytes :: u64
  rv_tokens :: u64

text \<open>The backwards loop that finds where the recent tail starts, over the texts with their positions.  It
  is written twice in the code, in \<open>ContextView::reduce\<close> and in \<open>ReducedContextView::from_items\<close>.\<close>

fun reduce_loop :: "usize \<Rightarrow> context_reduction_policy \<Rightarrow> (usize \<times> string) list \<Rightarrow> usize \<times> u64 \<Rightarrow> (usize \<times> u64) view_result" where
  "reduce_loop n policy [] acc = Ok acc"
| "reduce_loop n policy ((index, text) # rest) (recent_start, recent_raw_bytes) =
     (if n - index > rp_max_raw_items policy then Ok (recent_start, recent_raw_bytes)
      else
      andthen (view_len (length text)) (\<lambda>item_bytes.
      andthen (view_add recent_raw_bytes item_bytes) (\<lambda>next_raw_bytes.
      if next_raw_bytes > of_nat (rp_max_raw_bytes policy) then Ok (recent_start, recent_raw_bytes)
      else reduce_loop n policy rest (index, next_raw_bytes))))"

definition recent_tail :: "context_reduction_policy \<Rightarrow> string list \<Rightarrow> (usize \<times> u64) view_result" where
  "recent_tail policy texts = reduce_loop (length texts) policy (rev (enumerate 0 texts)) (length texts, 0)"

definition view_reduce :: "hasher \<Rightarrow> context_view \<Rightarrow> context_reduction_policy \<Rightarrow> reduced_context_view view_result" where
  "view_reduce sha256 w policy =
     andthen (recent_tail policy (map vi_text (cw_items w))) (\<lambda>(recent_start, recent_raw_bytes).
     andthen (try_map (artifact_from_item sha256) (take recent_start (cw_items w))) (\<lambda>artifacts.
     Ok \<lparr>rv_source = cw_source w, rv_artifacts = artifacts, rv_recent = drop recent_start (cw_items w),
         rv_raw_bytes = recent_raw_bytes, rv_tokens = cw_tokens w\<rparr>))"

definition resolve_artifact :: "hasher \<Rightarrow> context_view \<Rightarrow> context_artifact_ref \<Rightarrow> string view_result" where
  "resolve_artifact sha256 w artifact =
     andthen (ok_or (List.find (\<lambda>v. vi_item v = ar_item artifact) (cw_items w)) ArtifactMismatch) (\<lambda>v.
     andthen (view_len (length (vi_text v))) (\<lambda>byte_len.
     if vi_turn v \<noteq> ar_turn artifact \<or> vi_role v \<noteq> ar_role artifact \<or> vi_tokens v \<noteq> ar_tokens artifact
        \<or> byte_len \<noteq> ar_byte_len artifact \<or> sha256 (str_bytes (vi_text v)) \<noteq> ar_digest artifact
     then Err ArtifactMismatch else Ok (vi_text v)))"

text \<open>The two loops of \<open>ReducedContextView::from_stored\<close>.\<close>

definition stored_artifact :: "u64 \<times> u64 \<Rightarrow> context_artifact_ref \<Rightarrow> (u64 \<times> u64) view_result" where
  "stored_artifact acc artifact =
     (case acc of (last_item, estimated_tokens) \<Rightarrow>
        if ar_item artifact \<le> last_item then Err InvalidStoredView
        else map_ok (Pair (ar_item artifact)) (view_add estimated_tokens (ar_tokens artifact)))"

definition stored_recent :: "u64 \<times> u64 \<times> u64 \<Rightarrow> context_view_item \<Rightarrow> (u64 \<times> u64 \<times> u64) view_result" where
  "stored_recent acc v =
     (case acc of (last_item, raw_bytes, estimated_tokens) \<Rightarrow>
        if vi_item v \<le> last_item then Err InvalidStoredView
        else
        andthen (view_len (length (vi_text v))) (\<lambda>bytes.
        andthen (view_add raw_bytes bytes) (\<lambda>raw_bytes.
        andthen (view_add estimated_tokens (vi_tokens v)) (\<lambda>estimated_tokens.
        Ok (vi_item v, raw_bytes, estimated_tokens)))))"

definition reduced_from_stored ::
  "context_event_range \<Rightarrow> context_artifact_ref list \<Rightarrow> context_view_item list \<Rightarrow> reduced_context_view view_result" where
  "reduced_from_stored source artifacts recent_items =
     andthen (ok_or (usize_add (length artifacts) (length recent_items)) ViewOverflow) (\<lambda>item_count.
     if item_count > MAX_CONTEXT_VIEW_ITEMS then Err TooManyItems
     else
     andthen (try_fold stored_artifact (0, 0) artifacts) (\<lambda>(last_item, estimated_tokens).
     andthen (try_fold stored_recent (last_item, 0, estimated_tokens) recent_items) (\<lambda>(_, raw_bytes, estimated_tokens).
     if raw_bytes > of_nat MAX_CONTEXT_VIEW_BYTES then Err ViewTooLarge
     else Ok \<lparr>rv_source = source, rv_artifacts = artifacts, rv_recent = recent_items, rv_raw_bytes = raw_bytes,
              rv_tokens = estimated_tokens\<rparr>)))"

definition reduced_from_items ::
  "hasher \<Rightarrow> ledger_head \<Rightarrow> canonical_item list \<Rightarrow> context_reduction_policy \<Rightarrow> reduced_context_view view_result" where
  "reduced_from_items sha256 head items policy =
     (if length items > MAX_CONTEXT_VIEW_ITEMS then Err TooManyItems
      else
      andthen (recent_tail policy (map ci_text items)) (\<lambda>(recent_start, _).
      andthen (try_map (\<lambda>item. andthen (view_item item) (artifact_from_item sha256)) (take recent_start items)) (\<lambda>artifacts.
      andthen (try_map view_item (drop recent_start items)) (\<lambda>recent_items.
      reduced_from_stored (range_from_head head) artifacts recent_items))))"

section \<open>Requests\<close>

record context_request_view =
  qv_source :: context_event_range
  qv_archived :: u64
  qv_items :: "context_view_item list"
  qv_raw_bytes :: u64
  qv_tokens :: u64

text \<open>The loop that adds up the bytes and tokens of the visible items.\<close>

definition request_sum :: "u64 \<times> u64 \<Rightarrow> context_view_item \<Rightarrow> (u64 \<times> u64) view_result" where
  "request_sum acc v =
     (case acc of (raw_bytes, estimated_tokens) \<Rightarrow>
        andthen (view_len (length (vi_text v))) (\<lambda>bytes.
        andthen (view_add raw_bytes bytes) (\<lambda>raw_bytes.
        andthen (view_add estimated_tokens (vi_tokens v)) (\<lambda>estimated_tokens.
        Ok (raw_bytes, estimated_tokens)))))"

text \<open>\<open>items.iter().position(user).unwrap_or(items.len())\<close>\<close>

definition leading_assistant_items :: "context_view_item list \<Rightarrow> usize" where
  "leading_assistant_items items = length (takeWhile (\<lambda>v. vi_role v \<noteq> ViewUser) items)"

definition request_from_items :: "ledger_head \<Rightarrow> canonical_item list \<Rightarrow> context_request_view view_result" where
  "request_from_items head items =
     andthen (context_view_from_items head items) (\<lambda>w.
     let leading = leading_assistant_items (cw_items w); items = drop leading (cw_items w) in
     andthen (try_fold request_sum (0, 0) items) (\<lambda>(raw_bytes, estimated_tokens).
     andthen (view_len leading) (\<lambda>archived.
     Ok \<lparr>qv_source = cw_source w, qv_archived = archived, qv_items = items, qv_raw_bytes = raw_bytes,
         qv_tokens = estimated_tokens\<rparr>)))"

definition validate_against_items :: "hasher \<Rightarrow> reduced_context_view \<Rightarrow> canonical_item list \<Rightarrow> unit view_result" where
  "validate_against_items sha256 v authoritative =
     (if length (rv_artifacts v) + length (rv_recent v) \<noteq> length authoritative then Err ArtifactMismatch
      else
      andthen (try_each (\<lambda>(artifact, item).
          andthen (view_item item) (\<lambda>projected.
          andthen (artifact_from_item sha256 projected) (\<lambda>expected.
          if artifact \<noteq> expected then Err ArtifactMismatch else Ok ())))
        (zip (rv_artifacts v) authoritative)) (\<lambda>_.
      try_each (\<lambda>(stored, item).
          andthen (view_item item) (\<lambda>expected. if stored \<noteq> expected then Err ArtifactMismatch else Ok ()))
        (zip (rv_recent v) (drop (length (rv_artifacts v)) authoritative))))"

text \<open>\<open>recent.last().or_else(artifacts.last()).unwrap_or(0)\<close>, and the loop over the items after the checkpoint.\<close>

definition checkpoint_last :: "reduced_context_view \<Rightarrow> u64" where
  "checkpoint_last v =
     (if rv_recent v \<noteq> [] then vi_item (last (rv_recent v))
      else if rv_artifacts v \<noteq> [] then ar_item (last (rv_artifacts v)) else 0)"

definition materialize_push ::
  "u64 \<times> context_view_item list \<Rightarrow> canonical_item \<Rightarrow> (u64 \<times> context_view_item list) view_result" where
  "materialize_push acc item =
     (case acc of (last_item, items) \<Rightarrow>
        if nonzero_get (ci_id item) \<le> last_item then Err InvalidStoredView
        else map_ok (\<lambda>v. (vi_item v, items @ [v])) (view_item item))"

definition materialize_request ::
  "hasher \<Rightarrow> reduced_context_view \<Rightarrow> canonical_item list \<Rightarrow> context_request_view view_result" where
  "materialize_request sha256 v authoritative =
     (if length authoritative > MAX_CONTEXT_VIEW_ITEMS then Err TooManyItems
      else
      andthen (ok_or (usize_add (length (rv_artifacts v)) (length (rv_recent v))) ViewOverflow) (\<lambda>checkpoint_items.
      if checkpoint_items > length authoritative then Err ArtifactMismatch
      else
      andthen (validate_against_items sha256 v (take checkpoint_items authoritative)) (\<lambda>_.
      andthen (try_fold materialize_push (checkpoint_last v, rv_recent v) (drop checkpoint_items authoritative)) (\<lambda>(_, items).
      let leading = leading_assistant_items items; items = drop leading items in
      andthen (try_fold request_sum (0, 0) items) (\<lambda>(raw_bytes, estimated_tokens).
      if raw_bytes > of_nat MAX_CONTEXT_VIEW_BYTES then Err ViewTooLarge
      else
      andthen (ok_or (usize_add (length (rv_artifacts v)) leading) ViewOverflow) (\<lambda>archived.
      andthen (view_len archived) (\<lambda>archived.
      Ok \<lparr>qv_source = rv_source v, qv_archived = archived, qv_items = items, qv_raw_bytes = raw_bytes,
          qv_tokens = estimated_tokens\<rparr>)))))))"

section \<open>Pressure\<close>

datatype context_pressure_accuracy = PressureExact | PressureEstimated

datatype context_pressure_state = PressureNormal | PressureSoft | PressureHard | PressureUnknown

datatype context_admission_decision = AdmitAllow | AdmitReduce | AdmitStop | AdmitUnknown

datatype context_pressure_unknown_reason =
    MissingContextLimit | MissingUsedTokens | MissingOutputReserve | MissingAccuracy

datatype context_pressure_error = InvalidThresholds | InvalidContextLimit | PressureOverflow

record context_pressure_policy =
  pp_soft :: u8
  pp_hard :: u8

definition pressure_policy_new :: "u8 \<Rightarrow> u8 \<Rightarrow> (context_pressure_error, context_pressure_policy) result" where
  "pressure_policy_new soft_percent hard_percent =
     (if soft_percent = 0 \<or> soft_percent \<ge> hard_percent \<or> hard_percent > 100 then Err InvalidThresholds
      else Ok \<lparr>pp_soft = soft_percent, pp_hard = hard_percent\<rparr>)"

definition pressure_policy_default :: context_pressure_policy where
  "pressure_policy_default = \<lparr>pp_soft = DEFAULT_SOFT_PERCENT, pp_hard = DEFAULT_HARD_PERCENT\<rparr>"

record context_pressure_input =
  pi_limit :: "u64 option"
  pi_used :: "u64 option"
  pi_reserve :: "u64 option"
  pi_accuracy :: "context_pressure_accuracy option"

record context_pressure_snapshot =
  sn_limit :: "u64 option"
  sn_used :: "u64 option"
  sn_reserve :: "u64 option"
  sn_projected :: "u64 option"
  sn_occupancy :: "u8 option"
  sn_accuracy :: "context_pressure_accuracy option"
  sn_state :: context_pressure_state
  sn_admission :: context_admission_decision
  sn_unknown_reason :: "context_pressure_unknown_reason option"
  sn_soft :: u8
  sn_hard :: u8

definition pressure_unknown_reason :: "context_pressure_input \<Rightarrow> context_pressure_unknown_reason option" where
  "pressure_unknown_reason i =
     (if pi_limit i = None then Some MissingContextLimit
      else if pi_used i = None then Some MissingUsedTokens
      else if pi_reserve i = None then Some MissingOutputReserve
      else if pi_accuracy i = None then Some MissingAccuracy
      else None)"

text \<open>The arithmetic in \<open>u128\<close> is on numbers below \<open>2 ^ 72\<close>; it is on \<open>nat\<close> here.\<close>

definition pressure_project ::
  "context_pressure_input \<Rightarrow> context_pressure_policy \<Rightarrow> (context_pressure_error, context_pressure_snapshot) result" where
  "pressure_project i policy =
     (if pi_limit i = Some 0 then Err InvalidContextLimit
      else
      case pressure_unknown_reason i of
        Some reason \<Rightarrow> Ok \<lparr>sn_limit = pi_limit i, sn_used = pi_used i, sn_reserve = pi_reserve i, sn_projected = None,
          sn_occupancy = None, sn_accuracy = None, sn_state = PressureUnknown, sn_admission = AdmitUnknown,
          sn_unknown_reason = Some reason, sn_soft = pp_soft policy, sn_hard = pp_hard policy\<rparr>
      | None \<Rightarrow>
          let limit = the (pi_limit i); used = the (pi_used i); reserve = the (pi_reserve i);
              accuracy = the (pi_accuracy i) in
          andthen (ok_or (checked_add used reserve) PressureOverflow) (\<lambda>projected.
          let scaled = unat projected * 100;
              occupancy = of_nat (min (scaled div unat limit) 100);
              hard_boundary = unat limit * unat (pp_hard policy);
              soft_boundary = unat limit * unat (pp_soft policy);
              decision = (if scaled \<ge> hard_boundary then (PressureHard, AdmitStop)
                else if scaled \<ge> soft_boundary then (PressureSoft, AdmitReduce) else (PressureNormal, AdmitAllow)) in
          Ok \<lparr>sn_limit = Some limit, sn_used = Some used, sn_reserve = Some reserve, sn_projected = Some projected,
              sn_occupancy = Some occupancy, sn_accuracy = Some accuracy, sn_state = fst decision,
              sn_admission = snd decision, sn_unknown_reason = None, sn_soft = pp_soft policy, sn_hard = pp_hard policy\<rparr>))"

end
