(* ===== verification/Context_Laws.thy ===== *)
theory Context_Laws
  imports Context_View
begin

text \<open>
  Laws of context views: what the projection of an item is, what the loops over items keep, where the
  recent tail starts, and what a stored reduction accepts.
\<close>

section \<open>Lengths and sums\<close>

lemma unat_u64: "n < 2 ^ 64 \<Longrightarrow> unat (of_nat n :: u64) = n"
  by (simp add: unat_of_nat)

lemma word_of_unat: "unat r = n \<Longrightarrow> r = of_nat n" for r :: u64
  by auto

lemma view_len_Ok [result_ok]: "view_len n = Ok w \<longleftrightarrow> n < 2 ^ 64 \<and> w = of_nat n"
  by (simp add: view_len_def result_ok)

lemma view_add_Ok [result_ok]: "view_add a b = Ok c \<longleftrightarrow> unat a + unat b < 2 ^ 64 \<and> c = a + b"
  by (auto simp: view_add_def result_ok checked_add_Some_iff)

lemma view_add_unat: "view_add a b = Ok c \<Longrightarrow> unat c = unat a + unat b"
  by (simp add: view_add_def result_ok checked_add_SomeD)

lemma view_bytes_bound: "unat (of_nat MAX_CONTEXT_VIEW_BYTES :: u64) = MAX_CONTEXT_VIEW_BYTES"
  by (simp add: MAX_CONTEXT_VIEW_BYTES_def)

text \<open>The projection of an item as a plain function: it is the result whenever there is one.\<close>

definition item_view :: "canonical_item \<Rightarrow> context_view_item" where
  "item_view item =
     \<lparr>vi_item = nonzero_get (ci_id item), vi_turn = nonzero_get (ci_turn item), vi_role = view_role (ci_role item),
      vi_text = ci_text item, vi_tokens = max (of_nat ((chars_count (ci_text item) + 3) div 4)) 1\<rparr>"

lemma view_item_Ok [result_ok]: "view_item item = Ok v \<longleftrightarrow> chars_count (ci_text item) < 2 ^ 64 \<and> v = item_view item"
  by (auto simp: view_item_def item_view_def result_ok Let_def unat_u64)

definition item_artifact :: "hasher \<Rightarrow> context_view_item \<Rightarrow> context_artifact_ref" where
  "item_artifact sha256 v =
     \<lparr>ar_item = vi_item v, ar_turn = vi_turn v, ar_role = vi_role v, ar_byte_len = of_nat (length (vi_text v)),
      ar_tokens = vi_tokens v, ar_digest = sha256 (str_bytes (vi_text v))\<rparr>"

lemma artifact_from_item_Ok [result_ok]:
  "artifact_from_item sha256 v = Ok a \<longleftrightarrow> length (vi_text v) < 2 ^ 64 \<and> a = item_artifact sha256 v"
  by (auto simp: artifact_from_item_def item_artifact_def result_ok)

lemma item_view_simps [simp]:
  "vi_item (item_view i) = nonzero_get (ci_id i)" "vi_turn (item_view i) = nonzero_get (ci_turn i)"
  "vi_role (item_view i) = view_role (ci_role i)" "vi_text (item_view i) = ci_text i"
  by (simp_all add: item_view_def)

lemma item_artifact_simps [simp]:
  "ar_item (item_artifact h v) = vi_item v" "ar_turn (item_artifact h v) = vi_turn v"
  "ar_role (item_artifact h v) = vi_role v" "ar_tokens (item_artifact h v) = vi_tokens v"
  "ar_byte_len (item_artifact h v) = of_nat (length (vi_text v))"
  "ar_digest (item_artifact h v) = h (str_bytes (vi_text v))"
  by (simp_all add: item_artifact_def)

lemma view_role_inj: "view_role a = view_role b \<longleftrightarrow> a = b"
  by (cases a; cases b) simp_all

lemma try_map_Ok: "(\<And>x y. f x = Ok y \<longleftrightarrow> P x \<and> y = g x) \<Longrightarrow> try_map f xs = Ok ys \<longleftrightarrow> (\<forall>x \<in> set xs. P x) \<and> ys = map g xs"
  by (induction xs arbitrary: ys) (auto simp: result_ok)

lemma try_map_view_item: "try_map view_item items = Ok vs \<longleftrightarrow> (\<forall>i \<in> set items. chars_count (ci_text i) < 2 ^ 64) \<and> vs = map item_view items"
  by (rule try_map_Ok) (rule view_item_Ok)

lemma try_map_artifact:
  "try_map (artifact_from_item h) vs = Ok as \<longleftrightarrow> (\<forall>v \<in> set vs. length (vi_text v) < 2 ^ 64) \<and> as = map (item_artifact h) vs"
  by (rule try_map_Ok) (rule artifact_from_item_Ok)

section \<open>Views\<close>

text \<open>What a view is of the items it was made from.\<close>

definition bytes_of :: "context_view_item list \<Rightarrow> nat" where
  "bytes_of vs = (\<Sum>v\<leftarrow>vs. length (vi_text v))"

definition tokens_of :: "context_view_item list \<Rightarrow> nat" where
  "tokens_of vs = (\<Sum>v\<leftarrow>vs. unat (vi_tokens v))"

lemma bytes_of_simps [simp]:
  "bytes_of [] = 0" "bytes_of (v # vs) = length (vi_text v) + bytes_of vs" "bytes_of (us @ vs) = bytes_of us + bytes_of vs"
  by (simp_all add: bytes_of_def)

lemma tokens_of_simps [simp]:
  "tokens_of [] = 0" "tokens_of (v # vs) = unat (vi_tokens v) + tokens_of vs" "tokens_of (us @ vs) = tokens_of us + tokens_of vs"
  by (simp_all add: tokens_of_def)

lemma chars_count_le: "chars_count s \<le> length s"
  by (simp add: chars_count_def)

definition ordered_after :: "u64 \<Rightarrow> u64 list \<Rightarrow> bool" where
  "ordered_after n ids \<longleftrightarrow> sorted_wrt (<) (n # ids)"

lemma ordered_after_simps [simp]:
  "ordered_after n []" "ordered_after n (i # is) \<longleftrightarrow> n < i \<and> ordered_after i is"
  by (auto simp: ordered_after_def)

lemma ordered_after_append:
  "ordered_after n (is @ js) \<longleftrightarrow> ordered_after n is \<and> ordered_after (if is = [] then n else last is) js"
  by (induction "is" arbitrary: n) auto

text \<open>The fold of \<open>ContextView::from_items\<close>.\<close>

lemma view_push_Ok:
  "view_push (l, r, e, vs) item = Ok s \<longleftrightarrow>
     l < nonzero_get (ci_id item) \<and> length (ci_text item) < 2 ^ 64
     \<and> unat r + length (ci_text item) \<le> MAX_CONTEXT_VIEW_BYTES
     \<and> unat e + unat (vi_tokens (item_view item)) < 2 ^ 64
     \<and> s = (nonzero_get (ci_id item), r + of_nat (length (ci_text item)), e + vi_tokens (item_view item), vs @ [item_view item])"
  (is "?l = ?r")
proof -
  let ?n = "length (ci_text item)"
  have le: "chars_count (ci_text item) \<le> ?n" by (rule chars_count_le)
  have len: "unat (of_nat ?n :: u64) = ?n" if "?n < 2 ^ 64" using that by (simp add: unat_u64)
  have big: "r + of_nat ?n > (of_nat MAX_CONTEXT_VIEW_BYTES :: u64) \<longleftrightarrow> unat r + ?n > MAX_CONTEXT_VIEW_BYTES"
    if "unat r + unat (of_nat ?n :: u64) < 2 ^ 64" "?n < 2 ^ 64"
    using that len by (simp add: word_less_nat_alt view_bytes_bound unat_add_lem [THEN iffD1])
  have small: "unat r + ?n < 2 ^ 64" if "unat r + ?n \<le> MAX_CONTEXT_VIEW_BYTES"
    using that by (simp add: MAX_CONTEXT_VIEW_BYTES_def)
  show ?thesis
    unfolding view_push_def prod.case result_ok
    using le len big small by (auto simp: not_less not_le)
qed

lemma fold_view_push:
  "try_fold view_push (l, r, e, vs) items = Ok s \<Longrightarrow>
     \<exists>l' r' e'. s = (l', r', e', vs @ map item_view items) \<and> ordered_after l (map (nonzero_get \<circ> ci_id) items)
       \<and> unat r' = unat r + bytes_of (map item_view items) \<and> unat e' = unat e + tokens_of (map item_view items)
       \<and> (items \<noteq> [] \<longrightarrow> unat r' \<le> MAX_CONTEXT_VIEW_BYTES)"
proof (induction items arbitrary: l r e vs)
  case Nil
  then show ?case by auto
next
  case (Cons item items)
  from Cons.prems obtain t where t: "view_push (l, r, e, vs) item = Ok t" "try_fold view_push t items = Ok s"
    by (auto simp: result_ok)
  let ?n = "length (ci_text item)" and ?v = "item_view item"
  from t(1) have ok: "l < nonzero_get (ci_id item)" "?n < 2 ^ 64" "unat r + ?n \<le> MAX_CONTEXT_VIEW_BYTES"
    "unat e + unat (vi_tokens ?v) < 2 ^ 64"
    and t': "t = (nonzero_get (ci_id item), r + of_nat ?n, e + vi_tokens ?v, vs @ [?v])"
    by (auto simp: view_push_Ok)
  have r: "unat (r + of_nat ?n) = unat r + ?n"
  proof -
    have "unat r + unat (of_nat ?n :: u64) < 2 ^ 64"
      using ok(2,3) by (simp add: unat_u64 MAX_CONTEXT_VIEW_BYTES_def)
    then show ?thesis using ok(2) by (simp add: unat_add_lem [THEN iffD1] unat_u64)
  qed
  have e: "unat (e + vi_tokens ?v) = unat e + unat (vi_tokens ?v)"
    using ok(4) by (simp add: unat_add_lem [THEN iffD1])
  from Cons.IH [OF t(2) [unfolded t']] show ?case
    using ok r e by (cases items) (auto simp: comp_def)
qed

definition view_of :: "ledger_head \<Rightarrow> canonical_item list \<Rightarrow> context_view" where
  "view_of head items =
     \<lparr>cw_source = range_from_head head, cw_items = map item_view items,
      cw_raw_bytes = of_nat (bytes_of (map item_view items)), cw_tokens = of_nat (tokens_of (map item_view items))\<rparr>"

lemma context_view_OkD:
  assumes "context_view_from_items head items = Ok w"
  shows "w = view_of head items" and "length items \<le> MAX_CONTEXT_VIEW_ITEMS"
    and "ordered_after 0 (map (nonzero_get \<circ> ci_id) items)"
    and "bytes_of (map item_view items) \<le> MAX_CONTEXT_VIEW_BYTES" and "tokens_of (map item_view items) < 2 ^ 64"
proof -
  from assms obtain l r e vs where f: "try_fold view_push (0, 0, 0, []) items = Ok (l, r, e, vs)"
    and n: "length items \<le> MAX_CONTEXT_VIEW_ITEMS"
    and w: "w = \<lparr>cw_source = range_from_head head, cw_items = vs, cw_raw_bytes = r, cw_tokens = e\<rparr>"
    by (auto simp: context_view_from_items_def result_ok not_less)
  from fold_view_push [OF f] have vs: "vs = map item_view items"
    and o: "ordered_after 0 (map (nonzero_get \<circ> ci_id) items)"
    and r: "unat r = bytes_of (map item_view items)" and e: "unat e = tokens_of (map item_view items)"
    and b: "items \<noteq> [] \<longrightarrow> unat r \<le> MAX_CONTEXT_VIEW_BYTES" by auto
  show "w = view_of head items" by (simp add: w vs view_of_def flip: r e)
  show "length items \<le> MAX_CONTEXT_VIEW_ITEMS" by (rule n)
  show "ordered_after 0 (map (nonzero_get \<circ> ci_id) items)" by (rule o)
  show "bytes_of (map item_view items) \<le> MAX_CONTEXT_VIEW_BYTES" using b r by (cases items) auto
  show "tokens_of (map item_view items) < 2 ^ 64"
    unfolding e [symmetric] by (rule order_less_le_trans [OF unsigned_less]) simp
qed

section \<open>The recent tail\<close>

text \<open>
  The loop of \<open>reduce\<close> runs backwards over the positions; what it returns starts the longest tail within the
  policy that it can reach, and its bytes are those of the tail.
\<close>

definition text_bytes_from :: "string list \<Rightarrow> usize \<Rightarrow> nat" where
  "text_bytes_from texts i = (\<Sum>t\<leftarrow>drop i texts. length t)"

lemma text_bytes_from_nth: "i < length texts \<Longrightarrow> text_bytes_from texts i = length (texts ! i) + text_bytes_from texts (Suc i)"
  by (simp add: text_bytes_from_def flip: Cons_nth_drop_Suc)

lemma reduce_loop_bytes:
  assumes "reduce_loop n policy (rev (enumerate 0 (take k texts))) (k, r) = Ok (i, r')"
    and "k \<le> length texts" and "unat r = text_bytes_from texts k"
  shows "i \<le> k \<and> unat r' = text_bytes_from texts i"
  using assms
proof (induction k arbitrary: r)
  case (Suc k)
  have k: "k < length texts" using Suc.prems(2) by simp
  have split: "rev (enumerate 0 (take (Suc k) texts)) = (k, texts ! k) # rev (enumerate 0 (take k texts))"
    using k by (simp add: take_Suc_conv_app_nth enumerate_append_eq)
  show ?case
  proof (cases "i = Suc k \<and> r' = r")
    case False
    let ?n = "length (texts ! k)"
    from Suc.prems(1) False obtain b where b: "?n < 2 ^ 64" "view_add r (of_nat ?n) = Ok b"
      and rest: "reduce_loop n policy (rev (enumerate 0 (take k texts))) (k, b) = Ok (i, r')"
      by (auto simp: split result_ok split: if_splits)
    have "unat b = text_bytes_from texts k"
      using view_add_unat [OF b(2)] b(1) Suc.prems(3) by (simp add: unat_u64 text_bytes_from_nth [OF k])
    from Suc.IH [OF rest _ this] k show ?thesis by simp
  qed (use Suc.prems in simp)
qed simp

lemma recent_tail_bytes:
  assumes "recent_tail policy texts = Ok (i, r)"
  shows "unat r = text_bytes_from texts i" and "i \<le> length texts"
proof -
  have "reduce_loop (length texts) policy (rev (enumerate 0 (take (length texts) texts))) (length texts, 0) = Ok (i, r)"
    using assms by (simp add: recent_tail_def)
  from reduce_loop_bytes [OF this] show "unat r = text_bytes_from texts i" "i \<le> length texts"
    by (simp_all add: text_bytes_from_def)
qed

definition within_policy :: "context_reduction_policy \<Rightarrow> string list \<Rightarrow> usize \<Rightarrow> bool" where
  "within_policy policy texts i \<longleftrightarrow>
     length texts - i \<le> rp_max_raw_items policy \<and> text_bytes_from texts i \<le> rp_max_raw_bytes policy"

lemma reduce_loop_Ok:
  assumes "reduce_loop (length texts) policy (rev (enumerate 0 (take k texts))) (k, r) = Ok (i, r')"
    and "k \<le> length texts" and "unat r = text_bytes_from texts k" and "within_policy policy texts k"
    and "rp_max_raw_bytes policy < 2 ^ 64"
  shows "within_policy policy texts i \<and> (i > 0 \<longrightarrow> \<not> within_policy policy texts (i - 1))"
  using assms
proof (induction k arbitrary: r)
  case 0
  then show ?case by simp
next
  case (Suc k)
  have k: "k < length texts" using Suc.prems(2) by simp
  have split: "rev (enumerate 0 (take (Suc k) texts)) = (k, texts ! k) # rev (enumerate 0 (take k texts))"
    using k by (simp add: take_Suc_conv_app_nth enumerate_append_eq)
  show ?case
  proof (cases "length texts - k > rp_max_raw_items policy")
    case True
    then have "i = Suc k" "r' = r" using Suc.prems(1) by (simp_all add: split)
    then show ?thesis using True Suc.prems(3,4) by (simp add: within_policy_def)
  next
    case False
    let ?n = "length (texts ! k)"
    from Suc.prems(1) False obtain b where b: "?n < 2 ^ 64" "view_add r (of_nat ?n) = Ok b"
      and rest: "(if b > of_nat (rp_max_raw_bytes policy) then Ok (Suc k, r)
        else reduce_loop (length texts) policy (rev (enumerate 0 (take k texts))) (k, b)) = Ok (i, r')"
      by (auto simp: split result_ok)
    have ub: "unat b = text_bytes_from texts k"
      using view_add_unat [OF b(2)] b(1) Suc.prems(3) by (simp add: unat_u64 text_bytes_from_nth [OF k])
    have cmp: "b > of_nat (rp_max_raw_bytes policy) \<longleftrightarrow> text_bytes_from texts k > rp_max_raw_bytes policy"
      using Suc.prems(5) by (simp add: word_less_nat_alt unat_u64 ub)
    show ?thesis
    proof (cases "b > of_nat (rp_max_raw_bytes policy)")
      case True
      then have "i = Suc k" "r' = r" using rest by simp_all
      then show ?thesis using True Suc.prems(3,4) cmp by (simp add: within_policy_def)
    next
      case over: False
      then have w: "within_policy policy texts k" using cmp False by (simp add: within_policy_def)
      from over rest have "reduce_loop (length texts) policy (rev (enumerate 0 (take k texts))) (k, b) = Ok (i, r')" by simp
      from Suc.IH [OF this _ ub w Suc.prems(5)] k show ?thesis by simp
    qed
  qed
qed

definition policy_ok :: "context_reduction_policy \<Rightarrow> bool" where
  "policy_ok p \<longleftrightarrow> reduction_policy_new (rp_max_raw_bytes p) (rp_max_raw_items p) = Ok p"

lemma policy_ok_bytes: "policy_ok p \<Longrightarrow> rp_max_raw_bytes p < 2 ^ 64"
  by (auto simp: policy_ok_def reduction_policy_new_def MAX_CONTEXT_VIEW_BYTES_def split: if_splits)

lemma recent_tail_Ok:
  assumes "recent_tail policy texts = Ok (i, r)" and "rp_max_raw_bytes policy < 2 ^ 64"
  shows "within_policy policy texts i" and "i > 0 \<Longrightarrow> \<not> within_policy policy texts (i - 1)"
proof -
  have "reduce_loop (length texts) policy (rev (enumerate 0 (take (length texts) texts))) (length texts, 0) = Ok (i, r)"
    using assms(1) by (simp add: recent_tail_def)
  from reduce_loop_Ok [OF this _ _ _ assms(2)]
  show "within_policy policy texts i" "i > 0 \<Longrightarrow> \<not> within_policy policy texts (i - 1)"
    by (simp_all add: text_bytes_from_def within_policy_def)
qed

section \<open>Stored reductions\<close>

lemma tokens_of_append_le: "tokens_of vs \<le> tokens_of (us @ vs)" by simp

lemma unat_plus_u64: "unat a + unat b < 2 ^ 64 \<Longrightarrow> unat (a + b) = unat a + unat b" for a b :: u64
  by (simp add: unat_add_lem [THEN iffD1])

lemma fold_stored_artifact:
  assumes "ordered_after l (map vi_item vs)" and "unat e + tokens_of vs < 2 ^ 64"
  shows "\<exists>e'. try_fold stored_artifact (l, e) (map (item_artifact h) vs)
      = Ok (if vs = [] then l else vi_item (last vs), e') \<and> unat e' = unat e + tokens_of vs"
  using assms
proof (induction vs arbitrary: l e)
  case Nil
  then show ?case by simp
next
  case (Cons v vs)
  then have "unat e + unat (vi_tokens v) < 2 ^ 64" by simp
  then have add: "view_add e (vi_tokens v) = Ok (e + vi_tokens v)" "unat (e + vi_tokens v) = unat e + unat (vi_tokens v)"
    by (simp_all add: result_ok unat_plus_u64)
  from Cons.IH [of "vi_item v" "e + vi_tokens v"] Cons.prems add show ?case
    by (auto simp: stored_artifact_def not_le)
qed

lemma fold_stored_recent:
  assumes "ordered_after l (map vi_item vs)" and "unat e + tokens_of vs < 2 ^ 64" and "unat r + bytes_of vs < 2 ^ 64"
  shows "\<exists>l' r' e'. try_fold stored_recent (l, r, e) vs = Ok (l', r', e')
      \<and> unat r' = unat r + bytes_of vs \<and> unat e' = unat e + tokens_of vs"
  using assms
proof (induction vs arbitrary: l r e)
  case Nil
  then show ?case by simp
next
  case (Cons v vs)
  let ?n = "length (vi_text v)"
  from Cons.prems have len: "view_len ?n = Ok (of_nat ?n)" "unat (of_nat ?n :: u64) = ?n"
    by (simp_all add: result_ok unat_u64)
  from Cons.prems have "unat r + unat (of_nat ?n :: u64) < 2 ^ 64" "unat e + unat (vi_tokens v) < 2 ^ 64"
    by (simp_all add: len)
  then have add: "view_add r (of_nat ?n) = Ok (r + of_nat ?n)" "unat (r + of_nat ?n) = unat r + ?n"
    "view_add e (vi_tokens v) = Ok (e + vi_tokens v)" "unat (e + vi_tokens v) = unat e + unat (vi_tokens v)"
    by (simp_all add: result_ok unat_plus_u64 len)
  from Cons.IH [of "vi_item v" "e + vi_tokens v" "r + of_nat ?n"] Cons.prems len add show ?case
    by (auto simp: stored_recent_def not_le)
qed

lemma fold_request_sum:
  assumes "unat e + tokens_of vs < 2 ^ 64" and "unat r + bytes_of vs < 2 ^ 64"
  shows "\<exists>r' e'. try_fold request_sum (r, e) vs = Ok (r', e')
      \<and> unat r' = unat r + bytes_of vs \<and> unat e' = unat e + tokens_of vs"
  using assms
proof (induction vs arbitrary: r e)
  case Nil
  then show ?case by simp
next
  case (Cons v vs)
  let ?n = "length (vi_text v)"
  from Cons.prems have len: "view_len ?n = Ok (of_nat ?n)" "unat (of_nat ?n :: u64) = ?n"
    by (simp_all add: result_ok unat_u64)
  from Cons.prems have "unat r + unat (of_nat ?n :: u64) < 2 ^ 64" "unat e + unat (vi_tokens v) < 2 ^ 64"
    by (simp_all add: len)
  then have add: "view_add r (of_nat ?n) = Ok (r + of_nat ?n)" "unat (r + of_nat ?n) = unat r + ?n"
    "view_add e (vi_tokens v) = Ok (e + vi_tokens v)" "unat (e + vi_tokens v) = unat e + unat (vi_tokens v)"
    by (simp_all add: result_ok unat_plus_u64 len)
  from Cons.IH [of "e + vi_tokens v" "r + of_nat ?n"] Cons.prems len add show ?case
    by (auto simp: request_sum_def)
qed

lemma fold_materialize_push:
  assumes "ordered_after l (map (nonzero_get \<circ> ci_id) items)" and "\<forall>i \<in> set items. chars_count (ci_text i) < 2 ^ 64"
  shows "\<exists>l'. try_fold materialize_push (l, vs) items = Ok (l', vs @ map item_view items)"
  using assms
proof (induction items arbitrary: l vs)
  case Nil
  then show ?case by simp
next
  case (Cons item items)
  then have "view_item item = Ok (item_view item)" by (simp add: result_ok)
  moreover from Cons.prems have "nonzero_get (ci_id item) > l" by simp
  ultimately have "materialize_push (l, vs) item = Ok (nonzero_get (ci_id item), vs @ [item_view item])"
    by (simp add: materialize_push_def)
  then show ?case using Cons.IH [of "nonzero_get (ci_id item)" "vs @ [item_view item]"] Cons.prems by simp
qed

lemma reduced_from_stored_OkD:
  assumes "reduced_from_stored source as vs = Ok v"
  shows "rv_source v = source" "rv_artifacts v = as" "rv_recent v = vs" "length as + length vs \<le> MAX_CONTEXT_VIEW_ITEMS"
  using assms usize_add_SomeD by (auto simp: reduced_from_stored_def result_ok not_less split: prod.splits)

lemma reduced_from_items_OkD:
  assumes "reduced_from_items h head items policy = Ok v"
  obtains i r where "recent_tail policy (map ci_text items) = Ok (i, r)"
    "rv_source v = range_from_head head" "rv_artifacts v = map (item_artifact h) (map item_view (take i items))"
    "rv_recent v = map item_view (drop i items)"
proof -
  have art: "try_map (\<lambda>item. andthen (view_item item) (artifact_from_item h)) xs = Ok as
      \<Longrightarrow> as = map (\<lambda>x. item_artifact h (item_view x)) xs" for xs as
    by (induction xs arbitrary: as) (auto simp: result_ok)
  from assms obtain i r as vs where t: "recent_tail policy (map ci_text items) = Ok (i, r)"
    and a: "try_map (\<lambda>item. andthen (view_item item) (artifact_from_item h)) (take i items) = Ok as"
    and w: "try_map view_item (drop i items) = Ok vs"
    and s: "reduced_from_stored (range_from_head head) as vs = Ok v"
    by (auto simp: reduced_from_items_def andthen_eq_Ok if_Err_eq_Ok)
  show thesis
    using that [OF t] reduced_from_stored_OkD [OF s] art [OF a] w by (simp add: try_map_view_item)
qed

section \<open>Validation against the items\<close>

lemma try_each_zip:
  assumes "length xs \<le> length ys"
  shows "try_each (\<lambda>(x, y). f x y) (zip xs ys) = Ok u \<longleftrightarrow> (\<forall>j < length xs. f (xs ! j) (ys ! j) = Ok ())"
proof -
  have "(\<forall>p \<in> set (zip xs ys). (case p of (x, y) \<Rightarrow> f x y) = Ok ()) \<longleftrightarrow> (\<forall>j < length (zip xs ys). (case zip xs ys ! j of (x, y) \<Rightarrow> f x y) = Ok ())"
    unfolding all_set_conv_all_nth ..
  then show ?thesis using assms by (simp add: result_ok)
qed

lemma validate_against_items_Ok:
  "validate_against_items h v items = Ok u \<longleftrightarrow>
     length (rv_artifacts v) + length (rv_recent v) = length items
     \<and> (\<forall>j < length (rv_artifacts v). chars_count (ci_text (items ! j)) < 2 ^ 64 \<and> length (ci_text (items ! j)) < 2 ^ 64
          \<and> rv_artifacts v ! j = item_artifact h (item_view (items ! j)))
     \<and> (\<forall>j < length (rv_recent v). chars_count (ci_text (items ! (length (rv_artifacts v) + j))) < 2 ^ 64
          \<and> rv_recent v ! j = item_view (items ! (length (rv_artifacts v) + j)))"
proof (cases "length (rv_artifacts v) + length (rv_recent v) = length items")
  case True
  let ?n = "length (rv_artifacts v)"
  from True have l: "length (rv_artifacts v) \<le> length items" "length (rv_recent v) \<le> length (drop ?n items)" by simp_all
  have nth: "drop ?n items ! j = items ! (?n + j)" for j using True by simp
  show ?thesis
    unfolding validate_against_items_def if_Err_eq_Ok andthen_eq_Ok try_each_zip [OF l(1)] try_each_zip [OF l(2)] nth
    using True by (auto simp: result_ok)
qed (simp add: validate_against_items_def)

lemma item_view_eq: "item_view a = item_view b \<longleftrightarrow> a = b"
proof
  assume eq: "item_view a = item_view b"
  have "ci_id a = ci_id b" "ci_turn a = ci_turn b" "ci_role a = ci_role b" "ci_text a = ci_text b"
    using arg_cong [OF eq, of vi_item] arg_cong [OF eq, of vi_turn] arg_cong [OF eq, of vi_role] arg_cong [OF eq, of vi_text]
    by (simp_all add: nonzero_id.expand view_role_inj)
  then show "a = b" by simp
qed simp

lemma leading_assistant_drop:
  "drop (leading_assistant_items vs) vs = dropWhile (\<lambda>v. vi_role v \<noteq> ViewUser) vs"
  by (simp add: leading_assistant_items_def dropWhile_eq_drop)

end
