(* ===== verification/Context_Claims.thy ===== *)
theory Context_Claims
  imports Context_Laws
begin

text \<open>
  The properties of context views, reductions and pressure (\<open>greentyper-core/src/context.rs\<close>).
\<close>

section \<open>The two reductions\<close>

lemma bytes_from_view: "text_bytes_from (map ci_text items) i = bytes_of (map item_view (drop i items))"
  by (simp add: text_bytes_from_def bytes_of_def drop_map comp_def)

lemma view_texts: "map vi_text (map item_view items) = map ci_text items"
  by simp

lemma part_lengths:
  assumes "bytes_of (map item_view items) \<le> MAX_CONTEXT_VIEW_BYTES" "x \<in> set items"
  shows "length (ci_text x) \<le> MAX_CONTEXT_VIEW_BYTES"
proof -
  from assms(2) have "length (ci_text x) \<in> set (map (\<lambda>v. length (vi_text v)) (map item_view items))" by auto
  then have "length (ci_text x) \<le> bytes_of (map item_view items)"
    unfolding bytes_of_def by (rule member_le_sum_list) simp_all
  with assms(1) show ?thesis by simp
qed

lemma view_parts:
  assumes "context_view_from_items head items = Ok w"
  shows "\<forall>x \<in> set items. chars_count (ci_text x) < 2 ^ 64 \<and> length (ci_text x) < 2 ^ 64"
proof
  fix x assume "x \<in> set items"
  from part_lengths [OF context_view_OkD(4) [OF assms] this] chars_count_le [of "ci_text x"]
  show "chars_count (ci_text x) < 2 ^ 64 \<and> length (ci_text x) < 2 ^ 64" by (simp add: MAX_CONTEXT_VIEW_BYTES_def)
qed

lemma item_ids_view: "map vi_item (map item_view items) = map (nonzero_get \<circ> ci_id) items"
  by simp

lemma last_view: "vs \<noteq> [] \<Longrightarrow> vi_item (last vs) = last (map vi_item vs)"
  by (simp add: last_map)

text \<open>What \<open>from_stored\<close> makes of the two parts of a view.\<close>

lemma reduced_from_stored_parts:
  assumes n: "length (us @ vs) \<le> MAX_CONTEXT_VIEW_ITEMS" and o: "ordered_after 0 (map vi_item (us @ vs))"
    and b: "bytes_of vs \<le> MAX_CONTEXT_VIEW_BYTES" and t: "tokens_of (us @ vs) < 2 ^ 64"
  shows "reduced_from_stored source (map (item_artifact h) us) vs =
    Ok \<lparr>rv_source = source, rv_artifacts = map (item_artifact h) us, rv_recent = vs, rv_raw_bytes = of_nat (bytes_of vs),
        rv_tokens = of_nat (tokens_of (us @ vs))\<rparr>"
proof -
  define l where "l = (if us = [] then 0 else vi_item (last us))"
  from o have o1: "ordered_after 0 (map vi_item us)" and o2: "ordered_after l (map vi_item vs)"
    by (auto simp: ordered_after_append l_def last_map)
  from fold_stored_artifact [OF o1, of 0 h] t obtain e where e: "unat e = tokens_of us"
    and f1: "try_fold stored_artifact (0, 0) (map (item_artifact h) us) = Ok (l, e)" by (auto simp: l_def)
  have "bytes_of vs < 2 ^ 64" using b by (simp add: MAX_CONTEXT_VIEW_BYTES_def)
  with fold_stored_recent [OF o2, of e 0] e t obtain l' r e'
    where r: "unat r = bytes_of vs" and e': "unat e' = tokens_of (us @ vs)"
      and f2: "try_fold stored_recent (l, 0, e) vs = Ok (l', r, e')" by auto
  have "usize_add (length us) (length vs) = Some (length us + length vs)"
    using n by (simp add: usize_add_def MAX_CONTEXT_VIEW_ITEMS_def)
  moreover have "\<not> r > of_nat MAX_CONTEXT_VIEW_BYTES" using b by (simp add: word_less_nat_alt view_bytes_bound r)
  ultimately show ?thesis using n f1 f2
    by (simp add: reduced_from_stored_def word_of_unat [OF r] word_of_unat [OF e'])
qed

text \<open>There are two ways to a reduction: projecting all items and reducing the
  projection, or the direct one, which never keeps the texts of the archived items.  Whenever the projection is
  within its bounds, they return the same reduction, with the same counts and totals, for every policy.
\<close>

theorem reductions_agree:
  assumes "context_view_from_items head items = Ok w"
  shows "view_reduce sha256 w policy = reduced_from_items sha256 head items policy"
proof -
  note w = context_view_OkD [OF assms] and parts = view_parts [OF assms]
  let ?tail = "recent_tail policy (map ci_text items)"
  have tail: "recent_tail policy (map vi_text (cw_items w)) = ?tail" by (simp add: w(1) view_of_def comp_def)
  show ?thesis
  proof (cases ?tail)
    case (Ok p)
    obtain i r where p: "p = (i, r)" by (cases p)
    let ?us = "map item_view (take i items)" and ?vs = "map item_view (drop i items)"
    have all: "?us @ ?vs = map item_view items" by (simp flip: map_append)
    have b: "bytes_of ?vs \<le> MAX_CONTEXT_VIEW_BYTES" using w(4) unfolding all [symmetric] by simp
    have "\<forall>x \<in> set (take i items). chars_count (ci_text x) < 2 ^ 64 \<and> length (ci_text x) < 2 ^ 64"
      using parts by (auto dest: in_set_takeD)
    then have a: "try_map (\<lambda>item. andthen (view_item item) (artifact_from_item sha256)) (take i items)
        = Ok (map (item_artifact sha256) ?us)"
      and a': "try_map (artifact_from_item sha256) ?us = Ok (map (item_artifact sha256) ?us)"
      by (simp_all add: result_ok list_all2_map1 list_all2_map2 list.rel_refl_strong try_map_artifact)
    have v: "try_map view_item (drop i items) = Ok ?vs"
      using parts by (auto simp: try_map_view_item dest: in_set_dropD)
    have "reduced_from_items sha256 head items policy = reduced_from_stored (range_from_head head) (map (item_artifact sha256) ?us) ?vs"
      using w(2) by (simp add: reduced_from_items_def Ok p a v)
    also have "\<dots> = Ok \<lparr>rv_source = range_from_head head, rv_artifacts = map (item_artifact sha256) ?us, rv_recent = ?vs,
        rv_raw_bytes = of_nat (bytes_of ?vs), rv_tokens = of_nat (tokens_of (?us @ ?vs))\<rparr>"
      by (rule reduced_from_stored_parts) (use w(2,3,5) b in \<open>simp_all add: all comp_def\<close>)
    also have "of_nat (bytes_of ?vs) = r"
    proof -
      have "unat r = text_bytes_from (map ci_text items) i"
        using recent_tail_bytes Ok p by blast
      from word_of_unat [OF this] show ?thesis by (simp add: bytes_from_view)
    qed
    also have "Ok \<lparr>rv_source = range_from_head head, rv_artifacts = map (item_artifact sha256) ?us, rv_recent = ?vs,
        rv_raw_bytes = r, rv_tokens = of_nat (tokens_of (?us @ ?vs))\<rparr> = view_reduce sha256 w policy"
      unfolding view_reduce_def tail Ok p by (simp add: w(1) view_of_def take_map drop_map a' all)
    finally show ?thesis by simp
  qed (use w(2) in \<open>simp_all add: view_reduce_def tail reduced_from_items_def\<close>)
qed

section \<open>Requests from a checkpoint\<close>

lemma dropWhile_suffix: "\<exists>us. dropWhile P (xs @ ys) = us @ dropWhile P ys"
proof (cases "\<forall>x \<in> set xs. P x")
  case True
  then show ?thesis by (simp add: dropWhile_append2)
next
  case False
  then obtain x where "x \<in> set xs" "\<not> P x" by blast
  then have "dropWhile P (xs @ ys) = (dropWhile P xs @ takeWhile P ys) @ dropWhile P ys"
    by (simp add: dropWhile_append1)
  then show ?thesis by blast
qed

lemma request_OkD:
  assumes "request_from_items head items = Ok q"
  obtains w where "context_view_from_items head items = Ok w"
    "qv_items q = dropWhile (\<lambda>v. vi_role v \<noteq> ViewUser) (map item_view items)"
proof -
  from assms obtain w where w: "context_view_from_items head items = Ok w"
    and "qv_items q = drop (leading_assistant_items (cw_items w)) (cw_items w)"
    by (auto simp: request_from_items_def result_ok Let_def)
  then show thesis using that [OF w] context_view_OkD(1) [OF w] by (simp add: leading_assistant_drop view_of_def)
qed

text \<open>A reduction made from items is valid for them.\<close>

lemma reduced_valid:
  assumes "reduced_from_items h head items policy = Ok v"
    and "\<forall>x \<in> set items. chars_count (ci_text x) < 2 ^ 64 \<and> length (ci_text x) < 2 ^ 64"
  shows "length (rv_artifacts v) + length (rv_recent v) = length items" and "validate_against_items h v items = Ok ()"
proof -
  from assms(1) obtain i r where t: "recent_tail policy (map ci_text items) = Ok (i, r)"
    and v: "rv_artifacts v = map (item_artifact h) (map item_view (take i items))" "rv_recent v = map item_view (drop i items)"
    by (rule reduced_from_items_OkD)
  have i: "i \<le> length items" using recent_tail_bytes(2) [OF t] by simp
  then show "length (rv_artifacts v) + length (rv_recent v) = length items" by (simp add: v)
  show "validate_against_items h v items = Ok ()"
    using i assms(2) by (auto simp: validate_against_items_Ok v)
qed

text \<open>The last item of a checkpoint is the last item it covers.\<close>

lemma checkpoint_last_is_last:
  assumes "reduced_from_items h head items policy = Ok v"
  shows "checkpoint_last v = (if items = [] then 0 else nonzero_get (ci_id (last items)))"
proof -
  from assms obtain i r where t: "recent_tail policy (map ci_text items) = Ok (i, r)"
    and v: "rv_artifacts v = map (item_artifact h) (map item_view (take i items))" "rv_recent v = map item_view (drop i items)"
    by (rule reduced_from_items_OkD)
  have i: "i \<le> length items" using recent_tail_bytes(2) [OF t] by simp
  show ?thesis
  proof (cases "i < length items")
    case True
    then show ?thesis by (auto simp: checkpoint_last_def v last_map last_drop)
  next
    case False
    with i show ?thesis by (auto simp: checkpoint_last_def v last_map)
  qed
qed

text \<open>C37 (roundtrip).  A checkpoint of a conversation serves every later request: when the
  conversation has grown by more items and still fits a request, the request made from the checkpoint exists.
  Its items are the recent items of the checkpoint and the new ones, from the first user message on; they are a
  tail of the request made without a checkpoint, and with the archived count they account for every item.
\<close>

theorem checkpoints_materialize:
  assumes v: "reduced_from_items sha256 head items policy = Ok v"
    and full: "request_from_items head' (items @ later) = Ok full"
  shows "\<exists>q. materialize_request sha256 v (items @ later) = Ok q
    \<and> qv_items q = dropWhile (\<lambda>x. vi_role x \<noteq> ViewUser) (rv_recent v @ map item_view later)
    \<and> (\<exists>older. qv_items full = older @ qv_items q)
    \<and> unat (qv_archived q) + length (qv_items q) = length (items @ later)
    \<and> unat (qv_raw_bytes q) = bytes_of (qv_items q) \<and> unat (qv_tokens q) = tokens_of (qv_items q)"
proof -
  from full obtain w where w: "context_view_from_items head' (items @ later) = Ok w"
    and fi: "qv_items full = dropWhile (\<lambda>v. vi_role v \<noteq> ViewUser) (map item_view (items @ later))" by (rule request_OkD)
  note view = context_view_OkD [OF w] and parts = view_parts [OF w]
  from v obtain i r where t: "recent_tail policy (map ci_text items) = Ok (i, r)"
    and va: "rv_artifacts v = map (item_artifact sha256) (map item_view (take i items))"
    and vr: "rv_recent v = map item_view (drop i items)"
    by (rule reduced_from_items_OkD)
  have i: "i \<le> length items" using recent_tail_bytes(2) [OF t] by simp
  have "\<forall>x \<in> set items. chars_count (ci_text x) < 2 ^ 64 \<and> length (ci_text x) < 2 ^ 64" using parts by simp
  note valid = reduced_valid [OF v this]
  have n: "length (items @ later) < 2 ^ 64" using view(2) by (simp add: MAX_CONTEXT_VIEW_ITEMS_def)
  have cp: "usize_add (length (rv_artifacts v)) (length (rv_recent v)) = Some (length items)"
    using n valid(1) by (simp add: usize_add_def)
  have "ordered_after (checkpoint_last v) (map (nonzero_get \<circ> ci_id) later)"
    using view(3) by (auto simp: checkpoint_last_is_last [OF v] ordered_after_append last_map)
  with fold_materialize_push [of "checkpoint_last v" later "rv_recent v"] parts obtain l
    where push: "try_fold materialize_push (checkpoint_last v, rv_recent v) later = Ok (l, rv_recent v @ map item_view later)"
    by auto
  have la: "length (rv_artifacts v) = i" using i by (simp add: va)
  let ?all = "rv_recent v @ map item_view later"
  let ?n = "leading_assistant_items ?all" and ?items = "dropWhile (\<lambda>x. vi_role x \<noteq> ViewUser) ?all"
  have whole: "map item_view (items @ later) = map item_view (take i items) @ ?all"
    by (metis append.assoc append_take_drop_id map_append vr)
  have items: "?all = take ?n ?all @ ?items"
    by (simp only: leading_assistant_drop [symmetric] append_take_drop_id)
  have len: "?n + length ?items = length ?all"
    by (metis leading_assistant_items_def length_append takeWhile_dropWhile_id)
  have "bytes_of ?all = bytes_of (take ?n ?all) + bytes_of ?items" "tokens_of ?all = tokens_of (take ?n ?all) + tokens_of ?items"
    by (subst items, simp only: bytes_of_simps tokens_of_simps)+
  with view(4,5) have b: "bytes_of ?items \<le> MAX_CONTEXT_VIEW_BYTES" "tokens_of ?items < 2 ^ 64"
    unfolding whole bytes_of_simps(3) tokens_of_simps(3) by linarith+
  then have "bytes_of ?items < 2 ^ 64" by (simp add: MAX_CONTEXT_VIEW_BYTES_def)
  with fold_request_sum [of 0 ?items 0] b obtain r' e' where r': "unat r' = bytes_of ?items" "unat e' = tokens_of ?items"
    and sums: "try_fold request_sum (0, 0) ?items = Ok (r', e')" by auto
  have total: "i + length ?all = length (items @ later)" using i by (simp add: vr)
  have arch: "usize_add i ?n = Some (i + ?n)" "view_len (i + ?n) = Ok (of_nat (i + ?n))"
    using n len total by (simp_all add: usize_add_def result_ok)
  have later: "drop (length items) (items @ later) = later" by simp
  let ?q = "\<lparr>qv_source = rv_source v, qv_archived = of_nat (i + ?n), qv_items = ?items, qv_raw_bytes = r', qv_tokens = e'\<rparr>"
  have "materialize_request sha256 v (items @ later) = Ok ?q"
    using view(2) b(1)
    by (simp add: materialize_request_def cp [unfolded la] valid(2) push later Let_def leading_assistant_drop sums la arch word_less_nat_alt
        view_bytes_bound r' del: of_nat_add dropWhile_append3 drop_append)
  moreover have "unat (of_nat (i + ?n) :: u64) + length ?items = length (items @ later)"
    using n len total by (subst unat_u64) linarith+
  moreover have "\<exists>older. qv_items full = older @ ?items" unfolding fi whole by (rule dropWhile_suffix)
  ultimately show ?thesis using r'
    by (intro exI [of _ ?q] conjI) (simp_all only: context_request_view.select_convs)
qed

text \<open>C38 (safety).  A checkpoint serves no other history: when a request is made from a
  checkpoint of some items, the conversation it is made for begins with exactly those items, unless two different
  texts with the same SHA-256 digest are known, one of them in each.
\<close>

theorem altered_history_is_refused:
  assumes v: "reduced_from_items sha256 head items policy = Ok v"
    and q: "materialize_request sha256 v authoritative = Ok q"
  shows "take (length items) authoritative = items
    \<or> (\<exists>a \<in> set authoritative. \<exists>b \<in> set items. ci_text a \<noteq> ci_text b \<and> sha256 (str_bytes (ci_text a)) = sha256 (str_bytes (ci_text b)))"
proof (rule disjCI)
  assume no: "\<not> (\<exists>a \<in> set authoritative. \<exists>b \<in> set items. ci_text a \<noteq> ci_text b
    \<and> sha256 (str_bytes (ci_text a)) = sha256 (str_bytes (ci_text b)))"
  from v obtain i r where t: "recent_tail policy (map ci_text items) = Ok (i, r)"
    and va: "rv_artifacts v = map (item_artifact sha256) (map item_view (take i items))"
    and vr: "rv_recent v = map item_view (drop i items)"
    by (rule reduced_from_items_OkD)
  have i: "i \<le> length items" using recent_tail_bytes(2) [OF t] by simp
  then have n: "length (rv_artifacts v) = i" "length (rv_recent v) = length items - i" by (simp_all add: va vr)
  from q have le: "length items \<le> length authoritative" and val: "validate_against_items sha256 v (take (length items) authoritative) = Ok ()"
    using i usize_add_SomeD by (fastforce simp: materialize_request_def result_ok n)+
  have old: "authoritative ! j = items ! j" if "j < i" for j
  proof -
    let ?a = "authoritative ! j" and ?b = "items ! j"
    have eq: "item_artifact sha256 (item_view ?a) = item_artifact sha256 (item_view ?b)"
      using val that i le by (auto simp: validate_against_items_Ok n va)
    have "?a \<in> set authoritative" "?b \<in> set items" using that i le by simp_all
    with no arg_cong [OF eq, of ar_digest] have "ci_text ?a = ci_text ?b" by auto
    with arg_cong [OF eq, of ar_item] arg_cong [OF eq, of ar_turn] arg_cong [OF eq, of ar_role]
    have "item_view ?a = item_view ?b" by (simp add: item_view_def)
    then show ?thesis by (simp add: item_view_eq)
  qed
  have new: "authoritative ! (i + j) = items ! (i + j)" if "i + j < length items" for j
  proof -
    have "item_view (authoritative ! (i + j)) = item_view (items ! (i + j))"
      using val that i le by (auto simp: validate_against_items_Ok n vr)
    then show ?thesis by (simp add: item_view_eq)
  qed
  show "take (length items) authoritative = items"
  proof (rule nth_equalityI)
    show "length (take (length items) authoritative) = length items" using le by simp
    fix j assume "j < length (take (length items) authoritative)"
    then show "take (length items) authoritative ! j = items ! j"
      using old [of j] new [of "j - i"] by (cases "j < i") simp_all
  qed
qed

section \<open>Pressure\<close>

text \<open>C39 (bounds).  With the two thresholds of a policy the code can construct, a request
  whose tokens are known is stopped exactly when its projected tokens reach the hard share of the context limit, and
  allowed exactly when they stay below the soft share; so a request that is not stopped leaves room in the limit.
  The occupancy is a percentage, and with more tokens in use the admission is never more lenient.
\<close>

fun admission_rank :: "context_admission_decision \<Rightarrow> nat" where
  "admission_rank AdmitAllow = 0"
| "admission_rank AdmitReduce = 1"
| "admission_rank AdmitStop = 2"
| "admission_rank AdmitUnknown = 3"

lemma pressure_known:
  assumes "pressure_project \<lparr>pi_limit = Some limit, pi_used = Some used, pi_reserve = Some reserve, pi_accuracy = Some a\<rparr> policy = Ok s"
  shows "limit \<noteq> 0" and "unat used + unat reserve < 2 ^ 64"
    and "sn_occupancy s = Some (of_nat (min ((unat used + unat reserve) * 100 div unat limit) 100))"
    and "sn_admission s = (if (unat used + unat reserve) * 100 \<ge> unat limit * unat (pp_hard policy) then AdmitStop
       else if (unat used + unat reserve) * 100 \<ge> unat limit * unat (pp_soft policy) then AdmitReduce else AdmitAllow)"
  using assms
  by (auto simp: pressure_project_def pressure_unknown_reason_def result_ok Let_def checked_add_Some_iff unat_plus_u64)

theorem admission_follows_pressure:
  assumes "pressure_policy_new soft hard = Ok policy"
    and "pressure_project \<lparr>pi_limit = Some limit, pi_used = Some used, pi_reserve = Some reserve, pi_accuracy = Some a\<rparr> policy = Ok s"
    and "pressure_project \<lparr>pi_limit = Some limit, pi_used = Some used', pi_reserve = Some reserve, pi_accuracy = Some a\<rparr> policy = Ok s'"
    and "used \<le> used'"
  shows "(sn_admission s = AdmitStop \<longleftrightarrow> unat limit * unat hard \<le> 100 * (unat used + unat reserve))
    \<and> (sn_admission s = AdmitAllow \<longleftrightarrow> 100 * (unat used + unat reserve) < unat limit * unat soft)
    \<and> (sn_admission s \<noteq> AdmitStop \<longrightarrow> unat used + unat reserve < unat limit)
    \<and> (\<exists>o1 o2. sn_occupancy s = Some o1 \<and> sn_occupancy s' = Some o2 \<and> o1 \<le> o2 \<and> o2 \<le> 100)
    \<and> admission_rank (sn_admission s) \<le> admission_rank (sn_admission s')"
proof -
  note s = pressure_known [OF assms(2)] and s' = pressure_known [OF assms(3)]
  from assms(1) have p: "pp_soft policy = soft" "pp_hard policy = hard" "unat soft < unat hard" "unat hard \<le> 100"
    by (auto simp: pressure_policy_new_def word_less_nat_alt word_le_nat_alt not_le not_less split: if_splits)
  let ?t = "(unat used + unat reserve) * 100" and ?t' = "(unat used' + unat reserve) * 100"
  have mono: "?t \<le> ?t'" using assms(4) by (simp add: word_le_nat_alt)
  have order: "unat limit * unat soft \<le> unat limit * unat hard" using p(3) by simp
  have full: "unat limit * unat hard \<le> unat limit * 100" using p(4) by simp
  have room: "unat used + unat reserve < unat limit" if "?t < unat limit * unat hard" using less_le_trans [OF that full] by simp
  have occ: "(of_nat (min (?t div unat limit) 100) :: u8) \<le> of_nat (min (?t' div unat limit) 100)"
    "(of_nat (min (?t' div unat limit) 100) :: u8) \<le> 100"
  proof -
    have "unat (of_nat (min n 100) :: u8) = min n 100" for n
      by (simp add: unat_of_nat take_bit_eq_mod)
    then show "(of_nat (min (?t div unat limit) 100) :: u8) \<le> of_nat (min (?t' div unat limit) 100)"
      "(of_nat (min (?t' div unat limit) 100) :: u8) \<le> 100"
      using div_le_mono [OF mono, of "unat limit"] by (simp_all add: word_le_nat_alt)
  qed
  have "sn_admission s = AdmitStop \<longleftrightarrow> unat limit * unat hard \<le> ?t" using s(4) by (simp add: p)
  moreover have "sn_admission s = AdmitAllow \<longleftrightarrow> ?t < unat limit * unat soft"
    unfolding s(4) p using less_le_trans [OF _ order, of ?t] by (simp add: not_le)
  moreover have "admission_rank (sn_admission s) \<le> admission_rank (sn_admission s')"
    unfolding s(4) s'(4) p using order_trans [OF _ mono, of "unat limit * unat hard"] order_trans [OF _ mono, of "unat limit * unat soft"]
    by simp
  ultimately show ?thesis using room occ s(3) s'(3) by (auto simp: mult.commute not_le)
qed

section \<open>Witnesses\<close>

text \<open>Two turns and the start of a third, and a policy that keeps one recent item.\<close>

definition demo_talk :: "canonical_item list" where
  "demo_talk =
     [\<lparr>ci_id = NonzeroId 2, ci_turn = NonzeroId 1, ci_role = RoleUser, ci_text = ''a''\<rparr>,
      \<lparr>ci_id = NonzeroId 3, ci_turn = NonzeroId 1, ci_role = RoleAssistant, ci_text = ''b''\<rparr>,
      \<lparr>ci_id = NonzeroId 4, ci_turn = NonzeroId 2, ci_role = RoleAssistant, ci_text = ''c''\<rparr>]"

definition demo_later :: "canonical_item list" where
  "demo_later = [\<lparr>ci_id = NonzeroId 5, ci_turn = NonzeroId 3, ci_role = RoleUser, ci_text = ''d''\<rparr>]"

definition demo_tail_policy :: context_reduction_policy where
  "demo_tail_policy = \<lparr>rp_max_raw_bytes = 100, rp_max_raw_items = 1\<rparr>"

definition demo_view_head :: ledger_head where
  "demo_view_head = \<lparr>lh_transaction = 3, lh_sequence = 9\<rparr>"

definition demo_view_hash :: hasher where
  "demo_view_hash bytes = of_nat (length bytes) # replicate 31 0"

lemmas demo_view_defs = demo_talk_def demo_later_def demo_tail_policy_def demo_view_head_def

lemmas view_eval = context_view_from_items_def view_push_def view_item_def view_len_def view_add_def checked_add_code
  u64_try_from_code chars_count_def continuation_def MAX_CONTEXT_VIEW_ITEMS_def MAX_CONTEXT_VIEW_BYTES_def Let_def usize_add_code

lemmas reduce_eval = reduced_from_items_def recent_tail_def artifact_from_item_def reduced_from_stored_def stored_artifact_def
  stored_recent_def request_from_items_def leading_assistant_items_def request_sum_def materialize_request_def
  validate_against_items_def checkpoint_last_def materialize_push_def

lemma demo_view: "\<exists>w. context_view_from_items demo_view_head demo_talk = Ok w"
  by (simp add: demo_view_defs view_eval)

theorem reductions_agree_witness:
  "\<exists>w. context_view_from_items demo_view_head demo_talk = Ok w
     \<and> view_reduce demo_view_hash w demo_tail_policy = reduced_from_items demo_view_hash demo_view_head demo_talk demo_tail_policy"
  using demo_view reductions_agree by blast

lemma demo_reduced: "\<exists>v. reduced_from_items demo_view_hash demo_view_head demo_talk demo_tail_policy = Ok v"
  by (simp add: demo_view_defs view_eval reduce_eval)

lemma demo_view_request: "\<exists>q. request_from_items demo_view_head (demo_talk @ demo_later) = Ok q"
  by (simp add: demo_view_defs view_eval reduce_eval)

theorem checkpoints_materialize_witness:
  "\<exists>v q. reduced_from_items demo_view_hash demo_view_head demo_talk demo_tail_policy = Ok v
     \<and> materialize_request demo_view_hash v (demo_talk @ demo_later) = Ok q"
  using demo_reduced demo_view_request checkpoints_materialize by blast

theorem altered_history_is_refused_witness:
  "\<exists>v q. reduced_from_items demo_view_hash demo_view_head demo_talk demo_tail_policy = Ok v
     \<and> materialize_request demo_view_hash v (demo_talk @ demo_later) = Ok q
     \<and> (take (length demo_talk) (demo_talk @ demo_later) = demo_talk
        \<or> (\<exists>a \<in> set (demo_talk @ demo_later). \<exists>b \<in> set demo_talk. ci_text a \<noteq> ci_text b
             \<and> demo_view_hash (str_bytes (ci_text a)) = demo_view_hash (str_bytes (ci_text b))))"
proof -
  have "\<exists>v q. reduced_from_items demo_view_hash demo_view_head demo_talk demo_tail_policy = Ok v
      \<and> materialize_request demo_view_hash v (demo_talk @ demo_later) = Ok q"
    by (simp add: demo_view_defs view_eval reduce_eval)
  then show ?thesis using altered_history_is_refused by blast
qed

theorem admission_follows_pressure_witness:
  "\<exists>s s'. pressure_project \<lparr>pi_limit = Some 1000, pi_used = Some 600, pi_reserve = Some 100, pi_accuracy = Some PressureExact\<rparr>
        \<lparr>pp_soft = 65, pp_hard = 90\<rparr> = Ok s
     \<and> pressure_project \<lparr>pi_limit = Some 1000, pi_used = Some 850, pi_reserve = Some 100, pi_accuracy = Some PressureExact\<rparr>
        \<lparr>pp_soft = 65, pp_hard = 90\<rparr> = Ok s'
     \<and> admission_rank (sn_admission s) \<le> admission_rank (sn_admission s')"
proof -
  have "pressure_policy_new 65 90 = Ok \<lparr>pp_soft = 65, pp_hard = 90\<rparr>" by (simp add: pressure_policy_new_def)
  moreover have "\<exists>s. pressure_project \<lparr>pi_limit = Some 1000, pi_used = Some 600, pi_reserve = Some 100,
      pi_accuracy = Some PressureExact\<rparr> \<lparr>pp_soft = 65, pp_hard = 90\<rparr> = Ok s"
    by (simp add: pressure_project_def pressure_unknown_reason_def checked_add_code)
  moreover have "\<exists>s'. pressure_project \<lparr>pi_limit = Some 1000, pi_used = Some 850, pi_reserve = Some 100,
      pi_accuracy = Some PressureExact\<rparr> \<lparr>pp_soft = 65, pp_hard = 90\<rparr> = Ok s'"
    by (simp add: pressure_project_def pressure_unknown_reason_def checked_add_code)
  moreover have "(600 :: u64) \<le> 850" by simp
  ultimately show ?thesis using admission_follows_pressure [of 65 90 "\<lparr>pp_soft = 65, pp_hard = 90\<rparr>" 1000 600 100 PressureExact _ 850]
    by blast
qed

end
