(* ===== verification/Provider_Core.thy ===== *)
theory Provider_Core
  imports Config Context_View Rust_Number
begin

text \<open>
  The provider-neutral part of \<open>greentyper-core/src/provider.rs\<close>: frozen profile snapshots and Provider
  epochs with their fingerprints, Turn requests, the canonical events of a Provider stream, and the
  deterministic simulator.  The \<open>url\<close> crate is the parameter \<open>url_parse\<close>.
\<close>

section \<open>Bounds and errors\<close>

definition MAX_PROVIDER_ID_BYTES :: usize where "MAX_PROVIDER_ID_BYTES = 512"
definition MAX_PROVIDER_ERROR_BYTES :: usize where "MAX_PROVIDER_ERROR_BYTES = 4096"
definition MAX_PROVIDER_TOOL_ARGUMENT_BYTES :: usize where "MAX_PROVIDER_TOOL_ARGUMENT_BYTES = 64 * 1024"
definition MAX_PROVIDER_TOOL_OUTPUT_BYTES :: usize where "MAX_PROVIDER_TOOL_OUTPUT_BYTES = 256 * 1024"

datatype provider_unavailable_stage = BeforeResponse | BeforeFirstEvent | AfterFirstEvent

datatype provider_error =
    ProviderConfiguration string
  | ProviderRequestError string
  | ProviderResponse string
  | ProviderUnavailable provider_unavailable_stage usize

type_synonym 'a provider_result = "(provider_error, 'a) result"

definition unavailable_during :: "provider_unavailable_stage \<Rightarrow> string \<Rightarrow> provider_error" where
  "unavailable_during stage message = ProviderUnavailable stage (min (length message) MAX_PROVIDER_ERROR_BYTES)"

definition unavailable :: "string \<Rightarrow> provider_error" where
  "unavailable message = unavailable_during BeforeResponse message"

primrec unavailable_stage :: "provider_error \<Rightarrow> provider_unavailable_stage option" where
  "unavailable_stage (ProviderConfiguration r) = None"
| "unavailable_stage (ProviderRequestError r) = None"
| "unavailable_stage (ProviderResponse r) = None"
| "unavailable_stage (ProviderUnavailable stage n) = Some stage"

section \<open>Validation of texts\<close>

definition validate_provider_id :: "string \<Rightarrow> string \<Rightarrow> unit provider_result" where
  "validate_provider_id field v =
     (if trim v = [] then Err (ProviderConfiguration field)
      else if trim v \<noteq> v
      then Err (ProviderConfiguration ''provider identifiers cannot have surrounding whitespace'')
      else if length v > MAX_PROVIDER_ID_BYTES \<or> has_control v
      then Err (ProviderConfiguration ''provider identifier is too long'')
      else Ok ())"

definition validate_snapshot_value :: "string \<Rightarrow> string \<Rightarrow> unit provider_result" where
  "validate_snapshot_value field v =
     (if trim v = [] \<or> trim v \<noteq> v \<or> length v > MAX_PROVIDER_ID_BYTES \<or> has_control v
      then Err (ProviderConfiguration field) else Ok ())"

definition validate_provider_text :: "string \<Rightarrow> string \<Rightarrow> usize \<Rightarrow> unit provider_result" where
  "validate_provider_text field v max_bytes =
     (if trim v = [] \<or> trim v \<noteq> v \<or> length v > max_bytes \<or> has_control v
      then Err (ProviderResponse field) else Ok ())"

section \<open>Origins and routes\<close>

datatype url_host = Domain string | Ipv4 u32 | Ipv6 "128 word"

record url_parts =
  up_scheme :: string
  up_host :: "url_host option"
  up_username :: string
  up_password :: "string option"
  up_query :: "string option"
  up_fragment :: "string option"

type_synonym url_lib = "string \<Rightarrow> url_parts option"

definition ascii_lower :: "char \<Rightarrow> char" where
  "ascii_lower c = (if is_ascii_uppercase c then char_of (of_char c + 32 :: nat) else c)"

definition eq_ignore_ascii_case :: "string \<Rightarrow> string \<Rightarrow> bool" where
  "eq_ignore_ascii_case a b \<longleftrightarrow> map ascii_lower a = map ascii_lower b"

text \<open>\<open>Ipv4Addr::is_loopback\<close> and \<open>Ipv6Addr::is_loopback\<close>.\<close>

definition host_loopback :: "url_host option \<Rightarrow> bool" where
  "host_loopback host =
     (case host of
        Some (Domain d) \<Rightarrow> eq_ignore_ascii_case d ''localhost''
      | Some (Ipv4 a) \<Rightarrow> drop_bit 24 a = 127
      | Some (Ipv6 a) \<Rightarrow> a = 1
      | None \<Rightarrow> False)"

definition normalize_provider_origin :: "url_lib \<Rightarrow> string \<Rightarrow> bool \<Rightarrow> string provider_result" where
  "normalize_provider_origin url_parse v allow_insecure_loopback =
     andthen (validate_snapshot_value ''provider origin'' v) (\<lambda>_.
     andthen (ok_or (url_parse v) (ProviderConfiguration ''provider origin must be an absolute HTTP(S) URL'')) (\<lambda>url.
     if up_scheme url \<notin> {''http'', ''https''} \<or> up_host url = None \<or> up_username url \<noteq> [] \<or> up_password url \<noteq> None
        \<or> up_query url \<noteq> None \<or> up_fragment url \<noteq> None
     then Err (ProviderConfiguration ''provider origin contains unsupported URL components'')
     else
     let loopback = host_loopback (up_host url) in
     if up_scheme url = ''http'' \<and> (\<not> loopback \<or> \<not> allow_insecure_loopback)
     then Err (ProviderConfiguration ''plain HTTP requires explicit loopback permission'')
     else if \<not> loopback \<and> allow_insecure_loopback
     then Err (ProviderConfiguration ''loopback permission is invalid for a remote provider origin'')
     else Ok (rev (dropWhile (\<lambda>c. c = CHR ''/'') (rev v)))))"

text \<open>\<open>str::contains\<close> of a string.\<close>

fun contains_str :: "string \<Rightarrow> string \<Rightarrow> bool" where
  "contains_str p [] = (p = [])"
| "contains_str p (c # s) = (take (length p) (c # s) = p \<or> contains_str p s)"

definition normalize_provider_route :: "string \<Rightarrow> string provider_result" where
  "normalize_provider_route route =
     andthen (validate_snapshot_value ''provider route'' route) (\<lambda>_.
     if CHR ''?'' \<in> set route \<or> CHR ''#'' \<in> set route \<or> contains_str ''://'' route \<or> CHR 0x5C \<in> set route
        \<or> list_ex (\<lambda>segment. segment = ''.'' \<or> segment = ''..'') (split_on (CHR ''/'') route)
     then Err (ProviderConfiguration ''provider route contains unsupported components'')
     else
     let trimmed = dropWhile (\<lambda>c. c = CHR ''/'') route in
     if trimmed = [] then Err (ProviderConfiguration ''provider route cannot be the origin root'')
     else Ok (CHR ''/'' # trimmed))"

text \<open>\<open>Option::map(f).transpose()\<close>\<close>

definition transpose :: "('a \<Rightarrow> ('e, 'b) result) \<Rightarrow> 'a option \<Rightarrow> ('e, 'b option) result" where
  "transpose f v = (case v of None \<Rightarrow> Ok None | Some v \<Rightarrow> map_ok Some (f v))"

definition normalize_optional_route :: "string option \<Rightarrow> string option provider_result" where
  "normalize_optional_route route = transpose normalize_provider_route route"

section \<open>Fingerprints\<close>

definition fp_bytes :: "u64 \<Rightarrow> u8 list \<Rightarrow> u64" where
  "fp_bytes hash bytes = foldl (\<lambda>hash byte. hash_step hash (ucast byte)) hash bytes"

definition fp_byte :: "u64 \<Rightarrow> u8 \<Rightarrow> u64" where
  "fp_byte hash v = fp_bytes hash [v]"

definition fp_new :: "u8 \<Rightarrow> u64" where
  "fp_new schema = fp_byte 0xcbf29ce484222325 schema"

definition fp_usize :: "u64 \<Rightarrow> usize \<Rightarrow> u64" where
  "fp_usize hash v = fp_bytes hash (u64_to_le (of_nat v))"

definition fp_string :: "u64 \<Rightarrow> string \<Rightarrow> u64" where
  "fp_string hash v = fp_bytes (fp_bytes hash (u64_to_le (of_nat (length v)))) (text_bytes v)"

definition fp_optional_string :: "u64 \<Rightarrow> string option \<Rightarrow> u64" where
  "fp_optional_string hash v = (case v of None \<Rightarrow> fp_byte hash 0 | Some v \<Rightarrow> fp_string (fp_byte hash 1) v)"

section \<open>Profile snapshots\<close>

datatype provider_pricing_source =
  PricingUnknown | PricingTemplate | PricingTemplateMirror | PricingManual | PricingProviderReported

primrec pricing_source_tag :: "provider_pricing_source \<Rightarrow> u8" where
  "pricing_source_tag PricingUnknown = 1"
| "pricing_source_tag PricingTemplate = 2"
| "pricing_source_tag PricingManual = 3"
| "pricing_source_tag PricingProviderReported = 4"
| "pricing_source_tag PricingTemplateMirror = 5"

record provider_profile_snapshot =
  pf_profile :: string
  pf_template :: string
  pf_credential_reference :: "string option"
  pf_base_url :: "string option"
  pf_responses_route :: "string option"
  pf_chat_completions_route :: "string option"
  pf_messages_route :: "string option"
  pf_models_route :: "string option"
  pf_dialects :: "provider_dialect fset"
  pf_pricing_source :: "provider_pricing_source option"
  pf_allow_insecure_loopback :: bool
  pf_fingerprint :: u64

text \<open>The members of the set of dialects, in their derived order.\<close>

definition dialect_list :: "provider_dialect fset \<Rightarrow> provider_dialect list" where
  "dialect_list ds = filter (\<lambda>d. d |\<in>| ds) [Responses, ChatCompletions, Messages]"

definition fingerprint_profile_snapshot :: "provider_profile_snapshot \<Rightarrow> u64" where
  "fingerprint_profile_snapshot s =
     (let hash = fp_string (fp_string (fp_new 1) (pf_profile s)) (pf_template s);
          hash = foldl fp_optional_string hash [pf_credential_reference s, pf_base_url s, pf_responses_route s,
            pf_chat_completions_route s, pf_messages_route s, pf_models_route s];
          hash = fp_usize hash (length (dialect_list (pf_dialects s)));
          hash = foldl (\<lambda>hash d. fp_byte hash (provider_dialect_tag d)) hash (dialect_list (pf_dialects s));
          hash = fp_byte hash (case pf_pricing_source s of None \<Rightarrow> 0 | Some p \<Rightarrow> pricing_source_tag p) in
      fp_byte hash (if pf_allow_insecure_loopback s then 1 else 0))"

definition profile_snapshot_from_parts ::
  "url_lib \<Rightarrow> string \<Rightarrow> string \<Rightarrow> string option \<Rightarrow> string option \<Rightarrow> string option \<Rightarrow> string option \<Rightarrow> string option
     \<Rightarrow> string option \<Rightarrow> provider_dialect list \<Rightarrow> provider_pricing_source option \<Rightarrow> bool \<Rightarrow> provider_profile_snapshot provider_result"
where
  "profile_snapshot_from_parts url_parse profile template credential_reference base_url responses_route
     chat_completions_route messages_route models_route dialects pricing_source allow_insecure_loopback =
     andthen (validate_provider_id ''provider profile'' profile) (\<lambda>_.
     andthen (validate_snapshot_value ''provider template'' template) (\<lambda>_.
     andthen (case credential_reference of None \<Rightarrow> Ok ()
       | Some r \<Rightarrow> validate_snapshot_value ''provider credential reference'' r) (\<lambda>_.
     andthen (transpose (\<lambda>v. normalize_provider_origin url_parse v allow_insecure_loopback) base_url) (\<lambda>base_url.
     if base_url = None \<and> allow_insecure_loopback
     then Err (ProviderConfiguration ''insecure loopback requires a provider origin'')
     else
     andthen (normalize_optional_route responses_route) (\<lambda>responses_route.
     andthen (normalize_optional_route chat_completions_route) (\<lambda>chat_completions_route.
     andthen (normalize_optional_route messages_route) (\<lambda>messages_route.
     andthen (normalize_optional_route models_route) (\<lambda>models_route.
     let dialects = fset_of_list dialects in
     if dialects = {||} then Err (ProviderConfiguration ''provider dialect set cannot be empty'')
     else
     let s = \<lparr>pf_profile = profile, pf_template = template, pf_credential_reference = credential_reference,
              pf_base_url = base_url, pf_responses_route = responses_route,
              pf_chat_completions_route = chat_completions_route, pf_messages_route = messages_route,
              pf_models_route = models_route, pf_dialects = dialects, pf_pricing_source = pricing_source,
              pf_allow_insecure_loopback = allow_insecure_loopback, pf_fingerprint = 0\<rparr> in
     Ok (s\<lparr>pf_fingerprint := fingerprint_profile_snapshot s\<rparr>)))))))))"

primrec profile_route :: "provider_dialect \<Rightarrow> provider_profile_snapshot \<Rightarrow> string option" where
  "profile_route Responses s = pf_responses_route s"
| "profile_route ChatCompletions s = pf_chat_completions_route s"
| "profile_route Messages s = pf_messages_route s"

definition profile_supports :: "provider_profile_snapshot \<Rightarrow> provider_dialect \<Rightarrow> bool" where
  "profile_supports s d \<longleftrightarrow> d |\<in>| pf_dialects s"

section \<open>Provider epochs\<close>

record provider_epoch =
  pe_id :: provider_epoch_id
  pe_profile :: string
  pe_model :: string
  pe_snapshot :: "provider_profile_snapshot option"
  pe_dialect :: "provider_dialect option"
  pe_fingerprint :: u64

definition fingerprint_provider_epoch ::
  "string \<Rightarrow> string \<Rightarrow> provider_profile_snapshot option \<Rightarrow> provider_dialect option \<Rightarrow> u64"
where
  "fingerprint_provider_epoch profile model snap dialect =
     (let hash = fp_string (fp_string (fp_new 1) profile) model;
          hash = (case snap of None \<Rightarrow> fp_byte hash 0
            | Some s \<Rightarrow> fp_bytes (fp_byte hash 1) (u64_to_le (pf_fingerprint s))) in
      case dialect of None \<Rightarrow> hash | Some d \<Rightarrow> fp_byte (fp_byte hash 2) (provider_dialect_tag d))"

definition provider_epoch_new :: "provider_epoch_id \<Rightarrow> string \<Rightarrow> string \<Rightarrow> provider_epoch provider_result" where
  "provider_epoch_new i profile model =
     andthen (validate_provider_id ''provider profile'' profile) (\<lambda>_.
     andthen (validate_provider_id ''provider model'' model) (\<lambda>_.
     Ok \<lparr>pe_id = i, pe_profile = profile, pe_model = model, pe_snapshot = None, pe_dialect = None,
         pe_fingerprint = fingerprint_provider_epoch profile model None None\<rparr>))"

definition epoch_with_snapshot_and_dialect ::
  "provider_epoch_id \<Rightarrow> string \<Rightarrow> string \<Rightarrow> provider_profile_snapshot \<Rightarrow> provider_dialect option \<Rightarrow> provider_epoch provider_result"
where
  "epoch_with_snapshot_and_dialect i profile model snap dialect =
     andthen (validate_provider_id ''provider profile'' profile) (\<lambda>_.
     andthen (validate_provider_id ''provider model'' model) (\<lambda>_.
     if pf_profile snap \<noteq> profile then Err (ProviderConfiguration ''Provider Profile snapshot identity mismatch'')
     else if (case dialect of None \<Rightarrow> False | Some d \<Rightarrow> \<not> profile_supports snap d)
     then Err (ProviderConfiguration ''Provider dialect is not supported by its frozen Profile'')
     else Ok \<lparr>pe_id = i, pe_profile = profile, pe_model = model, pe_snapshot = Some snap, pe_dialect = dialect,
              pe_fingerprint = fingerprint_provider_epoch profile model (Some snap) dialect\<rparr>))"

definition epoch_with_snapshot ::
  "provider_epoch_id \<Rightarrow> string \<Rightarrow> string \<Rightarrow> provider_profile_snapshot \<Rightarrow> provider_epoch provider_result"
where
  "epoch_with_snapshot i profile model snap =
     andthen (validate_provider_id ''provider profile'' profile) (\<lambda>_.
     andthen (validate_provider_id ''provider model'' model) (\<lambda>_.
     if pf_profile snap \<noteq> profile then Err (ProviderConfiguration ''Provider Profile snapshot identity mismatch'')
     else epoch_with_snapshot_and_dialect i profile model snap None))"

section \<open>Requests and events\<close>

record provider_request =
  rq_thread :: thread_id
  rq_turn :: turn_id
  rq_config :: config_epoch
  rq_provider :: provider_epoch
  rq_context :: "context_request_view option"
  rq_input :: string

definition usage_record_new ::
  "u64 option \<Rightarrow> u64 option \<Rightarrow> u64 option \<Rightarrow> u64 option \<Rightarrow> u64 option \<Rightarrow> u64 option \<Rightarrow> string option \<Rightarrow> usage_record provider_result"
where
  "usage_record_new input_tokens cached_input_tokens cache_write_input_tokens output_tokens reasoning_output_tokens
     total_tokens service_tier =
     andthen (case service_tier of None \<Rightarrow> Ok ()
       | Some v \<Rightarrow> validate_provider_text ''service tier'' v MAX_SERVICE_TIER_BYTES) (\<lambda>_.
     Ok \<lparr>ur_input_tokens = input_tokens, ur_cached_input_tokens = cached_input_tokens,
         ur_cache_write_input_tokens = cache_write_input_tokens, ur_output_tokens = output_tokens,
         ur_reasoning_output_tokens = reasoning_output_tokens, ur_total_tokens = total_tokens,
         ur_service_tier = service_tier, ur_accuracy = Exact\<rparr>)"

record provider_tool_call =
  tk_call_id :: string
  tk_tool :: string
  tk_arguments_json :: string

definition provider_tool_call_new :: "string \<Rightarrow> string \<Rightarrow> string \<Rightarrow> provider_tool_call provider_result" where
  "provider_tool_call_new call_id tool arguments_json =
     andthen (validate_provider_text ''Provider Tool call ID'' call_id MAX_PROVIDER_ID_BYTES) (\<lambda>_.
     andthen (validate_provider_text ''Provider Tool name'' tool MAX_PROVIDER_ID_BYTES) (\<lambda>_.
     andthen (validate_provider_text ''Provider Tool arguments'' arguments_json MAX_PROVIDER_TOOL_ARGUMENT_BYTES) (\<lambda>_.
     Ok \<lparr>tk_call_id = call_id, tk_tool = tool, tk_arguments_json = arguments_json\<rparr>)))"

record provider_tool_output =
  to_call_id :: string
  to_output :: string

definition provider_tool_output_new :: "string \<Rightarrow> string \<Rightarrow> provider_tool_output provider_result" where
  "provider_tool_output_new call_id out =
     andthen (validate_provider_text ''Provider Tool call ID'' call_id MAX_PROVIDER_ID_BYTES) (\<lambda>_.
     if length out > MAX_PROVIDER_TOOL_OUTPUT_BYTES
     then Err (ProviderResponse ''Provider Tool output exceeds the byte limit'')
     else Ok \<lparr>to_call_id = call_id, to_output = out\<rparr>)"

datatype provider_event =
    TextDelta string
  | FunctionCall provider_tool_call
  | Completed usage_record

text \<open>
  An implementation of the trait \<open>ProviderRuntime\<close>.  A Provider may keep state of its own; what one call
  returned is the value of the function at the request it was given.
\<close>

record provider_runtime =
  pv_snapshot :: "provider_profile_snapshot option"
  pv_dialect :: "provider_dialect option"
  pv_run :: "provider_request \<Rightarrow> provider_event list provider_result"
  pv_continue_after_tool :: "provider_request \<Rightarrow> provider_tool_output \<Rightarrow> provider_event list provider_result"

section \<open>The deterministic simulator\<close>

record deterministic_provider =
  dp_prefix :: string
  dp_max_chunk_bytes :: usize

definition deterministic_provider_default :: deterministic_provider where
  "deterministic_provider_default = \<lparr>dp_prefix = ''simulated: '', dp_max_chunk_bytes = 8\<rparr>"

definition deterministic_provider_new :: "string \<Rightarrow> usize \<Rightarrow> deterministic_provider provider_result" where
  "deterministic_provider_new prefix max_chunk_bytes =
     (if length prefix > MAX_PROVIDER_ID_BYTES then Err (ProviderConfiguration ''simulator prefix is too long'')
      else if max_chunk_bytes = 0 then Err (ProviderConfiguration ''simulator chunk size must be nonzero'')
      else Ok \<lparr>dp_prefix = prefix, dp_max_chunk_bytes = max_chunk_bytes\<rparr>)"

text \<open>\<open>str::is_char_boundary\<close>, the last boundary at or before a position, and the first one after it.\<close>

definition is_char_boundary :: "string \<Rightarrow> usize \<Rightarrow> bool" where
  "is_char_boundary s i \<longleftrightarrow> i = 0 \<or> i = length s \<or> (i < length s \<and> \<not> continuation (s ! i))"

fun boundary_down :: "string \<Rightarrow> usize \<Rightarrow> usize" where
  "boundary_down s 0 = 0"
| "boundary_down s (Suc n) = (if is_char_boundary s (Suc n) then Suc n else boundary_down s n)"

definition first_char_len :: "string \<Rightarrow> usize" where
  "first_char_len s = 1 + length (takeWhile continuation (tl s))"

lemma boundary_down_le: "boundary_down s n \<le> n"
  by (induction n) auto

text \<open>\<open>text\<close> is what is left from \<open>start\<close> on.\<close>

function split_utf8_chunks :: "string \<Rightarrow> usize \<Rightarrow> string list" where
  "split_utf8_chunks s max_bytes =
     (if s = [] then []
      else
      let n = boundary_down s (min max_bytes (length s)); n = (if n = 0 then first_char_len s else n) in
      take n s # split_utf8_chunks (drop n s) max_bytes)"
  by pat_completeness auto
termination
  by (relation "measure (\<lambda>(s, _). length s)") (auto simp: first_char_len_def Let_def)

declare split_utf8_chunks.simps [simp del]

text \<open>\<open>str::split_whitespace().count()\<close>; the flag says that the scan is inside a word.\<close>

function words_from :: "bool \<Rightarrow> string \<Rightarrow> nat" where
  "words_from inside s =
     (if s = [] then 0
      else if leading_ws s > 0 then words_from False (drop (leading_ws s) s)
      else (if inside then 0 else 1) + words_from True (tl s))"
  by pat_completeness auto
termination
  by (relation "measure (\<lambda>(_, s). length s)") auto

declare words_from.simps [simp del]

definition approximate_tokens :: "string \<Rightarrow> u32" where
  "approximate_tokens s =
     (case u32_try_from (max (words_from False s) 1) of Some n \<Rightarrow> n | None \<Rightarrow> - 1)"

definition deterministic_run :: "deterministic_provider \<Rightarrow> provider_request \<Rightarrow> provider_event list provider_result" where
  "deterministic_run p request =
     (if trim (rq_input request) = [] then Err (ProviderRequestError ''input cannot be empty'')
      else
      let out = dp_prefix p @ rq_input request in
      Ok (map TextDelta (split_utf8_chunks out (dp_max_chunk_bytes p))
          @ [Completed (usage_record_estimated (approximate_tokens (rq_input request)) (approximate_tokens out))]))"

definition deterministic_runtime :: "deterministic_provider \<Rightarrow> provider_runtime" where
  "deterministic_runtime p =
     \<lparr>pv_snapshot = None, pv_dialect = None, pv_run = deterministic_run p,
      pv_continue_after_tool = (\<lambda>_ _. Err (ProviderRequestError ''Provider does not support Tool continuation''))\<rparr>"

end
