(* ===== verification/Turn_State.thy ===== *)
theory Turn_State
  imports Provider_Core Usage_Projection Tool_Types Team_Durable
begin

text \<open>
  Turn events and the state they fold into (\<open>greentyper-core/src/runtime.rs\<close>): one definition per event
  kind, the checks at the end of a transaction, and the status that recovery reports.  The code updates
  a copy of the state that is dropped when an event is refused, so a refused event has no state here.
\<close>

section \<open>Bounds, statuses and errors\<close>

definition MAX_INPUT_BYTES :: usize where "MAX_INPUT_BYTES = 512 * 1024"
definition MAX_BLOCK_REASON_BYTES :: usize where "MAX_BLOCK_REASON_BYTES = 4096"
definition MAX_USAGE_RECORDS_PER_TURN :: usize where "MAX_USAGE_RECORDS_PER_TURN = 64"
definition MAX_FALLBACK_CANDIDATES :: usize where "MAX_FALLBACK_CANDIDATES = 16"

datatype recovery_status =
    StatusReady
  | ResumeRequired turn_id
  | DeliveryReconciliation turn_id delivery_id
  | StatusBlocked turn_id string bool \<comment> \<open>turn, reason, retryable\<close>

datatype runtime_error =
    RtLedger ledger_error
  | RtTeam durable_team_error
  | RtTool tool_runtime_error
  | RtConfig config_error
  | RtModel model_error
  | RtProvider provider_error
  | RtUsage usage_error
  | RtContext context_view_error
  | UnsupportedContextMode context_mode
  | ContextCheckpointNotAtSafeBarrier
  | ContextAdmissionBlocked context_pressure_snapshot
  | Busy recovery_status
  | UnknownTurn turn_id
  | TurnCancellationNotAllowed turn_id
  | TurnRetryNotAllowed turn_id
  | StaleContextCheckpoint ledger_head ledger_head \<comment> \<open>expected, actual\<close>
  | UnknownDelivery delivery_id
  | InvalidInput string
  | InvalidProviderOutput string
  | InvalidModelSelection string
  | TeamUnavailable
  | ToolUnavailable
  | TeamOperationReconciliationRequired operation_id
  | ToolReconciliationRequired tool_call_id
  | ProviderToolCallTerminated tool_call_id tool_call_status
  | ProviderToolResultUnavailable tool_call_id
  | InvalidTeamConfiguration string
  | InvalidToolConfiguration string
  | UnsupportedRuntimeEventSchema u16 u16 \<comment> \<open>supported, actual\<close>
  | CorruptRuntimeEvent string
  | CorruptRuntimeState string
  | RtIntegerOverflow

type_synonym 'a turn_result = "(runtime_error, 'a) result"

section \<open>Values\<close>

record model_selection =
  ms_preset_id :: string
  ms_config_fingerprint :: u64
  ms_provider_profile :: string
  ms_provider_model :: string
  ms_preferred_dialect :: provider_dialect

definition valid_preset_id :: "string \<Rightarrow> bool" where
  "valid_preset_id i \<longleftrightarrow> i \<noteq> [] \<and> length i \<le> MAX_CONFIG_ID_BYTES
     \<and> list_all (\<lambda>byte. is_ascii_lowercase byte \<or> is_ascii_digit byte \<or> byte = CHR ''-'') i
     \<and> (case i of [] \<Rightarrow> False | c # _ \<Rightarrow> is_ascii_alphanumeric c)"

definition selection_validate :: "model_selection \<Rightarrow> unit turn_result" where
  "selection_validate m =
     (if \<not> valid_preset_id (ms_preset_id m) then Err (InvalidModelSelection ''Preset ID is invalid'')
      else try_each (\<lambda>v.
        if trim v = [] \<or> trim v \<noteq> v \<or> length v > MAX_PROVIDER_ID_BYTES \<or> has_control v
        then Err (InvalidModelSelection ''Provider identity is invalid'') else Ok ())
        [ms_provider_profile m, ms_provider_model m])"

definition model_selection_new ::
  "string \<Rightarrow> u64 \<Rightarrow> string \<Rightarrow> string \<Rightarrow> provider_dialect \<Rightarrow> model_selection turn_result" where
  "model_selection_new preset config_fp profile model dialect =
     (let m = \<lparr>ms_preset_id = preset, ms_config_fingerprint = config_fp,
               ms_provider_profile = profile, ms_provider_model = model,
               ms_preferred_dialect = dialect\<rparr> in
      map_ok (\<lambda>_. m) (selection_validate m))"

record pending_model_selection =
  mp_agent :: agent_id
  mp_selection :: model_selection

record frozen_provider_fallback =
  fb_preset_id :: string
  fb_config :: config_epoch_id
  fb_provider :: provider_epoch_id

datatype frozen_cost_evaluation =
    CostKnown string u64 u64 \<comment> \<open>schedule, its fingerprint, amount in pico units\<close>
  | CostUnknown cost_estimate_unknown_reason

definition evaluation_from_outcome :: "cost_estimate_outcome \<Rightarrow> frozen_cost_evaluation" where
  "evaluation_from_outcome outcome =
     (case outcome of
        Known est \<Rightarrow> CostKnown (ps_id (ce_schedule est)) (ps_fingerprint (ce_schedule est)) (ce_amount est)
      | Unknown reason \<Rightarrow> CostUnknown reason)"

fun evaluation_matches :: "frozen_cost_evaluation \<Rightarrow> cost_estimate_outcome \<Rightarrow> bool" where
  "evaluation_matches (CostKnown schedule_id schedule_fingerprint amount) (Known est) \<longleftrightarrow>
     schedule_id = ps_id (ce_schedule est) \<and> schedule_fingerprint = ps_fingerprint (ce_schedule est)
     \<and> amount = ce_amount est"
| "evaluation_matches (CostUnknown a) (Unknown b) \<longleftrightarrow> a = b"
| "evaluation_matches _ _ \<longleftrightarrow> False"

datatype turn_block_origin = OriginLegacy | OriginProvider | OriginOther

section \<open>Events\<close>

type_synonym context_checkpoint = reduced_context_view

datatype runtime_event =
    ContextCheckpointPublished context_checkpoint
  | ModelSelectionStaged agent_id model_selection
  | ThreadCreated thread_id
  | ConfigFrozen config_epoch
  | ProviderFrozen provider_epoch
  | TurnAdmitted thread_id turn_id item_id config_epoch_id provider_epoch_id "frozen_provider_fallback list"
      "agent_id option" string \<comment> \<open>thread, turn, user item, config, provider, fallbacks, agent, input\<close>
  | AssistantItemStarted turn_id item_id
  | AssistantTextDelta turn_id item_id string
  | OutputPrepared turn_id item_id delivery_id string "usage_record list" bool
      \<comment> \<open>turn, item, delivery, text, usage records, legacy usage\<close>
  | OutputAcknowledged turn_id delivery_id
  | TurnCompleted turn_id
  | TurnBlocked turn_id string turn_block_origin "provider_unavailable_stage option"
  | TurnCancelled turn_id
  | TurnRetryRequested turn_id
  | ProviderFallbackRequested turn_id u32
  | UsageAttemptStarted turn_id u32 usage_timestamp
  | UsageAttemptFinished turn_id u32 usage_timestamp usage_attempt_outcome "usage_record option" "string list" bool
      \<comment> \<open>turn, attempt, completed at, outcome, usage, named windows, cost evaluation required\<close>
  | UsageAttemptCostEvaluated turn_id u32 frozen_cost_evaluation

section \<open>The state\<close>

record turn_record =
  tn_user_item :: item_id
  tn_config :: config_epoch_id
  tn_provider :: provider_epoch_id
  tn_fallbacks :: "frozen_provider_fallback list"
  tn_agent :: "agent_id option"
  tn_assistant_item :: "item_id option"
  tn_delivery :: "delivery_id option"
  tn_completed :: bool
  tn_cancelled :: bool

datatype pending_phase = PhaseAdmitted | PhaseStreaming | PhasePrepared | PhaseBlocked

record prepared_state =
  pd_item :: item_id
  pd_delivery :: delivery_id
  pd_usage_records :: "usage_record list"

record open_usage_attempt =
  oa_attempt :: u32
  oa_started_at :: usage_timestamp

record pending_turn =
  pt_turn :: turn_id
  pt_config :: config_epoch_id
  pt_provider :: provider_epoch_id
  pt_fallback_index :: u32
  pt_agent :: "agent_id option"
  pt_input :: string
  pt_phase :: pending_phase
  pt_assistant_item :: "item_id option"
  pt_streamed_text :: string
  pt_prepared :: "prepared_state option"
  pt_acknowledged :: bool
  pt_blocked_reason :: "string option"
  pt_block_origin :: "turn_block_origin option"
  pt_unavailable_stage :: "provider_unavailable_stage option"
  pt_next_usage_attempt :: u32
  pt_open_usage_attempt :: "open_usage_attempt option"

record runtime_state =
  rs_thread :: "thread_id option"
  rs_configs :: "(config_epoch_id, config_epoch) btree_map"
  rs_providers :: "(provider_epoch_id, provider_epoch) btree_map"
  rs_turns :: "(turn_id, turn_record) btree_map"
  rs_items :: "canonical_item list"
  rs_pending :: "pending_turn option"
  rs_model_selection :: "pending_model_selection option"
  rs_checkpoint :: "context_checkpoint option"
  rs_acknowledged :: "delivery_id fset"
  rs_usage :: usage_projection
  rs_pending_cost :: "(turn_id \<times> u32) option"
  rs_next_thread :: u64
  rs_next_turn :: u64
  rs_next_item :: u64
  rs_next_delivery :: u64
  rs_next_config :: u64
  rs_next_provider :: u64

definition runtime_state_default :: runtime_state where
  "runtime_state_default =
     \<lparr>rs_thread = None, rs_configs = [], rs_providers = [], rs_turns = [], rs_items = [], rs_pending = None,
      rs_model_selection = None, rs_checkpoint = None, rs_acknowledged = {||}, rs_usage = usage_projection_default,
      rs_pending_cost = None, rs_next_thread = 1, rs_next_turn = 1, rs_next_item = 1, rs_next_delivery = 1,
      rs_next_config = 1, rs_next_provider = 1\<rparr>"

definition stage_is_retryable :: "provider_unavailable_stage option \<Rightarrow> bool" where
  "stage_is_retryable stage \<longleftrightarrow> stage = Some BeforeResponse \<or> stage = Some BeforeFirstEvent"

text \<open>The two \<open>expect\<close> calls of \<open>status\<close> never fail: \<open>pending_ok\<close> below is an invariant.\<close>

definition runtime_status :: "runtime_state \<Rightarrow> recovery_status" where
  "runtime_status s =
     (case rs_pending s of
        None \<Rightarrow> StatusReady
      | Some p \<Rightarrow>
          (case pt_phase p of
             PhaseAdmitted \<Rightarrow> ResumeRequired (pt_turn p)
           | PhasePrepared \<Rightarrow> DeliveryReconciliation (pt_turn p) (pd_delivery (the (pt_prepared p)))
           | PhaseBlocked \<Rightarrow> StatusBlocked (pt_turn p) (the (pt_blocked_reason p)) (stage_is_retryable (pt_unavailable_stage p))
           | PhaseStreaming \<Rightarrow> StatusBlocked (pt_turn p) ''incomplete output transaction'' False))"

section \<open>Helpers of \<open>apply\<close>\<close>

definition corrupt :: "string \<Rightarrow> 'a turn_result" where
  "corrupt reason = Err (CorruptRuntimeState reason)"

definition validate_input :: "string \<Rightarrow> unit turn_result" where
  "validate_input input =
     (if trim input = [] then Err (InvalidInput ''input cannot be empty'')
      else if length input > MAX_INPUT_BYTES then Err (InvalidInput ''input is too large'')
      else Ok ())"

definition observe_id :: "u64 \<Rightarrow> u64 \<Rightarrow> u64 turn_result" where
  "observe_id next' seen = map_ok (max next') (ok_or (checked_add seen 1) RtIntegerOverflow)"

definition pending_for :: "runtime_state \<Rightarrow> turn_id \<Rightarrow> pending_turn turn_result" where
  "pending_for s turn =
     (case rs_pending s of
        Some p \<Rightarrow> if pt_turn p = turn then Ok p else corrupt ''event targets a non-pending Turn''
      | None \<Rightarrow> corrupt ''event targets a non-pending Turn'')"

definition put_pending :: "runtime_state \<Rightarrow> pending_turn \<Rightarrow> runtime_state" where
  "put_pending s p = s\<lparr>rs_pending := Some p\<rparr>"

definition item_exists :: "runtime_state \<Rightarrow> item_id \<Rightarrow> bool" where
  "item_exists s item \<longleftrightarrow> list_ex (\<lambda>candidate. ci_id candidate = item) (rs_items s)
     \<or> Option.bind (rs_pending s) pt_assistant_item = Some item"

definition turn_config :: "runtime_state \<Rightarrow> config_epoch_id \<Rightarrow> string \<Rightarrow> config_epoch turn_result" where
  "turn_config s config reason = ok_or (bt_get (rs_configs s) config) (CorruptRuntimeState reason)"

definition turn_lookup :: "runtime_state \<Rightarrow> turn_id \<Rightarrow> string \<Rightarrow> turn_record turn_result" where
  "turn_lookup s turn reason = ok_or (bt_get (rs_turns s) turn) (CorruptRuntimeState reason)"

record usage_context =
  uc_thread :: thread_id
  uc_agent :: "agent_id option"
  uc_profile :: string
  uc_model :: string
  uc_dialect :: "provider_dialect option"
  uc_context_mode :: context_mode
  uc_reasoning_effort :: "reasoning_effort option"
  uc_service_tier :: "service_tier option"

text \<open>\<open>RuntimeState::usage_context\<close>\<close>

definition turn_usage_context :: "runtime_state \<Rightarrow> turn_id \<Rightarrow> usage_context turn_result" where
  "turn_usage_context s turn =
     andthen (ok_or (rs_thread s) (CorruptRuntimeState ''usage Thread is missing'')) (\<lambda>thread.
     andthen (turn_lookup s turn ''usage Turn is missing'') (\<lambda>r.
     let (config, provider) = (case rs_pending s of
         Some p \<Rightarrow> if pt_turn p = turn then (pt_config p, pt_provider p) else (tn_config r, tn_provider r)
       | None \<Rightarrow> (tn_config r, tn_provider r)) in
     andthen (ok_or (bt_get (rs_providers s) provider) (CorruptRuntimeState ''usage Provider Epoch is missing'')) (\<lambda>pe.
     andthen (turn_config s config ''usage Config Epoch is missing'') (\<lambda>cf.
     Ok \<lparr>uc_thread = thread, uc_agent = tn_agent r, uc_profile = pe_profile pe, uc_model = pe_model pe,
         uc_dialect = pe_dialect pe, uc_context_mode = so_value (rc_context_mode (cf_resolved cf)),
         uc_reasoning_effort = map_option so_value (rc_reasoning_effort (cf_resolved cf)),
         uc_service_tier = map_option so_value (rc_service_tier (cf_resolved cf))\<rparr>))))"

text \<open>The attempt that is recorded for a finished request, with the requested policy of its context.\<close>

definition context_attempt ::
  "usage_context \<Rightarrow> turn_id \<Rightarrow> u32 \<Rightarrow> usage_timestamp option \<Rightarrow> usage_timestamp option \<Rightarrow> usage_attempt_outcome
     \<Rightarrow> usage_record option \<Rightarrow> usage_window list \<Rightarrow> usage_attempt turn_result"
where
  "context_attempt c turn attempt started_at completed_at outcome usage windows =
     map_ok (\<lambda>a. with_requested_policy a (Some (mode_as_str (uc_context_mode c)))
         (map_option effort_as_str (uc_reasoning_effort c)) (map_option tier_as_str (uc_service_tier c)))
       (map_err RtUsage (usage_attempt_new attempt (nonzero_get (uc_thread c)) (nonzero_get turn)
         (map_option id_get (uc_agent c)) (uc_profile c) (uc_model c) (uc_dialect c) started_at completed_at outcome
         usage windows))"

definition record_attempt :: "runtime_state \<Rightarrow> usage_attempt \<Rightarrow> runtime_state turn_result" where
  "record_attempt s a = map_ok (\<lambda>u. s\<lparr>rs_usage := u\<rparr>) (map_err RtUsage (projection_record (rs_usage s) a))"

end
