(* ===== verification/Turn_Apply.thy ===== *)
theory Turn_Apply
  imports Turn_State
begin

text \<open>
  \<open>RuntimeState::apply\<close> and \<open>RuntimeState::validate_quiescent\<close> (\<open>greentyper-core/src/runtime.rs\<close>).
\<close>

section \<open>Checkpoints, selections, snapshots\<close>

definition apply_checkpoint :: "hasher \<Rightarrow> runtime_state \<Rightarrow> context_checkpoint \<Rightarrow> runtime_state turn_result" where
  "apply_checkpoint sha256 s checkpoint =
     (if rs_pending s \<noteq> None then corrupt ''Context checkpoint was published outside a Safe Barrier''
      else
      andthen (map_err RtContext (validate_against_items sha256 checkpoint (rs_items s))) (\<lambda>_.
      Ok (s\<lparr>rs_checkpoint := Some checkpoint\<rparr>)))"

definition apply_selection_staged :: "runtime_state \<Rightarrow> agent_id \<Rightarrow> model_selection \<Rightarrow> runtime_state turn_result" where
  "apply_selection_staged s agent selection =
     (if rs_pending s \<noteq> None then corrupt ''Model selection was staged during an active Turn''
      else if (case rs_model_selection s of Some p \<Rightarrow> mp_agent p \<noteq> agent | None \<Rightarrow> False)
      then corrupt ''Model selection changed Agent ownership''
      else Ok (s\<lparr>rs_model_selection := Some \<lparr>mp_agent = agent, mp_selection = selection\<rparr>\<rparr>))"

definition apply_thread_created :: "runtime_state \<Rightarrow> thread_id \<Rightarrow> runtime_state turn_result" where
  "apply_thread_created s thread =
     (if rs_thread s \<noteq> None \<or> rs_turns s \<noteq> [] then corrupt ''Thread was created more than once''
      else
      andthen (observe_id (rs_next_thread s) (nonzero_get thread)) (\<lambda>next_thread.
      Ok (s\<lparr>rs_thread := Some thread, rs_next_thread := next_thread\<rparr>)))"

definition apply_config_frozen :: "runtime_state \<Rightarrow> config_epoch \<Rightarrow> runtime_state turn_result" where
  "apply_config_frozen s epoch =
     (if bt_contains_key (rs_configs s) (cf_id epoch) then corrupt ''duplicate Config Epoch''
      else
      andthen (observe_id (rs_next_config s) (nonzero_get (cf_id epoch))) (\<lambda>next_config.
      Ok (s\<lparr>rs_configs := bt_insert (cf_id epoch) epoch (rs_configs s), rs_next_config := next_config\<rparr>)))"

definition apply_provider_frozen :: "runtime_state \<Rightarrow> provider_epoch \<Rightarrow> runtime_state turn_result" where
  "apply_provider_frozen s epoch =
     (if bt_contains_key (rs_providers s) (pe_id epoch) then corrupt ''duplicate Provider Epoch''
      else
      andthen (observe_id (rs_next_provider s) (nonzero_get (pe_id epoch))) (\<lambda>next_provider.
      Ok (s\<lparr>rs_providers := bt_insert (pe_id epoch) epoch (rs_providers s), rs_next_provider := next_provider\<rparr>)))"

section \<open>Admission\<close>

text \<open>One turn of the loop over the fallbacks; the two lists are the sets that collect their epochs.\<close>

definition check_fallback ::
  "runtime_state \<Rightarrow> config_epoch_id \<Rightarrow> provider_epoch_id \<Rightarrow> config_epoch_id list \<times> provider_epoch_id list
     \<Rightarrow> frozen_provider_fallback \<Rightarrow> (config_epoch_id list \<times> provider_epoch_id list) turn_result"
where
  "check_fallback s config provider acc f =
     (case acc of (fallback_configs, fallback_providers) \<Rightarrow>
        if \<not> valid_preset_id (fb_preset_id f) \<or> fb_config f = config \<or> fb_provider f = provider
           \<or> fb_config f \<in> set fallback_configs \<or> fb_provider f \<in> set fallback_providers
           \<or> \<not> bt_contains_key (rs_configs s) (fb_config f) \<or> \<not> bt_contains_key (rs_providers s) (fb_provider f)
        then corrupt ''Provider fallback snapshot is invalid''
        else Ok (fb_config f # fallback_configs, fb_provider f # fallback_providers))"

definition selection_matches :: "model_selection \<Rightarrow> config_epoch \<Rightarrow> bool" where
  "selection_matches m epoch \<longleftrightarrow> cf_fingerprint epoch = ms_config_fingerprint m
     \<and> so_value (rc_provider_profile (cf_resolved epoch)) = ms_provider_profile m
     \<and> so_value (rc_provider_model (cf_resolved epoch)) = ms_provider_model m"

text \<open>The pending selection must be the one this Turn takes; it is used up.\<close>

definition take_selection :: "runtime_state \<Rightarrow> config_epoch_id \<Rightarrow> agent_id option \<Rightarrow> runtime_state turn_result" where
  "take_selection s config agent =
     (case rs_model_selection s of
        None \<Rightarrow> Ok s
      | Some p \<Rightarrow>
          andthen (turn_config s config ''Turn snapshot is missing'') (\<lambda>epoch.
          if agent \<noteq> Some (mp_agent p) \<or> \<not> selection_matches (mp_selection p) epoch
          then corrupt ''Turn does not match pending Model selection''
          else Ok (s\<lparr>rs_model_selection := None\<rparr>)))"

definition apply_turn_admitted ::
  "runtime_state \<Rightarrow> thread_id \<Rightarrow> turn_id \<Rightarrow> item_id \<Rightarrow> config_epoch_id \<Rightarrow> provider_epoch_id
     \<Rightarrow> frozen_provider_fallback list \<Rightarrow> agent_id option \<Rightarrow> string \<Rightarrow> runtime_state turn_result"
where
  "apply_turn_admitted s thread turn user_item config provider fallbacks agent input =
     (if rs_thread s \<noteq> Some thread \<or> rs_pending s \<noteq> None then corrupt ''invalid Turn admission''
      else if \<not> bt_contains_key (rs_configs s) config \<or> \<not> bt_contains_key (rs_providers s) provider
      then corrupt ''Turn snapshot is missing''
      else if length fallbacks \<ge> MAX_FALLBACK_CANDIDATES then corrupt ''Provider fallback count is invalid''
      else
      andthen (try_fold (check_fallback s config provider) ([], []) fallbacks) (\<lambda>_.
      andthen (take_selection s config agent) (\<lambda>s.
      if bt_contains_key (rs_turns s) turn \<or> item_exists s user_item then corrupt ''duplicate Turn or Item id''
      else
      andthen (validate_input input) (\<lambda>_.
      andthen (map_err RtModel (canonical_item_new user_item turn RoleUser input)) (\<lambda>item.
      andthen (observe_id (rs_next_turn s) (nonzero_get turn)) (\<lambda>next_turn.
      andthen (observe_id (rs_next_item s) (nonzero_get user_item)) (\<lambda>next_item.
      Ok (s\<lparr>rs_items := rs_items s @ [item],
            rs_turns := bt_insert turn
              \<lparr>tn_user_item = user_item, tn_config = config, tn_provider = provider, tn_fallbacks = fallbacks,
               tn_agent = agent, tn_assistant_item = None, tn_delivery = None, tn_completed = False,
               tn_cancelled = False\<rparr> (rs_turns s),
            rs_pending := Some
              \<lparr>pt_turn = turn, pt_config = config, pt_provider = provider, pt_fallback_index = 0, pt_agent = agent,
               pt_input = input, pt_phase = PhaseAdmitted, pt_assistant_item = None, pt_streamed_text = [],
               pt_prepared = None, pt_acknowledged = False, pt_blocked_reason = None, pt_block_origin = None,
               pt_unavailable_stage = None, pt_next_usage_attempt = 1, pt_open_usage_attempt = None\<rparr>,
            rs_next_turn := next_turn, rs_next_item := next_item\<rparr>))))))))"

section \<open>Output\<close>

definition apply_item_started :: "runtime_state \<Rightarrow> turn_id \<Rightarrow> item_id \<Rightarrow> runtime_state turn_result" where
  "apply_item_started s turn item =
     (if item_exists s item then corrupt ''duplicate Assistant Item id''
      else
      andthen (pending_for s turn) (\<lambda>p.
      if pt_phase p \<noteq> PhaseAdmitted \<or> pt_assistant_item p \<noteq> None then corrupt ''invalid Assistant Item start''
      else
      andthen (observe_id (rs_next_item s) (nonzero_get item)) (\<lambda>next_item.
      Ok ((put_pending s (p\<lparr>pt_phase := PhaseStreaming, pt_assistant_item := Some item\<rparr>))\<lparr>rs_next_item := next_item\<rparr>))))"

definition apply_text_delta :: "runtime_state \<Rightarrow> turn_id \<Rightarrow> item_id \<Rightarrow> string \<Rightarrow> runtime_state turn_result" where
  "apply_text_delta s turn item delta =
     (if delta = [] then corrupt ''empty Assistant text delta''
      else
      andthen (pending_for s turn) (\<lambda>p.
      if pt_phase p \<noteq> PhaseStreaming \<or> pt_assistant_item p \<noteq> Some item then corrupt ''invalid Assistant text delta''
      else
      andthen (ok_or (usize_add (length (pt_streamed_text p)) (length delta)) RtIntegerOverflow) (\<lambda>next_length.
      if next_length > MAX_INPUT_BYTES then corrupt ''Assistant output is too large''
      else Ok (put_pending s (p\<lparr>pt_streamed_text := pt_streamed_text p @ delta\<rparr>)))))"

text \<open>One turn of the loop over the usage records of an old prepared output, which had no attempts of
  their own.\<close>

definition record_legacy_usage ::
  "usage_context \<Rightarrow> turn_id \<Rightarrow> u32 \<Rightarrow> runtime_state \<Rightarrow> usize \<times> usage_record \<Rightarrow> runtime_state turn_result"
where
  "record_legacy_usage c turn next_attempt s offset_usage =
     (case offset_usage of (offset, usage) \<Rightarrow>
        andthen (ok_or (u32_try_from offset) RtIntegerOverflow) (\<lambda>offset.
        andthen (ok_or (checked_add next_attempt offset) RtIntegerOverflow) (\<lambda>attempt.
        andthen (context_attempt c turn attempt None None Succeeded (Some usage) []) (\<lambda>a.
        record_attempt s a))))"

definition apply_legacy_usage :: "runtime_state \<Rightarrow> turn_id \<Rightarrow> pending_turn \<Rightarrow> usage_record list \<Rightarrow> runtime_state turn_result" where
  "apply_legacy_usage s turn p usage_records =
     andthen (turn_usage_context s turn) (\<lambda>c.
     andthen (try_fold (record_legacy_usage c turn (pt_next_usage_attempt p)) s (enumerate 0 usage_records)) (\<lambda>s.
     andthen (ok_or (u32_try_from (length usage_records)) RtIntegerOverflow) (\<lambda>count.
     andthen (ok_or (checked_add (pt_next_usage_attempt p) count) RtIntegerOverflow) (\<lambda>next_attempt.
     Ok (put_pending s (p\<lparr>pt_next_usage_attempt := next_attempt\<rparr>))))))"

definition apply_output_prepared ::
  "runtime_state \<Rightarrow> turn_id \<Rightarrow> item_id \<Rightarrow> delivery_id \<Rightarrow> string \<Rightarrow> usage_record list \<Rightarrow> bool \<Rightarrow> runtime_state turn_result"
where
  "apply_output_prepared s turn item delivery text usage_records legacy_usage =
     (if delivery |\<in>| rs_acknowledged s then corrupt ''duplicate Delivery id''
      else if usage_records = [] \<or> length usage_records > MAX_USAGE_RECORDS_PER_TURN
      then corrupt ''invalid prepared usage record count''
      else
      andthen (pending_for s turn) (\<lambda>p.
      if pt_phase p \<noteq> PhaseStreaming \<or> pt_assistant_item p \<noteq> Some item \<or> pt_streamed_text p \<noteq> text
         \<or> pt_prepared p \<noteq> None
      then corrupt ''invalid prepared output''
      else
      andthen (turn_config s (pt_config p) ''prepared Config Epoch is missing'') (\<lambda>config.
      if trim text = [] then corrupt ''prepared output cannot be empty''
      else if length text > unat (so_value (rc_max_output_bytes (cf_resolved config)))
      then corrupt ''prepared output exceeds the frozen Config Epoch limit''
      else
      andthen (if legacy_usage then apply_legacy_usage s turn p usage_records
        else if pt_open_usage_attempt p \<noteq> None
        then corrupt ''prepared output has an unfinished usage attempt'' else Ok s) (\<lambda>s.
      andthen (map_err RtModel (canonical_item_new item turn RoleAssistant text)) (\<lambda>assistant.
      andthen (pending_for s turn) (\<lambda>p.
      andthen (turn_lookup s turn ''prepared Turn is missing'') (\<lambda>r.
      andthen (observe_id (rs_next_delivery s) (nonzero_get delivery)) (\<lambda>next_delivery.
      Ok ((put_pending s (p\<lparr>pt_phase := PhasePrepared,
              pt_prepared := Some \<lparr>pd_item = item, pd_delivery = delivery, pd_usage_records = usage_records\<rparr>\<rparr>))
           \<lparr>rs_items := rs_items s @ [assistant],
            rs_turns := bt_insert turn (r\<lparr>tn_assistant_item := Some item, tn_delivery := Some delivery\<rparr>) (rs_turns s),
            rs_next_delivery := next_delivery\<rparr>)))))))))"

definition apply_output_acknowledged :: "runtime_state \<Rightarrow> turn_id \<Rightarrow> delivery_id \<Rightarrow> runtime_state turn_result" where
  "apply_output_acknowledged s turn delivery =
     andthen (pending_for s turn) (\<lambda>p.
     if pt_phase p \<noteq> PhasePrepared \<or> pt_acknowledged p \<or> map_option pd_delivery (pt_prepared p) \<noteq> Some delivery
     then corrupt ''invalid output acknowledgement''
     else if delivery |\<in>| rs_acknowledged s then corrupt ''duplicate output acknowledgement''
     else Ok ((put_pending s (p\<lparr>pt_acknowledged := True\<rparr>))\<lparr>rs_acknowledged := finsert delivery (rs_acknowledged s)\<rparr>))"

definition apply_turn_completed :: "runtime_state \<Rightarrow> turn_id \<Rightarrow> runtime_state turn_result" where
  "apply_turn_completed s turn =
     andthen (pending_for s turn) (\<lambda>p.
     if pt_phase p \<noteq> PhasePrepared \<or> \<not> pt_acknowledged p then corrupt ''Turn completed before output ack''
     else
     andthen (turn_lookup s turn ''completed Turn is missing'') (\<lambda>r.
     Ok (s\<lparr>rs_turns := bt_insert turn (r\<lparr>tn_completed := True\<rparr>) (rs_turns s), rs_pending := None\<rparr>)))"

section \<open>Blocking, cancelling, retrying\<close>

definition apply_turn_blocked ::
  "runtime_state \<Rightarrow> turn_id \<Rightarrow> string \<Rightarrow> turn_block_origin \<Rightarrow> provider_unavailable_stage option \<Rightarrow> runtime_state turn_result"
where
  "apply_turn_blocked s turn reason origin stage =
     (if trim reason = [] \<or> length reason > MAX_BLOCK_REASON_BYTES \<or> has_control reason
         \<or> (stage \<noteq> None \<and> origin \<noteq> OriginProvider)
      then corrupt ''invalid blocked reason''
      else
      andthen (pending_for s turn) (\<lambda>p.
      if pt_phase p \<noteq> PhaseAdmitted \<or> pt_open_usage_attempt p \<noteq> None then corrupt ''invalid blocked transition''
      else Ok (put_pending s (p\<lparr>pt_phase := PhaseBlocked, pt_blocked_reason := Some reason,
             pt_block_origin := Some origin, pt_unavailable_stage := stage\<rparr>))))"

text \<open>The conditions that cancelling, retrying and falling back share.\<close>

definition blocked_by_provider :: "pending_turn \<Rightarrow> bool" where
  "blocked_by_provider p \<longleftrightarrow> pt_phase p = PhaseBlocked \<and> pt_block_origin p = Some OriginProvider
     \<and> pt_open_usage_attempt p = None \<and> pt_prepared p = None \<and> pt_assistant_item p = None
     \<and> pt_streamed_text p = [] \<and> \<not> pt_acknowledged p"

definition readmitted :: "pending_turn \<Rightarrow> pending_turn" where
  "readmitted p = p\<lparr>pt_phase := PhaseAdmitted, pt_blocked_reason := None, pt_block_origin := None,
     pt_unavailable_stage := None\<rparr>"

definition apply_turn_cancelled :: "runtime_state \<Rightarrow> turn_id \<Rightarrow> runtime_state turn_result" where
  "apply_turn_cancelled s turn =
     andthen (pending_for s turn) (\<lambda>p.
     if \<not> blocked_by_provider p then corrupt ''invalid Turn cancellation''
     else
     andthen (turn_lookup s turn ''cancelled Turn is missing'') (\<lambda>r.
     if tn_completed r \<or> tn_cancelled r then corrupt ''invalid Turn cancellation''
     else Ok (s\<lparr>rs_turns := bt_insert turn (r\<lparr>tn_cancelled := True\<rparr>) (rs_turns s), rs_pending := None\<rparr>)))"

definition apply_retry_requested :: "runtime_state \<Rightarrow> turn_id \<Rightarrow> runtime_state turn_result" where
  "apply_retry_requested s turn =
     andthen (pending_for s turn) (\<lambda>p.
     if \<not> blocked_by_provider p \<or> \<not> stage_is_retryable (pt_unavailable_stage p) then corrupt ''invalid Turn retry''
     else Ok (put_pending s (readmitted p)))"

definition apply_fallback_requested :: "runtime_state \<Rightarrow> turn_id \<Rightarrow> u32 \<Rightarrow> runtime_state turn_result" where
  "apply_fallback_requested s turn fallback_index =
     andthen (ok_or (Option.bind (bt_get (rs_turns s) turn) (\<lambda>r.
         let position = unat fallback_index in
         if position = 0 \<or> position - 1 \<ge> length (tn_fallbacks r) then None
         else Some (tn_fallbacks r ! (position - 1))))
       (CorruptRuntimeState ''Provider fallback index is invalid'')) (\<lambda>f.
     andthen (pending_for s turn) (\<lambda>p.
     if \<not> blocked_by_provider p \<or> \<not> stage_is_retryable (pt_unavailable_stage p)
        \<or> checked_add (pt_fallback_index p) 1 \<noteq> Some fallback_index
     then corrupt ''invalid Provider fallback transition''
     else Ok (put_pending s ((readmitted p)\<lparr>pt_config := fb_config f, pt_provider := fb_provider f,
            pt_fallback_index := fallback_index\<rparr>))))"

section \<open>Usage attempts\<close>

definition apply_attempt_started :: "runtime_state \<Rightarrow> turn_id \<Rightarrow> u32 \<Rightarrow> usage_timestamp \<Rightarrow> runtime_state turn_result" where
  "apply_attempt_started s turn attempt started_at =
     andthen (pending_for s turn) (\<lambda>p.
     if pt_phase p \<noteq> PhaseAdmitted \<or> pt_open_usage_attempt p \<noteq> None \<or> attempt \<noteq> pt_next_usage_attempt p \<or> attempt = 0
     then corrupt ''invalid usage attempt start''
     else
     andthen (ok_or (checked_add (pt_next_usage_attempt p) 1) RtIntegerOverflow) (\<lambda>next_attempt.
     Ok (put_pending s (p\<lparr>pt_next_usage_attempt := next_attempt,
       pt_open_usage_attempt := Some \<lparr>oa_attempt = attempt, oa_started_at = started_at\<rparr>\<rparr>))))"

text \<open>One turn of the loop over the named windows: each is a window of the frozen epoch, named once.\<close>

definition resolve_named_window ::
  "usage_window list \<Rightarrow> string list \<times> usage_window list \<Rightarrow> string \<Rightarrow> (string list \<times> usage_window list) turn_result"
where
  "resolve_named_window windows acc window =
     (case acc of (seen, resolved_windows) \<Rightarrow>
        andthen (ok_or (List.find (\<lambda>candidate. uw_id candidate = window) windows)
          (CorruptRuntimeState ''usage attempt named window is invalid'')) (\<lambda>resolved.
        if window \<in> set seen then corrupt ''usage attempt named window is invalid''
        else Ok (window # seen, resolved_windows @ [resolved])))"

definition open_attempt_for :: "runtime_state \<Rightarrow> turn_id \<Rightarrow> u32 \<Rightarrow> (pending_turn \<times> open_usage_attempt) turn_result" where
  "open_attempt_for s turn attempt =
     (case rs_pending s of
        Some p \<Rightarrow> if pt_turn p = turn \<and> pt_phase p = PhaseAdmitted \<and> map_option oa_attempt (pt_open_usage_attempt p) = Some attempt
          then Ok (p, the (pt_open_usage_attempt p)) else corrupt ''invalid usage attempt finish''
      | None \<Rightarrow> corrupt ''invalid usage attempt finish'')"

definition apply_attempt_finished ::
  "runtime_state \<Rightarrow> turn_id \<Rightarrow> u32 \<Rightarrow> usage_timestamp \<Rightarrow> usage_attempt_outcome \<Rightarrow> usage_record option \<Rightarrow> string list
     \<Rightarrow> bool \<Rightarrow> runtime_state turn_result"
where
  "apply_attempt_finished s turn attempt completed_at outcome usage named_windows cost_evaluation_required =
     (if (outcome = Succeeded) \<noteq> (usage \<noteq> None) then corrupt ''usage attempt outcome and record disagree''
      else
      andthen (open_attempt_for s turn attempt) (\<lambda>(p, open_attempt).
      if completed_at < oa_started_at open_attempt then corrupt ''usage attempt completed before it started''
      else
      andthen (turn_config s (pt_config p) ''usage Config Epoch is missing'') (\<lambda>config.
      andthen (try_fold (resolve_named_window (cf_usage_windows config)) ([], []) named_windows) (\<lambda>(_, resolved_windows).
      andthen (turn_usage_context s turn) (\<lambda>c.
      andthen (context_attempt c turn attempt (Some (oa_started_at open_attempt)) (Some completed_at) outcome usage
        resolved_windows) (\<lambda>a.
      andthen (record_attempt (put_pending s (p\<lparr>pt_open_usage_attempt := None\<rparr>)) a) (\<lambda>s.
      Ok (if cost_evaluation_required then s\<lparr>rs_pending_cost := Some (turn, attempt)\<rparr> else s))))))))"

text \<open>What the evaluation must be: the estimate from the frozen prices.\<close>

definition expected_cost :: "usage_context \<Rightarrow> config_epoch \<Rightarrow> usage_attempt \<Rightarrow> cost_estimate_outcome turn_result" where
  "expected_cost c config a =
     (case ua_usage a of
        None \<Rightarrow> Ok (Unknown MissingUsageRecord)
      | Some usage \<Rightarrow>
          andthen (ok_or (ua_started_at a) (CorruptRuntimeState ''Cost Estimate usage attempt has no start instant'')) (\<lambda>started_at.
          Ok (estimate_attempt (cf_price_schedules config) (uc_profile c) (uc_model c) (uc_dialect c) started_at usage)))"

definition apply_cost_evaluated :: "runtime_state \<Rightarrow> turn_id \<Rightarrow> u32 \<Rightarrow> frozen_cost_evaluation \<Rightarrow> runtime_state turn_result" where
  "apply_cost_evaluated s turn attempt evaluation =
     (if rs_pending_cost s \<noteq> Some (turn, attempt) then corrupt ''Cost Estimate has no pending Usage Attempt''
      else
      andthen (turn_usage_context s turn) (\<lambda>c.
      andthen (ok_or (case rs_pending s of
          Some p \<Rightarrow> if pt_turn p = turn then bt_get (rs_configs s) (pt_config p) else None
        | None \<Rightarrow> None) (CorruptRuntimeState ''Cost Estimate Config Epoch is missing'')) (\<lambda>config.
      andthen (ok_or (projection_attempt (rs_usage s) (nonzero_get turn) attempt)
        (CorruptRuntimeState ''Cost Estimate usage attempt is missing'')) (\<lambda>a.
      andthen (expected_cost c config a) (\<lambda>expected.
      if \<not> evaluation_matches evaluation expected
      then corrupt ''Cost Estimate does not match frozen usage and pricing evidence''
      else
      case projection_record_cost (rs_usage s) (nonzero_get turn) attempt expected of (r, usage) \<Rightarrow>
      andthen (map_err RtUsage r) (\<lambda>_.
      Ok (s\<lparr>rs_usage := usage, rs_pending_cost := None\<rparr>)))))))"

section \<open>\<open>apply\<close>\<close>

primrec evaluates :: "(turn_id \<times> u32) option \<Rightarrow> runtime_event \<Rightarrow> bool" where
  "evaluates k (ContextCheckpointPublished _) = False"
| "evaluates k (ModelSelectionStaged _ _) = False"
| "evaluates k (ThreadCreated _) = False"
| "evaluates k (ConfigFrozen _) = False"
| "evaluates k (ProviderFrozen _) = False"
| "evaluates k (TurnAdmitted _ _ _ _ _ _ _ _) = False"
| "evaluates k (AssistantItemStarted _ _) = False"
| "evaluates k (AssistantTextDelta _ _ _) = False"
| "evaluates k (OutputPrepared _ _ _ _ _ _) = False"
| "evaluates k (OutputAcknowledged _ _) = False"
| "evaluates k (TurnCompleted _) = False"
| "evaluates k (TurnBlocked _ _ _ _) = False"
| "evaluates k (TurnCancelled _) = False"
| "evaluates k (TurnRetryRequested _) = False"
| "evaluates k (ProviderFallbackRequested _ _) = False"
| "evaluates k (UsageAttemptStarted _ _ _) = False"
| "evaluates k (UsageAttemptFinished _ _ _ _ _ _ _) = False"
| "evaluates k (UsageAttemptCostEvaluated turn attempt _) = (k = Some (turn, attempt))"

primrec apply_kind :: "hasher \<Rightarrow> runtime_state \<Rightarrow> runtime_event \<Rightarrow> runtime_state turn_result" where
  "apply_kind h s (ContextCheckpointPublished checkpoint) = apply_checkpoint h s checkpoint"
| "apply_kind h s (ModelSelectionStaged agent selection) = apply_selection_staged s agent selection"
| "apply_kind h s (ThreadCreated thread) = apply_thread_created s thread"
| "apply_kind h s (ConfigFrozen epoch) = apply_config_frozen s epoch"
| "apply_kind h s (ProviderFrozen epoch) = apply_provider_frozen s epoch"
| "apply_kind h s (TurnAdmitted thread turn user_item config provider fallbacks agent input) =
     apply_turn_admitted s thread turn user_item config provider fallbacks agent input"
| "apply_kind h s (AssistantItemStarted turn item) = apply_item_started s turn item"
| "apply_kind h s (AssistantTextDelta turn item delta) = apply_text_delta s turn item delta"
| "apply_kind h s (OutputPrepared turn item delivery text usage_records legacy_usage) =
     apply_output_prepared s turn item delivery text usage_records legacy_usage"
| "apply_kind h s (OutputAcknowledged turn delivery) = apply_output_acknowledged s turn delivery"
| "apply_kind h s (TurnCompleted turn) = apply_turn_completed s turn"
| "apply_kind h s (TurnBlocked turn reason origin stage) = apply_turn_blocked s turn reason origin stage"
| "apply_kind h s (TurnCancelled turn) = apply_turn_cancelled s turn"
| "apply_kind h s (TurnRetryRequested turn) = apply_retry_requested s turn"
| "apply_kind h s (ProviderFallbackRequested turn fallback_index) = apply_fallback_requested s turn fallback_index"
| "apply_kind h s (UsageAttemptStarted turn attempt started_at) = apply_attempt_started s turn attempt started_at"
| "apply_kind h s (UsageAttemptFinished turn attempt completed_at outcome usage named_windows required) =
     apply_attempt_finished s turn attempt completed_at outcome usage named_windows required"
| "apply_kind h s (UsageAttemptCostEvaluated turn attempt evaluation) = apply_cost_evaluated s turn attempt evaluation"

definition turn_apply :: "hasher \<Rightarrow> runtime_state \<Rightarrow> runtime_event \<Rightarrow> runtime_state turn_result" where
  "turn_apply sha256 s event =
     (if rs_pending_cost s \<noteq> None \<and> \<not> evaluates (rs_pending_cost s) event
      then corrupt ''Usage cost evaluation must immediately follow its attempt''
      else apply_kind sha256 s event)"

section \<open>Whole-state checks\<close>

definition turn_record_ok :: "runtime_state \<Rightarrow> turn_id \<times> turn_record \<Rightarrow> unit turn_result" where
  "turn_record_ok s entry =
     (case entry of (turn, r) \<Rightarrow>
        if \<not> bt_contains_key (rs_configs s) (tn_config r) \<or> \<not> bt_contains_key (rs_providers s) (tn_provider r)
           \<or> list_ex (\<lambda>f. \<not> bt_contains_key (rs_configs s) (fb_config f) \<or> \<not> bt_contains_key (rs_providers s) (fb_provider f))
               (tn_fallbacks r)
           \<or> \<not> list_ex (\<lambda>item. ci_id item = tn_user_item r \<and> ci_turn item = turn) (rs_items s)
        then corrupt ''Turn record is incomplete''
        else if tn_completed r \<and> tn_delivery r = None then corrupt ''completed Turn has no delivery''
        else if tn_completed r \<and> tn_cancelled r then corrupt ''Turn has conflicting terminal states''
        else if tn_cancelled r \<and> (tn_assistant_item r \<noteq> None \<or> tn_delivery r \<noteq> None)
        then corrupt ''cancelled Turn has prepared output''
        else if (map_option pt_turn (rs_pending s) = Some turn) = (tn_completed r \<or> tn_cancelled r)
        then corrupt ''Turn terminal state disagrees with pending state''
        else Ok ())"

definition count_snapshots :: "usize \<Rightarrow> turn_record \<Rightarrow> usize turn_result" where
  "count_snapshots sofar r =
     ok_or (Option.bind (usize_add sofar 1) (\<lambda>n. usize_add n (length (tn_fallbacks r)))) RtIntegerOverflow"

definition turn_validate_quiescent :: "runtime_state \<Rightarrow> unit turn_result" where
  "turn_validate_quiescent s =
     (if (rs_turns s = []) \<noteq> (rs_thread s = None) then corrupt ''Thread and Turn history disagree''
      else
      andthen (try_fold count_snapshots 0 (bt_values (rs_turns s))) (\<lambda>expected_snapshots.
      if length (rs_configs s) \<noteq> expected_snapshots \<or> length (rs_providers s) \<noteq> expected_snapshots
      then corrupt ''snapshot and Turn counts disagree''
      else if map_option pt_phase (rs_pending s) = Some PhaseStreaming
      then corrupt ''output transaction ended while streaming''
      else if rs_pending_cost s \<noteq> None then corrupt ''Usage transaction ended before cost evaluation''
      else try_each (turn_record_ok s) (rs_turns s)))"

text \<open>The events of one transaction, as \<open>commit\<close> and \<open>replay_runtime\<close> apply them.\<close>

definition turn_transaction :: "hasher \<Rightarrow> runtime_state \<Rightarrow> runtime_event list \<Rightarrow> runtime_state turn_result" where
  "turn_transaction sha256 s events =
     andthen (try_fold (turn_apply sha256) s events) (\<lambda>s'. map_ok (\<lambda>_. s') (turn_validate_quiescent s'))"

end
