(* ===== verification/Turn_Laws.thy ===== *)
theory Turn_Laws
  imports Turn_Apply Usage_Scopes
begin

text \<open>
  What an accepted Turn event changes, and the invariants of every state that accepted events reach:
  the pending Turn and its phase, the settled Turns, the deliveries, the identifiers, and the usage attempts.
\<close>

section \<open>Accepted events\<close>

lemma corrupt_not_Ok [simp]: "corrupt r \<noteq> Ok x"
  by (simp add: corrupt_def)

lemma if_corrupt_eq_Ok [result_ok]: "(if b then corrupt r else m) = Ok x \<longleftrightarrow> \<not> b \<and> m = Ok x"
  by simp

lemma if_corrupt_else_eq_Ok [result_ok]: "(if b then m else corrupt r) = Ok x \<longleftrightarrow> b \<and> m = Ok x"
  by simp

lemma observe_id_Ok [result_ok]: "observe_id n x = Ok m \<longleftrightarrow> (\<exists>y. checked_add x 1 = Some y \<and> m = max n y)"
  by (auto simp: observe_id_def result_ok)

lemma observe_id_bounds:
  assumes "checked_add x (1 :: u64) = Some y"
  shows "x < max n y" "n \<le> max n y"
  using checked_add_one_gt [OF assms] by (auto simp: max_def)

lemma pending_for_Ok [result_ok]: "pending_for s turn = Ok p \<longleftrightarrow> rs_pending s = Some p \<and> pt_turn p = turn"
  by (auto simp: pending_for_def split: option.splits)

lemma turn_lookup_Ok [result_ok]: "turn_lookup s turn reason = Ok r \<longleftrightarrow> bt_get (rs_turns s) turn = Some r"
  by (simp add: turn_lookup_def result_ok)

lemma turn_config_Ok [result_ok]: "turn_config s config reason = Ok c \<longleftrightarrow> bt_get (rs_configs s) config = Some c"
  by (simp add: turn_config_def result_ok)

lemma record_attempt_Ok [result_ok]:
  "record_attempt s a = Ok s' \<longleftrightarrow> (\<exists>u. projection_record (rs_usage s) a = Ok u \<and> s' = s\<lparr>rs_usage := u\<rparr>)"
  by (simp add: record_attempt_def result_ok)

lemma canonical_item_new_Ok [result_ok]:
  "canonical_item_new i t role text = Ok item \<longleftrightarrow> trim text \<noteq> [] \<and> length text \<le> MAX_ITEM_TEXT_BYTES
     \<and> item = \<lparr>ci_id = i, ci_turn = t, ci_role = role, ci_text = text\<rparr>"
  by (auto simp: canonical_item_new_def)

lemma validate_input_Ok [result_ok]: "validate_input v = Ok u \<longleftrightarrow> trim v \<noteq> [] \<and> length v \<le> MAX_INPUT_BYTES"
  by (auto simp: validate_input_def)

lemma take_selection_OkD:
  "take_selection s config agent = Ok s' \<Longrightarrow> s' = s \<and> rs_model_selection s = None \<or> s' = s\<lparr>rs_model_selection := None\<rparr>"
  by (auto simp: take_selection_def result_ok split: option.splits)

text \<open>The states before and after an accepted event differ as one of these rules says.\<close>

definition admitted_turn ::
  "turn_id \<Rightarrow> config_epoch_id \<Rightarrow> provider_epoch_id \<Rightarrow> agent_id option \<Rightarrow> string \<Rightarrow> pending_turn" where
  "admitted_turn turn config provider agent input =
     \<lparr>pt_turn = turn, pt_config = config, pt_provider = provider, pt_fallback_index = 0, pt_agent = agent,
      pt_input = input, pt_phase = PhaseAdmitted, pt_assistant_item = None, pt_streamed_text = [],
      pt_prepared = None, pt_acknowledged = False, pt_blocked_reason = None, pt_block_origin = None,
      pt_unavailable_stage = None, pt_next_usage_attempt = 1, pt_open_usage_attempt = None\<rparr>"

definition admitted_record ::
  "item_id \<Rightarrow> config_epoch_id \<Rightarrow> provider_epoch_id \<Rightarrow> frozen_provider_fallback list \<Rightarrow> agent_id option \<Rightarrow> turn_record" where
  "admitted_record user_item config provider fallbacks agent =
     \<lparr>tn_user_item = user_item, tn_config = config, tn_provider = provider, tn_fallbacks = fallbacks,
      tn_agent = agent, tn_assistant_item = None, tn_delivery = None, tn_completed = False, tn_cancelled = False\<rparr>"

lemma turn_admitted_OkD:
  assumes "apply_turn_admitted s thread turn user_item config provider fallbacks agent input = Ok s'"
  shows "rs_thread s = Some thread" "rs_pending s = None" "bt_contains_key (rs_configs s) config"
    "bt_contains_key (rs_providers s) provider" "length fallbacks < MAX_FALLBACK_CANDIDATES"
    "bt_get (rs_turns s) turn = None" "\<not> item_exists s user_item" "trim input \<noteq> []" "length input \<le> MAX_INPUT_BYTES"
    "\<exists>u. try_fold (check_fallback s config provider) ([], []) fallbacks = Ok u"
    "\<exists>sel nt ni. checked_add (nonzero_get turn) 1 = Some nt \<and> checked_add (nonzero_get user_item) 1 = Some ni \<and>
       s' = s\<lparr>rs_model_selection := sel,
         rs_items := rs_items s @ [\<lparr>ci_id = user_item, ci_turn = turn, ci_role = RoleUser, ci_text = input\<rparr>],
         rs_turns := bt_insert turn (admitted_record user_item config provider fallbacks agent) (rs_turns s),
         rs_pending := Some (admitted_turn turn config provider agent input),
         rs_next_turn := max (rs_next_turn s) nt, rs_next_item := max (rs_next_item s) ni\<rparr>"
proof -
  from assms obtain u s1 where 1: "rs_thread s = Some thread" "rs_pending s = None" "bt_contains_key (rs_configs s) config"
      "bt_contains_key (rs_providers s) provider" "length fallbacks < MAX_FALLBACK_CANDIDATES"
      "try_fold (check_fallback s config provider) ([], []) fallbacks = Ok u"
    and sel: "take_selection s config agent = Ok s1"
    and rest: "(if bt_contains_key (rs_turns s1) turn \<or> item_exists s1 user_item then corrupt ''duplicate Turn or Item id''
      else
      andthen (validate_input input) (\<lambda>_.
      andthen (map_err RtModel (canonical_item_new user_item turn RoleUser input)) (\<lambda>item.
      andthen (observe_id (rs_next_turn s1) (nonzero_get turn)) (\<lambda>next_turn.
      andthen (observe_id (rs_next_item s1) (nonzero_get user_item)) (\<lambda>next_item.
      Ok (s1\<lparr>rs_items := rs_items s1 @ [item],
            rs_turns := bt_insert turn (admitted_record user_item config provider fallbacks agent) (rs_turns s1),
            rs_pending := Some (admitted_turn turn config provider agent input),
            rs_next_turn := next_turn, rs_next_item := next_item\<rparr>)))))) = Ok s'"
    unfolding apply_turn_admitted_def admitted_record_def admitted_turn_def by (auto simp: result_ok not_le)
  obtain ms where s1: "s1 = s\<lparr>rs_model_selection := ms\<rparr>"
    using take_selection_OkD [OF sel] by (metis runtime_state.surjective runtime_state.update_convs(7))
  show "rs_thread s = Some thread" "rs_pending s = None" "bt_contains_key (rs_configs s) config"
    "bt_contains_key (rs_providers s) provider" "length fallbacks < MAX_FALLBACK_CANDIDATES"
    "\<exists>u. try_fold (check_fallback s config provider) ([], []) fallbacks = Ok u"
    using 1 by auto
  from rest s1 show "bt_get (rs_turns s) turn = None" "\<not> item_exists s user_item" "trim input \<noteq> []"
    "length input \<le> MAX_INPUT_BYTES"
    by (auto simp: result_ok bt_contains_key_def item_exists_def)
  from rest s1 show "\<exists>sel nt ni. checked_add (nonzero_get turn) 1 = Some nt \<and> checked_add (nonzero_get user_item) 1 = Some ni \<and>
       s' = s\<lparr>rs_model_selection := sel,
         rs_items := rs_items s @ [\<lparr>ci_id = user_item, ci_turn = turn, ci_role = RoleUser, ci_text = input\<rparr>],
         rs_turns := bt_insert turn (admitted_record user_item config provider fallbacks agent) (rs_turns s),
         rs_pending := Some (admitted_turn turn config provider agent input),
         rs_next_turn := max (rs_next_turn s) nt, rs_next_item := max (rs_next_item s) ni\<rparr>"
    by (auto simp: result_ok)
qed


lemma item_started_OkD:
  assumes "apply_item_started s turn item = Ok s'"
  obtains p n where "rs_pending s = Some p" "pt_turn p = turn" "pt_phase p = PhaseAdmitted" "pt_assistant_item p = None"
    "\<not> item_exists s item" "checked_add (nonzero_get item) 1 = Some n"
    "s' = s\<lparr>rs_pending := Some (p\<lparr>pt_phase := PhaseStreaming, pt_assistant_item := Some item\<rparr>), rs_next_item := max (rs_next_item s) n\<rparr>"
  using assms by (auto simp: apply_item_started_def result_ok put_pending_def)

lemma text_delta_OkD:
  assumes "apply_text_delta s turn item delta = Ok s'"
  obtains p where "rs_pending s = Some p" "pt_turn p = turn" "pt_phase p = PhaseStreaming" "pt_assistant_item p = Some item"
    "delta \<noteq> []" "length (pt_streamed_text p @ delta) \<le> MAX_INPUT_BYTES"
    "s' = s\<lparr>rs_pending := Some (p\<lparr>pt_streamed_text := pt_streamed_text p @ delta\<rparr>)\<rparr>"
  using assms by (auto simp: apply_text_delta_def result_ok put_pending_def dest!: usize_add_SomeD)

lemma output_acknowledged_OkD:
  assumes "apply_output_acknowledged s turn delivery = Ok s'"
  obtains p d where "rs_pending s = Some p" "pt_turn p = turn" "pt_phase p = PhasePrepared" "\<not> pt_acknowledged p"
    "pt_prepared p = Some d" "pd_delivery d = delivery" "delivery |\<notin>| rs_acknowledged s"
    "s' = s\<lparr>rs_pending := Some (p\<lparr>pt_acknowledged := True\<rparr>), rs_acknowledged := finsert delivery (rs_acknowledged s)\<rparr>"
  using assms by (auto simp: apply_output_acknowledged_def result_ok put_pending_def)

lemma turn_completed_OkD:
  assumes "apply_turn_completed s turn = Ok s'"
  obtains p r where "rs_pending s = Some p" "pt_turn p = turn" "pt_phase p = PhasePrepared" "pt_acknowledged p"
    "bt_get (rs_turns s) turn = Some r"
    "s' = s\<lparr>rs_turns := bt_insert turn (r\<lparr>tn_completed := True\<rparr>) (rs_turns s), rs_pending := None\<rparr>"
  using assms by (auto simp: apply_turn_completed_def result_ok)

lemma turn_blocked_OkD:
  assumes "apply_turn_blocked s turn reason origin stage = Ok s'"
  obtains p where "rs_pending s = Some p" "pt_turn p = turn" "pt_phase p = PhaseAdmitted" "pt_open_usage_attempt p = None"
    "trim reason \<noteq> []" "length reason \<le> MAX_BLOCK_REASON_BYTES" "stage \<noteq> None \<longrightarrow> origin = OriginProvider"
    "s' = s\<lparr>rs_pending := Some (p\<lparr>pt_phase := PhaseBlocked, pt_blocked_reason := Some reason,
             pt_block_origin := Some origin, pt_unavailable_stage := stage\<rparr>)\<rparr>"
  using assms by (auto simp: apply_turn_blocked_def result_ok put_pending_def)

lemma turn_cancelled_OkD:
  assumes "apply_turn_cancelled s turn = Ok s'"
  obtains p r where "rs_pending s = Some p" "pt_turn p = turn" "blocked_by_provider p"
    "bt_get (rs_turns s) turn = Some r" "\<not> tn_completed r" "\<not> tn_cancelled r"
    "s' = s\<lparr>rs_turns := bt_insert turn (r\<lparr>tn_cancelled := True\<rparr>) (rs_turns s), rs_pending := None\<rparr>"
  using assms by (auto simp: apply_turn_cancelled_def result_ok)

lemma retry_requested_OkD:
  assumes "apply_retry_requested s turn = Ok s'"
  obtains p where "rs_pending s = Some p" "pt_turn p = turn" "blocked_by_provider p"
    "stage_is_retryable (pt_unavailable_stage p)" "s' = s\<lparr>rs_pending := Some (readmitted p)\<rparr>"
  using assms by (auto simp: apply_retry_requested_def result_ok put_pending_def)

lemma fallback_requested_OkD:
  assumes "apply_fallback_requested s turn i = Ok s'"
  obtains p r f where "rs_pending s = Some p" "pt_turn p = turn" "blocked_by_provider p"
    "stage_is_retryable (pt_unavailable_stage p)" "bt_get (rs_turns s) turn = Some r"
    "unat i = Suc (unat (pt_fallback_index p))" "unat i \<le> length (tn_fallbacks r)" "f = tn_fallbacks r ! (unat i - 1)"
    "s' = s\<lparr>rs_pending := Some ((readmitted p)\<lparr>pt_config := fb_config f, pt_provider := fb_provider f, pt_fallback_index := i\<rparr>)\<rparr>"
proof -
  from assms obtain f p where f: "Option.bind (bt_get (rs_turns s) turn) (\<lambda>r. let position = unat i in
         if position = 0 \<or> position - 1 \<ge> length (tn_fallbacks r) then None else Some (tn_fallbacks r ! (position - 1))) = Some f"
    and p: "rs_pending s = Some p" "pt_turn p = turn" "blocked_by_provider p" "stage_is_retryable (pt_unavailable_stage p)"
      "checked_add (pt_fallback_index p) 1 = Some i"
      "s' = s\<lparr>rs_pending := Some ((readmitted p)\<lparr>pt_config := fb_config f, pt_provider := fb_provider f, pt_fallback_index := i\<rparr>)\<rparr>"
    unfolding apply_fallback_requested_def by (auto simp: result_ok put_pending_def)
  from f obtain r where r: "bt_get (rs_turns s) turn = Some r" "unat i \<le> length (tn_fallbacks r)" "f = tn_fallbacks r ! (unat i - 1)"
    by (auto simp: Let_def bind_eq_Some_conv split: if_splits)
  have "unat i = Suc (unat (pt_fallback_index p))" using checked_add_SomeD [OF p(5)] by simp
  then show ?thesis using that p r by blast
qed

lemma attempt_started_OkD:
  assumes "apply_attempt_started s turn attempt started_at = Ok s'"
  obtains p n where "rs_pending s = Some p" "pt_turn p = turn" "pt_phase p = PhaseAdmitted" "pt_open_usage_attempt p = None"
    "attempt = pt_next_usage_attempt p" "attempt \<noteq> 0" "checked_add attempt 1 = Some n"
    "s' = s\<lparr>rs_pending := Some (p\<lparr>pt_next_usage_attempt := n,
       pt_open_usage_attempt := Some \<lparr>oa_attempt = attempt, oa_started_at = started_at\<rparr>\<rparr>)\<rparr>"
  using assms by (auto simp: apply_attempt_started_def result_ok put_pending_def)

text \<open>The attempt that a finished or an old request records.\<close>

lemma context_attempt_OkD:
  assumes "context_attempt c turn attempt started_at completed_at outcome usage windows = Ok a"
  shows "ua_turn a = nonzero_get turn" "ua_attempt a = attempt" "ua_thread a = nonzero_get (uc_thread c)"
    "ua_agent a = map_option id_get (uc_agent c)" "ua_started_at a = started_at" "ua_completed_at a = completed_at"
    "ua_outcome a = outcome" "ua_usage a = usage" "ua_named_windows a = windows" "ua_cost_estimate a = None"
    "ua_provider_profile a = uc_profile c" "ua_requested_model a = uc_model c" "ua_dialect a = uc_dialect c"
    "distinct (ua_named_windows a)"
  using assms by (auto simp: context_attempt_def result_ok usage_attempt_new_def with_requested_policy_def distinct_map split: if_splits)


text \<open>\<open>recorded u as u'\<close>: the attempts \<open>as\<close> are appended, and rollups that were exact stay exact.\<close>

definition recorded :: "usage_projection \<Rightarrow> usage_attempt list \<Rightarrow> usage_projection \<Rightarrow> bool" where
  "recorded u as u' \<longleftrightarrow> pj_attempts u' = pj_attempts u @ as \<and> (projection_exact u \<longrightarrow> projection_exact u')"

lemma recorded_Nil: "recorded u [] u"
  by (simp add: recorded_def)

lemma recorded_append: "recorded u as u1 \<Longrightarrow> recorded u1 bs u2 \<Longrightarrow> recorded u (as @ bs) u2"
  by (simp add: recorded_def)

lemma recorded_attempt:
  assumes "context_attempt c turn attempt started_at completed_at outcome usage windows = Ok a"
    and "projection_record u a = Ok u'"
  shows "recorded u [a] u'"
proof -
  have "pj_attempts u' = pj_attempts u @ [a]" using assms(2) by (auto simp: projection_record_def split: if_splits)
  then show ?thesis
    using projection_record_exact(1) [OF _ _ _ assms(2)] context_attempt_OkD(10,14) [OF assms(1)] by (simp add: recorded_def)
qed

lemma open_attempt_for_Ok [result_ok]:
  "open_attempt_for s turn attempt = Ok x \<longleftrightarrow>
     (\<exists>p ot. x = (p, ot) \<and> rs_pending s = Some p \<and> pt_turn p = turn \<and> pt_phase p = PhaseAdmitted
       \<and> pt_open_usage_attempt p = Some ot \<and> oa_attempt ot = attempt)"
  by (auto simp: open_attempt_for_def split: option.splits)

lemma attempt_finished_OkD:
  assumes "apply_attempt_finished s turn attempt completed_at outcome usage windows required = Ok s'"
  obtains p ot c a u where "rs_pending s = Some p" "pt_turn p = turn" "pt_phase p = PhaseAdmitted"
    "pt_open_usage_attempt p = Some ot" "oa_attempt ot = attempt" "oa_started_at ot \<le> completed_at"
    "(outcome = Succeeded) = (usage \<noteq> None)" "turn_usage_context s turn = Ok c"
    "\<exists>ws. context_attempt c turn attempt (Some (oa_started_at ot)) (Some completed_at) outcome usage ws = Ok a"
    "recorded (rs_usage s) [a] u" "\<not> list_ex (is_attempt (ua_turn a) (ua_attempt a)) (pj_attempts (rs_usage s))"
    "s' = s\<lparr>rs_pending := Some (p\<lparr>pt_open_usage_attempt := None\<rparr>), rs_usage := u,
       rs_pending_cost := if required then Some (turn, attempt) else rs_pending_cost s\<rparr>"
proof -
  let ?close = "\<lambda>p. put_pending s (p\<lparr>pt_open_usage_attempt := None\<rparr>)"
  from assms obtain x ws c a s1 where 1: "(outcome = Succeeded) = (usage \<noteq> None)" "open_attempt_for s turn attempt = Ok x"
    "\<not> completed_at < oa_started_at (snd x)" "turn_usage_context s turn = Ok c"
    "context_attempt c turn attempt (Some (oa_started_at (snd x))) (Some completed_at) outcome usage ws = Ok a"
    "record_attempt (?close (fst x)) a = Ok s1"
    "s' = (if required then s1\<lparr>rs_pending_cost := Some (turn, attempt)\<rparr> else s1)"
    unfolding apply_attempt_finished_def by (simp only: if_corrupt_eq_Ok andthen_eq_Ok split_beta result.inject) metis
  from 1(2) obtain p ot where p: "x = (p, ot)" "rs_pending s = Some p" "pt_turn p = turn" "pt_phase p = PhaseAdmitted"
      "pt_open_usage_attempt p = Some ot" "oa_attempt ot = attempt"
    by (auto simp: result_ok)
  from 1(6) p(1) obtain u where u: "projection_record (rs_usage s) a = Ok u"
    and s1: "s1 = s\<lparr>rs_pending := Some (p\<lparr>pt_open_usage_attempt := None\<rparr>), rs_usage := u\<rparr>"
    by (auto simp: result_ok put_pending_def)
  have new: "\<not> list_ex (is_attempt (ua_turn a) (ua_attempt a)) (pj_attempts (rs_usage s))"
    using u by (auto simp: projection_record_def split: if_splits)
  show ?thesis
    by (rule that [OF p(2-6) _ 1(1,4) _ recorded_attempt [OF 1(5) u] new]) (use 1 p s1 in auto)
qed

lemma cost_evaluated_OkD:
  assumes "apply_cost_evaluated s turn attempt evaluation = Ok s'"
  obtains outcome u where "rs_pending_cost s = Some (turn, attempt)"
    "projection_record_cost (rs_usage s) (nonzero_get turn) attempt outcome = (Ok (), u)"
    "evaluation_matches evaluation outcome"
    "s' = s\<lparr>rs_usage := u, rs_pending_cost := None\<rparr>"
proof -
  from assms obtain outcome where "rs_pending_cost s = Some (turn, attempt)" "evaluation_matches evaluation outcome"
    and run: "(case projection_record_cost (rs_usage s) (nonzero_get turn) attempt outcome of (r, usage) \<Rightarrow>
      andthen (map_err RtUsage r) (\<lambda>_. Ok (s\<lparr>rs_usage := usage, rs_pending_cost := None\<rparr>))) = Ok s'"
    unfolding apply_cost_evaluated_def by (simp add: result_ok) blast
  moreover obtain r u where ru: "projection_record_cost (rs_usage s) (nonzero_get turn) attempt outcome = (r, u)" by fastforce
  moreover from run ru have "r = Ok ()" "s' = s\<lparr>rs_usage := u, rs_pending_cost := None\<rparr>" by (auto simp: result_ok)
  ultimately show ?thesis using that by blast
qed

lemma record_legacy_usage_Ok:
  "record_legacy_usage c turn n s (k, usage) = Ok s' \<longleftrightarrow>
     k < 2 ^ 32 \<and> unat n + unat (of_nat k :: u32) < 2 ^ 32 \<and>
     (\<exists>a u. context_attempt c turn (n + of_nat k) None None Succeeded (Some usage) [] = Ok a
       \<and> projection_record (rs_usage s) a = Ok u \<and> s' = s\<lparr>rs_usage := u\<rparr>)"
  by (auto simp: record_legacy_usage_def result_ok checked_add_Some_iff)

lemma legacy_usage_OkD:
  assumes "apply_legacy_usage s turn p us = Ok s'"
  obtains as n u where "recorded (rs_usage s) as u" "map ua_attempt as = map (\<lambda>i. pt_next_usage_attempt p + of_nat i) [0..<length us]"
    "\<forall>a \<in> set as. ua_turn a = nonzero_get turn" "unat n = unat (pt_next_usage_attempt p) + length us"
    "s' = s\<lparr>rs_usage := u, rs_pending := Some (p\<lparr>pt_next_usage_attempt := n\<rparr>)\<rparr>"
proof -
  let ?n = "pt_next_usage_attempt p"
  have loop: "\<exists>as u. recorded (rs_usage s0) as u \<and> map ua_attempt as = map (\<lambda>i. ?n + of_nat i) [k..<k + length us]
       \<and> (\<forall>a \<in> set as. ua_turn a = nonzero_get turn) \<and> s1 = s0\<lparr>rs_usage := u\<rparr>"
    if "try_fold (record_legacy_usage c turn ?n) s0 (enumerate k us) = Ok s1" for c s0 s1 k us
    using that
  proof (induction us arbitrary: s0 k)
    case Nil
    then show ?case using recorded_Nil [of "rs_usage s0"] by (intro exI [of _ "[]"] exI [of _ "rs_usage s0"]) simp
  next
    case (Cons x us)
    then obtain a u where a: "context_attempt c turn (?n + of_nat k) None None Succeeded (Some x) [] = Ok a"
      and u: "projection_record (rs_usage s0) a = Ok u"
      and rest: "try_fold (record_legacy_usage c turn ?n) (s0\<lparr>rs_usage := u\<rparr>) (enumerate (Suc k) us) = Ok s1"
      by (auto simp: record_legacy_usage_Ok andthen_eq_Ok)
    from Cons.IH [OF rest] obtain as u1 where r: "recorded u as u1"
      and as: "map ua_attempt as = map (\<lambda>i. ?n + of_nat i) [Suc k..<Suc k + length us]"
        "\<forall>a \<in> set as. ua_turn a = nonzero_get turn" and s1: "s1 = s0\<lparr>rs_usage := u1\<rparr>"
      by auto
    have "recorded (rs_usage s0) ([a] @ as) u1" using recorded_append [OF recorded_attempt [OF a u] r] .
    moreover have "[k..<k + length (x # us)] = k # [Suc k..<Suc k + length us]"
      by (simp add: upt_conv_Cons del: upt_Suc)
    ultimately show ?case using as s1 context_attempt_OkD(1,2) [OF a]
      by (intro exI [of _ "[a] @ as"] exI [of _ u1]) (simp del: upt_Suc)
  qed
  from assms obtain c s1 n where f: "try_fold (record_legacy_usage c turn ?n) s (enumerate 0 us) = Ok s1"
    and n: "length us < 2 ^ 32" "checked_add ?n (of_nat (length us)) = Some n"
    and s': "s' = put_pending s1 (p\<lparr>pt_next_usage_attempt := n\<rparr>)"
    unfolding apply_legacy_usage_def by (auto simp: result_ok)
  from loop [OF f] obtain as u where "recorded (rs_usage s) as u" "map ua_attempt as = map (\<lambda>i. ?n + of_nat i) [0..<length us]"
    "\<forall>a \<in> set as. ua_turn a = nonzero_get turn" "s1 = s\<lparr>rs_usage := u\<rparr>" by auto
  moreover have "unat n = unat ?n + length us"
    using checked_add_SomeD [OF n(2)] n(1) by (simp add: unat_of_nat take_bit_nat_eq_self)
  ultimately show ?thesis using that s' by (auto simp: put_pending_def)
qed

lemma output_prepared_OkD:
  assumes "apply_output_prepared s turn item delivery text us legacy = Ok s'"
  obtains p r config n u as d where "rs_pending s = Some p" "pt_turn p = turn" "pt_phase p = PhaseStreaming"
    "pt_assistant_item p = Some item" "pt_streamed_text p = text" "pt_prepared p = None" "delivery |\<notin>| rs_acknowledged s"
    "us \<noteq> []" "length us \<le> MAX_USAGE_RECORDS_PER_TURN" "bt_get (rs_configs s) (pt_config p) = Some config"
    "trim text \<noteq> []" "length text \<le> unat (so_value (rc_max_output_bytes (cf_resolved config)))"
    "bt_get (rs_turns s) turn = Some r" "checked_add (nonzero_get delivery) 1 = Some d"
    "\<not> legacy \<Longrightarrow> pt_open_usage_attempt p = None \<and> as = [] \<and> n = pt_next_usage_attempt p"
    "recorded (rs_usage s) as u" "\<forall>a \<in> set as. ua_turn a = nonzero_get turn"
    "map ua_attempt as = map (\<lambda>i. pt_next_usage_attempt p + of_nat i) [0..<length as]"
    "unat n = unat (pt_next_usage_attempt p) + length as"
    "s' = s\<lparr>rs_usage := u, rs_pending := Some (p\<lparr>pt_next_usage_attempt := n, pt_phase := PhasePrepared,
              pt_prepared := Some \<lparr>pd_item = item, pd_delivery = delivery, pd_usage_records = us\<rparr>\<rparr>),
            rs_items := rs_items s @ [\<lparr>ci_id = item, ci_turn = turn, ci_role = RoleAssistant, ci_text = text\<rparr>],
            rs_turns := bt_insert turn (r\<lparr>tn_assistant_item := Some item, tn_delivery := Some delivery\<rparr>) (rs_turns s),
            rs_next_delivery := max (rs_next_delivery s) d\<rparr>"
proof -
  from assms obtain p config s1 p1 r d where 1: "rs_pending s = Some p" "pt_turn p = turn" "pt_phase p = PhaseStreaming"
    "pt_assistant_item p = Some item" "pt_streamed_text p = text" "pt_prepared p = None" "delivery |\<notin>| rs_acknowledged s"
    "us \<noteq> []" "length us \<le> MAX_USAGE_RECORDS_PER_TURN" "bt_get (rs_configs s) (pt_config p) = Some config"
    "trim text \<noteq> []" "length text \<le> unat (so_value (rc_max_output_bytes (cf_resolved config)))"
    and use: "(if legacy then apply_legacy_usage s turn p us
        else if pt_open_usage_attempt p \<noteq> None
        then corrupt ''prepared output has an unfinished usage attempt'' else Ok s) = Ok s1"
    and 2: "rs_pending s1 = Some p1" "pt_turn p1 = turn" "bt_get (rs_turns s1) turn = Some r"
    "checked_add (nonzero_get delivery) 1 = Some d"
    and s': "s' = s1\<lparr>rs_pending := Some (p1\<lparr>pt_phase := PhasePrepared,
              pt_prepared := Some \<lparr>pd_item = item, pd_delivery = delivery, pd_usage_records = us\<rparr>\<rparr>),
            rs_items := rs_items s1 @ [\<lparr>ci_id = item, ci_turn = turn, ci_role = RoleAssistant, ci_text = text\<rparr>],
            rs_turns := bt_insert turn (r\<lparr>tn_assistant_item := Some item, tn_delivery := Some delivery\<rparr>) (rs_turns s1),
            rs_next_delivery := max (rs_next_delivery s1) d\<rparr>"
    unfolding apply_output_prepared_def by (auto simp: result_ok put_pending_def)
  show ?thesis
  proof (cases legacy)
    case True
    with use have "apply_legacy_usage s turn p us = Ok s1" by simp
    then obtain as n u where u: "recorded (rs_usage s) as u" "\<forall>a \<in> set as. ua_turn a = nonzero_get turn"
      "map ua_attempt as = map (\<lambda>i. pt_next_usage_attempt p + of_nat i) [0..<length us]"
      "unat n = unat (pt_next_usage_attempt p) + length us"
      "s1 = s\<lparr>rs_usage := u, rs_pending := Some (p\<lparr>pt_next_usage_attempt := n\<rparr>)\<rparr>"
      by (rule legacy_usage_OkD)
    have len: "length as = length us" using arg_cong [OF u(3), of length] by simp
    show ?thesis
      by (rule that [OF 1(1-10) 1(11,12) _ 2(4) _ u(1,2), where n = n and r = r])
        (use True u 2 s' len in simp_all)
  next
    case False
    with use have s1: "s1 = s" "pt_open_usage_attempt p = None" by (auto split: if_splits)
    show ?thesis
      by (rule that [OF 1(1-10) 1(11,12) _ 2(4) _ recorded_Nil, where n = "pt_next_usage_attempt p" and r = r])
        (use False s1 1 2 s' in simp_all)
  qed
qed

end
