(* ===== verification/Turn_Reach.thy ===== *)
theory Turn_Reach
  imports Turn_Laws
begin

text \<open>
  The states that accepted Turn events reach, and what holds in all of them: the pending Turn is the only
  open one and its phase agrees with its record, settled Turns are either answered and acknowledged or
  cancelled without output, deliveries and identifiers are never used twice.
\<close>

inductive turn_reachable :: "hasher \<Rightarrow> runtime_state \<Rightarrow> bool" for sha256 where
  turn_start: "turn_reachable sha256 runtime_state_default"
| turn_step: "turn_reachable sha256 s \<Longrightarrow> turn_apply sha256 s e = Ok s' \<Longrightarrow> turn_reachable sha256 s'"

lemma reachable_fold:
  "turn_reachable h s \<Longrightarrow> try_fold (turn_apply h) s es = Ok s' \<Longrightarrow> turn_reachable h s'"
  by (induction es arbitrary: s) (auto simp: result_ok intro: turn_step)

section \<open>The invariant\<close>

definition silent :: "pending_turn \<Rightarrow> turn_record \<Rightarrow> bool" where
  "silent p r \<longleftrightarrow> pt_assistant_item p = None \<and> pt_streamed_text p = [] \<and> pt_prepared p = None \<and> \<not> pt_acknowledged p
     \<and> tn_assistant_item r = None \<and> tn_delivery r = None"

definition phase_ok :: "pending_turn \<Rightarrow> turn_record \<Rightarrow> bool" where
  "phase_ok p r \<longleftrightarrow>
     (case pt_phase p of
        PhaseAdmitted \<Rightarrow> silent p r
      | PhaseBlocked \<Rightarrow> silent p r \<and> pt_blocked_reason p \<noteq> None \<and> pt_block_origin p \<noteq> None
          \<and> pt_open_usage_attempt p = None
      | PhaseStreaming \<Rightarrow> pt_assistant_item p \<noteq> None \<and> pt_prepared p = None \<and> \<not> pt_acknowledged p
          \<and> tn_assistant_item r = None \<and> tn_delivery r = None
      | PhasePrepared \<Rightarrow> (\<exists>d. pt_prepared p = Some d \<and> pt_assistant_item p = Some (pd_item d)
          \<and> tn_assistant_item r = Some (pd_item d) \<and> tn_delivery r = Some (pd_delivery d)))"

text \<open>The epochs a pending Turn runs with: those it was admitted with, or those of the fallback it reached.\<close>

definition epochs_ok :: "pending_turn \<Rightarrow> turn_record \<Rightarrow> bool" where
  "epochs_ok p r \<longleftrightarrow> pt_agent p = tn_agent r \<and>
     (let i = unat (pt_fallback_index p) in
      i \<le> length (tn_fallbacks r) \<and>
      (if i = 0 then pt_config p = tn_config r \<and> pt_provider p = tn_provider r
       else pt_config p = fb_config (tn_fallbacks r ! (i - 1)) \<and> pt_provider p = fb_provider (tn_fallbacks r ! (i - 1))))"

definition user_item :: "turn_record \<Rightarrow> pending_turn \<Rightarrow> canonical_item" where
  "user_item r p = \<lparr>ci_id = tn_user_item r, ci_turn = pt_turn p, ci_role = RoleUser, ci_text = pt_input p\<rparr>"

definition answer_item :: "pending_turn \<Rightarrow> canonical_item" where
  "answer_item p = \<lparr>ci_id = the (pt_assistant_item p), ci_turn = pt_turn p, ci_role = RoleAssistant,
     ci_text = pt_streamed_text p\<rparr>"

definition pending_items :: "turn_record \<Rightarrow> pending_turn \<Rightarrow> canonical_item list" where
  "pending_items r p = user_item r p # (if pt_phase p = PhasePrepared then [answer_item p] else [])"

definition pending_ok :: "runtime_state \<Rightarrow> bool" where
  "pending_ok s \<longleftrightarrow> (\<forall>p. rs_pending s = Some p \<longrightarrow>
     (\<exists>r before. bt_get (rs_turns s) (pt_turn p) = Some r \<and> \<not> tn_completed r \<and> \<not> tn_cancelled r \<and> phase_ok p r
       \<and> epochs_ok p r \<and> rs_items s = before @ pending_items r p))"

definition settled :: "runtime_state \<Rightarrow> turn_id \<Rightarrow> turn_record \<Rightarrow> bool" where
  "settled s turn r \<longleftrightarrow>
     (tn_completed r \<and> \<not> tn_cancelled r \<and> (\<exists>d item text. tn_delivery r = Some d \<and> d |\<in>| rs_acknowledged s
        \<and> tn_assistant_item r = Some item
        \<and> \<lparr>ci_id = item, ci_turn = turn, ci_role = RoleAssistant, ci_text = text\<rparr> \<in> set (rs_items s)))
     \<or> (tn_cancelled r \<and> \<not> tn_completed r \<and> tn_delivery r = None \<and> tn_assistant_item r = None)"

definition is_pending :: "runtime_state \<Rightarrow> turn_id \<Rightarrow> bool" where
  "is_pending s turn \<longleftrightarrow> map_option pt_turn (rs_pending s) = Some turn"

definition turns_ok :: "runtime_state \<Rightarrow> bool" where
  "turns_ok s \<longleftrightarrow> bt_ok (rs_turns s) \<and> (\<forall>turn r. bt_get (rs_turns s) turn = Some r \<longrightarrow>
     (is_pending s turn \<or> settled s turn r)
     \<and> (\<exists>text. \<lparr>ci_id = tn_user_item r, ci_turn = turn, ci_role = RoleUser, ci_text = text\<rparr> \<in> set (rs_items s)))"

definition unique_deliveries :: "(turn_id, turn_record) btree_map \<Rightarrow> bool" where
  "unique_deliveries m \<longleftrightarrow> (\<forall>t r t' r' d. bt_get m t = Some r \<and> tn_delivery r = Some d \<and> bt_get m t' = Some r'
     \<and> tn_delivery r' = Some d \<longrightarrow> t = t')"

definition has_delivery :: "(turn_id, turn_record) btree_map \<Rightarrow> delivery_id \<Rightarrow> bool" where
  "has_delivery m d \<longleftrightarrow> (\<exists>t r. bt_get m t = Some r \<and> tn_delivery r = Some d)"

lemma has_delivery_insert:
  assumes "has_delivery m d" and "\<And>r0. bt_get m t = Some r0 \<Longrightarrow> tn_delivery r0 = Some d \<Longrightarrow> tn_delivery r = Some d"
  shows "has_delivery (bt_insert t r m) d"
proof -
  from assms(1) obtain u q where "bt_get m u = Some q" "tn_delivery q = Some d" by (auto simp: has_delivery_def)
  then have "bt_get (bt_insert t r m) u = Some (if u = t then r else q)" "tn_delivery (if u = t then r else q) = Some d"
    using assms(2) by (auto simp: bt_get_insert)
  then show ?thesis unfolding has_delivery_def by blast
qed

lemma unique_deliveriesD:
  "unique_deliveries m \<Longrightarrow> bt_get m t = Some r \<Longrightarrow> tn_delivery r = Some d \<Longrightarrow> bt_get m t' = Some r' \<Longrightarrow> tn_delivery r' = Some d \<Longrightarrow> t = t'"
  unfolding unique_deliveries_def by blast

lemma unique_deliveries_insert:
  assumes "unique_deliveries m"
    and "\<And>d u q. tn_delivery r = Some d \<Longrightarrow> bt_get m u = Some q \<Longrightarrow> tn_delivery q = Some d \<Longrightarrow> u = t"
  shows "unique_deliveries (bt_insert t r m)"
  unfolding unique_deliveries_def
proof (intro allI impI; elim conjE)
  fix u q u' q' d
  assume "bt_get (bt_insert t r m) u = Some q" "tn_delivery q = Some d" "bt_get (bt_insert t r m) u' = Some q'"
    "tn_delivery q' = Some d"
  then show "u = u'"
    using assms(1) [unfolded unique_deliveries_def] assms(2) by (auto simp: bt_get_insert split: if_splits)
qed

definition deliveries_ok :: "runtime_state \<Rightarrow> bool" where
  "deliveries_ok s \<longleftrightarrow>
     (\<forall>d. d |\<in>| rs_acknowledged s \<longrightarrow> has_delivery (rs_turns s) d) \<and>
     unique_deliveries (rs_turns s) \<and>
     (\<forall>p d. rs_pending s = Some p \<and> pt_prepared p = Some d \<longrightarrow> (pd_delivery d |\<in>| rs_acknowledged s) = pt_acknowledged p)"

definition ids_ok :: "runtime_state \<Rightarrow> bool" where
  "ids_ok s \<longleftrightarrow> distinct (map ci_id (rs_items s)) \<and> (\<forall>i \<in> set (rs_items s). nonzero_get (ci_id i) < rs_next_item s) \<and>
     (\<forall>p i. rs_pending s = Some p \<and> pt_assistant_item p = Some i \<longrightarrow> nonzero_get i < rs_next_item s
        \<and> (pt_phase p = PhaseStreaming \<longrightarrow> i \<notin> ci_id ` set (rs_items s))) \<and>
     (\<forall>t r. bt_get (rs_turns s) t = Some r \<longrightarrow> nonzero_get t < rs_next_turn s
        \<and> (\<forall>d. tn_delivery r = Some d \<longrightarrow> nonzero_get d < rs_next_delivery s)) \<and>
     (\<forall>i \<in> set (rs_items s). bt_contains_key (rs_turns s) (ci_turn i))"

definition turn_ok :: "runtime_state \<Rightarrow> bool" where
  "turn_ok s \<longleftrightarrow> pending_ok s \<and> turns_ok s \<and> deliveries_ok s \<and> ids_ok s"

lemmas turn_ok_defs = turn_ok_def pending_ok_def turns_ok_def deliveries_ok_def ids_ok_def settled_def is_pending_def

lemma turn_ok_default: "turn_ok runtime_state_default"
  by (simp add: turn_ok_defs unique_deliveries_def runtime_state_default_def)

lemma epochs_ok_cong:
  "pt_agent q = pt_agent p \<Longrightarrow> pt_fallback_index q = pt_fallback_index p \<Longrightarrow> pt_config q = pt_config p
     \<Longrightarrow> pt_provider q = pt_provider p \<Longrightarrow> tn_agent r' = tn_agent r \<Longrightarrow> tn_fallbacks r' = tn_fallbacks r
     \<Longrightarrow> tn_config r' = tn_config r \<Longrightarrow> tn_provider r' = tn_provider r \<Longrightarrow> epochs_ok q r' = epochs_ok p r"
  by (simp add: epochs_ok_def)

text \<open>The part of the state that the invariant reads.\<close>

definition turn_core :: "runtime_state \<Rightarrow> _" where
  "turn_core s = (rs_turns s, rs_items s, rs_pending s, rs_acknowledged s, rs_next_turn s, rs_next_item s, rs_next_delivery s)"

lemma turn_ok_core:
  assumes core: "turn_core s' = turn_core s" and ok: "turn_ok s"
  shows "turn_ok s'"
proof -
  have same: "rs_turns s' = rs_turns s" "rs_items s' = rs_items s" "rs_pending s' = rs_pending s"
    "rs_acknowledged s' = rs_acknowledged s" "rs_next_turn s' = rs_next_turn s" "rs_next_item s' = rs_next_item s"
    "rs_next_delivery s' = rs_next_delivery s"
    using core by (simp_all add: turn_core_def)
  from ok show ?thesis unfolding turn_ok_defs same .
qed

section \<open>Preservation\<close>

lemma settled_mono:
  assumes "settled s turn r" and "rs_acknowledged s |\<subseteq>| rs_acknowledged s'" and "set (rs_items s) \<subseteq> set (rs_items s')"
  shows "settled s' turn r"
  using assms unfolding settled_def by (meson fin_mono subsetD)

lemma turns_ok_insert:
  assumes ok: "turns_ok s" and grow: "rs_acknowledged s |\<subseteq>| rs_acknowledged s'" "set (rs_items s) \<subseteq> set (rs_items s')"
    and turns: "rs_turns s' = bt_insert turn q (rs_turns s)" and only: "\<And>t. is_pending s t \<Longrightarrow> t = turn"
    and new: "is_pending s' turn \<or> settled s' turn q"
      "\<exists>text. \<lparr>ci_id = tn_user_item q, ci_turn = turn, ci_role = RoleUser, ci_text = text\<rparr> \<in> set (rs_items s')"
  shows "turns_ok s'"
  unfolding turns_ok_def
proof (intro conjI allI impI)
  show "bt_ok (rs_turns s')" using ok by (simp add: turns turns_ok_def bt_ok_insert)
  fix t r
  assume "bt_get (rs_turns s') t = Some r"
  then have r: "t = turn \<and> r = q \<or> t \<noteq> turn \<and> bt_get (rs_turns s) t = Some r"
    by (auto simp: turns bt_get_insert split: if_splits)
  then have "t \<noteq> turn \<Longrightarrow> settled s t r" using ok only by (auto simp: turns_ok_def)
  with r new(1) show "is_pending s' t \<or> settled s' t r" using settled_mono [OF _ grow] by blast
  have "t \<noteq> turn \<Longrightarrow> \<exists>text. \<lparr>ci_id = tn_user_item r, ci_turn = t, ci_role = RoleUser, ci_text = text\<rparr> \<in> set (rs_items s)"
    using r ok by (simp add: turns_ok_def)
  with r new(2) grow(2) show "\<exists>text. \<lparr>ci_id = tn_user_item r, ci_turn = t, ci_role = RoleUser, ci_text = text\<rparr> \<in> set (rs_items s')"
    by blast
qed

lemma turns_ok_same:
  assumes ok: "turns_ok s" and grow: "rs_acknowledged s |\<subseteq>| rs_acknowledged s'" "set (rs_items s) \<subseteq> set (rs_items s')"
    and turns: "rs_turns s' = rs_turns s" and pend: "\<And>t. is_pending s t \<Longrightarrow> is_pending s' t"
  shows "turns_ok s'"
  using ok settled_mono [OF _ grow] pend grow(2) unfolding turns_ok_def turns by blast

text \<open>A change of the pending Turn alone.\<close>

lemma turn_ok_pending:
  assumes ok: "turn_ok s" and p: "rs_pending s = Some p" and q: "pt_turn q = pt_turn p" "pt_input q = pt_input p"
    "pt_assistant_item q = pt_assistant_item p" "pt_prepared q = pt_prepared p" "pt_acknowledged q = pt_acknowledged p"
    and phase: "\<And>r. phase_ok p r \<Longrightarrow> phase_ok q r" and epochs: "\<And>r. bt_get (rs_turns s) (pt_turn p) = Some r \<Longrightarrow> epochs_ok p r \<Longrightarrow> epochs_ok q r"
    and prep: "pt_phase q = PhasePrepared \<longleftrightarrow> pt_phase p = PhasePrepared" "pt_phase q = PhaseStreaming \<longleftrightarrow> pt_phase p = PhaseStreaming"
    "pt_phase p = PhasePrepared \<Longrightarrow> pt_streamed_text q = pt_streamed_text p"
    and s': "turn_core s' = turn_core (s\<lparr>rs_pending := Some q\<rparr>)"
  shows "turn_ok s'"
proof (rule turn_ok_core [OF s'])
  obtain r before where r: "bt_get (rs_turns s) (pt_turn p) = Some r" "\<not> tn_completed r" "\<not> tn_cancelled r" "phase_ok p r"
      "epochs_ok p r" "rs_items s = before @ pending_items r p"
    using ok p by (auto simp: turn_ok_def pending_ok_def)
  have "pending_items r q = pending_items r p"
    using q prep by (auto simp: pending_items_def user_item_def answer_item_def)
  then have "pending_ok (s\<lparr>rs_pending := Some q\<rparr>)"
    using r phase epochs q(1) by (auto simp: pending_ok_def)
  moreover have "turns_ok (s\<lparr>rs_pending := Some q\<rparr>)" using ok p q by (simp add: turn_ok_def turns_ok_def settled_def is_pending_def)
  moreover have "deliveries_ok (s\<lparr>rs_pending := Some q\<rparr>)" using ok p q by (simp add: turn_ok_def deliveries_ok_def)
  moreover have "ids_ok (s\<lparr>rs_pending := Some q\<rparr>)" using ok p q prep by (simp add: turn_ok_def ids_ok_def)
  ultimately show "turn_ok (s\<lparr>rs_pending := Some q\<rparr>)" by (simp add: turn_ok_def)
qed

lemma turn_ok_admitted:
  assumes ok: "turn_ok s" and "apply_turn_admitted s thread turn user config provider fallbacks agent input = Ok s'"
  shows "turn_ok s'"
proof -
  note D = turn_admitted_OkD [OF assms(2)]
  let ?r = "admitted_record user config provider fallbacks agent"
  let ?p = "admitted_turn turn config provider agent input"
  from D(11) obtain nt ni where n: "checked_add (nonzero_get turn) 1 = Some nt" "checked_add (nonzero_get user) 1 = Some ni"
    and core: "turn_core s' = turn_core (s\<lparr>rs_items := rs_items s @ [\<lparr>ci_id = user, ci_turn = turn, ci_role = RoleUser, ci_text = input\<rparr>],
         rs_turns := bt_insert turn ?r (rs_turns s), rs_pending := Some ?p,
         rs_next_turn := max (rs_next_turn s) nt, rs_next_item := max (rs_next_item s) ni\<rparr>)" (is "_ = turn_core ?s")
    by (auto simp: turn_core_def)
  note b = observe_id_bounds [OF n(1), where n = "rs_next_turn s"] observe_id_bounds [OF n(2), where n = "rs_next_item s"]
  have new: "user \<notin> ci_id ` set (rs_items s)" using D(7) by (auto simp: item_exists_def list_ex_iff)
  have "pending_ok ?s"
    by (auto simp: pending_ok_def bt_get_insert admitted_record_def admitted_turn_def phase_ok_def silent_def epochs_ok_def
        pending_items_def user_item_def)
  moreover have "turns_ok ?s"
    by (rule turns_ok_insert [where s = s and turn = turn and q = ?r])
      (use ok D(2) in \<open>auto simp: turn_ok_def is_pending_def admitted_record_def admitted_turn_def\<close>)
  moreover have "deliveries_ok ?s"
    using ok D(2,6) by (auto simp: turn_ok_def deliveries_ok_def admitted_record_def admitted_turn_def
        intro!: has_delivery_insert unique_deliveries_insert)
  moreover have "ids_ok ?s"
    using ok new b by (auto simp: turn_ok_def ids_ok_def bt_get_insert bt_contains_key_def admitted_record_def admitted_turn_def
        intro: max.strict_coboundedI1)
  ultimately have "turn_ok ?s" by (simp add: turn_ok_def)
  then show ?thesis by (rule turn_ok_core [OF core])
qed

lemma turn_ok_item_started:
  assumes ok: "turn_ok s" and "apply_item_started s turn item = Ok s'"
  shows "turn_ok s'"
  using assms(2)
proof (rule item_started_OkD)
  fix p n
  assume p: "rs_pending s = Some p" "pt_turn p = turn" "pt_phase p = PhaseAdmitted" "pt_assistant_item p = None"
    and new: "\<not> item_exists s item" and n: "checked_add (nonzero_get item) 1 = Some n"
    and s': "s' = s\<lparr>rs_pending := Some (p\<lparr>pt_phase := PhaseStreaming, pt_assistant_item := Some item\<rparr>),
      rs_next_item := max (rs_next_item s) n\<rparr>"
  note b = observe_id_bounds [OF n, where n = "rs_next_item s"]
  have "pending_ok s'"
    using ok p by (auto simp: s' turn_ok_def pending_ok_def phase_ok_def silent_def pending_items_def user_item_def
        cong: epochs_ok_cong)
  moreover have "turns_ok s'" using ok p by (simp add: s' turn_ok_def turns_ok_def settled_def is_pending_def)
  moreover have "deliveries_ok s'" using ok p by (simp add: s' turn_ok_def deliveries_ok_def)
  moreover have "ids_ok s'"
    using ok new b by (auto simp: s' turn_ok_def ids_ok_def item_exists_def list_ex_iff intro: max.strict_coboundedI1)
  ultimately show ?thesis by (simp add: turn_ok_def)
qed


lemma turn_ok_pendingD:
  assumes "turn_ok s" and "rs_pending s = Some p"
  obtains r before where "bt_get (rs_turns s) (pt_turn p) = Some r" "\<not> tn_completed r" "\<not> tn_cancelled r" "phase_ok p r"
    "epochs_ok p r" "rs_items s = before @ pending_items r p"
  using assms by (auto simp: turn_ok_def pending_ok_def)

lemma turn_ok_text_delta:
  assumes ok: "turn_ok s" and "apply_text_delta s turn item delta = Ok s'"
  shows "turn_ok s'"
  using assms(2)
proof (rule text_delta_OkD)
  fix p
  assume p: "rs_pending s = Some p" "pt_phase p = PhaseStreaming" "s' = s\<lparr>rs_pending := Some (p\<lparr>pt_streamed_text := pt_streamed_text p @ delta\<rparr>)\<rparr>"
  show ?thesis
    by (rule turn_ok_pending [OF ok p(1), where q = "p\<lparr>pt_streamed_text := pt_streamed_text p @ delta\<rparr>"])
      (use p in \<open>simp_all add: phase_ok_def cong: epochs_ok_cong\<close>)
qed

lemma turn_ok_output_prepared:
  assumes ok: "turn_ok s" and "apply_output_prepared s turn item delivery text us legacy = Ok s'"
  shows "turn_ok s'"
  using assms(2)
proof (rule output_prepared_OkD)
  fix p r d n u
  assume p: "rs_pending s = Some p" "pt_turn p = turn" "pt_phase p = PhaseStreaming" "pt_assistant_item p = Some item"
      "pt_streamed_text p = text" "delivery |\<notin>| rs_acknowledged s"
    and r: "bt_get (rs_turns s) turn = Some r" and d: "checked_add (nonzero_get delivery) 1 = Some d"
    and s': "s' = s\<lparr>rs_usage := u, rs_pending := Some (p\<lparr>pt_next_usage_attempt := n, pt_phase := PhasePrepared,
              pt_prepared := Some \<lparr>pd_item = item, pd_delivery = delivery, pd_usage_records = us\<rparr>\<rparr>),
            rs_items := rs_items s @ [\<lparr>ci_id = item, ci_turn = turn, ci_role = RoleAssistant, ci_text = text\<rparr>],
            rs_turns := bt_insert turn (r\<lparr>tn_assistant_item := Some item, tn_delivery := Some delivery\<rparr>) (rs_turns s),
            rs_next_delivery := max (rs_next_delivery s) d\<rparr>"
  from ok p(1) obtain before where r1: "\<not> tn_completed r" "\<not> tn_cancelled r" "phase_ok p r" "epochs_ok p r"
      "rs_items s = before @ pending_items r p"
    using r p(2) by (auto elim!: turn_ok_pendingD)
  note b = observe_id_bounds [OF d, where n = "rs_next_delivery s"]
  have mine: "tn_delivery r = None" "\<not> pt_acknowledged p" using r1(3) p(3) by (simp_all add: phase_ok_def)
  have others: "t = turn" if "bt_get (rs_turns s) t = Some q" "tn_delivery q = Some delivery" for t q
  proof (rule ccontr)
    assume "t \<noteq> turn"
    then have "settled s t q" using ok that(1) p(1,2) by (auto simp: turn_ok_def turns_ok_def is_pending_def)
    then show False using p(6) that(2) by (auto simp: settled_def)
  qed
  have "pending_ok s'"
    using r1 p by (auto simp: s' pending_ok_def bt_get_insert phase_ok_def pending_items_def user_item_def answer_item_def
        cong: epochs_ok_cong)
  moreover have "turns_ok s'"
    by (rule turns_ok_insert [where s = s and turn = turn and q = "r\<lparr>tn_assistant_item := Some item, tn_delivery := Some delivery\<rparr>"])
      (use ok p r r1(5) in \<open>auto simp: s' turn_ok_def is_pending_def pending_items_def user_item_def\<close>)
  moreover have "deliveries_ok s'"
    using ok r p mine by (auto simp: s' turn_ok_def deliveries_ok_def dest: others intro!: has_delivery_insert unique_deliveries_insert)
  moreover have "ids_ok s'"
    using ok r p b by (auto simp: s' turn_ok_def ids_ok_def bt_get_insert bt_contains_key_def intro: max.strict_coboundedI1)
  ultimately show ?thesis by (simp add: turn_ok_def)
qed

lemma turn_ok_output_acknowledged:
  assumes ok: "turn_ok s" and "apply_output_acknowledged s turn delivery = Ok s'"
  shows "turn_ok s'"
  using assms(2)
proof (rule output_acknowledged_OkD)
  fix p d
  assume p: "rs_pending s = Some p" "pt_turn p = turn" "pt_phase p = PhasePrepared" "pt_prepared p = Some d" "pd_delivery d = delivery"
    and s': "s' = s\<lparr>rs_pending := Some (p\<lparr>pt_acknowledged := True\<rparr>), rs_acknowledged := finsert delivery (rs_acknowledged s)\<rparr>"
  from ok p(1) obtain r before where r: "bt_get (rs_turns s) turn = Some r" "\<not> tn_completed r" "\<not> tn_cancelled r" "phase_ok p r"
      "epochs_ok p r" "rs_items s = before @ pending_items r p"
    using p(2) by (auto elim!: turn_ok_pendingD)
  have mine: "tn_delivery r = Some delivery" using r(4) p by (simp add: phase_ok_def)
  have "pending_ok s'"
    using r p by (auto simp: s' pending_ok_def phase_ok_def pending_items_def user_item_def answer_item_def cong: epochs_ok_cong)
  moreover have "turns_ok s'" by (rule turns_ok_same [where s = s]) (use ok p in \<open>auto simp: s' turn_ok_def is_pending_def\<close>)
  moreover have "deliveries_ok s'" using ok p mine r(1) by (auto simp: s' turn_ok_def deliveries_ok_def has_delivery_def)
  moreover have "ids_ok s'" using ok p by (simp add: s' turn_ok_def ids_ok_def)
  ultimately show ?thesis by (simp add: turn_ok_def)
qed

text \<open>The pending Turn settles: its record is final and nothing is pending.\<close>

lemma turn_ok_settle:
  assumes ok: "turn_ok s" and p: "rs_pending s = Some p" "pt_turn p = turn" and r: "bt_get (rs_turns s) turn = Some r"
    and q: "tn_delivery q = tn_delivery r" "tn_user_item q = tn_user_item r" "settled s turn q"
  shows "turn_ok (s\<lparr>rs_turns := bt_insert turn q (rs_turns s), rs_pending := None\<rparr>)" (is "turn_ok ?s")
proof -
  have "pending_ok ?s" by (simp add: pending_ok_def)
  moreover have "turns_ok ?s"
    by (rule turns_ok_insert [where s = s and turn = turn and q = q])
      (use ok p r q in \<open>auto simp: turn_ok_def turns_ok_def is_pending_def settled_def\<close>)
  moreover have "deliveries_ok ?s"
    using ok r q(1) by (auto simp: turn_ok_def deliveries_ok_def dest: unique_deliveriesD
        intro!: has_delivery_insert unique_deliveries_insert)
  moreover have "ids_ok ?s" using ok r q(1) by (auto simp: turn_ok_def ids_ok_def bt_get_insert bt_contains_key_def)
  ultimately show ?thesis by (simp add: turn_ok_def)
qed

lemma turn_ok_completed:
  assumes ok: "turn_ok s" and "apply_turn_completed s turn = Ok s'"
  shows "turn_ok s'"
  using assms(2)
proof (rule turn_completed_OkD)
  fix p r
  assume p: "rs_pending s = Some p" "pt_turn p = turn" "pt_phase p = PhasePrepared" "pt_acknowledged p"
    and r: "bt_get (rs_turns s) turn = Some r"
    and s': "s' = s\<lparr>rs_turns := bt_insert turn (r\<lparr>tn_completed := True\<rparr>) (rs_turns s), rs_pending := None\<rparr>"
  from ok p(1) obtain before where r1: "\<not> tn_cancelled r" "phase_ok p r" "rs_items s = before @ pending_items r p"
    using r p(2) by (auto elim!: turn_ok_pendingD)
  from r1(2) p(3) obtain d where d: "pt_prepared p = Some d" "pt_assistant_item p = Some (pd_item d)"
      "tn_assistant_item r = Some (pd_item d)" "tn_delivery r = Some (pd_delivery d)"
    by (auto simp: phase_ok_def)
  have "pd_delivery d |\<in>| rs_acknowledged s" using ok p d by (simp add: turn_ok_def deliveries_ok_def)
  then have "settled s turn (r\<lparr>tn_completed := True\<rparr>)"
    using r1 d p by (auto simp: settled_def pending_items_def answer_item_def)
  then show ?thesis unfolding s' by (intro turn_ok_settle [OF ok p(1,2) r]) simp_all
qed

lemma turn_ok_cancelled:
  assumes ok: "turn_ok s" and "apply_turn_cancelled s turn = Ok s'"
  shows "turn_ok s'"
  using assms(2)
proof (rule turn_cancelled_OkD)
  fix p r
  assume p: "rs_pending s = Some p" "pt_turn p = turn" "blocked_by_provider p" and r: "bt_get (rs_turns s) turn = Some r"
    and s': "s' = s\<lparr>rs_turns := bt_insert turn (r\<lparr>tn_cancelled := True\<rparr>) (rs_turns s), rs_pending := None\<rparr>"
  from ok p(1) have "\<not> tn_completed r" "phase_ok p r" using r p(2) by (auto elim!: turn_ok_pendingD)
  then have "settled s turn (r\<lparr>tn_cancelled := True\<rparr>)"
    using p(3) by (auto simp: settled_def blocked_by_provider_def phase_ok_def silent_def)
  then show ?thesis unfolding s' by (intro turn_ok_settle [OF ok p(1,2) r]) simp_all
qed

lemma turn_ok_blocked:
  assumes ok: "turn_ok s" and "apply_turn_blocked s turn reason origin stage = Ok s'"
  shows "turn_ok s'"
  using assms(2)
proof (rule turn_blocked_OkD)
  fix p
  assume p: "rs_pending s = Some p" "pt_phase p = PhaseAdmitted" "pt_open_usage_attempt p = None"
    and s': "s' = s\<lparr>rs_pending := Some (p\<lparr>pt_phase := PhaseBlocked, pt_blocked_reason := Some reason,
             pt_block_origin := Some origin, pt_unavailable_stage := stage\<rparr>)\<rparr>"
  show ?thesis
    by (rule turn_ok_pending [OF ok p(1), where q = "p\<lparr>pt_phase := PhaseBlocked, pt_blocked_reason := Some reason,
             pt_block_origin := Some origin, pt_unavailable_stage := stage\<rparr>"])
      (use p s' in \<open>simp_all add: phase_ok_def silent_def cong: epochs_ok_cong\<close>)
qed

lemma readmitted_phase: "blocked_by_provider p \<Longrightarrow> phase_ok p r \<Longrightarrow> phase_ok (readmitted p) r"
  by (simp add: blocked_by_provider_def readmitted_def phase_ok_def silent_def)

lemma readmitted_same:
  "pt_turn (readmitted p) = pt_turn p" "pt_input (readmitted p) = pt_input p" "pt_assistant_item (readmitted p) = pt_assistant_item p"
  "pt_prepared (readmitted p) = pt_prepared p" "pt_acknowledged (readmitted p) = pt_acknowledged p"
  "pt_agent (readmitted p) = pt_agent p" "pt_fallback_index (readmitted p) = pt_fallback_index p"
  "pt_config (readmitted p) = pt_config p" "pt_provider (readmitted p) = pt_provider p"
  "pt_phase (readmitted p) = PhaseAdmitted" "pt_streamed_text (readmitted p) = pt_streamed_text p"
  "blocked_by_provider p \<Longrightarrow> pt_phase p = PhaseBlocked"
  by (simp_all add: readmitted_def blocked_by_provider_def)

lemma turn_ok_retry:
  assumes ok: "turn_ok s" and "apply_retry_requested s turn = Ok s'"
  shows "turn_ok s'"
  using assms(2)
proof (rule retry_requested_OkD)
  fix p
  assume p: "rs_pending s = Some p" "blocked_by_provider p" "s' = s\<lparr>rs_pending := Some (readmitted p)\<rparr>"
  show ?thesis
    by (rule turn_ok_pending [OF ok p(1), where q = "readmitted p"])
      (use p in \<open>simp_all add: readmitted_phase readmitted_same cong: epochs_ok_cong\<close>)
qed

lemma turn_ok_fallback:
  assumes ok: "turn_ok s" and "apply_fallback_requested s turn i = Ok s'"
  shows "turn_ok s'"
  using assms(2)
proof (rule fallback_requested_OkD)
  fix p r f
  assume p: "rs_pending s = Some p" "pt_turn p = turn" "blocked_by_provider p" and r: "bt_get (rs_turns s) turn = Some r"
    and i: "unat i = Suc (unat (pt_fallback_index p))" "unat i \<le> length (tn_fallbacks r)" "f = tn_fallbacks r ! (unat i - 1)"
    and s': "s' = s\<lparr>rs_pending := Some ((readmitted p)\<lparr>pt_config := fb_config f, pt_provider := fb_provider f, pt_fallback_index := i\<rparr>)\<rparr>"
  let ?q = "(readmitted p)\<lparr>pt_config := fb_config f, pt_provider := fb_provider f, pt_fallback_index := i\<rparr>"
  have "phase_ok ?q r'" if "phase_ok p r'" for r'
    using readmitted_phase [OF p(3) that] by (simp add: phase_ok_def silent_def split: pending_phase.splits)
  moreover have "epochs_ok ?q r'" if "bt_get (rs_turns s) (pt_turn p) = Some r'" "epochs_ok p r'" for r'
    using that r p(2) i by (simp add: epochs_ok_def readmitted_def Let_def)
  ultimately show ?thesis
    using p s' by (intro turn_ok_pending [OF ok p(1), where q = ?q]) (simp_all add: readmitted_def blocked_by_provider_def)
qed

lemma turn_ok_attempt_started:
  assumes ok: "turn_ok s" and "apply_attempt_started s turn attempt started_at = Ok s'"
  shows "turn_ok s'"
  using assms(2)
proof (rule attempt_started_OkD)
  fix p :: pending_turn and n
  let ?q = "p\<lparr>pt_next_usage_attempt := n, pt_open_usage_attempt := Some \<lparr>oa_attempt = attempt, oa_started_at = started_at\<rparr>\<rparr>"
  assume p: "rs_pending s = Some p" "pt_phase p = PhaseAdmitted" "s' = s\<lparr>rs_pending := Some ?q\<rparr>"
  show ?thesis
    by (rule turn_ok_pending [OF ok p(1), where q = ?q]) (use p in \<open>simp_all add: phase_ok_def silent_def cong: epochs_ok_cong\<close>)
qed

lemma turn_ok_attempt_finished:
  assumes ok: "turn_ok s" and "apply_attempt_finished s turn attempt completed_at outcome usage windows required = Ok s'"
  shows "turn_ok s'"
  using assms(2)
proof (rule attempt_finished_OkD)
  fix p :: pending_turn and u
  let ?q = "p\<lparr>pt_open_usage_attempt := None\<rparr>"
  assume p: "rs_pending s = Some p" "pt_phase p = PhaseAdmitted" "s' = s\<lparr>rs_pending := Some ?q, rs_usage := u,
       rs_pending_cost := if required then Some (turn, attempt) else rs_pending_cost s\<rparr>"
  show ?thesis
    by (rule turn_ok_pending [OF ok p(1), where q = ?q])
      (use p in \<open>simp_all add: phase_ok_def silent_def turn_core_def cong: epochs_ok_cong\<close>)
qed

text \<open>The events that the invariant does not see.\<close>

lemma turn_core_quiet:
  "apply_checkpoint h s checkpoint = Ok s' \<Longrightarrow> turn_core s' = turn_core s"
  "apply_selection_staged s agent selection = Ok s' \<Longrightarrow> turn_core s' = turn_core s"
  "apply_thread_created s thread = Ok s' \<Longrightarrow> turn_core s' = turn_core s"
  "apply_config_frozen s config = Ok s' \<Longrightarrow> turn_core s' = turn_core s"
  "apply_provider_frozen s provider = Ok s' \<Longrightarrow> turn_core s' = turn_core s"
  by (auto simp: apply_checkpoint_def apply_selection_staged_def apply_thread_created_def apply_config_frozen_def
      apply_provider_frozen_def result_ok turn_core_def)

lemma turn_core_cost: "apply_cost_evaluated s turn attempt evaluation = Ok s' \<Longrightarrow> turn_core s' = turn_core s"
  by (erule cost_evaluated_OkD) (simp add: turn_core_def)

lemma turn_apply_Ok: "turn_apply h s e = Ok s' \<Longrightarrow> apply_kind h s e = Ok s'"
  by (auto simp: turn_apply_def split: if_splits)

lemma turn_ok_apply:
  assumes ok: "turn_ok s" and "turn_apply h s e = Ok s'"
  shows "turn_ok s'"
proof -
  note core = turn_ok_core [OF _ ok]
  from turn_apply_Ok [OF assms(2)] show ?thesis
    by (cases e) (simp_all add: turn_core_quiet [THEN core] turn_core_cost [THEN core] turn_ok_admitted [OF ok] turn_ok_item_started [OF ok]
      turn_ok_text_delta [OF ok] turn_ok_output_prepared [OF ok] turn_ok_output_acknowledged [OF ok] turn_ok_completed [OF ok]
      turn_ok_cancelled [OF ok] turn_ok_blocked [OF ok] turn_ok_retry [OF ok] turn_ok_fallback [OF ok]
      turn_ok_attempt_started [OF ok] turn_ok_attempt_finished [OF ok])
qed

lemma reachable_turn_ok: "turn_reachable h s \<Longrightarrow> turn_ok s"
  by (induction rule: turn_reachable.induct) (auto intro: turn_ok_default turn_ok_apply)

lemma open_or_settled:
  assumes "turn_ok s" and "bt_get (rs_turns s) turn = Some r"
  shows "is_pending s turn \<and> \<not> tn_completed r \<and> \<not> tn_cancelled r \<or> settled s turn r"
proof -
  have "is_pending s turn \<or> settled s turn r" using assms by (simp add: turn_ok_def turns_ok_def)
  moreover have "\<not> tn_completed r \<and> \<not> tn_cancelled r" if "is_pending s turn"
    using assms that by (auto simp: is_pending_def elim!: turn_ok_pendingD)
  ultimately show ?thesis by blast
qed

end
