(* ===== verification/Turn_Talk.thy ===== *)
theory Turn_Talk
  imports Turn_Reach
begin

text \<open>
  What the Turn events mean to a user: a conversation, one question at a time, each answered once, given
  up, or still open.  \<open>conversation_step\<close> is the abstract machine; the lemmas relate it to the states of
  \<open>RuntimeState\<close>.
\<close>

section \<open>Exchanges\<close>

record exchange =
  ex_turn :: turn_id
  ex_user_item :: item_id
  ex_input :: string
  ex_output :: "(item_id \<times> string) option"

definition exchange_items :: "exchange \<Rightarrow> canonical_item list" where
  "exchange_items x = \<lparr>ci_id = ex_user_item x, ci_turn = ex_turn x, ci_role = RoleUser, ci_text = ex_input x\<rparr> #
     (case ex_output x of None \<Rightarrow> []
      | Some (item, text) \<Rightarrow> [\<lparr>ci_id = item, ci_turn = ex_turn x, ci_role = RoleAssistant, ci_text = text\<rparr>])"

definition log_item :: "exchange list \<Rightarrow> canonical_item \<Rightarrow> exchange list" where
  "log_item log item =
     (case ci_role item of
        RoleUser \<Rightarrow> log @ [\<lparr>ex_turn = ci_turn item, ex_user_item = ci_id item, ex_input = ci_text item, ex_output = None\<rparr>]
      | RoleAssistant \<Rightarrow> butlast log @ [(last log)\<lparr>ex_output := Some (ci_id item, ci_text item)\<rparr>])"

definition exchanges :: "canonical_item list \<Rightarrow> exchange list" where
  "exchanges items = foldl log_item [] items"

lemma exchanges_Nil [simp]: "exchanges [] = []"
  by (simp add: exchanges_def)

lemma exchanges_user [simp]:
  "exchanges (items @ [\<lparr>ci_id = i, ci_turn = t, ci_role = RoleUser, ci_text = v\<rparr>]) =
     exchanges items @ [\<lparr>ex_turn = t, ex_user_item = i, ex_input = v, ex_output = None\<rparr>]"
  by (simp add: exchanges_def log_item_def)

lemma exchanges_assistant [simp]:
  "exchanges (items @ [\<lparr>ci_id = i, ci_turn = t, ci_role = RoleAssistant, ci_text = v\<rparr>]) =
     butlast (exchanges items) @ [(last (exchanges items))\<lparr>ex_output := Some (i, v)\<rparr>]"
  by (simp add: exchanges_def log_item_def)

section \<open>The abstract machine\<close>

datatype activity =
    Waiting
  | Speaking string
  | Offered string delivery_id bool \<comment> \<open>text, delivery, acknowledged\<close>
  | Halted turn_block_origin "provider_unavailable_stage option"

record conversation =
  cv_log :: "exchange list"
  cv_current :: "(turn_id \<times> string \<times> activity) option"
  cv_delivered :: "delivery_id fset"

fun quiet_event :: "runtime_event \<Rightarrow> bool" where
  "quiet_event (ContextCheckpointPublished _) = True"
| "quiet_event (ModelSelectionStaged _ _) = True"
| "quiet_event (ThreadCreated _) = True"
| "quiet_event (ConfigFrozen _) = True"
| "quiet_event (ProviderFrozen _) = True"
| "quiet_event (UsageAttemptStarted _ _ _) = True"
| "quiet_event (UsageAttemptFinished _ _ _ _ _ _ _) = True"
| "quiet_event (UsageAttemptCostEvaluated _ _ _) = True"
| "quiet_event _ = False"

inductive conversation_step :: "conversation \<Rightarrow> runtime_event \<Rightarrow> conversation \<Rightarrow> bool" where
  ask: "cv_current c = None \<Longrightarrow> trim input \<noteq> [] \<Longrightarrow> turn \<notin> ex_turn ` set (cv_log c) \<Longrightarrow>
     conversation_step c (TurnAdmitted thread turn user config provider fallbacks agent input)
       (c\<lparr>cv_current := Some (turn, input, Waiting)\<rparr>)"
| speak: "cv_current c = Some (turn, input, Waiting) \<Longrightarrow>
     conversation_step c (AssistantItemStarted turn item) (c\<lparr>cv_current := Some (turn, input, Speaking [])\<rparr>)"
| hear: "cv_current c = Some (turn, input, Speaking said) \<Longrightarrow> delta \<noteq> [] \<Longrightarrow> length (said @ delta) \<le> MAX_INPUT_BYTES \<Longrightarrow>
     conversation_step c (AssistantTextDelta turn item delta) (c\<lparr>cv_current := Some (turn, input, Speaking (said @ delta))\<rparr>)"
| offer: "cv_current c = Some (turn, input, Speaking said) \<Longrightarrow> trim said \<noteq> [] \<Longrightarrow> d |\<notin>| cv_delivered c \<Longrightarrow>
     conversation_step c (OutputPrepared turn item d said us legacy) (c\<lparr>cv_current := Some (turn, input, Offered said d False)\<rparr>)"
| deliver: "cv_current c = Some (turn, input, Offered said d False) \<Longrightarrow> d |\<notin>| cv_delivered c \<Longrightarrow>
     conversation_step c (OutputAcknowledged turn d)
       (c\<lparr>cv_current := Some (turn, input, Offered said d True), cv_delivered := finsert d (cv_delivered c)\<rparr>)"
| finish: "cv_current c = Some (turn, input, Offered said d True) \<Longrightarrow> d |\<in>| cv_delivered c \<Longrightarrow>
     conversation_step c (TurnCompleted turn)
       (c\<lparr>cv_log := cv_log c @ [\<lparr>ex_turn = turn, ex_user_item = user, ex_input = input, ex_output = Some (item, said)\<rparr>],
          cv_current := None\<rparr>)"
| halt: "cv_current c = Some (turn, input, Waiting) \<Longrightarrow>
     conversation_step c (TurnBlocked turn reason origin stage) (c\<lparr>cv_current := Some (turn, input, Halted origin stage)\<rparr>)"
| give_up: "cv_current c = Some (turn, input, Halted OriginProvider stage) \<Longrightarrow>
     conversation_step c (TurnCancelled turn)
       (c\<lparr>cv_log := cv_log c @ [\<lparr>ex_turn = turn, ex_user_item = user, ex_input = input, ex_output = None\<rparr>],
          cv_current := None\<rparr>)"
| retry: "cv_current c = Some (turn, input, Halted OriginProvider stage) \<Longrightarrow> stage_is_retryable stage \<Longrightarrow>
     conversation_step c (TurnRetryRequested turn) (c\<lparr>cv_current := Some (turn, input, Waiting)\<rparr>)"
| fall_back: "cv_current c = Some (turn, input, Halted OriginProvider stage) \<Longrightarrow> stage_is_retryable stage \<Longrightarrow>
     conversation_step c (ProviderFallbackRequested turn i) (c\<lparr>cv_current := Some (turn, input, Waiting)\<rparr>)"
| quiet: "quiet_event e \<Longrightarrow> conversation_step c e c"

section \<open>The abstraction\<close>

definition turn_activity :: "pending_turn \<Rightarrow> activity" where
  "turn_activity p =
     (case pt_phase p of
        PhaseAdmitted \<Rightarrow> Waiting
      | PhaseStreaming \<Rightarrow> Speaking (pt_streamed_text p)
      | PhasePrepared \<Rightarrow> Offered (pt_streamed_text p) (pd_delivery (the (pt_prepared p))) (pt_acknowledged p)
      | PhaseBlocked \<Rightarrow> Halted (the (pt_block_origin p)) (pt_unavailable_stage p))"

definition conversation_of :: "runtime_state \<Rightarrow> conversation" where
  "conversation_of s =
     (case rs_pending s of
        None \<Rightarrow> \<lparr>cv_log = exchanges (rs_items s), cv_current = None, cv_delivered = rs_acknowledged s\<rparr>
      | Some p \<Rightarrow> \<lparr>cv_log = butlast (exchanges (rs_items s)), cv_current = Some (pt_turn p, pt_input p, turn_activity p),
          cv_delivered = rs_acknowledged s\<rparr>)"

lemma conversation_of_core:
  assumes "turn_core s' = turn_core s"
  shows "conversation_of s' = conversation_of s"
proof -
  have same: "rs_items s' = rs_items s" "rs_pending s' = rs_pending s" "rs_acknowledged s' = rs_acknowledged s"
    using assms by (simp_all add: turn_core_def)
  show ?thesis unfolding conversation_of_def same ..
qed

text \<open>What an accepted event does to the conversation: the cases of the proof below.\<close>

lemma conversation_pending:
  assumes "turn_ok s" and "rs_pending s = Some p"
  obtains r before where "bt_get (rs_turns s) (pt_turn p) = Some r" "phase_ok p r" "rs_items s = before @ pending_items r p"
    "cv_log (conversation_of s) = exchanges before"
    "exchanges (rs_items s) = exchanges before @ [\<lparr>ex_turn = pt_turn p, ex_user_item = tn_user_item r, ex_input = pt_input p,
       ex_output = (if pt_phase p = PhasePrepared then Some (the (pt_assistant_item p), pt_streamed_text p) else None)\<rparr>]"
proof -
  from assms obtain r before where r: "bt_get (rs_turns s) (pt_turn p) = Some r" "phase_ok p r" "rs_items s = before @ pending_items r p"
    by (auto elim!: turn_ok_pendingD)
  have two: "before @ [x, y] = (before @ [x]) @ [y]" for x y by simp
  have "exchanges (rs_items s) = exchanges before @ [\<lparr>ex_turn = pt_turn p, ex_user_item = tn_user_item r, ex_input = pt_input p,
       ex_output = (if pt_phase p = PhasePrepared then Some (the (pt_assistant_item p), pt_streamed_text p) else None)\<rparr>]"
    unfolding r(3) pending_items_def user_item_def answer_item_def by (simp add: two del: append.simps append_assoc)
  with r that show ?thesis by (simp add: conversation_of_def assms(2))
qed

section \<open>The history is a dialogue\<close>

definition dialogue :: "canonical_item list \<Rightarrow> bool" where
  "dialogue items \<longleftrightarrow> concat (map exchange_items (exchanges items)) = items"

lemma dialogue_Nil: "dialogue []"
  by (simp add: dialogue_def)

lemma dialogue_user:
  "dialogue (items @ [\<lparr>ci_id = i, ci_turn = t, ci_role = RoleUser, ci_text = v\<rparr>]) \<longleftrightarrow> dialogue items"
  by (simp add: dialogue_def exchange_items_def)

lemma dialogue_answer:
  "dialogue items \<Longrightarrow> dialogue (items @ [\<lparr>ci_id = i, ci_turn = t, ci_role = RoleUser, ci_text = v\<rparr>,
     \<lparr>ci_id = j, ci_turn = t, ci_role = RoleAssistant, ci_text = w\<rparr>])"
  using exchanges_assistant [of "items @ [\<lparr>ci_id = i, ci_turn = t, ci_role = RoleUser, ci_text = v\<rparr>]" j t w]
  by (simp add: dialogue_def exchange_items_def)

lemma dialogue_turns:
  assumes "dialogue items" and "x \<in> set (exchanges items)"
  shows "ex_turn x \<in> ci_turn ` set items"
proof -
  have "\<lparr>ci_id = ex_user_item x, ci_turn = ex_turn x, ci_role = RoleUser, ci_text = ex_input x\<rparr> \<in> set (exchange_items x)"
    by (simp add: exchange_items_def)
  then have "\<lparr>ci_id = ex_user_item x, ci_turn = ex_turn x, ci_role = RoleUser, ci_text = ex_input x\<rparr>
      \<in> set (concat (map exchange_items (exchanges items)))"
    using assms(2) by auto
  then have "\<lparr>ci_id = ex_user_item x, ci_turn = ex_turn x, ci_role = RoleUser, ci_text = ex_input x\<rparr> \<in> set items"
    using assms(1) by (simp only: dialogue_def)
  then have "ci_turn \<lparr>ci_id = ex_user_item x, ci_turn = ex_turn x, ci_role = RoleUser, ci_text = ex_input x\<rparr> \<in> ci_turn ` set items"
    by (rule imageI)
  then show ?thesis by simp
qed

lemma rs_items_cases:
  assumes ok: "turn_ok s" and "turn_apply h s e = Ok s'"
  shows "rs_items s' = rs_items s
    \<or> (\<exists>user turn input. rs_items s' = rs_items s @ [\<lparr>ci_id = user, ci_turn = turn, ci_role = RoleUser, ci_text = input\<rparr>]
         \<and> bt_get (rs_turns s) turn = None)
    \<or> (\<exists>p r before. rs_items s = before @ [user_item r p] \<and> rs_items s' = before @ [user_item r p, answer_item p])"
proof -
  have quiet: "rs_items s1 = rs_items s" if "turn_core s1 = turn_core s" for s1 using that by (simp add: turn_core_def)
  show ?thesis
  proof (cases e)
    case (TurnAdmitted thread turn user config provider fallbacks agent input)
    with assms(2) have "apply_turn_admitted s thread turn user config provider fallbacks agent input = Ok s'"
      by (auto dest!: turn_apply_Ok)
    from turn_admitted_OkD(6,11) [OF this] show ?thesis by auto
  next
    case (OutputPrepared turn item delivery said us legacy)
    with assms(2) have "apply_output_prepared s turn item delivery said us legacy = Ok s'" by (auto dest!: turn_apply_Ok)
    then obtain p r n u d where p: "rs_pending s = Some p" "pt_turn p = turn" "pt_phase p = PhaseStreaming"
      "pt_assistant_item p = Some item" "pt_streamed_text p = said"
      and s': "s' = s\<lparr>rs_usage := u, rs_pending := Some (p\<lparr>pt_next_usage_attempt := n, pt_phase := PhasePrepared,
              pt_prepared := Some \<lparr>pd_item = item, pd_delivery = delivery, pd_usage_records = us\<rparr>\<rparr>),
            rs_items := rs_items s @ [\<lparr>ci_id = item, ci_turn = turn, ci_role = RoleAssistant, ci_text = said\<rparr>],
            rs_turns := bt_insert turn (r\<lparr>tn_assistant_item := Some item, tn_delivery := Some delivery\<rparr>) (rs_turns s),
            rs_next_delivery := max (rs_next_delivery s) d\<rparr>"
      by (rule output_prepared_OkD) blast
    from ok p(1) obtain q before where "rs_items s = before @ pending_items q p" by (auto elim!: turn_ok_pendingD)
    with p s' have "rs_items s = before @ [user_item q p] \<and> rs_items s' = before @ [user_item q p, answer_item p]"
      by (simp add: pending_items_def answer_item_def)
    then show ?thesis by blast
  qed (use assms(2) in \<open>auto dest!: turn_apply_Ok dest: turn_core_quiet [THEN quiet] turn_core_cost [THEN quiet]
     elim!: item_started_OkD text_delta_OkD output_acknowledged_OkD turn_completed_OkD turn_blocked_OkD turn_cancelled_OkD
       retry_requested_OkD fallback_requested_OkD attempt_started_OkD attempt_finished_OkD\<close>)
qed

lemma reachable_dialogue: "turn_reachable h s \<Longrightarrow> dialogue (rs_items s) \<and> distinct (map ex_turn (exchanges (rs_items s)))"
proof (induction rule: turn_reachable.induct)
  case turn_start
  then show ?case by (simp add: runtime_state_default_def dialogue_Nil)
next
  case (turn_step s e s')
  have ok: "turn_ok s" using turn_step.hyps(1) by (rule reachable_turn_ok)
  from rs_items_cases [OF ok turn_step.hyps(2)] show ?case
  proof (elim disjE exE conjE)
    fix user turn input
    assume s': "rs_items s' = rs_items s @ [\<lparr>ci_id = user, ci_turn = turn, ci_role = RoleUser, ci_text = input\<rparr>]"
      and new: "bt_get (rs_turns s) turn = None"
    have "turn \<notin> ex_turn ` set (exchanges (rs_items s))"
      using dialogue_turns turn_step.IH new ok by (fastforce simp: turn_ok_def ids_ok_def bt_contains_key_def)
    then show ?case using turn_step.IH by (simp add: s' dialogue_user)
  next
    fix p r before
    assume s: "rs_items s = before @ [user_item r p]" and s': "rs_items s' = before @ [user_item r p, answer_item p]"
    have "exchanges (rs_items s') = exchanges ((before @ [user_item r p]) @ [answer_item p])" by (simp add: s')
    also have "\<dots> = exchanges before @ [\<lparr>ex_turn = pt_turn p, ex_user_item = tn_user_item r, ex_input = pt_input p,
        ex_output = Some (the (pt_assistant_item p), pt_streamed_text p)\<rparr>]"
      by (simp add: user_item_def answer_item_def del: append_assoc append.simps)
    finally have "distinct (map ex_turn (exchanges (rs_items s')))"
      using turn_step.IH by (simp add: s user_item_def)
    then show ?case using turn_step.IH by (simp add: s s' user_item_def answer_item_def dialogue_user dialogue_answer)
  qed (use turn_step.IH in simp)
qed

section \<open>The simulation\<close>

lemma conversation_quiet:
  "turn_core s' = turn_core s \<Longrightarrow> quiet_event e \<Longrightarrow> conversation_step (conversation_of s) e (conversation_of s')"
  using conversation_of_core quiet by metis

lemma turn_refines_conversation:
  assumes reach: "turn_reachable h s" and run: "turn_apply h s e = Ok s'"
  shows "conversation_step (conversation_of s) e (conversation_of s')"
proof -
  have ok: "turn_ok s" using reach by (rule reachable_turn_ok)
  note kind = turn_apply_Ok [OF run]
  show ?thesis
  proof (cases e)
    case (TurnAdmitted thread turn user config provider fallbacks agent input)
    with kind have D: "apply_turn_admitted s thread turn user config provider fallbacks agent input = Ok s'" by simp
    note D = turn_admitted_OkD [OF D]
    have "turn \<notin> ex_turn ` set (exchanges (rs_items s))"
      using dialogue_turns reachable_dialogue [OF reach] D(6) ok by (fastforce simp: turn_ok_def ids_ok_def bt_contains_key_def)
    moreover have "conversation_of s' = (conversation_of s)\<lparr>cv_current := Some (turn, input, Waiting)\<rparr>"
      using D(2,11) by (auto simp: conversation_of_def admitted_turn_def turn_activity_def)
    ultimately show ?thesis using ask [of "conversation_of s" input turn] D(2,8) TurnAdmitted by (simp add: conversation_of_def)
  next
    case (AssistantItemStarted turn item)
    with kind have "apply_item_started s turn item = Ok s'" by simp
    moreover have "pt_streamed_text p = []" if "rs_pending s = Some p" "pt_phase p = PhaseAdmitted" for p
      using ok that by (auto simp: phase_ok_def silent_def elim!: turn_ok_pendingD)
    ultimately show ?thesis
      by (elim item_started_OkD)
        (use speak [of "conversation_of s" turn _ item] AssistantItemStarted in \<open>simp add: conversation_of_def turn_activity_def\<close>)
  next
    case (AssistantTextDelta turn item delta)
    with kind have "apply_text_delta s turn item delta = Ok s'" by simp
    then show ?thesis
      by (rule text_delta_OkD)
        (use hear [of "conversation_of s" turn] AssistantTextDelta in \<open>simp add: conversation_of_def turn_activity_def\<close>)
  next
    case (OutputPrepared turn item d said us legacy)
    with kind have "apply_output_prepared s turn item d said us legacy = Ok s'" by simp
    then obtain p r n u d1 where p: "rs_pending s = Some p" "pt_turn p = turn" "pt_phase p = PhaseStreaming"
      "pt_assistant_item p = Some item" "pt_streamed_text p = said" "d |\<notin>| rs_acknowledged s" "trim said \<noteq> []"
      and s': "s' = s\<lparr>rs_usage := u, rs_pending := Some (p\<lparr>pt_next_usage_attempt := n, pt_phase := PhasePrepared,
              pt_prepared := Some \<lparr>pd_item = item, pd_delivery = d, pd_usage_records = us\<rparr>\<rparr>),
            rs_items := rs_items s @ [\<lparr>ci_id = item, ci_turn = turn, ci_role = RoleAssistant, ci_text = said\<rparr>],
            rs_turns := bt_insert turn (r\<lparr>tn_assistant_item := Some item, tn_delivery := Some d\<rparr>) (rs_turns s),
            rs_next_delivery := max (rs_next_delivery s) d1\<rparr>"
      by (rule output_prepared_OkD) blast
    from ok p(1) obtain q before where ph: "phase_ok p q" and items: "rs_items s = before @ pending_items q p"
      by (auto elim!: turn_ok_pendingD)
    have ack: "\<not> pt_acknowledged p" using ph p(3) by (simp add: phase_ok_def)
    have "exchanges (rs_items s') = exchanges ((before @ [user_item q p]) @ [answer_item p])"
      using p items by (simp add: s' pending_items_def answer_item_def)
    then have "butlast (exchanges (rs_items s')) = exchanges before" "butlast (exchanges (rs_items s)) = exchanges before"
      using p items by (simp_all add: pending_items_def user_item_def answer_item_def del: append_assoc append.simps)
    then have "conversation_of s' = (conversation_of s)\<lparr>cv_current := Some (turn, pt_input p, Offered said d False)\<rparr>"
      using p ack by (simp add: s' conversation_of_def turn_activity_def)
    moreover have "cv_current (conversation_of s) = Some (turn, pt_input p, Speaking said)" "d |\<notin>| cv_delivered (conversation_of s)"
      using p by (simp_all add: conversation_of_def turn_activity_def)
    ultimately show ?thesis using offer [of "conversation_of s" turn "pt_input p" said d item us legacy] p(7) OutputPrepared by simp
  next
    case (OutputAcknowledged turn d)
    with kind have "apply_output_acknowledged s turn d = Ok s'" by simp
    then show ?thesis
      by (rule output_acknowledged_OkD)
        (use deliver [of "conversation_of s" turn _ _ d] OutputAcknowledged in \<open>simp add: conversation_of_def turn_activity_def\<close>)
  next
    case (TurnCompleted turn)
    with kind have "apply_turn_completed s turn = Ok s'" by simp
    then obtain p r where p: "rs_pending s = Some p" "pt_turn p = turn" "pt_phase p = PhasePrepared" "pt_acknowledged p"
      and s': "s' = s\<lparr>rs_turns := bt_insert turn (r\<lparr>tn_completed := True\<rparr>) (rs_turns s), rs_pending := None\<rparr>"
      by (rule turn_completed_OkD)
    from ok p(1) obtain q before where ph: "phase_ok p q" and log: "cv_log (conversation_of s) = exchanges before"
      and all: "exchanges (rs_items s) = exchanges before @ [\<lparr>ex_turn = pt_turn p, ex_user_item = tn_user_item q, ex_input = pt_input p,
       ex_output = (if pt_phase p = PhasePrepared then Some (the (pt_assistant_item p), pt_streamed_text p) else None)\<rparr>]"
      by (rule conversation_pending)
    from ph p(3) obtain d where d: "pt_prepared p = Some d" by (auto simp: phase_ok_def)
    have "pd_delivery d |\<in>| rs_acknowledged s" using ok p d by (simp add: turn_ok_def deliveries_ok_def)
    with finish [of "conversation_of s" turn "pt_input p" "pt_streamed_text p" "pd_delivery d" "tn_user_item q" "the (pt_assistant_item p)"]
    show ?thesis using p d log all TurnCompleted by (simp add: s' conversation_of_def turn_activity_def)
  next
    case (TurnBlocked turn reason origin stage)
    with kind have "apply_turn_blocked s turn reason origin stage = Ok s'" by simp
    then show ?thesis
      by (rule turn_blocked_OkD)
        (use halt [of "conversation_of s" turn _ reason origin stage] TurnBlocked in \<open>simp add: conversation_of_def turn_activity_def\<close>)
  next
    case (TurnCancelled turn)
    with kind have "apply_turn_cancelled s turn = Ok s'" by simp
    then obtain p r where p: "rs_pending s = Some p" "pt_turn p = turn" "blocked_by_provider p"
      and s': "s' = s\<lparr>rs_turns := bt_insert turn (r\<lparr>tn_cancelled := True\<rparr>) (rs_turns s), rs_pending := None\<rparr>"
      by (rule turn_cancelled_OkD)
    from ok p(1) obtain q :: turn_record and before where log: "cv_log (conversation_of s) = exchanges before"
      and all: "exchanges (rs_items s) = exchanges before @ [\<lparr>ex_turn = pt_turn p, ex_user_item = tn_user_item q, ex_input = pt_input p,
       ex_output = (if pt_phase p = PhasePrepared then Some (the (pt_assistant_item p), pt_streamed_text p) else None)\<rparr>]"
      by (rule conversation_pending) (rule that)
    show ?thesis using give_up [of "conversation_of s" turn "pt_input p" _ "tn_user_item q"] p log all TurnCancelled
      by (simp add: s' conversation_of_def turn_activity_def blocked_by_provider_def)
  next
    case (TurnRetryRequested turn)
    with kind have "apply_retry_requested s turn = Ok s'" by simp
    then show ?thesis
      by (rule retry_requested_OkD)
        (use retry [of "conversation_of s" turn] TurnRetryRequested in
          \<open>simp add: conversation_of_def turn_activity_def readmitted_def blocked_by_provider_def\<close>)
  next
    case (ProviderFallbackRequested turn i)
    with kind have "apply_fallback_requested s turn i = Ok s'" by simp
    then show ?thesis
      by (rule fallback_requested_OkD)
        (use fall_back [of "conversation_of s" turn _ _ i] ProviderFallbackRequested in
          \<open>simp add: conversation_of_def turn_activity_def readmitted_def blocked_by_provider_def\<close>)
  next
    case (UsageAttemptStarted turn attempt started_at)
    with kind have "apply_attempt_started s turn attempt started_at = Ok s'" by simp
    then have "conversation_of s' = conversation_of s"
      by (rule attempt_started_OkD) (simp add: conversation_of_def turn_activity_def)
    then show ?thesis using quiet [of e "conversation_of s"] UsageAttemptStarted by simp
  next
    case (UsageAttemptFinished turn attempt completed_at outcome usage windows required)
    with kind have "apply_attempt_finished s turn attempt completed_at outcome usage windows required = Ok s'" by simp
    then have "conversation_of s' = conversation_of s"
      by (rule attempt_finished_OkD) (simp add: conversation_of_def turn_activity_def)
    then show ?thesis using quiet [of e "conversation_of s"] UsageAttemptFinished by simp
  qed (use kind in \<open>auto intro!: conversation_quiet dest: turn_core_quiet turn_core_cost\<close>)
qed

end
