(* ===== verification/Turn_Runs.thy ===== *)
theory Turn_Runs
  imports Turn_Talk
begin

text \<open>
  Lemmas over whole runs of accepted Turn events: what was streamed is what is answered, a delivery is
  acknowledged once, and the usage attempts of a Turn are numbered without gaps.
\<close>

section \<open>Runs of the abstract machine\<close>

inductive conversation_run :: "runtime_event list \<Rightarrow> conversation \<Rightarrow> bool" where
  run_start: "conversation_run [] \<lparr>cv_log = [], cv_current = None, cv_delivered = {||}\<rparr>"
| run_step: "conversation_run es c \<Longrightarrow> conversation_step c e c' \<Longrightarrow> conversation_run (es @ [e]) c'"

lemma try_fold_snoc [result_ok]: "try_fold f s (xs @ [x]) = Ok s' \<longleftrightarrow> (\<exists>s1. try_fold f s xs = Ok s1 \<and> f s1 x = Ok s')"
  by (induction xs arbitrary: s) (auto simp: andthen_eq_Ok)

lemma run_refines:
  assumes "try_fold (turn_apply h) runtime_state_default es = Ok s"
  shows "conversation_run es (conversation_of s)"
  using assms
proof (induction es arbitrary: s rule: rev_induct)
  case Nil
  then show ?case using run_start by (auto simp: conversation_of_def runtime_state_default_def)
next
  case (snoc e es)
  then obtain s1 where s1: "try_fold (turn_apply h) runtime_state_default es = Ok s1" "turn_apply h s1 e = Ok s"
    by (auto simp: result_ok)
  have "turn_reachable h s1" using reachable_fold [OF turn_start s1(1)] .
  from turn_refines_conversation [OF this s1(2)] show ?case using snoc.IH [OF s1(1)] by (rule run_step [rotated])
qed

section \<open>What was said\<close>

fun said_to :: "turn_id \<Rightarrow> runtime_event \<Rightarrow> string" where
  "said_to turn (AssistantTextDelta t item delta) = (if t = turn then delta else [])"
| "said_to turn _ = []"

definition said :: "turn_id \<Rightarrow> runtime_event list \<Rightarrow> string" where
  "said turn es = concat (map (said_to turn) es)"

lemma said_simps [simp]: "said turn [] = []" "said turn (es @ [e]) = said turn es @ said_to turn e"
  by (simp_all add: said_def)

primrec activity_text :: "activity \<Rightarrow> string" where
  "activity_text Waiting = []"
| "activity_text (Speaking v) = v"
| "activity_text (Offered v d a) = v"
| "activity_text (Halted origin stage) = []"

definition output_text :: "exchange \<Rightarrow> string" where
  "output_text x = (case ex_output x of None \<Rightarrow> [] | Some (item, v) \<Rightarrow> v)"

definition said_ok :: "runtime_event list \<Rightarrow> conversation \<Rightarrow> bool" where
  "said_ok es c \<longleftrightarrow> (\<forall>x \<in> set (cv_log c). said (ex_turn x) es = output_text x) \<and>
     (\<forall>turn input a. cv_current c = Some (turn, input, a) \<longrightarrow> said turn es = activity_text a \<and> turn \<notin> ex_turn ` set (cv_log c)) \<and>
     (\<forall>turn. turn \<notin> ex_turn ` set (cv_log c) \<and> map_option fst (cv_current c) \<noteq> Some turn \<longrightarrow> said turn es = [])"

lemma quiet_said: "quiet_event e \<Longrightarrow> said_to turn e = []"
  by (cases e) simp_all

lemma run_said: "conversation_run es c \<Longrightarrow> said_ok es c"
proof (induction rule: conversation_run.induct)
  case run_start
  then show ?case by (simp add: said_ok_def)
next
  case (run_step es c e c')
  from run_step.hyps(2) run_step.IH show ?case
    by (cases rule: conversation_step.cases) (auto simp: said_ok_def output_text_def quiet_said)
qed

section \<open>Acknowledgements\<close>

fun acknowledgement :: "runtime_event \<Rightarrow> (turn_id \<times> delivery_id) list" where
  "acknowledgement (OutputAcknowledged turn d) = [(turn, d)]"
| "acknowledgement _ = []"

definition acknowledgements :: "runtime_event list \<Rightarrow> (turn_id \<times> delivery_id) list" where
  "acknowledgements es = concat (map acknowledgement es)"

lemma acknowledgements_simps [simp]:
  "acknowledgements [] = []" "acknowledgements (es @ [e]) = acknowledgements es @ acknowledgement e"
  by (simp_all add: acknowledgements_def)

definition acked :: "activity \<Rightarrow> bool" where
  "acked a \<longleftrightarrow> (\<exists>v d. a = Offered v d True)"

definition acks_ok :: "runtime_event list \<Rightarrow> conversation \<Rightarrow> bool" where
  "acks_ok es c \<longleftrightarrow> distinct (map fst (acknowledgements es)) \<and> distinct (map snd (acknowledgements es)) \<and>
     snd ` set (acknowledgements es) = fset (cv_delivered c) \<and>
     fst ` set (acknowledgements es) \<subseteq> ex_turn ` set (cv_log c)
       \<union> {turn. \<exists>input a. cv_current c = Some (turn, input, a) \<and> acked a} \<and>
     (\<forall>turn input a. cv_current c = Some (turn, input, a) \<longrightarrow> turn \<notin> ex_turn ` set (cv_log c))"

lemma quiet_acknowledgement: "quiet_event e \<Longrightarrow> acknowledgement e = []"
  by (cases e) simp_all

lemma run_acks: "conversation_run es c \<Longrightarrow> acks_ok es c"
proof (induction rule: conversation_run.induct)
  case run_start
  then show ?case by (simp add: acks_ok_def)
next
  case (run_step es c e c')
  from run_step.hyps(2) run_step.IH show ?case
    by (cases rule: conversation_step.cases) (auto simp: acks_ok_def acked_def quiet_acknowledgement)
qed

text \<open>A record that has its delivery keeps it.\<close>

lemma delivery_kept:
  assumes ok: "turn_ok s" and run: "turn_apply h s e = Ok s'" and r: "bt_get (rs_turns s) t = Some r" "tn_delivery r = Some d"
  shows "\<exists>r'. bt_get (rs_turns s') t = Some r' \<and> tn_delivery r' = Some d"
proof -
  note kind = turn_apply_Ok [OF run]
  have core: "\<exists>r'. bt_get (rs_turns s1) t = Some r' \<and> tn_delivery r' = Some d" if "turn_core s1 = turn_core s" for s1
    using that r by (simp add: turn_core_def)
  show ?thesis
  proof (cases e)
    case (TurnAdmitted thread turn user config provider fallbacks agent input)
    with kind have "apply_turn_admitted s thread turn user config provider fallbacks agent input = Ok s'" by simp
    from turn_admitted_OkD(6,11) [OF this] r show ?thesis by (auto simp: bt_get_insert)
  next
    case (OutputPrepared turn item d1 said us legacy)
    with kind have "apply_output_prepared s turn item d1 said us legacy = Ok s'" by simp
    then obtain p r1 n u d2 where p: "rs_pending s = Some p" "pt_turn p = turn" "pt_phase p = PhaseStreaming"
      and s': "s' = s\<lparr>rs_usage := u, rs_pending := Some (p\<lparr>pt_next_usage_attempt := n, pt_phase := PhasePrepared,
              pt_prepared := Some \<lparr>pd_item = item, pd_delivery = d1, pd_usage_records = us\<rparr>\<rparr>),
            rs_items := rs_items s @ [\<lparr>ci_id = item, ci_turn = turn, ci_role = RoleAssistant, ci_text = said\<rparr>],
            rs_turns := bt_insert turn (r1\<lparr>tn_assistant_item := Some item, tn_delivery := Some d1\<rparr>) (rs_turns s),
            rs_next_delivery := max (rs_next_delivery s) d2\<rparr>"
      by (rule output_prepared_OkD) blast
    have "t \<noteq> turn" using ok p r by (auto simp: phase_ok_def elim!: turn_ok_pendingD)
    then show ?thesis using r s' by (simp add: bt_get_insert)
  next
    case (TurnCompleted turn)
    with kind have "apply_turn_completed s turn = Ok s'" by simp
    then show ?thesis by (rule turn_completed_OkD) (use r in \<open>auto simp: bt_get_insert\<close>)
  next
    case (TurnCancelled turn)
    with kind have "apply_turn_cancelled s turn = Ok s'" by simp
    then show ?thesis by (rule turn_cancelled_OkD) (use r in \<open>auto simp: bt_get_insert\<close>)
  qed (use kind r core in \<open>auto dest: turn_core_quiet turn_core_cost elim!: item_started_OkD text_delta_OkD output_acknowledged_OkD
      turn_blocked_OkD retry_requested_OkD fallback_requested_OkD attempt_started_OkD attempt_finished_OkD\<close>)
qed

lemma acknowledged_record:
  assumes "try_fold (turn_apply h) runtime_state_default es = Ok s" and "(t, d) \<in> set (acknowledgements es)"
  shows "\<exists>r. bt_get (rs_turns s) t = Some r \<and> tn_delivery r = Some d"
  using assms
proof (induction es arbitrary: s rule: rev_induct)
  case (snoc e es)
  then obtain s1 where s1: "try_fold (turn_apply h) runtime_state_default es = Ok s1" "turn_apply h s1 e = Ok s"
    by (auto simp: result_ok)
  have ok: "turn_ok s1" using reachable_turn_ok [OF reachable_fold [OF turn_start s1(1)]] .
  show ?case
  proof (cases "(t, d) \<in> set (acknowledgements es)")
    case True
    then show ?thesis using snoc.IH [OF s1(1)] delivery_kept [OF ok s1(2)] by blast
  next
    case False
    with snoc.prems(2) have e: "e = OutputAcknowledged t d" by (cases e) auto
    with turn_apply_Ok [OF s1(2)] have "apply_output_acknowledged s1 t d = Ok s" by simp
    then show ?thesis
      by (rule output_acknowledged_OkD) (use ok in \<open>auto simp: phase_ok_def elim!: turn_ok_pendingD\<close>)
  qed
qed simp

section \<open>Usage attempts\<close>

definition attempt_numbers :: "usage_projection \<Rightarrow> turn_id \<Rightarrow> nat list" where
  "attempt_numbers u turn = map (unat \<circ> snd) (filter (\<lambda>(t, _). t = nonzero_get turn) (attempt_ids (pj_attempts u)))"

definition numbered :: "runtime_state \<Rightarrow> pending_turn \<Rightarrow> bool" where
  "numbered s p \<longleftrightarrow>
     (pt_open_usage_attempt p = None \<longrightarrow> 0 < pt_next_usage_attempt p
        \<and> attempt_numbers (rs_usage s) (pt_turn p) = [1..<unat (pt_next_usage_attempt p)]) \<and>
     (\<forall>ot. pt_open_usage_attempt p = Some ot \<and> pt_phase p \<noteq> PhasePrepared \<longrightarrow>
        0 < oa_attempt ot \<and> unat (pt_next_usage_attempt p) = Suc (unat (oa_attempt ot))
        \<and> attempt_numbers (rs_usage s) (pt_turn p) = [1..<unat (oa_attempt ot)])"

definition usage_ok :: "runtime_state \<Rightarrow> bool" where
  "usage_ok s \<longleftrightarrow> (length (pj_attempts (rs_usage s)) < 2 ^ 64 \<longrightarrow> projection_exact (rs_usage s)) \<and>
     (\<forall>x \<in> set (attempt_ids (pj_attempts (rs_usage s))). \<exists>t. bt_contains_key (rs_turns s) t \<and> fst x = nonzero_get t) \<and>
     (\<forall>p. rs_pending s = Some p \<longrightarrow> numbered s p)"

lemma then_step_eq_Ok: "then_step x f = (Ok (), u) \<longleftrightarrow> fst x = Ok () \<and> f (snd x) = (Ok (), u)"
  by (cases x; cases "fst x") (auto simp: then_step_def)

lemma map_prod_eq_pair: "map_prod id g y = (a, b) \<longleftrightarrow> fst y = a \<and> b = g (snd y)"
  by (cases y) auto

lemma record_cost_attempts:
  assumes "projection_record_cost u turn attempt outcome = (Ok (), u')"
  obtains i a where "find_position (is_attempt turn attempt) (pj_attempts u) = Some i"
    "attempt_record_cost (pj_attempts u ! i) outcome = Ok a" "pj_attempts u' = (pj_attempts u)[i := a]"
proof -
  from assms obtain i a where i: "find_position (is_attempt turn attempt) (pj_attempts u) = Some i"
    and a: "attempt_record_cost (pj_attempts u ! i) outcome = Ok a"
    by (auto simp: projection_record_cost_def split: option.splits result.splits)
  have "pj_attempts u' = (pj_attempts u)[i := a]"
    using assms unfolding projection_record_cost_scopes [OF i a] then_step_eq_Ok map_prod_eq_pair fst_map_prod snd_map_prod
    by (elim conjE) simp
  with i a that show ?thesis by blast
qed

lemma record_cost_ids:
  assumes "projection_record_cost u turn attempt outcome = (Ok (), u')"
  shows "attempt_ids (pj_attempts u') = attempt_ids (pj_attempts u)"
proof -
  from assms obtain i a where i: "find_position (is_attempt turn attempt) (pj_attempts u) = Some i"
    and a: "attempt_record_cost (pj_attempts u ! i) outcome = Ok a" and u': "pj_attempts u' = (pj_attempts u)[i := a]"
    by (rule record_cost_attempts)
  have "i < length (pj_attempts u)" using find_position_Some [OF i] by simp
  then have "attempt_ids (pj_attempts u') = (attempt_ids (pj_attempts u))[i := attempt_ids (pj_attempts u) ! i]"
    using attempt_record_cost_keeps(1,2) [OF a] by (simp add: u' attempt_ids_def map_update)
  then show ?thesis by simp
qed

lemma record_cost_exact:
  assumes "projection_record_cost u turn attempt outcome = (Ok (), u')" and "projection_exact u" and "length (pj_attempts u) < 2 ^ 64"
  shows "projection_exact u'"
proof -
  from assms(1) obtain i a where i: "find_position (is_attempt turn attempt) (pj_attempts u) = Some i"
    and a: "attempt_record_cost (pj_attempts u ! i) outcome = Ok a" and u': "pj_attempts u' = (pj_attempts u)[i := a]"
    by (rule record_cost_attempts)
  from projection_record_cost_exact [OF assms(2,3) i a] show ?thesis using assms(1) by (metis prod.inject)
qed

lemma attempt_numbers_recorded:
  assumes "recorded u as u'" and "\<forall>a \<in> set as. ua_turn a = nonzero_get turn"
  shows "attempt_numbers u' turn = attempt_numbers u turn @ map (unat \<circ> ua_attempt) as"
proof -
  have "filter (\<lambda>(t, _). t = nonzero_get turn) (map (\<lambda>a. (ua_turn a, ua_attempt a)) as) = map (\<lambda>a. (ua_turn a, ua_attempt a)) as"
    using assms(2) by (induction as) auto
  then show ?thesis using assms(1) by (simp add: attempt_numbers_def recorded_def attempt_ids_def comp_def)
qed

lemma recorded_ids:
  assumes "recorded u as u'" and "\<forall>a \<in> set as. ua_turn a = nonzero_get turn"
  shows "fst ` set (attempt_ids (pj_attempts u')) \<subseteq> insert (nonzero_get turn) (fst ` set (attempt_ids (pj_attempts u)))"
  using assms by (auto simp: recorded_def attempt_ids_def)

lemma recorded_exact:
  assumes "recorded u as u'" and "length (pj_attempts u) < 2 ^ 64 \<longrightarrow> projection_exact u"
  shows "length (pj_attempts u') < 2 ^ 64 \<longrightarrow> projection_exact u'"
  using assms by (auto simp: recorded_def)

lemma no_attempts:
  assumes "usage_ok s" and "bt_get (rs_turns s) turn = None"
  shows "attempt_numbers (rs_usage s) turn = []"
proof -
  have "fst x \<noteq> nonzero_get turn" if x: "x \<in> set (attempt_ids (pj_attempts (rs_usage s)))" for x
  proof -
    from assms(1) x obtain t where "bt_contains_key (rs_turns s) t" "fst x = nonzero_get t" by (auto simp: usage_ok_def)
    with assms(2) show ?thesis by (auto simp: bt_contains_key_def dest: nonzero_id.expand)
  qed
  then show ?thesis by (fastforce simp: attempt_numbers_def filter_empty_conv)
qed

text \<open>The pending Turn changes in other respects, or settles; records may be added.\<close>

lemma usage_ok_same:
  assumes ok: "usage_ok s" and usage: "attempt_ids (pj_attempts (rs_usage s')) = attempt_ids (pj_attempts (rs_usage s))"
    and exact: "rs_usage s' = rs_usage s \<or> (length (pj_attempts (rs_usage s)) < 2 ^ 64 \<longrightarrow> projection_exact (rs_usage s'))"
    and keys: "\<And>t. bt_contains_key (rs_turns s) t \<Longrightarrow> bt_contains_key (rs_turns s') t"
    and pend: "\<And>q. rs_pending s' = Some q \<Longrightarrow> \<exists>p. rs_pending s = Some p \<and> pt_turn q = pt_turn p
        \<and> pt_next_usage_attempt q = pt_next_usage_attempt p \<and> pt_open_usage_attempt q = pt_open_usage_attempt p
        \<and> (pt_phase p = PhasePrepared \<longrightarrow> pt_phase q = PhasePrepared)"
  shows "usage_ok s'"
proof -
  have numbers: "attempt_numbers (rs_usage s') = attempt_numbers (rs_usage s)"
    using usage by (auto simp: attempt_numbers_def)
  have len: "length (pj_attempts (rs_usage s')) = length (pj_attempts (rs_usage s))"
    using arg_cong [OF usage, of length] by (simp add: attempt_ids_def)
  have "numbered s' q" if q: "rs_pending s' = Some q" for q
  proof -
    from pend [OF q] obtain p where p: "rs_pending s = Some p" "pt_turn q = pt_turn p"
        "pt_next_usage_attempt q = pt_next_usage_attempt p" "pt_open_usage_attempt q = pt_open_usage_attempt p"
        "pt_phase p = PhasePrepared \<longrightarrow> pt_phase q = PhasePrepared" by blast
    with ok have "numbered s p" by (simp add: usage_ok_def)
    with p(2-5) show ?thesis unfolding numbered_def numbers by auto
  qed
  then show ?thesis using ok exact keys unfolding usage_ok_def usage len by fastforce
qed

lemma usage_ok_recorded:
  assumes ok: "usage_ok s" and rec: "recorded (rs_usage s) as (rs_usage s')" "\<forall>a \<in> set as. ua_turn a = nonzero_get turn"
    and keys: "\<And>t. bt_contains_key (rs_turns s) t \<Longrightarrow> bt_contains_key (rs_turns s') t" "bt_contains_key (rs_turns s') turn"
    and pend: "\<And>q. rs_pending s' = Some q \<Longrightarrow> numbered s' q"
  shows "usage_ok s'"
proof -
  have "\<exists>t. bt_contains_key (rs_turns s') t \<and> fst x = nonzero_get t"
    if "x \<in> set (attempt_ids (pj_attempts (rs_usage s')))" for x
  proof -
    from recorded_ids [OF rec] that have "fst x = nonzero_get turn \<or> fst x \<in> fst ` set (attempt_ids (pj_attempts (rs_usage s)))" by auto
    then show ?thesis using keys ok by (fastforce simp: usage_ok_def)
  qed
  then show ?thesis using recorded_exact [OF rec(1)] pend ok unfolding usage_ok_def by blast
qed

lemma usage_ok_apply:
  assumes turn_ok: "turn_ok s" and ok: "usage_ok s" and run: "turn_apply h s e = Ok s'"
  shows "usage_ok s'"
proof -
  note kind = turn_apply_Ok [OF run]
  have key: "bt_contains_key (rs_turns s) (pt_turn p)" if "rs_pending s = Some p" for p
    using turn_ok that by (auto simp: bt_contains_key_def elim!: turn_ok_pendingD)
  show ?thesis
  proof (cases e)
    case (TurnAdmitted thread turn user config provider fallbacks agent input)
    with kind have "apply_turn_admitted s thread turn user config provider fallbacks agent input = Ok s'" by simp
    note D = turn_admitted_OkD(6,11) [OF this]
    have "numbered s' (admitted_turn turn config provider agent input)"
      using no_attempts [OF ok D(1)] D(2) by (auto simp: numbered_def admitted_turn_def)
    then show ?thesis
      by (intro usage_ok_recorded [OF ok, where as = "[]" and turn = turn])
        (use D in \<open>auto simp: recorded_Nil bt_contains_key_def bt_get_insert\<close>)
  next
    case (OutputPrepared turn item d said us legacy)
    with kind have "apply_output_prepared s turn item d said us legacy = Ok s'" by simp
    then obtain p r n u as d1 where p: "rs_pending s = Some p" "pt_turn p = turn" "pt_phase p = PhaseStreaming"
      and rec: "recorded (rs_usage s) as u" "\<forall>a \<in> set as. ua_turn a = nonzero_get turn"
      and as: "map ua_attempt as = map (\<lambda>i. pt_next_usage_attempt p + of_nat i) [0..<length as]"
      and n: "unat n = unat (pt_next_usage_attempt p) + length as"
      and s': "s' = s\<lparr>rs_usage := u, rs_pending := Some (p\<lparr>pt_next_usage_attempt := n, pt_phase := PhasePrepared,
              pt_prepared := Some \<lparr>pd_item = item, pd_delivery = d, pd_usage_records = us\<rparr>\<rparr>),
            rs_items := rs_items s @ [\<lparr>ci_id = item, ci_turn = turn, ci_role = RoleAssistant, ci_text = said\<rparr>],
            rs_turns := bt_insert turn (r\<lparr>tn_assistant_item := Some item, tn_delivery := Some d\<rparr>) (rs_turns s),
            rs_next_delivery := max (rs_next_delivery s) d1\<rparr>"
      by (rule output_prepared_OkD) blast
    let ?n = "pt_next_usage_attempt p"
    have bound: "unat ?n + length as < 2 ^ 32" using n unsigned_less [of n, where 'a = nat] by simp
    have "map (unat \<circ> ua_attempt) as = map unat (map ua_attempt as)" by simp
    also have "\<dots> = map (\<lambda>i. unat ?n + i) [0..<length as]"
      using bound unfolding as by (auto simp: unat_word_ariths unat_of_nat take_bit_nat_eq_self)
    also have "\<dots> = [unat ?n..<unat ?n + length as]"
      by (simp add: add.commute [of "unat ?n"] map_add_upt)
    finally have nums: "map (unat \<circ> ua_attempt) as = [unat ?n..<unat n]" using n by simp
    have "numbered s p" using ok p by (simp add: usage_ok_def)
    then have "numbered s' (p\<lparr>pt_next_usage_attempt := n, pt_phase := PhasePrepared,
              pt_prepared := Some \<lparr>pd_item = item, pd_delivery = d, pd_usage_records = us\<rparr>\<rparr>)"
      using attempt_numbers_recorded [OF rec] p n nums upt_add_eq_append [of 1 "unat ?n" "length as"] unfolding numbered_def
      by (auto simp: s' word_less_nat_alt Suc_le_eq)
    then show ?thesis
      by (intro usage_ok_recorded [OF ok, where as = as and turn = turn])
        (use rec key [OF p(1)] p in \<open>auto simp: s' bt_contains_key_def bt_get_insert\<close>)
  next
    case (UsageAttemptStarted turn attempt started_at)
    with kind have "apply_attempt_started s turn attempt started_at = Ok s'" by simp
    then obtain p n where p: "rs_pending s = Some p" "pt_turn p = turn" "pt_open_usage_attempt p = None"
        "attempt = pt_next_usage_attempt p" "attempt \<noteq> 0" "checked_add attempt 1 = Some n"
      and s': "s' = s\<lparr>rs_pending := Some (p\<lparr>pt_next_usage_attempt := n,
         pt_open_usage_attempt := Some \<lparr>oa_attempt = attempt, oa_started_at = started_at\<rparr>\<rparr>)\<rparr>"
      by (rule attempt_started_OkD)
    have "numbered s p" using ok p by (simp add: usage_ok_def)
    then have "numbered s' (p\<lparr>pt_next_usage_attempt := n,
         pt_open_usage_attempt := Some \<lparr>oa_attempt = attempt, oa_started_at = started_at\<rparr>\<rparr>)"
      using p checked_add_SomeD [OF p(6)] by (simp add: numbered_def s')
    then show ?thesis
      by (intro usage_ok_recorded [OF ok, where as = "[]" and turn = turn]) (use key [OF p(1)] p in \<open>auto simp: s' recorded_Nil\<close>)
  next
    case (UsageAttemptFinished turn attempt completed_at outcome usage windows required)
    with kind have "apply_attempt_finished s turn attempt completed_at outcome usage windows required = Ok s'" by simp
    then obtain p ot c a u ws where p: "rs_pending s = Some p" "pt_turn p = turn" "pt_phase p = PhaseAdmitted"
        "pt_open_usage_attempt p = Some ot" "oa_attempt ot = attempt"
      and a: "context_attempt c turn attempt (Some (oa_started_at ot)) (Some completed_at) outcome usage ws = Ok a"
      and rec: "recorded (rs_usage s) [a] u"
      and s': "s' = s\<lparr>rs_pending := Some (p\<lparr>pt_open_usage_attempt := None\<rparr>), rs_usage := u,
        rs_pending_cost := if required then Some (turn, attempt) else rs_pending_cost s\<rparr>"
      by (rule attempt_finished_OkD) blast
    have mine: "\<forall>x \<in> set [a]. ua_turn x = nonzero_get turn" using context_attempt_OkD(1) [OF a] by simp
    have "numbered s p" using ok p by (simp add: usage_ok_def)
    then have "numbered s' (p\<lparr>pt_open_usage_attempt := None\<rparr>)"
      using attempt_numbers_recorded [OF rec mine] p context_attempt_OkD(2) [OF a] unfolding numbered_def
      by (auto simp: s' word_less_nat_alt Suc_le_eq)
    then show ?thesis
      by (intro usage_ok_recorded [OF ok _ mine]) (use rec key [OF p(1)] p in \<open>auto simp: s'\<close>)
  next
    case (UsageAttemptCostEvaluated turn attempt evaluation)
    with kind have "apply_cost_evaluated s turn attempt evaluation = Ok s'" by simp
    then obtain outcome u where u: "projection_record_cost (rs_usage s) (nonzero_get turn) attempt outcome = (Ok (), u)"
      and s': "s' = s\<lparr>rs_usage := u, rs_pending_cost := None\<rparr>"
      by (rule cost_evaluated_OkD)
    show ?thesis
      by (rule usage_ok_same [OF ok]) (use record_cost_ids [OF u] record_cost_exact [OF u] ok in \<open>auto simp: s' usage_ok_def\<close>)
  qed (use kind in \<open>auto simp: apply_checkpoint_def apply_selection_staged_def apply_thread_created_def
      apply_config_frozen_def apply_provider_frozen_def result_ok bt_contains_key_def bt_get_insert readmitted_def
      blocked_by_provider_def intro!: usage_ok_same [OF ok] elim!: item_started_OkD text_delta_OkD output_acknowledged_OkD turn_completed_OkD turn_blocked_OkD turn_cancelled_OkD
        retry_requested_OkD fallback_requested_OkD\<close>)
qed

lemma reachable_usage_ok: "turn_reachable h s \<Longrightarrow> usage_ok s"
proof (induction rule: turn_reachable.induct)
  case turn_start
  then show ?case using projection_exact_default
    by (simp add: usage_ok_def runtime_state_default_def attempt_ids_def usage_projection_default_def)
next
  case (turn_step s e s')
  then show ?case using usage_ok_apply reachable_turn_ok by blast
qed

end
