(* ===== verification/Turn_Demo.thy ===== *)
theory Turn_Demo
  imports Turn_Runs
begin

text \<open>
  One Turn from admission to its acknowledged answer, evaluated event by event: the concrete run of the
  witnesses.
\<close>

definition turn_demo_config :: config_epoch where
  "turn_demo_config =
     \<lparr>cf_id = NonzeroId 1, cf_fingerprint = 7,
      cf_resolved = \<lparr>rc_provider_profile = \<lparr>so_value = ''p'', so_source = BuiltIn\<rparr>,
        rc_provider_model = \<lparr>so_value = ''m'', so_source = BuiltIn\<rparr>,
        rc_max_output_bytes = \<lparr>so_value = 64, so_source = BuiltIn\<rparr>, rc_max_output_tokens = None,
        rc_reasoning_effort = None, rc_service_tier = None,
        rc_context_mode = \<lparr>so_value = ModeCanonical, so_source = BuiltIn\<rparr>\<rparr>,
      cf_usage_windows = [], cf_price_schedules = \<lparr>pb_schedules = []\<rparr>\<rparr>"

definition turn_demo_provider :: provider_epoch where
  "turn_demo_provider =
     \<lparr>pe_id = NonzeroId 1, pe_profile = ''p'', pe_model = ''m'', pe_snapshot = None, pe_dialect = None, pe_fingerprint = 9\<rparr>"

definition turn_demo_admission :: "runtime_event list" where
  "turn_demo_admission =
     [ThreadCreated (NonzeroId 1), ConfigFrozen turn_demo_config, ProviderFrozen turn_demo_provider,
      TurnAdmitted (NonzeroId 1) (NonzeroId 1) (NonzeroId 1) (NonzeroId 1) (NonzeroId 1) [] None ''q'']"

definition turn_demo_usage :: usage_record where
  "turn_demo_usage = usage_record_estimated 1 1"

definition turn_demo_answer :: "runtime_event list" where
  "turn_demo_answer =
     [UsageAttemptStarted (NonzeroId 1) 1 10,
      UsageAttemptFinished (NonzeroId 1) 1 20 Succeeded (Some turn_demo_usage) [] True,
      UsageAttemptCostEvaluated (NonzeroId 1) 1 (CostUnknown NoMatchingSchedule),
      AssistantItemStarted (NonzeroId 1) (NonzeroId 2),
      AssistantTextDelta (NonzeroId 1) (NonzeroId 2) ''a'',
      AssistantTextDelta (NonzeroId 1) (NonzeroId 2) ''b'',
      OutputPrepared (NonzeroId 1) (NonzeroId 2) (NonzeroId 1) ''ab'' [turn_demo_usage] False]"

definition turn_demo_delivery :: "runtime_event list" where
  "turn_demo_delivery = [OutputAcknowledged (NonzeroId 1) (NonzeroId 1), TurnCompleted (NonzeroId 1)]"

definition turn_demo_hash :: hasher where
  "turn_demo_hash bytes = []"

section \<open>Evaluation\<close>

lemma demo_words:
  "checked_add (1 :: u64) 1 = Some 2" "checked_add (2 :: u64) 1 = Some 3" "checked_add (1 :: u32) 1 = Some 2"
  "max (1 :: u64) 2 = 2" "max (2 :: u64) 3 = 3"
  by (simp_all add: checked_add_code)

lemma demo_trims: "trim ''q'' = ''q''" "trim ''ab'' = ''ab''"
  by code_simp+

lemmas demo_eval = demo_words demo_trims turn_apply_def apply_thread_created_def apply_config_frozen_def apply_provider_frozen_def
  apply_turn_admitted_def observe_id_def bt_contains_key_def bt_get_def take_selection_def validate_input_def
  canonical_item_new_def item_exists_def MAX_FALLBACK_CANDIDATES_def MAX_INPUT_BYTES_def MAX_ITEM_TEXT_BYTES_def
  turn_lookup_def turn_config_def pending_for_def put_pending_def

text \<open>The states after the admission, the request, its answer, and the delivery.\<close>

definition turn_demo_s1 :: runtime_state where
  "turn_demo_s1 = runtime_state_default\<lparr>rs_thread := Some (NonzeroId 1), rs_configs := [(NonzeroId 1, turn_demo_config)],
     rs_providers := [(NonzeroId 1, turn_demo_provider)],
     rs_turns := [(NonzeroId 1, admitted_record (NonzeroId 1) (NonzeroId 1) (NonzeroId 1) [] None)],
     rs_items := [\<lparr>ci_id = NonzeroId 1, ci_turn = NonzeroId 1, ci_role = RoleUser, ci_text = ''q''\<rparr>],
     rs_pending := Some (admitted_turn (NonzeroId 1) (NonzeroId 1) (NonzeroId 1) None ''q''),
     rs_next_thread := 2, rs_next_turn := 2, rs_next_item := 2, rs_next_config := 2, rs_next_provider := 2\<rparr>"

lemma demo_admission: "try_fold (turn_apply h) runtime_state_default turn_demo_admission = Ok turn_demo_s1"
  by (simp add: turn_demo_admission_def turn_demo_s1_def demo_eval runtime_state_default_def turn_demo_config_def turn_demo_provider_def
      admitted_record_def admitted_turn_def)

definition turn_demo_attempt :: usage_attempt where
  "turn_demo_attempt =
     \<lparr>ua_attempt = 1, ua_thread = 1, ua_turn = 1, ua_agent = None, ua_provider_profile = ''p'', ua_requested_model = ''m'',
      ua_observed_model = None, ua_dialect = None, ua_requested_context_mode = Some (mode_as_str ModeCanonical),
      ua_requested_reasoning_effort = None, ua_observed_reasoning_effort = None, ua_requested_service_tier = None,
      ua_observed_service_tier = None, ua_started_at = Some 10, ua_completed_at = Some 20, ua_outcome = Succeeded,
      ua_usage = Some turn_demo_usage, ua_cost_provenance = ProvenanceUnknown, ua_cost_estimate = None,
      ua_cost_unknown_reason = None, ua_named_windows = []\<rparr>"

definition turn_demo_recorded :: usage_projection where
  "turn_demo_recorded = usage_projection_default
     \<lparr>pj_total := rollup_observe turn_demo_attempt usage_rollup_default, pj_threads := observed turn_demo_attempt 1 [],
      pj_turns := observed turn_demo_attempt 1 [], pj_instants := observed turn_demo_attempt 10 [],
      pj_attempts := [turn_demo_attempt]\<rparr>"

lemma demo_recorded: "projection_record usage_projection_default turn_demo_attempt = Ok turn_demo_recorded"
  by (simp add: projection_record_def turn_demo_recorded_def usage_projection_default_def turn_demo_attempt_def)

definition turn_demo_costed :: usage_projection where
  "turn_demo_costed = snd (projection_record_cost turn_demo_recorded 1 1 (Unknown NoMatchingSchedule))"

lemma demo_costed: "projection_record_cost turn_demo_recorded 1 1 (Unknown NoMatchingSchedule) = (Ok (), turn_demo_costed)"
proof -
  have exact: "projection_exact turn_demo_recorded"
    by (rule projection_record_exact(1) [OF projection_exact_default _ _ demo_recorded]) (simp_all add: turn_demo_attempt_def)
  have attempts: "pj_attempts turn_demo_recorded = [turn_demo_attempt]" by (simp add: turn_demo_recorded_def)
  have i: "find_position (is_attempt 1 1) (pj_attempts turn_demo_recorded) = Some 0"
    by (simp add: attempts is_attempt_def turn_demo_attempt_def)
  obtain a where a: "attempt_record_cost (pj_attempts turn_demo_recorded ! 0) (Unknown NoMatchingSchedule) = Ok a"
    by (simp add: attempts attempt_record_cost_def turn_demo_attempt_def)
  from projection_record_cost_exact [OF exact _ i a] attempts
  obtain u where "projection_record_cost turn_demo_recorded 1 1 (Unknown NoMatchingSchedule) = (Ok (), u)" by auto
  then show ?thesis by (simp add: turn_demo_costed_def)
qed

lemma demo_is_projection:
  "projection_attempt turn_demo_recorded 1 1 = Some turn_demo_attempt"
  by (simp add: projection_attempt_def turn_demo_recorded_def is_attempt_def turn_demo_attempt_def)

abbreviation demo_p1 :: pending_turn where
  "demo_p1 \<equiv> (admitted_turn (NonzeroId 1) (NonzeroId 1) (NonzeroId 1) None ''q'')\<lparr>pt_next_usage_attempt := 2\<rparr>"

definition turn_demo_s2 :: runtime_state where
  "turn_demo_s2 = turn_demo_s1\<lparr>rs_pending := Some (demo_p1\<lparr>pt_open_usage_attempt := Some \<lparr>oa_attempt = 1, oa_started_at = 10\<rparr>\<rparr>)\<rparr>"

lemma demo_s2: "turn_apply h turn_demo_s1 (UsageAttemptStarted (NonzeroId 1) 1 10) = Ok turn_demo_s2"
  by (simp add: turn_demo_s1_def turn_demo_s2_def demo_eval apply_attempt_started_def admitted_turn_def runtime_state_default_def)

definition turn_demo_s3 :: runtime_state where
  "turn_demo_s3 = turn_demo_s1\<lparr>rs_pending := Some demo_p1, rs_usage := turn_demo_recorded, rs_pending_cost := Some (NonzeroId 1, 1)\<rparr>"

lemma demo_context:
  "turn_usage_context turn_demo_s2 (NonzeroId 1) = Ok \<lparr>uc_thread = NonzeroId 1, uc_agent = None, uc_profile = ''p'', uc_model = ''m'',
     uc_dialect = None, uc_context_mode = ModeCanonical, uc_reasoning_effort = None, uc_service_tier = None\<rparr>"
  "turn_usage_context turn_demo_s3 (NonzeroId 1) = Ok \<lparr>uc_thread = NonzeroId 1, uc_agent = None, uc_profile = ''p'', uc_model = ''m'',
     uc_dialect = None, uc_context_mode = ModeCanonical, uc_reasoning_effort = None, uc_service_tier = None\<rparr>"
  by (simp_all add: turn_usage_context_def turn_demo_s2_def turn_demo_s3_def turn_demo_s1_def demo_eval admitted_turn_def
      admitted_record_def turn_demo_config_def turn_demo_provider_def)

lemma demo_attempt:
  "context_attempt \<lparr>uc_thread = NonzeroId 1, uc_agent = None, uc_profile = ''p'', uc_model = ''m'',
     uc_dialect = None, uc_context_mode = ModeCanonical, uc_reasoning_effort = None, uc_service_tier = None\<rparr> (NonzeroId 1) 1
     (Some 10) (Some 20) Succeeded (Some turn_demo_usage) [] = Ok turn_demo_attempt"
  by (simp add: context_attempt_def usage_attempt_new_def with_requested_policy_def turn_demo_attempt_def turn_demo_usage_def
      usage_record_estimated_def usage_record_default_def Let_def)

lemma demo_s3: "turn_apply h turn_demo_s2 (UsageAttemptFinished (NonzeroId 1) 1 20 Succeeded (Some turn_demo_usage) [] True) = Ok turn_demo_s3"
proof -
  have p: "rs_pending turn_demo_s2 = Some (demo_p1\<lparr>pt_open_usage_attempt := Some \<lparr>oa_attempt = 1, oa_started_at = 10\<rparr>\<rparr>)"
    "rs_usage turn_demo_s2 = usage_projection_default" "rs_configs turn_demo_s2 = [(NonzeroId 1, turn_demo_config)]"
    "rs_pending_cost turn_demo_s2 = None"
    by (simp_all add: turn_demo_s2_def turn_demo_s1_def runtime_state_default_def)
  show ?thesis
    by (simp add: turn_apply_def p apply_attempt_finished_def open_attempt_for_def admitted_turn_def turn_config_def bt_get_def
        demo_context demo_attempt record_attempt_def put_pending_def demo_recorded)
      (simp add: turn_demo_s3_def turn_demo_s2_def admitted_turn_def)
qed

definition turn_demo_s4 :: runtime_state where
  "turn_demo_s4 = turn_demo_s1\<lparr>rs_pending := Some demo_p1, rs_usage := turn_demo_costed\<rparr>"

lemma demo_s4: "turn_apply h turn_demo_s3 (UsageAttemptCostEvaluated (NonzeroId 1) 1 (CostUnknown NoMatchingSchedule)) = Ok turn_demo_s4"
proof -
  have p: "rs_pending turn_demo_s3 = Some demo_p1" "rs_usage turn_demo_s3 = turn_demo_recorded"
    "rs_configs turn_demo_s3 = [(NonzeroId 1, turn_demo_config)]" "rs_pending_cost turn_demo_s3 = Some (NonzeroId 1, 1)"
    by (simp_all add: turn_demo_s3_def turn_demo_s1_def)
  have e: "expected_cost c turn_demo_config turn_demo_attempt = Ok (Unknown NoMatchingSchedule)" for c
    by (simp add: expected_cost_def turn_demo_attempt_def turn_demo_config_def estimate_attempt_def)
  show ?thesis
    by (simp add: turn_apply_def p apply_cost_evaluated_def demo_context admitted_turn_def bt_get_def demo_is_projection e demo_costed)
      (simp add: turn_demo_s4_def turn_demo_s3_def admitted_turn_def turn_demo_s1_def runtime_state_default_def)
qed

definition turn_demo_s5 :: runtime_state where
  "turn_demo_s5 = turn_demo_s4\<lparr>rs_pending := Some (demo_p1\<lparr>pt_phase := PhasePrepared, pt_assistant_item := Some (NonzeroId 2),
       pt_streamed_text := ''ab'',
       pt_prepared := Some \<lparr>pd_item = NonzeroId 2, pd_delivery = NonzeroId 1, pd_usage_records = [turn_demo_usage]\<rparr>\<rparr>),
     rs_items := rs_items turn_demo_s1 @ [\<lparr>ci_id = NonzeroId 2, ci_turn = NonzeroId 1, ci_role = RoleAssistant, ci_text = ''ab''\<rparr>],
     rs_turns := [(NonzeroId 1, (admitted_record (NonzeroId 1) (NonzeroId 1) (NonzeroId 1) [] None)
        \<lparr>tn_assistant_item := Some (NonzeroId 2), tn_delivery := Some (NonzeroId 1)\<rparr>)],
     rs_next_item := 3, rs_next_delivery := 2\<rparr>"

lemma demo_s5:
  "try_fold (turn_apply h) turn_demo_s4
     [AssistantItemStarted (NonzeroId 1) (NonzeroId 2), AssistantTextDelta (NonzeroId 1) (NonzeroId 2) ''a'',
      AssistantTextDelta (NonzeroId 1) (NonzeroId 2) ''b'',
      OutputPrepared (NonzeroId 1) (NonzeroId 2) (NonzeroId 1) ''ab'' [turn_demo_usage] False] = Ok turn_demo_s5"
  by (simp add: turn_demo_s5_def turn_demo_s4_def turn_demo_s1_def runtime_state_default_def demo_eval apply_item_started_def
      apply_text_delta_def apply_output_prepared_def admitted_turn_def admitted_record_def usize_add_def turn_demo_config_def
      MAX_USAGE_RECORDS_PER_TURN_def)

definition turn_demo_s6 :: runtime_state where
  "turn_demo_s6 = turn_demo_s5\<lparr>rs_pending := None, rs_acknowledged := {|NonzeroId 1|},
     rs_turns := [(NonzeroId 1, (admitted_record (NonzeroId 1) (NonzeroId 1) (NonzeroId 1) [] None)
        \<lparr>tn_assistant_item := Some (NonzeroId 2), tn_delivery := Some (NonzeroId 1), tn_completed := True\<rparr>)]\<rparr>"

lemma demo_s6: "try_fold (turn_apply h) turn_demo_s5 turn_demo_delivery = Ok turn_demo_s6"
  by (simp add: turn_demo_s6_def turn_demo_s5_def turn_demo_s4_def turn_demo_s1_def runtime_state_default_def demo_eval
      apply_output_acknowledged_def apply_turn_completed_def admitted_turn_def admitted_record_def turn_demo_delivery_def)

lemma demo_answered: "try_fold (turn_apply h) runtime_state_default (turn_demo_admission @ turn_demo_answer) = Ok turn_demo_s5"
proof -
  have parts: "turn_demo_answer = [UsageAttemptStarted (NonzeroId 1) 1 10,
        UsageAttemptFinished (NonzeroId 1) 1 20 Succeeded (Some turn_demo_usage) [] True,
        UsageAttemptCostEvaluated (NonzeroId 1) 1 (CostUnknown NoMatchingSchedule)] @
      [AssistantItemStarted (NonzeroId 1) (NonzeroId 2), AssistantTextDelta (NonzeroId 1) (NonzeroId 2) ''a'',
        AssistantTextDelta (NonzeroId 1) (NonzeroId 2) ''b'',
        OutputPrepared (NonzeroId 1) (NonzeroId 2) (NonzeroId 1) ''ab'' [turn_demo_usage] False]"
    by (simp add: turn_demo_answer_def)
  show ?thesis
    by (simp only: parts try_fold_append demo_admission andthen.simps demo_s5 try_fold.simps(2) [of _ turn_demo_s1] demo_s2 demo_s3 demo_s4
        try_fold.simps(2) [of _ turn_demo_s2] try_fold.simps(2) [of _ turn_demo_s3] try_fold.simps(1))
qed

end
