(* ===== verification/Turn_Claims.thy ===== *)
theory Turn_Claims
  imports Turn_Demo
begin

text \<open>The properties of the Turn states, each with its witness on the demonstration run.\<close>

lemma turn_demo_reachable: "turn_reachable h turn_demo_s1" "turn_reachable h turn_demo_s5" "turn_reachable h turn_demo_s6"
  using reachable_fold [OF turn_start demo_admission] reachable_fold [OF turn_start demo_answered]
    reachable_fold [OF _ demo_s6] by blast+

section \<open>States\<close>

text \<open>C17 (invariant).  In every state that accepted events reach, the pending Turn is the
  only open one: its record is neither completed nor cancelled, its phase agrees with what is prepared,
  acknowledged and blocked (so that no \<open>expect\<close> of \<open>status\<close> fails), and it runs on the epochs frozen at
  its admission or on those of one of its frozen fallbacks.  Every other Turn is either completed, with an
  acknowledged delivery and an Assistant Item in the history, or cancelled and has neither.\<close>

theorem one_open_turn:
  assumes "turn_reachable sha256 s"
  shows "(\<forall>turn r. bt_get (rs_turns s) turn = Some r \<longrightarrow>
      is_pending s turn \<and> \<not> tn_completed r \<and> \<not> tn_cancelled r \<or> settled s turn r)
    \<and> (\<forall>p. rs_pending s = Some p \<longrightarrow> (\<exists>r. bt_get (rs_turns s) (pt_turn p) = Some r \<and> epochs_ok p r)
      \<and> (pt_phase p = PhasePrepared \<longrightarrow> pt_prepared p \<noteq> None)
      \<and> (pt_phase p = PhaseBlocked \<longrightarrow> pt_blocked_reason p \<noteq> None \<and> pt_block_origin p \<noteq> None)
      \<and> (pt_acknowledged p \<longrightarrow> pt_phase p = PhasePrepared))"
proof (rule conjI)
  have ok: "turn_ok s" using assms by (rule reachable_turn_ok)
  show "\<forall>turn r. bt_get (rs_turns s) turn = Some r \<longrightarrow>
      is_pending s turn \<and> \<not> tn_completed r \<and> \<not> tn_cancelled r \<or> settled s turn r"
    using open_or_settled [OF ok] by blast
  show "\<forall>p. rs_pending s = Some p \<longrightarrow> (\<exists>r. bt_get (rs_turns s) (pt_turn p) = Some r \<and> epochs_ok p r)
      \<and> (pt_phase p = PhasePrepared \<longrightarrow> pt_prepared p \<noteq> None)
      \<and> (pt_phase p = PhaseBlocked \<longrightarrow> pt_blocked_reason p \<noteq> None \<and> pt_block_origin p \<noteq> None)
      \<and> (pt_acknowledged p \<longrightarrow> pt_phase p = PhasePrepared)"
    using ok by (auto simp: phase_ok_def silent_def elim!: turn_ok_pendingD split: pending_phase.splits)
qed

theorem one_open_turn_witness:
  "(\<exists>p. rs_pending turn_demo_s5 = Some p \<and> pt_phase p = PhasePrepared \<and> pt_prepared p \<noteq> None)
   \<and> (\<exists>r. bt_get (rs_turns turn_demo_s6) (NonzeroId 1) = Some r \<and> settled turn_demo_s6 (NonzeroId 1) r)"
proof (intro conjI)
  show "\<exists>p. rs_pending turn_demo_s5 = Some p \<and> pt_phase p = PhasePrepared \<and> pt_prepared p \<noteq> None"
    using conjunct2 [OF one_open_turn [OF turn_demo_reachable(2)]] by (simp add: turn_demo_s5_def)
  obtain r where r: "bt_get (rs_turns turn_demo_s6) (NonzeroId 1) = Some r" "tn_completed r"
    by (simp add: turn_demo_s6_def bt_get_def)
  moreover from conjunct1 [OF one_open_turn [OF turn_demo_reachable(3)]] r have "settled turn_demo_s6 (NonzeroId 1) r" by blast
  ultimately show "\<exists>r. bt_get (rs_turns turn_demo_s6) (NonzeroId 1) = Some r \<and> settled turn_demo_s6 (NonzeroId 1) r" by blast
qed

text \<open>C14 (refinement).  Seen as a conversation, every accepted event is a step of
  the abstract machine: a question is asked only when none is open, its answer is spoken, offered under a
  delivery that was never delivered before, delivered and finished in this order; only a question that
  a Provider left halted is given up or asked again, and then nothing of an answer is kept.  All other
  events leave the conversation as it is.\<close>

theorem events_advance_the_conversation:
  assumes "turn_reachable sha256 s" and "turn_apply sha256 s e = Ok s'"
  shows "conversation_step (conversation_of s) e (conversation_of s')"
  using turn_refines_conversation [OF assms] .

theorem events_advance_the_conversation_witness:
  "conversation_step (conversation_of turn_demo_s1) (UsageAttemptStarted (NonzeroId 1) 1 10) (conversation_of turn_demo_s2)"
  using events_advance_the_conversation [OF turn_demo_reachable(1) demo_s2 [of turn_demo_hash]] .



section \<open>Runs\<close>

text \<open>C16 (functional).  Whatever events were accepted, the answer recorded for a Turn is
  the concatenation of the text deltas streamed to that Turn, in their order: no delta of another Turn, of an
  abandoned request or of a cancelled Turn gets into it, and none is lost.\<close>

theorem answers_are_what_was_streamed:
  assumes run: "try_fold (turn_apply sha256) runtime_state_default es = Ok s"
    and item: "item \<in> set (rs_items s)" "ci_role item = RoleAssistant"
  shows "ci_text item = concat (map (said_to (ci_turn item)) es)"
proof -
  have reach: "turn_reachable sha256 s" using reachable_fold [OF turn_start run] .
  have ok: "turn_ok s" using reach by (rule reachable_turn_ok)
  have said: "said_ok es (conversation_of s)" using run_said [OF run_refines [OF run]] .
  have "item \<in> set (concat (map exchange_items (exchanges (rs_items s))))"
    using reachable_dialogue [OF reach] item(1) by (simp only: dialogue_def)
  then obtain x where x: "x \<in> set (exchanges (rs_items s))" "item \<in> set (exchange_items x)" by auto
  then have out: "ex_turn x = ci_turn item" "output_text x = ci_text item" "ex_output x \<noteq> None"
    using item(2) by (cases "ex_output x"; auto simp: exchange_items_def output_text_def)+
  show ?thesis
  proof (cases "x \<in> set (cv_log (conversation_of s))")
    case True
    with said have "said (ex_turn x) es = output_text x" by (simp add: said_ok_def)
    then show ?thesis by (simp add: out said_def)
  next
    case False
    then obtain p where p: "rs_pending s = Some p" using x(1) by (auto simp: conversation_of_def split: option.splits)
    from ok p obtain r before where ph: "phase_ok p r" and log: "cv_log (conversation_of s) = exchanges before"
      and all: "exchanges (rs_items s) = exchanges before @ [\<lparr>ex_turn = pt_turn p, ex_user_item = tn_user_item r, ex_input = pt_input p,
       ex_output = (if pt_phase p = PhasePrepared then Some (the (pt_assistant_item p), pt_streamed_text p) else None)\<rparr>]"
      by (rule conversation_pending)
    with False x(1) out have prep: "pt_phase p = PhasePrepared" "pt_turn p = ci_turn item" "pt_streamed_text p = ci_text item"
      by (auto simp: output_text_def split: if_splits)
    have "cv_current (conversation_of s) = Some (pt_turn p, pt_input p, turn_activity p)" using p by (simp add: conversation_of_def)
    then have "said (pt_turn p) es = activity_text (turn_activity p)" using said by (simp add: said_ok_def)
    then show ?thesis using prep by (simp add: turn_activity_def said_def)
  qed
qed

theorem answers_are_what_was_streamed_witness:
  "''ab'' = concat (map (said_to (NonzeroId 1)) (turn_demo_admission @ turn_demo_answer))"
  using answers_are_what_was_streamed [OF demo_answered [of turn_demo_hash],
      where item = "\<lparr>ci_id = NonzeroId 2, ci_turn = NonzeroId 1, ci_role = RoleAssistant, ci_text = ''ab''\<rparr>"]
  by (simp add: turn_demo_s5_def)

text \<open>C15 (safety).  Over any run of accepted events, no Turn and no delivery is acknowledged
  twice, the acknowledged deliveries of the state are those of the run, and a completed Turn was acknowledged
  with the delivery that its record names.\<close>

theorem deliveries_settle_once:
  assumes run: "try_fold (turn_apply sha256) runtime_state_default es = Ok s"
  shows "distinct (map fst (acknowledgements es)) \<and> distinct (map snd (acknowledgements es))
    \<and> snd ` set (acknowledgements es) = fset (rs_acknowledged s)
    \<and> (\<forall>turn r. bt_get (rs_turns s) turn = Some r \<longrightarrow> tn_completed r \<longrightarrow>
       (\<exists>d. tn_delivery r = Some d \<and> (turn, d) \<in> set (acknowledgements es)))"
proof (intro conjI)
  have acks: "acks_ok es (conversation_of s)" using run_acks [OF run_refines [OF run]] .
  then show "distinct (map fst (acknowledgements es))" "distinct (map snd (acknowledgements es))" by (simp_all add: acks_ok_def)
  have "cv_delivered (conversation_of s) = rs_acknowledged s" by (simp add: conversation_of_def split: option.split)
  with acks show all: "snd ` set (acknowledgements es) = fset (rs_acknowledged s)" by (simp add: acks_ok_def)
  have ok: "turn_ok s" using reachable_turn_ok [OF reachable_fold [OF turn_start run]] .
  show "\<forall>turn r. bt_get (rs_turns s) turn = Some r \<longrightarrow> tn_completed r \<longrightarrow>
       (\<exists>d. tn_delivery r = Some d \<and> (turn, d) \<in> set (acknowledgements es))"
  proof (intro allI impI)
    fix turn r
    assume r: "bt_get (rs_turns s) turn = Some r" and finished: "tn_completed r"
    have "settled s turn r" using open_or_settled [OF ok r] finished by simp
    with finished obtain d where d: "tn_delivery r = Some d" "d |\<in>| rs_acknowledged s" by (auto simp: settled_def)
    then have "d \<in> snd ` set (acknowledgements es)" by (simp only: all)
    then obtain turn' where ack: "(turn', d) \<in> set (acknowledgements es)" by auto
    then obtain r' where r': "bt_get (rs_turns s) turn' = Some r'" "tn_delivery r' = Some d" using acknowledged_record [OF run] by blast
    have "turn' = turn" using ok unique_deliveriesD [OF _ r' r d(1)] by (simp add: turn_ok_def deliveries_ok_def)
    with d ack show "\<exists>d. tn_delivery r = Some d \<and> (turn, d) \<in> set (acknowledgements es)" by blast
  qed
qed

lemma demo_delivered:
  "try_fold (turn_apply h) runtime_state_default ((turn_demo_admission @ turn_demo_answer) @ turn_demo_delivery) = Ok turn_demo_s6"
  by (simp only: try_fold_append [of _ _ "turn_demo_admission @ turn_demo_answer"] demo_answered andthen.simps demo_s6)

theorem deliveries_settle_once_witness:
  "snd ` set (acknowledgements ((turn_demo_admission @ turn_demo_answer) @ turn_demo_delivery)) = {NonzeroId 1}"
  using conjunct1 [OF conjunct2 [OF conjunct2 [OF deliveries_settle_once [OF demo_delivered [of turn_demo_hash]]]]] by (simp add: turn_demo_s6_def)

text \<open>C19 (invariant).  The usage attempts recorded for the pending Turn, whenever none is
  open, are exactly those numbered from one up to the next number, in that order, across retries,
  fallbacks and restarts of a request; and while there are fewer than \<open>2 ^ 64\<close> attempts, every cached rollup of the
  state is exactly the sum of the attempts it covers.\<close>

theorem attempts_are_numbered:
  assumes "turn_reachable sha256 s"
  shows "(\<forall>p. rs_pending s = Some p \<longrightarrow> pt_open_usage_attempt p = None \<longrightarrow>
      attempt_numbers (rs_usage s) (pt_turn p) = [1..<unat (pt_next_usage_attempt p)])
    \<and> (length (pj_attempts (rs_usage s)) < 2 ^ 64 \<longrightarrow> projection_exact (rs_usage s))"
  using reachable_usage_ok [OF assms] by (auto simp: usage_ok_def numbered_def)

theorem attempts_are_numbered_witness:
  "attempt_numbers (rs_usage turn_demo_s5) (NonzeroId 1) = [1]"
  using conjunct1 [OF attempts_are_numbered [OF turn_demo_reachable(2) [of turn_demo_hash]]]
  by (simp add: turn_demo_s5_def admitted_turn_def upt_rec)

end
