(* ===== verification/Turn_Codec.thy ===== *)
theory Turn_Codec
  imports Turn_Apply Team_Codec
begin

text \<open>
  The encoding of Turn events in the ledger (\<open>greentyper-core/src/runtime.rs\<close>): one encoding and one
  decoding per value type, and the payload of every event kind in every schema.

  An encoding function of the code appends to an \<open>Encoder\<close>; here it returns the bytes it appends, and
  \<open>put_seq\<close> is a sequence of such calls that stops at the first error.  A decoding function of the code
  advances a \<open>Decoder\<close>; a \<open>reader\<close> returns the advanced decoder.  Libraries are parameters: \<open>url\<close> for
  origins, \<open>jiff\<close> for time zones and for the range of instants.
\<close>

section \<open>Encoder and Decoder\<close>

record 'z turn_libs =
  tl_url :: url_lib
  tl_tz :: "'z tz_rules"
  tl_timestamp :: "int \<Rightarrow> bool"

text \<open>\<open>UsageTimestamp::from_unix_millis\<close>\<close>

definition timestamp_from_unix_millis :: "'z turn_libs \<Rightarrow> int \<Rightarrow> usage_timestamp usage_result" where
  "timestamp_from_unix_millis libs v = (if tl_timestamp libs v then Ok v else Err TimestampRange)"

definition RUNTIME_EVENT_SCHEMA :: u16 where
  "RUNTIME_EVENT_SCHEMA = schema_get (schema_current schema_kind.RuntimeEvent)"

type_synonym encoded = "u8 list turn_result"

definition put_seq :: "encoded list \<Rightarrow> encoded" where
  "put_seq parts = map_ok concat (try_map (\<lambda>part. part) parts)"

definition put_u8 :: "u8 \<Rightarrow> encoded" where "put_u8 v = Ok [v]"
definition put_u32 :: "u32 \<Rightarrow> encoded" where "put_u32 v = Ok (u32_to_le v)"
definition put_u64 :: "u64 \<Rightarrow> encoded" where "put_u64 v = Ok (u64_to_le v)"
definition put_i64 :: "int \<Rightarrow> encoded" where "put_i64 v = Ok (i64_to_le v)"
definition put_raw :: "u8 list \<Rightarrow> encoded" where "put_raw bytes = Ok bytes"

text \<open>\<open>payload.u32(u32::try_from(n).map_err(|_| RuntimeError::IntegerOverflow)?)\<close>\<close>

definition put_count :: "usize \<Rightarrow> encoded" where
  "put_count n = map_ok u32_to_le (ok_or (u32_try_from n) RtIntegerOverflow)"

definition put_string :: "string \<Rightarrow> encoded" where
  "put_string s = put_seq [put_count (length s), put_raw (map byte_of_char s)]"

type_synonym 'a reader = "decoder \<Rightarrow> ('a \<times> decoder) turn_result"

definition rd_return :: "'a \<Rightarrow> 'a reader" where "rd_return v = (\<lambda>d. Ok (v, d))"

definition rd_bind :: "'a reader \<Rightarrow> ('a \<Rightarrow> 'b reader) \<Rightarrow> 'b reader" where
  "rd_bind m k = (\<lambda>d. andthen (m d) (\<lambda>(v, d). k v d))"

text \<open>A step that reads nothing.\<close>

definition rd_try :: "'a turn_result \<Rightarrow> ('a \<Rightarrow> 'b reader) \<Rightarrow> 'b reader" where
  "rd_try r k = (\<lambda>d. andthen r (\<lambda>v. k v d))"

definition rd_fail :: "string \<Rightarrow> 'a reader" where
  "rd_fail reason = (\<lambda>d. Err (CorruptRuntimeEvent reason))"

definition rd_bytes :: "usize \<Rightarrow> u8 list reader" where
  "rd_bytes n d =
     andthen (ok_or (usize_add (dc_position d) n) RtIntegerOverflow) (\<lambda>last.
     if last \<le> length (dc_bytes d)
     then Ok (take n (drop (dc_position d) (dc_bytes d)), d\<lparr>dc_position := last\<rparr>)
     else Err (CorruptRuntimeEvent ''truncated Runtime Event''))"

definition rd_u8 :: "u8 reader" where "rd_u8 = rd_bind (rd_bytes 1) (\<lambda>bs. rd_return (hd bs))"
definition rd_u32 :: "u32 reader" where "rd_u32 = rd_bind (rd_bytes 4) (\<lambda>bs. rd_return (u32_from_le bs))"
definition rd_u64 :: "u64 reader" where "rd_u64 = rd_bind (rd_bytes 8) (\<lambda>bs. rd_return (u64_from_le bs))"
definition rd_i64 :: "int reader" where "rd_i64 = rd_bind (rd_bytes 8) (\<lambda>bs. rd_return (sint (u64_from_le bs)))"

definition rd_string :: "usize \<Rightarrow> string reader" where
  "rd_string max_bytes =
     rd_bind rd_u32 (\<lambda>n.
     if unat n > max_bytes then rd_fail ''Runtime Event string is too large''
     else
     rd_bind (rd_bytes (unat n)) (\<lambda>bytes.
     let s = map char_of_byte bytes in
     if utf8_valid s then rd_return s else rd_fail ''Runtime Event string is not UTF-8''))"

definition rd_finish :: "decoder \<Rightarrow> unit turn_result" where
  "rd_finish d =
     (if dc_position d = length (dc_bytes d) then Ok ()
      else Err (CorruptRuntimeEvent ''Runtime Event has trailing bytes''))"

text \<open>A loop that runs a decoding step \<open>n\<close> times, and the one that collects what it decodes.\<close>

primrec rd_loop :: "nat \<Rightarrow> ('s \<Rightarrow> 's reader) \<Rightarrow> 's \<Rightarrow> 's reader" where
  "rd_loop 0 f s = rd_return s"
| "rd_loop (Suc n) f s = rd_bind (f s) (rd_loop n f)"

definition rd_list :: "nat \<Rightarrow> 'a reader \<Rightarrow> 'a list reader" where
  "rd_list n m = rd_loop n (\<lambda>vs. rd_bind m (\<lambda>v. rd_return (vs @ [v]))) []"

text \<open>\<open>TurnId::new(payload.u64()?).map_err(RuntimeError::Model)?\<close>, for every kind of identifier.\<close>

definition put_id :: "'k nonzero_id \<Rightarrow> encoded" where
  "put_id i = put_u64 (nonzero_get i)"

definition rd_id :: "string \<Rightarrow> 'k nonzero_id reader" where
  "rd_id name = rd_bind rd_u64 (\<lambda>v. rd_try (map_err RtModel (nonzero_new name v)) rd_return)"

definition rd_timestamp :: "'z turn_libs \<Rightarrow> usage_timestamp reader" where
  "rd_timestamp libs = rd_bind rd_i64 (\<lambda>v. rd_try (map_err RtUsage (timestamp_from_unix_millis libs v)) rd_return)"

section \<open>Optional values and tags\<close>

definition put_optional :: "('a \<Rightarrow> encoded) \<Rightarrow> 'a option \<Rightarrow> encoded" where
  "put_optional put v = (case v of None \<Rightarrow> put_u8 0 | Some v \<Rightarrow> put_seq [put_u8 1, put v])"

definition rd_optional :: "string \<Rightarrow> 'a reader \<Rightarrow> 'a option reader" where
  "rd_optional reason m =
     rd_bind rd_u8 (\<lambda>tag.
     if tag = 0 then rd_return None
     else if tag = 1 then rd_bind m (\<lambda>v. rd_return (Some v))
     else rd_fail reason)"

definition put_optional_u64 :: "u64 option \<Rightarrow> encoded" where
  "put_optional_u64 = put_optional put_u64"

definition rd_optional_u64 :: "u64 option reader" where
  "rd_optional_u64 = rd_optional ''invalid optional integer tag'' rd_u64"

definition put_optional_i64 :: "int option \<Rightarrow> encoded" where
  "put_optional_i64 = put_optional put_i64"

definition rd_optional_i64 :: "int option reader" where
  "rd_optional_i64 = rd_optional ''invalid optional integer tag'' rd_i64"

definition put_optional_string :: "string option \<Rightarrow> encoded" where
  "put_optional_string = put_optional put_string"

definition rd_optional_string :: "usize \<Rightarrow> string option reader" where
  "rd_optional_string max_bytes = rd_optional ''invalid optional string tag'' (rd_string max_bytes)"

text \<open>\<open>AgentId::from_stored\<close>\<close>

definition agent_from_stored :: "u64 \<Rightarrow> agent_id option" where
  "agent_from_stored v = (if v = 0 \<or> v = u64_max then None else Some (Ident v))"

definition rd_agent :: "string \<Rightarrow> agent_id reader" where
  "rd_agent reason = rd_bind rd_u64 (\<lambda>v. rd_try (ok_or (agent_from_stored v) (CorruptRuntimeEvent reason)) rd_return)"

definition put_optional_agent :: "agent_id option \<Rightarrow> encoded" where
  "put_optional_agent = put_optional (\<lambda>agent. put_u64 (id_get agent))"

definition rd_optional_agent :: "agent_id option reader" where
  "rd_optional_agent = rd_optional ''invalid optional Agent ID tag'' (rd_agent ''invalid Agent ID in Runtime Event'')"

definition decode_provider_dialect :: "u8 \<Rightarrow> provider_dialect turn_result" where
  "decode_provider_dialect tag =
     (if tag = 1 then Ok Responses else if tag = 2 then Ok ChatCompletions else if tag = 3 then Ok Messages
      else Err (CorruptRuntimeEvent ''invalid Provider dialect tag''))"

definition rd_dialect :: "provider_dialect reader" where
  "rd_dialect = rd_bind rd_u8 (\<lambda>tag. rd_try (decode_provider_dialect tag) rd_return)"

text \<open>An optional dialect is one byte, 0 for none.\<close>

definition put_optional_dialect :: "provider_dialect option \<Rightarrow> encoded" where
  "put_optional_dialect dialect = put_u8 (case dialect of None \<Rightarrow> 0 | Some d \<Rightarrow> provider_dialect_tag d)"

definition rd_optional_dialect :: "provider_dialect option reader" where
  "rd_optional_dialect =
     rd_bind rd_u8 (\<lambda>tag.
     if tag = 0 then rd_return None else rd_try (decode_provider_dialect tag) (\<lambda>d. rd_return (Some d)))"

primrec turn_block_origin_tag :: "turn_block_origin \<Rightarrow> u8 turn_result" where
  "turn_block_origin_tag OriginProvider = Ok 1"
| "turn_block_origin_tag OriginOther = Ok 2"
| "turn_block_origin_tag OriginLegacy = Err (CorruptRuntimeState ''legacy blocked origin cannot be encoded'')"

definition decode_turn_block_origin :: "u8 \<Rightarrow> turn_block_origin turn_result" where
  "decode_turn_block_origin tag =
     (if tag = 1 then Ok OriginProvider else if tag = 2 then Ok OriginOther
      else Err (CorruptRuntimeEvent ''invalid Turn block origin tag''))"

definition put_optional_stage :: "provider_unavailable_stage option \<Rightarrow> encoded" where
  "put_optional_stage stage =
     put_u8 (case stage of None \<Rightarrow> 0 | Some BeforeResponse \<Rightarrow> 1 | Some BeforeFirstEvent \<Rightarrow> 2 | Some AfterFirstEvent \<Rightarrow> 3)"

definition decode_optional_stage :: "u8 \<Rightarrow> provider_unavailable_stage option turn_result" where
  "decode_optional_stage tag =
     (if tag = 0 then Ok None else if tag = 1 then Ok (Some BeforeResponse)
      else if tag = 2 then Ok (Some BeforeFirstEvent) else if tag = 3 then Ok (Some AfterFirstEvent)
      else Err (CorruptRuntimeEvent ''invalid optional Provider unavailable stage tag''))"

primrec attempt_outcome_tag :: "usage_attempt_outcome \<Rightarrow> u8" where
  "attempt_outcome_tag Succeeded = 1"
| "attempt_outcome_tag Failed = 2"
| "attempt_outcome_tag Interrupted = 3"

definition decode_attempt_outcome :: "u8 \<Rightarrow> usage_attempt_outcome turn_result" where
  "decode_attempt_outcome tag =
     (if tag = 1 then Ok Succeeded else if tag = 2 then Ok Failed else if tag = 3 then Ok Interrupted
      else Err (CorruptRuntimeEvent ''invalid usage attempt outcome''))"

primrec unknown_reason_tag :: "cost_estimate_unknown_reason \<Rightarrow> u8" where
  "unknown_reason_tag MissingUsageRecord = 1"
| "unknown_reason_tag NoMatchingSchedule = 2"
| "unknown_reason_tag MissingInputTokens = 3"
| "unknown_reason_tag MissingCachedInputTokens = 4"
| "unknown_reason_tag MissingCacheWriteInputTokens = 5"
| "unknown_reason_tag MissingOutputTokens = 6"
| "unknown_reason_tag MissingReasoningOutputTokens = 7"
| "unknown_reason_tag InconsistentInputAccounting = 8"
| "unknown_reason_tag InconsistentOutputAccounting = 9"
| "unknown_reason_tag ArithmeticOverflow = 10"
| "unknown_reason_tag MissingServiceTier = 11"

definition decode_unknown_reason :: "u8 \<Rightarrow> cost_estimate_unknown_reason turn_result" where
  "decode_unknown_reason tag =
     (if tag = 1 then Ok MissingUsageRecord
      else if tag = 2 then Ok NoMatchingSchedule
      else if tag = 3 then Ok MissingInputTokens
      else if tag = 4 then Ok MissingCachedInputTokens
      else if tag = 5 then Ok MissingCacheWriteInputTokens
      else if tag = 6 then Ok MissingOutputTokens
      else if tag = 7 then Ok MissingReasoningOutputTokens
      else if tag = 8 then Ok InconsistentInputAccounting
      else if tag = 9 then Ok InconsistentOutputAccounting
      else if tag = 10 then Ok ArithmeticOverflow
      else if tag = 11 then Ok MissingServiceTier
      else Err (CorruptRuntimeEvent ''invalid Cost Estimate unknown reason''))"

definition decode_usage_weekday :: "u8 \<Rightarrow> usage_weekday turn_result" where
  "decode_usage_weekday tag =
     (if tag = 1 then Ok Mon else if tag = 2 then Ok Tue else if tag = 3 then Ok Wed else if tag = 4 then Ok Thu
      else if tag = 5 then Ok Fri else if tag = 6 then Ok Sat else if tag = 7 then Ok Sun
      else Err (CorruptRuntimeEvent ''invalid usage window weekday''))"

definition decode_config_source :: "u8 \<Rightarrow> config_source turn_result" where
  "decode_config_source tag =
     (if tag = 1 then Ok BuiltIn else if tag = 2 then Ok User else if tag = 3 then Ok Project else if tag = 4 then Ok Cli
      else Err (CorruptRuntimeEvent ''invalid Config source tag''))"

definition rd_source :: "config_source reader" where
  "rd_source = rd_bind rd_u8 (\<lambda>tag. rd_try (decode_config_source tag) rd_return)"

definition decode_price_source :: "u8 \<Rightarrow> u16 \<Rightarrow> price_schedule_source turn_result" where
  "decode_price_source tag schema =
     (if tag = 1 then Ok Template else if tag = 2 then Ok Manual else if tag = 3 then Ok ProviderReported
      else if tag = 4 \<and> schema \<ge> 8 then Ok TemplateMirror
      else Err (CorruptRuntimeEvent ''invalid Price Schedule source tag''))"

end
