(* ===== verification/Turn_Wire.thy ===== *)
theory Turn_Wire
  imports Turn_Codec
begin

text \<open>
  The encoding of what Turn events carry, and of the events themselves
  (\<open>greentyper-core/src/runtime.rs\<close>): frozen configurations with their usage windows and prices, frozen
  Providers, usage records, context checkpoints.  Decoding builds each value again with the constructor
  that checks it, and compares the fingerprint that was stored.
\<close>

section \<open>Usage windows\<close>

definition put_usage_window :: "usage_window \<Rightarrow> encoded" where
  "put_usage_window w =
     put_seq
       [put_string (uw_id w), put_u32 (ucast (uw_start_minute w)), put_u32 (ucast (uw_end_minute w)),
        put_count (length (window_days w)), put_seq (map (\<lambda>day. put_u8 (usage_weekday_tag day)) (window_days w)),
        put_string (uw_timezone w), put_u8 (usage_timezone_source_tag (uw_timezone_source w)),
        put_string (uw_ruleset_version w)]"

text \<open>\<open>u16::try_from\<close>\<close>

definition u16_of_u32 :: "u32 \<Rightarrow> u16 option" where
  "u16_of_u32 v = (if unat v < 2 ^ 16 then Some (ucast v) else None)"

definition rd_minute :: "string \<Rightarrow> u16 reader" where
  "rd_minute reason = rd_bind rd_u32 (\<lambda>v. rd_try (ok_or (u16_of_u32 v) (CorruptRuntimeEvent reason)) rd_return)"

definition rd_day :: "usage_weekday fset \<Rightarrow> usage_weekday fset reader" where
  "rd_day days =
     rd_bind rd_u8 (\<lambda>tag.
     rd_try (decode_usage_weekday tag) (\<lambda>day.
     if day |\<in>| days then rd_fail ''usage window contains a duplicate day'' else rd_return (finsert day days)))"

definition rd_timezone_source :: "usage_timezone_source reader" where
  "rd_timezone_source =
     rd_bind rd_u8 (\<lambda>tag.
     if tag = 1 then rd_return Explicit else if tag = 2 then rd_return LocalSystem
     else rd_fail ''usage window timezone source is invalid'')"

definition rd_usage_window :: "'z turn_libs \<Rightarrow> usage_window reader" where
  "rd_usage_window libs =
     rd_bind (rd_string MAX_PROVIDER_ID_BYTES) (\<lambda>name.
     rd_bind (rd_minute ''usage window start is invalid'') (\<lambda>start_minute.
     rd_bind (rd_minute ''usage window end is invalid'') (\<lambda>end_minute.
     rd_bind rd_u32 (\<lambda>day_count.
     if day_count = 0 \<or> unat day_count > 7 then rd_fail ''usage window day count is invalid''
     else
     rd_bind (rd_loop (unat day_count) rd_day {||}) (\<lambda>days.
     rd_bind (rd_string MAX_PROVIDER_ID_BYTES) (\<lambda>timezone.
     rd_bind rd_timezone_source (\<lambda>timezone_source.
     rd_bind (rd_string MAX_PROVIDER_ID_BYTES) (\<lambda>ruleset_version.
     rd_try (map_err RtUsage (from_resolved_parts (tl_tz libs) name start_minute end_minute days timezone
       timezone_source ruleset_version)) rd_return))))))))"

section \<open>Prices\<close>

definition put_price_schedule :: "price_schedule \<Rightarrow> encoded" where
  "put_price_schedule s =
     put_seq
       ([put_u64 (ps_fingerprint s), put_string (ps_id s), put_string (ps_version s), put_string (ps_currency s),
         put_string (ps_provider_profile s), put_string (ps_model s), put_optional_dialect (ps_dialect s),
         put_optional_string (ps_service_tier s), put_u64 (ps_minimum_context s),
         put_optional_u64 (ps_maximum_context s), put_i64 (ps_effective_from s),
         put_optional_i64 (ps_effective_until s), put_u8 (source_tag (ps_source s)), put_string (ps_source_ref s),
         put_u64 (tk_input (ps_rates s)), put_u64 (tk_cached_input (ps_rates s)), put_u64 (tk_cache_write (ps_rates s)),
         put_u64 (tk_output (ps_rates s)), put_u64 (tk_reasoning_output (ps_rates s))])"

definition rd_token_rates :: "token_rates reader" where
  "rd_token_rates =
     rd_bind rd_u64 (\<lambda>input.
     rd_bind rd_u64 (\<lambda>cached_input.
     rd_bind rd_u64 (\<lambda>cache_write.
     rd_bind rd_u64 (\<lambda>out.
     rd_bind rd_u64 (\<lambda>reasoning_output.
     rd_return \<lparr>tk_input = input, tk_cached_input = cached_input, tk_cache_write = cache_write, tk_output = out,
       tk_reasoning_output = reasoning_output\<rparr>)))))"

definition rd_price_definition :: "'z turn_libs \<Rightarrow> u16 \<Rightarrow> price_schedule_definition reader" where
  "rd_price_definition libs schema =
     rd_bind (rd_string MAX_PROVIDER_ID_BYTES) (\<lambda>name.
     rd_bind (rd_string MAX_CONFIG_STRING_BYTES) (\<lambda>version.
     rd_bind (rd_string 3) (\<lambda>currency.
     rd_bind (rd_string MAX_CONFIG_STRING_BYTES) (\<lambda>provider_profile.
     rd_bind (rd_string MAX_CONFIG_STRING_BYTES) (\<lambda>model.
     rd_bind rd_optional_dialect (\<lambda>dialect.
     rd_bind (rd_optional_string MAX_SERVICE_TIER_BYTES) (\<lambda>service_tier.
     rd_bind rd_u64 (\<lambda>minimum_context_tokens.
     rd_bind rd_optional_u64 (\<lambda>maximum_context_tokens.
     rd_bind (rd_timestamp libs) (\<lambda>effective_from.
     rd_bind rd_optional_i64 (\<lambda>effective_until.
     rd_try (transpose (\<lambda>v. map_err RtUsage (timestamp_from_unix_millis libs v)) effective_until) (\<lambda>effective_until.
     rd_bind rd_u8 (\<lambda>tag.
     rd_try (decode_price_source tag schema) (\<lambda>source.
     rd_bind (rd_string MAX_CONFIG_STRING_BYTES) (\<lambda>source_ref.
     rd_bind rd_token_rates (\<lambda>rates.
     rd_return \<lparr>ps_id = name, ps_version = version, ps_currency = currency, ps_provider_profile = provider_profile,
       ps_model = model, ps_dialect = dialect, ps_service_tier = service_tier,
       ps_minimum_context = minimum_context_tokens, ps_maximum_context = maximum_context_tokens,
       ps_effective_from = effective_from, ps_effective_until = effective_until, ps_source = source,
       ps_source_ref = source_ref, ps_rates = rates\<rparr>))))))))))))))))"

definition rd_price_schedule :: "'z turn_libs \<Rightarrow> u16 \<Rightarrow> price_schedule reader" where
  "rd_price_schedule libs schema =
     rd_bind rd_u64 (\<lambda>fp.
     rd_bind (rd_price_definition libs schema) (\<lambda>definition'.
     rd_try (map_err (\<lambda>_. CorruptRuntimeEvent ''invalid Config Epoch Price Schedule'')
       (price_schedule_new_trusted definition')) (\<lambda>schedule.
     if ps_fingerprint schedule \<noteq> fp then rd_fail ''Price Schedule fingerprint mismatch'' else rd_return schedule)))"

section \<open>Config epochs\<close>

definition put_source :: "config_source \<Rightarrow> encoded" where
  "put_source source = put_u8 (config_source_tag source)"

definition put_setting :: "('a \<Rightarrow> encoded) \<Rightarrow> 'a sourced option \<Rightarrow> encoded" where
  "put_setting put v = put_optional (\<lambda>v. put_seq [put (so_value v), put_source (so_source v)]) v"

definition put_config_epoch :: "config_epoch \<Rightarrow> encoded" where
  "put_config_epoch epoch =
     (let resolved = cf_resolved epoch in
      put_seq
        [put_id (cf_id epoch), put_u64 (cf_fingerprint epoch),
         put_string (so_value (rc_provider_profile resolved)), put_source (so_source (rc_provider_profile resolved)),
         put_string (so_value (rc_provider_model resolved)), put_source (so_source (rc_provider_model resolved)),
         put_u32 (so_value (rc_max_output_bytes resolved)), put_source (so_source (rc_max_output_bytes resolved)),
         put_count (length (cf_usage_windows epoch)), put_seq (map put_usage_window (cf_usage_windows epoch)),
         put_count (length (pb_schedules (cf_price_schedules epoch))),
         put_seq (map put_price_schedule (pb_schedules (cf_price_schedules epoch))),
         put_setting put_u32 (rc_max_output_tokens resolved),
         put_setting (\<lambda>v. put_string (effort_as_str v)) (rc_reasoning_effort resolved),
         put_setting (\<lambda>v. put_string (tier_as_str v)) (rc_service_tier resolved),
         put_string (mode_as_str (so_value (rc_context_mode resolved))),
         put_source (so_source (rc_context_mode resolved))])"

primrec layer_mut :: "config_source \<Rightarrow> (config_layer \<Rightarrow> config_layer) \<Rightarrow> config_layers \<Rightarrow> config_layers" where
  "layer_mut BuiltIn f layers = layers\<lparr>ly_built_in := f (ly_built_in layers)\<rparr>"
| "layer_mut User f layers = layers\<lparr>ly_user := f (ly_user layers)\<rparr>"
| "layer_mut Project f layers = layers\<lparr>ly_project := f (ly_project layers)\<rparr>"
| "layer_mut Cli f layers = layers\<lparr>ly_cli := f (ly_cli layers)\<rparr>"

definition set_setting :: "('a \<Rightarrow> config_layer \<Rightarrow> config_layer) \<Rightarrow> ('a \<times> config_source) option \<Rightarrow> config_layers \<Rightarrow> config_layers" where
  "set_setting upd v layers = (case v of None \<Rightarrow> layers | Some (v, source) \<Rightarrow> layer_mut source (upd v) layers)"

text \<open>The layers that a decoded epoch starts from: empty, but for the default Context Mode.\<close>

definition decoded_layers :: config_layers where
  "decoded_layers =
     \<lparr>ly_built_in = config_layer_default\<lparr>cl_context_mode := Some ModeCanonical\<rparr>, ly_user = config_layer_default,
      ly_project = config_layer_default, ly_cli = config_layer_default\<rparr>"

definition rd_setting :: "string \<Rightarrow> 'a reader \<Rightarrow> ('a \<times> config_source) option reader" where
  "rd_setting reason m = rd_optional reason (rd_bind m (\<lambda>v. rd_bind rd_source (\<lambda>source. rd_return (v, source))))"

definition rd_parsed :: "string \<Rightarrow> (string \<Rightarrow> 'a option) \<Rightarrow> 'a reader" where
  "rd_parsed reason parse =
     rd_bind (rd_string MAX_CONFIG_STRING_BYTES) (\<lambda>v.
     rd_try (ok_or (parse v) (CorruptRuntimeEvent reason)) rd_return)"

definition rd_usage_windows :: "'z turn_libs \<Rightarrow> u16 \<Rightarrow> usage_window list reader" where
  "rd_usage_windows libs schema =
     (if schema \<ge> 4
      then rd_bind rd_u32 (\<lambda>count.
        if unat count > MAX_USAGE_WINDOWS then rd_fail ''Config Epoch usage window count is invalid''
        else rd_list (unat count) (rd_usage_window libs))
      else rd_return [])"

definition rd_price_schedules :: "'z turn_libs \<Rightarrow> u16 \<Rightarrow> price_schedule_book reader" where
  "rd_price_schedules libs schema =
     (if schema \<ge> 5
      then rd_bind rd_u32 (\<lambda>count.
        if unat count > MAX_PRICE_SCHEDULES then rd_fail ''Config Epoch Price Schedule count is invalid''
        else rd_bind (rd_list (unat count) (rd_price_schedule libs schema)) (\<lambda>schedules.
        rd_try (map_err (\<lambda>_. CorruptRuntimeEvent ''invalid Config Epoch Price Schedules'')
          (price_schedule_book_new schedules)) rd_return))
      else rd_return \<lparr>pb_schedules = []\<rparr>)"

text \<open>The settings that later schemas added, in the layers.\<close>

definition rd_later_settings :: "u16 \<Rightarrow> config_layers \<Rightarrow> config_layers reader" where
  "rd_later_settings schema layers =
     rd_bind (if schema \<ge> 6 then rd_setting ''invalid Config Epoch output-token limit'' rd_u32 else rd_return None) (\<lambda>tokens.
     rd_bind (if schema \<ge> 7
       then rd_setting ''invalid Config Epoch reasoning effort'' (rd_parsed ''invalid Config Epoch reasoning effort'' effort_parse)
       else rd_return None) (\<lambda>effort.
     rd_bind (if schema \<ge> 7
       then rd_setting ''invalid Config Epoch service tier'' (rd_parsed ''invalid Config Epoch service tier'' tier_parse)
       else rd_return None) (\<lambda>tier.
     rd_bind (if schema \<ge> 14
       then rd_bind (rd_parsed ''invalid Config Epoch context mode'' mode_parse) (\<lambda>v.
         rd_bind rd_source (\<lambda>source. rd_return (Some (v, source))))
       else rd_return None) (\<lambda>mode.
     rd_return
       (set_setting (\<lambda>v l. l\<lparr>cl_context_mode := Some v\<rparr>) mode
         (set_setting (\<lambda>v l. l\<lparr>cl_service_tier := Some v\<rparr>) tier
           (set_setting (\<lambda>v l. l\<lparr>cl_reasoning_effort := Some v\<rparr>) effort
             (set_setting (\<lambda>v l. l\<lparr>cl_max_output_tokens := Some v\<rparr>) tokens layers))))))))"

definition rd_config_epoch :: "'z turn_libs \<Rightarrow> u16 \<Rightarrow> config_epoch reader" where
  "rd_config_epoch libs schema =
     rd_bind (rd_id ''ConfigEpochId'') (\<lambda>i.
     rd_bind rd_u64 (\<lambda>fp.
     rd_bind (rd_string MAX_BLOCK_REASON_BYTES) (\<lambda>profile.
     rd_bind rd_source (\<lambda>profile_source.
     rd_bind (rd_string MAX_BLOCK_REASON_BYTES) (\<lambda>model.
     rd_bind rd_source (\<lambda>model_source.
     rd_bind rd_u32 (\<lambda>max_output.
     rd_bind rd_source (\<lambda>max_output_source.
     let layers =
       layer_mut max_output_source (\<lambda>l. l\<lparr>cl_max_output_bytes := Some max_output\<rparr>)
         (layer_mut model_source (\<lambda>l. l\<lparr>cl_provider_model := Some model\<rparr>)
           (layer_mut profile_source (\<lambda>l. l\<lparr>cl_provider_profile := Some profile\<rparr>) decoded_layers)) in
     rd_bind (rd_usage_windows libs schema) (\<lambda>usage_windows.
     rd_bind (rd_price_schedules libs schema) (\<lambda>price_schedules.
     rd_bind (rd_later_settings schema layers) (\<lambda>layers.
     rd_try (map_err RtConfig (freeze_with_observability i layers usage_windows price_schedules)) (\<lambda>epoch.
     if cf_fingerprint epoch \<noteq> fp then rd_fail ''Config Epoch fingerprint mismatch'' else rd_return epoch))))))))))))"

section \<open>Provider epochs\<close>

definition put_profile_snapshot :: "provider_profile_snapshot \<Rightarrow> encoded" where
  "put_profile_snapshot s =
     put_seq
       [put_u64 (pf_fingerprint s), put_string (pf_template s), put_optional_string (pf_credential_reference s),
        put_optional_string (pf_base_url s), put_optional_string (profile_route Responses s),
        put_optional_string (profile_route ChatCompletions s), put_optional_string (profile_route Messages s),
        put_optional_string (pf_models_route s), put_count (length (dialect_list (pf_dialects s))),
        put_seq (map (\<lambda>d. put_u8 (provider_dialect_tag d)) (dialect_list (pf_dialects s))),
        put_u8 (case pf_pricing_source s of None \<Rightarrow> 0 | Some p \<Rightarrow> pricing_source_tag p),
        put_u8 (if pf_allow_insecure_loopback s then 1 else 0)]"

definition rd_new_dialect :: "provider_dialect list \<Rightarrow> provider_dialect list reader" where
  "rd_new_dialect dialects =
     rd_bind rd_dialect (\<lambda>d.
     if d \<in> set dialects then rd_fail ''Provider Profile contains a duplicate dialect'' else rd_return (dialects @ [d]))"

definition decode_pricing_source :: "u8 \<Rightarrow> u16 \<Rightarrow> provider_pricing_source option turn_result" where
  "decode_pricing_source tag schema =
     (if tag = 0 then Ok None
      else if tag = 1 then Ok (Some PricingUnknown)
      else if tag = 2 then Ok (Some PricingTemplate)
      else if tag = 3 then Ok (Some PricingManual)
      else if tag = 4 then Ok (Some PricingProviderReported)
      else if tag = 5 \<and> schema \<ge> 8 then Ok (Some PricingTemplateMirror)
      else Err (CorruptRuntimeEvent ''invalid Provider pricing source tag''))"

definition rd_flag :: "string \<Rightarrow> bool reader" where
  "rd_flag reason =
     rd_bind rd_u8 (\<lambda>tag. if tag = 0 then rd_return False else if tag = 1 then rd_return True else rd_fail reason)"

definition rd_profile_snapshot :: "'z turn_libs \<Rightarrow> string \<Rightarrow> u16 \<Rightarrow> provider_profile_snapshot reader" where
  "rd_profile_snapshot libs profile schema =
     rd_bind rd_u64 (\<lambda>fp.
     rd_bind (rd_string MAX_PROVIDER_ID_BYTES) (\<lambda>template.
     rd_bind (rd_optional_string MAX_PROVIDER_ID_BYTES) (\<lambda>credential_reference.
     rd_bind (rd_optional_string MAX_PROVIDER_ID_BYTES) (\<lambda>base_url.
     rd_bind (rd_optional_string MAX_PROVIDER_ID_BYTES) (\<lambda>responses_route.
     rd_bind (rd_optional_string MAX_PROVIDER_ID_BYTES) (\<lambda>chat_completions_route.
     rd_bind (rd_optional_string MAX_PROVIDER_ID_BYTES) (\<lambda>messages_route.
     rd_bind (rd_optional_string MAX_PROVIDER_ID_BYTES) (\<lambda>models_route.
     rd_bind rd_u32 (\<lambda>dialect_count.
     if dialect_count = 0 \<or> unat dialect_count > 3 then rd_fail ''Provider Profile dialect count is invalid''
     else
     rd_bind (rd_loop (unat dialect_count) rd_new_dialect []) (\<lambda>dialects.
     rd_bind rd_u8 (\<lambda>tag.
     rd_try (decode_pricing_source tag schema) (\<lambda>pricing_source.
     rd_bind (rd_flag ''invalid Provider loopback permission tag'') (\<lambda>allow_insecure_loopback.
     rd_try (map_err RtProvider (profile_snapshot_from_parts (tl_url libs) profile template credential_reference base_url
       responses_route chat_completions_route messages_route models_route dialects pricing_source
       allow_insecure_loopback)) (\<lambda>s.
     if pf_base_url s \<noteq> base_url
        \<or> [profile_route Responses s, profile_route ChatCompletions s, profile_route Messages s, pf_models_route s]
           \<noteq> [responses_route, chat_completions_route, messages_route, models_route]
     then rd_fail ''Provider Profile snapshot is not canonical''
     else if pf_fingerprint s \<noteq> fp then rd_fail ''Provider Profile fingerprint mismatch''
     else rd_return s))))))))))))))"

definition put_provider_epoch :: "provider_epoch \<Rightarrow> encoded" where
  "put_provider_epoch epoch =
     put_seq
       [put_id (pe_id epoch), put_u64 (pe_fingerprint epoch), put_string (pe_profile epoch), put_string (pe_model epoch),
        put_optional put_profile_snapshot (pe_snapshot epoch), put_optional_dialect (pe_dialect epoch)]"

definition provider_epoch_of ::
  "provider_epoch_id \<Rightarrow> string \<Rightarrow> string \<Rightarrow> provider_profile_snapshot option \<Rightarrow> provider_dialect option
     \<Rightarrow> provider_epoch provider_result"
where
  "provider_epoch_of i profile model snap dialect =
     (case snap of
        Some s \<Rightarrow> epoch_with_snapshot_and_dialect i profile model s dialect
      | None \<Rightarrow> if dialect = None then provider_epoch_new i profile model
          else Err (ProviderConfiguration ''Provider dialect requires a Profile snapshot''))"

definition rd_provider_epoch :: "'z turn_libs \<Rightarrow> u16 \<Rightarrow> provider_epoch reader" where
  "rd_provider_epoch libs schema =
     rd_bind (rd_id ''ProviderEpochId'') (\<lambda>i.
     if schema < 3
     then rd_bind (rd_string MAX_PROVIDER_ID_BYTES) (\<lambda>profile.
       rd_bind (rd_string MAX_PROVIDER_ID_BYTES) (\<lambda>model.
       rd_try (map_err RtProvider (provider_epoch_new i profile model)) rd_return))
     else
     rd_bind rd_u64 (\<lambda>fp.
     rd_bind (rd_string MAX_PROVIDER_ID_BYTES) (\<lambda>profile.
     rd_bind (rd_string MAX_PROVIDER_ID_BYTES) (\<lambda>model.
     rd_bind (rd_optional ''invalid Provider Profile snapshot tag'' (rd_profile_snapshot libs profile schema)) (\<lambda>snap.
     rd_bind (if schema \<ge> 4 then rd_optional_dialect else rd_return None) (\<lambda>dialect.
     rd_try (map_err RtProvider (provider_epoch_of i profile model snap dialect)) (\<lambda>epoch.
     if pe_fingerprint epoch \<noteq> fp then rd_fail ''Provider Epoch fingerprint mismatch'' else rd_return epoch)))))))"

section \<open>Usage records\<close>

definition put_usage_record :: "usage_record \<Rightarrow> encoded" where
  "put_usage_record usage =
     put_seq
       [put_optional_u64 (ur_input_tokens usage), put_optional_u64 (ur_cached_input_tokens usage),
        put_optional_u64 (ur_cache_write_input_tokens usage), put_optional_u64 (ur_output_tokens usage),
        put_optional_u64 (ur_reasoning_output_tokens usage), put_optional_u64 (ur_total_tokens usage),
        put_optional put_string (ur_service_tier usage),
        put_u8 (case ur_accuracy usage of Exact \<Rightarrow> 1 | Estimated \<Rightarrow> 2)]"

definition rd_accuracy :: "u16 \<Rightarrow> usage_accuracy reader" where
  "rd_accuracy schema =
     (if schema \<ge> 4
      then rd_bind rd_u8 (\<lambda>tag. if tag = 1 then rd_return Exact else if tag = 2 then rd_return Estimated
        else rd_fail ''invalid usage accuracy tag'')
      else rd_return Exact)"

definition rd_usage_record :: "u16 \<Rightarrow> usage_record reader" where
  "rd_usage_record schema =
     rd_bind rd_optional_u64 (\<lambda>input_tokens.
     rd_bind rd_optional_u64 (\<lambda>cached_input_tokens.
     rd_bind rd_optional_u64 (\<lambda>cache_write_input_tokens.
     rd_bind rd_optional_u64 (\<lambda>output_tokens.
     rd_bind rd_optional_u64 (\<lambda>reasoning_output_tokens.
     rd_bind rd_optional_u64 (\<lambda>total_tokens.
     rd_bind (rd_optional ''invalid optional service tier tag'' (rd_string MAX_SERVICE_TIER_BYTES)) (\<lambda>service_tier.
     rd_bind (rd_accuracy schema) (\<lambda>accuracy.
     rd_try (map_err RtProvider (usage_record_new input_tokens cached_input_tokens cache_write_input_tokens output_tokens
       reasoning_output_tokens total_tokens service_tier)) (\<lambda>usage.
     rd_return (usage\<lparr>ur_accuracy := accuracy\<rparr>))))))))))"

section \<open>Context checkpoints\<close>

primrec view_role_tag :: "context_view_role \<Rightarrow> u8" where
  "view_role_tag ViewUser = 1"
| "view_role_tag ViewAssistant = 2"

definition rd_view_role :: "context_view_role reader" where
  "rd_view_role =
     rd_bind rd_u8 (\<lambda>tag. if tag = 1 then rd_return ViewUser else if tag = 2 then rd_return ViewAssistant
       else rd_fail ''Context checkpoint role is invalid'')"

definition put_artifact :: "context_artifact_ref \<Rightarrow> encoded" where
  "put_artifact a =
     put_seq [put_u64 (ar_item a), put_u64 (ar_turn a), put_u8 (view_role_tag (ar_role a)), put_u64 (ar_byte_len a),
       put_u64 (ar_tokens a), put_raw (ar_digest a)]"

definition rd_artifact :: "context_artifact_ref reader" where
  "rd_artifact =
     rd_bind rd_u64 (\<lambda>item.
     rd_bind rd_u64 (\<lambda>turn.
     rd_bind rd_view_role (\<lambda>role.
     rd_bind rd_u64 (\<lambda>byte_len.
     rd_bind rd_u64 (\<lambda>estimated_tokens.
     rd_bind (rd_bytes 32) (\<lambda>digest.
     rd_try (map_err RtContext (artifact_from_stored item turn role byte_len estimated_tokens digest)) rd_return))))))"

definition put_view_item :: "context_view_item \<Rightarrow> encoded" where
  "put_view_item v =
     put_seq [put_u64 (vi_item v), put_u64 (vi_turn v), put_u8 (view_role_tag (vi_role v)), put_string (vi_text v)]"

definition rd_view_item :: "context_view_item reader" where
  "rd_view_item =
     rd_bind rd_u64 (\<lambda>item.
     rd_bind rd_u64 (\<lambda>turn.
     rd_bind rd_view_role (\<lambda>role.
     rd_bind (rd_string MAX_CONTEXT_VIEW_BYTES) (\<lambda>text.
     rd_try (map_err RtContext (view_item_from_stored item turn role text)) rd_return))))"

definition put_checkpoint :: "context_checkpoint \<Rightarrow> encoded" where
  "put_checkpoint checkpoint =
     put_seq
       [put_u64 (lh_transaction (range_head (rv_source checkpoint))), put_u64 (lh_sequence (range_head (rv_source checkpoint))),
        put_count (length (rv_artifacts checkpoint)), put_seq (map put_artifact (rv_artifacts checkpoint)),
        put_count (length (rv_recent checkpoint)), put_seq (map put_view_item (rv_recent checkpoint))]"

definition rd_checkpoint :: "context_checkpoint reader" where
  "rd_checkpoint =
     rd_bind rd_u64 (\<lambda>transaction.
     rd_bind rd_u64 (\<lambda>sequence.
     if (transaction = 0) \<noteq> (sequence = 0) then rd_fail ''Context checkpoint source head is invalid''
     else
     rd_bind rd_u32 (\<lambda>artifact_count.
     if unat artifact_count > MAX_CONTEXT_VIEW_ITEMS then rd_fail ''Context checkpoint artifact count is invalid''
     else
     rd_bind (rd_list (unat artifact_count) rd_artifact) (\<lambda>artifacts.
     rd_bind rd_u32 (\<lambda>recent_count.
     if is_none_or (usize_add (unat artifact_count) (unat recent_count)) (\<lambda>count. count > MAX_CONTEXT_VIEW_ITEMS)
     then rd_fail ''Context checkpoint Item count is invalid''
     else
     rd_bind (rd_list (unat recent_count) rd_view_item) (\<lambda>recent_items.
     rd_try (map_err RtContext (reduced_from_stored
         (range_from_head \<lparr>lh_transaction = transaction, lh_sequence = sequence\<rparr>) artifacts recent_items)) rd_return))))))"

section \<open>Selections, fallbacks, costs\<close>

definition rd_selection :: "model_selection reader" where
  "rd_selection =
     rd_bind (rd_string MAX_CONFIG_ID_BYTES) (\<lambda>preset.
     rd_bind rd_u64 (\<lambda>config_fp.
     rd_bind (rd_string MAX_PROVIDER_ID_BYTES) (\<lambda>profile.
     rd_bind (rd_string MAX_PROVIDER_ID_BYTES) (\<lambda>model.
     rd_bind rd_dialect (\<lambda>dialect.
     rd_try (map_err (\<lambda>_. CorruptRuntimeEvent ''invalid Model selection'')
       (model_selection_new preset config_fp profile model dialect)) rd_return)))))"

definition put_fallback :: "frozen_provider_fallback \<Rightarrow> encoded" where
  "put_fallback f = put_seq [put_string (fb_preset_id f), put_id (fb_config f), put_id (fb_provider f)]"

definition rd_fallback :: "frozen_provider_fallback reader" where
  "rd_fallback =
     rd_bind (rd_string MAX_CONFIG_ID_BYTES) (\<lambda>preset.
     rd_bind (rd_id ''ConfigEpochId'') (\<lambda>config.
     rd_bind (rd_id ''ProviderEpochId'') (\<lambda>provider.
     rd_return \<lparr>fb_preset_id = preset, fb_config = config, fb_provider = provider\<rparr>)))"

definition rd_fallbacks :: "u16 \<Rightarrow> frozen_provider_fallback list reader" where
  "rd_fallbacks schema =
     (if schema \<ge> 13
      then rd_bind rd_u32 (\<lambda>count.
        if unat count \<ge> MAX_FALLBACK_CANDIDATES then rd_fail ''Provider fallback count is invalid''
        else rd_list (unat count) rd_fallback)
      else rd_return [])"

primrec put_evaluation :: "frozen_cost_evaluation \<Rightarrow> encoded" where
  "put_evaluation (CostKnown schedule_id schedule_fingerprint amount) =
     put_seq [put_u8 1, put_string schedule_id, put_u64 schedule_fingerprint, put_u64 amount]"
| "put_evaluation (CostUnknown reason) = put_seq [put_u8 2, put_u8 (unknown_reason_tag reason)]"

definition rd_evaluation :: "frozen_cost_evaluation reader" where
  "rd_evaluation =
     rd_bind rd_u8 (\<lambda>tag.
     if tag = 1
     then rd_bind (rd_string MAX_PROVIDER_ID_BYTES) (\<lambda>schedule_id.
       rd_bind rd_u64 (\<lambda>schedule_fingerprint.
       rd_bind rd_u64 (\<lambda>amount.
       rd_return (CostKnown schedule_id schedule_fingerprint amount))))
     else if tag = 2
     then rd_bind rd_u8 (\<lambda>tag. rd_try (decode_unknown_reason tag) (\<lambda>reason. rd_return (CostUnknown reason)))
     else rd_fail ''invalid Cost Estimate outcome tag'')"

section \<open>Events\<close>

primrec event_payload :: "runtime_event \<Rightarrow> u16 \<times> encoded" where
  "event_payload (ContextCheckpointPublished checkpoint) = (17, put_checkpoint checkpoint)"
| "event_payload (ModelSelectionStaged agent selection) =
     (14, put_seq [put_u64 (id_get agent), put_string (ms_preset_id selection), put_u64 (ms_config_fingerprint selection),
       put_string (ms_provider_profile selection), put_string (ms_provider_model selection),
       put_u8 (provider_dialect_tag (ms_preferred_dialect selection))])"
| "event_payload (ThreadCreated thread) = (1, put_id thread)"
| "event_payload (ConfigFrozen epoch) = (2, put_config_epoch epoch)"
| "event_payload (ProviderFrozen epoch) = (3, put_provider_epoch epoch)"
| "event_payload (TurnAdmitted thread turn user_item config provider fallbacks agent input) =
     (4, put_seq [put_id thread, put_id turn, put_id user_item, put_id config, put_id provider,
       put_optional_agent agent, put_string input, put_count (length fallbacks), put_seq (map put_fallback fallbacks)])"
| "event_payload (AssistantItemStarted turn item) = (5, put_seq [put_id turn, put_id item])"
| "event_payload (AssistantTextDelta turn item delta) = (6, put_seq [put_id turn, put_id item, put_string delta])"
| "event_payload (OutputPrepared turn item delivery text usage_records legacy_usage) =
     (7, put_seq [put_id turn, put_id item, put_id delivery, put_string text, put_count (length usage_records),
       put_seq (map put_usage_record usage_records)])"
| "event_payload (OutputAcknowledged turn delivery) = (8, put_seq [put_id turn, put_id delivery])"
| "event_payload (TurnCompleted turn) = (9, put_id turn)"
| "event_payload (TurnBlocked turn reason origin stage) =
     (10, put_seq [put_id turn, put_string reason, andthen (turn_block_origin_tag origin) put_u8, put_optional_stage stage])"
| "event_payload (TurnCancelled turn) = (15, put_id turn)"
| "event_payload (TurnRetryRequested turn) = (16, put_id turn)"
| "event_payload (ProviderFallbackRequested turn fallback_index) = (18, put_seq [put_id turn, put_u32 fallback_index])"
| "event_payload (UsageAttemptStarted turn attempt started_at) =
     (11, put_seq [put_id turn, put_u32 attempt, put_i64 started_at])"
| "event_payload (UsageAttemptFinished turn attempt completed_at outcome usage named_windows required) =
     (12, put_seq [put_id turn, put_u32 attempt, put_i64 completed_at, put_u8 (attempt_outcome_tag outcome),
       put_optional put_usage_record usage, put_count (length named_windows), put_seq (map put_string named_windows)])"
| "event_payload (UsageAttemptCostEvaluated turn attempt evaluation) =
     (13, put_seq [put_id turn, put_u32 attempt, put_evaluation evaluation])"

definition encode_runtime_event :: "runtime_event \<Rightarrow> event_data turn_result" where
  "encode_runtime_event event =
     map_ok (\<lambda>payload. \<lparr>ed_schema = RUNTIME_EVENT_SCHEMA, ed_kind = fst (event_payload event), ed_payload = payload\<rparr>)
       (snd (event_payload event))"

text \<open>The arms of \<open>decode\<close> that are longer than a line, and the names of the identifiers.\<close>

abbreviation rd_turn :: "turn_id reader" where "rd_turn \<equiv> rd_id ''TurnId''"
abbreviation rd_item :: "item_id reader" where "rd_item \<equiv> rd_id ''ItemId''"
abbreviation rd_delivery :: "delivery_id reader" where "rd_delivery \<equiv> rd_id ''DeliveryId''"

definition rd_turn_admitted :: "u16 \<Rightarrow> runtime_event reader" where
  "rd_turn_admitted schema =
     rd_bind (rd_id ''ThreadId'') (\<lambda>thread.
     rd_bind rd_turn (\<lambda>turn.
     rd_bind rd_item (\<lambda>user_item.
     rd_bind (rd_id ''ConfigEpochId'') (\<lambda>config.
     rd_bind (rd_id ''ProviderEpochId'') (\<lambda>provider.
     rd_bind (if schema \<ge> 4 then rd_optional_agent else rd_return None) (\<lambda>agent.
     rd_bind (rd_string MAX_INPUT_BYTES) (\<lambda>input.
     rd_bind (rd_fallbacks schema) (\<lambda>fallbacks.
     rd_return (TurnAdmitted thread turn user_item config provider fallbacks agent input)))))))))"

definition rd_output_usage :: "u16 \<Rightarrow> usage_record list reader" where
  "rd_output_usage schema =
     (if schema = 1
      then rd_bind rd_u32 (\<lambda>input. rd_bind rd_u32 (\<lambda>out. rd_return [usage_record_estimated input out]))
      else rd_bind rd_u32 (\<lambda>count.
        if count = 0 \<or> unat count > MAX_USAGE_RECORDS_PER_TURN then rd_fail ''Runtime usage record count is invalid''
        else rd_list (unat count) (rd_usage_record schema)))"

definition rd_output_prepared :: "u16 \<Rightarrow> runtime_event reader" where
  "rd_output_prepared schema =
     rd_bind rd_turn (\<lambda>turn.
     rd_bind rd_item (\<lambda>item.
     rd_bind rd_delivery (\<lambda>delivery.
     rd_bind (rd_string MAX_INPUT_BYTES) (\<lambda>text.
     rd_bind (rd_output_usage schema) (\<lambda>usage_records.
     rd_return (OutputPrepared turn item delivery text usage_records (schema < 4)))))))"

definition rd_turn_blocked :: "u16 \<Rightarrow> runtime_event reader" where
  "rd_turn_blocked schema =
     rd_bind rd_turn (\<lambda>turn.
     rd_bind (rd_string MAX_BLOCK_REASON_BYTES) (\<lambda>reason.
     rd_bind (if schema \<ge> 10 then rd_bind rd_u8 (\<lambda>tag. rd_try (decode_turn_block_origin tag) rd_return)
       else rd_return OriginLegacy) (\<lambda>origin.
     rd_bind (if schema \<ge> 11 then rd_bind rd_u8 (\<lambda>tag. rd_try (decode_optional_stage tag) rd_return)
       else rd_return None) (\<lambda>stage.
     rd_return (TurnBlocked turn reason origin stage)))))"

definition rd_attempt_finished :: "'z turn_libs \<Rightarrow> u16 \<Rightarrow> runtime_event reader" where
  "rd_attempt_finished libs schema =
     rd_bind rd_turn (\<lambda>turn.
     rd_bind rd_u32 (\<lambda>attempt.
     rd_bind (rd_timestamp libs) (\<lambda>completed_at.
     rd_bind rd_u8 (\<lambda>tag.
     rd_try (decode_attempt_outcome tag) (\<lambda>outcome.
     rd_bind (rd_optional ''invalid optional usage record tag'' (rd_usage_record schema)) (\<lambda>usage.
     rd_bind rd_u32 (\<lambda>count.
     if unat count > MAX_USAGE_WINDOWS then rd_fail ''usage attempt window count is invalid''
     else
     rd_bind (rd_list (unat count) (rd_string MAX_PROVIDER_ID_BYTES)) (\<lambda>named_windows.
     rd_return (UsageAttemptFinished turn attempt completed_at outcome usage named_windows (schema \<ge> 5))))))))))"

definition rd_event :: "'z turn_libs \<Rightarrow> u16 \<Rightarrow> u16 \<Rightarrow> runtime_event reader" where
  "rd_event libs schema kind =
     (if kind = 17 \<and> schema \<ge> 12 then rd_bind rd_checkpoint (\<lambda>checkpoint. rd_return (ContextCheckpointPublished checkpoint))
      else if kind = 14 \<and> schema \<ge> 9 then
        rd_bind (rd_agent ''invalid Agent ID in Model selection'') (\<lambda>agent.
        rd_bind rd_selection (\<lambda>selection. rd_return (ModelSelectionStaged agent selection)))
      else if kind = 1 then rd_bind (rd_id ''ThreadId'') (\<lambda>thread. rd_return (ThreadCreated thread))
      else if kind = 2 then rd_bind (rd_config_epoch libs schema) (\<lambda>epoch. rd_return (ConfigFrozen epoch))
      else if kind = 3 then rd_bind (rd_provider_epoch libs schema) (\<lambda>epoch. rd_return (ProviderFrozen epoch))
      else if kind = 4 then rd_turn_admitted schema
      else if kind = 5 then rd_bind rd_turn (\<lambda>turn. rd_bind rd_item (\<lambda>item. rd_return (AssistantItemStarted turn item)))
      else if kind = 6 then
        rd_bind rd_turn (\<lambda>turn. rd_bind rd_item (\<lambda>item. rd_bind (rd_string MAX_INPUT_BYTES) (\<lambda>delta.
        rd_return (AssistantTextDelta turn item delta))))
      else if kind = 7 then rd_output_prepared schema
      else if kind = 8 then
        rd_bind rd_turn (\<lambda>turn. rd_bind rd_delivery (\<lambda>delivery. rd_return (OutputAcknowledged turn delivery)))
      else if kind = 9 then rd_bind rd_turn (\<lambda>turn. rd_return (TurnCompleted turn))
      else if kind = 10 then rd_turn_blocked schema
      else if kind = 15 \<and> schema \<ge> 10 then rd_bind rd_turn (\<lambda>turn. rd_return (TurnCancelled turn))
      else if kind = 16 \<and> schema \<ge> 11 then rd_bind rd_turn (\<lambda>turn. rd_return (TurnRetryRequested turn))
      else if kind = 18 \<and> schema \<ge> 13 then
        rd_bind rd_turn (\<lambda>turn. rd_bind rd_u32 (\<lambda>fallback_index. rd_return (ProviderFallbackRequested turn fallback_index)))
      else if kind = 11 \<and> schema \<ge> 4 then
        rd_bind rd_turn (\<lambda>turn. rd_bind rd_u32 (\<lambda>attempt. rd_bind (rd_timestamp libs) (\<lambda>started_at.
        rd_return (UsageAttemptStarted turn attempt started_at))))
      else if kind = 12 \<and> schema \<ge> 4 then rd_attempt_finished libs schema
      else if kind = 13 \<and> schema \<ge> 5 then
        rd_bind rd_turn (\<lambda>turn. rd_bind rd_u32 (\<lambda>attempt. rd_bind rd_evaluation (\<lambda>evaluation.
        rd_return (UsageAttemptCostEvaluated turn attempt evaluation))))
      else rd_fail ''unknown Runtime Event kind'')"

definition decode_runtime_event :: "'z turn_libs \<Rightarrow> event_data \<Rightarrow> runtime_event turn_result" where
  "decode_runtime_event libs data =
     (if ed_schema data < 1 \<or> ed_schema data > RUNTIME_EVENT_SCHEMA
      then Err (UnsupportedRuntimeEventSchema RUNTIME_EVENT_SCHEMA (ed_schema data))
      else
      andthen (rd_event libs (ed_schema data) (ed_kind data) (decoder_new (ed_payload data))) (\<lambda>(event, d).
      map_ok (\<lambda>_. event) (rd_finish d)))"

end
