(* ===== verification/Turn_Codec_Laws.thy ===== *)
theory Turn_Codec_Laws
  imports Turn_Wire Team_Codec_Laws
begin

text \<open>
  What the encoding of Turn events promises: a value that the code can build is read back as it was
  written, with the checks and fingerprints of its constructor.  \<open>codes enc dec v\<close> joins the two sides, so
  that the bytes themselves are never written out.
\<close>

section \<open>Encoders and readers\<close>

definition codes :: "encoded \<Rightarrow> 'a reader \<Rightarrow> 'a \<Rightarrow> bool" where
  "codes enc dec v \<longleftrightarrow> (\<exists>w. enc = Ok w \<and> reads dec v w)"

named_theorems codes

lemma rd_bind_return [simp]: "rd_bind (rd_return v) k = k v"
  by (simp add: rd_bind_def rd_return_def)

lemma rd_try_Ok [simp]: "rd_try (Ok v) k = k v"
  by (simp add: rd_try_def)

lemma reads_rd_return: "reads (rd_return v) v []"
  by (simp add: rd_return_def reads_return)

lemma reads_rd_bind: "reads m a w \<Longrightarrow> reads (k a) v x \<Longrightarrow> reads (rd_bind m k) v (w @ x)"
  unfolding rd_bind_def by (rule reads_bind)

lemma put_seq_Nil: "put_seq [] = Ok []"
  by (simp add: put_seq_def)

lemma put_seq_Cons: "put_seq (x # xs) = andthen x (\<lambda>w. map_ok ((@) w) (put_seq xs))"
  by (cases x; cases "try_map (\<lambda>part. part) xs") (simp_all add: put_seq_def)

lemma put_seq_append: "put_seq (xs @ ys) = andthen (put_seq xs) (\<lambda>w. map_ok ((@) w) (put_seq ys))"
proof (induction xs)
  case Nil
  show ?case by (cases "put_seq ys") (simp_all add: put_seq_Nil)
next
  case (Cons x xs)
  then show ?case by (cases x; cases "put_seq xs"; cases "put_seq ys") (simp_all add: put_seq_Cons)
qed

lemma codes_done: "codes (put_seq []) (rd_return v) v"
  by (simp add: codes_def reads_rd_return put_seq_Nil)

lemma codes_seq:
  assumes "codes (put_seq xs) m a" and "codes (put_seq ys) (k a) v"
  shows "codes (put_seq (xs @ ys)) (rd_bind m k) v"
  using assms by (auto simp: codes_def put_seq_append intro: reads_rd_bind)

lemma codes_step:
  assumes "codes x m a" and "codes (put_seq xs) (k a) v"
  shows "codes (put_seq (x # xs)) (rd_bind m k) v"
  using assms by (auto simp: codes_def put_seq_Cons intro: reads_rd_bind)

lemma codes_last:
  assumes "codes e m a" and "codes (put_seq []) (k a) v"
  shows "codes e (rd_bind m k) v"
  using assms reads_rd_bind [of m a _ k v "[]"] by (auto simp: codes_def put_seq_Nil)

lemma codes_map: "codes e m a \<Longrightarrow> codes e (rd_bind m (\<lambda>v. rd_return (f v))) (f a)"
  by (rule codes_last, assumption, rule codes_done)

lemma codes_one: "codes x m v \<Longrightarrow> codes (put_seq [x]) m v"
  by (auto simp: codes_def put_seq_Cons put_seq_Nil)

lemma codes_try: "r = Ok a \<Longrightarrow> codes e (k a) v \<Longrightarrow> codes e (rd_try r k) v"
  by simp

lemma codes_else: "\<not> c \<Longrightarrow> codes e m v \<Longrightarrow> codes e (if c then n else m) v"
  by simp

lemma codes_then: "c \<Longrightarrow> codes e m v \<Longrightarrow> codes e (if c then m else n) v"
  by simp

section \<open>Primitive values\<close>

lemma reads_rd_bytes: "length w = n \<Longrightarrow> reads (rd_bytes n) w w"
  by (simp add: reads_def rd_bytes_def usize_add_def)

lemma reads_rd_map: "reads m a w \<Longrightarrow> v = f a \<Longrightarrow> reads (rd_bind m (\<lambda>a. rd_return (f a))) v w"
  using reads_rd_bind [OF _ reads_rd_return, of m a w] by simp

lemma codes_u8 [codes]: "codes (put_u8 v) rd_u8 v"
  unfolding codes_def put_u8_def rd_u8_def by (rule exI, rule conjI, rule refl, rule reads_rd_map, rule reads_rd_bytes) simp_all

lemma codes_u32 [codes]: "codes (put_u32 v) rd_u32 v"
  unfolding codes_def put_u32_def rd_u32_def by (rule exI, rule conjI, rule refl, rule reads_rd_map, rule reads_rd_bytes) simp_all

lemma codes_u64 [codes]: "codes (put_u64 v) rd_u64 v"
  unfolding codes_def put_u64_def rd_u64_def by (rule exI, rule conjI, rule refl, rule reads_rd_map, rule reads_rd_bytes) simp_all

lemma codes_bytes [codes]: "length bytes = n \<Longrightarrow> codes (put_raw bytes) (rd_bytes n) bytes"
  by (simp add: codes_def put_raw_def reads_rd_bytes)

text \<open>The range of \<open>i64\<close>.\<close>

definition in_i64 :: "int \<Rightarrow> bool" where
  "in_i64 v \<longleftrightarrow> - (2 ^ 63) \<le> v \<and> v < 2 ^ 63"

lemma le_bytes_word: "le_bytes n v = le_bytes n (v mod 256 ^ n)"
proof (induction n arbitrary: v)
  case (Suc n)
  have "v mod 256 ^ Suc n div 256 = v div 256 mod 256 ^ n"
    using div_exp_mod_exp_eq [of v 8 "8 * n"] by (simp add: power_mult [symmetric] zmod_zmult2_eq mult.commute)
  moreover have "(word_of_int (v mod 256 ^ Suc n) :: u8) = word_of_int v"
    by (simp add: word_of_int_eq_iff take_bit_eq_mod mod_mod_cancel)
  ultimately show ?case using Suc [of "v div 256"] Suc [of "v mod 256 ^ Suc n div 256"] by simp
qed simp

lemma i64_roundtrip:
  assumes "in_i64 v"
  shows "sint (u64_from_le (i64_to_le v)) = v"
proof -
  have "i64_to_le v = le_bytes 8 (v mod 2 ^ 64)" unfolding i64_to_le_def by (subst le_bytes_word) simp
  then have "u64_from_le (i64_to_le v) = word_of_int (v mod 2 ^ 64)" by (simp add: u64_from_le_def le_value_bytes)
  also have "\<dots> = word_of_int v" by (simp add: word_of_int_eq_iff take_bit_eq_mod)
  finally show ?thesis
    using assms by (simp add: signed_of_int in_i64_def signed_take_bit_int_eq_self)
qed

lemma codes_i64 [codes]: "in_i64 v \<Longrightarrow> codes (put_i64 v) rd_i64 v"
  unfolding codes_def put_i64_def rd_i64_def
  by (rule exI, rule conjI, rule refl, rule reads_rd_map, rule reads_rd_bytes) (simp_all add: i64_roundtrip, simp add: i64_to_le_def)

lemma codes_count:
  assumes "n < 2 ^ 32" and "codes (put_seq xs) (k (of_nat n :: u32)) v"
  shows "codes (put_seq (put_count n # xs)) (rd_bind rd_u32 k) v"
proof -
  have "codes (put_count n) rd_u32 (of_nat n)"
    using codes_u32 [of "of_nat n"] assms(1) by (simp add: put_count_def put_u32_def u32_try_from_def)
  then show ?thesis using assms(2) by (rule codes_step)
qed

lemma unat_count [simp]: "n < 4294967296 \<Longrightarrow> unat (of_nat n :: u32) = n"
  by (simp add: unat_of_nat)

lemma count_zero [simp]: "n < 4294967296 \<Longrightarrow> (of_nat n :: u32) = 0 \<longleftrightarrow> n = 0"
  using unat_count [of n] by (auto simp del: unat_count)

lemma codes_string [codes]:
  assumes "text_ok n s"
  shows "codes (put_string s) (rd_string n) s"
  unfolding put_string_def rd_string_def
  apply (rule codes_count)
  subgoal using assms by (simp add: text_ok_def)
  apply (rule codes_else)
  subgoal using assms by (simp add: text_ok_def)
  apply (rule codes_step [OF codes_bytes])
  using assms by (simp_all add: text_ok_def Let_def codes_done)

definition nonzero_ok :: "'k nonzero_id \<Rightarrow> bool" where
  "nonzero_ok i \<longleftrightarrow> nonzero_get i \<noteq> 0"

lemma codes_id [codes]: "nonzero_ok i \<Longrightarrow> codes (put_id i) (rd_id name) i"
  unfolding put_id_def rd_id_def
  by (rule codes_last [OF codes_u64]) (simp add: nonzero_new_def nonzero_ok_def codes_done)

definition timestamp_ok :: "'z turn_libs \<Rightarrow> usage_timestamp \<Rightarrow> bool" where
  "timestamp_ok libs v \<longleftrightarrow> tl_timestamp libs v \<and> in_i64 v"

lemma codes_timestamp [codes]: "timestamp_ok libs v \<Longrightarrow> codes (put_i64 v) (rd_timestamp libs) v"
  unfolding rd_timestamp_def timestamp_ok_def
  by (elim conjE, rule codes_last [OF codes_i64], assumption) (simp add: timestamp_from_unix_millis_def codes_done)

section \<open>Loops\<close>

lemma codes_loop:
  assumes "\<And>ys x zs. xs = ys @ x # zs \<Longrightarrow> codes (enc x) (f (foldl upd acc ys)) (upd (foldl upd acc ys) x)"
  shows "codes (put_seq (map enc xs)) (rd_loop (length xs) f acc) (foldl upd acc xs)"
  using assms
proof (induction xs arbitrary: acc)
  case Nil
  then show ?case by (simp add: codes_done)
next
  case (Cons x xs)
  have "codes (put_seq (map enc xs)) (rd_loop (length xs) f (upd acc x)) (foldl upd (upd acc x) xs)"
    using Cons.prems [of "x # _"] by (intro Cons.IH) simp
  with Cons.prems [of "[]" x xs] show ?case by (auto intro: codes_step)
qed

lemma codes_list [codes]:
  assumes "\<And>x. x \<in> set xs \<Longrightarrow> codes (enc x) m x" and "n = length xs"
  shows "codes (put_seq (map enc xs)) (rd_list n m) xs"
proof -
  have step: "codes (enc x) (rd_bind m (\<lambda>v. rd_return (vs @ [v]))) (vs @ [x])" if "x \<in> set xs" for vs x
    using codes_map [OF assms(1) [OF that], of "\<lambda>v. vs @ [v]"] .
  have "codes (put_seq (map enc xs)) (rd_loop (length xs) (\<lambda>vs. rd_bind m (\<lambda>v. rd_return (vs @ [v]))) []) (foldl (\<lambda>vs x. vs @ [x]) [] xs)"
    by (rule codes_loop) (simp add: foldl_snoc step)
  then show ?thesis by (simp add: rd_list_def foldl_snoc assms(2))
qed

section \<open>Optional values and tags\<close>

lemma codes_optional [codes]:
  assumes "\<And>x. v = Some x \<Longrightarrow> codes (put x) m x"
  shows "codes (put_optional put v) (rd_optional reason m) v"
proof (cases v)
  case None
  have "codes (put_u8 0) (rd_optional reason m) None"
    unfolding rd_optional_def by (rule codes_last [OF codes_u8]) (simp add: codes_done)
  then show ?thesis by (simp add: put_optional_def None)
next
  case (Some x)
  have "codes (put_seq [put_u8 1, put x]) (rd_optional reason m) (Some x)"
    unfolding rd_optional_def by (rule codes_step [OF codes_u8]) (simp add: codes_one codes_map assms Some)
  then show ?thesis by (simp add: put_optional_def Some)
qed

lemma codes_optional_u64 [codes]: "codes (put_optional_u64 v) rd_optional_u64 v"
  unfolding put_optional_u64_def rd_optional_u64_def by (intro codes)

lemma codes_optional_i64 [codes]: "(\<And>x. v = Some x \<Longrightarrow> in_i64 x) \<Longrightarrow> codes (put_optional_i64 v) rd_optional_i64 v"
  unfolding put_optional_i64_def rd_optional_i64_def by (intro codes) blast

definition opt_text_ok :: "usize \<Rightarrow> string option \<Rightarrow> bool" where
  "opt_text_ok n v \<longleftrightarrow> (\<forall>s. v = Some s \<longrightarrow> text_ok n s)"

lemma codes_optional_string [codes]: "opt_text_ok n v \<Longrightarrow> codes (put_optional_string v) (rd_optional_string n) v"
  unfolding put_optional_string_def rd_optional_string_def opt_text_ok_def by (intro codes) blast

lemma codes_agent [codes]: "ident_ok a \<Longrightarrow> codes (put_u64 (id_get a)) (rd_agent reason) a"
  unfolding rd_agent_def ident_ok_def id_valid_def
  by (rule codes_last [OF codes_u64]) (simp add: agent_from_stored_def codes_done)

lemma codes_optional_agent [codes]:
  "(\<And>a. v = Some a \<Longrightarrow> ident_ok a) \<Longrightarrow> codes (put_optional_agent v) rd_optional_agent v"
  unfolding put_optional_agent_def rd_optional_agent_def by (intro codes) blast

lemma decode_tags [simp]:
  "decode_provider_dialect (provider_dialect_tag d) = Ok d"
  "decode_attempt_outcome (attempt_outcome_tag a) = Ok a"
  "decode_unknown_reason (unknown_reason_tag r) = Ok r"
  "decode_usage_weekday (usage_weekday_tag day) = Ok day"
  "decode_config_source (config_source_tag s) = Ok s"
  "decode_price_source (source_tag p) RUNTIME_EVENT_SCHEMA = Ok p"
  by (cases d, simp_all add: decode_provider_dialect_def,
      cases a, simp_all add: decode_attempt_outcome_def,
      cases r, simp_all add: decode_unknown_reason_def,
      cases day, simp_all add: decode_usage_weekday_def,
      cases s, simp_all add: decode_config_source_def,
      cases p, simp_all add: decode_price_source_def RUNTIME_EVENT_SCHEMA_def)

lemma dialect_tag_nonzero [simp]: "provider_dialect_tag d \<noteq> 0"
  by (cases d) simp_all

lemma codes_dialect [codes]: "codes (put_u8 (provider_dialect_tag d)) rd_dialect d"
  unfolding rd_dialect_def by (rule codes_last [OF codes_u8]) (simp add: codes_done)

lemma codes_optional_dialect [codes]: "codes (put_optional_dialect d) rd_optional_dialect d"
  unfolding put_optional_dialect_def rd_optional_dialect_def
  by (rule codes_last [OF codes_u8]) (cases d; simp add: codes_done)

lemma codes_source [codes]: "codes (put_source s) rd_source s"
  unfolding put_source_def rd_source_def by (rule codes_last [OF codes_u8]) (simp add: codes_done)

end
