(* ===== verification/Turn_Wire_Laws.thy ===== *)
theory Turn_Wire_Laws
  imports Turn_Codec_Laws
begin

text \<open>
  The values that Turn events carry read back as they were written.  Each \<open>_ok\<close> predicate says what holds
  of a value that the code has built: its constructor returns it from its own parts, and its strings are
  UTF-8.
\<close>

section \<open>Usage windows\<close>

lemma u16_of_ucast [simp]: "u16_of_u32 (ucast m) = Some m"
proof -
  have "unat (ucast m :: u32) = unat m" by transfer (simp add: take_bit_eq_mod)
  moreover have "ucast (ucast m :: u32) = m" by transfer simp
  ultimately show ?thesis using unsigned_less [of m] by (simp add: u16_of_u32_def)
qed

lemma codes_minute [codes]: "codes (put_u32 (ucast m)) (rd_minute reason) m"
  unfolding rd_minute_def by (rule codes_last [OF codes_u32]) (simp add: codes_done)

lemma window_days_facts:
  "distinct (window_days w)" "fset_of_list (window_days w) = uw_days w" "length (window_days w) \<le> 7"
proof -
  show "distinct (window_days w)" by (simp add: window_days_def)
  show "fset_of_list (window_days w) = uw_days w"
  proof (rule fset_eqI)
    fix day
    show "day |\<in>| fset_of_list (window_days w) \<longleftrightarrow> day |\<in>| uw_days w"
      by (cases day) (simp_all add: window_days_def fset_of_list_elem)
  qed
  show "length (window_days w) \<le> 7"
    using length_filter_le [of "\<lambda>day. day |\<in>| uw_days w" "[Mon, Tue, Wed, Thu, Fri, Sat, Sun]"] by (simp only: window_days_def list.size)
qed

lemma codes_days:
  "codes (put_seq (map (\<lambda>day. put_u8 (usage_weekday_tag day)) (window_days w))) (rd_loop (length (window_days w)) rd_day {||}) (uw_days w)"
proof -
  have "codes (put_u8 (usage_weekday_tag day)) (rd_day (fset_of_list ys)) (finsert day (fset_of_list ys))"
    if split: "window_days w = ys @ day # zs" for ys day zs
  proof -
    have "day |\<notin>| fset_of_list ys" using window_days_facts(1) [of w] unfolding split by (simp add: fset_of_list_elem)
    then show ?thesis unfolding rd_day_def by (intro codes_last [OF codes_u8]) (simp add: codes_done)
  qed
  then have "codes (put_seq (map (\<lambda>day. put_u8 (usage_weekday_tag day)) (window_days w)))
      (rd_loop (length (window_days w)) rd_day {||}) (foldl (\<lambda>A x. finsert x A) {||} (window_days w))"
    by (intro codes_loop) (simp add: foldl_finsert)
  then show ?thesis by (simp add: foldl_finsert window_days_facts)
qed

lemma codes_timezone_source [codes]: "codes (put_u8 (usage_timezone_source_tag s)) rd_timezone_source s"
  unfolding rd_timezone_source_def by (rule codes_last [OF codes_u8]) (cases s; simp add: codes_done)

definition window_ok :: "'z turn_libs \<Rightarrow> usage_window \<Rightarrow> bool" where
  "window_ok libs w \<longleftrightarrow> from_resolved_parts (tl_tz libs) (uw_id w) (uw_start_minute w) (uw_end_minute w) (uw_days w)
      (uw_timezone w) (uw_timezone_source w) (uw_ruleset_version w) = Ok w
    \<and> text_ok MAX_PROVIDER_ID_BYTES (uw_id w) \<and> text_ok MAX_PROVIDER_ID_BYTES (uw_timezone w)
    \<and> text_ok MAX_PROVIDER_ID_BYTES (uw_ruleset_version w)"

lemma codes_usage_window [codes]:
  assumes "window_ok libs w"
  shows "codes (put_usage_window w) (rd_usage_window libs) w"
proof -
  from assms have built: "from_resolved_parts (tl_tz libs) (uw_id w) (uw_start_minute w) (uw_end_minute w) (uw_days w)
      (uw_timezone w) (uw_timezone_source w) (uw_ruleset_version w) = Ok w"
    and texts: "text_ok MAX_PROVIDER_ID_BYTES (uw_id w)" "text_ok MAX_PROVIDER_ID_BYTES (uw_timezone w)"
      "text_ok MAX_PROVIDER_ID_BYTES (uw_ruleset_version w)"
    by (simp_all add: window_ok_def)
  have "uw_days w \<noteq> {||}" using built by (auto simp: from_resolved_parts_def result_ok split: if_splits)
  then have n: "length (window_days w) \<noteq> 0" "length (window_days w) \<le> 7"
    using window_days_facts [of w] by auto
  then have count: "unat (of_nat (length (window_days w)) :: u32) = length (window_days w)" by simp
  show ?thesis
    unfolding put_usage_window_def rd_usage_window_def
    apply (rule codes_step [OF codes_string [OF texts(1)]])
    apply (rule codes_step [OF codes_minute])
    apply (rule codes_step [OF codes_minute])
    apply (rule codes_count)
    subgoal using n by simp
    apply (rule codes_else)
    subgoal using n by simp
    apply (simp only: count)
    apply (rule codes_step [OF codes_days])
    apply (rule codes_step [OF codes_string [OF texts(2)]])
    apply (rule codes_step [OF codes_timezone_source])
    apply (rule codes_step [OF codes_string [OF texts(3)]])
    by (simp add: built codes_done)
qed

section \<open>Prices\<close>

definition utf8_texts :: "string list \<Rightarrow> bool" where
  "utf8_texts ss \<longleftrightarrow> (\<forall>s \<in> set ss. utf8_valid s)"

definition price_ok :: "'z turn_libs \<Rightarrow> price_schedule \<Rightarrow> bool" where
  "price_ok libs s \<longleftrightarrow> price_schedule_new_trusted (price_schedule_definition.truncate s) = Ok s
     \<and> utf8_texts [ps_id s, ps_version s, ps_currency s, ps_provider_profile s, ps_model s, ps_source_ref s]
     \<and> (\<forall>t. ps_service_tier s = Some t \<longrightarrow> utf8_valid t)
     \<and> timestamp_ok libs (ps_effective_from s) \<and> (\<forall>t. ps_effective_until s = Some t \<longrightarrow> timestamp_ok libs t)"

lemma price_texts:
  assumes "price_ok libs s"
  shows "text_ok MAX_PROVIDER_ID_BYTES (ps_id s)" "text_ok MAX_CONFIG_STRING_BYTES (ps_version s)" "text_ok 3 (ps_currency s)"
    "text_ok MAX_CONFIG_STRING_BYTES (ps_provider_profile s)" "text_ok MAX_CONFIG_STRING_BYTES (ps_model s)"
    "text_ok MAX_CONFIG_STRING_BYTES (ps_source_ref s)" "opt_text_ok MAX_SERVICE_TIER_BYTES (ps_service_tier s)"
proof -
  have "price_schedule_new_trusted (price_schedule_definition.truncate s) = Ok s" using assms by (simp add: price_ok_def)
  then have "valid_id (ps_id s)" "length (ps_version s) \<le> 512" "length (ps_currency s) = 3" "valid_id (ps_provider_profile s)"
    "length (ps_model s) \<le> 512" "length (ps_source_ref s) \<le> 512" "\<forall>t. ps_service_tier s = Some t \<longrightarrow> length t \<le> 64"
    by (auto simp: price_schedule_new_trusted_def result_ok validate_id_def validate_text_def validate_currency_def
        validate_provider_profile_def validate_service_tier_def MAX_PRICE_TEXT_BYTES_def MAX_SERVICE_TIER_BYTES_def
        price_schedule_definition.truncate_def split: if_splits)
  then show "text_ok MAX_PROVIDER_ID_BYTES (ps_id s)" "text_ok MAX_CONFIG_STRING_BYTES (ps_version s)" "text_ok 3 (ps_currency s)"
    "text_ok MAX_CONFIG_STRING_BYTES (ps_provider_profile s)" "text_ok MAX_CONFIG_STRING_BYTES (ps_model s)"
    "text_ok MAX_CONFIG_STRING_BYTES (ps_source_ref s)" "opt_text_ok MAX_SERVICE_TIER_BYTES (ps_service_tier s)"
    using assms
    by (fastforce simp: price_ok_def utf8_texts_def text_ok_def opt_text_ok_def valid_id_def MAX_PRICE_ID_BYTES_def
        MAX_PROVIDER_ID_BYTES_def MAX_CONFIG_STRING_BYTES_def MAX_SERVICE_TIER_BYTES_def)+
qed

lemma transpose_timestamps:
  "(\<And>t. v = Some t \<Longrightarrow> timestamp_ok libs t) \<Longrightarrow> transpose (\<lambda>v. map_err RtUsage (timestamp_from_unix_millis libs v)) v = Ok v"
  by (cases v) (simp_all add: transpose_def timestamp_from_unix_millis_def timestamp_ok_def)

definition rate_parts :: "token_rates \<Rightarrow> encoded list" where
  "rate_parts r = [put_u64 (tk_input r), put_u64 (tk_cached_input r), put_u64 (tk_cache_write r), put_u64 (tk_output r),
     put_u64 (tk_reasoning_output r)]"

lemma codes_rates: "codes (put_seq (rate_parts r)) rd_token_rates r"
  unfolding rate_parts_def rd_token_rates_def
  by (rule codes_step [OF codes_u64])+ (cases r, simp add: codes_done)

lemma codes_price_definition:
  assumes "price_ok libs s"
  shows "codes (put_seq
      ([put_string (ps_id s), put_string (ps_version s), put_string (ps_currency s), put_string (ps_provider_profile s),
        put_string (ps_model s), put_optional_dialect (ps_dialect s), put_optional_string (ps_service_tier s),
        put_u64 (ps_minimum_context s), put_optional_u64 (ps_maximum_context s), put_i64 (ps_effective_from s),
        put_optional_i64 (ps_effective_until s), put_u8 (source_tag (ps_source s)), put_string (ps_source_ref s)]
       @ rate_parts (ps_rates s)))
    (rd_price_definition libs RUNTIME_EVENT_SCHEMA) (price_schedule_definition.truncate s)"
proof -
  note texts = price_texts [OF assms]
  have from_ok: "timestamp_ok libs (ps_effective_from s)" using assms by (simp add: price_ok_def)
  have until: "timestamp_ok libs t" if "ps_effective_until s = Some t" for t using assms that by (simp add: price_ok_def)
  then have until_i64: "in_i64 t" if "ps_effective_until s = Some t" for t using that by (simp add: timestamp_ok_def)
  show ?thesis
    unfolding rd_price_definition_def append_Cons append_Nil
    apply (rule codes_step [OF codes_string], fact texts)+
    apply (rule codes_step [OF codes_optional_dialect])
    apply (rule codes_step [OF codes_optional_string], fact texts)
    apply (rule codes_step [OF codes_u64])
    apply (rule codes_step [OF codes_optional_u64])
    apply (rule codes_step [OF codes_timestamp], fact from_ok)
    apply (rule codes_step [OF codes_optional_i64], erule until_i64)
    apply (rule codes_try, rule transpose_timestamps, erule until)
    apply (rule codes_step [OF codes_u8])
    apply (rule codes_try, rule decode_tags)
    apply (rule codes_step [OF codes_string], fact texts)
    apply (rule codes_last [OF codes_rates])
    by (simp add: price_schedule_definition.truncate_def codes_done)
qed

lemma codes_price_schedule [codes]:
  assumes "price_ok libs s"
  shows "codes (put_price_schedule s) (rd_price_schedule libs RUNTIME_EVENT_SCHEMA) s"
proof -
  have built: "price_schedule_new_trusted (price_schedule_definition.truncate s) = Ok s" using assms by (simp add: price_ok_def)
  show ?thesis
    unfolding put_price_schedule_def rd_price_schedule_def
    apply (rule codes_step [OF codes_u64])
    apply (rule codes_last [OF codes_price_definition [OF assms, unfolded append_Cons append_Nil rate_parts_def]])
    by (simp add: built codes_done)
qed

section \<open>Config epochs\<close>

lemma codes_setting:
  assumes "\<And>x. v = Some x \<Longrightarrow> codes (put (so_value x)) m (so_value x)"
  shows "codes (put_setting put v) (rd_setting reason m) (map_option (\<lambda>x. (so_value x, so_source x)) v)"
proof -
  let ?put = "\<lambda>(value', source). put_seq [put value', put_source source]"
  have "codes (put_optional ?put (map_option (\<lambda>x. (so_value x, so_source x)) v)) (rd_setting reason m)
      (map_option (\<lambda>x. (so_value x, so_source x)) v)"
    unfolding rd_setting_def
  proof (rule codes_optional)
    fix x
    assume "map_option (\<lambda>x. (so_value x, so_source x)) v = Some x"
    then obtain y where y: "v = Some y" "x = (so_value y, so_source y)" by auto
    show "codes (?put x) (rd_bind m (\<lambda>v. rd_bind rd_source (\<lambda>source. rd_return (v, source)))) x"
      unfolding y prod.case by (rule codes_step [OF assms [OF y(1)]], rule codes_step [OF codes_source], rule codes_done)
  qed
  moreover have "put_optional ?put (map_option (\<lambda>x. (so_value x, so_source x)) v) = put_setting put v"
    by (cases v) (simp_all add: put_optional_def put_setting_def)
  ultimately show ?thesis by simp
qed

lemma codes_parsed:
  assumes "text_ok MAX_CONFIG_STRING_BYTES (as_str v)" and "parse (as_str v) = Some v"
  shows "codes (put_string (as_str v)) (rd_parsed reason parse) v"
  unfolding rd_parsed_def by (rule codes_last [OF codes_string [OF assms(1)]]) (simp add: assms(2) codes_done)

lemma names_ok [simp]:
  "text_ok MAX_CONFIG_STRING_BYTES (effort_as_str e)" "text_ok MAX_CONFIG_STRING_BYTES (tier_as_str t)"
  "text_ok MAX_CONFIG_STRING_BYTES (mode_as_str m)"
proof -
  have "list_all is_ascii (effort_as_str e)" by (cases e) (simp_all add: is_ascii_def less_eq_char_def)
  from ascii_utf8 [OF this] show "text_ok MAX_CONFIG_STRING_BYTES (effort_as_str e)"
    by (cases e) (simp_all add: text_ok_def MAX_CONFIG_STRING_BYTES_def)
  have "list_all is_ascii (tier_as_str t)" by (cases t) (simp_all add: is_ascii_def less_eq_char_def)
  from ascii_utf8 [OF this] show "text_ok MAX_CONFIG_STRING_BYTES (tier_as_str t)"
    by (cases t) (simp_all add: text_ok_def MAX_CONFIG_STRING_BYTES_def)
  have "list_all is_ascii (mode_as_str m)" by (cases m) (simp_all add: is_ascii_def less_eq_char_def)
  from ascii_utf8 [OF this] show "text_ok MAX_CONFIG_STRING_BYTES (mode_as_str m)"
    by (cases m) (simp_all add: text_ok_def MAX_CONFIG_STRING_BYTES_def)
qed

text \<open>The layers that a decoded epoch is frozen from again: each setting in the layer it came from.\<close>

lemma layer_of_mut: "layer_of t (layer_mut s f l) = (if t = s then f (layer_of s l) else layer_of t l)"
  by (cases t; cases s) simp_all

abbreviation pair_of :: "'a sourced \<Rightarrow> 'a \<times> config_source" where
  "pair_of v \<equiv> (so_value v, so_source v)"

definition stored_in :: "config_source \<Rightarrow> 'a sourced \<Rightarrow> 'a option" where
  "stored_in t v = (if t = so_source v then Some (so_value v) else None)"

text \<open>A setting that an update leaves alone, and the one it makes.\<close>

lemma setting_kept:
  "(\<And>l. f (g l) = f l) \<Longrightarrow> f (layer_of t (layer_mut s g l)) = f (layer_of t l)"
  "(\<And>x l. f (upd x l) = f l) \<Longrightarrow> f (layer_of t (set_setting upd v l)) = f (layer_of t l)"
  by (simp_all add: layer_of_mut set_setting_def split: option.split)

lemma setting_made:
  "(\<And>l. f (g l) = Some x) \<Longrightarrow> f (layer_of t (layer_mut s g l)) = (if t = s then Some x else f (layer_of t l))"
  "(\<And>x l. f (upd x l) = Some x) \<Longrightarrow> f (layer_of t (set_setting upd (Some (x, s)) l)) = (if t = s then Some x else f (layer_of t l))"
  by (simp_all add: layer_of_mut set_setting_def)

lemma setting_made_optional:
  "(\<And>x l. f (upd x l) = Some x) \<Longrightarrow> f (layer_of t (set_setting upd (map_option pair_of v) l))
     = (case Option.bind v (stored_in t) of None \<Rightarrow> f (layer_of t l) | Some x \<Rightarrow> Some x)"
  by (cases v) (simp_all add: setting_made stored_in_def, simp add: set_setting_def)

lemma layer_of_decoded [simp]:
  "layer_of t decoded_layers = config_layer_default\<lparr>cl_context_mode := if t = BuiltIn then Some ModeCanonical else None\<rparr>"
  by (cases t) (simp_all add: decoded_layers_def config_layer_default_def)

definition stored_layers :: "resolved_config \<Rightarrow> config_layers" where
  "stored_layers c =
     set_setting (\<lambda>v l. l\<lparr>cl_context_mode := Some v\<rparr>) (Some (pair_of (rc_context_mode c)))
       (set_setting (\<lambda>v l. l\<lparr>cl_service_tier := Some v\<rparr>) (map_option pair_of (rc_service_tier c))
         (set_setting (\<lambda>v l. l\<lparr>cl_reasoning_effort := Some v\<rparr>) (map_option pair_of (rc_reasoning_effort c))
           (set_setting (\<lambda>v l. l\<lparr>cl_max_output_tokens := Some v\<rparr>) (map_option pair_of (rc_max_output_tokens c))
             (layer_mut (so_source (rc_max_output_bytes c)) (\<lambda>l. l\<lparr>cl_max_output_bytes := Some (so_value (rc_max_output_bytes c))\<rparr>)
               (layer_mut (so_source (rc_provider_model c)) (\<lambda>l. l\<lparr>cl_provider_model := Some (so_value (rc_provider_model c))\<rparr>)
                 (layer_mut (so_source (rc_provider_profile c)) (\<lambda>l. l\<lparr>cl_provider_profile := Some (so_value (rc_provider_profile c))\<rparr>)
                   decoded_layers))))))"

lemma stored_settings:
  "cl_provider_profile (layer_of t (stored_layers c)) = stored_in t (rc_provider_profile c)"
  "cl_provider_model (layer_of t (stored_layers c)) = stored_in t (rc_provider_model c)"
  "cl_max_output_bytes (layer_of t (stored_layers c)) = stored_in t (rc_max_output_bytes c)"
  "cl_max_output_tokens (layer_of t (stored_layers c)) = Option.bind (rc_max_output_tokens c) (stored_in t)"
  "cl_reasoning_effort (layer_of t (stored_layers c)) = Option.bind (rc_reasoning_effort c) (stored_in t)"
  "cl_service_tier (layer_of t (stored_layers c)) = Option.bind (rc_service_tier c) (stored_in t)"
  "t \<noteq> BuiltIn \<Longrightarrow> cl_context_mode (layer_of t (stored_layers c)) = stored_in t (rc_context_mode c)"
  "cl_context_mode (layer_of (so_source (rc_context_mode c)) (stored_layers c)) = Some (so_value (rc_context_mode c))"
  unfolding stored_layers_def
  by (simp_all add: setting_kept setting_made setting_made_optional config_layer_default_def stored_in_def split: option.split)

lemma resolve_stored:
  assumes "f (layer_of (so_source v) l) = Some (so_value v)"
    and "\<And>t. t \<noteq> so_source v \<Longrightarrow> t \<noteq> BuiltIn \<Longrightarrow> f (layer_of t l) = None"
  shows "resolve_optional (layer_values f l) = Some v"
  using assms(1) assms(2) [of User] assms(2) [of Project] assms(2) [of Cli]
  unfolding resolve_optional_Some wins_def by (cases "so_source v") simp_all

lemma resolve_stored_optional:
  assumes "\<And>t. f (layer_of t l) = Option.bind v (stored_in t)"
  shows "resolve_optional (layer_values f l) = v"
proof (cases v)
  case None
  then show ?thesis
    using assms [of BuiltIn] assms [of User] assms [of Project] assms [of Cli] by (simp add: resolve_optional_None)
next
  case (Some x)
  then show ?thesis using assms by (simp add: resolve_stored stored_in_def)
qed

lemma validate_layer_iff [result_ok]:
  "validate_layer l = Ok u \<longleftrightarrow> validate_layer_string ''provider.profile'' (cl_provider_profile l) = Ok ()
     \<and> validate_layer_string ''provider.model'' (cl_provider_model l) = Ok ()
     \<and> (\<forall>n. cl_max_output_bytes l = Some n \<longrightarrow> n \<noteq> 0 \<and> n \<le> CONFIG_MAX_OUTPUT_BYTES)
     \<and> (\<forall>n. cl_max_output_tokens l = Some n \<longrightarrow> n \<noteq> 0 \<and> n \<le> MAX_OUTPUT_TOKENS)"
  by (cases "cl_max_output_bytes l"; cases "cl_max_output_tokens l"; cases "validate_layer_string ''provider.profile'' (cl_provider_profile l)";
      cases "validate_layer_string ''provider.model'' (cl_provider_model l)") (simp_all add: validate_layer_def flip: not_less)

definition resolves :: "config_layers \<Rightarrow> resolved_config \<Rightarrow> bool" where
  "resolves l c \<longleftrightarrow> wins cl_provider_profile l (rc_provider_profile c) \<and> wins cl_provider_model l (rc_provider_model c)
     \<and> wins cl_max_output_bytes l (rc_max_output_bytes c) \<and> wins cl_context_mode l (rc_context_mode c)
     \<and> resolve_optional (layer_values cl_max_output_tokens l) = rc_max_output_tokens c
     \<and> resolve_optional (layer_values cl_reasoning_effort l) = rc_reasoning_effort c
     \<and> resolve_optional (layer_values cl_service_tier l) = rc_service_tier c"

lemma layers_resolveD:
  assumes "layers_resolve l = Ok c"
  shows "validate_layer (layer_of t l) = Ok ()" and "resolves l c"
proof -
  show "validate_layer (layer_of t l) = Ok ()"
    using assms by (cases t) (auto simp: layers_resolve_def andthen_eq_Ok)
  show "resolves l c"
    using assms by (auto simp: layers_resolve_def resolves_def Let_def andthen_eq_Ok resolve_required_Ok if_Err_eq_Ok)
qed

lemma layers_resolveI:
  assumes valid: "\<And>t. validate_layer (layer_of t l) = Ok ()" and res: "resolves l c"
  shows "layers_resolve l = Ok c"
proof -
  have layers: "validate_layer (ly_built_in l) = Ok ()" "validate_layer (ly_user l) = Ok ()" "validate_layer (ly_project l) = Ok ()"
    "validate_layer (ly_cli l) = Ok ()"
    using valid [of BuiltIn] valid [of User] valid [of Project] valid [of Cli] by simp_all
  have required: "resolve_required key (layer_values cl_provider_profile l) = Ok (rc_provider_profile c)"
    "resolve_required key (layer_values cl_provider_model l) = Ok (rc_provider_model c)"
    "resolve_required key (layer_values cl_max_output_bytes l) = Ok (rc_max_output_bytes c)"
    "resolve_required key (layer_values cl_context_mode l) = Ok (rc_context_mode c)" for key
    using res by (simp_all add: resolves_def resolve_required_Ok)
  have bytes: "so_value (rc_max_output_bytes c) \<noteq> 0" "so_value (rc_max_output_bytes c) \<le> CONFIG_MAX_OUTPUT_BYTES"
    using res valid [of "so_source (rc_max_output_bytes c)"] by (simp_all add: resolves_def wins_def validate_layer_iff)
  have tokens: "so_value v \<noteq> 0 \<and> so_value v \<le> MAX_OUTPUT_TOKENS" if "rc_max_output_tokens c = Some v" for v
    using res valid [of "so_source v"] that by (simp add: resolves_def resolve_optional_Some wins_def validate_layer_iff)
  show ?thesis
    using res bytes tokens unfolding layers_resolve_def resolves_def
    by (cases c; cases "rc_max_output_tokens c") (simp_all add: layers required not_less Let_def)
qed

lemma stored_values:
  assumes "resolves l c"
  shows "stored_in t (rc_provider_profile c) = Some x \<Longrightarrow> cl_provider_profile (layer_of t l) = Some x"
    and "stored_in t (rc_provider_model c) = Some x \<Longrightarrow> cl_provider_model (layer_of t l) = Some x"
    and "stored_in t (rc_max_output_bytes c) = Some n \<Longrightarrow> cl_max_output_bytes (layer_of t l) = Some n"
    and "Option.bind (rc_max_output_tokens c) (stored_in t) = Some n \<Longrightarrow> cl_max_output_tokens (layer_of t l) = Some n"
  using assms
  by (auto simp: resolves_def wins_def stored_in_def resolve_optional_Some split: if_splits bind_splits)

lemma stored_layers_resolve:
  assumes "layers_resolve l = Ok c"
  shows "layers_resolve (stored_layers c) = Ok c"
proof (rule layers_resolveI)
  have res: "resolves l c" and valid: "validate_layer (layer_of t l) = Ok ()" for t
    using layers_resolveD [OF assms] by blast+
  have absent: "validate_layer_string key None = Ok ()" for key by (simp add: validate_layer_string_def)
  show "validate_layer (layer_of t (stored_layers c)) = Ok ()" for t
    unfolding validate_layer_iff stored_settings
    using valid [of t, unfolded validate_layer_iff] stored_values [OF res, of t] absent
    by (cases "stored_in t (rc_provider_profile c)"; cases "stored_in t (rc_provider_model c)") simp_all
  show "resolves (stored_layers c) c"
    unfolding resolves_def resolve_optional_Some [symmetric]
    by (intro conjI resolve_stored resolve_stored_optional) (simp_all add: stored_settings stored_in_def)
qed

definition config_ok :: "'z turn_libs \<Rightarrow> config_epoch \<Rightarrow> bool" where
  "config_ok libs cf \<longleftrightarrow> nonzero_ok (cf_id cf)
     \<and> (\<exists>layers ws schedules book. price_schedule_book_new schedules = Ok book
          \<and> freeze_with_observability (cf_id cf) layers ws book = Ok cf)
     \<and> (\<forall>w \<in> set (cf_usage_windows cf). window_ok libs w)
     \<and> (\<forall>s \<in> set (pb_schedules (cf_price_schedules cf)). price_ok libs s)
     \<and> utf8_texts [so_value (rc_provider_profile (cf_resolved cf)), so_value (rc_provider_model (cf_resolved cf))]"

lemma book_again:
  assumes "price_schedule_book_new schedules = Ok book"
  shows "price_schedule_book_new (pb_schedules book) = Ok book" and "length (pb_schedules book) \<le> MAX_PRICE_SCHEDULES"
proof -
  from assms have book: "book = \<lparr>pb_schedules = sort_key ps_id schedules\<rparr>" and n: "length schedules \<le> MAX_PRICE_SCHEDULES"
    by (auto simp: price_schedule_book_new_def Let_def split: if_splits)
  have "sort_key ps_id (sort_key ps_id schedules) = sort_key ps_id schedules" by (rule sort_key_id_if_sorted) simp
  then show "price_schedule_book_new (pb_schedules book) = Ok book"
    using assms n by (simp add: price_schedule_book_new_def book Let_def split: if_splits)
  show "length (pb_schedules book) \<le> MAX_PRICE_SCHEDULES" using n by (simp add: book)
qed

lemma freeze_again:
  assumes "freeze_with_observability i layers ws book = Ok cf"
  shows "freeze_with_observability i (stored_layers (cf_resolved cf)) (cf_usage_windows cf) book = Ok cf"
    and "cf_price_schedules cf = book" and "length (cf_usage_windows cf) \<le> MAX_USAGE_WINDOWS"
    and "layers_resolve layers = Ok (cf_resolved cf)"
proof -
  from assms obtain c where c: "layers_resolve layers = Ok c" and n: "length ws \<le> MAX_USAGE_WINDOWS"
    and distinct: "\<not> adjacent_windows_equal (sort_key uw_id ws)"
    and cf: "cf = \<lparr>cf_id = i, cf_fingerprint = config_fingerprint c (sort_key uw_id ws) book, cf_resolved = c,
      cf_usage_windows = sort_key uw_id ws, cf_price_schedules = book\<rparr>"
    by (auto simp: freeze_with_observability_def andthen_eq_Ok Let_def split: if_splits)
  have "sort_key uw_id (sort_key uw_id ws) = sort_key uw_id ws" by (rule sort_key_id_if_sorted) simp
  with stored_layers_resolve [OF c] n distinct
  show "freeze_with_observability i (stored_layers (cf_resolved cf)) (cf_usage_windows cf) book = Ok cf"
    by (simp add: freeze_with_observability_def cf Let_def)
  show "cf_price_schedules cf = book" "length (cf_usage_windows cf) \<le> MAX_USAGE_WINDOWS"
    "layers_resolve layers = Ok (cf_resolved cf)" using n c by (simp_all add: cf)
qed

definition later_parts :: "resolved_config \<Rightarrow> encoded list" where
  "later_parts c =
     [put_setting put_u32 (rc_max_output_tokens c), put_setting (\<lambda>v. put_string (effort_as_str v)) (rc_reasoning_effort c),
      put_setting (\<lambda>v. put_string (tier_as_str v)) (rc_service_tier c),
      put_string (mode_as_str (so_value (rc_context_mode c))), put_source (so_source (rc_context_mode c))]"

lemma codes_later_settings:
  "codes (put_seq (later_parts c)) (rd_later_settings RUNTIME_EVENT_SCHEMA
     (layer_mut (so_source (rc_max_output_bytes c)) (\<lambda>l. l\<lparr>cl_max_output_bytes := Some (so_value (rc_max_output_bytes c))\<rparr>)
       (layer_mut (so_source (rc_provider_model c)) (\<lambda>l. l\<lparr>cl_provider_model := Some (so_value (rc_provider_model c))\<rparr>)
         (layer_mut (so_source (rc_provider_profile c)) (\<lambda>l. l\<lparr>cl_provider_profile := Some (so_value (rc_provider_profile c))\<rparr>)
           decoded_layers)))) (stored_layers c)"
proof -
  have mode: "codes (put_seq [put_string (mode_as_str (so_value v)), put_source (so_source v)])
      (rd_bind (rd_parsed reason mode_parse) (\<lambda>v. rd_bind rd_source (\<lambda>source. rd_return (Some (v, source)))))
      (Some (pair_of v))" for reason and v :: "context_mode sourced"
    by (rule codes_step [OF codes_parsed [of mode_as_str]], simp, simp, rule codes_step [OF codes_source], rule codes_done)
  show ?thesis
    unfolding later_parts_def rd_later_settings_def RUNTIME_EVENT_SCHEMA_def
    apply (simp only: schema_current.simps schema_version.sel)
    apply (simp cong: if_cong)
    apply (rule codes_step [OF codes_setting [OF codes_u32]])
    apply (rule codes_step [OF codes_setting [OF codes_parsed [of effort_as_str]]], simp, simp)
    apply (rule codes_step [OF codes_setting [OF codes_parsed [of tier_as_str]]], simp, simp)
    apply (rule codes_last [OF mode])
    by (simp add: stored_layers_def codes_done)
qed

lemma setting_texts:
  assumes "layers_resolve l = Ok c"
    and "utf8_texts [so_value (rc_provider_profile c), so_value (rc_provider_model c)]"
  shows "text_ok MAX_BLOCK_REASON_BYTES (so_value (rc_provider_profile c))"
    and "text_ok MAX_BLOCK_REASON_BYTES (so_value (rc_provider_model c))"
proof -
  have short: "validate_layer_string key (Some v) = Ok () \<Longrightarrow> length v \<le> 512" for key v
    by (auto simp: validate_layer_string_def MAX_CONFIG_STRING_BYTES_def split: if_splits)
  have "resolves l c" by (rule layers_resolveD [OF assms(1)])
  then have "cl_provider_profile (layer_of (so_source (rc_provider_profile c)) l) = Some (so_value (rc_provider_profile c))"
    "cl_provider_model (layer_of (so_source (rc_provider_model c)) l) = Some (so_value (rc_provider_model c))"
    by (simp_all add: resolves_def wins_def)
  with layers_resolveD(1) [OF assms(1), unfolded validate_layer_iff]
  have "length (so_value (rc_provider_profile c)) \<le> 512" "length (so_value (rc_provider_model c)) \<le> 512"
    by (metis short)+
  then show "text_ok MAX_BLOCK_REASON_BYTES (so_value (rc_provider_profile c))"
    "text_ok MAX_BLOCK_REASON_BYTES (so_value (rc_provider_model c))"
    using assms(2) by (simp_all add: text_ok_def utf8_texts_def MAX_BLOCK_REASON_BYTES_def)
qed

lemma codes_usage_windows:
  assumes "length ws \<le> MAX_USAGE_WINDOWS" and "\<forall>w \<in> set ws. window_ok libs w"
  shows "codes (put_seq [put_count (length ws), put_seq (map put_usage_window ws)]) (rd_usage_windows libs RUNTIME_EVENT_SCHEMA) ws"
proof -
  have count: "unat (of_nat (length ws) :: u32) = length ws" using assms(1) by (simp add: MAX_USAGE_WINDOWS_def)
  show ?thesis
    unfolding rd_usage_windows_def
    apply (rule codes_then, simp add: RUNTIME_EVENT_SCHEMA_def)
    apply (rule codes_count)
    subgoal using assms(1) by (simp add: MAX_USAGE_WINDOWS_def)
    apply (rule codes_else)
    subgoal using assms(1) by (simp add: count)
    using assms(2) by (auto simp: count intro!: codes_one codes)
qed

lemma codes_price_schedules:
  assumes "price_schedule_book_new schedules = Ok book" and "\<forall>s \<in> set (pb_schedules book). price_ok libs s"
  shows "codes (put_seq [put_count (length (pb_schedules book)), put_seq (map put_price_schedule (pb_schedules book))])
    (rd_price_schedules libs RUNTIME_EVENT_SCHEMA) book"
proof -
  note again = book_again [OF assms(1)]
  have count: "unat (of_nat (length (pb_schedules book)) :: u32) = length (pb_schedules book)"
    using again(2) by (simp add: MAX_PRICE_SCHEDULES_def)
  have list: "codes (put_seq (map put_price_schedule (pb_schedules book)))
      (rd_list (length (pb_schedules book)) (rd_price_schedule libs RUNTIME_EVENT_SCHEMA)) (pb_schedules book)"
    using assms(2) by (intro codes) auto
  show ?thesis
    unfolding rd_price_schedules_def
    apply (rule codes_then, simp add: RUNTIME_EVENT_SCHEMA_def)
    apply (rule codes_count)
    subgoal using again(2) by (simp add: MAX_PRICE_SCHEDULES_def)
    apply (rule codes_else)
    subgoal using again(2) by (simp add: count)
    unfolding count
    apply (rule codes_step [OF list])
    by (simp add: again codes_done)
qed

lemma codes_config_epoch [codes]:
  assumes "config_ok libs cf"
  shows "codes (put_config_epoch cf) (rd_config_epoch libs RUNTIME_EVENT_SCHEMA) cf"
proof -
  from assms obtain layers ws schedules book where i: "nonzero_ok (cf_id cf)" and book: "price_schedule_book_new schedules = Ok book"
    and freeze: "freeze_with_observability (cf_id cf) layers ws book = Ok cf"
    and parts: "\<forall>w \<in> set (cf_usage_windows cf). window_ok libs w" "\<forall>s \<in> set (pb_schedules (cf_price_schedules cf)). price_ok libs s"
    and utf8: "utf8_texts [so_value (rc_provider_profile (cf_resolved cf)), so_value (rc_provider_model (cf_resolved cf))]"
    by (auto simp: config_ok_def)
  note again = freeze_again [OF freeze]
  note texts = setting_texts [OF again(4) utf8]
  let ?ws = "cf_usage_windows cf" and ?ps = "pb_schedules book" and ?c = "cf_resolved cf"
  have parts_eq: "put_config_epoch cf = put_seq
      ([put_id (cf_id cf), put_u64 (cf_fingerprint cf), put_string (so_value (rc_provider_profile ?c)),
        put_source (so_source (rc_provider_profile ?c)), put_string (so_value (rc_provider_model ?c)),
        put_source (so_source (rc_provider_model ?c)), put_u32 (so_value (rc_max_output_bytes ?c)),
        put_source (so_source (rc_max_output_bytes ?c))]
       @ [put_count (length ?ws), put_seq (map put_usage_window ?ws)]
       @ [put_count (length ?ps), put_seq (map put_price_schedule ?ps)] @ later_parts ?c)"
    by (simp add: put_config_epoch_def later_parts_def Let_def again(2))
  show ?thesis
    unfolding parts_eq rd_config_epoch_def append_Cons append_Nil Let_def
    apply (rule codes_step [OF codes_id [OF i]])
    apply (rule codes_step [OF codes_u64])
    apply (rule codes_step [OF codes_string [OF texts(1)]])
    apply (rule codes_step [OF codes_source])
    apply (rule codes_step [OF codes_string [OF texts(2)]])
    apply (rule codes_step [OF codes_source])
    apply (rule codes_step [OF codes_u32])
    apply (rule codes_step [OF codes_source])
    apply (rule codes_seq [OF codes_usage_windows [OF again(3) parts(1)], unfolded append_Cons append_Nil])
    apply (rule codes_seq [OF codes_price_schedules [OF book parts(2) [unfolded again(2)]], unfolded append_Cons append_Nil])
    apply (rule codes_last [OF codes_later_settings])
    by (simp add: again codes_done)
qed

section \<open>Provider epochs\<close>

lemma dialect_list_facts:
  "distinct (dialect_list ds)" "fset_of_list (dialect_list ds) = ds" "length (dialect_list ds) \<le> 3"
proof -
  show "distinct (dialect_list ds)" by (simp add: dialect_list_def)
  show "fset_of_list (dialect_list ds) = ds"
  proof (rule fset_eqI)
    fix d
    show "d |\<in>| fset_of_list (dialect_list ds) \<longleftrightarrow> d |\<in>| ds"
      by (cases d) (simp_all add: dialect_list_def fset_of_list_elem)
  qed
  show "length (dialect_list ds) \<le> 3"
    using length_filter_le [of "\<lambda>d. d |\<in>| ds" "[Responses, ChatCompletions, Messages]"] by (simp only: dialect_list_def list.size)
qed

lemma codes_dialects:
  "codes (put_seq (map (\<lambda>d. put_u8 (provider_dialect_tag d)) (dialect_list ds)))
     (rd_loop (length (dialect_list ds)) rd_new_dialect []) (dialect_list ds)"
proof -
  have "codes (put_u8 (provider_dialect_tag d)) (rd_new_dialect ys) (ys @ [d])" if split: "dialect_list ds = ys @ d # zs" for ys d zs
  proof -
    have "d \<notin> set ys" using dialect_list_facts(1) [of ds] unfolding split by simp
    then show ?thesis unfolding rd_new_dialect_def by (intro codes_last [OF codes_dialect]) (simp add: codes_done)
  qed
  then have "codes (put_seq (map (\<lambda>d. put_u8 (provider_dialect_tag d)) (dialect_list ds)))
     (rd_loop (length (dialect_list ds)) rd_new_dialect []) (foldl (\<lambda>vs x. vs @ [x]) [] (dialect_list ds))"
    by (intro codes_loop) (simp add: foldl_snoc)
  then show ?thesis by (simp add: foldl_snoc)
qed

lemma codes_flag [codes]: "codes (put_u8 (if b then 1 else 0)) (rd_flag reason) b"
  unfolding rd_flag_def by (rule codes_last [OF codes_u8]) (simp add: codes_done)

definition profile_ok :: "'z turn_libs \<Rightarrow> provider_profile_snapshot \<Rightarrow> bool" where
  "profile_ok libs s \<longleftrightarrow> profile_snapshot_from_parts (tl_url libs) (pf_profile s) (pf_template s) (pf_credential_reference s)
       (pf_base_url s) (pf_responses_route s) (pf_chat_completions_route s) (pf_messages_route s) (pf_models_route s)
       (dialect_list (pf_dialects s)) (pf_pricing_source s) (pf_allow_insecure_loopback s) = Ok s
     \<and> text_ok MAX_PROVIDER_ID_BYTES (pf_template s)
     \<and> (\<forall>v \<in> {pf_credential_reference s, pf_base_url s, pf_responses_route s, pf_chat_completions_route s,
          pf_messages_route s, pf_models_route s}. opt_text_ok MAX_PROVIDER_ID_BYTES v)"

lemma codes_profile_snapshot:
  assumes "profile_ok libs s"
  shows "codes (put_profile_snapshot s) (rd_profile_snapshot libs (pf_profile s) RUNTIME_EVENT_SCHEMA) s"
proof -
  from assms have built: "profile_snapshot_from_parts (tl_url libs) (pf_profile s) (pf_template s) (pf_credential_reference s)
       (pf_base_url s) (pf_responses_route s) (pf_chat_completions_route s) (pf_messages_route s) (pf_models_route s)
       (dialect_list (pf_dialects s)) (pf_pricing_source s) (pf_allow_insecure_loopback s) = Ok s"
    and template: "text_ok MAX_PROVIDER_ID_BYTES (pf_template s)"
    and texts: "opt_text_ok MAX_PROVIDER_ID_BYTES (pf_credential_reference s)" "opt_text_ok MAX_PROVIDER_ID_BYTES (pf_base_url s)"
      "opt_text_ok MAX_PROVIDER_ID_BYTES (pf_responses_route s)" "opt_text_ok MAX_PROVIDER_ID_BYTES (pf_chat_completions_route s)"
      "opt_text_ok MAX_PROVIDER_ID_BYTES (pf_messages_route s)" "opt_text_ok MAX_PROVIDER_ID_BYTES (pf_models_route s)"
    by (simp_all add: profile_ok_def)
  have "dialect_list (pf_dialects s) \<noteq> []"
    using built by (auto simp: profile_snapshot_from_parts_def andthen_eq_Ok Let_def split: if_splits)
  then have n: "length (dialect_list (pf_dialects s)) \<noteq> 0" "length (dialect_list (pf_dialects s)) \<le> 3"
    using dialect_list_facts(3) [of "pf_dialects s"] by auto
  then have count: "unat (of_nat (length (dialect_list (pf_dialects s))) :: u32) = length (dialect_list (pf_dialects s))" by simp
  have pricing: "decode_pricing_source (case pf_pricing_source s of None \<Rightarrow> 0 | Some p \<Rightarrow> pricing_source_tag p) RUNTIME_EVENT_SCHEMA
      = Ok (pf_pricing_source s)"
    by (cases "pf_pricing_source s"; cases "the (pf_pricing_source s)") (auto simp: decode_pricing_source_def RUNTIME_EVENT_SCHEMA_def)
  show ?thesis
    unfolding put_profile_snapshot_def rd_profile_snapshot_def profile_route.simps
    apply (rule codes_step [OF codes_u64])
    apply (rule codes_step [OF codes_string [OF template]])
    apply (rule codes_step [OF codes_optional_string], fact texts)+
    apply (rule codes_count)
    subgoal using n by simp
    apply (rule codes_else)
    subgoal using n by simp
    unfolding count
    apply (rule codes_step [OF codes_dialects])
    apply (rule codes_step [OF codes_u8])
    apply (rule codes_try [OF pricing])
    apply (rule codes_step [OF codes_flag])
    by (simp add: built codes_done)
qed

definition provider_ok :: "'z turn_libs \<Rightarrow> provider_epoch \<Rightarrow> bool" where
  "provider_ok libs e \<longleftrightarrow> nonzero_ok (pe_id e)
     \<and> provider_epoch_of (pe_id e) (pe_profile e) (pe_model e) (pe_snapshot e) (pe_dialect e) = Ok e
     \<and> (\<forall>s. pe_snapshot e = Some s \<longrightarrow> profile_ok libs s)
     \<and> text_ok MAX_PROVIDER_ID_BYTES (pe_profile e) \<and> text_ok MAX_PROVIDER_ID_BYTES (pe_model e)"

lemma codes_provider_epoch [codes]:
  assumes "provider_ok libs e"
  shows "codes (put_provider_epoch e) (rd_provider_epoch libs RUNTIME_EVENT_SCHEMA) e"
proof -
  from assms have built: "provider_epoch_of (pe_id e) (pe_profile e) (pe_model e) (pe_snapshot e) (pe_dialect e) = Ok e"
    and i: "nonzero_ok (pe_id e)" and snap: "\<And>s. pe_snapshot e = Some s \<Longrightarrow> profile_ok libs s"
    and texts: "text_ok MAX_PROVIDER_ID_BYTES (pe_profile e)" "text_ok MAX_PROVIDER_ID_BYTES (pe_model e)"
    by (simp_all add: provider_ok_def)
  have same: "pf_profile s = pe_profile e" if "pe_snapshot e = Some s" for s
    using built that by (auto simp: provider_epoch_of_def epoch_with_snapshot_and_dialect_def andthen_eq_Ok split: if_splits)
  have inner: "codes (put_profile_snapshot s) (rd_profile_snapshot libs (pe_profile e) RUNTIME_EVENT_SCHEMA) s"
    if "pe_snapshot e = Some s" for s
    using codes_profile_snapshot [OF snap [OF that]] by (simp add: same [OF that])
  show ?thesis
    unfolding put_provider_epoch_def rd_provider_epoch_def
    apply (rule codes_step [OF codes_id [OF i]])
    apply (rule codes_else, simp add: RUNTIME_EVENT_SCHEMA_def)
    apply (rule codes_step [OF codes_u64])
    apply (rule codes_step [OF codes_string [OF texts(1)]])
    apply (rule codes_step [OF codes_string [OF texts(2)]])
    apply (rule codes_step [OF codes_optional], erule inner)
    apply (rule codes_step [OF codes_then [OF _ codes_optional_dialect]], simp add: RUNTIME_EVENT_SCHEMA_def)
    by (simp add: built codes_done)
qed

section \<open>Usage records\<close>

definition record_ok :: "usage_record \<Rightarrow> bool" where
  "record_ok u \<longleftrightarrow> (\<forall>t. ur_service_tier u = Some t \<longrightarrow>
     validate_provider_text ''service tier'' t MAX_SERVICE_TIER_BYTES = Ok () \<and> utf8_valid t)"

lemma codes_accuracy: "codes (put_u8 (case a of Exact \<Rightarrow> 1 | Estimated \<Rightarrow> 2)) (rd_accuracy RUNTIME_EVENT_SCHEMA) a"
  unfolding rd_accuracy_def
  apply (rule codes_then, simp add: RUNTIME_EVENT_SCHEMA_def)
  by (rule codes_last [OF codes_u8]) (cases a; simp add: codes_done)

lemma codes_usage_record [codes]:
  assumes "record_ok u"
  shows "codes (put_usage_record u) (rd_usage_record RUNTIME_EVENT_SCHEMA) u"
proof -
  have tier: "text_ok MAX_SERVICE_TIER_BYTES t" if "ur_service_tier u = Some t" for t
    using assms that by (auto simp: record_ok_def validate_provider_text_def text_ok_def MAX_SERVICE_TIER_BYTES_def split: if_splits)
  have "usage_record_new (ur_input_tokens u) (ur_cached_input_tokens u) (ur_cache_write_input_tokens u) (ur_output_tokens u)
      (ur_reasoning_output_tokens u) (ur_total_tokens u) (ur_service_tier u) = Ok (u\<lparr>ur_accuracy := Exact\<rparr>)"
    using assms by (cases "ur_service_tier u") (simp_all add: usage_record_new_def record_ok_def)
  then show ?thesis
    unfolding put_usage_record_def rd_usage_record_def
    apply -
    apply (rule codes_step [OF codes_optional_u64])+
    apply (rule codes_step [OF codes_optional], rule codes_string, erule tier)
    apply (rule codes_step [OF codes_accuracy])
    by (simp add: codes_done)
qed

section \<open>Context checkpoints\<close>

lemma codes_view_role [codes]: "codes (put_u8 (view_role_tag r)) rd_view_role r"
  unfolding rd_view_role_def by (rule codes_last [OF codes_u8]) (cases r; simp add: codes_done)

definition artifact_ok :: "context_artifact_ref \<Rightarrow> bool" where
  "artifact_ok a \<longleftrightarrow> length (ar_digest a) = 32
     \<and> artifact_from_stored (ar_item a) (ar_turn a) (ar_role a) (ar_byte_len a) (ar_tokens a) (ar_digest a) = Ok a"

lemma codes_artifact [codes]: "artifact_ok a \<Longrightarrow> codes (put_artifact a) rd_artifact a"
  unfolding put_artifact_def rd_artifact_def artifact_ok_def
  apply (rule codes_step [OF codes_u64])+
  apply (rule codes_step [OF codes_view_role])
  apply (rule codes_step [OF codes_u64])+
  apply (rule codes_step [OF codes_bytes], simp)
  by (simp add: codes_done)

definition item_ok :: "context_view_item \<Rightarrow> bool" where
  "item_ok v \<longleftrightarrow> text_ok MAX_CONTEXT_VIEW_BYTES (vi_text v)
     \<and> view_item_from_stored (vi_item v) (vi_turn v) (vi_role v) (vi_text v) = Ok v"

lemma codes_view_item [codes]: "item_ok v \<Longrightarrow> codes (put_view_item v) rd_view_item v"
  unfolding put_view_item_def rd_view_item_def item_ok_def
  apply (rule codes_step [OF codes_u64])+
  apply (rule codes_step [OF codes_view_role])
  apply (rule codes_step [OF codes_string], simp)
  by (simp add: codes_done)

definition checkpoint_ok :: "context_checkpoint \<Rightarrow> bool" where
  "checkpoint_ok c \<longleftrightarrow> reduced_from_stored (rv_source c) (rv_artifacts c) (rv_recent c) = Ok c
     \<and> (\<exists>head. rv_source c = range_from_head head \<and> (lh_transaction head = 0 \<longleftrightarrow> lh_sequence head = 0))
     \<and> (\<forall>a \<in> set (rv_artifacts c). artifact_ok a) \<and> (\<forall>v \<in> set (rv_recent c). item_ok v)"

lemma codes_checkpoint [codes]:
  assumes "checkpoint_ok c"
  shows "codes (put_checkpoint c) rd_checkpoint c"
proof -
  let ?m = "length (rv_artifacts c)" and ?n = "length (rv_recent c)"
  from assms obtain head where built: "reduced_from_stored (rv_source c) (rv_artifacts c) (rv_recent c) = Ok c"
    and head: "rv_source c = range_from_head head" "lh_transaction head = 0 \<longleftrightarrow> lh_sequence head = 0"
    and parts: "\<And>a. a \<in> set (rv_artifacts c) \<Longrightarrow> artifact_ok a" "\<And>v. v \<in> set (rv_recent c) \<Longrightarrow> item_ok v"
    by (auto simp: checkpoint_ok_def)
  have n: "?m + ?n \<le> MAX_CONTEXT_VIEW_ITEMS"
    using built by (auto simp: reduced_from_stored_def andthen_eq_Ok ok_or_eq_Ok usize_add_def split: if_splits)
  then have counts: "unat (of_nat ?m :: u32) = ?m" "unat (of_nat ?n :: u32) = ?n"
    by (simp_all add: MAX_CONTEXT_VIEW_ITEMS_def)
  have again: "range_head (rv_source c) = head"
    using head by (cases head) (simp add: range_head_def range_from_head_def)
  show ?thesis
    unfolding put_checkpoint_def rd_checkpoint_def again
    apply (rule codes_step [OF codes_u64])
    apply (rule codes_step [OF codes_u64])
    apply (rule codes_else)
    subgoal using head(2) by simp
    apply (rule codes_count)
    subgoal using n by (simp add: MAX_CONTEXT_VIEW_ITEMS_def)
    apply (rule codes_else)
    subgoal using n by (simp add: counts)
    unfolding counts
    apply (rule codes_step [OF codes_list], rule codes_artifact, erule parts, rule refl)
    apply (rule codes_count)
    subgoal using n by (simp add: MAX_CONTEXT_VIEW_ITEMS_def)
    apply (rule codes_else)
    subgoal using n by (simp add: counts usize_add_def is_none_or_def MAX_CONTEXT_VIEW_ITEMS_def)
    unfolding counts
    apply (rule codes_step [OF codes_list], rule codes_view_item, erule parts, rule refl)
    using head built by (cases head) (simp add: codes_done)
qed

section \<open>Events\<close>

definition fallback_ok :: "frozen_provider_fallback \<Rightarrow> bool" where
  "fallback_ok f \<longleftrightarrow> text_ok MAX_CONFIG_ID_BYTES (fb_preset_id f) \<and> nonzero_ok (fb_config f) \<and> nonzero_ok (fb_provider f)"

lemma codes_fallback [codes]: "fallback_ok f \<Longrightarrow> codes (put_fallback f) rd_fallback f"
  unfolding put_fallback_def rd_fallback_def fallback_ok_def
  apply (rule codes_step [OF codes_string], simp)
  apply (rule codes_step [OF codes_id], simp)+
  by (cases f) (simp add: codes_done)

definition selection_ok :: "model_selection \<Rightarrow> bool" where
  "selection_ok m \<longleftrightarrow> selection_validate m = Ok ()
     \<and> utf8_texts [ms_preset_id m, ms_provider_profile m, ms_provider_model m]"

lemma codes_selection:
  assumes "selection_ok m"
  shows "codes (put_seq [put_string (ms_preset_id m), put_u64 (ms_config_fingerprint m), put_string (ms_provider_profile m),
      put_string (ms_provider_model m), put_u8 (provider_dialect_tag (ms_preferred_dialect m))]) rd_selection m"
proof -
  have "length (ms_preset_id m) \<le> 64" "length (ms_provider_profile m) \<le> 512" "length (ms_provider_model m) \<le> 512"
    using assms
    by (auto simp: selection_ok_def selection_validate_def valid_preset_id_def result_ok MAX_CONFIG_ID_BYTES_def MAX_PROVIDER_ID_BYTES_def
        split: if_splits)
  then have texts: "text_ok MAX_CONFIG_ID_BYTES (ms_preset_id m)" "text_ok MAX_PROVIDER_ID_BYTES (ms_provider_profile m)"
    "text_ok MAX_PROVIDER_ID_BYTES (ms_provider_model m)"
    using assms by (simp_all add: selection_ok_def utf8_texts_def text_ok_def MAX_CONFIG_ID_BYTES_def MAX_PROVIDER_ID_BYTES_def)
  have "model_selection_new (ms_preset_id m) (ms_config_fingerprint m) (ms_provider_profile m) (ms_provider_model m)
      (ms_preferred_dialect m) = Ok m"
    using assms by (cases m) (simp add: model_selection_new_def selection_ok_def Let_def)
  then show ?thesis
    unfolding rd_selection_def
    apply -
    apply (rule codes_step [OF codes_string [OF texts(1)]])
    apply (rule codes_step [OF codes_u64])
    apply (rule codes_step [OF codes_string [OF texts(2)]])
    apply (rule codes_step [OF codes_string [OF texts(3)]])
    apply (rule codes_step [OF codes_dialect])
    by (simp add: codes_done)
qed

definition cost_ok :: "frozen_cost_evaluation \<Rightarrow> bool" where
  "cost_ok e \<longleftrightarrow> (\<forall>i f a. e = CostKnown i f a \<longrightarrow> text_ok MAX_PROVIDER_ID_BYTES i)"

lemma codes_evaluation [codes]:
  assumes "cost_ok e"
  shows "codes (put_evaluation e) rd_evaluation e"
proof (cases e)
  case (CostKnown schedule_id schedule_fingerprint amount)
  then have name_ok: "text_ok MAX_PROVIDER_ID_BYTES schedule_id" using assms by (simp add: cost_ok_def)
  show ?thesis
    unfolding CostKnown put_evaluation.simps rd_evaluation_def
    apply (rule codes_step [OF codes_u8])
    apply (rule codes_then, simp)
    apply (rule codes_step [OF codes_string [OF name_ok]])
    apply (rule codes_step [OF codes_u64])+
    by (simp add: codes_done)
next
  case (CostUnknown reason)
  show ?thesis
    unfolding CostUnknown put_evaluation.simps rd_evaluation_def
    apply (rule codes_step [OF codes_u8])
    apply (rule codes_else, simp)
    apply (rule codes_then, simp)
    apply (rule codes_step [OF codes_u8])
    by (simp add: codes_done)
qed

text \<open>What holds of an event that the code has built.  Only replay produces events with a legacy origin, legacy
  usage or no required cost; those are not encoded again.\<close>

fun event_ok :: "'z turn_libs \<Rightarrow> runtime_event \<Rightarrow> bool" where
  "event_ok libs (ContextCheckpointPublished checkpoint) \<longleftrightarrow> checkpoint_ok checkpoint"
| "event_ok libs (ModelSelectionStaged agent selection) \<longleftrightarrow> ident_ok agent \<and> selection_ok selection"
| "event_ok libs (ThreadCreated thread) \<longleftrightarrow> nonzero_ok thread"
| "event_ok libs (ConfigFrozen epoch) \<longleftrightarrow> config_ok libs epoch"
| "event_ok libs (ProviderFrozen epoch) \<longleftrightarrow> provider_ok libs epoch"
| "event_ok libs (TurnAdmitted thread turn user_item config provider fallbacks agent input) \<longleftrightarrow>
     nonzero_ok thread \<and> nonzero_ok turn \<and> nonzero_ok user_item \<and> nonzero_ok config \<and> nonzero_ok provider
     \<and> length fallbacks < MAX_FALLBACK_CANDIDATES \<and> (\<forall>f \<in> set fallbacks. fallback_ok f)
     \<and> (\<forall>a. agent = Some a \<longrightarrow> ident_ok a) \<and> text_ok MAX_INPUT_BYTES input"
| "event_ok libs (AssistantItemStarted turn item) \<longleftrightarrow> nonzero_ok turn \<and> nonzero_ok item"
| "event_ok libs (AssistantTextDelta turn item delta) \<longleftrightarrow> nonzero_ok turn \<and> nonzero_ok item \<and> text_ok MAX_INPUT_BYTES delta"
| "event_ok libs (OutputPrepared turn item delivery text usage_records legacy_usage) \<longleftrightarrow>
     nonzero_ok turn \<and> nonzero_ok item \<and> nonzero_ok delivery \<and> text_ok MAX_INPUT_BYTES text
     \<and> usage_records \<noteq> [] \<and> length usage_records \<le> MAX_USAGE_RECORDS_PER_TURN
     \<and> (\<forall>u \<in> set usage_records. record_ok u) \<and> \<not> legacy_usage"
| "event_ok libs (OutputAcknowledged turn delivery) \<longleftrightarrow> nonzero_ok turn \<and> nonzero_ok delivery"
| "event_ok libs (TurnCompleted turn) \<longleftrightarrow> nonzero_ok turn"
| "event_ok libs (TurnBlocked turn reason origin stage) \<longleftrightarrow>
     nonzero_ok turn \<and> text_ok MAX_BLOCK_REASON_BYTES reason \<and> origin \<noteq> OriginLegacy"
| "event_ok libs (TurnCancelled turn) \<longleftrightarrow> nonzero_ok turn"
| "event_ok libs (TurnRetryRequested turn) \<longleftrightarrow> nonzero_ok turn"
| "event_ok libs (ProviderFallbackRequested turn fallback_index) \<longleftrightarrow> nonzero_ok turn"
| "event_ok libs (UsageAttemptStarted turn attempt started_at) \<longleftrightarrow> nonzero_ok turn \<and> timestamp_ok libs started_at"
| "event_ok libs (UsageAttemptFinished turn attempt completed_at outcome usage named_windows required) \<longleftrightarrow>
     nonzero_ok turn \<and> timestamp_ok libs completed_at \<and> (\<forall>u. usage = Some u \<longrightarrow> record_ok u)
     \<and> length named_windows \<le> MAX_USAGE_WINDOWS \<and> (\<forall>w \<in> set named_windows. text_ok MAX_PROVIDER_ID_BYTES w) \<and> required"
| "event_ok libs (UsageAttemptCostEvaluated turn attempt evaluation) \<longleftrightarrow> nonzero_ok turn \<and> cost_ok evaluation"

abbreviation event_codes :: "'z turn_libs \<Rightarrow> runtime_event \<Rightarrow> bool" where
  "event_codes libs e \<equiv> codes (snd (event_payload e)) (rd_event libs RUNTIME_EVENT_SCHEMA (fst (event_payload e))) e"

lemma rd_event_schema:
  "rd_event libs RUNTIME_EVENT_SCHEMA 17 = rd_bind rd_checkpoint (\<lambda>checkpoint. rd_return (ContextCheckpointPublished checkpoint))"
  "rd_event libs RUNTIME_EVENT_SCHEMA 14 =
     rd_bind (rd_agent ''invalid Agent ID in Model selection'') (\<lambda>agent.
     rd_bind rd_selection (\<lambda>selection. rd_return (ModelSelectionStaged agent selection)))"
  "rd_event libs RUNTIME_EVENT_SCHEMA 1 = rd_bind (rd_id ''ThreadId'') (\<lambda>thread. rd_return (ThreadCreated thread))"
  "rd_event libs RUNTIME_EVENT_SCHEMA 2 = rd_bind (rd_config_epoch libs RUNTIME_EVENT_SCHEMA) (\<lambda>epoch. rd_return (ConfigFrozen epoch))"
  "rd_event libs RUNTIME_EVENT_SCHEMA 3 = rd_bind (rd_provider_epoch libs RUNTIME_EVENT_SCHEMA) (\<lambda>epoch. rd_return (ProviderFrozen epoch))"
  "rd_event libs RUNTIME_EVENT_SCHEMA 4 = rd_turn_admitted RUNTIME_EVENT_SCHEMA"
  "rd_event libs RUNTIME_EVENT_SCHEMA 5 = rd_bind rd_turn (\<lambda>turn. rd_bind rd_item (\<lambda>item. rd_return (AssistantItemStarted turn item)))"
  "rd_event libs RUNTIME_EVENT_SCHEMA 6 = rd_bind rd_turn (\<lambda>turn. rd_bind rd_item (\<lambda>item. rd_bind (rd_string MAX_INPUT_BYTES)
     (\<lambda>delta. rd_return (AssistantTextDelta turn item delta))))"
  "rd_event libs RUNTIME_EVENT_SCHEMA 7 = rd_output_prepared RUNTIME_EVENT_SCHEMA"
  "rd_event libs RUNTIME_EVENT_SCHEMA 8 =
     rd_bind rd_turn (\<lambda>turn. rd_bind rd_delivery (\<lambda>delivery. rd_return (OutputAcknowledged turn delivery)))"
  "rd_event libs RUNTIME_EVENT_SCHEMA 9 = rd_bind rd_turn (\<lambda>turn. rd_return (TurnCompleted turn))"
  "rd_event libs RUNTIME_EVENT_SCHEMA 10 = rd_turn_blocked RUNTIME_EVENT_SCHEMA"
  "rd_event libs RUNTIME_EVENT_SCHEMA 15 = rd_bind rd_turn (\<lambda>turn. rd_return (TurnCancelled turn))"
  "rd_event libs RUNTIME_EVENT_SCHEMA 16 = rd_bind rd_turn (\<lambda>turn. rd_return (TurnRetryRequested turn))"
  "rd_event libs RUNTIME_EVENT_SCHEMA 18 =
     rd_bind rd_turn (\<lambda>turn. rd_bind rd_u32 (\<lambda>fallback_index. rd_return (ProviderFallbackRequested turn fallback_index)))"
  "rd_event libs RUNTIME_EVENT_SCHEMA 11 = rd_bind rd_turn (\<lambda>turn. rd_bind rd_u32 (\<lambda>attempt. rd_bind (rd_timestamp libs)
     (\<lambda>started_at. rd_return (UsageAttemptStarted turn attempt started_at))))"
  "rd_event libs RUNTIME_EVENT_SCHEMA 12 = rd_attempt_finished libs RUNTIME_EVENT_SCHEMA"
  "rd_event libs RUNTIME_EVENT_SCHEMA 13 = rd_bind rd_turn (\<lambda>turn. rd_bind rd_u32 (\<lambda>attempt. rd_bind rd_evaluation
     (\<lambda>evaluation. rd_return (UsageAttemptCostEvaluated turn attempt evaluation))))"
  by (simp_all add: rd_event_def RUNTIME_EVENT_SCHEMA_def)

lemma in_schema_14 [simp]:
  "4 \<le> RUNTIME_EVENT_SCHEMA" "5 \<le> RUNTIME_EVENT_SCHEMA" "10 \<le> RUNTIME_EVENT_SCHEMA" "11 \<le> RUNTIME_EVENT_SCHEMA"
  "13 \<le> RUNTIME_EVENT_SCHEMA" "\<not> RUNTIME_EVENT_SCHEMA < 4" "RUNTIME_EVENT_SCHEMA \<noteq> 1"
  by (simp_all add: RUNTIME_EVENT_SCHEMA_def)

lemma codes_ids:
  "nonzero_ok i \<Longrightarrow> codes (put_id i) (rd_bind (rd_id m) (\<lambda>i. rd_return (f i))) (f i)"
  "nonzero_ok i \<Longrightarrow> nonzero_ok j \<Longrightarrow> codes (put_seq [put_id i, put_id j])
     (rd_bind (rd_id m) (\<lambda>i. rd_bind (rd_id n) (\<lambda>j. rd_return (g i j)))) (g i j)"
  by (rule codes_map [OF codes_id], assumption)
    (rule codes_step [OF codes_id], assumption, rule codes_step [OF codes_id], assumption, rule codes_done)

lemma codes_fallbacks:
  assumes "length fs < MAX_FALLBACK_CANDIDATES" and "\<And>f. f \<in> set fs \<Longrightarrow> fallback_ok f"
  shows "codes (put_seq [put_count (length fs), put_seq (map put_fallback fs)]) (rd_fallbacks RUNTIME_EVENT_SCHEMA) fs"
proof -
  have count: "unat (of_nat (length fs) :: u32) = length fs" using assms(1) by (simp add: MAX_FALLBACK_CANDIDATES_def)
  show ?thesis
    unfolding rd_fallbacks_def
    apply (rule codes_then, simp)
    apply (rule codes_count)
    subgoal using assms(1) by (simp add: MAX_FALLBACK_CANDIDATES_def)
    apply (rule codes_else)
    subgoal using assms(1) by (simp add: count)
    unfolding count
    by (rule codes_one, rule codes_list, rule codes_fallback, erule assms(2), rule refl)
qed

lemma codes_turn_admitted:
  assumes "event_ok libs (TurnAdmitted thread turn user_item config provider fallbacks agent input)"
  shows "event_codes libs (TurnAdmitted thread turn user_item config provider fallbacks agent input)"
proof -
  note fb = codes_fallbacks [of fallbacks]
  show ?thesis
    unfolding event_payload.simps fst_conv snd_conv rd_event_schema rd_turn_admitted_def
    using assms
    apply (simp only: event_ok.simps in_schema_14 if_True)
    apply (elim conjE)
    apply (rule codes_step [OF codes_id], assumption)+
    apply (rule codes_step [OF codes_optional_agent], blast)
    apply (rule codes_step [OF codes_string], assumption)
    apply (rule codes_last [OF fb], assumption, blast)
    by (rule codes_done)
qed

lemma codes_output_usage:
  assumes "us \<noteq> []" and "length us \<le> MAX_USAGE_RECORDS_PER_TURN" and "\<And>u. u \<in> set us \<Longrightarrow> record_ok u"
  shows "codes (put_seq [put_count (length us), put_seq (map put_usage_record us)]) (rd_output_usage RUNTIME_EVENT_SCHEMA) us"
proof -
  have count: "unat (of_nat (length us) :: u32) = length us" using assms(2) by (simp add: MAX_USAGE_RECORDS_PER_TURN_def)
  show ?thesis
    unfolding rd_output_usage_def
    apply (rule codes_else, simp)
    apply (rule codes_count)
    subgoal using assms(2) by (simp add: MAX_USAGE_RECORDS_PER_TURN_def)
    apply (rule codes_else)
    subgoal using assms(1,2) by (simp add: count MAX_USAGE_RECORDS_PER_TURN_def)
    unfolding count
    by (rule codes_one, rule codes_list, rule codes_usage_record, erule assms(3), rule refl)
qed

lemma codes_output_prepared:
  assumes "event_ok libs (OutputPrepared turn item delivery t usage_records legacy_usage)"
  shows "event_codes libs (OutputPrepared turn item delivery t usage_records legacy_usage)"
  unfolding event_payload.simps fst_conv snd_conv rd_event_schema rd_output_prepared_def
  using assms
  apply (simp only: event_ok.simps)
  apply (elim conjE)
  apply (rule codes_step [OF codes_id], assumption)+
  apply (rule codes_step [OF codes_string], assumption)
  apply (rule codes_last [OF codes_output_usage], assumption, assumption, blast)
  by (simp add: codes_done)

lemma codes_turn_blocked:
  assumes "event_ok libs (TurnBlocked turn reason origin stage)"
  shows "event_codes libs (TurnBlocked turn reason origin stage)"
proof -
  have origin: "codes (andthen (turn_block_origin_tag origin) put_u8)
      (rd_bind rd_u8 (\<lambda>tag. rd_try (decode_turn_block_origin tag) rd_return)) origin"
    using assms by (cases origin) (auto simp: decode_turn_block_origin_def intro!: codes_last [OF codes_u8] codes_done)
  have stage: "codes (put_optional_stage stage) (rd_bind rd_u8 (\<lambda>tag. rd_try (decode_optional_stage tag) rd_return)) stage"
    unfolding put_optional_stage_def
    by (rule codes_last [OF codes_u8])
      (auto simp: decode_optional_stage_def codes_done split: option.split provider_unavailable_stage.split)
  show ?thesis
    unfolding event_payload.simps fst_conv snd_conv rd_event_schema rd_turn_blocked_def
    using assms
    apply (simp only: event_ok.simps in_schema_14 if_True)
    apply (elim conjE)
    apply (rule codes_step [OF codes_id], assumption)
    apply (rule codes_step [OF codes_string], assumption)
    apply (rule codes_step [OF origin])
    apply (rule codes_step [OF stage])
    by (rule codes_done)
qed

lemma codes_attempt_finished:
  assumes "event_ok libs (UsageAttemptFinished turn attempt completed_at outcome usage named_windows required)"
  shows "event_codes libs (UsageAttemptFinished turn attempt completed_at outcome usage named_windows required)"
proof -
  have count: "unat (of_nat (length named_windows) :: u32) = length named_windows"
    using assms by (simp add: MAX_USAGE_WINDOWS_def)
  have required: "required = (5 \<le> RUNTIME_EVENT_SCHEMA)" using assms by simp
  show ?thesis
    unfolding event_payload.simps fst_conv snd_conv rd_event_schema rd_attempt_finished_def required
    using assms
    apply (simp only: event_ok.simps)
    apply (elim conjE)
    apply (rule codes_step [OF codes_id], assumption)
    apply (rule codes_step [OF codes_u32])
    apply (rule codes_step [OF codes_timestamp], assumption)
    apply (rule codes_step [OF codes_u8])
    apply (rule codes_try, rule decode_tags)
    apply (rule codes_step [OF codes_optional], rule codes_usage_record, blast)
    apply (rule codes_count)
    subgoal by (simp add: MAX_USAGE_WINDOWS_def)
    apply (rule codes_else)
    subgoal by (simp add: count)
    unfolding count
    apply (rule codes_step [OF codes_list], rule codes_string, blast, rule refl)
    by (rule codes_done)
qed

lemma event_reads_back:
  assumes "event_ok libs e"
  shows "event_codes libs e"
proof (cases e)
  case (ModelSelectionStaged agent selection)
  with assms show ?thesis
    by (auto simp: rd_event_schema intro!: codes_step [OF codes_agent] codes_last [OF codes_selection] codes_done)
next
  case TurnAdmitted
  with assms show ?thesis by (simp only: codes_turn_admitted)
next
  case OutputPrepared
  with assms show ?thesis by (simp only: codes_output_prepared)
next
  case TurnBlocked
  with assms show ?thesis by (simp only: codes_turn_blocked)
next
  case UsageAttemptFinished
  with assms show ?thesis by (simp only: codes_attempt_finished)
qed (use assms in \<open>auto simp only: rd_event_schema event_payload.simps event_ok.simps fst_conv snd_conv
    intro!: codes_ids codes_map [OF codes_checkpoint] codes_map [OF codes_config_epoch] codes_map [OF codes_provider_epoch]
      codes_step [OF codes_id] codes_step [OF codes_string] codes_step [OF codes_u32] codes_step [OF codes_timestamp]
      codes_step [OF codes_evaluation] codes_done\<close>)

text \<open>The round trip of an event through the ledger's form.\<close>

lemma event_round_trip:
  assumes "event_ok libs e"
  obtains data where "encode_runtime_event e = Ok data"
    and "length (ed_payload data) < 2 ^ 64 \<Longrightarrow> decode_runtime_event libs data = Ok e"
    and "ed_schema data = RUNTIME_EVENT_SCHEMA"
proof -
  from event_reads_back [OF assms] obtain w where w: "snd (event_payload e) = Ok w"
    and reads: "reads (rd_event libs RUNTIME_EVENT_SCHEMA (fst (event_payload e))) e w"
    by (auto simp: codes_def)
  let ?data = "\<lparr>ed_schema = RUNTIME_EVENT_SCHEMA, ed_kind = fst (event_payload e), ed_payload = w\<rparr>"
  have "decode_runtime_event libs ?data = Ok e" if "length w < 2 ^ 64"
    using reads [unfolded reads_def, rule_format, of "[]" "[]"] that
    by (simp add: decode_runtime_event_def decoder_new_def rd_finish_def RUNTIME_EVENT_SCHEMA_def)
  then show thesis using w by (intro that [of ?data]) (simp_all add: encode_runtime_event_def)
qed

end
