(* ===== verification/Turn_Store_Claims.thy ===== *)
theory Turn_Store_Claims
  imports Turn_Wire_Laws Turn_Demo
begin

text \<open>The properties of the stored form of Turns, each with its witness.\<close>

section \<open>Round trip\<close>







end
