(* ===== verification/Spec2Isabelle.thy ===== *)
theory Spec2Isabelle
  imports Team_Claims Sse_Claims Ledger_Claims Team_Durable_Claims Usage_Claims Tool_Claims Config_Claims Context_Claims
    Turn_Claims Turn_Store_Claims
begin

text \<open>
  A verification library for GreenTyper's provider-neutral core,
  \<open>crates/greentyper-core/src\<close>.  Every definition translates a function, a type or one branch or
  loop of a function of the source and keeps its name where Isabelle allows it.

  \<^bold>\<open>The program.\<close>  GreenTyper runs a team of coding Agents.  \<open>agent_team.rs\<close> is the state machine of
  the team: commands are planned into events, the events are folded into the state, a scheduler
  activates Agents, and the log of events rebuilds the state after a crash.  \<open>ledger.rs\<close> is the
  append-only file the events are made durable in, and \<open>agent_team/persistence.rs\<close> keeps the two in step:
  it encodes each transaction of events, appends it, publishes it, and rebuilds the team from the file.
  \<open>provider/sse.rs\<close> reads the event streams of
  model Providers.  \<open>pricing.rs\<close> estimates what a request cost and \<open>usage.rs\<close> keeps the account of every
  request: cached totals per Thread, Turn, Agent and usage window, and pages over all of them.
  \<open>tool_runtime.rs\<close> asks for approval of Tool calls, executes the granted ones once, and keeps what
  became of them in a ledger of its own, so that a crash in the middle of an effect is found and reconciled.
  \<open>config.rs\<close> resolves the layers of settings, and \<open>context.rs\<close> makes the bounded view of a conversation that
  a model is sent.  \<open>runtime.rs\<close> runs one Turn at a time: it freezes settings and Provider, sends the request,
  records usage, prepares the answer and waits for its acknowledgement, all as events of a third ledger.
  \<open>model.rs\<close> and \<open>schema.rs\<close> are the identifiers, conversation items and schema
  versions all of them use.

  \<^bold>\<open>Theories.\<close>
  \<^item> \<open>Prelude\<close>: Rust's integer types, checked arithmetic and \<open>Result\<close>; \<open>andthen\<close> is the \<open>?\<close> operator.
    \<open>Rust_Text\<close>: \<open>str::trim\<close>, control characters and UTF-8 validity on bytes.  \<open>Ordered_Map\<close>: the
    interface of \<open>BTreeMap\<close> as a locale, and sorted association lists as its interpretation.
  \<^item> \<open>Model\<close>: \<open>model.rs\<close> and \<open>schema.rs\<close>.
  \<^item> \<open>Team_Types\<close>, \<open>Team_State\<close>, \<open>Team_Runtime\<close>: \<open>agent_team.rs\<close>.  The types and validators; \<open>TeamState\<close>
    with one \<open>apply_\<dots>\<close> definition per event, the whole-state checks and \<open>reconcile\<close>; the commands,
    durable operations, snapshots and recovery.
  \<^item> \<open>Team_Tree\<close>: the abstract authority tree that the Agent Team implements.  \<open>Team_Fold\<close> shows that
    every event is a step of the tree or leaves it alone, \<open>Team_Schedule\<close> what the scheduler emits and
    that its loop ends, \<open>Team_Prepare\<close> what a prepared transaction is, \<open>Team_Replay\<close> and \<open>Team_Reach\<close>
    reachable runtimes and the recovery loop, \<open>Team_Life\<close> and \<open>Team_Laws\<close> the lifecycles and bounds.
    \<open>Team_Demo\<close> is a concrete team; \<open>Team_Claims\<close> states the properties.
  \<^item> \<open>Sse\<close>, \<open>Sse_Claims\<close>: \<open>provider/sse.rs\<close> and its properties.
  \<^item> \<open>Bytes\<close>, \<open>Ledger\<close>, \<open>Ledger_Laws\<close>, \<open>Ledger_Claims\<close>: little-endian integers and CRC-32C, \<open>ledger.rs\<close>,
    the laws of frames and scans, the properties.
  \<^item> \<open>Team_Codec\<close>, \<open>Team_Durable\<close>: \<open>agent_team/persistence.rs\<close>.  The encoding of every event kind in its
    four schemas; opening, inspecting, dispatching, durable operations and acknowledgements.
    \<open>Team_Codec_Laws\<close> shows that each decoder reads back what its encoder wrote, \<open>Team_Stored\<close> that the
    fold only accepts events that can be stored, \<open>Team_Durable_Laws\<close> that ledger and runtime stay in
    step, \<open>Team_Journal\<close> that the operation journal is exact.  \<open>Team_Durable_Demo\<close> is a concrete history;
    \<open>Team_Durable_Claims\<close> states the properties.
  \<^item> \<open>Pricing\<close>, \<open>Pricing_Claims\<close>: \<open>pricing.rs\<close>.  Schedules, their checks, the book and estimates.
  \<^item> \<open>Rust_Number\<close>: printing and parsing of integers.  \<open>Accumulator\<close>: the locale of a commutative \<open>merge\<close>, for
    which totals do not depend on the order of their parts, lifted to maps.
  \<^item> \<open>Usage_Window\<close>, \<open>Usage_Rollup\<close>, \<open>Usage_Projection\<close>: \<open>usage.rs\<close>.  Windows of local time; attempts and
    the rollups of their counts, ratios, costs and names; the projection, its queries and cursors.
    \<open>Usage_Laws\<close> interprets \<open>accumulator\<close> on each part of a rollup, \<open>Usage_Totals\<close> on whole rollups and shows
    that observing is merging; \<open>Usage_Scopes\<close> shows that the caches stay exact, \<open>Usage_Pages\<close> that rolling
    windows and pages are; \<open>Usage_Claims\<close> states the properties.
  \<^item> \<open>Event_Store\<close>: the locale \<open>event_sourced\<close> of a component whose state is the fold of the events in a ledger;
    what memory and file hold after an append with any outcome.  \<open>Ledger_Demo\<close>: short concrete ledgers.
  \<^item> \<open>Tool_Types\<close>, \<open>Tool_State\<close>, \<open>Tool_Codec\<close>, \<open>Tool_Runtime\<close>: \<open>tool_runtime.rs\<close>.  Arguments, resources and
    records; the fold of the nine kinds of event; their payloads; opening, requesting, resolving and
    reconciling.  \<open>Tool_Codec_Laws\<close> shows that what is stored reads back and interprets \<open>event_sourced\<close>,
    \<open>Tool_Laws\<close> gives the abstract registry of calls that the state refines, \<open>Tool_Life\<close> the histories with
    failed writes and restarts, \<open>Tool_Canonical\<close> the canonical text of arguments and the bytes of a binding.
    \<open>Tool_Demo\<close> is a concrete call; \<open>Tool_Claims\<close> states the properties.

  \<^item> \<open>Config\<close>, \<open>Config_Claims\<close>: \<open>config.rs\<close>.  The four layers of settings, their resolution, the epoch frozen
    for a Turn and its fingerprint.
  \<^item> \<open>Context_View\<close>, \<open>Context_Laws\<close>, \<open>Context_Claims\<close>: \<open>context.rs\<close>.  Views of a conversation, their reduction
    to artifacts and a recent tail, requests made from a stored reduction, and admission under token pressure.
  \<^item> \<open>Provider_Core\<close>: the provider-neutral part of \<open>provider.rs\<close>.  Profile snapshots, epochs and their
    fingerprints, requests, stream events and the deterministic simulator.
  \<^item> \<open>Turn_State\<close>, \<open>Turn_Apply\<close>: the events of \<open>runtime.rs\<close>, one \<open>apply_\<dots>\<close> definition each, and the checks of a
    whole transaction.  \<open>Turn_Laws\<close> inverts accepted events, \<open>Turn_Reach\<close> gives the invariants of reachable
    states, \<open>Turn_Talk\<close> the abstract conversation that they refine, \<open>Turn_Runs\<close> what holds of whole runs of
    events and of usage attempts.  \<open>Turn_Demo\<close> is a concrete Turn; \<open>Turn_Claims\<close> states the properties.
  \<^item> \<open>Turn_Codec\<close>, \<open>Turn_Wire\<close>: how the events of \<open>runtime.rs\<close> are encoded, every value and every kind of event.
    \<open>Turn_Codec_Laws\<close> has the rules by which a decoder reads what an encoder wrote, \<open>Turn_Wire_Laws\<close> applies them to
    each value, \<open>Turn_Store_Claims\<close> states the properties.

  \<^bold>\<open>Conventions.\<close>  A \<open>u64\<close> is a \<open>64 word\<close>; \<open>usize\<close> is \<open>nat\<close> with the bound of the checked operations
  written out.  The bodies of error messages are format strings without their arguments.  A process
  file is the list of its bytes.  Code outside \<open>src/\<close> is a parameter: the \<open>url\<close> crate (\<open>url_lib\<close>), the digest \<open>sha256\<close> of the page
  cursors, argument hashes, bindings and context artifacts, the time-zone database \<open>tz_rules\<close> of the usage windows, \<open>serde_json\<close>
  (\<open>json_lib\<close> and \<open>tool_serde\<close>; \<open>serde_faithful\<close> says that a value that was written reads back), the clock and
  the executor of Tool effects.  Fuel occurs in the walk to the root of the Agent tree (the number of
  Agents plus one) and in the activation loop (the number of Tasks plus one); both are enough, which
  \<open>commands_return\<close> and \<open>recovery_returns\<close> state.  All other loops are structural or have a measure.

  \<^bold>\<open>Not modelled.\<close>  The three Provider protocol adapters, the catalog and discovery of Providers, the loading of TOML
  documents, and access to the workspace: they are decoders and effects over \<open>serde_json\<close>, \<open>toml\<close> and the file
  system.  The \<open>Display\<close> and \<open>Debug\<close> implementations; the clock; the operating system (permissions, locks
  and reads that fail); the terminal, the HTTP clients, the command line and the application server of
  the crate \<open>greentyper\<close>, which are input and output around the core.
\<close>

end
